(* ===== verification/Prelude.thy ===== *)
theory Prelude
  imports Main "HOL-Library.Word" "HOL-Library.Multiset"
begin

text \<open>
  Shared vocabulary of the development: Rust's \<open>Result\<close> with its combinators, byte
  strings, Unicode strings as lists of code points with literals, \<open>Ordering\<close> with the
  byte-wise comparison of \<open>Vec<u8>\<close> and \<open>String\<close>, the stable sort behind \<open>sort_by\<close>, and the
  sorted association lists behind \<open>BTreeMap\<close>. Nothing here is specific to Silicon Hook; the
  definitions state what the language's standard library does, as far as the source uses it.
\<close>

section \<open>Collections of facts\<close>

named_theorems result_simps \<open>equations of the \<open>Result\<close> combinators\<close>
named_theorems wf_intros \<open>well-formedness facts used as introduction rules\<close>

section \<open>Results\<close>

datatype ('a, 'e) result = Ok 'a | Err 'e

fun is_ok :: "('a, 'e) result \<Rightarrow> bool" where
  "is_ok (Ok _) = True"
| "is_ok (Err _) = False"

fun and_then :: "('a, 'e) result \<Rightarrow> ('a \<Rightarrow> ('b, 'e) result) \<Rightarrow> ('b, 'e) result" where
  "and_then (Ok a) f = f a"
| "and_then (Err e) f = Err e"

fun map_ok :: "('a \<Rightarrow> 'b) \<Rightarrow> ('a, 'e) result \<Rightarrow> ('b, 'e) result" where
  "map_ok f (Ok a) = Ok (f a)"
| "map_ok f (Err e) = Err e"

fun map_err :: "('e \<Rightarrow> 'f) \<Rightarrow> ('a, 'e) result \<Rightarrow> ('a, 'f) result" where
  "map_err f (Ok a) = Ok a"
| "map_err f (Err e) = Err (f e)"

fun ok_or :: "'e \<Rightarrow> 'a option \<Rightarrow> ('a, 'e) result" where
  "ok_or e None = Err e"
| "ok_or e (Some a) = Ok a"

fun or_else :: "'a option \<Rightarrow> 'a option \<Rightarrow> 'a option" where
  "or_else (Some a) _ = Some a"
| "or_else None b = b"

text \<open>\<open>transpose\<close> of an optional result: absent input is success with nothing.\<close>

fun transpose_opt :: "('a, 'e) result option \<Rightarrow> ('a option, 'e) result" where
  "transpose_opt None = Ok None"
| "transpose_opt (Some (Ok a)) = Ok (Some a)"
| "transpose_opt (Some (Err e)) = Err e"

text \<open>\<open>iter().map(f).collect::<Result<Vec<_>, _>>()\<close>: the first error ends the walk.\<close>

fun collect_map :: "('a \<Rightarrow> ('b, 'e) result) \<Rightarrow> 'a list \<Rightarrow> ('b list, 'e) result" where
  "collect_map f [] = Ok []"
| "collect_map f (x # xs) =
     (case f x of
        Err e \<Rightarrow> Err e
      | Ok y \<Rightarrow> (case collect_map f xs of Err e \<Rightarrow> Err e | Ok ys \<Rightarrow> Ok (y # ys)))"

lemma collect_map_cong [fundef_cong]:
  assumes "xs = ys" and "\<And>x. x \<in> set ys \<Longrightarrow> f x = g x"
  shows "collect_map f xs = collect_map g ys"
proof -
  have "(\<And>x. x \<in> set ys \<Longrightarrow> f x = g x) \<Longrightarrow> collect_map f ys = collect_map g ys"
    by (induction ys) (auto split: result.splits)
  then show ?thesis using assms by blast
qed

lemma and_then_Ok_iff [result_simps]:
  "and_then r f = Ok b \<longleftrightarrow> (\<exists>a. r = Ok a \<and> f a = Ok b)"
  by (cases r) auto

lemma and_then_Err_iff [result_simps]:
  "and_then r f = Err e \<longleftrightarrow> r = Err e \<or> (\<exists>a. r = Ok a \<and> f a = Err e)"
  by (cases r) auto

lemma map_err_Ok_iff [result_simps]: "map_err f r = Ok a \<longleftrightarrow> r = Ok a"
  by (cases r) auto

lemma map_err_Err_iff [result_simps]: "map_err f r = Err e \<longleftrightarrow> (\<exists>x. r = Err x \<and> e = f x)"
  by (cases r) auto

lemma map_ok_Ok_iff [result_simps]: "map_ok f r = Ok b \<longleftrightarrow> (\<exists>a. r = Ok a \<and> b = f a)"
  by (cases r) auto

lemma map_ok_Err_iff [result_simps]: "map_ok f r = Err e \<longleftrightarrow> r = Err e"
  by (cases r) auto

lemma ok_or_Ok_iff [result_simps]: "ok_or e x = Ok a \<longleftrightarrow> x = Some a"
  by (cases x) auto

lemma ok_or_Err_iff [result_simps]: "ok_or e x = Err y \<longleftrightarrow> x = None \<and> y = e"
  by (cases x) auto

lemma or_else_None_iff [simp]: "or_else a b = None \<longleftrightarrow> a = None \<and> b = None"
  by (cases a) auto

lemma transpose_opt_Ok_iff [result_simps]:
  "transpose_opt x = Ok y \<longleftrightarrow>
     (x = None \<and> y = None) \<or> (\<exists>a. x = Some (Ok a) \<and> y = Some a)"
  by (cases x rule: transpose_opt.cases) auto

lemma collect_map_Ok_iff [result_simps]:
  "collect_map f xs = Ok ys \<longleftrightarrow> list_all2 (\<lambda>x y. f x = Ok y) xs ys"
  by (induction xs arbitrary: ys)
    (auto simp: list_all2_Cons1 split: result.splits, metis result.inject(1))

lemma collect_map_Err:
  "collect_map f xs = Err e \<Longrightarrow> \<exists>x \<in> set xs. f x = Err e"
  by (induction xs) (auto split: result.splits)

lemma collect_map_length: "collect_map f xs = Ok ys \<Longrightarrow> length ys = length xs"
  by (auto simp: result_simps dest: list_all2_lengthD)

lemma collect_map_total:
  "(\<And>x. x \<in> set xs \<Longrightarrow> f x = Ok (g x)) \<Longrightarrow> collect_map f xs = Ok (map g xs)"
  by (induction xs) auto

section \<open>Bytes and strings\<close>

type_synonym byte = "8 word"
type_synonym bytes = "byte list"

text \<open>
  A Rust \<open>char\<close> is a Unicode scalar value, kept as its code point; a \<open>String\<close> is the list of
  its \<open>char\<close>s. Literals of the source are written \<open>lit ''...''\<close>; the equations of \<open>lit\<close> are
  applied on request only, so that comparisons of literals stay comparisons of the quoted text.
\<close>

type_synonym ustring = "nat list"

definition lit :: "string \<Rightarrow> ustring" where
  "lit s = map of_char s"

lemma lit_Nil [simp]: "lit [] = []"
  by (simp add: lit_def)

lemma lit_eq_Nil [simp]: "lit s = [] \<longleftrightarrow> s = []" "[] = lit s \<longleftrightarrow> s = []"
  by (simp_all add: lit_def)

lemma lit_Cons: "lit (c # s) = of_char c # lit s"
  by (simp add: lit_def)

lemma lit_inject [simp]: "lit s = lit t \<longleftrightarrow> s = t"
proof
  assume "lit s = lit t"
  then show "s = t"
  proof (induction s arbitrary: t)
    case Nil
    then show ?case by simp
  next
    case (Cons c s)
    then show ?case by (cases t) (simp_all add: lit_Cons)
  qed
qed simp

lemma lit_append: "lit (s @ t) = lit s @ lit t"
  by (simp add: lit_def)

lemma length_lit [simp]: "length (lit s) = length s"
  by (simp add: lit_def)

section \<open>Comparison\<close>

datatype ordering = Less | Equal | Greater

fun reverse_ordering :: "ordering \<Rightarrow> ordering" where
  "reverse_ordering Less = Greater"
| "reverse_ordering Equal = Equal"
| "reverse_ordering Greater = Less"

fun cmp_list :: "('a::linorder) list \<Rightarrow> 'a list \<Rightarrow> ordering" where
  "cmp_list [] [] = Equal"
| "cmp_list [] (_ # _) = Less"
| "cmp_list (_ # _) [] = Greater"
| "cmp_list (x # xs) (y # ys) =
     (if x < y then Less else if y < x then Greater else cmp_list xs ys)"

lemma cmp_list_Equal [simp]: "cmp_list xs ys = Equal \<longleftrightarrow> xs = ys"
  by (induction xs ys rule: cmp_list.induct) auto

lemma cmp_list_refl [simp]: "cmp_list xs xs = Equal"
  by simp

lemma cmp_list_flip: "cmp_list ys xs = reverse_ordering (cmp_list xs ys)"
  by (induction xs ys rule: cmp_list.induct) auto

lemma cmp_list_trans:
  "cmp_list xs ys = Less \<Longrightarrow> cmp_list ys zs = Less \<Longrightarrow> cmp_list xs zs = Less"
proof (induction xs ys arbitrary: zs rule: cmp_list.induct)
  case (4 x xs y ys)
  from "4.prems"(2) obtain z zs' where "zs = z # zs'"
    by (cases zs) auto
  with 4 show ?case
    by (auto split: if_splits dest: less_trans)
next
  case (2 y ys)
  then show ?case by (cases zs) auto
qed auto

lemma reverse_ordering_simps [simp]:
  "reverse_ordering r = Less \<longleftrightarrow> r = Greater"
  "reverse_ordering r = Greater \<longleftrightarrow> r = Less"
  "reverse_ordering r = Equal \<longleftrightarrow> r = Equal"
  "reverse_ordering (reverse_ordering r) = r"
  by (cases r; simp)+

section \<open>Stable sorting\<close>

text \<open>
  \<open>slice::sort_by\<close> is documented to be stable: elements that compare equal keep their order.
  Insertion that never passes an equal element gives that result.
\<close>

fun insert_by :: "('a \<Rightarrow> 'a \<Rightarrow> ordering) \<Rightarrow> 'a \<Rightarrow> 'a list \<Rightarrow> 'a list" where
  "insert_by cmp x [] = [x]"
| "insert_by cmp x (y # ys) =
     (if cmp x y = Greater then y # insert_by cmp x ys else x # y # ys)"

fun sort_by :: "('a \<Rightarrow> 'a \<Rightarrow> ordering) \<Rightarrow> 'a list \<Rightarrow> 'a list" where
  "sort_by cmp [] = []"
| "sort_by cmp (x # xs) = insert_by cmp x (sort_by cmp xs)"

definition lawful_cmp :: "('a \<Rightarrow> 'a \<Rightarrow> ordering) \<Rightarrow> bool" where
  "lawful_cmp cmp \<longleftrightarrow>
     (\<forall>x y. cmp y x = reverse_ordering (cmp x y)) \<and>
     (\<forall>x y z. cmp x y \<noteq> Greater \<longrightarrow> cmp y z \<noteq> Greater \<longrightarrow> cmp x z \<noteq> Greater)"

definition sorted_by :: "('a \<Rightarrow> 'a \<Rightarrow> ordering) \<Rightarrow> 'a list \<Rightarrow> bool" where
  "sorted_by cmp = sorted_wrt (\<lambda>x y. cmp x y \<noteq> Greater)"

lemma mset_insert_by: "mset (insert_by cmp x xs) = {#x#} + mset xs"
  by (induction xs) auto

lemma mset_sort_by [simp]: "mset (sort_by cmp xs) = mset xs"
  by (induction xs) (auto simp: mset_insert_by)

lemma set_sort_by [simp]: "set (sort_by cmp xs) = set xs"
  by (metis mset_sort_by set_mset_mset)

lemma length_sort_by [simp]: "length (sort_by cmp xs) = length xs"
  by (metis mset_sort_by size_mset)

lemma set_insert_by: "set (insert_by cmp x xs) = insert x (set xs)"
  by (induction xs) auto

lemma sorted_insert_by:
  assumes "lawful_cmp cmp" and "sorted_by cmp xs"
  shows "sorted_by cmp (insert_by cmp x xs)"
  using assms(2)
proof (induction xs)
  case Nil
  then show ?case by (simp add: sorted_by_def)
next
  case (Cons y ys)
  have flip: "\<And>a b. cmp a b = Greater \<Longrightarrow> cmp b a = Less"
    using assms(1) unfolding lawful_cmp_def by (metis reverse_ordering.simps(3))
  have trans: "\<And>a b c. cmp a b \<noteq> Greater \<Longrightarrow> cmp b c \<noteq> Greater \<Longrightarrow> cmp a c \<noteq> Greater"
    using assms(1) unfolding lawful_cmp_def by blast
  show ?case
  proof (cases "cmp x y = Greater")
    case True
    with Cons flip [OF True] show ?thesis
      by (auto simp: sorted_by_def set_insert_by)
  next
    case False
    with Cons.prems trans show ?thesis
      by (auto simp: sorted_by_def)
  qed
qed

lemma sorted_sort_by: "lawful_cmp cmp \<Longrightarrow> sorted_by cmp (sort_by cmp xs)"
proof (induction xs)
  case Nil
  then show ?case by (simp add: sorted_by_def)
next
  case (Cons x xs)
  then show ?case by (simp add: sorted_insert_by)
qed

text \<open>Stability: for any class of mutually equal elements, the order is that of the input.\<close>

lemma filter_insert_by:
  assumes "\<And>y. P y \<Longrightarrow> P x \<Longrightarrow> cmp x y = Equal"
  shows "filter P (insert_by cmp x xs) = (if P x then x # filter P xs else filter P xs)"
  by (induction xs) (auto dest: assms)

lemma sort_by_stable:
  assumes "\<And>x y. P x \<Longrightarrow> P y \<Longrightarrow> cmp x y = Equal"
  shows "filter P (sort_by cmp xs) = filter P xs"
proof (induction xs)
  case Nil
  then show ?case by simp
next
  case (Cons x xs)
  have "filter P (insert_by cmp x (sort_by cmp xs)) =
        (if P x then x # filter P (sort_by cmp xs) else filter P (sort_by cmp xs))"
    by (rule filter_insert_by) (auto intro: assms)
  with Cons show ?case by simp
qed

lemma lawful_cmp_list: "lawful_cmp (\<lambda>x y. cmp_list (f x) (f y))"
  unfolding lawful_cmp_def
proof (intro conjI allI impI)
  fix x y
  show "cmp_list (f y) (f x) = reverse_ordering (cmp_list (f x) (f y))"
    by (rule cmp_list_flip)
next
  fix x y z
  assume "cmp_list (f x) (f y) \<noteq> Greater" and "cmp_list (f y) (f z) \<noteq> Greater"
  then show "cmp_list (f x) (f z) \<noteq> Greater"
    by (metis cmp_list_Equal cmp_list_trans ordering.distinct(3) ordering.exhaust)
qed

lemma lawful_cmp_reverse:
  "lawful_cmp cmp \<Longrightarrow> lawful_cmp (\<lambda>x y. reverse_ordering (cmp x y))"
  unfolding lawful_cmp_def
  by (metis reverse_ordering_simps(2) reverse_ordering_simps(1) reverse_ordering_simps(4))

text \<open>Two sorted lists of the same elements agree when only equal elements compare as equal.\<close>

lemma sorted_by_unique:
  assumes "lawful_cmp cmp" and "\<And>x y. x \<in> set xs \<Longrightarrow> y \<in> set xs \<Longrightarrow> cmp x y = Equal \<Longrightarrow> x = y"
  shows "sorted_by cmp xs \<Longrightarrow> sorted_by cmp ys \<Longrightarrow> mset xs = mset ys \<Longrightarrow> xs = ys"
  using assms(2)
proof (induction xs arbitrary: ys)
  case Nil
  then show ?case by simp
next
  case (Cons x xs)
  then obtain y ys' where ys: "ys = y # ys'" by (cases ys) auto
  have s: "set (x # xs) = set ys" using Cons.prems(3) by (metis set_mset_mset)
  have flip: "cmp b a = reverse_ordering (cmp a b)" for a b
    using assms(1) unfolding lawful_cmp_def by blast
  have "x = y"
  proof (rule ccontr)
    assume ne: "x \<noteq> y"
    have "x \<in> set ys'" using s ys ne by (metis list.set_intros(1) set_ConsD)
    moreover have y: "y \<in> set xs" using s ys ne by (metis list.set_intros(1) set_ConsD)
    ultimately have "cmp y x \<noteq> Greater" "cmp x y \<noteq> Greater"
      using Cons.prems(1,2) unfolding ys sorted_by_def by simp_all
    then have "cmp x y = Equal"
      by (metis flip ordering.exhaust reverse_ordering.simps(1))
    with Cons.prems(4) [of x y] y ne show False by simp
  qed
  moreover have "xs = ys'"
  proof (rule Cons.IH)
    show "sorted_by cmp xs" "sorted_by cmp ys'"
      using Cons.prems(1,2) unfolding ys sorted_by_def by simp_all
    show "mset xs = mset ys'"
      using Cons.prems(3) \<open>x = y\<close> unfolding ys by simp
    show "\<And>a b. a \<in> set xs \<Longrightarrow> b \<in> set xs \<Longrightarrow> cmp a b = Equal \<Longrightarrow> a = b"
      using Cons.prems(4) by (meson list.set_intros(2))
  qed
  ultimately show ?case using ys by blast
qed

lemma sort_by_permutation:
  assumes "lawful_cmp cmp" and "mset xs = mset ys"
    and "\<And>x y. x \<in> set xs \<Longrightarrow> y \<in> set xs \<Longrightarrow> cmp x y = Equal \<Longrightarrow> x = y"
  shows "sort_by cmp xs = sort_by cmp ys"
  by (rule sorted_by_unique [OF assms(1)]) (simp_all add: assms sorted_sort_by)

lemma lawful_cmp_comap: "lawful_cmp cmp \<Longrightarrow> lawful_cmp (\<lambda>x y. cmp (f x) (f y))"
  unfolding lawful_cmp_def by blast

end
