(* ===== verification/Std_Text.thy ===== *)
theory Std_Text
  imports Prelude
begin

text \<open>
  What the source uses of Rust's \<open>char\<close>, \<open>str\<close> and \<open>String\<close>: UTF-8 encoding and checked
  decoding, the character classes of \<open>char\<close> and \<open>u8\<close>, ASCII case mapping, \<open>trim\<close>, \<open>split\<close>,
  \<open>split_once\<close>, prefixes, and decimal printing and parsing of \<open>usize\<close>. The lemmas show that
  encoding and decoding are inverse to each other, which is the invariant behind \<open>String\<close>.
\<close>

section \<open>Unicode scalar values and UTF-8\<close>

definition scalar :: "nat \<Rightarrow> bool" where
  "scalar c \<longleftrightarrow> c < 0xD800 \<or> (0xE000 \<le> c \<and> c \<le> 0x10FFFF)"

definition valid_text :: "ustring \<Rightarrow> bool" where
  "valid_text s \<longleftrightarrow> (\<forall>c \<in> set s. scalar c)"

definition byte_of :: "nat \<Rightarrow> byte" where
  "byte_of n = of_nat n"

definition utf8_char :: "nat \<Rightarrow> bytes" where
  "utf8_char c =
     (if c < 0x80 then [byte_of c]
      else if c < 0x800 then [byte_of (0xC0 + c div 64), byte_of (0x80 + c mod 64)]
      else if c < 0x10000 then
        [byte_of (0xE0 + c div 4096), byte_of (0x80 + c div 64 mod 64), byte_of (0x80 + c mod 64)]
      else
        [byte_of (0xF0 + c div 262144), byte_of (0x80 + c div 4096 mod 64),
         byte_of (0x80 + c div 64 mod 64), byte_of (0x80 + c mod 64)])"

definition utf8 :: "ustring \<Rightarrow> bytes" where
  "utf8 s = concat (map utf8_char s)"

definition continuation :: "byte \<Rightarrow> nat option" where
  "continuation b = (if 0x80 \<le> unat b \<and> unat b < 0xC0 then Some (unat b - 0x80) else None)"

fun from_utf8 :: "bytes \<Rightarrow> ustring option" where
  "from_utf8 [] = Some []"
| "from_utf8 (b # bs) =
     (if unat b < 0x80 then map_option (Cons (unat b)) (from_utf8 bs)
      else if 0xC2 \<le> unat b \<and> unat b < 0xE0 then
        (case bs of
           b1 # r \<Rightarrow>
             (case continuation b1 of
                Some x \<Rightarrow> map_option (Cons ((unat b - 0xC0) * 64 + x)) (from_utf8 r)
              | None \<Rightarrow> None)
         | _ \<Rightarrow> None)
      else if 0xE0 \<le> unat b \<and> unat b < 0xF0 then
        (case bs of
           b1 # b2 # r \<Rightarrow>
             (case (continuation b1, continuation b2) of
                (Some x, Some y) \<Rightarrow>
                  (let c = (unat b - 0xE0) * 4096 + x * 64 + y in
                   if 0x800 \<le> c \<and> scalar c then map_option (Cons c) (from_utf8 r) else None)
              | _ \<Rightarrow> None)
         | _ \<Rightarrow> None)
      else if 0xF0 \<le> unat b \<and> unat b < 0xF5 then
        (case bs of
           b1 # b2 # b3 # r \<Rightarrow>
             (case (continuation b1, continuation b2, continuation b3) of
                (Some x, Some y, Some z) \<Rightarrow>
                  (let c = (unat b - 0xF0) * 262144 + x * 4096 + y * 64 + z in
                   if 0x10000 \<le> c \<and> scalar c then map_option (Cons c) (from_utf8 r) else None)
              | _ \<Rightarrow> None)
         | _ \<Rightarrow> None)
      else None)"

declare from_utf8.simps(2) [simp del]

lemma utf8_Nil [simp]: "utf8 [] = []"
  by (simp add: utf8_def)

lemma utf8_Cons: "utf8 (c # s) = utf8_char c @ utf8 s"
  by (simp add: utf8_def)

lemma utf8_append [simp]: "utf8 (s @ t) = utf8 s @ utf8 t"
  by (simp add: utf8_def)

lemma valid_text_simps [simp]:
  "valid_text []"
  "valid_text (c # s) \<longleftrightarrow> scalar c \<and> valid_text s"
  "valid_text (s @ t) \<longleftrightarrow> valid_text s \<and> valid_text t"
  by (auto simp: valid_text_def)

lemma valid_text_concat: "(\<forall>s \<in> set ss. valid_text s) \<Longrightarrow> valid_text (concat ss)"
  by (auto simp: valid_text_def)

lemma unat_byte_of [simp]: "n < 256 \<Longrightarrow> unat (byte_of n) = n"
  by (simp add: byte_of_def unat_of_nat)

lemma byte_of_unat [simp]: "byte_of (unat b) = b"
  by (simp add: byte_of_def)

lemma byte_of_inject: "m < 256 \<Longrightarrow> n < 256 \<Longrightarrow> byte_of m = byte_of n \<longleftrightarrow> m = n"
  by (metis unat_byte_of)

lemma continuation_byte_of [simp]: "x < 64 \<Longrightarrow> continuation (byte_of (0x80 + x)) = Some x"
  by (simp add: continuation_def)

lemma continuation_Some:
  "continuation b = Some x \<Longrightarrow> x < 64 \<and> b = byte_of (0x80 + x)"
proof -
  assume "continuation b = Some x"
  then have "0x80 \<le> unat b" "unat b < 0xC0" "x = unat b - 0x80"
    by (auto simp: continuation_def split: if_splits)
  then have "x < 64" "unat b = 0x80 + x" by auto
  then show ?thesis by (metis byte_of_unat)
qed

lemma utf8_two: "x < 64 \<Longrightarrow> 2 \<le> h \<Longrightarrow> h < 32 \<Longrightarrow>
    utf8_char (h * 64 + x) = [byte_of (0xC0 + h), byte_of (0x80 + x)]"
  by (simp add: utf8_char_def)

lemma utf8_three:
  assumes "x < 64" "y < 64" "h < 16" "0x800 \<le> h * 4096 + x * 64 + y"
  shows "utf8_char (h * 4096 + x * 64 + y) = [byte_of (0xE0 + h), byte_of (0x80 + x), byte_of (0x80 + y)]"
proof -
  let ?c = "h * 4096 + x * 64 + y"
  have "?c div 64 = h * 64 + x" "?c div 4096 = h"
    using assms by (auto intro!: div_nat_eqI)
  moreover have "(h * 64 + x) mod 64 = x" "(h * 4096 + x * 64 + y) mod 64 = y" "?c < 0x10000"
    using assms mod_mult_self3 [of "h * 64 + x" 64 y] by (simp_all add: algebra_simps)
  ultimately have "?c div 4096 = h" "?c div 64 mod 64 = x" "?c mod 64 = y" "?c < 0x10000"
    by simp_all
  with assms(4) show ?thesis by (simp add: utf8_char_def)
qed

lemma utf8_four:
  assumes "x < 64" "y < 64" "z < 64" "0x10000 \<le> h * 262144 + x * 4096 + y * 64 + z"
  shows "utf8_char (h * 262144 + x * 4096 + y * 64 + z) =
    [byte_of (0xF0 + h), byte_of (0x80 + x), byte_of (0x80 + y), byte_of (0x80 + z)]"
proof -
  let ?c = "h * 262144 + x * 4096 + y * 64 + z"
  have "?c div 64 = h * 4096 + x * 64 + y" "?c div 4096 = h * 64 + x" "?c div 262144 = h"
    using assms by (auto intro!: div_nat_eqI)
  moreover have "(h * 64 + x) mod 64 = x" "(h * 4096 + x * 64 + y) mod 64 = y" "?c mod 64 = z"
    using assms mod_mult_self3 [of "h * 64 + x" 64 y]
      mod_mult_self3 [of "h * 4096 + x * 64 + y" 64 z] by (simp_all add: algebra_simps)
  ultimately have "?c div 262144 = h" "?c div 4096 mod 64 = x" "?c div 64 mod 64 = y" "?c mod 64 = z"
    by simp_all
  with assms(4) show ?thesis by (simp add: utf8_char_def)
qed

lemma div_digits: "(c :: nat) = c div 4096 * 4096 + c div 64 mod 64 * 64 + c mod 64"
proof -
  have "c = c div 64 * 64 + c mod 64" by simp
  moreover have "c div 64 = c div 64 div 64 * 64 + c div 64 mod 64" by simp
  moreover have "c div 64 div 64 = c div 4096" by (simp add: div_mult2_eq [symmetric])
  ultimately show ?thesis by linarith
qed

lemma from_utf8_utf8_char:
  assumes "scalar c"
  shows "from_utf8 (utf8_char c @ bs) = map_option (Cons c) (from_utf8 bs)"
proof -
  have c: "c \<le> 0x10FFFF" using assms by (auto simp: scalar_def)
  consider "c < 0x80" | "0x80 \<le> c" "c < 0x800" | "0x800 \<le> c" "c < 0x10000" | "0x10000 \<le> c"
    by linarith
  then show ?thesis
  proof cases
    case 1
    then show ?thesis by (simp add: utf8_char_def from_utf8.simps(2))
  next
    case 2
    obtain h x where hx: "c = h * 64 + x" "x < 64" "h < 32" "2 \<le> h"
      using 2 by (intro that [of "c div 64" "c mod 64"]) (simp, simp, linarith+)
    then show ?thesis
      by (simp add: utf8_two from_utf8.simps(2))
  next
    case 3
    obtain h x y where hx: "c = h * 4096 + x * 64 + y" "x < 64" "y < 64" "h < 16"
    proof (rule that [of "c div 4096" "c div 64 mod 64" "c mod 64"])
      show "c = c div 4096 * 4096 + c div 64 mod 64 * 64 + c mod 64"
        using div_digits [of c] by simp
    qed (use 3 in simp_all)
    with 3 assms show ?thesis
      by (simp add: utf8_three from_utf8.simps(2) Let_def)
  next
    case 4
    obtain h x y z where hx: "c = h * 262144 + x * 4096 + y * 64 + z" "x < 64" "y < 64" "z < 64" "h < 5"
    proof (rule that [of "c div 262144" "c div 4096 mod 64" "c div 64 mod 64" "c mod 64"])
      show "c = c div 262144 * 262144 + c div 4096 mod 64 * 4096 + c div 64 mod 64 * 64 + c mod 64"
      proof -
        have "c = c div 64 * 64 + c mod 64" by simp
        moreover have "c div 64 = c div 262144 * 4096 + c div 4096 mod 64 * 64 + c div 64 mod 64"
          using div_digits [of "c div 64"] by (simp add: div_mult2_eq [symmetric])
        ultimately show ?thesis by linarith
      qed
    qed (use c in simp_all)
    with 4 assms show ?thesis
      by (simp add: utf8_four from_utf8.simps(2) Let_def)
  qed
qed

lemma from_utf8_utf8 [simp]: "valid_text s \<Longrightarrow> from_utf8 (utf8 s) = Some s"
  by (induction s) (auto simp: utf8_Cons from_utf8_utf8_char)

lemma utf8_inject: "valid_text s \<Longrightarrow> valid_text t \<Longrightarrow> utf8 s = utf8 t \<longleftrightarrow> s = t"
  by (metis from_utf8_utf8 option.inject)

lemma from_utf8_Some: "from_utf8 bs = Some s \<Longrightarrow> valid_text s \<and> utf8 s = bs"
proof (induction bs arbitrary: s rule: length_induct)
  case (1 bs)
  show ?case
  proof (cases bs)
    case Nil
    with 1 show ?thesis by auto
  next
    case (Cons b bs')
    let ?n = "unat b"
    have IH: "valid_text t \<and> utf8 t = r" if "from_utf8 r = Some t" "length r < length bs" for r t
      using 1 that by blast
    have b: "b = byte_of ?n" by simp
    consider "?n < 0x80" | "0xC2 \<le> ?n" "?n < 0xE0" | "0xE0 \<le> ?n" "?n < 0xF0"
      | "0xF0 \<le> ?n" "?n < 0xF5" | "0x80 \<le> ?n" "?n < 0xC2 \<or> 0xF5 \<le> ?n"
      by linarith
    then show ?thesis
    proof cases
      case 1
      with "1.prems" Cons obtain t where t: "s = ?n # t" "from_utf8 bs' = Some t"
        by (auto simp: from_utf8.simps(2))
      from IH [OF t(2)] Cons 1 show ?thesis
        unfolding t(1) by (simp add: utf8_Cons utf8_char_def scalar_def)
    next
      case 2
      with "1.prems" Cons obtain b1 r x t where
        t: "bs' = b1 # r" "continuation b1 = Some x" "from_utf8 r = Some t" "s = ((?n - 0xC0) * 64 + x) # t"
        by (auto simp: from_utf8.simps(2) split: list.splits option.splits)
      note x = continuation_Some [OF t(2)]
      have "scalar ((?n - 0xC0) * 64 + x)" using x 2 by (auto simp: scalar_def)
      moreover have "utf8_char ((?n - 0xC0) * 64 + x) = [b, b1]"
        using utf8_two [of x "?n - 0xC0"] x 2 by simp
      ultimately show ?thesis using IH [OF t(3)] t Cons by (simp add: utf8_Cons)
    next
      case 3
      with "1.prems" Cons obtain b1 b2 r x y t where
        t: "bs' = b1 # b2 # r" "continuation b1 = Some x" "continuation b2 = Some y"
           "from_utf8 r = Some t" "s = ((?n - 0xE0) * 4096 + x * 64 + y) # t"
           "0x800 \<le> (?n - 0xE0) * 4096 + x * 64 + y" "scalar ((?n - 0xE0) * 4096 + x * 64 + y)"
        by (auto simp: from_utf8.simps(2) Let_def split: list.splits option.splits if_splits)
      note x = continuation_Some [OF t(2)] and y = continuation_Some [OF t(3)]
      have "utf8_char ((?n - 0xE0) * 4096 + x * 64 + y) = [b, b1, b2]"
        using utf8_three [of x y "?n - 0xE0"] x y t(6) 3 by simp
      then show ?thesis using IH [OF t(4)] t Cons by (simp add: utf8_Cons)
    next
      case 4
      with "1.prems" Cons obtain b1 b2 b3 r x y z t where
        t: "bs' = b1 # b2 # b3 # r" "continuation b1 = Some x" "continuation b2 = Some y"
           "continuation b3 = Some z" "from_utf8 r = Some t"
           "s = ((?n - 0xF0) * 262144 + x * 4096 + y * 64 + z) # t"
           "0x10000 \<le> (?n - 0xF0) * 262144 + x * 4096 + y * 64 + z"
           "scalar ((?n - 0xF0) * 262144 + x * 4096 + y * 64 + z)"
        by (auto simp: from_utf8.simps(2) Let_def split: list.splits option.splits if_splits)
      note x = continuation_Some [OF t(2)] and y = continuation_Some [OF t(3)]
        and z = continuation_Some [OF t(4)]
      have "utf8_char ((?n - 0xF0) * 262144 + x * 4096 + y * 64 + z) = [b, b1, b2, b3]"
        using utf8_four [of x y z "?n - 0xF0"] x y z t(7) 4 by simp
      then show ?thesis using IH [OF t(5)] t Cons by (simp add: utf8_Cons)
    next
      case 5
      with "1.prems" Cons show ?thesis by (auto simp: from_utf8.simps(2))
    qed
  qed
qed

lemma from_utf8_iff: "from_utf8 bs = Some s \<longleftrightarrow> valid_text s \<and> utf8 s = bs"
  using from_utf8_Some from_utf8_utf8 by blast

lemma from_utf8_concat:
  "(\<forall>s \<in> set ss. valid_text s) \<Longrightarrow> from_utf8 (concat (map utf8 ss)) = Some (concat ss)"
proof -
  assume "\<forall>s \<in> set ss. valid_text s"
  moreover have "concat (map utf8 ss) = utf8 (concat ss)"
    by (induction ss) auto
  ultimately show ?thesis by (simp add: valid_text_concat)
qed

section \<open>Character classes\<close>

definition is_ascii_digit :: "nat \<Rightarrow> bool" where
  "is_ascii_digit c \<longleftrightarrow> 48 \<le> c \<and> c \<le> 57"

definition is_ascii_lowercase :: "nat \<Rightarrow> bool" where
  "is_ascii_lowercase c \<longleftrightarrow> 97 \<le> c \<and> c \<le> 122"

definition is_ascii_uppercase :: "nat \<Rightarrow> bool" where
  "is_ascii_uppercase c \<longleftrightarrow> 65 \<le> c \<and> c \<le> 90"

definition is_ascii_alphabetic :: "nat \<Rightarrow> bool" where
  "is_ascii_alphabetic c \<longleftrightarrow> is_ascii_lowercase c \<or> is_ascii_uppercase c"

definition is_ascii_alphanumeric :: "nat \<Rightarrow> bool" where
  "is_ascii_alphanumeric c \<longleftrightarrow> is_ascii_alphabetic c \<or> is_ascii_digit c"

definition is_ascii_hexdigit :: "nat \<Rightarrow> bool" where
  "is_ascii_hexdigit c \<longleftrightarrow> is_ascii_digit c \<or> (65 \<le> c \<and> c \<le> 70) \<or> (97 \<le> c \<and> c \<le> 102)"

definition is_ascii_graphic :: "nat \<Rightarrow> bool" where
  "is_ascii_graphic c \<longleftrightarrow> 33 \<le> c \<and> c \<le> 126"

text \<open>\<open>char::is_whitespace\<close> is the Unicode property White_Space; \<open>char::is_control\<close> is the
  general category Cc.\<close>

definition is_whitespace :: "nat \<Rightarrow> bool" where
  "is_whitespace c \<longleftrightarrow>
     (9 \<le> c \<and> c \<le> 13) \<or> c = 32 \<or> c = 0x85 \<or> c = 0xA0 \<or> c = 0x1680 \<or>
     (0x2000 \<le> c \<and> c \<le> 0x200A) \<or> c = 0x2028 \<or> c = 0x2029 \<or> c = 0x202F \<or> c = 0x205F \<or>
     c = 0x3000"

definition is_control :: "nat \<Rightarrow> bool" where
  "is_control c \<longleftrightarrow> c < 32 \<or> (127 \<le> c \<and> c < 160)"

lemmas char_class_defs =
  is_ascii_digit_def is_ascii_lowercase_def is_ascii_uppercase_def is_ascii_alphabetic_def
  is_ascii_alphanumeric_def is_ascii_hexdigit_def is_ascii_graphic_def is_whitespace_def
  is_control_def

definition all_ascii :: "ustring \<Rightarrow> bool" where
  "all_ascii s \<longleftrightarrow> (\<forall>c \<in> set s. c < 128)"

definition to_ascii_lower :: "nat \<Rightarrow> nat" where
  "to_ascii_lower c = (if is_ascii_uppercase c then c + 32 else c)"

definition to_ascii_upper :: "nat \<Rightarrow> nat" where
  "to_ascii_upper c = (if is_ascii_lowercase c then c - 32 else c)"

definition to_ascii_lowercase :: "ustring \<Rightarrow> ustring" where
  "to_ascii_lowercase s = map to_ascii_lower s"

definition to_ascii_uppercase :: "ustring \<Rightarrow> ustring" where
  "to_ascii_uppercase s = map to_ascii_upper s"

lemma to_ascii_lowercase_idem [simp]:
  "to_ascii_lowercase (to_ascii_lowercase s) = to_ascii_lowercase s"
  by (simp add: to_ascii_lowercase_def to_ascii_lower_def is_ascii_uppercase_def)

lemma valid_text_to_ascii_lowercase [simp]:
  "valid_text (to_ascii_lowercase s) = valid_text s"
  by (auto simp: valid_text_def to_ascii_lowercase_def to_ascii_lower_def is_ascii_uppercase_def
      scalar_def)

lemma valid_text_to_ascii_uppercase [simp]:
  "valid_text (to_ascii_uppercase s) = valid_text s"
  by (auto simp: valid_text_def to_ascii_uppercase_def to_ascii_upper_def is_ascii_lowercase_def
      scalar_def)

section \<open>Strings\<close>

text \<open>\<open>str::len\<close> counts bytes; \<open>chars().count()\<close> is \<open>length\<close>.\<close>

definition str_len :: "ustring \<Rightarrow> nat" where
  "str_len s = length (utf8 s)"

lemma length_utf8_char: "0 < length (utf8_char c)" "length (utf8_char c) \<le> 4"
  by (simp_all add: utf8_char_def)

lemma str_len_simps [simp]:
  "str_len [] = 0"
  "str_len (s @ t) = str_len s + str_len t"
  by (simp_all add: str_len_def)

lemma str_len_Cons: "str_len (c # s) = length (utf8_char c) + str_len s"
  by (simp add: str_len_def utf8_Cons)

lemma str_len_eq_0 [simp]: "str_len s = 0 \<longleftrightarrow> s = []"
  using length_utf8_char(1) by (cases s) (simp_all add: str_len_Cons)

lemma str_len_ascii: "all_ascii s \<Longrightarrow> str_len s = length s"
  by (induction s) (auto simp: str_len_Cons all_ascii_def utf8_char_def)

definition trim_start :: "ustring \<Rightarrow> ustring" where
  "trim_start s = dropWhile is_whitespace s"

definition trim_end :: "ustring \<Rightarrow> ustring" where
  "trim_end s = rev (dropWhile is_whitespace (rev s))"

definition trim :: "ustring \<Rightarrow> ustring" where
  "trim s = trim_end (trim_start s)"

lemma set_trim: "set (trim s) \<subseteq> set s"
  unfolding trim_def trim_end_def trim_start_def
  by (metis set_dropWhileD set_rev subsetI)

lemma valid_text_trim: "valid_text s \<Longrightarrow> valid_text (trim s)"
  using set_trim by (auto simp: valid_text_def)

text \<open>\<open>str::split\<close> on a character predicate keeps empty pieces, so joining restores the input.\<close>

fun split_on :: "(nat \<Rightarrow> bool) \<Rightarrow> ustring \<Rightarrow> ustring list" where
  "split_on P [] = [[]]"
| "split_on P (c # s) =
     (if P c then [] # split_on P s
      else (case split_on P s of [] \<Rightarrow> [[c]] | w # ws \<Rightarrow> (c # w) # ws))"

lemma split_on_ne [simp]: "split_on P s \<noteq> []"
  by (induction s) (auto split: list.splits)

lemma split_on_no_sep: "w \<in> set (split_on P s) \<Longrightarrow> c \<in> set w \<Longrightarrow> \<not> P c \<and> c \<in> set s"
proof (induction s arbitrary: w)
  case Nil
  then show ?case by simp
next
  case (Cons d s)
  show ?case
  proof (cases "P d")
    case True
    with Cons show ?thesis by auto
  next
    case False
    obtain v vs where vs: "split_on P s = v # vs"
      using split_on_ne by (metis neq_Nil_conv)
    from Cons.prems(1) False vs have "w = d # v \<or> w \<in> set vs" by simp
    then show ?thesis
    proof
      assume "w = d # v"
      with Cons.IH [of v] Cons.prems(2) False vs show ?thesis by auto
    next
      assume "w \<in> set vs"
      with Cons.IH [of w] Cons.prems(2) vs show ?thesis by auto
    qed
  qed
qed

lemma split_on_none: "(\<forall>c \<in> set s. \<not> P c) \<Longrightarrow> split_on P s = [s]"
  by (induction s) auto

lemma split_on_append_sep:
  "P c \<Longrightarrow> split_on P (s @ c # t) = split_on P s @ split_on P t"
  by (induction s) (auto split: list.splits)

text \<open>\<open>str::split_once\<close> on a character: the parts around its first occurrence.\<close>

fun split_once :: "nat \<Rightarrow> ustring \<Rightarrow> (ustring \<times> ustring) option" where
  "split_once c [] = None"
| "split_once c (d # s) =
     (if d = c then Some ([], s)
      else map_option (\<lambda>(a, b). (d # a, b)) (split_once c s))"

lemma split_once_Some:
  "split_once c s = Some (a, b) \<longleftrightarrow> s = a @ c # b \<and> c \<notin> set a"
proof (induction s arbitrary: a)
  case Nil
  then show ?case by simp
next
  case (Cons d s)
  show ?case
  proof (cases "d = c")
    case True
    then show ?thesis by (cases a) auto
  next
    case False
    then show ?thesis by (cases a) (auto simp: Cons.IH)
  qed
qed

fun strip_prefix :: "ustring \<Rightarrow> ustring \<Rightarrow> ustring option" where
  "strip_prefix [] s = Some s"
| "strip_prefix (c # p) [] = None"
| "strip_prefix (c # p) (d # s) = (if c = d then strip_prefix p s else None)"

lemma strip_prefix_Some: "strip_prefix p s = Some r \<longleftrightarrow> s = p @ r"
  by (induction p s rule: strip_prefix.induct) auto

definition starts_with :: "ustring \<Rightarrow> ustring \<Rightarrow> bool" where
  "starts_with s p \<longleftrightarrow> strip_prefix p s \<noteq> None"

fun join_with :: "'a list \<Rightarrow> 'a list list \<Rightarrow> 'a list" where
  "join_with sep [] = []"
| "join_with sep [s] = s"
| "join_with sep (s # t # r) = s @ sep @ join_with sep (t # r)"

lemma valid_text_join_with:
  "valid_text sep \<Longrightarrow> (\<forall>s \<in> set ss. valid_text s) \<Longrightarrow> valid_text (join_with sep ss)"
  by (induction sep ss rule: join_with.induct) auto

section \<open>Decimal numbers\<close>

fun show_nat :: "nat \<Rightarrow> ustring" where
  "show_nat n = (if n < 10 then [48 + n] else show_nat (n div 10) @ [48 + n mod 10])"

declare show_nat.simps [simp del]

definition digits_value :: "ustring \<Rightarrow> nat" where
  "digits_value ds = foldl (\<lambda>n d. 10 * n + (d - 48)) 0 ds"

text \<open>\<open>str::parse::<usize>\<close> on a string of ASCII digits, with a 64-bit \<open>usize\<close>.\<close>

definition parse_usize :: "ustring \<Rightarrow> nat option" where
  "parse_usize ds = (let n = digits_value ds in if n < 2 ^ 64 then Some n else None)"

lemma digits_value_snoc: "digits_value (ds @ [d]) = 10 * digits_value ds + (d - 48)"
  by (simp add: digits_value_def)

lemma digits_value_show_nat [simp]: "digits_value (show_nat n) = n"
proof (induction n rule: show_nat.induct)
  case (1 n)
  show ?case
  proof (cases "n < 10")
    case True
    then show ?thesis by (simp add: show_nat.simps [of n] digits_value_def)
  next
    case False
    with 1 show ?thesis by (simp add: show_nat.simps [of n] digits_value_snoc)
  qed
qed

lemma show_nat_digits: "c \<in> set (show_nat n) \<Longrightarrow> is_ascii_digit c"
proof (induction n rule: show_nat.induct)
  case (1 n)
  then show ?case
    by (cases "n < 10") (auto simp: show_nat.simps [of n] is_ascii_digit_def)
qed

lemma show_nat_ne [simp]: "show_nat n \<noteq> []"
  by (subst show_nat.simps) simp

lemma parse_usize_show_nat: "n < 2 ^ 64 \<Longrightarrow> parse_usize (show_nat n) = Some n"
  by (simp add: parse_usize_def)

lemma valid_text_show_nat [simp]: "valid_text (show_nat n)"
  using show_nat_digits by (fastforce simp: valid_text_def is_ascii_digit_def scalar_def)

lemma valid_text_lit [simp]: "valid_text (lit s)"
proof -
  have "of_char c < (0xD800 :: nat)" for c :: char
    using nat_of_char_less_256 [of c] by linarith
  then show ?thesis by (auto simp: valid_text_def lit_def scalar_def)
qed

section \<open>Machine sizes\<close>

text \<open>\<open>usize::MAX\<close> on the 64-bit targets the service is built for.\<close>

definition usize_max :: nat where
  "usize_max = 2 ^ 64 - 1"

definition saturating_add :: "nat \<Rightarrow> nat \<Rightarrow> nat" where
  "saturating_add a b = min usize_max (a + b)"

lemma foldl_saturating_add:
  "foldl saturating_add a xs \<le> n \<longleftrightarrow> a + sum_list xs \<le> n" if "n < usize_max" "a \<le> usize_max"
  using that(2)
proof (induction xs arbitrary: a)
  case (Cons x xs)
  have "foldl saturating_add a (x # xs) = foldl saturating_add (min usize_max (a + x)) xs"
    by (simp add: saturating_add_def)
  moreover have "min usize_max (a + x) + sum_list xs \<le> n \<longleftrightarrow> a + (x + sum_list xs) \<le> n"
    using that(1) by linarith
  ultimately show ?case using Cons.IH [of "min usize_max (a + x)"] by simp
qed simp

section \<open>Validity as an introduction rule\<close>

lemma valid_text_lowercase [wf_intros]: "valid_text s \<Longrightarrow> valid_text (to_ascii_lowercase s)"
  and valid_text_uppercase [wf_intros]: "valid_text s \<Longrightarrow> valid_text (to_ascii_uppercase s)"
  by simp_all

lemma valid_text_subset: "set s \<subseteq> set t \<Longrightarrow> valid_text t \<Longrightarrow> valid_text s"
  by (auto simp: valid_text_def)

declare valid_text_trim [wf_intros] valid_text_concat [wf_intros] valid_text_join_with [wf_intros]

lemma valid_text_split_on [wf_intros]:
  "valid_text s \<Longrightarrow> w \<in> set (split_on P s) \<Longrightarrow> valid_text w"
  by (auto simp: valid_text_def dest: split_on_no_sep)

end
