(* ===== verification/Contracts.thy ===== *)
theory Contracts
  imports Std_Text
begin

text \<open>
  The interfaces several components share, each a locale with the laws its providers discharge:
  a table of names (an enumeration written as text and parsed back), a validated text (a
  newtype over \<open>String\<close> whose constructor checks it), and a transition system with an invariant.
  The theory of each component interprets them on its own definitions.
\<close>

section \<open>Tables of names\<close>

text \<open>\<open>as_str\<close> writes a constructor as a literal, \<open>parse\<close> reads exactly those literals.\<close>

locale name_table =
  fixes render :: "'a \<Rightarrow> string"
    and parse :: "ustring \<Rightarrow> 'a option"
  assumes parse_render: "parse (lit (render x)) = Some x"
    and render_parse: "parse s = Some x \<Longrightarrow> s = lit (render x)"
begin

lemma render_inject: "render x = render y \<longleftrightarrow> x = y"
  using parse_render by (metis option.inject)

lemma parse_Some_iff: "parse s = Some x \<longleftrightarrow> s = lit (render x)"
  using parse_render render_parse by blast

lemma parse_None_iff: "parse s = None \<longleftrightarrow> (\<forall>x. s \<noteq> lit (render x))"
  using parse_Some_iff by (metis not_None_eq)

lemma distinct_names: "distinct xs \<Longrightarrow> distinct (map render xs)"
  by (simp add: distinct_map inj_on_def render_inject)

end

section \<open>Validated text\<close>

text \<open>
  A constructor \<open>make\<close> that checks (and may normalize) a string, and the accessor \<open>as_str\<close> that is
  stored. What was stored is accepted again and gives the value it came from.
\<close>

locale validated_text =
  fixes make :: "ustring \<Rightarrow> ('t, 'e) result"
    and as_str :: "'t \<Rightarrow> ustring"
  assumes make_as_str: "make s = Ok x \<Longrightarrow> make (as_str x) = Ok x"
begin

lemma stored_inject: "make s = Ok x \<Longrightarrow> make t = Ok y \<Longrightarrow> as_str x = as_str y \<Longrightarrow> x = y"
  using make_as_str by (metis result.inject(1))

lemma normalizing_is_idempotent:
  "map_ok as_str (make s) = Ok c \<Longrightarrow> map_ok as_str (make c) = Ok c"
  using make_as_str by (auto simp: result_simps)

lemma optional_rehydrates:
  "transpose_opt (map_option make t) = Ok x \<Longrightarrow>
     transpose_opt (map_option make (map_option as_str x)) = Ok x"
  using make_as_str by (auto simp: result_simps)

lemma all_rehydrate:
  "collect_map make ts = Ok xs \<Longrightarrow> collect_map make (map as_str xs) = Ok xs"
proof (induction ts arbitrary: xs)
  case (Cons t ts)
  then obtain y ys where "xs = y # ys" "make t = Ok y" "collect_map make ts = Ok ys"
    by (auto split: result.splits)
  with Cons.IH show ?case using make_as_str by fastforce
qed simp

end

section \<open>Transition systems\<close>

text \<open>A step relation and a property of states that every step keeps.\<close>

locale transition_system =
  fixes step :: "'s \<Rightarrow> 's \<Rightarrow> bool"
    and good :: "'s \<Rightarrow> bool"
  assumes step_good: "step s t \<Longrightarrow> good s \<Longrightarrow> good t"
begin

lemma steps_good: "step\<^sup>*\<^sup>* s t \<Longrightarrow> good s \<Longrightarrow> good t"
  by (induction rule: rtranclp_induct) (auto dest: step_good)

lemma never_bad: "step\<^sup>*\<^sup>* s t \<Longrightarrow> good s \<Longrightarrow> \<not> good t \<Longrightarrow> False"
  using steps_good by blast

end

text \<open>A quantity that no step lowers, as long as the states are good.\<close>

locale monotone_system = transition_system step good
  for step :: "'s \<Rightarrow> 's \<Rightarrow> bool" and good :: "'s \<Rightarrow> bool" +
  fixes level :: "'s \<Rightarrow> 'l::preorder"
  assumes step_level: "step s t \<Longrightarrow> good s \<Longrightarrow> level s \<le> level t"
begin

lemma steps_level: "step\<^sup>*\<^sup>* s t \<Longrightarrow> good s \<Longrightarrow> level s \<le> level t"
proof (induction rule: rtranclp_induct)
  case (step t u)
  then have "good t" by (auto intro: steps_good)
  with step show ?case by (blast intro: order_trans step_level)
qed simp

end

end
