(* ===== verification/Ast.thy ===== *)
theory Ast
  imports Contracts
begin

text \<open>
  The parsed representation of a signature expression (\<open>domain/signature/ast.rs\<close>): block roots,
  path segments, sort orders, the built-in functions with their names and argument bounds, the
  expression tree, and the printer behind \<open>Display\<close> with its quoting rules.
\<close>

section \<open>Roots, segments and paths\<close>

datatype root = RequestRoot | HookRoot | SecretRoot | KeyRoot

definition root_parse :: "ustring \<Rightarrow> root option" where
  "root_parse name =
     (if name = lit ''request'' then Some RequestRoot
      else if name = lit ''hook'' then Some HookRoot
      else if name = lit ''secret'' then Some SecretRoot
      else if name = lit ''key'' then Some KeyRoot
      else None)"

fun root_as_str :: "root \<Rightarrow> string" where
  "root_as_str RequestRoot = ''request''"
| "root_as_str HookRoot = ''hook''"
| "root_as_str SecretRoot = ''secret''"
| "root_as_str KeyRoot = ''key''"

datatype segment = Key ustring | Index nat

record path =
  path_root :: root
  path_segments :: "segment list"

section \<open>Sort orders\<close>

datatype sort_order = Ascending | Descending

definition sort_order_parse :: "ustring \<Rightarrow> sort_order option" where
  "sort_order_parse name =
     (if name = lit ''asc'' then Some Ascending
      else if name = lit ''desc'' then Some Descending
      else None)"

fun sort_order_as_str :: "sort_order \<Rightarrow> string" where
  "sort_order_as_str Ascending = ''asc''"
| "sort_order_as_str Descending = ''desc''"

section \<open>Functions\<close>

datatype func =
    Concat | Join | Sort | SortKeys | Utf8 | Ascii | UrlEncode | UrlDecode | PercentEncode
  | PercentDecode | CanonicalizeUrl | CanonicalizeQuery | JsonEncode | FormEncode | Sha1
  | Sha256 | Sha384 | Sha512 | Hex | HexDecode | Base64 | Base64Decode | Base64Url
  | Base64UrlDecode | Lowercase | Uppercase | Trim

definition func_parse :: "ustring \<Rightarrow> func option" where
  "func_parse name =
     (if name = lit ''concat'' then Some Concat
      else if name = lit ''join'' then Some Join
      else if name = lit ''sort'' then Some Sort
      else if name = lit ''sort_keys'' then Some SortKeys
      else if name = lit ''utf8'' then Some Utf8
      else if name = lit ''ascii'' then Some Ascii
      else if name = lit ''url_encode'' then Some UrlEncode
      else if name = lit ''url_decode'' then Some UrlDecode
      else if name = lit ''percent_encode'' then Some PercentEncode
      else if name = lit ''percent_decode'' then Some PercentDecode
      else if name = lit ''canonicalize_url'' then Some CanonicalizeUrl
      else if name = lit ''canonicalize_query'' then Some CanonicalizeQuery
      else if name = lit ''json_encode'' then Some JsonEncode
      else if name = lit ''form_encode'' then Some FormEncode
      else if name = lit ''sha1'' then Some Sha1
      else if name = lit ''sha256'' then Some Sha256
      else if name = lit ''sha384'' then Some Sha384
      else if name = lit ''sha512'' then Some Sha512
      else if name = lit ''hex'' then Some Hex
      else if name = lit ''hex_decode'' then Some HexDecode
      else if name = lit ''base64'' then Some Base64
      else if name = lit ''base64_decode'' then Some Base64Decode
      else if name = lit ''base64url'' then Some Base64Url
      else if name = lit ''base64url_decode'' then Some Base64UrlDecode
      else if name = lit ''lowercase'' then Some Lowercase
      else if name = lit ''uppercase'' then Some Uppercase
      else if name = lit ''trim'' then Some Trim
      else None)"

fun func_name :: "func \<Rightarrow> string" where
  "func_name Concat = ''concat''"
| "func_name Join = ''join''"
| "func_name Sort = ''sort''"
| "func_name SortKeys = ''sort_keys''"
| "func_name Utf8 = ''utf8''"
| "func_name Ascii = ''ascii''"
| "func_name UrlEncode = ''url_encode''"
| "func_name UrlDecode = ''url_decode''"
| "func_name PercentEncode = ''percent_encode''"
| "func_name PercentDecode = ''percent_decode''"
| "func_name CanonicalizeUrl = ''canonicalize_url''"
| "func_name CanonicalizeQuery = ''canonicalize_query''"
| "func_name JsonEncode = ''json_encode''"
| "func_name FormEncode = ''form_encode''"
| "func_name Sha1 = ''sha1''"
| "func_name Sha256 = ''sha256''"
| "func_name Sha384 = ''sha384''"
| "func_name Sha512 = ''sha512''"
| "func_name Hex = ''hex''"
| "func_name HexDecode = ''hex_decode''"
| "func_name Base64 = ''base64''"
| "func_name Base64Decode = ''base64_decode''"
| "func_name Base64Url = ''base64url''"
| "func_name Base64UrlDecode = ''base64url_decode''"
| "func_name Lowercase = ''lowercase''"
| "func_name Uppercase = ''uppercase''"
| "func_name Trim = ''trim''"

definition func_arity :: "func \<Rightarrow> nat \<times> nat" where
  "func_arity f = (if f = Concat \<or> f = Join then (1, usize_max) else (1, 1))"

definition accepts_separator :: "func \<Rightarrow> bool" where
  "accepts_separator f \<longleftrightarrow> f = Join"

definition requires_separator :: "func \<Rightarrow> bool" where
  "requires_separator f \<longleftrightarrow> f = Join"

definition accepts_order :: "func \<Rightarrow> bool" where
  "accepts_order f \<longleftrightarrow> f = Sort \<or> f = SortKeys"

section \<open>Expressions\<close>

text \<open>
  \<open>Call\<close> is a struct of the source; the parser fills one in field by field, so it is a record
  here too. The expression tree holds the same four fields in its constructor.
\<close>

datatype expr =
    Literal ustring
  | PathExpr path
  | CallExpr func "expr list" "ustring option" "sort_order option"

record call =
  call_function :: func
  call_arguments :: "expr list"
  call_separator :: "ustring option"
  call_order :: "sort_order option"

definition call_expr :: "call \<Rightarrow> expr" where
  "call_expr c =
     CallExpr (call_function c) (call_arguments c) (call_separator c) (call_order c)"

section \<open>Printing\<close>

definition is_identifier_start :: "nat \<Rightarrow> bool" where
  "is_identifier_start c \<longleftrightarrow> is_ascii_alphabetic c \<or> c = 95"

definition is_identifier_char :: "nat \<Rightarrow> bool" where
  "is_identifier_char c \<longleftrightarrow> is_ascii_alphanumeric c \<or> c = 95 \<or> c = 45"

fun is_bare_identifier :: "ustring \<Rightarrow> bool" where
  "is_bare_identifier [] = False"
| "is_bare_identifier (first # characters) \<longleftrightarrow>
     is_identifier_start first \<and> list_all is_identifier_char characters"

text \<open>The escapes of \<open>quote\<close>: quotation mark (34), backslash (92), newline, return and tab.\<close>

definition quote_char :: "nat \<Rightarrow> ustring" where
  "quote_char c =
     (if c = 34 then [92, 34]
      else if c = 92 then [92, 92]
      else if c = 10 then [92, 110]
      else if c = 13 then [92, 114]
      else if c = 9 then [92, 116]
      else [c])"

definition quote :: "ustring \<Rightarrow> ustring" where
  "quote v = 34 # concat (map quote_char v) @ [34]"

fun segment_text :: "segment \<Rightarrow> ustring" where
  "segment_text (Key k) = (if is_bare_identifier k then 46 # k else 91 # quote k @ [93])"
| "segment_text (Index i) = 91 # show_nat i @ [93]"

definition path_text :: "path \<Rightarrow> ustring" where
  "path_text p = lit (root_as_str (path_root p)) @ concat (map segment_text (path_segments p))"

definition comma_space :: ustring where
  "comma_space = [44, 32]"

text \<open>
  The parts of a call are written in the order separator, order, arguments, with \<open>", "\<close> before
  every part but the first: the \<open>first\<close> flag of the source.
\<close>

fun expr_text :: "expr \<Rightarrow> ustring" where
  "expr_text (Literal v) = quote v"
| "expr_text (PathExpr p) = path_text p"
| "expr_text (CallExpr f args sep ord) =
     lit (func_name f) @ [40] @
     join_with comma_space
       ((case sep of None \<Rightarrow> [] | Some s \<Rightarrow> [lit ''separator: '' @ quote s]) @
        (case ord of None \<Rightarrow> [] | Some d \<Rightarrow> [lit ''order: '' @ lit (sort_order_as_str d)]) @
        map expr_text args) @ [41]"

section \<open>Names round-trip\<close>

lemma root_parse_as_str [simp]: "root_parse (lit (root_as_str r)) = Some r"
  by (cases r) (simp_all add: root_parse_def)

lemma root_parse_Some: "root_parse n = Some r \<Longrightarrow> n = lit (root_as_str r)"
  by (auto simp: root_parse_def split: if_splits)

lemma sort_order_parse_as_str [simp]: "sort_order_parse (lit (sort_order_as_str d)) = Some d"
  by (cases d) (simp_all add: sort_order_parse_def)

lemma func_parse_name [simp]: "func_parse (lit (func_name f)) = Some f"
  by (cases f) (simp_all add: func_parse_def)

lemma func_parse_Some: "func_parse n = Some f \<Longrightarrow> n = lit (func_name f)"
  by (auto simp: func_parse_def split: if_splits)

interpretation roots: name_table root_as_str root_parse
  by unfold_locales (simp_all add: root_parse_Some)

lemma sort_order_parse_Some: "sort_order_parse n = Some d \<Longrightarrow> n = lit (sort_order_as_str d)"
  by (auto simp: sort_order_parse_def split: if_splits)

interpretation sort_orders: name_table sort_order_as_str sort_order_parse
  by unfold_locales (simp_all add: sort_order_parse_Some)

interpretation funcs: name_table func_name func_parse
  by unfold_locales (simp_all add: func_parse_Some)

lemma func_name_inject: "func_name f = func_name g \<longleftrightarrow> f = g"
  by (rule funcs.render_inject)

lemmas identifier_defs = is_identifier_start_def is_identifier_char_def char_class_defs

lemma bare_root [simp]: "is_bare_identifier (lit (root_as_str r))"
  apply (cases r)
  apply (simp_all add: lit_def)
  apply (simp_all add: identifier_defs)
  done

lemma bare_func [simp]: "is_bare_identifier (lit (func_name f))"
  apply (cases f)
  apply (simp_all add: lit_def)
  apply (simp_all add: identifier_defs)
  done

lemma bare_order [simp]: "is_bare_identifier (lit (sort_order_as_str d))"
  apply (cases d)
  apply (simp_all add: lit_def)
  apply (simp_all add: identifier_defs)
  done

lemma valid_text_quote_char [simp]: "valid_text (quote_char c) = scalar c"
  by (simp add: quote_char_def valid_text_def scalar_def)

lemma valid_text_quote [simp]: "valid_text (quote v) = valid_text v"
proof -
  have "valid_text (concat (map quote_char v)) = valid_text v"
    by (induction v) simp_all
  moreover have "scalar 34" by (simp add: scalar_def)
  ultimately show ?thesis by (simp add: quote_def)
qed

end
