(* ===== verification/Lexer.thy ===== *)
theory Lexer
  imports Ast
begin

text \<open>
  The tokenizer of the signature expression language (\<open>domain/signature/lexer.rs\<close>). The iterator
  \<open>char_indices().peekable()\<close> is the list of characters still to be read, each with its byte
  offset; taking the next character takes the head of the list. The lemmas show that lexing is
  total, and that it inverts the printing of every token.
\<close>

section \<open>Errors and tokens\<close>

datatype parse_error_kind =
    TooLong
  | Empty
  | UnexpectedCharacter nat
  | UnterminatedString
  | InvalidEscape
  | UnexpectedToken string ustring
  | UnknownFunction ustring
  | UnknownRoot ustring
  | UnsupportedPath ustring
  | UnexpectedOption ustring
  | InvalidOrder ustring
  | InvalidSeparator ustring
  | MissingOption string
  | DuplicateOption string
  | Arity string nat "nat option" nat
  | TooDeep
  | TooManyNodes

record parse_error =
  pe_offset :: nat
  pe_kind :: parse_error_kind

definition parse_error_at :: "nat \<Rightarrow> parse_error_kind \<Rightarrow> parse_error" where
  "parse_error_at off kind = \<lparr>pe_offset = off, pe_kind = kind\<rparr>"

definition max_expression_bytes :: nat where
  "max_expression_bytes = 4096"

datatype token =
    Identifier ustring
  | Text ustring
  | Integer nat
  | LeftParen
  | RightParen
  | LeftBracket
  | RightBracket
  | Dot
  | Comma
  | Colon

fun token_describe :: "token \<Rightarrow> ustring" where
  "token_describe (Identifier name) = lit ''identifier '' @ name"
| "token_describe (Text v) = lit ''string literal''"
| "token_describe (Integer n) = lit ''integer '' @ show_nat n"
| "token_describe LeftParen = lit ''(''"
| "token_describe RightParen = lit '')''"
| "token_describe LeftBracket = lit ''[''"
| "token_describe RightBracket = lit '']''"
| "token_describe Dot = lit ''.''"
| "token_describe Comma = lit '',''"
| "token_describe Colon = lit '':''"

datatype spanned = Spanned (sp_token: token) (sp_offset: nat)

section \<open>Characters with offsets\<close>

type_synonym indexed = "(nat \<times> nat) list"

fun char_indices :: "nat \<Rightarrow> ustring \<Rightarrow> indexed" where
  "char_indices off [] = []"
| "char_indices off (c # s) = (off, c) # char_indices (off + length (utf8_char c)) s"

text \<open>The \<open>while let Some(..) = peek()\<close> loops: the longest prefix of accepted characters.\<close>

fun take_chars :: "(nat \<Rightarrow> bool) \<Rightarrow> indexed \<Rightarrow> ustring \<times> indexed" where
  "take_chars P [] = ([], [])"
| "take_chars P ((off, c) # cs) =
     (if P c then (case take_chars P cs of (w, rest) \<Rightarrow> (c # w, rest))
      else ([], (off, c) # cs))"

lemma take_chars_length: "take_chars P cs = (w, rest) \<Longrightarrow> length rest \<le> length cs"
proof (induction P cs arbitrary: w rest rule: take_chars.induct)
  case (2 P off c cs)
  then show ?case
    by (cases "P c"; cases "take_chars P cs") (auto intro: le_SucI)
qed simp

section \<open>String literals\<close>

definition hex_value :: "nat \<Rightarrow> nat" where
  "hex_value d = (if is_ascii_digit d then d - 48 else if 97 \<le> d then d - 87 else d - 55)"

fun take_hex_digits :: "nat \<Rightarrow> indexed \<Rightarrow> (ustring \<times> indexed) option" where
  "take_hex_digits 0 cs = Some ([], cs)"
| "take_hex_digits (Suc n) [] = None"
| "take_hex_digits (Suc n) ((_, d) # cs) =
     (if is_ascii_hexdigit d
      then map_option (\<lambda>(ds, rest). (d # ds, rest)) (take_hex_digits n cs)
      else None)"

definition lex_unicode_escape :: "indexed \<Rightarrow> nat \<Rightarrow> (nat \<times> indexed, parse_error) result" where
  "lex_unicode_escape cs off =
     (case take_hex_digits 4 cs of
        None \<Rightarrow> Err (parse_error_at off InvalidEscape)
      | Some (ds, rest) \<Rightarrow>
          (let n = foldl (\<lambda>acc d. 16 * acc + hex_value d) 0 ds in
           if scalar n then Ok (n, rest) else Err (parse_error_at off InvalidEscape)))"

lemma take_hex_digits_length:
  "take_hex_digits n cs = Some (ds, rest) \<Longrightarrow> length rest + n = length cs \<and> length ds = n"
  by (induction n cs arbitrary: ds rest rule: take_hex_digits.induct)
    (auto split: if_splits)

lemma lex_unicode_escape_length:
  "lex_unicode_escape cs off = Ok (c, rest) \<Longrightarrow> length rest \<le> length cs"
  by (auto simp: lex_unicode_escape_def Let_def split: option.splits if_splits
      dest!: take_hex_digits_length)

text \<open>The one-character escapes of \<open>lex_string\<close>; \<open>u\<close> (117) is handled by the caller.\<close>

definition simple_escape :: "nat \<Rightarrow> nat option" where
  "simple_escape c =
     (if c = 34 then Some 34
      else if c = 92 then Some 92
      else if c = 47 then Some 47
      else if c = 110 then Some 10
      else if c = 114 then Some 13
      else if c = 116 then Some 9
      else None)"

function lex_string :: "indexed \<Rightarrow> nat \<Rightarrow> (ustring \<times> indexed, parse_error) result" where
  "lex_string cs start =
     (case cs of
        [] \<Rightarrow> Err (parse_error_at start UnterminatedString)
      | (off, c) # cs' \<Rightarrow>
          if c = 34 then Ok ([], cs')
          else if c = 92 then
            (case cs' of
               [] \<Rightarrow> Err (parse_error_at off UnterminatedString)
             | (_, e) # cs'' \<Rightarrow>
                 (case simple_escape e of
                    Some v \<Rightarrow> map_ok (\<lambda>(s, rest). (v # s, rest)) (lex_string cs'' start)
                  | None \<Rightarrow>
                      if e = 117 then
                        (case lex_unicode_escape cs'' off of
                           Err err \<Rightarrow> Err err
                         | Ok (v, cs3) \<Rightarrow>
                             map_ok (\<lambda>(s, rest). (v # s, rest)) (lex_string cs3 start))
                      else Err (parse_error_at off InvalidEscape)))
          else if is_control c \<and> c \<noteq> 9 then Err (parse_error_at off (UnexpectedCharacter c))
          else map_ok (\<lambda>(s, rest). (c # s, rest)) (lex_string cs' start))"
  by pat_completeness auto
termination
  by (relation "measure (\<lambda>(cs, start). length cs)") (auto dest!: lex_unicode_escape_length)

declare lex_string.simps [simp del]

lemma lex_string_length:
  "lex_string cs start = Ok (s, rest) \<Longrightarrow> length rest < length cs"
proof (induction cs arbitrary: s rule: length_induct)
  case (1 cs)
  have IH: "lex_string c start = Ok (v, rest) \<Longrightarrow> length c < length cs \<Longrightarrow> length rest < length cs" for c v
    using "1.IH" less_trans by blast
  from "1.prems" show ?case
    apply (subst (asm) lex_string.simps)
    apply (auto simp: result_simps split: list.splits if_splits option.splits result.splits
        dest!: lex_unicode_escape_length)
    apply (drule IH, simp_all)+
    done
qed

section \<open>Tokens\<close>

text \<open>
  One step of the loop in \<open>tokenize\<close>: a character that is not whitespace, and the token it
  starts. The accumulated vector is the list under construction, so an error drops it.
\<close>

definition lex_token :: "nat \<Rightarrow> nat \<Rightarrow> indexed \<Rightarrow> (token \<times> indexed, parse_error) result" where
  "lex_token off c cs =
     (if c = 40 then Ok (LeftParen, cs)
      else if c = 41 then Ok (RightParen, cs)
      else if c = 91 then Ok (LeftBracket, cs)
      else if c = 93 then Ok (RightBracket, cs)
      else if c = 46 then Ok (Dot, cs)
      else if c = 44 then Ok (Comma, cs)
      else if c = 58 then Ok (Colon, cs)
      else if c = 34 then map_ok (\<lambda>(s, rest). (Text s, rest)) (lex_string cs off)
      else if is_ascii_digit c then
        (case take_chars is_ascii_digit cs of
           (ds, rest) \<Rightarrow>
             (case parse_usize (c # ds) of
                None \<Rightarrow> Err (parse_error_at off (UnexpectedCharacter c))
              | Some n \<Rightarrow> Ok (Integer n, rest)))
      else if is_identifier_start c then
        (case take_chars is_identifier_char cs of
           (w, rest) \<Rightarrow> Ok (Identifier (c # w), rest))
      else Err (parse_error_at off (UnexpectedCharacter c)))"

lemma lex_token_length:
  "lex_token off c cs = Ok (t, rest) \<Longrightarrow> length rest \<le> length cs"
  by (auto simp: lex_token_def result_simps split: if_splits prod.splits option.splits
      dest!: lex_string_length dest: take_chars_length)

function lex_tokens :: "indexed \<Rightarrow> (spanned list, parse_error) result" where
  "lex_tokens cs =
     (case cs of
        [] \<Rightarrow> Ok []
      | (off, c) # cs' \<Rightarrow>
          if is_whitespace c then lex_tokens cs'
          else
            (case lex_token off c cs' of
               Err e \<Rightarrow> Err e
             | Ok (t, rest) \<Rightarrow> map_ok (\<lambda>ts. Spanned t off # ts) (lex_tokens rest)))"
  by pat_completeness auto
termination
  by (relation "measure length") (auto dest!: lex_token_length)

declare lex_tokens.simps [simp del]

definition tokenize :: "ustring \<Rightarrow> (spanned list, parse_error) result" where
  "tokenize source =
     (if max_expression_bytes < str_len source then Err (parse_error_at 0 TooLong)
      else
        (case lex_tokens (char_indices 0 source) of
           Err e \<Rightarrow> Err e
         | Ok [] \<Rightarrow> Err (parse_error_at 0 Empty)
         | Ok (t # ts) \<Rightarrow> Ok (t # ts)))"

section \<open>Lexing printed tokens\<close>

text \<open>A control character can only be written as an escape; the printer escapes these three.\<close>

definition quotable :: "nat \<Rightarrow> bool" where
  "quotable c \<longleftrightarrow> is_control c \<longrightarrow> c = 9 \<or> c = 10 \<or> c = 13"

lemma length_utf8_quote_char:
  "length (utf8 (quote_char c)) = (if c \<in> {34, 92, 10, 13, 9} then 2 else length (utf8_char c))"
  by (simp add: quote_char_def utf8_Cons utf8_char_def)

lemma quote_char_simps:
  "quote_char 34 = [92, 34]" "quote_char 92 = [92, 92]" "quote_char 10 = [92, 110]"
  "quote_char 13 = [92, 114]" "quote_char 9 = [92, 116]"
  "c \<notin> {34, 92, 10, 13, 9} \<Longrightarrow> quote_char c = [c]"
  by (simp_all add: quote_char_def)

lemma lex_string_quoted:
  "list_all quotable v \<Longrightarrow>
   lex_string (char_indices off (concat (map quote_char v) @ 34 # s)) start =
     Ok (v, char_indices (off + str_len (concat (map quote_char v)) + 1) s)"
proof (induction v arbitrary: off)
  case Nil
  then show ?case by (simp add: lex_string.simps utf8_char_def)
next
  case (Cons c v)
  then have q: "quotable c" and "list_all quotable v" by simp_all
  note IH = Cons.IH [OF this(2)]
  consider "c \<in> {34, 92, 10, 13, 9}" | "c \<notin> {34, 92, 10, 13, 9}" by blast
  then show ?case
  proof cases
    case 1
    then show ?thesis
      by (elim insertE emptyE; subst lex_string.simps)
        (simp_all add: quote_char_simps simple_escape_def IH utf8_char_def str_len_Cons)
  next
    case 2
    with q have "\<not> is_control c" by (simp add: quotable_def)
    with 2 show ?thesis
      by (subst lex_string.simps) (simp add: quote_char_simps IH str_len_Cons add.assoc)
  qed
qed

definition starts_outside :: "(nat \<Rightarrow> bool) \<Rightarrow> ustring \<Rightarrow> bool" where
  "starts_outside P s \<longleftrightarrow> (case s of [] \<Rightarrow> True | c # _ \<Rightarrow> \<not> P c)"

lemma take_chars_prefix:
  "list_all P w \<Longrightarrow> starts_outside P s \<Longrightarrow>
   take_chars P (char_indices off (w @ s)) = (w, char_indices (off + str_len w) s)"
proof (induction w arbitrary: off)
  case Nil
  then show ?case by (cases s) (simp_all add: starts_outside_def)
next
  case (Cons c w)
  then show ?case by (simp add: str_len_Cons add.assoc)
qed

text \<open>The text of a token, and when that text is read back as the token.\<close>

fun token_text :: "token \<Rightarrow> ustring" where
  "token_text (Identifier name) = name"
| "token_text (Text v) = quote v"
| "token_text (Integer n) = show_nat n"
| "token_text LeftParen = [40]"
| "token_text RightParen = [41]"
| "token_text LeftBracket = [91]"
| "token_text RightBracket = [93]"
| "token_text Dot = [46]"
| "token_text Comma = [44]"
| "token_text Colon = [58]"

fun printable_token :: "token \<Rightarrow> bool" where
  "printable_token (Identifier name) = is_bare_identifier name"
| "printable_token (Text v) = list_all quotable v"
| "printable_token (Integer n) \<longleftrightarrow> n < 2 ^ 64"
| "printable_token _ = True"

fun may_follow :: "token \<Rightarrow> ustring \<Rightarrow> bool" where
  "may_follow (Identifier _) s = starts_outside is_identifier_char s"
| "may_follow (Integer _) s = starts_outside is_ascii_digit s"
| "may_follow _ s = True"

lemma lex_token_text:
  assumes "printable_token t" and "may_follow t s"
  shows "lex_tokens (char_indices off (token_text t @ s)) =
         map_ok (\<lambda>ts. Spanned t off # ts)
           (lex_tokens (char_indices (off + str_len (token_text t)) s))"
proof (cases t)
  case (Identifier name)
  with assms obtain c w where n: "name = c # w" "is_identifier_start c" "list_all is_identifier_char w"
    by (cases name) auto
  have s: "starts_outside is_identifier_char s" using assms(2) Identifier by simp
  have "\<not> is_whitespace c" "lex_token off c (char_indices (off + length (utf8_char c)) (w @ s)) =
        Ok (Identifier name, char_indices (off + str_len name) s)"
    using n(2) take_chars_prefix [OF n(3) s]
    by (auto simp: lex_token_def n(1) str_len_Cons add.assoc identifier_defs)
  then show ?thesis
    by (subst lex_tokens.simps) (simp add: Identifier n(1))
next
  case (Text v)
  then have v: "list_all quotable v" using assms by simp
  have "lex_token off 34 (char_indices (off + 1) (concat (map quote_char v) @ 34 # s)) =
        Ok (Text v, char_indices (off + str_len (quote v)) s)"
    using lex_string_quoted [OF v]
    by (simp add: lex_token_def quote_def str_len_Cons utf8_char_def add.commute add.left_commute)
  then show ?thesis
    by (subst lex_tokens.simps) (simp add: Text quote_def utf8_char_def is_whitespace_def)
next
  case (Integer n)
  obtain c w where cw: "show_nat n = c # w" by (meson list.exhaust show_nat_ne)
  with show_nat_digits have d: "is_ascii_digit c" "list_all is_ascii_digit w"
    by (auto simp: list_all_iff intro: show_nat_digits [of _ n])
  have s: "starts_outside is_ascii_digit s" using assms(2) Integer by simp
  have "parse_usize (c # w) = Some n"
    using assms(1) parse_usize_show_nat [of n] Integer cw by simp
  with d have "\<not> is_whitespace c" "lex_token off c (char_indices (off + length (utf8_char c)) (w @ s)) =
        Ok (Integer n, char_indices (off + str_len (c # w)) s)"
    using take_chars_prefix [OF d(2) s]
    by (auto simp: lex_token_def str_len_Cons add.assoc is_ascii_digit_def is_whitespace_def)
  then show ?thesis
    by (subst lex_tokens.simps) (simp add: Integer cw)
qed (subst lex_tokens.simps, simp add: lex_token_def is_whitespace_def utf8_char_def str_len_Cons)+

lemma lex_tokens_space: "lex_tokens (char_indices off (32 # s)) = lex_tokens (char_indices (off + 1) s)"
  by (subst lex_tokens.simps) (simp add: is_whitespace_def utf8_char_def)

end
