(* ===== verification/Parser.thy ===== *)
theory Parser
  imports Lexer
begin

text \<open>
  The recursive-descent parser of signature expressions (\<open>domain/signature/parser.rs\<close>). The
  struct \<open>Parser\<close> is a record that every method takes and returns. \<open>expression\<close>, \<open>call\<close>, the
  argument loop and \<open>argument\<close> call each other, so they carry fuel: \<open>None\<close> is running out of
  it, and \<open>run_parser_total\<close> shows that the amount \<open>run_parser\<close> starts with is always enough.
  The lemmas also show what a successful parse guarantees: only supported blocks, arities and
  options, at most 512 nodes, at most 32 levels of nesting.
\<close>

section \<open>Parser state and its primitives\<close>

definition max_depth :: nat where
  "max_depth = 32"

definition max_nodes :: nat where
  "max_nodes = 512"

definition separators :: "ustring list" where
  "separators = map lit ['''', ''.'', '':'', '','', '';'', [CHR 0x0A], '' '']"

record parser =
  ps_tokens :: "spanned list"
  ps_position :: nat
  ps_nodes :: nat
  ps_end_offset :: nat

definition peek_at :: "parser \<Rightarrow> nat \<Rightarrow> spanned option" where
  "peek_at p ahead =
     (if ps_position p + ahead < length (ps_tokens p)
      then Some (ps_tokens p ! (ps_position p + ahead)) else None)"

definition peek :: "parser \<Rightarrow> spanned option" where
  "peek p =
     (if ps_position p < length (ps_tokens p) then Some (ps_tokens p ! ps_position p) else None)"

definition next_token :: "parser \<Rightarrow> spanned option \<times> parser" where
  "next_token p =
     (case peek p of
        None \<Rightarrow> (None, p)
      | Some t \<Rightarrow> (Some t, p\<lparr>ps_position := ps_position p + 1\<rparr>))"

definition current_offset :: "parser \<Rightarrow> nat" where
  "current_offset p = (case peek p of None \<Rightarrow> ps_end_offset p | Some t \<Rightarrow> sp_offset t)"

definition unexpected :: "parser \<Rightarrow> string \<Rightarrow> spanned option \<Rightarrow> parse_error" where
  "unexpected p expected found =
     parse_error_at (case found of None \<Rightarrow> ps_end_offset p | Some t \<Rightarrow> sp_offset t)
       (UnexpectedToken expected
          (case found of None \<Rightarrow> lit ''end of input'' | Some t \<Rightarrow> token_describe (sp_token t)))"

definition expect :: "parser \<Rightarrow> token \<Rightarrow> string \<Rightarrow> (parser, parse_error) result" where
  "expect p expected description =
     (case next_token p of
        (Some t, p') \<Rightarrow>
          if sp_token t = expected then Ok p' else Err (unexpected p' description (Some t))
      | (None, p') \<Rightarrow> Err (unexpected p' description None))"

definition count_node :: "parser \<Rightarrow> (parser, parse_error) result" where
  "count_node p =
     (let p' = p\<lparr>ps_nodes := ps_nodes p + 1\<rparr> in
      if max_nodes < ps_nodes p' then Err (parse_error_at (current_offset p') TooManyNodes)
      else Ok p')"

definition peek_is :: "parser \<Rightarrow> token \<Rightarrow> bool" where
  "peek_is p t \<longleftrightarrow> (case peek p of None \<Rightarrow> False | Some s \<Rightarrow> sp_token s = t)"

section \<open>Paths\<close>

definition request_blocks :: "ustring list" where
  "request_blocks =
     map lit [''raw_body'', ''raw_body_bytes'', ''body'', ''form'', ''multipart'', ''method'',
       ''url'', ''scheme'', ''authority'', ''host'', ''hostname'', ''port'', ''path'',
       ''query_string'', ''query'', ''headers'', ''cookies'']"

definition first_segment :: "path \<Rightarrow> ustring option" where
  "first_segment p =
     (case path_segments p of
        [] \<Rightarrow> Some []
      | Key name # _ \<Rightarrow> Some name
      | Index _ # _ \<Rightarrow> None)"

definition supported_path :: "path \<Rightarrow> bool" where
  "supported_path p \<longleftrightarrow>
     (case path_root p of
        RequestRoot \<Rightarrow> (case first_segment p of None \<Rightarrow> False | Some n \<Rightarrow> n \<in> set request_blocks)
      | HookRoot \<Rightarrow>
          length (path_segments p) = 1 \<and>
          (first_segment p = Some (lit ''id'') \<or> first_segment p = Some (lit ''url''))
      | SecretRoot \<Rightarrow> path_segments p = []
      | KeyRoot \<Rightarrow> length (path_segments p) = 1 \<and> first_segment p = Some (lit ''public''))"

definition validate_path :: "path \<Rightarrow> nat \<Rightarrow> (unit, parse_error) result" where
  "validate_path p off =
     (if supported_path p then Ok ()
      else Err (parse_error_at off (UnsupportedPath (path_text p))))"

text \<open>One turn of the loop in \<open>path\<close>: nothing when it breaks, else the segment read.\<close>

definition path_step :: "parser \<Rightarrow> ((segment \<times> parser) option, parse_error) result" where
  "path_step p =
     (if peek_is p Dot then
        (case next_token (snd (next_token p)) of
           (Some (Spanned (Identifier name) _), p') \<Rightarrow> Ok (Some (Key name, p'))
         | (other, p') \<Rightarrow> Err (unexpected p' ''member name'' other))
      else if peek_is p LeftBracket then
        (case next_token (snd (next_token p)) of
           (Some (Spanned (Text name) _), p') \<Rightarrow>
             map_ok (\<lambda>p''. Some (Key name, p'')) (expect p' RightBracket '']'')
         | (Some (Spanned (Integer index) _), p') \<Rightarrow>
             map_ok (\<lambda>p''. Some (Index index, p'')) (expect p' RightBracket '']'')
         | (other, p') \<Rightarrow> Err (unexpected p' ''string or integer index'' other))
      else Ok None)"

definition remaining :: "parser \<Rightarrow> spanned list" where
  "remaining p = drop (ps_position p) (ps_tokens p)"

lemma peek_remaining:
  "peek p = (case remaining p of [] \<Rightarrow> None | t # _ \<Rightarrow> Some t)"
  by (auto simp: peek_def remaining_def hd_drop_conv_nth split: list.splits)
    (metis hd_drop_conv_nth list.sel(1))

lemma peek_at_remaining:
  "peek_at p n = (if n < length (remaining p) then Some (remaining p ! n) else None)"
  by (auto simp: peek_at_def remaining_def)

lemma next_token_remaining:
  "next_token p =
     (case remaining p of
        [] \<Rightarrow> (None, p)
      | t # _ \<Rightarrow> (Some t, p\<lparr>ps_position := ps_position p + 1\<rparr>))"
  by (simp add: next_token_def peek_remaining split: list.splits)

lemma remaining_advance:
  "remaining (p\<lparr>ps_position := ps_position p + n\<rparr>) = drop n (remaining p)"
  by (simp add: remaining_def add.commute)

lemma remaining_advance_Suc [simp]:
  "remaining (p\<lparr>ps_position := Suc (ps_position p)\<rparr>) = tl (remaining p)"
  using remaining_advance [of p 1] by (simp add: drop_Suc)

lemma remaining_nodes [simp]: "remaining (p\<lparr>ps_nodes := n\<rparr>) = remaining p"
  by (simp add: remaining_def)

lemma remaining_comm [simp]:
  "remaining (p\<lparr>ps_position := a, ps_nodes := n\<rparr>) = remaining (p\<lparr>ps_position := a\<rparr>)"
  by (simp add: remaining_def)

lemma next_token_Some:
  assumes "next_token p = (Some t, p')"
  shows "remaining p = t # remaining p'" and "ps_nodes p' = ps_nodes p"
  using assms by (auto simp: next_token_remaining split: list.splits)

lemma next_token_None: "next_token p = (None, p') \<Longrightarrow> p' = p \<and> remaining p = []"
  by (auto simp: next_token_remaining split: list.splits)

lemma expect_Ok:
  assumes "expect p t d = Ok p'"
  shows "\<exists>off. remaining p = Spanned t off # remaining p'" and "ps_nodes p' = ps_nodes p"
proof -
  from assms obtain s where s: "next_token p = (Some s, p')" "sp_token s = t"
    by (auto simp: expect_def split: prod.splits option.splits if_splits)
  show "\<exists>off. remaining p = Spanned t off # remaining p'"
    using next_token_Some(1) [OF s(1)] s(2) by (cases s) auto
  show "ps_nodes p' = ps_nodes p" by (rule next_token_Some(2) [OF s(1)])
qed

lemma count_node_Ok:
  "count_node p = Ok p' \<longleftrightarrow> ps_nodes p < max_nodes \<and> p' = p\<lparr>ps_nodes := ps_nodes p + 1\<rparr>"
  by (auto simp: count_node_def Let_def)

lemma peek_is_iff: "peek_is p t \<longleftrightarrow> (\<exists>off rest. remaining p = Spanned t off # rest)"
  by (auto simp: peek_is_def peek_remaining split: list.splits)
    (metis spanned.collapse)

text \<open>Every step of a path takes at least two tokens, so the loop ends.\<close>

lemma path_step_Some:
  assumes "path_step p = Ok (Some (seg, p'))"
  shows "length (remaining p') + 2 \<le> length (remaining p)" and "ps_nodes p' = ps_nodes p"
proof -
  obtain t1 where t1: "next_token p = (Some t1, snd (next_token p))"
    using assms by (auto simp: path_step_def peek_is_iff next_token_remaining split: if_splits)
  let ?p1 = "snd (next_token p)"
  obtain t2 p2 where t2: "next_token ?p1 = (Some t2, p2)"
    using assms by (auto simp: path_step_def split: if_splits prod.splits option.splits)
  have "p' = p2 \<or> (\<exists>d. expect p2 RightBracket d = Ok p')"
    using assms unfolding path_step_def t2
    by (auto simp: result_simps split: if_splits token.splits spanned.splits)
  then have "length (remaining p') \<le> length (remaining p2) \<and> ps_nodes p' = ps_nodes p2"
    using expect_Ok by fastforce
  then show "length (remaining p') + 2 \<le> length (remaining p)" "ps_nodes p' = ps_nodes p"
    using next_token_Some [OF t1] next_token_Some [OF t2] by auto
qed

function path_loop :: "parser \<Rightarrow> segment list \<Rightarrow> (segment list \<times> parser, parse_error) result" where
  "path_loop p segments =
     (case path_step p of
        Err e \<Rightarrow> Err e
      | Ok None \<Rightarrow> Ok (segments, p)
      | Ok (Some (seg, p')) \<Rightarrow>
          (case count_node p' of
             Err e \<Rightarrow> Err e
           | Ok p'' \<Rightarrow> path_loop p'' (segments @ [seg])))"
  by pat_completeness auto
termination
  by (relation "measure (\<lambda>(p, segments). length (remaining p))")
    (auto simp: count_node_Ok dest!: path_step_Some(1))

declare path_loop.simps [simp del]

definition parse_path :: "ustring \<Rightarrow> nat \<Rightarrow> parser \<Rightarrow> (expr \<times> parser, parse_error) result" where
  "parse_path root_name off p =
     (case root_parse root_name of
        None \<Rightarrow> Err (parse_error_at off (UnknownRoot root_name))
      | Some root \<Rightarrow>
          (case path_loop p [] of
             Err e \<Rightarrow> Err e
           | Ok (segments, p') \<Rightarrow>
               (let path = \<lparr>path_root = root, path_segments = segments\<rparr> in
                map_ok (\<lambda>_. (PathExpr path, p')) (validate_path path off))))"

section \<open>Calls\<close>

definition validate_call :: "call \<Rightarrow> nat \<Rightarrow> (unit, parse_error) result" where
  "validate_call c off =
     (let (min, max) = func_arity (call_function c); actual = length (call_arguments c) in
      if actual < min \<or> max < actual then
        Err (parse_error_at off
          (Arity (func_name (call_function c)) min
             (if max \<noteq> usize_max then Some max else None) actual))
      else if requires_separator (call_function c) \<and> call_separator c = None then
        Err (parse_error_at off (MissingOption ''separator''))
      else Ok ())"

text \<open>The keyword branch of \<open>argument\<close>, after \<open>is_keyword\<close> has seen a name and a colon.\<close>

definition parse_keyword :: "call \<Rightarrow> parser \<Rightarrow> (call \<times> parser, parse_error) result" where
  "parse_keyword c p =
     (case next_token p of
        (Some (Spanned (Identifier keyword) off), p1) \<Rightarrow>
          (case expect p1 Colon '':'' of
             Err e \<Rightarrow> Err e
           | Ok p2 \<Rightarrow>
               if keyword = lit ''separator'' \<and> accepts_separator (call_function c) then
                 (if call_separator c \<noteq> None
                  then Err (parse_error_at off (DuplicateOption ''separator''))
                  else
                    (case next_token p2 of
                       (Some (Spanned (Text v) off'), p3) \<Rightarrow>
                         if v \<in> set separators then Ok (c\<lparr>call_separator := Some v\<rparr>, p3)
                         else Err (parse_error_at off' (InvalidSeparator v))
                     | (other, p3) \<Rightarrow> Err (unexpected p3 ''separator string'' other)))
               else if keyword = lit ''order'' \<and> accepts_order (call_function c) then
                 (if call_order c \<noteq> None
                  then Err (parse_error_at off (DuplicateOption ''order''))
                  else
                    (case next_token p2 of
                       (Some (Spanned (Identifier v) off'), p3) \<Rightarrow>
                         (case sort_order_parse v of
                            None \<Rightarrow> Err (parse_error_at off' (InvalidOrder v))
                          | Some d \<Rightarrow> Ok (c\<lparr>call_order := Some d\<rparr>, p3))
                     | (other, p3) \<Rightarrow> Err (unexpected p3 ''asc or desc'' other)))
               else Err (parse_error_at off (UnexpectedOption keyword)))
      | (_, p1) \<Rightarrow> Err (unexpected p1 ''option name'' None))"

definition is_keyword :: "parser \<Rightarrow> bool" where
  "is_keyword p \<longleftrightarrow>
     (case (peek p, peek_at p 1) of
        (Some (Spanned (Identifier _) _), Some (Spanned Colon _)) \<Rightarrow> True
      | _ \<Rightarrow> False)"

definition new_call :: "func \<Rightarrow> call" where
  "new_call f =
     \<lparr>call_function = f, call_arguments = [], call_separator = None, call_order = None\<rparr>"

text \<open>
  The four methods that call each other. The second result component is the parser after the
  tokens they took; \<open>parse_arguments\<close> is the loop of \<open>call\<close> up to the closing parenthesis.
\<close>

fun parse_expression :: "nat \<Rightarrow> nat \<Rightarrow> parser \<Rightarrow> (expr \<times> parser, parse_error) result option"
and parse_call :: "nat \<Rightarrow> ustring \<Rightarrow> nat \<Rightarrow> nat \<Rightarrow> parser \<Rightarrow> (expr \<times> parser, parse_error) result option"
and parse_arguments :: "nat \<Rightarrow> call \<Rightarrow> nat \<Rightarrow> parser \<Rightarrow> (call \<times> parser, parse_error) result option"
and parse_argument :: "nat \<Rightarrow> call \<Rightarrow> nat \<Rightarrow> parser \<Rightarrow> (call \<times> parser, parse_error) result option"
where
  "parse_expression 0 depth p = None"
| "parse_expression (Suc n) depth p =
     (if max_depth < depth then Some (Err (parse_error_at (current_offset p) TooDeep))
      else
        (case count_node p of
           Err e \<Rightarrow> Some (Err e)
         | Ok p1 \<Rightarrow>
             (case next_token p1 of
                (None, p2) \<Rightarrow> Some (Err (unexpected p2 ''expression'' None))
              | (Some (Spanned (Text v) off), p2) \<Rightarrow> Some (Ok (Literal v, p2))
              | (Some (Spanned (Identifier name) off), p2) \<Rightarrow>
                  if peek_is p2 LeftParen then parse_call n name off depth p2
                  else Some (parse_path name off p2)
              | (Some t, p2) \<Rightarrow> Some (Err (unexpected p2 ''expression'' (Some t))))))"
| "parse_call 0 name off depth p = None"
| "parse_call (Suc n) name off depth p =
     (case func_parse name of
        None \<Rightarrow> Some (Err (parse_error_at off (UnknownFunction name)))
      | Some f \<Rightarrow>
          (case expect p LeftParen ''('' of
             Err e \<Rightarrow> Some (Err e)
           | Ok p1 \<Rightarrow>
               (case (if peek_is p1 RightParen then Some (Ok (new_call f, snd (next_token p1)))
                      else parse_arguments n (new_call f) depth p1) of
                  None \<Rightarrow> None
                | Some (Err e) \<Rightarrow> Some (Err e)
                | Some (Ok (c, p2)) \<Rightarrow>
                    Some (map_ok (\<lambda>_. (call_expr c, p2)) (validate_call c off)))))"
| "parse_arguments 0 c depth p = None"
| "parse_arguments (Suc n) c depth p =
     (case parse_argument n c depth p of
        None \<Rightarrow> None
      | Some (Err e) \<Rightarrow> Some (Err e)
      | Some (Ok (c', p1)) \<Rightarrow>
          (case next_token p1 of
             (Some (Spanned Comma off), p2) \<Rightarrow> parse_arguments n c' depth p2
           | (Some (Spanned RightParen off), p2) \<Rightarrow> Some (Ok (c', p2))
           | (other, p2) \<Rightarrow> Some (Err (unexpected p2 '', or )'' other))))"
| "parse_argument 0 c depth p = None"
| "parse_argument (Suc n) c depth p =
     (if is_keyword p then Some (parse_keyword c p)
      else
        (case parse_expression n (depth + 1) p of
           None \<Rightarrow> None
         | Some (Err e) \<Rightarrow> Some (Err e)
         | Some (Ok (e, p')) \<Rightarrow>
             Some (Ok (c\<lparr>call_arguments := call_arguments c @ [e]\<rparr>, p'))))"

definition initial_parser :: "ustring \<Rightarrow> spanned list \<Rightarrow> parser" where
  "initial_parser source tokens =
     \<lparr>ps_tokens = tokens, ps_position = 0, ps_nodes = 0, ps_end_offset = str_len source\<rparr>"

definition run_parser :: "ustring \<Rightarrow> (expr, parse_error) result option" where
  "run_parser source =
     (case tokenize source of
        Err e \<Rightarrow> Some (Err e)
      | Ok tokens \<Rightarrow>
          (case parse_expression (4 * length tokens + 1) 0 (initial_parser source tokens) of
             None \<Rightarrow> None
           | Some (Err e) \<Rightarrow> Some (Err e)
           | Some (Ok (e, p)) \<Rightarrow>
               (case peek p of
                  None \<Rightarrow> Some (Ok e)
                | Some extra \<Rightarrow> Some (Err (unexpected p ''end of input'' (Some extra))))))"

text \<open>\<open>parse\<close> itself; \<open>run_parser_total\<close> below shows that the option is never \<open>None\<close>.\<close>

definition parse :: "ustring \<Rightarrow> (expr, parse_error) result" where
  "parse source = the (run_parser source)"

end
