(* ===== verification/Grammar.thy ===== *)
theory Grammar
  imports Parser
begin

text \<open>
  What a successful parse guarantees. \<open>wf_expr\<close> is the contract of the grammar: only blocks that
  exist, arities and options that fit the function, separators from the documented list. The
  parser's methods are shown to keep it, to count every node and every level of nesting, and to
  return whenever the fuel is at least four times the tokens left.
\<close>

section \<open>Well-formed expressions\<close>

fun expr_nodes :: "expr \<Rightarrow> nat" where
  "expr_nodes (Literal v) = 1"
| "expr_nodes (PathExpr p) = 1 + length (path_segments p)"
| "expr_nodes (CallExpr f args sep ord) = 1 + sum_list (map expr_nodes args)"

fun expr_depth :: "expr \<Rightarrow> nat" where
  "expr_depth (Literal v) = 0"
| "expr_depth (PathExpr p) = 0"
| "expr_depth (CallExpr f args sep ord) = foldr max (map (\<lambda>a. Suc (expr_depth a)) args) 0"

definition call_options_ok :: "func \<Rightarrow> ustring option \<Rightarrow> sort_order option \<Rightarrow> bool" where
  "call_options_ok f sep ord \<longleftrightarrow>
     (case sep of None \<Rightarrow> True | Some s \<Rightarrow> accepts_separator f \<and> s \<in> set separators) \<and>
     (ord \<noteq> None \<longrightarrow> accepts_order f)"

definition arity_ok :: "func \<Rightarrow> nat \<Rightarrow> bool" where
  "arity_ok f n \<longleftrightarrow> fst (func_arity f) \<le> n \<and> n \<le> snd (func_arity f)"

fun wf_expr :: "expr \<Rightarrow> bool" where
  "wf_expr (Literal v) = True"
| "wf_expr (PathExpr p) = supported_path p"
| "wf_expr (CallExpr f args sep ord) \<longleftrightarrow>
     arity_ok f (length args) \<and> call_options_ok f sep ord \<and>
     (requires_separator f \<longrightarrow> sep \<noteq> None) \<and> list_all wf_expr args"

lemma foldr_max_le: "foldr max (map f xs) (0::nat) \<le> k \<longleftrightarrow> (\<forall>x \<in> set xs. f x \<le> k)"
  by (induction xs) auto

lemma expr_depth_call_le:
  "expr_depth (CallExpr f args sep ord) \<le> k \<longleftrightarrow> (\<forall>a \<in> set args. Suc (expr_depth a) \<le> k)"
  by (simp add: foldr_max_le)

lemma expr_depth_call_add:
  "d \<le> k \<Longrightarrow>
   d + expr_depth (CallExpr f args sep ord) \<le> k \<longleftrightarrow> (\<forall>a \<in> set args. d + 1 + expr_depth a \<le> k)"
  using expr_depth_call_le [of f args sep ord "k - d"] by fastforce

lemma expr_nodes_pos: "0 < expr_nodes e"
  by (cases e) simp_all

lemma validate_call_Ok:
  "validate_call c off = Ok u \<longleftrightarrow>
     arity_ok (call_function c) (length (call_arguments c)) \<and>
     (requires_separator (call_function c) \<longrightarrow> call_separator c \<noteq> None)"
  by (auto simp: validate_call_def arity_ok_def Let_def split: prod.splits)

lemma validate_path_Ok: "validate_path p off = Ok u \<longleftrightarrow> supported_path p"
  by (simp add: validate_path_def)

section \<open>What the methods guarantee\<close>

text \<open>The call being filled in: its options fit, its arguments are well-formed and shallow.\<close>

definition call_ok :: "nat \<Rightarrow> call \<Rightarrow> bool" where
  "call_ok d c \<longleftrightarrow>
     call_options_ok (call_function c) (call_separator c) (call_order c) \<and>
     (\<forall>a \<in> set (call_arguments c). wf_expr a \<and> d + 1 + expr_depth a \<le> max_depth)"

definition call_nodes :: "call \<Rightarrow> nat" where
  "call_nodes c = sum_list (map expr_nodes (call_arguments c))"

definition advances :: "parser \<Rightarrow> parser \<Rightarrow> bool" where
  "advances p p' \<longleftrightarrow> length (remaining p') < length (remaining p)"

definition expr_post :: "nat \<Rightarrow> parser \<Rightarrow> expr \<Rightarrow> parser \<Rightarrow> bool" where
  "expr_post d p e p' \<longleftrightarrow>
     wf_expr e \<and> d + expr_depth e \<le> max_depth \<and> ps_nodes p' = ps_nodes p + expr_nodes e \<and>
     ps_nodes p' \<le> max_nodes \<and> advances p p'"

definition call_post :: "nat \<Rightarrow> parser \<Rightarrow> expr \<Rightarrow> parser \<Rightarrow> bool" where
  "call_post d p e p' \<longleftrightarrow>
     (d \<le> max_depth \<longrightarrow> ps_nodes p \<le> max_nodes \<longrightarrow>
      wf_expr e \<and> d + expr_depth e \<le> max_depth \<and> ps_nodes p' + 1 = ps_nodes p + expr_nodes e \<and>
      ps_nodes p' \<le> max_nodes) \<and> advances p p'"

definition args_post :: "nat \<Rightarrow> call \<Rightarrow> parser \<Rightarrow> call \<Rightarrow> parser \<Rightarrow> bool" where
  "args_post d c p c' p' \<longleftrightarrow>
     call_function c' = call_function c \<and>
     (call_ok d c \<longrightarrow> ps_nodes p \<le> max_nodes \<longrightarrow>
      call_ok d c' \<and> ps_nodes p' + call_nodes c = ps_nodes p + call_nodes c' \<and>
      ps_nodes p' \<le> max_nodes) \<and> advances p p'"

definition sound_expression :: "nat \<Rightarrow> bool" where
  "sound_expression n \<longleftrightarrow>
     (\<forall>d p e p'. parse_expression n d p = Some (Ok (e, p')) \<longrightarrow> expr_post d p e p')"

definition sound_call :: "nat \<Rightarrow> bool" where
  "sound_call n \<longleftrightarrow>
     (\<forall>name off d p e p'. parse_call n name off d p = Some (Ok (e, p')) \<longrightarrow> call_post d p e p')"

definition sound_arguments :: "nat \<Rightarrow> bool" where
  "sound_arguments n \<longleftrightarrow>
     (\<forall>c d p c' p'. parse_arguments n c d p = Some (Ok (c', p')) \<longrightarrow> args_post d c p c' p')"

definition sound_argument :: "nat \<Rightarrow> bool" where
  "sound_argument n \<longleftrightarrow>
     (\<forall>c d p c' p'. parse_argument n c d p = Some (Ok (c', p')) \<longrightarrow> args_post d c p c' p')"

lemma path_loop_Ok:
  "path_loop p segs = Ok (segs', p') \<Longrightarrow>
   length segs \<le> length segs' \<and> ps_nodes p' + length segs = ps_nodes p + length segs' \<and>
   (ps_nodes p \<le> max_nodes \<longrightarrow> ps_nodes p' \<le> max_nodes) \<and>
   length (remaining p') \<le> length (remaining p)"
proof (induction p segs rule: path_loop.induct)
  case (1 p segs)
  show ?case
  proof (cases "path_step p")
    case (Err e)
    with "1.prems" show ?thesis by (simp add: path_loop.simps)
  next
    case step: (Ok x)
    show ?thesis
    proof (cases x)
      case None
      with "1.prems" step show ?thesis by (simp add: path_loop.simps)
    next
      case (Some sp)
      obtain seg q where sp: "sp = (seg, q)" by force
      with step Some have st: "path_step p = Ok (Some (seg, q))" by simp
      from "1.prems" obtain q' where q': "count_node q = Ok q'" "path_loop q' (segs @ [seg]) = Ok (segs', p')"
        by (subst (asm) path_loop.simps) (auto simp: st split: result.splits)
      from "1.IH" [OF step Some sp [symmetric] q'] path_step_Some [OF st] q'(1)
      show ?thesis by (auto simp: count_node_Ok)
    qed
  qed
qed

lemma parse_path_Ok:
  "parse_path name off p = Ok (e, p') \<Longrightarrow>
   wf_expr e \<and> expr_depth e = 0 \<and> ps_nodes p' + 1 = ps_nodes p + expr_nodes e \<and>
   (ps_nodes p \<le> max_nodes \<longrightarrow> ps_nodes p' \<le> max_nodes) \<and>
   length (remaining p') \<le> length (remaining p)"
  by (auto simp: parse_path_def Let_def result_simps validate_path_Ok
      split: option.splits result.splits dest!: path_loop_Ok)

lemma parse_keyword_Ok:
  assumes "parse_keyword c p = Ok (c', p')"
  shows "args_post d c p c' p'"
proof -
  from assms obtain kw off p1 p2 where
    p1: "next_token p = (Some (Spanned (Identifier kw) off), p1)" and
    p2: "expect p1 Colon '':'' = Ok p2"
    by (auto simp: parse_keyword_def split: prod.splits option.splits spanned.splits token.splits
        result.splits)
  from assms obtain t where p3: "next_token p2 = (Some t, p')" and
    c': "(\<exists>v. accepts_separator (call_function c) \<and> v \<in> set separators \<and>
           c' = c\<lparr>call_separator := Some v\<rparr>) \<or>
         (\<exists>v. accepts_order (call_function c) \<and> c' = c\<lparr>call_order := Some v\<rparr>)"
    by (auto simp: parse_keyword_def p1 p2
        split: prod.splits option.splits spanned.splits token.splits result.splits if_splits)
  have "call_ok d c \<Longrightarrow> call_ok d c'" "call_nodes c' = call_nodes c"
    "call_function c' = call_function c"
    using c' by (auto simp: call_ok_def call_nodes_def call_options_ok_def split: option.split)
  moreover have "ps_nodes p' = ps_nodes p" "advances p p'"
    using next_token_Some [OF p1] expect_Ok [OF p2] next_token_Some [OF p3]
    by (auto simp: advances_def)
  ultimately show ?thesis by (simp add: args_post_def)
qed

lemma sound_expression_Suc:
  assumes "sound_call n"
  shows "sound_expression (Suc n)"
  unfolding sound_expression_def
proof (intro allI impI)
  fix d p e p'
  assume *: "parse_expression (Suc n) d p = Some (Ok (e, p'))"
  then have d: "d \<le> max_depth" by (simp split: if_splits)
  with * obtain p1 where p1: "count_node p = Ok p1"
    by (auto split: result.splits)
  with * d obtain t p2 where p2: "next_token p1 = (Some t, p2)"
    by (auto split: prod.splits option.splits)
  have n: "ps_nodes p2 = ps_nodes p + 1" "ps_nodes p2 \<le> max_nodes"
    and r: "length (remaining p2) < length (remaining p)"
    using p1 next_token_Some [OF p2] by (auto simp: count_node_Ok)
  show "expr_post d p e p'"
  proof (cases "sp_token t")
    case (Identifier name)
    then obtain off where t: "t = Spanned (Identifier name) off" by (cases t) simp
    show ?thesis
    proof (cases "peek_is p2 LeftParen")
      case True
      with * d p1 p2 t have "parse_call n name off d p2 = Some (Ok (e, p'))" by simp
      with assms have "call_post d p2 e p'" by (auto simp: sound_call_def)
      with d n r show ?thesis by (auto simp: call_post_def expr_post_def advances_def)
    next
      case False
      with * d p1 p2 t have "parse_path name off p2 = Ok (e, p')" by simp
      from parse_path_Ok [OF this] d n r show ?thesis
        by (auto simp: expr_post_def advances_def)
    qed
  qed (use * d p1 p2 n r in \<open>cases t; auto simp: expr_post_def advances_def\<close>)+
qed

lemma sound_call_Suc:
  assumes "sound_arguments n"
  shows "sound_call (Suc n)"
  unfolding sound_call_def
proof (intro allI impI)
  fix name off d p e p'
  assume *: "parse_call (Suc n) name off d p = Some (Ok (e, p'))"
  then obtain f where f: "func_parse name = Some f" by (auto split: option.splits)
  with * obtain p1 where p1: "expect p LeftParen ''('' = Ok p1" by (auto split: result.splits)
  let ?r = "if peek_is p1 RightParen then Some (Ok (new_call f, snd (next_token p1)))
            else parse_arguments n (new_call f) d p1"
  from * f p1 obtain c where c: "?r = Some (Ok (c, p'))" "e = call_expr c"
    "arity_ok (call_function c) (length (call_arguments c))"
    "requires_separator (call_function c) \<longrightarrow> call_separator c \<noteq> None"
    by (fastforce simp: result_simps validate_call_Ok split: option.splits result.splits)
  have new: "call_ok d (new_call f)" "call_nodes (new_call f) = 0"
    by (simp_all add: call_ok_def new_call_def call_options_ok_def call_nodes_def)
  show "call_post d p e p'"
  proof (cases "peek_is p1 RightParen")
    case True
    with c have "c = new_call f" by simp
    with c(3) show ?thesis by (simp add: new_call_def arity_ok_def func_arity_def split: if_splits)
  next
    case False
    with c(1) assms have post: "args_post d (new_call f) p1 c p'"
      by (auto simp: sound_arguments_def)
    note p1' = expect_Ok [OF p1]
    have adv: "advances p p'" using post p1' by (auto simp: args_post_def advances_def)
    have "wf_expr e \<and> d + expr_depth e \<le> max_depth \<and> ps_nodes p' + 1 = ps_nodes p + expr_nodes e \<and>
          ps_nodes p' \<le> max_nodes" if d: "d \<le> max_depth" and n: "ps_nodes p \<le> max_nodes"
    proof -
      from post new n p1' have ok: "call_ok d c" "ps_nodes p' = ps_nodes p + call_nodes c"
        "ps_nodes p' \<le> max_nodes"
        by (auto simp: args_post_def)
      then have "wf_expr e" "ps_nodes p' + 1 = ps_nodes p + expr_nodes e"
        using c(2-4) by (auto simp: call_expr_def call_ok_def list_all_iff call_nodes_def)
      moreover have "d + expr_depth e \<le> max_depth"
        unfolding c(2) call_expr_def expr_depth_call_add [OF d]
        using ok(1) by (auto simp: call_ok_def)
      ultimately show ?thesis using ok(3) by blast
    qed
    with adv show ?thesis by (simp add: call_post_def)
  qed
qed

lemma args_post_trans:
  assumes "args_post d c p c1 p1" and "args_post d c1 p2 c' p'"
    and "ps_nodes p2 = ps_nodes p1" and "length (remaining p2) \<le> length (remaining p1)"
  shows "args_post d c p c' p'"
  using assms by (auto simp: args_post_def advances_def)

lemma sound_arguments_Suc:
  assumes "sound_argument n" and "sound_arguments n"
  shows "sound_arguments (Suc n)"
  unfolding sound_arguments_def
proof (intro allI impI)
  fix c d p c' p'
  assume *: "parse_arguments (Suc n) c d p = Some (Ok (c', p'))"
  then obtain c1 p1 where a: "parse_argument n c d p = Some (Ok (c1, p1))"
    by (auto split: option.splits result.splits)
  with assms(1) have post: "args_post d c p c1 p1" by (auto simp: sound_argument_def)
  from * a obtain t p2 where p2: "next_token p1 = (Some t, p2)"
    by (auto split: prod.splits option.splits)
  note p2' = next_token_Some [OF p2]
  obtain k off where t: "t = Spanned k off" by (cases t)
  from * a p2 t consider "k = Comma" "parse_arguments n c1 d p2 = Some (Ok (c', p'))"
    | "k = RightParen" "c' = c1" "p' = p2"
    by (auto split: token.splits)
  then show "args_post d c p c' p'"
  proof cases
    case 1
    with assms(2) have "args_post d c1 p2 c' p'" by (auto simp: sound_arguments_def)
    with post p2' show ?thesis by (auto intro: args_post_trans)
  next
    case 2
    with post p2' show ?thesis by (auto simp: args_post_def advances_def)
  qed
qed

lemma sound_argument_Suc:
  assumes "sound_expression n"
  shows "sound_argument (Suc n)"
  unfolding sound_argument_def
proof (intro allI impI)
  fix c d p c' p'
  assume *: "parse_argument (Suc n) c d p = Some (Ok (c', p'))"
  show "args_post d c p c' p'"
  proof (cases "is_keyword p")
    case True
    with * show ?thesis by (auto intro: parse_keyword_Ok)
  next
    case False
    with * obtain e where e: "parse_expression n (d + 1) p = Some (Ok (e, p'))"
      "c' = c\<lparr>call_arguments := call_arguments c @ [e]\<rparr>"
      by (auto split: option.splits result.splits)
    with assms have "expr_post (d + 1) p e p'" by (auto simp: sound_expression_def)
    with e(2) show ?thesis
      by (auto simp: args_post_def expr_post_def call_ok_def call_nodes_def advances_def)
  qed
qed

lemma sound_methods:
  "sound_expression n \<and> sound_call n \<and> sound_arguments n \<and> sound_argument n"
proof (induction n)
  case 0
  show ?case
    by (simp add: sound_expression_def sound_call_def sound_arguments_def sound_argument_def)
next
  case (Suc n)
  then show ?case
    by (simp add: sound_expression_Suc sound_call_Suc sound_arguments_Suc sound_argument_Suc)
qed

section \<open>Enough fuel\<close>

definition enough_expression :: "nat \<Rightarrow> bool" where
  "enough_expression n \<longleftrightarrow>
     (\<forall>d p. 4 * length (remaining p) + 1 \<le> n \<longrightarrow> parse_expression n d p \<noteq> None)"

definition enough_call :: "nat \<Rightarrow> bool" where
  "enough_call n \<longleftrightarrow>
     (\<forall>name off d p. 4 * length (remaining p) + 4 \<le> n \<longrightarrow> parse_call n name off d p \<noteq> None)"

definition enough_arguments :: "nat \<Rightarrow> bool" where
  "enough_arguments n \<longleftrightarrow>
     (\<forall>c d p. 4 * length (remaining p) + 3 \<le> n \<longrightarrow> parse_arguments n c d p \<noteq> None)"

definition enough_argument :: "nat \<Rightarrow> bool" where
  "enough_argument n \<longleftrightarrow>
     (\<forall>c d p. 4 * length (remaining p) + 2 \<le> n \<longrightarrow> parse_argument n c d p \<noteq> None)"

lemma enough_expression_Suc:
  assumes "enough_call n"
  shows "enough_expression (Suc n)"
  unfolding enough_expression_def
proof (intro allI impI)
  fix d p
  assume fuel: "4 * length (remaining p) + 1 \<le> Suc n"
  have "parse_call n name off d p2 \<noteq> None"
    if "count_node p = Ok p1" and "next_token p1 = (Some t, p2)" for name off p1 p2 t
    using assms fuel that next_token_Some [OF that(2)]
    by (auto simp: enough_call_def count_node_Ok)
  then show "parse_expression (Suc n) d p \<noteq> None"
    by (auto split: result.splits prod.splits option.splits spanned.splits token.splits)
qed

lemma enough_call_Suc:
  assumes "enough_arguments n"
  shows "enough_call (Suc n)"
  unfolding enough_call_def
proof (intro allI impI)
  fix name off d p
  assume fuel: "4 * length (remaining p) + 4 \<le> Suc n"
  have more: False if "expect p t x = Ok p1" "parse_arguments n c d p1 = None" for c p1 t x
  proof -
    have "4 * length (remaining p1) + 3 \<le> n" using fuel expect_Ok [OF that(1)] by auto
    with assms that(2) show False unfolding enough_arguments_def by blast
  qed
  show "parse_call (Suc n) name off d p \<noteq> None"
    by (auto split: result.splits prod.splits option.splits dest: more)
qed

lemma enough_arguments_Suc:
  assumes "enough_argument n" and "enough_arguments n"
  shows "enough_arguments (Suc n)"
  unfolding enough_arguments_def
proof (intro allI impI)
  fix c d p
  assume fuel: "4 * length (remaining p) + 3 \<le> Suc n"
  then have first: "parse_argument n c d p \<noteq> None"
    using assms(1) by (simp add: enough_argument_def)
  have "parse_arguments n c' d p2 \<noteq> None"
    if a: "parse_argument n c d p = Some (Ok (c', p1))" and t: "next_token p1 = (Some t, p2)"
    for c' p1 p2 t
  proof -
    have "args_post d c p c' p1" using sound_methods [of n] a by (auto simp: sound_argument_def)
    with next_token_Some [OF t] fuel assms(2) show ?thesis
      by (auto simp: args_post_def advances_def enough_arguments_def)
  qed
  with first show "parse_arguments (Suc n) c d p \<noteq> None"
    by (auto split: result.splits prod.splits option.splits spanned.splits token.splits)
qed

lemma enough_argument_Suc:
  assumes "enough_expression n"
  shows "enough_argument (Suc n)"
  unfolding enough_argument_def
proof (intro allI impI)
  fix c d p
  assume "4 * length (remaining p) + 2 \<le> Suc n"
  with assms have "parse_expression n (d + 1) p \<noteq> None" by (simp add: enough_expression_def)
  then show "parse_argument (Suc n) c d p \<noteq> None"
    by (auto split: result.splits option.splits)
qed

lemma enough_methods:
  "enough_expression n \<and> enough_call n \<and> enough_arguments n \<and> enough_argument n"
proof (induction n)
  case 0
  show ?case
    by (simp add: enough_expression_def enough_call_def enough_arguments_def enough_argument_def)
next
  case (Suc n)
  then show ?case
    by (simp add: enough_expression_Suc enough_call_Suc enough_arguments_Suc enough_argument_Suc)
qed

lemma run_parser_total: "\<exists>r. run_parser source = Some r"
proof (cases "tokenize source")
  case (Ok tokens)
  have "remaining (initial_parser source tokens) = tokens"
    by (simp add: remaining_def initial_parser_def)
  with enough_methods [of "4 * length tokens + 1"]
  have "parse_expression (4 * length tokens + 1) 0 (initial_parser source tokens) \<noteq> None"
    by (simp add: enough_expression_def del: parse_expression.simps)
  with Ok show ?thesis
    by (auto simp: run_parser_def simp del: parse_expression.simps
        split: option.splits result.splits prod.splits)
qed (simp add: run_parser_def)

lemma run_parser_parse: "run_parser source = Some (parse source)"
  using run_parser_total [of source] by (auto simp: parse_def)

text \<open>What a caller of \<open>parse\<close> may rely on.\<close>

lemma parse_Ok:
  assumes "parse source = Ok e"
  shows "wf_expr e" and "expr_depth e \<le> max_depth" and "expr_nodes e \<le> max_nodes"
    and "str_len source \<le> max_expression_bytes"
proof -
  from assms have r: "run_parser source = Some (Ok e)" by (simp add: run_parser_parse)
  then obtain tokens where t: "tokenize source = Ok tokens"
    by (auto simp: run_parser_def split: result.splits)
  with r obtain p where
    "parse_expression (4 * length tokens + 1) 0 (initial_parser source tokens) = Some (Ok (e, p))"
    by (auto simp: run_parser_def simp del: parse_expression.simps
        split: option.splits result.splits prod.splits)
  with sound_methods have "expr_post 0 (initial_parser source tokens) e p"
    unfolding sound_expression_def by blast
  then show "wf_expr e" "expr_depth e \<le> max_depth" "expr_nodes e \<le> max_nodes"
    by (auto simp: expr_post_def initial_parser_def)
  from t show "str_len source \<le> max_expression_bytes"
    by (auto simp: tokenize_def split: if_splits)
qed

end
