(* ===== verification/SigValue.thy ===== *)
theory SigValue
  imports Std_Text
begin

text \<open>
  JSON documents and the runtime values of signature expressions
  (\<open>domain/signature/value.rs\<close>). \<open>serde_json::Map\<close> is used in its default configuration, a
  \<open>BTreeMap\<close>: it is an association list sorted by the bytes of its keys, and insertion puts a
  member in its place. A JSON number is kept as the text it is displayed with.
\<close>

section \<open>JSON and ordered maps\<close>

datatype json =
    JNull
  | JBool bool
  | JNumber ustring
  | JString ustring
  | JArray "json list"
  | JObject "(ustring \<times> json) list"

definition cmp_text :: "ustring \<Rightarrow> ustring \<Rightarrow> ordering" where
  "cmp_text a b = cmp_list (utf8 a) (utf8 b)"

fun btree_insert :: "ustring \<Rightarrow> 'v \<Rightarrow> (ustring \<times> 'v) list \<Rightarrow> (ustring \<times> 'v) list" where
  "btree_insert k v [] = [(k, v)]"
| "btree_insert k v ((k', v') # m) =
     (if k = k' then (k, v) # m
      else if cmp_text k k' = Less then (k, v) # (k', v') # m
      else (k', v') # btree_insert k v m)"

lemma map_of_btree_insert: "map_of (btree_insert k v m) = (map_of m)(k \<mapsto> v)"
  by (induction m rule: btree_insert.induct) auto

lemma set_btree_insert: "set (btree_insert k v m) \<subseteq> insert (k, v) (set m)"
  by (induction k v m rule: btree_insert.induct) auto

lemma cmp_text_Equal: "valid_text a \<Longrightarrow> valid_text b \<Longrightarrow> cmp_text a b = Equal \<longleftrightarrow> a = b"
  by (simp add: cmp_text_def utf8_inject)

lemma cmp_text_flip: "cmp_text b a = reverse_ordering (cmp_text a b)"
  by (simp add: cmp_text_def cmp_list_flip [of "utf8 a" "utf8 b"])

lemma cmp_text_trans: "cmp_text a b = Less \<Longrightarrow> cmp_text b c = Less \<Longrightarrow> cmp_text a c = Less"
  by (simp add: cmp_text_def cmp_list_trans [of "utf8 a" "utf8 b" "utf8 c"])

definition btree :: "(ustring \<times> 'v) list \<Rightarrow> bool" where
  "btree m \<longleftrightarrow> sorted_wrt (\<lambda>a b. cmp_text (fst a) (fst b) = Less) m \<and> list_all valid_text (map fst m)"

lemma btree_insert_keys:
  "x \<in> set (btree_insert k v m) \<Longrightarrow> fst x = k \<or> fst x \<in> fst ` set m"
  using set_btree_insert [of k v m] by force

lemma btree_btree_insert:
  "btree m \<Longrightarrow> valid_text k \<Longrightarrow> btree (btree_insert k v m)"
proof (induction k v m rule: btree_insert.induct)
  case (1 k v)
  then show ?case by (simp add: btree_def)
next
  case (2 k v k' v' m)
  then have m: "btree m" "valid_text k'" and less: "\<And>a. a \<in> set m \<Longrightarrow> cmp_text k' (fst a) = Less"
    by (auto simp: btree_def)
  consider "k = k'" | "k \<noteq> k'" "cmp_text k k' = Less" | "k \<noteq> k'" "cmp_text k k' = Greater"
    using cmp_text_Equal 2 m by (metis ordering.exhaust)
  then show ?case
  proof cases
    case 1
    with 2 show ?thesis by (simp add: btree_def)
  next
    case 2
    with "2.prems" less show ?thesis
      by (auto simp: btree_def intro: cmp_text_trans)
  next
    case 3
    then have gt: "cmp_text k' k = Less" using cmp_text_flip [of k' k] by simp
    have "btree (btree_insert k v m)" using 2 3 m by simp
    moreover have "cmp_text k' (fst a) = Less" if "a \<in> set (btree_insert k v m)" for a
      using btree_insert_keys [OF that] gt less by auto
    ultimately show ?thesis using 3 m by (simp add: btree_def)
  qed
qed

text \<open>A sorted map is determined by its lookups.\<close>

lemma btree_head_lookup:
  assumes "btree ((k, v) # m)"
  shows "map_of m k = None" and "map_of m k' = Some v' \<Longrightarrow> cmp_text k k' = Less"
proof -
  show "map_of m k = None"
    using assms by (force simp: btree_def map_of_eq_None_iff cmp_text_def)
  show "map_of m k' = Some v' \<Longrightarrow> cmp_text k k' = Less"
    using assms map_of_SomeD [of m k' v'] by (fastforce simp: btree_def)
qed

lemma btree_unique: "btree m \<Longrightarrow> btree n \<Longrightarrow> map_of m = map_of n \<Longrightarrow> m = n"
proof (induction m arbitrary: n)
  case Nil
  then show ?case by (metis list.exhaust map_of_eq_empty_iff)
next
  case (Cons a m)
  obtain k v where a: "a = (k, v)" by force
  from Cons.prems(3) a have "map_of n k = Some v" by (metis fun_upd_same map_of.simps(2) fst_conv snd_conv)
  then obtain k' v' n' where n: "n = (k', v') # n'" by (cases n) auto
  note hm = btree_head_lookup [OF Cons.prems(1) [unfolded a]]
  note hn = btree_head_lookup [OF Cons.prems(2) [unfolded n]]
  have "k = k'"
  proof (rule ccontr)
    assume ne: "k \<noteq> k'"
    with \<open>map_of n k = Some v\<close> n have "cmp_text k' k = Less" using hn(2) by auto
    moreover have "map_of m k' = Some v'"
      using Cons.prems(3) ne unfolding a n by (metis fun_upd_other fun_upd_same map_of.simps(2) fst_conv snd_conv)
    then have "cmp_text k k' = Less" by (rule hm(2))
    ultimately show False using cmp_text_flip [of k k'] by simp
  qed
  moreover have "map_of m = map_of n'"
  proof
    fix x
    show "map_of m x = map_of n' x"
      using fun_cong [OF Cons.prems(3), of x] hm(1) hn(1) \<open>k = k'\<close> unfolding a n by (cases "x = k") auto
  qed
  moreover have "btree m" "btree n'" using Cons.prems n by (simp_all add: btree_def)
  ultimately have "m = n'" by (intro Cons.IH)
  moreover have "v = v'" using \<open>map_of n k = Some v\<close> n \<open>k = k'\<close> by simp
  ultimately show ?case unfolding a n \<open>k = k'\<close> by simp
qed

section \<open>Values\<close>

datatype evalue =
    VNull
  | VBool bool
  | VNumber ustring
  | VText ustring
  | VBytes bytes
  | VList "evalue list"
  | VObject "(ustring \<times> evalue) list"

datatype value_error =
    ValueMissing
  | ValueNotScalar string
  | ValueInvalidUtf8
  | ValueNotList string
  | ValueNotObject string

fun from_json :: "json \<Rightarrow> evalue" where
  "from_json JNull = VNull"
| "from_json (JBool b) = VBool b"
| "from_json (JNumber n) = VNumber n"
| "from_json (JString s) = VText s"
| "from_json (JArray xs) = VList (map from_json xs)"
| "from_json (JObject ms) = VObject (map (\<lambda>(k, x). (k, from_json x)) ms)"

fun type_name :: "evalue \<Rightarrow> string" where
  "type_name VNull = ''null''"
| "type_name (VBool _) = ''boolean''"
| "type_name (VNumber _) = ''number''"
| "type_name (VText _) = ''text''"
| "type_name (VBytes _) = ''bytes''"
| "type_name (VList _) = ''list''"
| "type_name (VObject _) = ''object''"

definition bool_text :: "bool \<Rightarrow> ustring" where
  "bool_text b = (if b then lit ''true'' else lit ''false'')"

text \<open>Members are converted in order, and the first one that fails ends the conversion.\<close>

fun to_json :: "evalue \<Rightarrow> (json, value_error) result" where
  "to_json VNull = Ok JNull"
| "to_json (VBool b) = Ok (JBool b)"
| "to_json (VNumber n) = Ok (JNumber n)"
| "to_json (VText s) = Ok (JString s)"
| "to_json (VBytes bs) = map_ok JString (ok_or ValueInvalidUtf8 (from_utf8 bs))"
| "to_json (VList xs) = map_ok JArray (collect_map to_json xs)"
| "to_json (VObject ms) =
     map_ok (\<lambda>js. JObject (foldl (\<lambda>m (k, j). btree_insert k j m) [] js))
       (collect_map (\<lambda>kx. map_ok (\<lambda>j. (fst kx, j)) (to_json (snd kx))) ms)"

fun is_null :: "evalue \<Rightarrow> bool" where
  "is_null VNull = True"
| "is_null _ = False"

fun is_bytes :: "evalue \<Rightarrow> bool" where
  "is_bytes (VBytes _) = True"
| "is_bytes _ = False"

fun into_bytes :: "evalue \<Rightarrow> (bytes, value_error) result" where
  "into_bytes VNull = Err ValueMissing"
| "into_bytes (VBool b) = Ok (utf8 (bool_text b))"
| "into_bytes (VNumber n) = Ok (utf8 n)"
| "into_bytes (VText s) = Ok (utf8 s)"
| "into_bytes (VBytes bs) = Ok bs"
| "into_bytes (VList xs) = Err (ValueNotScalar (type_name (VList xs)))"
| "into_bytes (VObject ms) = Err (ValueNotScalar (type_name (VObject ms)))"

fun into_text :: "evalue \<Rightarrow> (ustring, value_error) result" where
  "into_text VNull = Err ValueMissing"
| "into_text (VBool b) = Ok (bool_text b)"
| "into_text (VNumber n) = Ok n"
| "into_text (VText s) = Ok s"
| "into_text (VBytes bs) = ok_or ValueInvalidUtf8 (from_utf8 bs)"
| "into_text (VList xs) = Err (ValueNotScalar (type_name (VList xs)))"
| "into_text (VObject ms) = Err (ValueNotScalar (type_name (VObject ms)))"

fun into_list :: "evalue \<Rightarrow> (evalue list, value_error) result" where
  "into_list (VList xs) = Ok xs"
| "into_list other = Err (ValueNotList (type_name other))"

fun into_object :: "evalue \<Rightarrow> ((ustring \<times> evalue) list, value_error) result" where
  "into_object (VObject ms) = Ok ms"
| "into_object other = Err (ValueNotObject (type_name other))"

fun scalar_bytes :: "evalue \<Rightarrow> (bytes, value_error) result" where
  "scalar_bytes VNull = Err ValueMissing"
| "scalar_bytes (VBool b) = Ok (utf8 (bool_text b))"
| "scalar_bytes (VNumber n) = Ok (utf8 n)"
| "scalar_bytes (VText s) = Ok (utf8 s)"
| "scalar_bytes (VBytes bs) = Ok bs"
| "scalar_bytes (VList xs) = Err (ValueNotScalar (type_name (VList xs)))"
| "scalar_bytes (VObject ms) = Err (ValueNotScalar (type_name (VObject ms)))"

fun member :: "evalue \<Rightarrow> ustring \<Rightarrow> evalue option" where
  "member (VObject ms) key =
     Some (case find (\<lambda>m. fst m = key) ms of None \<Rightarrow> VNull | Some (_, v) \<Rightarrow> v)"
| "member VNull key = Some VNull"
| "member _ key = None"

fun element :: "evalue \<Rightarrow> nat \<Rightarrow> evalue option" where
  "element (VList xs) i = Some (if i < length xs then xs ! i else VNull)"
| "element VNull i = Some VNull"
| "element _ i = None"

section \<open>Well-formed values\<close>

text \<open>Texts, keys and numbers are valid strings: what the type \<open>String\<close> guarantees.\<close>

fun wf_value :: "evalue \<Rightarrow> bool" where
  "wf_value VNull = True"
| "wf_value (VBool b) = True"
| "wf_value (VNumber n) = valid_text n"
| "wf_value (VText s) = valid_text s"
| "wf_value (VBytes bs) = True"
| "wf_value (VList xs) = list_all wf_value xs"
| "wf_value (VObject ms) = list_all (\<lambda>kx. valid_text (fst kx) \<and> wf_value (snd kx)) ms"

fun wf_json :: "json \<Rightarrow> bool" where
  "wf_json JNull = True"
| "wf_json (JBool b) = True"
| "wf_json (JNumber n) = valid_text n"
| "wf_json (JString s) = valid_text s"
| "wf_json (JArray xs) = list_all wf_json xs"
| "wf_json (JObject ms) \<longleftrightarrow> btree ms \<and> list_all (\<lambda>kx. wf_json (snd kx)) ms"

lemma valid_bool_text [simp]: "valid_text (bool_text b)"
  by (simp add: bool_text_def)

lemma wf_from_json: "wf_json j \<Longrightarrow> wf_value (from_json j)"
  by (induction j rule: wf_json.induct) (auto simp: list_all_iff btree_def split: prod.splits)

lemma into_bytes_Err:
  "into_bytes v = Err e \<Longrightarrow> e \<in> {ValueMissing, ValueNotScalar ''list'', ValueNotScalar ''object''}"
  by (cases v) auto

lemma wf_into_bytes: "wf_value v \<Longrightarrow> \<not> is_bytes v \<Longrightarrow> into_bytes v = Ok bs \<Longrightarrow> \<exists>s. valid_text s \<and> bs = utf8 s"
  by (cases v) (auto, metis valid_bool_text)

lemma wf_into_text: "wf_value v \<Longrightarrow> into_text v = Ok s \<Longrightarrow> valid_text s"
  by (cases v) (auto simp: result_simps dest: from_utf8_Some)

lemma into_text_bytes: "into_text v = Ok s \<Longrightarrow> into_bytes v = Ok (utf8 s)"
  by (cases v) (auto simp: result_simps dest: from_utf8_Some)

lemma scalar_bytes_into_bytes: "scalar_bytes v = into_bytes v"
  by (cases v) simp_all

lemma find_in_set: "find P xs = Some x \<Longrightarrow> x \<in> set xs \<and> P x"
  by (induction xs) (auto split: if_splits)

lemma wf_member: "wf_value v \<Longrightarrow> member v k = Some w \<Longrightarrow> wf_value w"
  by (cases v) (auto simp: list_all_iff split: option.splits dest!: find_in_set)

lemma wf_element: "wf_value v \<Longrightarrow> element v i = Some w \<Longrightarrow> wf_value w"
  by (cases v) (auto simp: list_all_iff)

section \<open>Conversion to JSON and back\<close>

lemma map_of_foldl_insert:
  "map_of (foldl (\<lambda>m (k, j). btree_insert k j m) m js) = map_of m ++ map_of (rev js)"
proof (induction js arbitrary: m)
  case (Cons x js)
  then show ?case by (cases x) (simp add: map_of_btree_insert map_add_def fun_eq_iff split: option.split)
qed simp

lemma btree_foldl_insert:
  "btree m \<Longrightarrow> list_all (\<lambda>kj. valid_text (fst kj)) js \<Longrightarrow>
   btree (foldl (\<lambda>m (k, j). btree_insert k j m) m js)"
  by (induction js arbitrary: m) (auto simp: btree_btree_insert)

text \<open>Members in another order make the same JSON object.\<close>

lemma foldl_insert_permute:
  assumes "mset js = mset js'" and "distinct (map fst js)"
    and "list_all (\<lambda>kj. valid_text (fst kj)) js"
  shows "foldl (\<lambda>m (k, j). btree_insert k j m) [] js =
         foldl (\<lambda>m (k, j). btree_insert k j m) [] (js' :: (ustring \<times> 'v) list)"
proof (rule btree_unique)
  have e: "btree ([] :: (ustring \<times> 'v) list)" by (simp add: btree_def)
  have s: "set js = set js'" using assms(1) by (metis set_mset_mset)
  have d: "distinct (map fst js')"
    using assms(1,2) by (metis mset_eq_imp_distinct_iff mset_map)
  show "btree (foldl (\<lambda>m (k, j). btree_insert k j m) [] js)"
    using btree_foldl_insert [OF e assms(3)] .
  show "btree (foldl (\<lambda>m (k, j). btree_insert k j m) [] js')"
    using btree_foldl_insert [OF e, of js'] assms(3) s by (simp add: list_all_iff)
  have "map_of (rev js) = map_of (rev js')"
    using assms(2) d s by (intro map_of_inject_set [THEN iffD2]) (simp_all add: rev_map [symmetric])
  then show "map_of (foldl (\<lambda>m (k, j). btree_insert k j m) [] js) =
             map_of (foldl (\<lambda>m (k, j). btree_insert k j m) [] js')"
    by (simp add: map_of_foldl_insert)
qed

end
