(* ===== verification/Crates.thy ===== *)
theory Crates
  imports SigValue
begin

text \<open>
  The third-party crates the signature engine calls, as a record of functions that every
  definition using them takes as an argument: \<open>url\<close>, \<open>form_urlencoded\<close>, \<open>percent_encoding\<close>,
  \<open>hex\<close>, \<open>base64\<close>, \<open>sha1\<close>/\<open>sha2\<close>, \<open>serde_json\<close>, \<open>multer\<close>, and the Unicode case mapping of the
  standard library. The predicates below it state the documented behaviour that some
  properties rely on; \<open>demo_crates\<close> satisfies them, for use in witnesses.
\<close>

type_synonym pairs = "(ustring \<times> ustring) list"

datatype base64_engine = STANDARD | STANDARD_NO_PAD | URL_SAFE | URL_SAFE_NO_PAD

datatype hash = HashSha1 | HashSha256 | HashSha384 | HashSha512

text \<open>What reading a multipart body yields in turn: a field whose bytes may fail, or an error.\<close>

datatype multipart_event =
    Field "ustring option" "ustring option" "ustring option" "bytes option"
  | FieldError

record 'u crates =
  cr_url_parse :: "ustring \<Rightarrow> 'u option"
  cr_url_text :: "'u \<Rightarrow> ustring"
  cr_url_scheme :: "'u \<Rightarrow> ustring"
  cr_url_host :: "'u \<Rightarrow> ustring option"
  cr_url_port :: "'u \<Rightarrow> nat option"
  cr_url_port_or_default :: "'u \<Rightarrow> nat option"
  cr_url_path :: "'u \<Rightarrow> ustring"
  cr_url_query :: "'u \<Rightarrow> ustring option"
  cr_url_query_pairs :: "'u \<Rightarrow> pairs"
  cr_url_no_query :: "'u \<Rightarrow> 'u"
  cr_url_with_pairs :: "pairs \<Rightarrow> 'u \<Rightarrow> 'u"
  cr_url_no_fragment :: "'u \<Rightarrow> 'u"
  cr_form_parse :: "bytes \<Rightarrow> pairs"
  cr_form_byte_serialize :: "bytes \<Rightarrow> ustring"
  cr_form_serialize :: "pairs \<Rightarrow> ustring"
  cr_percent_decode :: "ustring \<Rightarrow> bytes"
  cr_percent_encode :: "(nat \<Rightarrow> bool) \<Rightarrow> ustring \<Rightarrow> ustring"
  cr_hex_encode :: "bytes \<Rightarrow> ustring"
  cr_hex_decode :: "ustring \<Rightarrow> bytes option"
  cr_base64_encode :: "base64_engine \<Rightarrow> bytes \<Rightarrow> ustring"
  cr_base64_decode :: "base64_engine \<Rightarrow> ustring \<Rightarrow> bytes option"
  cr_digest :: "hash \<Rightarrow> bytes \<Rightarrow> bytes"
  cr_json_parse :: "bytes \<Rightarrow> json option"
  cr_json_text :: "json \<Rightarrow> ustring option"
  cr_json_vec :: "json \<Rightarrow> bytes option"
  cr_lowercase :: "ustring \<Rightarrow> ustring"
  cr_uppercase :: "ustring \<Rightarrow> ustring"
  cr_multipart_boundary :: "ustring \<Rightarrow> ustring option"
  cr_multipart_fields :: "ustring \<Rightarrow> bytes \<Rightarrow> multipart_event list"

text \<open>
  The key crates (\<open>hmac\<close>, \<open>ed25519_dalek\<close>, \<open>p256\<close>, \<open>rsa\<close>): key and signature decoders, the DER
  encoder, and the verifiers. One type variable stands for the three key types; a decoded
  signature is kept as bytes.
\<close>

datatype 'k public_key = Ed25519Key 'k | EcdsaP256Key 'k | RsaKey 'k

record 'k key_crates =
  kc_hmac :: "hash \<Rightarrow> bytes \<Rightarrow> bytes \<Rightarrow> bytes option"
  kc_ed25519_pem :: "ustring \<Rightarrow> 'k option"
  kc_ed25519_bytes :: "bytes \<Rightarrow> 'k option"
  kc_ed25519_signature :: "bytes \<Rightarrow> bytes option"
  kc_ed25519_verify :: "'k \<Rightarrow> bytes \<Rightarrow> bytes \<Rightarrow> bool"
  kc_p256_pem :: "ustring \<Rightarrow> 'k option"
  kc_p256_sec1 :: "bytes \<Rightarrow> 'k option"
  kc_p256_signature_der :: "bytes \<Rightarrow> bytes option"
  kc_p256_signature_raw :: "bytes \<Rightarrow> bytes option"
  kc_p256_verify :: "'k \<Rightarrow> bytes \<Rightarrow> bytes \<Rightarrow> bool"
  kc_rsa_pkcs1_pem :: "ustring \<Rightarrow> 'k option"
  kc_rsa_pem :: "ustring \<Rightarrow> 'k option"
  kc_rsa_der :: "bytes \<Rightarrow> 'k option"
  kc_rsa_pkcs1_der :: "bytes \<Rightarrow> 'k option"
  kc_rsa_size :: "'k \<Rightarrow> nat"
  kc_rsa_signature :: "bytes \<Rightarrow> bytes option"
  kc_rsa_verify :: "hash \<Rightarrow> 'k \<Rightarrow> bytes \<Rightarrow> bytes \<Rightarrow> bool"
  kc_spki_der :: "'k public_key \<Rightarrow> bytes option"

section \<open>Documented behaviour\<close>

definition valid_pairs :: "pairs \<Rightarrow> bool" where
  "valid_pairs ps \<longleftrightarrow> list_all (\<lambda>kv. valid_text (fst kv) \<and> valid_text (snd kv)) ps"

text \<open>The crates return values of type \<open>String\<close>, which are valid text.\<close>

definition crates_return_text :: "'u crates \<Rightarrow> bool" where
  "crates_return_text cr \<longleftrightarrow>
     (\<forall>u. valid_text (cr_url_text cr u)) \<and> (\<forall>u. valid_text (cr_url_scheme cr u)) \<and>
     (\<forall>u h. cr_url_host cr u = Some h \<longrightarrow> valid_text h) \<and>
     (\<forall>u. valid_text (cr_url_path cr u)) \<and>
     (\<forall>u q. cr_url_query cr u = Some q \<longrightarrow> valid_text q) \<and>
     (\<forall>u. valid_pairs (cr_url_query_pairs cr u)) \<and>
     (\<forall>b. valid_pairs (cr_form_parse cr b)) \<and>
     (\<forall>b. valid_text (cr_form_byte_serialize cr b)) \<and> (\<forall>ps. valid_text (cr_form_serialize cr ps)) \<and>
     (\<forall>P s. valid_text (cr_percent_encode cr P s)) \<and> (\<forall>b. valid_text (cr_hex_encode cr b)) \<and>
     (\<forall>e b. valid_text (cr_base64_encode cr e b)) \<and>
     (\<forall>b j. cr_json_parse cr b = Some j \<longrightarrow> wf_json j) \<and>
     (\<forall>j t. cr_json_text cr j = Some t \<longrightarrow> valid_text t) \<and>
     (\<forall>s. valid_text (cr_lowercase cr s)) \<and> (\<forall>s. valid_text (cr_uppercase cr s))"

text \<open>Decoding undoes encoding; encoders write no surrounding whitespace.\<close>

definition codecs_round_trip :: "'u crates \<Rightarrow> bool" where
  "codecs_round_trip cr \<longleftrightarrow>
     (\<forall>b. cr_hex_decode cr (cr_hex_encode cr b) = Some b \<and> trim (cr_hex_encode cr b) = cr_hex_encode cr b) \<and>
     (\<forall>e b. cr_base64_decode cr e (cr_base64_encode cr e b) = Some b \<and>
        trim (cr_base64_encode cr e b) = cr_base64_encode cr e b)"

text \<open>Serializing a document never fails and parsing gives it back; a URL keeps the pairs it is given.\<close>

definition json_round_trip_on :: "'u crates \<Rightarrow> json \<Rightarrow> bool" where
  "json_round_trip_on cr j \<longleftrightarrow> (\<exists>b. cr_json_vec cr j = Some b \<and> cr_json_parse cr b = Some j)"

definition url_keeps_pairs :: "'u crates \<Rightarrow> bool" where
  "url_keeps_pairs cr \<longleftrightarrow> (\<forall>ps u. valid_pairs ps \<longrightarrow> cr_url_query_pairs cr (cr_url_with_pairs cr ps u) = ps)"

section \<open>A concrete instance\<close>

text \<open>
  Every crate is replaced by a small function: a URL is its text with its query pairs, encoders
  write one character above \<open>255\<close> per byte, and one JSON document, \<open>{"access_token":"s"}\<close>, can be
  read and written, before and after its redaction.
\<close>

definition demo_encode :: "bytes \<Rightarrow> ustring" where
  "demo_encode b = map (\<lambda>w. 0x100 + unat w) b"

definition demo_decode :: "ustring \<Rightarrow> bytes option" where
  "demo_decode s =
     (if list_all (\<lambda>c. 0x100 \<le> c \<and> c < 0x200) s then Some (map (\<lambda>c. byte_of (c - 0x100)) s) else None)"

definition demo_document :: "ustring \<Rightarrow> json" where
  "demo_document v = JObject [(lit ''access_token'', JString v)]"

definition demo_json_vec :: "json \<Rightarrow> bytes option" where
  "demo_json_vec j =
     (case j of
        JObject [(k, JString v)] \<Rightarrow> Some (utf8 ([123, 34] @ k @ [34, 58, 34] @ v @ [34, 125]))
      | _ \<Rightarrow> None)"

definition demo_json_parse :: "bytes \<Rightarrow> json option" where
  "demo_json_parse b =
     (if demo_json_vec (demo_document [115]) = Some b then Some (demo_document [115])
      else if demo_json_vec (demo_document (lit ''[REDACTED]'')) = Some b
      then Some (demo_document (lit ''[REDACTED]''))
      else None)"

definition demo_crates :: "(ustring \<times> pairs) crates" where
  "demo_crates =
     \<lparr>cr_url_parse = (\<lambda>s. Some (filter scalar s, [])),
      cr_url_text = (\<lambda>u. filter scalar (fst u)),
      cr_url_scheme = (\<lambda>_. lit ''https''),
      cr_url_host = (\<lambda>_. Some (lit ''hook'')),
      cr_url_port = (\<lambda>_. None),
      cr_url_port_or_default = (\<lambda>_. Some 443),
      cr_url_path = (\<lambda>_. lit ''/''),
      cr_url_query = (\<lambda>_. None),
      cr_url_query_pairs = (\<lambda>u. filter (\<lambda>kv. valid_text (fst kv) \<and> valid_text (snd kv)) (snd u)),
      cr_url_no_query = (\<lambda>u. (fst u, [])),
      cr_url_with_pairs = (\<lambda>ps u. (fst u, ps)),
      cr_url_no_fragment = (\<lambda>u. u),
      cr_form_parse = (\<lambda>_. []),
      cr_form_byte_serialize = demo_encode,
      cr_form_serialize = (\<lambda>_. []),
      cr_percent_decode = (\<lambda>s. utf8 s),
      cr_percent_encode = (\<lambda>_ s. filter scalar s),
      cr_hex_encode = demo_encode,
      cr_hex_decode = demo_decode,
      cr_base64_encode = (\<lambda>_. demo_encode),
      cr_base64_decode = (\<lambda>_. demo_decode),
      cr_digest = (\<lambda>_ b. b),
      cr_json_parse = demo_json_parse,
      cr_json_text = (\<lambda>_. Some []),
      cr_json_vec = demo_json_vec,
      cr_lowercase = (\<lambda>s. filter scalar s),
      cr_uppercase = (\<lambda>s. filter scalar s),
      cr_multipart_boundary = (\<lambda>s. Some s),
      cr_multipart_fields = (\<lambda>_ _. [])\<rparr>"

lemma trim_no_whitespace:
  assumes "\<forall>c \<in> set s. \<not> is_whitespace c"
  shows "trim s = s"
proof -
  have d: "dropWhile is_whitespace t = t" if "\<forall>c \<in> set t. \<not> is_whitespace c" for t
    using that by (cases t) auto
  from assms d [of s] d [of "rev s"] show ?thesis
    by (simp add: trim_def trim_start_def trim_end_def)
qed

lemma demo_codec: "demo_decode (demo_encode b) = Some b" "trim (demo_encode b) = demo_encode b"
proof -
  have w: "unat w < 256" for w :: byte using unsigned_less [of w] by simp
  then have "list_all (\<lambda>c. 0x100 \<le> c \<and> c < 0x200) (demo_encode b)"
    by (simp add: demo_encode_def list_all_iff)
  then show "demo_decode (demo_encode b) = Some b"
    by (simp add: demo_decode_def) (simp add: demo_encode_def byte_of_def comp_def)
  have "\<forall>c \<in> set (demo_encode b). \<not> is_whitespace c"
  proof
    fix c
    assume "c \<in> set (demo_encode b)"
    then obtain w :: byte where "c = 0x100 + unat w" by (auto simp: demo_encode_def)
    with w [of w] show "\<not> is_whitespace c" by (simp add: is_whitespace_def)
  qed
  then show "trim (demo_encode b) = demo_encode b" by (rule trim_no_whitespace)
qed

lemma demo_codecs: "codecs_round_trip demo_crates"
  by (simp add: codecs_round_trip_def demo_crates_def demo_codec)

lemma demo_url_keeps_pairs: "url_keeps_pairs demo_crates"
  by (auto simp: url_keeps_pairs_def demo_crates_def valid_pairs_def list_all_iff)

lemma valid_demo_encode: "valid_text (demo_encode b)"
proof -
  have "unat w < 256" for w :: byte using unsigned_less [of w] by simp
  then have "0x100 + unat w < 0xD800" for w :: byte
    by (rule less_trans [OF add_strict_left_mono]) simp
  then have "scalar (0x100 + unat w)" for w :: byte
    by (simp add: scalar_def)
  then show ?thesis by (auto simp: valid_text_def demo_encode_def)
qed

lemma demo_returns_text: "crates_return_text demo_crates"
proof -
  have f: "valid_text (filter scalar s)" for s by (auto simp: valid_text_def)
  have s: "valid_text [115]" by (simp add: valid_text_def scalar_def)
  have "wf_json (demo_document v)" if "valid_text v" for v
    using that by (simp add: demo_document_def btree_def)
  then have "demo_json_parse b = Some j \<Longrightarrow> wf_json j" for b j
    using s by (auto simp: demo_json_parse_def split: if_splits)
  with f show ?thesis
    by (simp add: crates_return_text_def demo_crates_def valid_pairs_def list_all_iff valid_demo_encode)
qed

text \<open>A key is its bytes; a signature is the key, the payload and a hash code, in a row.\<close>

definition demo_hash_code :: "hash \<Rightarrow> byte" where
  "demo_hash_code h =
     (case h of HashSha1 \<Rightarrow> 1 | HashSha256 \<Rightarrow> 2 | HashSha384 \<Rightarrow> 3 | HashSha512 \<Rightarrow> 4)"

definition demo_key_crates :: "bytes key_crates" where
  "demo_key_crates =
     \<lparr>kc_hmac = (\<lambda>h k b. Some (demo_hash_code h # k @ b)),
      kc_ed25519_pem = (\<lambda>s. Some (utf8 s)), kc_ed25519_bytes = Some,
      kc_ed25519_signature = Some, kc_ed25519_verify = (\<lambda>k b s. s = k @ b),
      kc_p256_pem = (\<lambda>s. Some (utf8 s)), kc_p256_sec1 = Some,
      kc_p256_signature_der = (\<lambda>_. None), kc_p256_signature_raw = Some,
      kc_p256_verify = (\<lambda>k b s. s = k @ b),
      kc_rsa_pkcs1_pem = (\<lambda>s. Some (utf8 s)), kc_rsa_pem = (\<lambda>s. Some (utf8 s)),
      kc_rsa_der = Some, kc_rsa_pkcs1_der = Some, kc_rsa_size = (\<lambda>_. 256),
      kc_rsa_signature = Some, kc_rsa_verify = (\<lambda>h k b s. s = demo_hash_code h # k @ b),
      kc_spki_der = (\<lambda>k. case k of Ed25519Key b \<Rightarrow> Some b | EcdsaP256Key b \<Rightarrow> Some b | RsaKey b \<Rightarrow> Some b)\<rparr>"

end
