(* ===== verification/Request.thy ===== *)
theory Request
  imports Crates
begin

text \<open>
  The captured provider request (\<open>domain/request.rs\<close>): bounds checked on capture, header
  normalization, the derived views that signature expressions read, multipart parsing, and the
  redaction of credentials. The caches of parsed views (\<open>OnceLock\<close>) are optional fields: an
  accessor returns what is cached, else what it would compute.
\<close>

section \<open>Bounds and errors\<close>

definition max_body_bytes :: nat where
  "max_body_bytes = 1024 * 1024"

definition max_header_count :: nat where
  "max_header_count = 128"

definition max_header_bytes :: nat where
  "max_header_bytes = 64 * 1024"

definition max_multipart_parts :: nat where
  "max_multipart_parts = 64"

datatype capture_error = BodyTooLarge | TooManyHeaders | HeadersTooLarge | InvalidMethod

datatype multipart_error = NotMultipart | Malformed | TooManyParts

datatype ip_addr = V4 nat | V6 nat

text \<open>An \<open>OffsetDateTime\<close> is the instant it denotes, in nanoseconds.\<close>

type_synonym instant = int

record multipart_part =
  part_name :: ustring
  part_filename :: "ustring option"
  part_content_type :: "ustring option"
  part_data :: bytes

record 'u request_parts =
  rp_method :: ustring
  rp_url :: 'u
  rp_headers :: pairs
  rp_body :: bytes
  rp_remote_ip :: ip_addr
  rp_received_at :: instant

record 'u captured =
  cap_method :: ustring
  cap_url :: 'u
  cap_headers :: pairs
  cap_body :: bytes
  cap_remote_ip :: ip_addr
  cap_received_at :: instant
  cap_multipart :: "multipart_part list option"
  cap_json :: "json option option"
  cap_form :: "pairs option option"

section \<open>Capture\<close>

definition is_token_byte :: "byte \<Rightarrow> bool" where
  "is_token_byte b \<longleftrightarrow>
     is_ascii_alphanumeric (unat b) \<or>
     unat b \<in> set [33, 35, 36, 37, 38, 39, 42, 43, 45, 46, 94, 95, 96, 124, 126]"

definition header_bytes :: "pairs \<Rightarrow> nat" where
  "header_bytes hs =
     foldl saturating_add 0 (map (\<lambda>(name, v). saturating_add (str_len name) (str_len v)) hs)"

definition captured_new :: "'u request_parts \<Rightarrow> ('u captured, capture_error) result" where
  "captured_new parts =
     (if rp_method parts = [] \<or> \<not> list_all is_token_byte (utf8 (rp_method parts)) then Err InvalidMethod
      else if max_body_bytes < length (rp_body parts) then Err BodyTooLarge
      else if max_header_count < length (rp_headers parts) then Err TooManyHeaders
      else if max_header_bytes < header_bytes (rp_headers parts) then Err HeadersTooLarge
      else Ok \<lparr>cap_method = to_ascii_uppercase (rp_method parts),
               cap_url = rp_url parts,
               cap_headers = map (\<lambda>(name, v). (to_ascii_lowercase name, v)) (rp_headers parts),
               cap_body = rp_body parts,
               cap_remote_ip = rp_remote_ip parts,
               cap_received_at = rp_received_at parts,
               cap_multipart = None, cap_json = None, cap_form = None\<rparr>)"

section \<open>Views\<close>

definition authority :: "'u crates \<Rightarrow> 'u captured \<Rightarrow> ustring" where
  "authority cr r =
     (let host = (case cr_url_host cr (cap_url r) of None \<Rightarrow> [] | Some h \<Rightarrow> h) in
      case cr_url_port cr (cap_url r) of
        Some port \<Rightarrow> host @ lit '':'' @ show_nat port
      | None \<Rightarrow> host)"

definition hostname :: "'u crates \<Rightarrow> 'u captured \<Rightarrow> ustring" where
  "hostname cr r = (case cr_url_host cr (cap_url r) of None \<Rightarrow> [] | Some h \<Rightarrow> h)"

definition request_port :: "'u crates \<Rightarrow> 'u captured \<Rightarrow> nat option" where
  "request_port cr r = cr_url_port_or_default cr (cap_url r)"

definition query_string :: "'u crates \<Rightarrow> 'u captured \<Rightarrow> ustring" where
  "query_string cr r = (case cr_url_query cr (cap_url r) of None \<Rightarrow> [] | Some q \<Rightarrow> q)"

definition query_pairs :: "'u crates \<Rightarrow> 'u captured \<Rightarrow> pairs" where
  "query_pairs cr r = cr_url_query_pairs cr (cap_url r)"

definition header :: "'u captured \<Rightarrow> ustring \<Rightarrow> ustring option" where
  "header r name =
     (let name = to_ascii_lowercase name;
          values = map snd (filter (\<lambda>h. fst h = name) (cap_headers r)) in
      if values = [] then None else Some (join_with (lit '', '') values))"

definition cookies :: "'u captured \<Rightarrow> pairs" where
  "cookies r =
     List.map_filter (\<lambda>pair. map_option (\<lambda>(name, v). (trim name, trim v)) (split_once 61 pair))
       (concat (map (\<lambda>h. split_on (\<lambda>c. c = 59) (snd h))
         (filter (\<lambda>h. fst h = lit ''cookie'') (cap_headers r))))"

definition content_type :: "'u captured \<Rightarrow> ustring option" where
  "content_type r =
     Option.bind (header r (lit ''content-type''))
       (\<lambda>v. case split_on (\<lambda>c. c = 59) v of
          [] \<Rightarrow> None
        | w # _ \<Rightarrow> Some (to_ascii_lowercase (trim w)))"

definition body_text :: "'u captured \<Rightarrow> ustring option" where
  "body_text r = from_utf8 (cap_body r)"

definition parsed_json :: "'u crates \<Rightarrow> 'u captured \<Rightarrow> json option" where
  "parsed_json cr r = cr_json_parse cr (cap_body r)"

definition body_json :: "'u crates \<Rightarrow> 'u captured \<Rightarrow> json option" where
  "body_json cr r = (case cap_json r of Some j \<Rightarrow> j | None \<Rightarrow> parsed_json cr r)"

definition parsed_form :: "'u crates \<Rightarrow> 'u captured \<Rightarrow> pairs option" where
  "parsed_form cr r =
     (if content_type r \<noteq> Some (lit ''application/x-www-form-urlencoded'') then None
      else Some (cr_form_parse cr (cap_body r)))"

definition form :: "'u crates \<Rightarrow> 'u captured \<Rightarrow> pairs option" where
  "form cr r = (case cap_form r of Some f \<Rightarrow> f | None \<Rightarrow> parsed_form cr r)"

text \<open>The caches agree with the request when every filled one holds what would be computed.\<close>

definition json_cache_ok :: "'u crates \<Rightarrow> 'u captured \<Rightarrow> bool" where
  "json_cache_ok cr r \<longleftrightarrow> (\<forall>j. cap_json r = Some j \<longrightarrow> j = parsed_json cr r)"

definition form_cache_ok :: "'u crates \<Rightarrow> 'u captured \<Rightarrow> bool" where
  "form_cache_ok cr r \<longleftrightarrow> (\<forall>f. cap_form r = Some f \<longrightarrow> f = parsed_form cr r)"

section \<open>Multipart bodies\<close>

fun collect_parts :: "multipart_event list \<Rightarrow> multipart_part list \<Rightarrow> (multipart_part list, multipart_error) result" where
  "collect_parts [] parts = Ok parts"
| "collect_parts (FieldError # es) parts = Err Malformed"
| "collect_parts (Field name filename ctype data # es) parts =
     (if max_multipart_parts \<le> length parts then Err TooManyParts
      else
        (case data of
           None \<Rightarrow> Err Malformed
         | Some bs \<Rightarrow>
             collect_parts es
               (parts @ [\<lparr>part_name = (case name of None \<Rightarrow> [] | Some n \<Rightarrow> n), part_filename = filename,
                          part_content_type = ctype, part_data = bs\<rparr>])))"

definition parse_multipart :: "'u crates \<Rightarrow> 'u captured \<Rightarrow> (nat \<times> 'u captured, multipart_error) result" where
  "parse_multipart cr r =
     (case Option.bind (header r (lit ''content-type'')) (cr_multipart_boundary cr) of
        None \<Rightarrow> Err NotMultipart
      | Some boundary \<Rightarrow>
          map_ok (\<lambda>parts. (length parts, r\<lparr>cap_multipart := Some parts\<rparr>))
            (collect_parts (cr_multipart_fields cr boundary (cap_body r)) []))"

section \<open>Redaction\<close>

definition sensitive :: "ustring \<Rightarrow> bool" where
  "sensitive name \<longleftrightarrow>
     to_ascii_lowercase name \<in> set (map lit
       [''authorization'', ''cookie'', ''set-cookie'', ''x-hook-test-key'',
        ''x-hook-test-app-secret'', ''x-testing-environment-key'', ''x-testing-application'',
        ''app_secret'', ''testing_key'', ''iam_test_key'', ''access_token'', ''refresh_token'',
        ''client_secret''])"

definition redacted :: ustring where
  "redacted = lit ''[REDACTED]''"

fun redact :: "json \<Rightarrow> json" where
  "redact (JObject ms) =
     JObject (map (\<lambda>(k, x). (k, if sensitive k then JString redacted else redact x)) ms)"
| "redact (JArray xs) = JArray (map redact xs)"
| "redact other = other"

definition redact_headers :: "'u captured \<Rightarrow> 'u captured" where
  "redact_headers r =
     r\<lparr>cap_headers := map (\<lambda>(name, v). (name, if sensitive name then redacted else v)) (cap_headers r)\<rparr>"

definition redact_body :: "'u crates \<Rightarrow> 'u captured \<Rightarrow> 'u captured" where
  "redact_body cr r =
     (case cr_json_parse cr (cap_body r) of
        None \<Rightarrow> r
      | Some original \<Rightarrow>
          (let j = redact original in
           if j \<noteq> original then
             (case cr_json_vec cr j of
                None \<Rightarrow> r
              | Some bs \<Rightarrow>
                  r\<lparr>cap_body := bs,
                    cap_headers := filter (\<lambda>h. fst h \<noteq> lit ''content-length'') (cap_headers r),
                    cap_json := None\<rparr>)
           else r))"

definition redact_query :: "'u crates \<Rightarrow> 'u captured \<Rightarrow> 'u captured" where
  "redact_query cr r =
     (let query = map (\<lambda>(k, v). (k, if sensitive k then redacted else v)) (query_pairs cr r) in
      if list_ex (\<lambda>kv. sensitive (fst kv)) query
      then r\<lparr>cap_url := cr_url_with_pairs cr query (cap_url r), cap_form := None\<rparr>
      else r)"

definition without_credentials :: "'u crates \<Rightarrow> 'u captured \<Rightarrow> 'u captured" where
  "without_credentials cr r = redact_query cr (redact_body cr (redact_headers r))"

section \<open>Facts about capture and headers\<close>

lemma sum_saturating:
  assumes "n < usize_max" and "sum_list (map (\<lambda>(a, b). saturating_add (f a) (g b)) hs) \<le> n"
  shows "sum_list (map (\<lambda>(a, b). saturating_add (f a) (g b)) hs) =
         sum_list (map (\<lambda>(a, b). f a + g b) hs)"
  using assms(2)
proof (induction hs)
  case (Cons x hs)
  obtain a b where x: "x = (a, b)" by force
  with Cons have "saturating_add (f a) (g b) \<le> n"
    "sum_list (map (\<lambda>(a, b). saturating_add (f a) (g b)) hs) \<le> n" by simp_all
  with Cons.IH x assms(1) show ?case by (simp add: saturating_add_def split: if_splits)
qed simp

lemma sum_saturating_le: "sum_list (map (\<lambda>(a, b). saturating_add (f a) (g b)) hs) \<le>
    sum_list (map (\<lambda>(a, b). f a + g b) hs)"
  by (induction hs) (auto simp: saturating_add_def)

definition header_size :: "pairs \<Rightarrow> nat" where
  "header_size hs = sum_list (map (\<lambda>(name, v). str_len name + str_len v) hs)"

lemma header_bytes_le: "header_bytes hs \<le> max_header_bytes \<longleftrightarrow> header_size hs \<le> max_header_bytes"
proof -
  let ?s = "sum_list (map (\<lambda>(a, b). saturating_add (str_len a) (str_len b)) hs)"
  have m: "max_header_bytes < usize_max" by (simp add: max_header_bytes_def usize_max_def)
  have "header_bytes hs \<le> max_header_bytes \<longleftrightarrow> ?s \<le> max_header_bytes"
    using foldl_saturating_add [OF m, of 0] by (simp add: header_bytes_def)
  also have "\<dots> \<longleftrightarrow> header_size hs \<le> max_header_bytes"
    using sum_saturating [OF m, of str_len str_len hs] sum_saturating_le [of str_len str_len hs]
    by (auto simp: header_size_def)
  finally show ?thesis .
qed

definition method_ok :: "ustring \<Rightarrow> bool" where
  "method_ok m \<longleftrightarrow> m \<noteq> [] \<and> list_all is_token_byte (utf8 m)"

lemma captured_new_Ok:
  "(\<exists>r. captured_new p = Ok r) \<longleftrightarrow>
     method_ok (rp_method p) \<and> length (rp_body p) \<le> max_body_bytes \<and>
     length (rp_headers p) \<le> max_header_count \<and> header_size (rp_headers p) \<le> max_header_bytes"
  by (auto simp: captured_new_def method_ok_def header_bytes_le [symmetric] not_less not_le)

lemma captured_new_fields:
  assumes "captured_new p = Ok r"
  shows "cap_method r = to_ascii_uppercase (rp_method p)" and "cap_url r = rp_url p"
    and "cap_headers r = map (\<lambda>(name, v). (to_ascii_lowercase name, v)) (rp_headers p)"
    and "cap_body r = rp_body p" and "cap_remote_ip r = rp_remote_ip p"
    and "cap_received_at r = rp_received_at p"
    and "cap_json r = None" and "cap_form r = None" and "cap_multipart r = None"
  using assms by (auto simp: captured_new_def split: if_splits)

definition lowercase_headers :: "'u captured \<Rightarrow> bool" where
  "lowercase_headers r \<longleftrightarrow> (\<forall>h \<in> set (cap_headers r). to_ascii_lowercase (fst h) = fst h)"

lemma captured_new_lowercase: "captured_new p = Ok r \<Longrightarrow> lowercase_headers r"
  by (auto simp: lowercase_headers_def captured_new_fields(3))

lemma header_None: "header r n = None \<longleftrightarrow> (\<forall>v. (to_ascii_lowercase n, v) \<notin> set (cap_headers r))"
  by (auto simp: header_def Let_def filter_empty_conv)

section \<open>Facts about redaction\<close>

text \<open>\<open>exposes j\<close>: somewhere in the document a credential field has a value of its own.\<close>

fun exposes :: "json \<Rightarrow> bool" where
  "exposes (JObject ms) =
     list_ex (\<lambda>kx. if sensitive (fst kx) then snd kx \<noteq> JString redacted else exposes (snd kx)) ms"
| "exposes (JArray xs) = list_ex exposes xs"
| "exposes _ = False"

lemma redact_hides: "\<not> exposes (redact j)"
  by (induction j rule: redact.induct) (auto simp: list_ex_iff)

lemma redact_id: "\<not> exposes j \<Longrightarrow> redact j = j"
  by (induction j rule: redact.induct) (force simp: list_ex_iff intro!: map_idI)+

lemma redact_exposed: "exposes j \<Longrightarrow> redact j \<noteq> j"
  using redact_hides by metis

lemma redact_headers_fields [simp]:
  "cap_url (redact_headers r) = cap_url r" "cap_body (redact_headers r) = cap_body r"
  "cap_json (redact_headers r) = cap_json r" "cap_form (redact_headers r) = cap_form r"
  by (simp_all add: redact_headers_def)

lemma redact_body_fields [simp]:
  "cap_url (redact_body cr r) = cap_url r" "cap_form (redact_body cr r) = cap_form r"
  by (auto simp: redact_body_def Let_def split: option.splits)

lemma redact_body_headers: "set (cap_headers (redact_body cr r)) \<subseteq> set (cap_headers r)"
  by (auto simp: redact_body_def Let_def split: option.splits)

lemma redact_query_fields [simp]:
  "cap_headers (redact_query cr r) = cap_headers r" "cap_body (redact_query cr r) = cap_body r"
  by (auto simp: redact_query_def Let_def)

lemma redact_body_hides:
  assumes "\<And>j. cr_json_parse cr (cap_body r) = Some j \<Longrightarrow> json_round_trip_on cr (redact j)"
    and "cr_json_parse cr (cap_body (redact_body cr r)) = Some j"
  shows "\<not> exposes j"
proof (cases "cr_json_parse cr (cap_body r)")
  case None
  with assms(2) show ?thesis by (simp add: redact_body_def)
next
  case (Some i)
  show ?thesis
  proof (cases "redact i = i")
    case True
    with Some assms(2) have "j = i" by (simp add: redact_body_def)
    with True redact_hides [of i] show ?thesis by simp
  next
    case False
    from assms(1) [OF Some] obtain b where b: "cr_json_vec cr (redact i) = Some b"
      "cr_json_parse cr b = Some (redact i)"
      by (auto simp: json_round_trip_on_def)
    with False Some assms(2) have "j = redact i" by (simp add: redact_body_def)
    then show ?thesis by (simp add: redact_hides)
  qed
qed

lemma redact_query_hides:
  assumes "url_keeps_pairs cr" and "valid_pairs (cr_url_query_pairs cr (cap_url r))"
    and "(k, v) \<in> set (query_pairs cr (redact_query cr r))" and "sensitive k"
  shows "v = redacted"
proof -
  let ?q = "map (\<lambda>(k, v). (k, if sensitive k then redacted else v)) (query_pairs cr r)"
  have "valid_text redacted" by (simp add: redacted_def)
  with assms(2) have "valid_pairs ?q" by (auto simp: valid_pairs_def list_all_iff query_pairs_def)
  with assms(1) have keep: "cr_url_query_pairs cr (cr_url_with_pairs cr ?q (cap_url r)) = ?q"
    by (simp add: url_keeps_pairs_def)
  show ?thesis
  proof (cases "list_ex (\<lambda>kv. sensitive (fst kv)) ?q")
    case True
    with assms(3) keep have "(k, v) \<in> set ?q" by (simp add: redact_query_def query_pairs_def)
    with assms(4) show ?thesis by auto
  next
    case False
    with assms(3) have "(k, v) \<in> set (query_pairs cr r)" by (simp add: redact_query_def)
    with False assms(4) show ?thesis by (force simp: list_ex_iff)
  qed
qed

section \<open>Properties\<close>

text \<open>A request is captured exactly when its method is a non-empty HTTP token and its body,
  header count and header size are within the bounds; the saturating additions of the size check
  lose nothing.\<close>

theorem capture_succeeds_iff:
  "(\<exists>r. captured_new p = Ok r) \<longleftrightarrow>
     rp_method p \<noteq> [] \<and> list_all is_token_byte (utf8 (rp_method p)) \<and>
     length (rp_body p) \<le> 1048576 \<and> length (rp_headers p) \<le> 128 \<and>
     sum_list (map (\<lambda>(name, v). str_len name + str_len v) (rp_headers p)) \<le> 65536"
  unfolding captured_new_Ok
  by (simp add: method_ok_def max_body_bytes_def max_header_count_def max_header_bytes_def
      header_size_def)

text \<open>After \<open>without_credentials\<close>, no header, query parameter or JSON member with a credential
  name carries anything but the redaction marker, provided the redacted document can be written
  and read back and the URL keeps the pairs it is given.\<close>

theorem without_credentials_hides:
  assumes "url_keeps_pairs cr" and "crates_return_text cr"
    and "\<And>j. cr_json_parse cr (cap_body r) = Some j \<Longrightarrow> json_round_trip_on cr (redact j)"
  shows "(\<forall>h \<in> set (cap_headers (without_credentials cr r)). sensitive (fst h) \<longrightarrow> snd h = redacted) \<and>
    (\<forall>q \<in> set (query_pairs cr (without_credentials cr r)). sensitive (fst q) \<longrightarrow> snd q = redacted) \<and>
    (\<forall>j. cr_json_parse cr (cap_body (without_credentials cr r)) = Some j \<longrightarrow> \<not> exposes j)"
proof (intro conjI ballI allI impI)
  fix h
  assume "h \<in> set (cap_headers (without_credentials cr r))" and "sensitive (fst h)"
  then show "snd h = redacted"
    using redact_body_headers [of cr "redact_headers r"]
    by (auto simp: without_credentials_def redact_headers_def)
next
  fix q
  assume "q \<in> set (query_pairs cr (without_credentials cr r))" and "sensitive (fst q)"
  moreover have "valid_pairs (cr_url_query_pairs cr (cap_url (redact_body cr (redact_headers r))))"
    using assms(2) by (simp add: crates_return_text_def)
  ultimately show "snd q = redacted"
    using redact_query_hides [OF assms(1), of "redact_body cr (redact_headers r)" "fst q" "snd q"]
    by (simp add: without_credentials_def)
next
  fix j
  assume "cr_json_parse cr (cap_body (without_credentials cr r)) = Some j"
  then show "\<not> exposes j"
    using redact_body_hides [of cr "redact_headers r"] assms(3) by (simp add: without_credentials_def)
qed

definition demo_request :: "bytes \<Rightarrow> (ustring \<times> pairs) captured" where
  "demo_request body =
     \<lparr>cap_method = lit ''POST'', cap_url = (lit ''https://hook/'', [(lit ''access_token'', lit ''q'')]),
      cap_headers = [(lit ''authorization'', lit ''Bearer x'')], cap_body = body,
      cap_remote_ip = V4 1, cap_received_at = 0, cap_multipart = None, cap_json = None,
      cap_form = None\<rparr>"

lemma demo_json_round_trip:
  "cr_json_parse demo_crates b = Some j \<Longrightarrow> json_round_trip_on demo_crates (redact j)"
proof -
  have ne: "demo_json_vec (demo_document [115]) \<noteq> demo_json_vec (demo_document (lit ''[REDACTED]''))"
    by (simp add: demo_json_vec_def demo_document_def utf8_Cons utf8_char_def lit_Cons)
  have sens: "sensitive (lit ''access_token'')"
    by (simp add: sensitive_def to_ascii_lowercase_def lit_def to_ascii_lower_def is_ascii_uppercase_def)
  have "json_round_trip_on demo_crates (demo_document redacted)"
    using ne by (simp add: json_round_trip_on_def demo_crates_def demo_json_parse_def redacted_def)
      (simp add: demo_json_vec_def demo_document_def)
  moreover assume "cr_json_parse demo_crates b = Some j"
  then have "redact j = demo_document redacted"
    by (auto simp: demo_crates_def demo_json_parse_def demo_document_def sens split: if_splits)
  ultimately show ?thesis by simp
qed

lemma without_credentials_hides_witness:
  "let r = demo_request (the (demo_json_vec (demo_document [115]))) in
   (\<forall>h \<in> set (cap_headers (without_credentials demo_crates r)). sensitive (fst h) \<longrightarrow> snd h = redacted) \<and>
   (\<forall>q \<in> set (query_pairs demo_crates (without_credentials demo_crates r)).
      sensitive (fst q) \<longrightarrow> snd q = redacted) \<and>
   (\<forall>j. cr_json_parse demo_crates (cap_body (without_credentials demo_crates r)) = Some j \<longrightarrow> \<not> exposes j)"
  unfolding Let_def
  by (rule without_credentials_hides)
    (simp_all add: demo_url_keeps_pairs demo_returns_text demo_json_round_trip)

end
