(* ===== verification/Eval.thy ===== *)
theory Eval
  imports Grammar Request
begin

text \<open>
  Evaluation of signature expressions against a captured request
  (\<open>domain/signature/eval.rs\<close>): block lookup, indexing, and the built-in functions. Hashes,
  encodings, URLs and JSON text come from the crates record. Errors are values, and the first
  argument that fails ends the evaluation of a call.
\<close>

section \<open>Context and errors\<close>

record 'u eval_context =
  ctx_request :: "'u captured"
  ctx_hook_id :: ustring
  ctx_hook_url :: ustring
  ctx_secret :: "bytes option"
  ctx_public_key :: "bytes option"

datatype eval_error =
    MissingValue ustring
  | UnsupportedBlock ustring
  | NotIndexable ustring
  | BodyNotJson
  | BodyNotForm
  | BodyNotMultipart
  | BodyNotText
  | TypeError string string string
  | MissingArgument string
  | InvalidUtf8 string
  | InvalidEncoding string

fun from_value :: "string \<Rightarrow> string \<Rightarrow> value_error \<Rightarrow> eval_error" where
  "from_value function expected ValueMissing = MissingArgument function"
| "from_value function expected ValueInvalidUtf8 = InvalidUtf8 function"
| "from_value function expected (ValueNotScalar actual) = TypeError function expected actual"
| "from_value function expected (ValueNotList actual) = TypeError function expected actual"
| "from_value function expected (ValueNotObject actual) = TypeError function expected actual"

section \<open>Blocks\<close>

definition pairs_object :: "pairs \<Rightarrow> evalue" where
  "pairs_object ps = VObject (map (\<lambda>(k, v). (k, VText v)) ps)"

text \<open>One turn of the loop in \<open>headers_object\<close>: append to the first member of that name, or push.\<close>

fun add_header :: "(ustring \<times> evalue) list \<Rightarrow> ustring \<Rightarrow> ustring \<Rightarrow> (ustring \<times> evalue) list" where
  "add_header [] name v = [(name, VText v)]"
| "add_header ((k, x) # ms) name v =
     (if k = name then
        (case x of
           VText existing \<Rightarrow> (k, VText (existing @ lit '', '' @ v)) # ms
         | _ \<Rightarrow> (k, x) # ms @ [(name, VText v)])
      else (k, x) # add_header ms name v)"

definition headers_object :: "'u captured \<Rightarrow> evalue" where
  "headers_object r = VObject (foldl (\<lambda>ms (name, v). add_header ms name v) [] (cap_headers r))"

definition part_value :: "multipart_part \<Rightarrow> evalue" where
  "part_value part =
     (case from_utf8 (part_data part) of Some t \<Rightarrow> VText t | None \<Rightarrow> VBytes (part_data part))"

definition block_value :: "'u crates \<Rightarrow> path \<Rightarrow> ustring \<Rightarrow> 'u captured \<Rightarrow> (evalue, eval_error) result" where
  "block_value cr p block r =
     (if block = lit ''raw_body'' then map_ok VText (ok_or BodyNotText (body_text r))
      else if block = lit ''raw_body_bytes'' then Ok (VBytes (cap_body r))
      else if block = lit ''body'' then map_ok from_json (ok_or BodyNotJson (body_json cr r))
      else if block = lit ''form'' then map_ok pairs_object (ok_or BodyNotForm (form cr r))
      else if block = lit ''multipart'' then
        map_ok (\<lambda>parts. VObject (map (\<lambda>part. (part_name part, part_value part)) parts))
          (ok_or BodyNotMultipart (cap_multipart r))
      else if block = lit ''method'' then Ok (VText (cap_method r))
      else if block = lit ''url'' then Ok (VText (cr_url_text cr (cap_url r)))
      else if block = lit ''scheme'' then Ok (VText (cr_url_scheme cr (cap_url r)))
      else if block = lit ''authority'' \<or> block = lit ''host'' then Ok (VText (authority cr r))
      else if block = lit ''hostname'' then Ok (VText (hostname cr r))
      else if block = lit ''port'' then
        Ok (case request_port cr r of None \<Rightarrow> VNull | Some port \<Rightarrow> VText (show_nat port))
      else if block = lit ''path'' then Ok (VText (cr_url_path cr (cap_url r)))
      else if block = lit ''query_string'' then Ok (VText (query_string cr r))
      else if block = lit ''query'' then Ok (pairs_object (query_pairs cr r))
      else if block = lit ''headers'' then Ok (headers_object r)
      else if block = lit ''cookies'' then Ok (pairs_object (cookies r))
      else Err (UnsupportedBlock (path_text p)))"

definition request_block :: "'u crates \<Rightarrow> path \<Rightarrow> 'u captured \<Rightarrow> (evalue \<times> segment list, eval_error) result" where
  "request_block cr p r =
     (case path_segments p of
        Key block # rest \<Rightarrow> map_ok (\<lambda>v. (v, rest)) (block_value cr p block r)
      | _ \<Rightarrow> Err (UnsupportedBlock (path_text p)))"

definition hook_block :: "path \<Rightarrow> 'u eval_context \<Rightarrow> (evalue \<times> segment list, eval_error) result" where
  "hook_block p ctx =
     (case path_segments p of
        Key block # rest \<Rightarrow>
          if block = lit ''id'' then Ok (VText (ctx_hook_id ctx), rest)
          else if block = lit ''url'' then Ok (VText (ctx_hook_url ctx), rest)
          else Err (UnsupportedBlock (path_text p))
      | _ \<Rightarrow> Err (UnsupportedBlock (path_text p)))"

definition key_block :: "path \<Rightarrow> 'u eval_context \<Rightarrow> (evalue \<times> segment list, eval_error) result" where
  "key_block p ctx =
     (case path_segments p of
        Key block # rest \<Rightarrow>
          if block = lit ''public''
          then Ok (case ctx_public_key ctx of None \<Rightarrow> VNull | Some k \<Rightarrow> VBytes k, rest)
          else Err (UnsupportedBlock (path_text p))
      | _ \<Rightarrow> Err (UnsupportedBlock (path_text p)))"

fun index_into :: "evalue \<Rightarrow> segment list \<Rightarrow> path \<Rightarrow> bool \<Rightarrow> (evalue, eval_error) result" where
  "index_into v [] p lower = Ok v"
| "index_into v (s # ss) p lower =
     (case (case s of
              Key k \<Rightarrow> member v (if lower then to_ascii_lowercase k else k)
            | Index i \<Rightarrow> element v i) of
        None \<Rightarrow> Err (NotIndexable (path_text p))
      | Some next \<Rightarrow> index_into next ss p lower)"

definition is_header_block :: "path \<Rightarrow> bool" where
  "is_header_block p \<longleftrightarrow>
     path_root p = RequestRoot \<and>
     (case path_segments p of Key block # _ \<Rightarrow> block = lit ''headers'' | _ \<Rightarrow> False)"

definition base_value :: "'u crates \<Rightarrow> path \<Rightarrow> 'u eval_context \<Rightarrow> (evalue \<times> segment list, eval_error) result" where
  "base_value cr p ctx =
     (case path_root p of
        RequestRoot \<Rightarrow> request_block cr p (ctx_request ctx)
      | HookRoot \<Rightarrow> hook_block p ctx
      | SecretRoot \<Rightarrow>
          Ok (case ctx_secret ctx of None \<Rightarrow> VNull | Some s \<Rightarrow> VBytes s, path_segments p)
      | KeyRoot \<Rightarrow> key_block p ctx)"

definition evaluate_path :: "'u crates \<Rightarrow> path \<Rightarrow> 'u eval_context \<Rightarrow> (evalue, eval_error) result" where
  "evaluate_path cr p ctx =
     (case base_value cr p ctx of
        Err e \<Rightarrow> Err e
      | Ok (base, rest) \<Rightarrow> index_into base rest p (is_header_block p))"

section \<open>Functions\<close>

definition single :: "evalue list \<Rightarrow> evalue" where
  "single args = (if args = [] then VNull else last args)"

definition flatten :: "evalue list \<Rightarrow> evalue list" where
  "flatten args = concat (map (\<lambda>a. case a of VList xs \<Rightarrow> xs | other \<Rightarrow> [other]) args)"

definition arg_text :: "func \<Rightarrow> evalue \<Rightarrow> (ustring, eval_error) result" where
  "arg_text f v = map_err (from_value (func_name f) ''text'') (into_text v)"

definition arg_bytes :: "func \<Rightarrow> evalue \<Rightarrow> (bytes, eval_error) result" where
  "arg_bytes f v = map_err (from_value (func_name f) ''text or bytes'') (into_bytes v)"

fun concat_loop :: "func \<Rightarrow> ustring option \<Rightarrow> nat \<Rightarrow> evalue list \<Rightarrow> bytes \<Rightarrow> (bytes, eval_error) result" where
  "concat_loop f sep i [] out = Ok out"
| "concat_loop f sep i (a # as) out =
     (let out = (case sep of Some s \<Rightarrow> if 0 < i then out @ utf8 s else out | None \<Rightarrow> out) in
      case arg_bytes f a of
        Err e \<Rightarrow> Err e
      | Ok bs \<Rightarrow> concat_loop f sep (i + 1) as (out @ bs))"

definition concatenate :: "func \<Rightarrow> evalue list \<Rightarrow> ustring option \<Rightarrow> (evalue, eval_error) result" where
  "concatenate f args sep =
     (let produce_bytes = list_ex is_bytes args in
      case concat_loop f sep 0 args [] of
        Err e \<Rightarrow> Err e
      | Ok out \<Rightarrow>
          if produce_bytes then Ok (VBytes out)
          else map_ok VText (ok_or (InvalidUtf8 (func_name f)) (from_utf8 out)))"

fun ordered :: "ordering \<Rightarrow> sort_order \<Rightarrow> ordering" where
  "ordered c Ascending = c"
| "ordered c Descending = reverse_ordering c"

definition order_or_default :: "sort_order option \<Rightarrow> sort_order" where
  "order_or_default o' = (case o' of None \<Rightarrow> Ascending | Some d \<Rightarrow> d)"

definition sort_values :: "func \<Rightarrow> evalue \<Rightarrow> sort_order \<Rightarrow> (evalue, eval_error) result" where
  "sort_values f v d =
     (case map_err (from_value (func_name f) ''list'') (into_list v) of
        Err e \<Rightarrow> Err e
      | Ok vs \<Rightarrow>
          (case collect_map (\<lambda>x. map_ok (\<lambda>k. (k, x))
                  (map_err (from_value (func_name f) ''list of scalars'') (scalar_bytes x))) vs of
             Err e \<Rightarrow> Err e
           | Ok keyed \<Rightarrow>
               Ok (VList (map snd
                 (sort_by (\<lambda>l r. ordered (cmp_list (fst l) (fst r)) d) keyed)))))"

definition sort_keys :: "func \<Rightarrow> evalue \<Rightarrow> sort_order \<Rightarrow> (evalue, eval_error) result" where
  "sort_keys f v d =
     map_ok (\<lambda>ms. VObject (sort_by (\<lambda>l r. ordered (cmp_text (fst l) (fst r)) d) ms))
       (map_err (from_value (func_name f) ''object'') (into_object v))"

definition text_function :: "'u crates \<Rightarrow> func \<Rightarrow> evalue \<Rightarrow> (evalue, eval_error) result" where
  "text_function cr f v =
     map_ok (\<lambda>t. VText
       (case f of
          Lowercase \<Rightarrow> cr_lowercase cr t
        | Uppercase \<Rightarrow> cr_uppercase cr t
        | Trim \<Rightarrow> trim t
        | _ \<Rightarrow> t)) (arg_text f v)"

definition cmp_pair :: "ustring \<times> ustring \<Rightarrow> ustring \<times> ustring \<Rightarrow> ordering" where
  "cmp_pair l r =
     (case cmp_text (fst l) (fst r) of Equal \<Rightarrow> cmp_text (snd l) (snd r) | c \<Rightarrow> c)"

definition object_pairs :: "func \<Rightarrow> (ustring \<times> evalue) list \<Rightarrow> (pairs, eval_error) result" where
  "object_pairs f ms = collect_map (\<lambda>m. map_ok (\<lambda>t. (fst m, t)) (arg_text f (snd m))) ms"

definition canonicalize_url :: "'u crates \<Rightarrow> func \<Rightarrow> ustring \<Rightarrow> (evalue, eval_error) result" where
  "canonicalize_url cr f text =
     (case cr_url_parse cr text of
        None \<Rightarrow> Err (InvalidEncoding (func_name f))
      | Some url \<Rightarrow>
          (let ps = sort_by cmp_pair (cr_url_query_pairs cr url);
               url = (if ps = [] then cr_url_no_query cr url else cr_url_with_pairs cr ps url) in
           Ok (VText (cr_url_text cr (cr_url_no_fragment cr url)))))"

text \<open>\<open>NON_ALPHANUMERIC\<close> less the RFC 3986 unreserved punctuation.\<close>

definition percent_encode_set :: "nat \<Rightarrow> bool" where
  "percent_encode_set c \<longleftrightarrow> \<not> is_ascii_alphanumeric c \<and> c \<notin> {45, 46, 95, 126}"

definition decode_utf8 :: "func \<Rightarrow> bytes \<Rightarrow> (evalue, eval_error) result" where
  "decode_utf8 f bs = map_ok VText (ok_or (InvalidUtf8 (func_name f)) (from_utf8 bs))"

definition url_function :: "'u crates \<Rightarrow> func \<Rightarrow> evalue \<Rightarrow> (evalue, eval_error) result" where
  "url_function cr f v =
     (case f of
        UrlEncode \<Rightarrow> map_ok (\<lambda>bs. VText (cr_form_byte_serialize cr bs)) (arg_bytes f v)
      | UrlDecode \<Rightarrow>
          and_then (arg_text f v)
            (\<lambda>t. decode_utf8 f (cr_percent_decode cr (map (\<lambda>c. if c = 43 then 32 else c) t)))
      | PercentEncode \<Rightarrow> map_ok (\<lambda>t. VText (cr_percent_encode cr percent_encode_set t)) (arg_text f v)
      | PercentDecode \<Rightarrow> and_then (arg_text f v) (\<lambda>t. decode_utf8 f (cr_percent_decode cr t))
      | CanonicalizeUrl \<Rightarrow> and_then (arg_text f v) (canonicalize_url cr f)
      | CanonicalizeQuery \<Rightarrow>
          map_ok (\<lambda>ps. VText (cr_form_serialize cr (sort_by cmp_pair ps)))
            (case v of
               VObject ms \<Rightarrow> object_pairs f ms
             | other \<Rightarrow> map_ok (\<lambda>t. cr_form_parse cr (utf8 t)) (arg_text f other))
      | FormEncode \<Rightarrow>
          and_then (map_err (from_value (func_name f) ''object'') (into_object v))
            (\<lambda>ms. map_ok (\<lambda>ps. VText (cr_form_serialize cr ps)) (object_pairs f ms))
      | _ \<Rightarrow> Err (TypeError (func_name f) ''text'' (type_name v)))"

definition digest :: "'u crates \<Rightarrow> func \<Rightarrow> evalue \<Rightarrow> (evalue, eval_error) result" where
  "digest cr f v =
     map_ok (\<lambda>bs. VBytes
       (case f of
          Sha1 \<Rightarrow> cr_digest cr HashSha1 bs
        | Sha384 \<Rightarrow> cr_digest cr HashSha384 bs
        | Sha512 \<Rightarrow> cr_digest cr HashSha512 bs
        | _ \<Rightarrow> cr_digest cr HashSha256 bs)) (arg_bytes f v)"

definition encoding_function :: "'u crates \<Rightarrow> func \<Rightarrow> evalue \<Rightarrow> (evalue, eval_error) result" where
  "encoding_function cr f v =
     (let invalid = InvalidEncoding (func_name f) in
      case f of
        Hex \<Rightarrow> map_ok (\<lambda>bs. VText (cr_hex_encode cr bs)) (arg_bytes f v)
      | HexDecode \<Rightarrow>
          and_then (arg_text f v) (\<lambda>t. map_ok VBytes (ok_or invalid (cr_hex_decode cr (trim t))))
      | Base64 \<Rightarrow> map_ok (\<lambda>bs. VText (cr_base64_encode cr STANDARD bs)) (arg_bytes f v)
      | Base64Url \<Rightarrow> map_ok (\<lambda>bs. VText (cr_base64_encode cr URL_SAFE_NO_PAD bs)) (arg_bytes f v)
      | Base64Decode \<Rightarrow>
          and_then (arg_text f v)
            (\<lambda>t. map_ok VBytes (ok_or invalid
               (or_else (cr_base64_decode cr STANDARD (trim t))
                 (cr_base64_decode cr STANDARD_NO_PAD (trim t)))))
      | Base64UrlDecode \<Rightarrow>
          and_then (arg_text f v)
            (\<lambda>t. map_ok VBytes (ok_or invalid
               (or_else (cr_base64_decode cr URL_SAFE_NO_PAD (trim t))
                 (cr_base64_decode cr URL_SAFE (trim t)))))
      | _ \<Rightarrow> Err (TypeError (func_name f) ''text or bytes'' (type_name v)))"

definition json_encode :: "'u crates \<Rightarrow> func \<Rightarrow> evalue \<Rightarrow> (evalue, eval_error) result" where
  "json_encode cr f v =
     (case map_err (from_value (func_name f) ''JSON value'') (to_json v) of
        Err e \<Rightarrow> Err e
      | Ok j \<Rightarrow> map_ok VText (ok_or (InvalidEncoding (func_name f)) (cr_json_text cr j)))"

definition apply_function ::
  "'u crates \<Rightarrow> func \<Rightarrow> evalue list \<Rightarrow> ustring option \<Rightarrow> sort_order option \<Rightarrow> (evalue, eval_error) result" where
  "apply_function cr f args sep ord =
     (if f = Concat then concatenate f args None
      else if f = Join then concatenate f (flatten args) sep
      else if f = Sort then sort_values f (single args) (order_or_default ord)
      else if f = SortKeys then sort_keys f (single args) (order_or_default ord)
      else if f \<in> {Utf8, Lowercase, Uppercase, Trim} then text_function cr f (single args)
      else if f = Ascii then
        and_then (arg_text f (single args))
          (\<lambda>t. if all_ascii t then Ok (VText t) else Err (InvalidEncoding (func_name f)))
      else if f \<in> {UrlEncode, UrlDecode, PercentEncode, PercentDecode, CanonicalizeUrl,
                   CanonicalizeQuery, FormEncode} then url_function cr f (single args)
      else if f = JsonEncode then json_encode cr f (single args)
      else if f \<in> {Sha1, Sha256, Sha384, Sha512} then digest cr f (single args)
      else encoding_function cr f (single args))"

fun evaluate :: "'u crates \<Rightarrow> expr \<Rightarrow> 'u eval_context \<Rightarrow> (evalue, eval_error) result" where
  "evaluate cr (Literal t) ctx = Ok (VText t)"
| "evaluate cr (PathExpr p) ctx = evaluate_path cr p ctx"
| "evaluate cr (CallExpr f args sep ord) ctx =
     (case collect_map (\<lambda>a. evaluate cr a ctx) args of
        Err e \<Rightarrow> Err e
      | Ok vs \<Rightarrow> apply_function cr f vs sep ord)"

end
