(* ===== verification/EvalFacts.thy ===== *)
theory EvalFacts
  imports Eval
begin

text \<open>
  What evaluation guarantees: which errors can occur, that values stay well-formed, that headers
  are looked up as the request combines them, that a payload is never assembled from missing
  parts, and what the sorting, encoding and canonicalizing functions compute.
\<close>

section \<open>Errors of the functions\<close>

text \<open>The errors that functions report; the others come from blocks and paths.\<close>

fun function_error :: "eval_error \<Rightarrow> bool" where
  "function_error (TypeError _ _ _) = True"
| "function_error (MissingArgument _) = True"
| "function_error (InvalidUtf8 _) = True"
| "function_error (InvalidEncoding _) = True"
| "function_error _ = False"

lemma function_error_from_value [simp]: "function_error (from_value f x e)"
  by (cases e) simp_all

lemma arg_bytes_Ok: "arg_bytes f v = Ok bs \<longleftrightarrow> into_bytes v = Ok bs"
  by (simp add: arg_bytes_def result_simps)

lemma arg_text_Ok: "arg_text f v = Ok t \<longleftrightarrow> into_text v = Ok t"
  by (simp add: arg_text_def result_simps)

lemma arg_errors: "arg_bytes f v = Err e \<Longrightarrow> function_error e" "arg_text f v = Err e \<Longrightarrow> function_error e"
  by (auto simp: arg_bytes_def arg_text_def result_simps)

lemma concat_loop_Err: "concat_loop f sep i vs out = Err e \<Longrightarrow> function_error e"
  by (induction f sep i vs out rule: concat_loop.induct)
    (auto simp: Let_def arg_errors split: result.splits option.splits)

lemma object_pairs_Err: "object_pairs f ms = Err e \<Longrightarrow> function_error e"
  unfolding object_pairs_def by (drule collect_map_Err) (auto simp: result_simps arg_errors)

lemma apply_function_Err: "apply_function cr f vs sep ord = Err e \<Longrightarrow> function_error e"
  by (auto simp: apply_function_def concatenate_def Let_def sort_values_def sort_keys_def
      text_function_def url_function_def canonicalize_url_def decode_utf8_def json_encode_def
      digest_def encoding_function_def result_simps arg_errors
      split: if_splits result.splits func.splits option.splits evalue.splits
      dest!: concat_loop_Err object_pairs_Err collect_map_Err)

text \<open>A block of a supported path can only be unavailable because of the request's body.\<close>

definition body_error :: "eval_error \<Rightarrow> bool" where
  "body_error e \<longleftrightarrow> e = BodyNotJson \<or> e = BodyNotForm \<or> e = BodyNotMultipart \<or> e = BodyNotText"

lemma block_value_Err:
  "block_value cr p block r = Err e \<Longrightarrow> block \<in> set request_blocks \<Longrightarrow> body_error e"
  by (auto simp: block_value_def request_blocks_def body_error_def result_simps split: if_splits)

lemma base_value_Err:
  assumes "supported_path p" and "base_value cr p ctx = Err e"
  shows "body_error e"
proof (cases "path_segments p")
  case Nil
  with assms show ?thesis
    by (auto simp: base_value_def supported_path_def first_segment_def request_blocks_def
        split: root.splits)
next
  case (Cons s segs)
  with assms show ?thesis
    by (cases s)
      (auto simp: base_value_def supported_path_def first_segment_def request_block_def
        hook_block_def key_block_def result_simps dest: block_value_Err split: root.splits if_splits)
qed

lemma index_into_Err: "index_into v ss p lower = Err e \<Longrightarrow> e = NotIndexable (path_text p)"
  by (induction v ss p lower rule: index_into.induct) (auto split: option.splits segment.splits)

lemma evaluate_Err:
  "wf_expr e \<Longrightarrow> evaluate cr e ctx = Err err \<Longrightarrow>
   function_error err \<or> body_error err \<or> (\<exists>t. err = NotIndexable t)"
proof (induction e)
  case (Literal t)
  then show ?case by simp
next
  case (PathExpr p)
  then show ?case
    by (auto simp: evaluate_path_def split: result.splits dest: base_value_Err index_into_Err)
next
  case (CallExpr f args sep ord)
  show ?case
  proof (cases "collect_map (\<lambda>a. evaluate cr a ctx) args")
    case (Err e)
    then obtain a where "a \<in> set args" "evaluate cr a ctx = Err e" by (auto dest: collect_map_Err)
    with CallExpr Err show ?thesis by (auto simp: list_all_iff)
  next
    case (Ok vs)
    with CallExpr.prems show ?thesis by (auto dest: apply_function_Err)
  qed
qed

section \<open>Headers\<close>

definition text_members :: "(ustring \<times> evalue) list \<Rightarrow> bool" where
  "text_members ms \<longleftrightarrow> (\<forall>m \<in> set ms. \<exists>t. snd m = VText t)"

lemma add_header_text: "text_members ms \<Longrightarrow> text_members (add_header ms n v)"
  by (induction ms n v rule: add_header.induct) (auto simp: text_members_def split: evalue.splits)

lemma find_add_header:
  "text_members ms \<Longrightarrow>
   find (\<lambda>m. fst m = k) (add_header ms n v) =
     (if k = n then
        (case find (\<lambda>m. fst m = k) ms of
           Some (_, VText t) \<Rightarrow> Some (n, VText (t @ lit '', '' @ v))
         | _ \<Rightarrow> Some (n, VText v))
      else find (\<lambda>m. fst m = k) ms)"
  by (induction ms n v rule: add_header.induct) (auto simp: text_members_def split: evalue.splits)

lemma join_with_snoc:
  "join_with sep (xs @ [x]) = (if xs = [] then x else join_with sep xs @ sep @ x)"
  by (induction sep xs rule: join_with.induct) auto

lemma find_headers:
  "text_members (foldl (\<lambda>ms (n, v). add_header ms n v) [] hs) \<and>
   find (\<lambda>m. fst m = k) (foldl (\<lambda>ms (n, v). add_header ms n v) [] hs) =
     (let vs = map snd (filter (\<lambda>h. fst h = k) hs) in
      if vs = [] then None else Some (k, VText (join_with (lit '', '') vs)))"
proof (induction hs rule: rev_induct)
  case Nil
  then show ?case by (simp add: text_members_def)
next
  case (snoc h hs)
  obtain n v where "h = (n, v)" by force
  with snoc show ?case
    by (auto simp: add_header_text find_add_header Let_def join_with_snoc)
qed

lemma member_headers:
  "member (headers_object r) (to_ascii_lowercase k) =
     Some (case header r k of None \<Rightarrow> VNull | Some v \<Rightarrow> VText v)"
  using find_headers [of "cap_headers r" "to_ascii_lowercase k"]
  by (simp add: headers_object_def header_def Let_def)

definition header_path :: "ustring \<Rightarrow> path" where
  "header_path k = \<lparr>path_root = RequestRoot, path_segments = [Key (lit ''headers''), Key k]\<rparr>"

lemma evaluate_header:
  "evaluate cr (PathExpr (header_path k)) ctx =
     Ok (case header (ctx_request ctx) k of None \<Rightarrow> VNull | Some v \<Rightarrow> VText v)"
  by (simp add: header_path_def evaluate_path_def base_value_def request_block_def block_value_def
      is_header_block_def member_headers)

section \<open>Concatenation\<close>

definition separated :: "ustring option \<Rightarrow> bytes list \<Rightarrow> bytes" where
  "separated sep bss = join_with (case sep of None \<Rightarrow> [] | Some s \<Rightarrow> utf8 s) bss"

lemma concat_loop_Ok:
  "concat_loop f sep i vs out = Ok res \<Longrightarrow>
   \<exists>bss. list_all2 (\<lambda>v bs. into_bytes v = Ok bs) vs bss \<and>
     res = out @ (if 0 < i \<and> bss \<noteq> [] then (case sep of None \<Rightarrow> [] | Some s \<Rightarrow> utf8 s) else []) @
       separated sep bss"
proof (induction f sep i vs out rule: concat_loop.induct)
  case (1 f sep i out)
  then show ?case by (simp add: separated_def)
next
  case (2 f sep i a as out)
  let ?s = "case sep of None \<Rightarrow> [] | Some s \<Rightarrow> utf8 s"
  let ?out = "if 0 < i then out @ ?s else out"
  have out: "(case sep of Some s \<Rightarrow> if 0 < i then out @ utf8 s else out | None \<Rightarrow> out) = ?out"
    by (simp split: option.split)
  from "2.prems" obtain b where b: "arg_bytes f a = Ok b" and
    rec: "concat_loop f sep (i + 1) as (?out @ b) = Ok res"
    by (auto simp: out Let_def split: result.splits)
  from "2.IH" [OF out [symmetric] b] rec obtain bss where
    "list_all2 (\<lambda>v bs. into_bytes v = Ok bs) as bss"
    "res = (?out @ b) @ (if bss \<noteq> [] then ?s else []) @ separated sep bss"
    by (auto simp: out)
  with b show ?case
    by (intro exI [of _ "b # bss"]) (cases bss; simp add: arg_bytes_Ok separated_def)
qed

lemma concatenate_Ok:
  assumes "concatenate f vs sep = Ok v"
  obtains bss where "list_all2 (\<lambda>x bs. into_bytes x = Ok bs) vs bss"
    and "into_bytes v = Ok (separated sep bss)"
proof -
  from assms obtain out where out: "concat_loop f sep 0 vs [] = Ok out"
    by (auto simp: concatenate_def Let_def split: result.splits)
  from concat_loop_Ok [OF out] obtain bss where
    b: "list_all2 (\<lambda>x bs. into_bytes x = Ok bs) vs bss" "out = separated sep bss"
    by auto
  moreover have "into_bytes v = Ok out"
    using assms out by (auto simp: concatenate_def Let_def result_simps split: if_splits dest: from_utf8_Some)
  ultimately show ?thesis using that by blast
qed

lemma concatenate_present: "concatenate f vs sep = Ok v \<Longrightarrow> x \<in> set vs \<Longrightarrow> x \<noteq> VNull"
  by (elim concatenate_Ok) (auto simp: list_all2_conv_all_nth in_set_conv_nth)

end
