(* ===== verification/RoundTrip.thy ===== *)
theory RoundTrip
  imports Grammar
begin

text \<open>
  Printing and parsing signature expressions are inverse. The printer's output is described as a
  list of pieces, tokens and gaps; lexing the text of the pieces gives the tokens back, and the
  parser rebuilds the expression from the tokens. The theorem excludes what the printer cannot
  write: control characters other than tab, newline and return.
\<close>

section \<open>Printed expressions as pieces\<close>

type_synonym piece = "token option"

fun piece_text :: "piece \<Rightarrow> ustring" where
  "piece_text None = [32]"
| "piece_text (Some t) = token_text t"

definition pieces_text :: "piece list \<Rightarrow> ustring" where
  "pieces_text ps = concat (map piece_text ps)"

fun piece_tokens :: "piece list \<Rightarrow> token list" where
  "piece_tokens [] = []"
| "piece_tokens (None # ps) = piece_tokens ps"
| "piece_tokens (Some t # ps) = t # piece_tokens ps"

fun lexable :: "piece list \<Rightarrow> bool" where
  "lexable [] = True"
| "lexable (None # ps) = lexable ps"
| "lexable (Some t # ps) \<longleftrightarrow> printable_token t \<and> may_follow t (pieces_text ps) \<and> lexable ps"

lemma pieces_text_simps [simp]:
  "pieces_text [] = []"
  "pieces_text (p # ps) = piece_text p @ pieces_text ps"
  "pieces_text (ps @ qs) = pieces_text ps @ pieces_text qs"
  by (simp_all add: pieces_text_def)

lemma piece_tokens_append [simp]: "piece_tokens (ps @ qs) = piece_tokens ps @ piece_tokens qs"
  by (induction ps rule: piece_tokens.induct) auto

lemma lex_pieces:
  "lexable ps \<Longrightarrow>
   \<exists>ts. lex_tokens (char_indices off (pieces_text ps)) = Ok ts \<and> map sp_token ts = piece_tokens ps"
proof (induction ps arbitrary: off rule: lexable.induct)
  case 1
  then show ?case by (simp add: lex_tokens.simps)
next
  case (2 ps)
  then show ?case by (simp add: lex_tokens_space del: char_indices.simps)
next
  case (3 t ps)
  then obtain ts where
    "lex_tokens (char_indices (off + str_len (token_text t)) (pieces_text ps)) = Ok ts"
    "map sp_token ts = piece_tokens ps"
    by fastforce
  with 3(2) show ?case by (simp add: lex_token_text)
qed

text \<open>The parts between the parentheses of a call, in the order they are printed.\<close>

datatype 'a part = SeparatorPart ustring | OrderPart sort_order | ArgumentPart 'a

definition call_parts :: "'a list \<Rightarrow> ustring option \<Rightarrow> sort_order option \<Rightarrow> 'a part list" where
  "call_parts args sep ord =
     (case sep of None \<Rightarrow> [] | Some s \<Rightarrow> [SeparatorPart s]) @
     (case ord of None \<Rightarrow> [] | Some d \<Rightarrow> [OrderPart d]) @ map ArgumentPart args"

fun part_pieces :: "piece list part \<Rightarrow> piece list" where
  "part_pieces (SeparatorPart s) =
     [Some (Identifier (lit ''separator'')), Some Colon, None, Some (Text s)]"
| "part_pieces (OrderPart d) =
     [Some (Identifier (lit ''order'')), Some Colon, None,
      Some (Identifier (lit (sort_order_as_str d)))]"
| "part_pieces (ArgumentPart ps) = ps"

fun segment_pieces :: "(ustring \<Rightarrow> bool) \<Rightarrow> segment \<Rightarrow> piece list" where
  "segment_pieces B (Key k) =
     (if B k then [Some Dot, Some (Identifier k)]
      else [Some LeftBracket, Some (Text k), Some RightBracket])"
| "segment_pieces B (Index i) = [Some LeftBracket, Some (Integer i), Some RightBracket]"

fun expr_pieces :: "(ustring \<Rightarrow> bool) \<Rightarrow> expr \<Rightarrow> piece list" where
  "expr_pieces B (Literal v) = [Some (Text v)]"
| "expr_pieces B (PathExpr p) =
     Some (Identifier (lit (root_as_str (path_root p)))) #
     concat (map (segment_pieces B) (path_segments p))"
| "expr_pieces B (CallExpr f args sep ord) =
     Some (Identifier (lit (func_name f))) # Some LeftParen #
     join_with [Some Comma, None] (map part_pieces (call_parts (map (expr_pieces B) args) sep ord)) @
     [Some RightParen]"

lemma pieces_text_join:
  "pieces_text (join_with sep pss) = join_with (pieces_text sep) (map pieces_text pss)"
  by (induction sep pss rule: join_with.induct) auto

lemma pieces_text_segment: "pieces_text (segment_pieces is_bare_identifier s) = segment_text s"
  by (cases s) auto

lemma pieces_text_concat: "pieces_text (concat pss) = concat (map pieces_text pss)"
  by (induction pss) auto

lemma expr_text_pieces: "expr_text e = pieces_text (expr_pieces is_bare_identifier e)"
proof (induction e)
  case (PathExpr p)
  then show ?case
    by (simp add: path_text_def pieces_text_concat pieces_text_segment comp_def)
next
  case (CallExpr f args sep ord)
  have sep_text: "lit ''separator: '' = lit ''separator'' @ [58, 32]"
    "lit ''order: '' = lit ''order'' @ [58, 32]"
    by (simp_all add: lit_def)
  have args_text: "map expr_text args = map (\<lambda>a. pieces_text (expr_pieces is_bare_identifier a)) args"
    using CallExpr by simp
  show ?case
    by (simp add: args_text pieces_text_join call_parts_def comma_space_def sep_text comp_def
        split: option.splits)
qed simp

section \<open>Lexing a printed expression\<close>

fun printable_segment :: "segment \<Rightarrow> bool" where
  "printable_segment (Key k) = list_all quotable k"
| "printable_segment (Index i) \<longleftrightarrow> i < 2 ^ 64"

fun printable :: "expr \<Rightarrow> bool" where
  "printable (Literal v) = list_all quotable v"
| "printable (PathExpr p) = list_all printable_segment (path_segments p)"
| "printable (CallExpr f args sep ord) = list_all printable args"

definition boundary :: "piece list \<Rightarrow> bool" where
  "boundary ps \<longleftrightarrow> starts_outside is_identifier_char (pieces_text ps)"

lemma boundary_simps [simp]:
  "boundary []" "boundary (None # ps)"
  "boundary (Some Dot # ps)" "boundary (Some LeftBracket # ps)" "boundary (Some RightBracket # ps)"
  "boundary (Some LeftParen # ps)" "boundary (Some RightParen # ps)" "boundary (Some Comma # ps)"
  "boundary (Some Colon # ps)"
  by (simp_all add: boundary_def starts_outside_def identifier_defs)

lemma may_follow_boundary: "boundary ps \<Longrightarrow> may_follow t (pieces_text ps)"
  by (cases t) (auto simp: boundary_def starts_outside_def is_identifier_char_def
      is_ascii_alphanumeric_def split: list.splits)

lemma lexable_simps [simp]:
  "lexable (Some LeftParen # ps) = lexable ps" "lexable (Some RightParen # ps) = lexable ps"
  "lexable (Some LeftBracket # ps) = lexable ps" "lexable (Some RightBracket # ps) = lexable ps"
  "lexable (Some Dot # ps) = lexable ps" "lexable (Some Comma # ps) = lexable ps"
  "lexable (Some Colon # ps) = lexable ps"
  "lexable (Some (Text v) # ps) \<longleftrightarrow> list_all quotable v \<and> lexable ps"
  by simp_all

lemma lexable_word [simp]:
  "boundary ps \<Longrightarrow> lexable (Some (Identifier n) # ps) \<longleftrightarrow> is_bare_identifier n \<and> lexable ps"
  "boundary ps \<Longrightarrow> lexable (Some (Integer i) # ps) \<longleftrightarrow> i < 2 ^ 64 \<and> lexable ps"
  using may_follow_boundary [of ps] by simp_all

declare lexable.simps(3) [simp del]

lemma separators_quotable: "s \<in> set separators \<Longrightarrow> list_all quotable s"
proof -
  have "\<forall>s \<in> set separators. list_all quotable s"
    by (simp add: separators_def lit_def quotable_def is_control_def)
  then show "s \<in> set separators \<Longrightarrow> list_all quotable s" by blast
qed

lemma bare_keywords [simp]:
  "is_bare_identifier (lit ''separator'')" "is_bare_identifier (lit ''order'')"
  by (simp_all add: lit_def identifier_defs)

definition lexable_before :: "piece list \<Rightarrow> bool" where
  "lexable_before ps \<longleftrightarrow> (\<forall>rest. boundary rest \<longrightarrow> lexable rest \<longrightarrow> lexable (ps @ rest))"

definition bare_names :: "(ustring \<Rightarrow> bool) \<Rightarrow> bool" where
  "bare_names B \<longleftrightarrow> (\<forall>k. B k \<longrightarrow> is_bare_identifier k)"

lemma lexable_segments:
  "bare_names B \<Longrightarrow> list_all printable_segment segs \<Longrightarrow> boundary rest \<Longrightarrow> lexable rest \<Longrightarrow>
   boundary (concat (map (segment_pieces B) segs) @ rest) \<and>
   lexable (concat (map (segment_pieces B) segs) @ rest)"
proof (induction segs)
  case (Cons s segs)
  then show ?case by (cases s) (auto simp: bare_names_def)
qed simp

lemma lexable_join:
  "list_all lexable_before pss \<Longrightarrow> lexable_before (join_with [Some Comma, None] pss)"
  by (induction "[Some Comma, None]" pss rule: join_with.induct) (auto simp: lexable_before_def)

lemma lexable_expr: "bare_names B \<Longrightarrow> printable e \<Longrightarrow> wf_expr e \<Longrightarrow> lexable_before (expr_pieces B e)"
proof (induction e)
  case (Literal v)
  then show ?case by (auto simp: lexable_before_def)
next
  case (PathExpr p)
  then show ?case
    by (auto simp: lexable_before_def dest: lexable_segments)
next
  case (CallExpr f args sep ord)
  have "list_all lexable_before (map part_pieces (call_parts (map (expr_pieces B) args) sep ord))"
    using CallExpr
    by (auto simp: call_parts_def list_all_iff call_options_ok_def lexable_before_def
        dest: separators_quotable [unfolded list_all_iff, THEN bspec] split: option.splits)
  from lexable_join [OF this] show ?case
    by (simp add: lexable_before_def)
qed

lemma tokenize_printed:
  assumes "bare_names B" and "printable e" and "wf_expr e"
    and "str_len (pieces_text (expr_pieces B e)) \<le> max_expression_bytes"
  shows "\<exists>ts. tokenize (pieces_text (expr_pieces B e)) = Ok ts \<and>
    map sp_token ts = piece_tokens (expr_pieces B e)"
proof -
  from lexable_expr [OF assms(1-3)] have "lexable (expr_pieces B e @ [])"
    unfolding lexable_before_def by (metis boundary_simps(1) lexable.simps(1))
  then obtain ts where ts: "lex_tokens (char_indices 0 (pieces_text (expr_pieces B e))) = Ok ts"
    "map sp_token ts = piece_tokens (expr_pieces B e)"
    using lex_pieces [of "expr_pieces B e" 0] by auto
  have "piece_tokens (expr_pieces B e) \<noteq> []" by (cases e) simp_all
  with ts assms(4) show ?thesis by (cases ts) (auto simp: tokenize_def)
qed

section \<open>Parsing the tokens back\<close>

definition toks :: "parser \<Rightarrow> token list" where
  "toks p = map sp_token (remaining p)"

lemma length_toks: "length (toks p) = length (remaining p)"
  by (simp add: toks_def)

lemma toks_Cons:
  assumes "toks p = t # ts"
  obtains off p' where "next_token p = (Some (Spanned t off), p')" "toks p' = ts"
    "ps_nodes p' = ps_nodes p"
proof -
  from assms obtain off rest where r: "remaining p = Spanned t off # rest" "map sp_token rest = ts"
    by (auto simp: toks_def Cons_eq_map_conv) (metis spanned.collapse)
  show ?thesis
    by (rule that [of off "p\<lparr>ps_position := ps_position p + 1\<rparr>"])
      (use r in \<open>simp_all add: next_token_remaining toks_def\<close>)
qed

lemma toks_Nil: "toks p = [] \<Longrightarrow> next_token p = (None, p)"
  by (simp add: toks_def next_token_remaining)

lemma peek_is_toks: "peek_is p t \<longleftrightarrow> (\<exists>ts. toks p = t # ts)"
  by (auto simp: peek_is_iff toks_def Cons_eq_map_conv) (metis spanned.collapse)

lemma expect_toks:
  assumes "toks p = t # ts"
  obtains p' where "expect p t d = Ok p'" "toks p' = ts" "ps_nodes p' = ps_nodes p"
  using assms by (elim toks_Cons) (auto simp: expect_def)

lemma count_node_toks:
  assumes "ps_nodes p < max_nodes"
  obtains p' where "count_node p = Ok p'" "toks p' = toks p" "ps_nodes p' = ps_nodes p + 1"
  using assms by (auto simp: count_node_Ok toks_def)

text \<open>What may follow an expression: the end, a comma or a closing parenthesis.\<close>

definition stops :: "token list \<Rightarrow> bool" where
  "stops ts \<longleftrightarrow> (case ts of [] \<Rightarrow> True | t # _ \<Rightarrow> t = Comma \<or> t = RightParen)"

lemma path_step_stops: "stops (toks p) \<Longrightarrow> path_step p = Ok None"
  by (auto simp: path_step_def peek_is_toks stops_def)

lemma path_step_segment:
  assumes "toks p = piece_tokens (segment_pieces B s) @ ts"
  obtains p' where "path_step p = Ok (Some (s, p'))" "toks p' = ts" "ps_nodes p' = ps_nodes p"
proof (cases "\<exists>k. s = Key k \<and> B k")
  case True
  then obtain k where k: "s = Key k" "B k" by blast
  with assms have dot: "toks p = Dot # Identifier k # ts" by simp
  then obtain o1 p1 where p1: "next_token p = (Some (Spanned Dot o1), p1)"
    "toks p1 = Identifier k # ts" "ps_nodes p1 = ps_nodes p"
    by (rule toks_Cons)
  from p1(2) obtain o2 p2 where p2: "next_token p1 = (Some (Spanned (Identifier k) o2), p2)"
    "toks p2 = ts" "ps_nodes p2 = ps_nodes p1"
    by (rule toks_Cons)
  show ?thesis
    by (rule that [of p2]) (use k p1 p2 dot in \<open>simp_all add: path_step_def peek_is_toks\<close>)
next
  case False
  define t where "t = (case s of Key k \<Rightarrow> Text k | Index i \<Rightarrow> Integer i)"
  from assms False have ts: "toks p = LeftBracket # t # RightBracket # ts"
    by (cases s) (simp_all add: t_def)
  then obtain o1 p1 where p1: "next_token p = (Some (Spanned LeftBracket o1), p1)"
    "toks p1 = t # RightBracket # ts" "ps_nodes p1 = ps_nodes p"
    by (rule toks_Cons)
  from p1(2) obtain o2 p2 where p2: "next_token p1 = (Some (Spanned t o2), p2)"
    "toks p2 = RightBracket # ts" "ps_nodes p2 = ps_nodes p1"
    by (rule toks_Cons)
  from p2(2) obtain p3 where p3: "expect p2 RightBracket '']'' = Ok p3" "toks p3 = ts"
    "ps_nodes p3 = ps_nodes p2"
    by (rule expect_toks)
  show ?thesis
    by (rule that [of p3])
      (use p1 p2 p3 ts in \<open>cases s; simp add: path_step_def peek_is_toks t_def\<close>)+
qed

lemma path_loop_segments:
  "toks p = piece_tokens (concat (map (segment_pieces B) segs)) @ ts \<Longrightarrow> stops ts \<Longrightarrow>
   ps_nodes p + length segs \<le> max_nodes \<Longrightarrow>
   \<exists>p'. path_loop p acc = Ok (acc @ segs, p') \<and> toks p' = ts \<and>
        ps_nodes p' = ps_nodes p + length segs"
proof (induction segs arbitrary: p acc)
  case Nil
  then show ?case by (simp add: path_loop.simps path_step_stops)
next
  case (Cons s segs)
  then obtain p1 where p1: "path_step p = Ok (Some (s, p1))"
    "toks p1 = piece_tokens (concat (map (segment_pieces B) segs)) @ ts" "ps_nodes p1 = ps_nodes p"
    by (auto elim: path_step_segment)
  with Cons.prems have "ps_nodes p1 < max_nodes" by simp
  then obtain p2 where p2: "count_node p1 = Ok p2" "toks p2 = toks p1"
    "ps_nodes p2 = ps_nodes p1 + 1"
    by (rule count_node_toks)
  from Cons.IH [of p2 "acc @ [s]"] Cons.prems p1 p2 show ?case
    by (subst path_loop.simps) auto
qed

lemma is_keyword_toks: "is_keyword p \<longleftrightarrow> (\<exists>k ts. toks p = Identifier k # Colon # ts)"
proof (cases "remaining p")
  case Nil
  then show ?thesis by (simp add: is_keyword_def peek_remaining toks_def)
next
  case (Cons t rest)
  then show ?thesis
    by (cases rest; cases t)
      (auto simp: is_keyword_def peek_remaining peek_at_remaining toks_def
        split: token.splits spanned.splits)
qed

lemma expr_not_keyword:
  assumes "toks p = piece_tokens (expr_pieces B e) @ ts" and "stops ts"
  shows "\<not> is_keyword p"
proof (cases e)
  case (PathExpr q)
  show ?thesis
  proof (cases "path_segments q")
    case Nil
    with assms PathExpr show ?thesis
      by (auto simp: is_keyword_toks stops_def split: list.splits)
  next
    case (Cons s segs)
    with assms PathExpr show ?thesis by (cases s) (auto simp: is_keyword_toks)
  qed
qed (use assms in \<open>auto simp: is_keyword_toks\<close>)

fun part_tokens :: "(ustring \<Rightarrow> bool) \<Rightarrow> expr part \<Rightarrow> token list" where
  "part_tokens B (SeparatorPart s) = [Identifier (lit ''separator''), Colon, Text s]"
| "part_tokens B (OrderPart d) =
     [Identifier (lit ''order''), Colon, Identifier (lit (sort_order_as_str d))]"
| "part_tokens B (ArgumentPart e) = piece_tokens (expr_pieces B e)"

fun part_nodes :: "expr part \<Rightarrow> nat" where
  "part_nodes (ArgumentPart e) = expr_nodes e"
| "part_nodes _ = 0"

fun apply_part :: "call \<Rightarrow> expr part \<Rightarrow> call" where
  "apply_part c (SeparatorPart s) = c\<lparr>call_separator := Some s\<rparr>"
| "apply_part c (OrderPart d) = c\<lparr>call_order := Some d\<rparr>"
| "apply_part c (ArgumentPart e) = c\<lparr>call_arguments := call_arguments c @ [e]\<rparr>"

text \<open>\<open>parses B d e\<close>: at depth \<open>d\<close>, the printed tokens of \<open>e\<close> are read back as \<open>e\<close>.\<close>

definition parses :: "(ustring \<Rightarrow> bool) \<Rightarrow> nat \<Rightarrow> expr \<Rightarrow> bool" where
  "parses B d e \<longleftrightarrow>
     (\<forall>n p ts. toks p = piece_tokens (expr_pieces B e) @ ts \<longrightarrow> stops ts \<longrightarrow>
        ps_nodes p + expr_nodes e \<le> max_nodes \<longrightarrow> 4 * length (toks p) + 1 \<le> n \<longrightarrow>
        (\<exists>p'. parse_expression n d p = Some (Ok (e, p')) \<and> toks p' = ts \<and>
              ps_nodes p' = ps_nodes p + expr_nodes e))"

lemma parsesE:
  assumes "parses B d e" and "toks p = piece_tokens (expr_pieces B e) @ ts" and "stops ts"
    and "ps_nodes p + expr_nodes e \<le> max_nodes" and "4 * length (toks p) + 1 \<le> n"
  obtains p' where "parse_expression n d p = Some (Ok (e, p'))" "toks p' = ts"
    "ps_nodes p' = ps_nodes p + expr_nodes e"
  using assms unfolding parses_def by blast

fun part_ok :: "(ustring \<Rightarrow> bool) \<Rightarrow> nat \<Rightarrow> call \<Rightarrow> expr part \<Rightarrow> bool" where
  "part_ok B d c (SeparatorPart s) \<longleftrightarrow>
     accepts_separator (call_function c) \<and> call_separator c = None \<and> s \<in> set separators"
| "part_ok B d c (OrderPart ord) \<longleftrightarrow> accepts_order (call_function c) \<and> call_order c = None"
| "part_ok B d c (ArgumentPart e) \<longleftrightarrow> parses B (d + 1) e"

lemma parse_keyword_part:
  assumes "toks p = Identifier k # Colon # v # ts"
    and "(\<exists>s. k = lit ''separator'' \<and> v = Text s \<and> q = SeparatorPart s) \<or>
         (\<exists>x. k = lit ''order'' \<and> v = Identifier (lit (sort_order_as_str x)) \<and> q = OrderPart x)"
    and "part_ok B d c q"
  shows "\<exists>p'. parse_keyword c p = Ok (apply_part c q, p') \<and> toks p' = ts \<and> ps_nodes p' = ps_nodes p"
proof -
  from assms(1) obtain o1 p1 where p1: "next_token p = (Some (Spanned (Identifier k) o1), p1)"
    "toks p1 = Colon # v # ts" "ps_nodes p1 = ps_nodes p"
    by (rule toks_Cons)
  from p1(2) obtain p2 where p2: "expect p1 Colon '':'' = Ok p2" "toks p2 = v # ts"
    "ps_nodes p2 = ps_nodes p1"
    by (rule expect_toks)
  from p2(2) obtain o3 p3 where p3: "next_token p2 = (Some (Spanned v o3), p3)"
    "toks p3 = ts" "ps_nodes p3 = ps_nodes p2"
    by (rule toks_Cons)
  have "\<not> (accepts_separator f \<and> accepts_order f)" for f
    by (simp add: accepts_separator_def accepts_order_def)
  with p1 p2 p3 assms(2,3) show ?thesis by (auto simp: parse_keyword_def)
qed

lemma parse_argument_part:
  assumes "toks p = part_tokens B q @ ts" and "stops ts" and "part_ok B d c q"
    and "ps_nodes p + part_nodes q \<le> max_nodes" and "4 * length (toks p) + 2 \<le> n"
  shows "\<exists>p'. parse_argument n c d p = Some (Ok (apply_part c q, p')) \<and> toks p' = ts \<and>
              ps_nodes p' = ps_nodes p + part_nodes q"
proof -
  obtain m where n: "n = Suc m" using assms(5) by (cases n) auto
  show ?thesis
  proof (cases q)
    case (ArgumentPart e)
    with assms have "\<not> is_keyword p" using expr_not_keyword [of p B e ts] by simp
    moreover from assms ArgumentPart n obtain p' where
      "parse_expression m (d + 1) p = Some (Ok (e, p'))" "toks p' = ts"
      "ps_nodes p' = ps_nodes p + expr_nodes e"
      using parsesE [of B "d + 1" e p ts m thesis] by simp
    ultimately show ?thesis using ArgumentPart n by auto
  next
    case (SeparatorPart s)
    with assms(1) have t: "toks p = Identifier (lit ''separator'') # Colon # Text s # ts" by simp
    have "is_keyword p" by (simp add: is_keyword_toks t)
    with parse_keyword_part [OF t _ assms(3)] SeparatorPart n show ?thesis by auto
  next
    case (OrderPart x)
    with assms(1) have t: "toks p = Identifier (lit ''order'') # Colon #
      Identifier (lit (sort_order_as_str x)) # ts" by simp
    have "is_keyword p" by (simp add: is_keyword_toks t)
    with parse_keyword_part [OF t _ assms(3)] OrderPart n show ?thesis by auto
  qed
qed

fun parts_ok :: "(ustring \<Rightarrow> bool) \<Rightarrow> nat \<Rightarrow> call \<Rightarrow> expr part list \<Rightarrow> bool" where
  "parts_ok B d c [] = True"
| "parts_ok B d c (q # qs) \<longleftrightarrow> part_ok B d c q \<and> parts_ok B d (apply_part c q) qs"

lemma parse_arguments_parts:
  "toks p = join_with [Comma] (map (part_tokens B) (q # qs)) @ RightParen # ts \<Longrightarrow>
   parts_ok B d c (q # qs) \<Longrightarrow>
   ps_nodes p + sum_list (map part_nodes (q # qs)) \<le> max_nodes \<Longrightarrow>
   4 * length (toks p) + 3 \<le> n \<Longrightarrow>
   \<exists>p'. parse_arguments n c d p = Some (Ok (foldl apply_part c (q # qs), p')) \<and> toks p' = ts \<and>
        ps_nodes p' = ps_nodes p + sum_list (map part_nodes (q # qs))"
proof (induction qs arbitrary: q c p n)
  case Nil
  then obtain m where n: "n = Suc m" by (cases n) auto
  with Nil obtain p1 where p1: "parse_argument m c d p = Some (Ok (apply_part c q, p1))"
    "toks p1 = RightParen # ts" "ps_nodes p1 = ps_nodes p + part_nodes q"
    using parse_argument_part [of p B q "RightParen # ts" d c m] by (auto simp: stops_def)
  from p1(2) obtain o2 p2 where "next_token p1 = (Some (Spanned RightParen o2), p2)"
    "toks p2 = ts" "ps_nodes p2 = ps_nodes p1"
    by (rule toks_Cons)
  with n p1 show ?case by simp
next
  case (Cons q' qs)
  then obtain m where n: "n = Suc m" by (cases n) auto
  let ?more = "join_with [Comma] (map (part_tokens B) (q' # qs)) @ RightParen # ts"
  from Cons.prems(1) have toks: "toks p = part_tokens B q @ Comma # ?more" by simp
  with Cons.prems n obtain p1 where p1: "parse_argument m c d p = Some (Ok (apply_part c q, p1))"
    "toks p1 = Comma # ?more" "ps_nodes p1 = ps_nodes p + part_nodes q"
    using parse_argument_part [OF toks, of d c m] by (auto simp: stops_def)
  from p1(2) obtain o2 p2 where p2: "next_token p1 = (Some (Spanned Comma o2), p2)"
    "toks p2 = ?more" "ps_nodes p2 = ps_nodes p1"
    by (rule toks_Cons)
  have "4 * length (toks p2) + 3 \<le> m"
    using Cons.prems(4) n toks p2(2) by simp
  with Cons.IH [OF p2(2), of "apply_part c q" m] Cons.prems(2,3) p1(3) p2(3) obtain p3 where
    "parse_arguments m (apply_part c q) d p2 =
       Some (Ok (foldl apply_part (apply_part c q) (q' # qs), p3))"
    "toks p3 = ts" "ps_nodes p3 = ps_nodes p2 + sum_list (map part_nodes (q' # qs))"
    by auto
  with n p1 p2 show ?case by simp
qed

lemma piece_tokens_join:
  "piece_tokens (join_with [Some Comma, None] pss) = join_with [Comma] (map piece_tokens pss)"
  by (induction "[Some Comma, None]" pss rule: join_with.induct) auto

lemma piece_tokens_parts:
  "map piece_tokens (map part_pieces (call_parts (map (expr_pieces B) args) sep ord)) =
   map (part_tokens B) (call_parts args sep ord)"
  by (auto simp: call_parts_def split: option.splits)

lemma sum_part_nodes:
  "sum_list (map part_nodes (call_parts args sep ord)) = sum_list (map expr_nodes args)"
  by (auto simp: call_parts_def comp_def split: option.splits)

lemma foldl_arguments:
  "foldl apply_part c (map ArgumentPart args) =
   c\<lparr>call_arguments := call_arguments c @ args\<rparr>"
  by (induction args arbitrary: c) auto

lemma call_expr_parts:
  "call_expr (foldl apply_part (new_call f) (call_parts args sep ord)) = CallExpr f args sep ord"
  by (auto simp: call_parts_def foldl_arguments new_call_def call_expr_def split: option.splits)

lemma parts_ok_arguments: "(\<forall>a \<in> set args. parses B (d + 1) a) \<Longrightarrow> parts_ok B d c (map ArgumentPart args)"
  by (induction args arbitrary: c) auto

lemma parts_ok_call:
  "call_options_ok f sep ord \<Longrightarrow> (\<forall>a \<in> set args. parses B (d + 1) a) \<Longrightarrow>
   parts_ok B d (new_call f) (call_parts args sep ord)"
  by (auto simp: call_parts_def call_options_ok_def new_call_def parts_ok_arguments
      split: option.splits)

lemma expr_first_token: "\<exists>t ts. piece_tokens (expr_pieces B e) = t # ts \<and> t \<noteq> RightParen"
  by (cases e) simp_all

lemma parts_first_token:
  "join_with [Comma] (map (part_tokens B) (q # qs)) @ ts \<noteq> RightParen # us"
proof -
  have "\<exists>t r. part_tokens B q = t # r \<and> t \<noteq> RightParen"
    using expr_first_token by (cases q) auto
  then show ?thesis by (cases qs) auto
qed

lemma parses_path:
  assumes "supported_path q" and "d \<le> max_depth"
  shows "parses B d (PathExpr q)"
  unfolding parses_def
proof (intro allI impI)
  fix n p ts
  assume t: "toks p = piece_tokens (expr_pieces B (PathExpr q)) @ ts" and ts: "stops ts"
    and nodes: "ps_nodes p + expr_nodes (PathExpr q) \<le> max_nodes"
    and "4 * length (toks p) + 1 \<le> n"
  then obtain m where n: "n = Suc m" by (cases n) auto
  let ?segs = "piece_tokens (concat (map (segment_pieces B) (path_segments q))) @ ts"
  from nodes have "ps_nodes p < max_nodes" by simp
  then obtain p1 where p1: "count_node p = Ok p1" "toks p1 = toks p" "ps_nodes p1 = ps_nodes p + 1"
    by (rule count_node_toks)
  from t p1(2) have "toks p1 = Identifier (lit (root_as_str (path_root q))) # ?segs" by simp
  then obtain off p2 where
    p2: "next_token p1 = (Some (Spanned (Identifier (lit (root_as_str (path_root q)))) off), p2)"
    "toks p2 = ?segs" "ps_nodes p2 = ps_nodes p1"
    by (rule toks_Cons)
  have "\<not> peek_is p2 LeftParen"
  proof (cases "path_segments q")
    case Nil
    with p2(2) ts show ?thesis by (auto simp: peek_is_toks stops_def split: list.splits)
  next
    case (Cons s segs)
    with p2(2) show ?thesis by (cases s) (auto simp: peek_is_toks)
  qed
  moreover from path_loop_segments [OF p2(2) ts, of "[]"] nodes p1(3) p2(3) obtain p3 where
    "path_loop p2 [] = Ok (path_segments q, p3)" "toks p3 = ts"
    "ps_nodes p3 = ps_nodes p + expr_nodes (PathExpr q)"
    by auto
  moreover have "supported_path \<lparr>path_root = path_root q, path_segments = path_segments q\<rparr>"
    using assms(1) by (cases q) simp
  ultimately show "\<exists>p'. parse_expression n d p = Some (Ok (PathExpr q, p')) \<and> toks p' = ts \<and>
      ps_nodes p' = ps_nodes p + expr_nodes (PathExpr q)"
    using n p1(1) p2(1) assms by (simp add: parse_path_def validate_path_def Let_def)
qed

lemma parses_call:
  assumes "wf_expr (CallExpr f args sep ord)" and "d \<le> max_depth"
    and "\<forall>a \<in> set args. parses B (d + 1) a"
  shows "parses B d (CallExpr f args sep ord)"
  unfolding parses_def
proof (intro allI impI)
  let ?e = "CallExpr f args sep ord"
  fix n p ts
  assume t: "toks p = piece_tokens (expr_pieces B ?e) @ ts" and ts: "stops ts"
    and nodes: "ps_nodes p + expr_nodes ?e \<le> max_nodes"
    and fuel: "4 * length (toks p) + 1 \<le> n"
  obtain m where n: "n = Suc (Suc m)"
    using t fuel by (cases n; cases "n - 1") auto
  have "args \<noteq> []" using assms(1) by (auto simp: arity_ok_def func_arity_def split: if_splits)
  then obtain q qs where parts: "call_parts args sep ord = q # qs"
    by (cases "call_parts args sep ord") (auto simp: call_parts_def)
  let ?inner = "join_with [Comma] (map (part_tokens B) (q # qs)) @ RightParen # ts"
  from nodes have "ps_nodes p < max_nodes" by simp
  then obtain p1 where p1: "count_node p = Ok p1" "toks p1 = toks p" "ps_nodes p1 = ps_nodes p + 1"
    by (rule count_node_toks)
  have t1: "toks p1 = Identifier (lit (func_name f)) # LeftParen # ?inner"
    using t p1(2) by (simp only: expr_pieces.simps piece_tokens_join piece_tokens_parts parts
        piece_tokens.simps piece_tokens_append append_Cons append_Nil append_assoc)
  then obtain off p2 where p2: "next_token p1 = (Some (Spanned (Identifier (lit (func_name f))) off), p2)"
    "toks p2 = LeftParen # ?inner" "ps_nodes p2 = ps_nodes p1"
    by (rule toks_Cons)
  from p2(2) obtain p3 where p3: "expect p2 LeftParen ''('' = Ok p3" "toks p3 = ?inner"
    "ps_nodes p3 = ps_nodes p2"
    by (rule expect_toks)
  have "toks p3 \<noteq> RightParen # x" for x
    using p3(2) parts_first_token [of B q qs] by auto
  then have np: "\<not> peek_is p3 RightParen" by (simp add: peek_is_toks)
  have ok: "parts_ok B d (new_call f) (q # qs)"
    using parts_ok_call [of f sep ord args B d] assms(1,3) parts by simp
  have "ps_nodes p3 + sum_list (map part_nodes (q # qs)) \<le> max_nodes"
    using nodes p1(3) p2(3) p3(3) sum_part_nodes [of args sep ord] parts by simp
  moreover have "4 * length (toks p3) + 3 \<le> m"
    using fuel n t1 p1(2) p3(2) by simp
  ultimately obtain p4 where p4:
    "parse_arguments m (new_call f) d p3 = Some (Ok (foldl apply_part (new_call f) (q # qs), p4))"
    "toks p4 = ts" "ps_nodes p4 = ps_nodes p + expr_nodes ?e"
    using parse_arguments_parts [OF p3(2) ok] p1(3) p2(3) p3(3) sum_part_nodes [of args sep ord] parts
    by auto
  let ?c = "foldl apply_part (new_call f) (q # qs)"
  have c: "call_expr ?c = ?e" using call_expr_parts [of f args sep ord] parts by simp
  then have "validate_call ?c off = Ok ()"
    using assms(1) by (auto simp: validate_call_Ok call_expr_def)
  with p1(1) p2(1,2) p3(1) np p4 n c assms(2)
  show "\<exists>p'. parse_expression n d p = Some (Ok (?e, p')) \<and> toks p' = ts \<and>
      ps_nodes p' = ps_nodes p + expr_nodes ?e"
    by (simp add: peek_is_toks)
qed

lemma parses_wf: "wf_expr e \<Longrightarrow> d + expr_depth e \<le> max_depth \<Longrightarrow> parses B d e"
proof (induction e arbitrary: d)
  case (Literal v)
  show ?case unfolding parses_def
  proof (intro allI impI)
    fix n p ts
    assume "toks p = piece_tokens (expr_pieces B (Literal v)) @ ts"
      and "ps_nodes p + expr_nodes (Literal v) \<le> max_nodes" and "4 * length (toks p) + 1 \<le> n"
    then have t: "toks p = Text v # ts" and room: "ps_nodes p < max_nodes" and "n \<noteq> 0" by simp_all
    from room obtain p1 where p1: "count_node p = Ok p1" "toks p1 = toks p"
      "ps_nodes p1 = ps_nodes p + 1"
      by (rule count_node_toks)
    from p1(2) t obtain off p2 where "next_token p1 = (Some (Spanned (Text v) off), p2)"
      "toks p2 = ts" "ps_nodes p2 = ps_nodes p1"
      using toks_Cons [of p1 "Text v" ts thesis] by simp
    with p1 \<open>n \<noteq> 0\<close> Literal show "\<exists>p'. parse_expression n d p = Some (Ok (Literal v, p')) \<and>
        toks p' = ts \<and> ps_nodes p' = ps_nodes p + expr_nodes (Literal v)"
      by (cases n) auto
  qed
next
  case (PathExpr q)
  then show ?case by (auto intro: parses_path)
next
  case (CallExpr f args sep ord)
  then have d: "d \<le> max_depth" by simp
  have "parses B (d + 1) a" if "a \<in> set args" for a
    using CallExpr that expr_depth_call_add [OF d, of f args sep ord]
    by (auto simp: list_all_iff)
  with CallExpr.prems(1) d show ?case by (auto intro: parses_call)
qed

lemma parse_pieces:
  assumes "bare_names B" and "wf_expr e" and "printable e" and "expr_depth e \<le> max_depth"
    and "expr_nodes e \<le> max_nodes"
    and "str_len (pieces_text (expr_pieces B e)) \<le> max_expression_bytes"
  shows "parse (pieces_text (expr_pieces B e)) = Ok e"
proof -
  let ?source = "pieces_text (expr_pieces B e)"
  obtain ts where ts: "tokenize ?source = Ok ts" "map sp_token ts = piece_tokens (expr_pieces B e)"
    using tokenize_printed assms by blast
  let ?p = "initial_parser ?source ts"
  have "toks ?p = piece_tokens (expr_pieces B e) @ []" "ps_nodes ?p = 0" "length (toks ?p) = length ts"
    using ts(2) by (simp_all add: toks_def remaining_def initial_parser_def flip: ts(2))
  moreover have "stops []" by (simp add: stops_def)
  ultimately obtain p' where p':
    "parse_expression (4 * length ts + 1) 0 ?p = Some (Ok (e, p'))" "toks p' = []"
    using parses_wf [of e 0 B] assms unfolding parses_def by (metis add.left_neutral order_refl)
  have "peek p' = None" using p'(2) by (simp add: toks_def peek_remaining)
  with p'(1) ts(1) have "run_parser ?source = Some (Ok e)"
    by (simp add: run_parser_def del: parse_expression.simps)
  then show ?thesis by (simp add: parse_def)
qed

lemma parse_print:
  assumes "wf_expr e" and "printable e" and "expr_depth e \<le> max_depth"
    and "expr_nodes e \<le> max_nodes" and "str_len (expr_text e) \<le> max_expression_bytes"
  shows "parse (expr_text e) = Ok e"
  using parse_pieces [of is_bare_identifier e] assms by (simp add: expr_text_pieces bare_names_def)

section \<open>Properties\<close>

text \<open>C8: printing a well-formed expression and parsing the text gives the same expression back,
  whenever the expression is within the parser's limits (32 levels, 512 nodes, 4096 bytes) and
  its literals and keys hold no control character other than tab, newline and return.\<close>

theorem print_then_parse:
  assumes "wf_expr e" and "printable e" and "expr_depth e \<le> max_depth"
    and "expr_nodes e \<le> max_nodes" and "str_len (expr_text e) \<le> max_expression_bytes"
  shows "parse (expr_text e) = Ok e"
  using assms by (rule parse_print)

definition example_expr :: expr where
  "example_expr =
     CallExpr Join
       [PathExpr \<lparr>path_root = RequestRoot, path_segments = [Key (lit ''headers''), Key (lit ''x id'')]\<rparr>,
        CallExpr Sort [Literal (lit ''a'')] None (Some Descending)]
       (Some (lit ''.'')) None"

lemma example_expr_text:
  "expr_text example_expr =
   lit ''join(separator: '' @ quote (lit ''.'') @ lit '', request.headers['' @ quote (lit ''x id'') @
   lit ''], sort(order: desc, '' @ quote (lit ''a'') @ lit ''))''"
  by (simp add: example_expr_def path_text_def comma_space_def lit_def identifier_defs)

lemma print_then_parse_witness:
  "parse (expr_text example_expr) = Ok example_expr"
proof (rule print_then_parse)
  show "wf_expr example_expr"
    by (simp add: example_expr_def arity_ok_def func_arity_def usize_max_def call_options_ok_def
        accepts_separator_def accepts_order_def requires_separator_def supported_path_def
        first_segment_def request_blocks_def separators_def)
  show "printable example_expr"
    by (simp add: example_expr_def lit_def quotable_def is_control_def)
  show "expr_depth example_expr \<le> max_depth" "expr_nodes example_expr \<le> max_nodes"
    by (simp_all add: example_expr_def max_depth_def max_nodes_def)
  show "str_len (expr_text example_expr) \<le> max_expression_bytes"
    unfolding example_expr_text
    by (simp add: lit_def quote_def quote_char_def str_len_Cons utf8_char_def max_expression_bytes_def)
qed

text \<open>A source that parses is well-formed (every block exists, arities and options fit the
  functions), nests at most 32 levels, has at most 512 nodes and at most 4096 bytes.\<close>

theorem parse_guarantees:
  assumes "parse source = Ok e"
  shows "wf_expr e \<and> expr_depth e \<le> max_depth \<and> expr_nodes e \<le> max_nodes \<and>
    str_len source \<le> max_expression_bytes"
  using parse_Ok [OF assms] by blast

lemma parse_guarantees_witness:
  "wf_expr (Literal [122]) \<and> expr_depth (Literal [122]) \<le> max_depth \<and>
   expr_nodes (Literal [122]) \<le> max_nodes \<and> str_len (expr_text (Literal [122])) \<le> max_expression_bytes"
proof (rule parse_guarantees)
  show "parse (expr_text (Literal [122])) = Ok (Literal [122])"
    by (rule parse_print)
      (simp_all add: quotable_def is_control_def max_nodes_def quote_def quote_char_def
        str_len_Cons utf8_char_def max_expression_bytes_def)
qed

text \<open>C32: parsing always returns: the recursive-descent methods never exhaust the fuel that the
  number of tokens gives them.\<close>

theorem parse_always_returns: "run_parser source = Some (parse source)"
  by (rule run_parser_parse)

end
