(* ===== verification/EvalProps.thy ===== *)
theory EvalProps
  imports EvalFacts RoundTrip
begin

text \<open>
  The properties of expression evaluation: well-formed values throughout, sorting, canonical
  forms, decoding after encoding, and the guarantees about headers and payloads that signature
  verification rests on.
\<close>

section \<open>Well-formed values\<close>

fun valid_expr :: "expr \<Rightarrow> bool" where
  "valid_expr (Literal t) = valid_text t"
| "valid_expr (PathExpr p) = True"
| "valid_expr (CallExpr f args sep ord) \<longleftrightarrow>
     list_all valid_expr args \<and> (case sep of None \<Rightarrow> True | Some s \<Rightarrow> valid_text s)"

definition valid_captured :: "'u captured \<Rightarrow> bool" where
  "valid_captured r \<longleftrightarrow>
     valid_text (cap_method r) \<and> valid_pairs (cap_headers r) \<and>
     (\<forall>ps. cap_multipart r = Some ps \<longrightarrow> (\<forall>p \<in> set ps. valid_text (part_name p))) \<and>
     (\<forall>j. cap_json r = Some (Some j) \<longrightarrow> wf_json j) \<and>
     (\<forall>f. cap_form r = Some (Some f) \<longrightarrow> valid_pairs f)"

definition valid_context :: "'u eval_context \<Rightarrow> bool" where
  "valid_context ctx \<longleftrightarrow>
     valid_captured (ctx_request ctx) \<and> valid_text (ctx_hook_id ctx) \<and> valid_text (ctx_hook_url ctx)"

lemma wf_pairs_object: "valid_pairs ps \<Longrightarrow> wf_value (pairs_object ps)"
  by (auto simp: pairs_object_def valid_pairs_def list_all_iff)

lemma wf_headers_object: "valid_pairs (cap_headers r) \<Longrightarrow> wf_value (headers_object r)"
proof -
  have add: "wf_value (VObject (add_header ms n v))"
    if "wf_value (VObject ms)" "valid_text n" "valid_text v" for ms n v
    using that by (induction ms n v rule: add_header.induct) (auto split: evalue.splits)
  have "wf_value (VObject (foldl (\<lambda>ms (n, v). add_header ms n v) ms hs))"
    if "wf_value (VObject ms)" "valid_pairs hs" for ms hs
    using that
  proof (induction hs arbitrary: ms)
    case (Cons h hs)
    obtain n v where h: "h = (n, v)" by force
    with Cons add [of ms n v] show ?case by (auto simp: valid_pairs_def)
  qed simp
  then show "valid_pairs (cap_headers r) \<Longrightarrow> wf_value (headers_object r)"
    by (simp add: headers_object_def)
qed

lemma valid_cookies: "valid_pairs (cap_headers r) \<Longrightarrow> valid_pairs (cookies r)"
proof -
  assume v: "valid_pairs (cap_headers r)"
  have "valid_text a \<and> valid_text b" if "(a, b) \<in> set (cookies r)" for a b
  proof -
    from that obtain h w x y where h: "h \<in> set (cap_headers r)"
      "w \<in> set (split_on (\<lambda>c. c = 59) (snd h))" "split_once 61 w = Some (x, y)" "a = trim x" "b = trim y"
      by (auto simp: cookies_def map_filter_def)
    from h(1) v have "valid_text (snd h)" by (auto simp: valid_pairs_def list_all_iff)
    then have "valid_text w" using h(2) by (rule valid_text_split_on)
    with h(3) have "valid_text x" "valid_text y" by (auto simp: split_once_Some)
    with h(4,5) show ?thesis by (simp add: valid_text_trim)
  qed
  then show ?thesis by (auto simp: valid_pairs_def list_all_iff)
qed

lemma wf_block_value:
  assumes "crates_return_text cr" and "valid_captured r" and "block_value cr p block r = Ok v"
  shows "wf_value v"
proof -
  have json: "wf_json j" if "body_json cr r = Some j" for j
    using that assms(1,2) by (auto simp: body_json_def parsed_json_def valid_captured_def
        crates_return_text_def split: option.splits)
  have form: "valid_pairs f" if "form cr r = Some f" for f
    using that assms(1,2) by (auto simp: form_def parsed_form_def valid_captured_def
        crates_return_text_def split: option.splits if_splits)
  have host: "valid_text (authority cr r)" "valid_text (hostname cr r)" "valid_text (query_string cr r)"
    using assms(1) by (auto simp: authority_def hostname_def query_string_def crates_return_text_def
        Let_def split: option.splits)
  have part: "wf_value (part_value q)" for q
    by (auto simp: part_value_def split: option.splits dest: from_utf8_Some)
  have vtext: "\<And>t. body_text r = Some t \<Longrightarrow> valid_text t"
    by (auto simp: body_text_def dest: from_utf8_Some)
  have rest: "valid_pairs (query_pairs cr r)" "valid_text (cr_url_text cr (cap_url r))"
    "valid_text (cr_url_scheme cr (cap_url r))" "valid_text (cr_url_path cr (cap_url r))"
    "valid_text (cap_method r)" "valid_pairs (cap_headers r)"
    "\<And>ps q. cap_multipart r = Some ps \<Longrightarrow> q \<in> set ps \<Longrightarrow> valid_text (part_name q)"
    using assms(1,2) by (auto simp: crates_return_text_def valid_captured_def query_pairs_def)
  show ?thesis
    using assms(3) json form host part vtext rest
    by (auto simp: block_value_def result_simps wf_from_json wf_pairs_object wf_headers_object
        valid_cookies list_all_iff split: if_splits option.splits)
qed

lemma wf_base_value:
  assumes "crates_return_text cr" and "valid_context ctx" and "base_value cr p ctx = Ok (v, rest)"
  shows "wf_value v"
  using assms
  by (auto simp: base_value_def request_block_def hook_block_def key_block_def valid_context_def
      result_simps wf_block_value split: root.splits list.splits segment.splits if_splits option.splits)

lemma wf_index_into: "index_into v ss p lower = Ok w \<Longrightarrow> wf_value v \<Longrightarrow> wf_value w"
  by (induction v ss p lower rule: index_into.induct)
    (auto split: option.splits segment.splits dest: wf_member wf_element)

lemma wf_flatten: "list_all wf_value vs \<Longrightarrow> list_all wf_value (flatten vs)"
  by (fastforce simp: flatten_def list_all_iff split: evalue.splits)

lemma wf_single: "list_all wf_value vs \<Longrightarrow> wf_value (single vs)"
  by (auto simp: single_def list_all_iff)

lemma wf_separated:
  assumes "list_all2 (\<lambda>v bs. into_bytes v = Ok bs) vs bss" and "list_all wf_value vs"
    and "\<not> list_ex is_bytes vs" and "case sep of None \<Rightarrow> True | Some s \<Rightarrow> valid_text s"
  shows "\<exists>t. valid_text t \<and> separated sep bss = utf8 t"
proof -
  have "list_all (\<lambda>bs. \<exists>t. valid_text t \<and> bs = utf8 t) bss"
    using assms(1-3)
    by (induction rule: list_all2_induct) (auto dest: wf_into_bytes)
  then have "\<exists>ts. bss = map utf8 ts \<and> (\<forall>t \<in> set ts. valid_text t)"
  proof (induction bss)
    case (Cons bs bss)
    then obtain t ts where "bs = utf8 t" "valid_text t" "bss = map utf8 ts" "\<forall>t \<in> set ts. valid_text t"
      by auto
    then show ?case by (intro exI [of _ "t # ts"]) simp
  qed simp
  then obtain ts where ts: "bss = map utf8 ts" "\<forall>t \<in> set ts. valid_text t" by blast
  obtain s where s: "(case sep of None \<Rightarrow> [] | Some s \<Rightarrow> utf8 s) = utf8 s" "valid_text s"
    using assms(4) by (cases sep) (auto intro: that [of "[]"])
  have "join_with (utf8 s) (map utf8 ts) = utf8 (join_with s ts)"
    by (induction s ts rule: join_with.induct) auto
  with ts s show ?thesis by (auto simp: separated_def intro!: exI [of _ "join_with s ts"] valid_text_join_with)
qed

lemma concatenate_not_InvalidUtf8:
  assumes "list_all wf_value vs" and "case sep of None \<Rightarrow> True | Some s \<Rightarrow> valid_text s"
  shows "concatenate f vs sep \<noteq> Err (InvalidUtf8 n)"
proof
  assume *: "concatenate f vs sep = Err (InvalidUtf8 n)"
  have "concat_loop f sep i us out \<noteq> Err (InvalidUtf8 n)" for i us out
    by (induction f sep i us out rule: concat_loop.induct)
      (auto simp: Let_def arg_bytes_def result_simps split: result.splits dest!: into_bytes_Err)
  with * obtain out where out: "concat_loop f sep 0 vs [] = Ok out" "\<not> list_ex is_bytes vs"
    "from_utf8 out = None"
    by (auto simp: concatenate_def Let_def result_simps split: result.splits if_splits)
  from concat_loop_Ok [OF out(1)] obtain bss where
    b: "list_all2 (\<lambda>x bs. into_bytes x = Ok bs) vs bss" "out = separated sep bss"
    by auto
  from wf_separated [OF b(1) assms(1) out(2) assms(2)] b(2) out(3) show False by auto
qed

lemma wf_concatenate:
  "list_all wf_value vs \<Longrightarrow> concatenate f vs sep = Ok v \<Longrightarrow> wf_value v"
  by (auto simp: concatenate_def Let_def result_simps split: if_splits result.splits
      dest: from_utf8_Some)

lemma wf_sort_values: "wf_value v \<Longrightarrow> sort_values f v d = Ok w \<Longrightarrow> wf_value w"
proof -
  assume v: "wf_value v" and "sort_values f v d = Ok w"
  then obtain vs keyed where vs: "v = VList vs" and
    k: "list_all2 (\<lambda>x y. \<exists>a. scalar_bytes x = Ok a \<and> y = (a, x)) vs keyed" and
    w: "w = VList (map snd (sort_by (\<lambda>l r. ordered (cmp_list (fst l) (fst r)) d) keyed))"
    by (cases v) (auto simp: sort_values_def result_simps split: result.splits)
  from k have "map snd keyed = vs" by (induction rule: list_all2_induct) auto
  then have "snd ` set keyed = set vs" by force
  with v vs w show ?thesis by (auto simp: list_all_iff)
qed

lemma crates_text:
  assumes "crates_return_text cr"
  shows "valid_text (cr_form_serialize cr ps)" "valid_text (cr_url_text cr u)"
    "valid_text (cr_percent_encode cr P t)" "valid_text (cr_form_byte_serialize cr bs)"
    "valid_text (cr_lowercase cr t)" "valid_text (cr_uppercase cr t)"
    "valid_text (cr_hex_encode cr bs)" "valid_text (cr_base64_encode cr en bs)"
    "cr_json_text cr j = Some t \<Longrightarrow> valid_text t"
  using assms by (simp_all add: crates_return_text_def)

lemma wf_decode_utf8: "decode_utf8 f bs = Ok v \<Longrightarrow> wf_value v"
  by (auto simp: decode_utf8_def result_simps dest: from_utf8_Some)

lemma wf_text_function:
  "crates_return_text cr \<Longrightarrow> wf_value x \<Longrightarrow> text_function cr f x = Ok v \<Longrightarrow> wf_value v"
  by (auto simp: text_function_def result_simps arg_text_Ok crates_text valid_text_trim wf_into_text
      split: func.split)

lemma wf_canonicalize_url:
  "crates_return_text cr \<Longrightarrow> canonicalize_url cr f t = Ok v \<Longrightarrow> wf_value v"
  by (auto simp: canonicalize_url_def Let_def crates_text split: option.splits)

lemma wf_url_function: "crates_return_text cr \<Longrightarrow> url_function cr f x = Ok v \<Longrightarrow> wf_value v"
  by (cases f) (auto simp: url_function_def result_simps crates_text wf_decode_utf8 wf_canonicalize_url)

lemma wf_digest: "digest cr f x = Ok v \<Longrightarrow> wf_value v"
  by (auto simp: digest_def result_simps)

lemma wf_encoding_function:
  "crates_return_text cr \<Longrightarrow> encoding_function cr f x = Ok v \<Longrightarrow> wf_value v"
  by (cases f) (auto simp: encoding_function_def Let_def result_simps crates_text)

lemma wf_json_encode: "crates_return_text cr \<Longrightarrow> json_encode cr f x = Ok v \<Longrightarrow> wf_value v"
  by (auto simp: json_encode_def result_simps crates_text split: result.splits)

lemma wf_sort_keys: "wf_value x \<Longrightarrow> sort_keys f x d = Ok v \<Longrightarrow> wf_value v"
  by (cases x) (auto simp: sort_keys_def result_simps list_all_iff)

lemma wf_ascii:
  "wf_value x \<Longrightarrow>
   and_then (arg_text f x) (\<lambda>t. if all_ascii t then Ok (VText t) else Err e) = Ok v \<Longrightarrow> wf_value v"
  by (auto simp: result_simps arg_text_Ok wf_into_text split: if_splits)

lemma wf_apply_function:
  assumes "crates_return_text cr" and "list_all wf_value vs"
    and "apply_function cr f vs sep ord = Ok v"
  shows "wf_value v"
proof -
  note args = wf_single [OF assms(2)] assms(2) wf_flatten [OF assms(2)] assms(1)
  from assms(3) args show ?thesis
    by (cases f) (auto simp: apply_function_def
        intro: wf_concatenate wf_sort_values wf_sort_keys wf_text_function wf_ascii
          wf_url_function wf_json_encode wf_digest wf_encoding_function)
qed

lemma list_all2_witness: "list_all2 P xs ys \<Longrightarrow> y \<in> set ys \<Longrightarrow> \<exists>x \<in> set xs. P x y"
  by (induction rule: list_all2_induct) auto

lemma wf_evaluate:
  "crates_return_text cr \<Longrightarrow> valid_context ctx \<Longrightarrow> valid_expr e \<Longrightarrow> evaluate cr e ctx = Ok v \<Longrightarrow> wf_value v"
proof (induction e arbitrary: v)
  case (Literal t)
  then show ?case by auto
next
  case (PathExpr p)
  then show ?case
    by (auto simp: evaluate_path_def split: result.splits intro: wf_index_into wf_base_value)
next
  case (CallExpr f args sep ord)
  from CallExpr.prems obtain vs where vs: "list_all2 (\<lambda>a v. evaluate cr a ctx = Ok v) args vs"
    "apply_function cr f vs sep ord = Ok v"
    by (auto simp: result_simps split: result.splits)
  have "wf_value x" if "x \<in> set vs" for x
  proof -
    from list_all2_witness [OF vs(1) that] obtain a where "a \<in> set args" "evaluate cr a ctx = Ok x"
      by blast
    with CallExpr.IH [of a x] CallExpr.prems show ?thesis by (simp add: list_all_iff)
  qed
  then have "list_all wf_value vs" by (simp add: list_all_iff)
  from wf_apply_function [OF CallExpr.prems(1) this vs(2)] show ?case .
qed

section \<open>Sorting and canonical forms\<close>

lemma ordered_lawful: "lawful_cmp cmp \<Longrightarrow> lawful_cmp (\<lambda>x y. ordered (cmp x y) d)"
  by (cases d) (simp_all add: lawful_cmp_reverse)

lemma lawful_cmp_text: "lawful_cmp cmp_text"
  unfolding cmp_text_def by (rule lawful_cmp_list)

lemma sort_values_Ok:
  assumes "sort_values f (VList vs) d = Ok w"
  shows "\<exists>ws. w = VList ws \<and> mset ws = mset vs \<and>
    sorted_wrt (\<lambda>x y. \<exists>a b. into_bytes x = Ok a \<and> into_bytes y = Ok b \<and>
      ordered (cmp_list a b) d \<noteq> Greater) ws \<and>
    (\<forall>bs. filter (\<lambda>x. into_bytes x = Ok bs) ws = filter (\<lambda>x. into_bytes x = Ok bs) vs)"
proof -
  let ?cmp = "\<lambda>l r. ordered (cmp_list (fst l) (fst r)) d"
  from assms obtain keyed where k: "list_all2 (\<lambda>x y. \<exists>a. into_bytes x = Ok a \<and> y = (a, x)) vs keyed"
    and w: "w = VList (map snd (sort_by ?cmp keyed))"
    by (auto simp: sort_values_def result_simps scalar_bytes_into_bytes split: result.splits)
  from k have vs: "map snd keyed = vs" and key: "\<forall>y \<in> set keyed. into_bytes (snd y) = Ok (fst y)"
    by (induction rule: list_all2_induct) auto
  have law: "lawful_cmp ?cmp" by (rule ordered_lawful [OF lawful_cmp_list])
  have "sorted_by ?cmp (sort_by ?cmp keyed)" by (rule sorted_sort_by [OF law])
  then have "sorted_wrt (\<lambda>l r. ?cmp l r \<noteq> Greater) (sort_by ?cmp keyed)" by (simp add: sorted_by_def)
  then have "sorted_wrt (\<lambda>l r. \<exists>a b. into_bytes (snd l) = Ok a \<and> into_bytes (snd r) = Ok b \<and>
      ordered (cmp_list a b) d \<noteq> Greater) (sort_by ?cmp keyed)"
    by (rule sorted_wrt_mono_rel [rotated]) (use key in auto)
  then have sorted: "sorted_wrt (\<lambda>x y. \<exists>a b. into_bytes x = Ok a \<and> into_bytes y = Ok b \<and>
      ordered (cmp_list a b) d \<noteq> Greater) (map snd (sort_by ?cmp keyed))"
    by (simp add: sorted_wrt_map)
  have stable: "filter (\<lambda>x. into_bytes x = Ok bs) (map snd (sort_by ?cmp keyed)) =
      filter (\<lambda>x. into_bytes x = Ok bs) vs" for bs
  proof -
    have eq: "filter (\<lambda>x. into_bytes x = Ok bs) (map snd ks) = map snd (filter (\<lambda>y. fst y = bs) ks)"
      if "set ks \<subseteq> set keyed" for ks
      using that key by (induction ks) auto
    have "?cmp l r = Equal" if "fst l = bs" "fst r = bs" for l r
      using that by (cases d) simp_all
    then have "filter (\<lambda>y. fst y = bs) (sort_by ?cmp keyed) = filter (\<lambda>y. fst y = bs) keyed"
      by (rule sort_by_stable)
    then show ?thesis using eq [of "sort_by ?cmp keyed"] eq [of keyed] vs by simp
  qed
  have "mset (map snd (sort_by ?cmp keyed)) = mset vs"
    unfolding vs [symmetric] by (simp only: mset_map mset_sort_by)
  with w sorted stable show ?thesis by (intro exI [of _ "map snd (sort_by ?cmp keyed)"] conjI allI)
qed

lemma to_json_Err: "to_json v = Err e \<Longrightarrow> e = ValueInvalidUtf8"
proof (induction v arbitrary: e)
  case (VList xs)
  then show ?case by (auto simp: result_simps dest!: collect_map_Err)
next
  case (VObject ms)
  then show ?case
    by (auto simp: result_simps dest!: collect_map_Err)
qed (auto simp: result_simps)

lemma collect_map_cases:
  assumes "\<And>x e. x \<in> set xs \<Longrightarrow> f x = Err e \<Longrightarrow> e = e0"
  shows "collect_map f xs = (if \<exists>x \<in> set xs. f x = Err e0 then Err e0
    else Ok (map (\<lambda>x. case f x of Ok y \<Rightarrow> y) xs))"
  using assms
proof (induction xs)
  case (Cons x xs)
  have IH: "collect_map f xs = (if \<exists>x \<in> set xs. f x = Err e0 then Err e0
    else Ok (map (\<lambda>x. case f x of Ok y \<Rightarrow> y) xs))"
    by (rule Cons.IH) (meson Cons.prems list.set_intros(2))
  show ?case
  proof (cases "f x")
    case (Ok y)
    then show ?thesis by (simp add: IH)
  next
    case (Err e)
    with Cons.prems [of x e] show ?thesis by simp
  qed
qed simp

lemma to_json_permute:
  assumes "mset ms = mset ms'" and "distinct (map fst ms)" and "\<forall>m \<in> set ms. valid_text (fst m)"
  shows "to_json (VObject ms) = to_json (VObject ms')"
proof -
  let ?f = "\<lambda>kx. map_ok (\<lambda>j. (fst kx, j)) (to_json (snd kx))"
  let ?g = "\<lambda>kx. case ?f kx of Ok y \<Rightarrow> y"
  have err: "e = ValueInvalidUtf8" if "?f x = Err e" for x e
    using that by (auto simp: result_simps dest: to_json_Err)
  have s: "set ms = set ms'" using assms(1) by (metis set_mset_mset)
  have c: "collect_map ?f xs = (if \<exists>x \<in> set xs. ?f x = Err ValueInvalidUtf8 then Err ValueInvalidUtf8
      else Ok (map ?g xs))" for xs
    by (rule collect_map_cases) (rule err)
  show ?thesis
  proof (cases "\<exists>x \<in> set ms. ?f x = Err ValueInvalidUtf8")
    case True
    with s c [of ms] c [of ms'] show ?thesis by simp
  next
    case False
    have key: "fst (?g x) = fst x" if "x \<in> set ms" for x
      using that False err by (cases "?f x") (auto simp: result_simps)
    have "map fst (map ?g ms) = map fst ms" using key by simp
    then have d: "distinct (map fst (map ?g ms))" using assms(2) by (simp only:)
    have "list_all (\<lambda>kj. valid_text (fst kj)) (map ?g ms)"
      using key assms(3) by (auto simp: list_all_iff)
    from foldl_insert_permute [OF _ d this, of "map ?g ms'"] assms(1)
    have "foldl (\<lambda>m (k, j). btree_insert k j m) [] (map ?g ms) =
          foldl (\<lambda>m (k, j). btree_insert k j m) [] (map ?g ms')"
      by simp
    with False s c [of ms] c [of ms'] show ?thesis by simp
  qed
qed

lemma cmp_pair_Equal:
  "valid_text (fst x) \<and> valid_text (snd x) \<Longrightarrow> valid_text (fst y) \<and> valid_text (snd y) \<Longrightarrow>
   cmp_pair x y = Equal \<Longrightarrow> x = y"
  by (cases x; cases y) (auto simp: cmp_pair_def cmp_text_Equal split: ordering.splits)

lemma lawful_cmp_pair: "lawful_cmp cmp_pair"
  unfolding lawful_cmp_def
proof (intro conjI allI impI)
  fix x y
  show "cmp_pair y x = reverse_ordering (cmp_pair x y)"
    using cmp_text_flip [of "fst x" "fst y"] cmp_text_flip [of "snd x" "snd y"]
    by (auto simp: cmp_pair_def split: ordering.splits)
next
  fix x y z
  have le: "cmp_text a b \<noteq> Greater \<Longrightarrow> cmp_text b c \<noteq> Greater \<Longrightarrow> cmp_text a c \<noteq> Greater" for a b c
    using lawful_cmp_text unfolding lawful_cmp_def by blast
  have eq: "cmp_text a b = Equal \<longleftrightarrow> utf8 a = utf8 b" for a b by (simp add: cmp_text_def)
  assume "cmp_pair x y \<noteq> Greater" and "cmp_pair y z \<noteq> Greater"
  then show "cmp_pair x z \<noteq> Greater"
    using le [of "fst x" "fst y" "fst z"] le [of "snd x" "snd y" "snd z"]
      cmp_text_trans [of "fst x" "fst y" "fst z"]
    by (auto simp: cmp_pair_def eq split: ordering.splits) (auto simp: cmp_text_def)
qed

section \<open>Properties\<close>

definition demo_context :: "(ustring \<times> pairs) eval_context" where
  "demo_context =
     \<lparr>ctx_request = demo_request (utf8 (lit ''ping'')), ctx_hook_id = lit ''hook'',
      ctx_hook_url = lit ''https://hook/'', ctx_secret = None, ctx_public_key = None\<rparr>"

text \<open>Evaluating an expression that was parsed fails only for reasons in the request: a function
  got a value it cannot use, the body is not of the kind a block needs, or a path goes into a
  scalar. No block is unsupported, and no error reports an empty path.\<close>

theorem parsed_expressions_are_supported:
  assumes "parse source = Ok e" and "evaluate cr e ctx = Err err"
  shows "function_error err \<or> err \<in> {BodyNotJson, BodyNotForm, BodyNotMultipart, BodyNotText} \<or>
    (\<exists>t. err = NotIndexable t)"
  using evaluate_Err [OF parse_Ok(1) [OF assms(1)] assms(2)] by (auto simp: body_error_def)

definition hex_secret :: expr where
  "hex_secret = CallExpr Hex [PathExpr \<lparr>path_root = SecretRoot, path_segments = []\<rparr>] None None"

lemma parse_hex_secret: "parse (expr_text hex_secret) = Ok hex_secret"
  by (rule parse_print)
    (simp_all add: hex_secret_def arity_ok_def func_arity_def usize_max_def call_options_ok_def
      requires_separator_def supported_path_def max_depth_def max_nodes_def path_text_def
      max_expression_bytes_def lit_def str_len_Cons utf8_char_def)

lemma parsed_expressions_are_supported_witness:
  "function_error (MissingArgument ''hex'') \<or>
   MissingArgument ''hex'' \<in> {BodyNotJson, BodyNotForm, BodyNotMultipart, BodyNotText} \<or>
   (\<exists>t. MissingArgument ''hex'' = NotIndexable t)"
proof (rule parsed_expressions_are_supported [OF parse_hex_secret])
  show "evaluate demo_crates hex_secret demo_context = Err (MissingArgument ''hex'')"
    by (simp add: hex_secret_def demo_context_def evaluate_path_def base_value_def apply_function_def
        single_def encoding_function_def arg_bytes_def is_header_block_def)
qed

text \<open>\<open>request.headers[k]\<close> is what \<open>CapturedRequest::header\<close> returns for \<open>k\<close> in any case:
  the fields of that name joined with comma and space, or null when there is none.\<close>

theorem header_block_is_header_lookup:
  "evaluate cr (PathExpr \<lparr>path_root = RequestRoot, path_segments = [Key (lit ''headers''), Key k]\<rparr>) ctx =
     Ok (case header (ctx_request ctx) k of None \<Rightarrow> VNull | Some v \<Rightarrow> VText v)"
  using evaluate_header [of cr k ctx] by (simp add: header_path_def)

text \<open>C28: a payload is never assembled from missing parts: when a header named among the arguments
  of \<open>concat\<close> or \<open>join\<close> is absent from the request, the call fails.\<close>

theorem missing_header_makes_payload_unavailable:
  assumes "header (ctx_request ctx) k = None" and "f = Concat \<or> f = Join"
    and "PathExpr \<lparr>path_root = RequestRoot, path_segments = [Key (lit ''headers''), Key k]\<rparr> \<in> set args"
  shows "\<not> is_ok (evaluate cr (CallExpr f args sep ord) ctx)"
proof
  assume "is_ok (evaluate cr (CallExpr f args sep ord) ctx)"
  then obtain v where v: "evaluate cr (CallExpr f args sep ord) ctx = Ok v"
    by (cases "evaluate cr (CallExpr f args sep ord) ctx") auto
  then obtain vs where vs: "list_all2 (\<lambda>a v. evaluate cr a ctx = Ok v) args vs"
    "apply_function cr f vs sep ord = Ok v"
    by (auto simp: result_simps split: result.splits)
  have "list_all2 (\<lambda>v a. evaluate cr a ctx = Ok v) vs args"
    using vs(1) by (simp add: list_all2_conv_all_nth)
  from list_all2_witness [OF this assms(3)] evaluate_header [of cr k ctx] assms(1)
  have null: "VNull \<in> set vs" by (auto simp: header_path_def)
  then have "VNull \<in> set (flatten vs)" by (force simp: flatten_def)
  with null vs(2) assms(2) show False
    by (auto simp: apply_function_def dest: concatenate_present)
qed

lemma missing_header_makes_payload_unavailable_witness:
  "\<not> is_ok (evaluate demo_crates
     (CallExpr Concat [Literal (lit ''v1.''),
        PathExpr \<lparr>path_root = RequestRoot, path_segments = [Key (lit ''headers''), Key (lit ''date'')]\<rparr>]
        None None) demo_context)"
  by (rule missing_header_makes_payload_unavailable [of _ "lit ''date''"])
    (simp_all add: demo_context_def demo_request_def header_def to_ascii_lowercase_def lit_def
      to_ascii_lower_def is_ascii_uppercase_def)

text \<open>When \<open>concat\<close> or \<open>join\<close> succeeds, the bytes of the result are exactly the bytes of the
  arguments (of their elements, for \<open>join\<close>), in order, with the separator between them.\<close>

theorem concatenation_is_exact:
  assumes "concatenate f vs sep = Ok v"
  shows "\<exists>bss. list_all2 (\<lambda>x bs. into_bytes x = Ok bs) vs bss \<and>
    into_bytes v = Ok (join_with (case sep of None \<Rightarrow> [] | Some s \<Rightarrow> utf8 s) bss)"
  using concatenate_Ok [OF assms] unfolding separated_def by blast

lemma concatenation_is_exact_witness:
  "\<exists>bss. list_all2 (\<lambda>x bs. into_bytes x = Ok bs) [VText (lit ''a''), VBytes [200]] bss \<and>
    into_bytes (VBytes (utf8 (lit ''a.'') @ [200])) =
      Ok (join_with (case Some (lit ''.'') of None \<Rightarrow> [] | Some s \<Rightarrow> utf8 s) bss)"
  by (rule concatenation_is_exact [of Join]) (simp add: concatenate_def arg_bytes_def lit_def utf8_Cons)

text \<open>C31: with valid inputs every evaluation result is well-formed, and concatenating texts never
  reports invalid UTF-8.\<close>

theorem evaluation_keeps_text_valid:
  assumes "crates_return_text cr" and "valid_context ctx" and "valid_expr e"
  shows "(\<forall>v. evaluate cr e ctx = Ok v \<longrightarrow> wf_value v) \<and>
    (\<forall>f args sep ord n. e = CallExpr f args sep ord \<longrightarrow> f = Concat \<or> f = Join \<longrightarrow>
       (\<forall>a \<in> set args. is_ok (evaluate cr a ctx)) \<longrightarrow> evaluate cr e ctx \<noteq> Err (InvalidUtf8 n))"
proof (intro conjI allI impI)
  show "wf_value v" if "evaluate cr e ctx = Ok v" for v
    using wf_evaluate [OF assms that] .
  fix f args sep ord n
  assume e: "e = CallExpr f args sep ord" and f: "f = Concat \<or> f = Join"
    and ok: "\<forall>a \<in> set args. is_ok (evaluate cr a ctx)"
  have sep: "case sep of None \<Rightarrow> True | Some s \<Rightarrow> valid_text s" using assms(3) e by simp
  have "collect_map (\<lambda>a. evaluate cr a ctx) args \<noteq> Err x" for x
    using ok by (auto dest!: collect_map_Err)
  then obtain vs where vs: "collect_map (\<lambda>a. evaluate cr a ctx) args = Ok vs"
    by (cases "collect_map (\<lambda>a. evaluate cr a ctx) args") auto
  have "wf_value x" if "x \<in> set vs" for x
  proof -
    from vs have "list_all2 (\<lambda>a v. evaluate cr a ctx = Ok v) args vs" by (simp add: result_simps)
    from list_all2_witness [OF this that] obtain a where a: "a \<in> set args" "evaluate cr a ctx = Ok x"
      by blast
    moreover from a(1) assms(3) e have "valid_expr a" by (simp add: list_all_iff)
    ultimately show ?thesis using wf_evaluate [OF assms(1,2)] by blast
  qed
  then have wf: "list_all wf_value vs" by (simp add: list_all_iff)
  show "evaluate cr e ctx \<noteq> Err (InvalidUtf8 n)"
    using f concatenate_not_InvalidUtf8 [OF wf, of None f n]
      concatenate_not_InvalidUtf8 [OF wf_flatten [OF wf] sep, of f n]
    by (auto simp: e vs apply_function_def)
qed

lemma demo_context_valid: "valid_context demo_context"
proof -
  have "valid_text (lit s)" for s by (rule valid_text_lit)
  then show ?thesis
    by (simp add: valid_context_def demo_context_def valid_captured_def demo_request_def valid_pairs_def)
qed

lemma evaluation_keeps_text_valid_witness:
  "wf_value (VText (lit ''ab''))"
proof -
  let ?e = "CallExpr Concat [Literal (lit ''a''), Literal (lit ''b'')] None None"
  have "utf8 (lit ''a'') @ utf8 (lit ''b'') = utf8 (lit ''ab'')"
    by (simp flip: lit_append utf8_append)
  then have "evaluate demo_crates ?e demo_context = Ok (VText (lit ''ab''))"
    by (simp add: apply_function_def concatenate_def arg_bytes_def)
  moreover have "valid_expr ?e" by simp
  ultimately show ?thesis
    using evaluation_keeps_text_valid [OF demo_returns_text demo_context_valid, of ?e] by blast
qed

text \<open>\<open>sort\<close> returns a permutation of its list, ordered by the bytes of the elements in the
  requested direction, with elements of equal bytes in their original order.\<close>

theorem sort_is_a_stable_sort:
  assumes "evaluate cr (CallExpr Sort [e] None ord) ctx = Ok w" and "evaluate cr e ctx = Ok (VList vs)"
  shows "\<exists>ws. w = VList ws \<and> mset ws = mset vs \<and>
    sorted_wrt (\<lambda>x y. \<exists>a b. into_bytes x = Ok a \<and> into_bytes y = Ok b \<and>
      ordered (cmp_list a b) (order_or_default ord) \<noteq> Greater) ws \<and>
    (\<forall>bs. filter (\<lambda>x. into_bytes x = Ok bs) ws = filter (\<lambda>x. into_bytes x = Ok bs) vs)"
  using assms sort_values_Ok [of Sort vs "order_or_default ord" w]
  by (simp add: apply_function_def single_def)

text \<open>The list is the JSON body \<open>["b", "a"]\<close>.\<close>

definition list_context :: "(ustring \<times> pairs) eval_context" where
  "list_context = demo_context\<lparr>ctx_request := (demo_request [])\<lparr>cap_json :=
     Some (Some (JArray [JString (lit ''b''), JString (lit ''a'')]))\<rparr>\<rparr>"

definition body_expr :: expr where
  "body_expr = PathExpr \<lparr>path_root = RequestRoot, path_segments = [Key (lit ''body'')]\<rparr>"

lemma sort_is_a_stable_sort_witness:
  "\<exists>ws. VList [VText (lit ''a''), VText (lit ''b'')] = VList ws \<and>
     mset ws = mset [VText (lit ''b''), VText (lit ''a'')] \<and>
    sorted_wrt (\<lambda>x y. \<exists>a b. into_bytes x = Ok a \<and> into_bytes y = Ok b \<and>
      ordered (cmp_list a b) (order_or_default (Some Ascending)) \<noteq> Greater) ws \<and>
    (\<forall>bs. filter (\<lambda>x. into_bytes x = Ok bs) ws =
       filter (\<lambda>x. into_bytes x = Ok bs) [VText (lit ''b''), VText (lit ''a'')])"
proof (rule sort_is_a_stable_sort [of demo_crates body_expr _ list_context])
  show body: "evaluate demo_crates body_expr list_context = Ok (VList [VText (lit ''b''), VText (lit ''a'')])"
    by (simp add: body_expr_def evaluate_path_def base_value_def request_block_def block_value_def
        list_context_def body_json_def is_header_block_def)
  show "evaluate demo_crates (CallExpr Sort [body_expr] None (Some Ascending)) list_context =
      Ok (VList [VText (lit ''a''), VText (lit ''b'')])"
    by (simp add: body apply_function_def single_def sort_values_def order_or_default_def lit_def
        utf8_Cons utf8_char_def byte_of_def)
qed

text \<open>Serializing to JSON ignores the order of members: after \<open>sort_keys\<close> in either direction,
  \<open>json_encode\<close> gives the same text as without it, for an object with distinct keys.\<close>

theorem json_encode_ignores_sort_keys:
  assumes "evaluate cr e ctx = Ok (VObject ms)" and "distinct (map fst ms)"
    and "\<forall>m \<in> set ms. valid_text (fst m)"
  shows "evaluate cr (CallExpr JsonEncode [CallExpr SortKeys [e] None ord] None None) ctx =
    evaluate cr (CallExpr JsonEncode [e] None None) ctx"
proof -
  let ?s = "sort_by (\<lambda>l r. ordered (cmp_text (fst l) (fst r)) (order_or_default ord)) ms"
  have "to_json (VObject ms) = to_json (VObject ?s)"
    by (rule to_json_permute) (simp_all add: assms)
  with assms(1) show ?thesis
    by (simp add: apply_function_def single_def sort_keys_def json_encode_def del: to_json.simps)
qed

definition object_context :: "(ustring \<times> pairs) eval_context" where
  "object_context = demo_context\<lparr>ctx_request := (demo_request [])\<lparr>cap_json :=
     Some (Some (JObject [(lit ''a'', JNull), (lit ''b'', JNull)]))\<rparr>\<rparr>"

lemma json_encode_ignores_sort_keys_witness:
  "evaluate demo_crates
     (CallExpr JsonEncode [CallExpr SortKeys [body_expr] None (Some Descending)] None None) object_context =
   evaluate demo_crates (CallExpr JsonEncode [body_expr] None None) object_context"
  by (rule json_encode_ignores_sort_keys [of _ _ _ "[(lit ''a'', VNull), (lit ''b'', VNull)]"])
    (simp_all add: body_expr_def evaluate_path_def base_value_def request_block_def block_value_def
      object_context_def body_json_def is_header_block_def)

text \<open>The decoding functions undo the encoding functions: hexadecimal, base64 and base64url
  text of any scalar decodes to exactly the scalar's bytes.\<close>

theorem decoding_undoes_encoding:
  assumes "codecs_round_trip cr" and "evaluate cr e ctx = Ok v" and "into_bytes v = Ok bs"
    and "(enc, dec) \<in> {(Hex, HexDecode), (Base64, Base64Decode), (Base64Url, Base64UrlDecode)}"
  shows "evaluate cr (CallExpr dec [CallExpr enc [e] None None] None None) ctx = Ok (VBytes bs)"
  using assms
  by (auto simp: apply_function_def single_def encoding_function_def arg_bytes_def arg_text_def
      codecs_round_trip_def)

lemma decoding_undoes_encoding_witness:
  "evaluate demo_crates (CallExpr Base64Decode [CallExpr Base64 [Literal (lit ''hi'')] None None] None None)
     demo_context = Ok (VBytes (utf8 (lit ''hi'')))"
  by (rule decoding_undoes_encoding [OF demo_codecs, of _ _ "VText (lit ''hi'')"]) simp_all

text \<open>The canonical query string does not depend on the order in which the parameters arrive.\<close>

theorem canonical_query_ignores_order:
  assumes "mset ps = mset qs" and "valid_pairs ps"
  shows "url_function cr CanonicalizeQuery (pairs_object ps) =
    url_function cr CanonicalizeQuery (pairs_object qs)"
proof -
  have pairs: "object_pairs CanonicalizeQuery (map (\<lambda>(k, v). (k, VText v)) rs) = Ok rs" for rs
    unfolding object_pairs_def
    by (induction rs) (auto simp: arg_text_def)
  have "sort_by cmp_pair ps = sort_by cmp_pair qs"
  proof (rule sort_by_permutation [OF lawful_cmp_pair assms(1)])
    fix x y
    assume "x \<in> set ps" and "y \<in> set ps" and "cmp_pair x y = Equal"
    with assms(2) cmp_pair_Equal [of x y] show "x = y"
      unfolding valid_pairs_def list_all_iff by blast
  qed
  then show ?thesis by (simp add: url_function_def pairs_object_def pairs)
qed

lemma canonical_query_ignores_order_witness:
  "url_function demo_crates CanonicalizeQuery (pairs_object [(lit ''b'', lit ''2''), (lit ''a'', lit ''1'')]) =
   url_function demo_crates CanonicalizeQuery (pairs_object [(lit ''a'', lit ''1''), (lit ''b'', lit ''2'')])"
  by (rule canonical_query_ignores_order) (simp_all add: valid_pairs_def)

end
