(* ===== verification/Config.thy ===== *)
theory Config
  imports RoundTrip Crates
begin

text \<open>
  The description of how a provider signs (\<open>domain/signature/config.rs\<close>) and its public keys
  (\<open>domain/signature/keys.rs\<close>): algorithms, encodings, secret decoding, expressions with their
  source, the default Standard Webhooks configuration, validation, and key parsing.
\<close>

section \<open>Algorithms and encodings\<close>

datatype algorithm =
    HmacSha1 | HmacSha256 | HmacSha384 | HmacSha512
  | DigestSha1 | DigestSha256 | DigestSha384 | DigestSha512
  | Ed25519 | EcdsaSha256 | RsaSha1 | RsaSha256

definition is_asymmetric :: "algorithm \<Rightarrow> bool" where
  "is_asymmetric a \<longleftrightarrow> a \<in> {Ed25519, EcdsaSha256, RsaSha1, RsaSha256}"

definition uses_secret :: "algorithm \<Rightarrow> bool" where
  "uses_secret a \<longleftrightarrow> \<not> is_asymmetric a"

fun algorithm_as_str :: "algorithm \<Rightarrow> string" where
  "algorithm_as_str HmacSha1 = ''HMAC-SHA1''"
| "algorithm_as_str HmacSha256 = ''HMAC-SHA256''"
| "algorithm_as_str HmacSha384 = ''HMAC-SHA384''"
| "algorithm_as_str HmacSha512 = ''HMAC-SHA512''"
| "algorithm_as_str DigestSha1 = ''SHA1''"
| "algorithm_as_str DigestSha256 = ''SHA256''"
| "algorithm_as_str DigestSha384 = ''SHA384''"
| "algorithm_as_str DigestSha512 = ''SHA512''"
| "algorithm_as_str Ed25519 = ''Ed25519''"
| "algorithm_as_str EcdsaSha256 = ''ECDSA-SHA256''"
| "algorithm_as_str RsaSha1 = ''RSA-SHA1''"
| "algorithm_as_str RsaSha256 = ''RSA-SHA256''"

datatype signature_encoding = SigHex | SigBase64 | SigBase64Url | SigRaw

datatype secret_encoding = SecUtf8 | SecAscii | SecHex | SecBase64 | SecBase64Url | SecRaw

definition secret_decode :: "'u crates \<Rightarrow> secret_encoding \<Rightarrow> ustring \<Rightarrow> (bytes, secret_encoding) result" where
  "secret_decode cr enc secret =
     (case (case enc of
              SecUtf8 \<Rightarrow> Some (utf8 secret)
            | SecRaw \<Rightarrow> Some (utf8 secret)
            | SecAscii \<Rightarrow> if all_ascii secret then Some (utf8 secret) else None
            | SecHex \<Rightarrow> cr_hex_decode cr (trim secret)
            | SecBase64 \<Rightarrow>
                or_else (cr_base64_decode cr STANDARD (trim secret))
                  (cr_base64_decode cr STANDARD_NO_PAD (trim secret))
            | SecBase64Url \<Rightarrow>
                or_else (cr_base64_decode cr URL_SAFE_NO_PAD (trim secret))
                  (cr_base64_decode cr URL_SAFE (trim secret))) of
        None \<Rightarrow> Err enc
      | Some bs \<Rightarrow> if bs = [] then Err enc else Ok bs)"

section \<open>Expressions with their source\<close>

record expression =
  ex_source :: ustring
  ex_parsed :: expr

definition expression_parse :: "ustring \<Rightarrow> (expression, parse_error) result" where
  "expression_parse source =
     map_ok (\<lambda>e. \<lparr>ex_source = trim source, ex_parsed = e\<rparr>) (parse source)"

section \<open>Public keys\<close>

definition min_rsa_modulus_bits :: nat where
  "min_rsa_modulus_bits = 2048"

definition max_public_key_bytes :: nat where
  "max_public_key_bytes = 16 * 1024"

datatype public_key_error = KeyMissing | KeyNotApplicable | KeyTooLarge | KeyMalformed | WeakRsaKey | KeyEncoding

definition is_pem :: "ustring \<Rightarrow> bool" where
  "is_pem material \<longleftrightarrow> starts_with material (lit ''-----BEGIN'')"

fun contains :: "ustring \<Rightarrow> ustring \<Rightarrow> bool" where
  "contains [] p \<longleftrightarrow> p = []"
| "contains (c # s) p \<longleftrightarrow> starts_with (c # s) p \<or> contains s p"

definition decode_raw :: "'u crates \<Rightarrow> ustring \<Rightarrow> (bytes, public_key_error) result" where
  "decode_raw cr material =
     (let compact = filter (\<lambda>c. \<not> is_whitespace c) material in
      case (if str_len compact mod 2 = 0 \<and> list_all is_ascii_hexdigit compact
            then cr_hex_decode cr compact else None) of
        Some bs \<Rightarrow> Ok bs
      | None \<Rightarrow>
          ok_or KeyMalformed
            (or_else (cr_base64_decode cr STANDARD compact)
              (or_else (cr_base64_decode cr STANDARD_NO_PAD compact)
                (or_else (cr_base64_decode cr URL_SAFE compact)
                  (cr_base64_decode cr URL_SAFE_NO_PAD compact)))))"

definition parse_ed25519 :: "'u crates \<Rightarrow> 'k key_crates \<Rightarrow> ustring \<Rightarrow> ('k public_key, public_key_error) result" where
  "parse_ed25519 cr kc material =
     (if is_pem material then map_ok Ed25519Key (ok_or KeyMalformed (kc_ed25519_pem kc material))
      else
        and_then (decode_raw cr material)
          (\<lambda>bs. if length bs \<noteq> 32 then Err KeyMalformed
                else map_ok Ed25519Key (ok_or KeyMalformed (kc_ed25519_bytes kc bs))))"

definition parse_p256 :: "'u crates \<Rightarrow> 'k key_crates \<Rightarrow> ustring \<Rightarrow> ('k public_key, public_key_error) result" where
  "parse_p256 cr kc material =
     (if is_pem material then map_ok EcdsaP256Key (ok_or KeyMalformed (kc_p256_pem kc material))
      else
        and_then (decode_raw cr material)
          (\<lambda>bs. map_ok EcdsaP256Key (ok_or KeyMalformed (kc_p256_sec1 kc bs))))"

definition rsa_material :: "'u crates \<Rightarrow> 'k key_crates \<Rightarrow> ustring \<Rightarrow> ('k, public_key_error) result" where
  "rsa_material cr kc material =
     (if contains material (lit ''BEGIN RSA PUBLIC KEY'')
      then ok_or KeyMalformed (kc_rsa_pkcs1_pem kc material)
      else if is_pem material then ok_or KeyMalformed (kc_rsa_pem kc material)
      else
        and_then (decode_raw cr material)
          (\<lambda>bs. case kc_rsa_der kc bs of
             Some k \<Rightarrow> Ok k
           | None \<Rightarrow> ok_or KeyMalformed (kc_rsa_pkcs1_der kc bs)))"

definition saturating_mul :: "nat \<Rightarrow> nat \<Rightarrow> nat" where
  "saturating_mul a b = min usize_max (a * b)"

definition parse_rsa :: "'u crates \<Rightarrow> 'k key_crates \<Rightarrow> ustring \<Rightarrow> ('k public_key, public_key_error) result" where
  "parse_rsa cr kc material =
     and_then (rsa_material cr kc material)
       (\<lambda>k. if saturating_mul (kc_rsa_size kc k) 8 < min_rsa_modulus_bits then Err WeakRsaKey
            else Ok (RsaKey k))"

definition public_key_parse ::
  "'u crates \<Rightarrow> 'k key_crates \<Rightarrow> algorithm \<Rightarrow> ustring \<Rightarrow> ('k public_key, public_key_error) result" where
  "public_key_parse cr kc alg material =
     (if \<not> is_asymmetric alg then Err KeyNotApplicable
      else if max_public_key_bytes < str_len material then Err KeyTooLarge
      else
        (let material = trim material in
         if material = [] then Err KeyMissing
         else if alg = Ed25519 then parse_ed25519 cr kc material
         else if alg = EcdsaSha256 then parse_p256 cr kc material
         else if alg = RsaSha1 \<or> alg = RsaSha256 then parse_rsa cr kc material
         else Err KeyNotApplicable))"

definition to_spki_der :: "'k key_crates \<Rightarrow> 'k public_key \<Rightarrow> (bytes, public_key_error) result" where
  "to_spki_der kc key = ok_or KeyEncoding (kc_spki_der kc key)"

section \<open>Configurations\<close>

record signature_config =
  sc_algorithm :: algorithm
  sc_payload :: expression
  sc_signature :: expression
  sc_signature_encoding :: signature_encoding
  sc_secret_encoding :: secret_encoding
  sc_public_key :: "ustring option"

definition default_payload_expression :: ustring where
  "default_payload_expression =
     lit ''concat(request.headers['' @ [34] @ lit ''webhook-id'' @ [34] @ lit ''], '' @ [34] @ lit ''.'' @ [34] @
     lit '', request.headers['' @ [34] @ lit ''webhook-timestamp'' @ [34] @ lit ''], '' @ [34] @ lit ''.'' @ [34] @
     lit '', request.raw_body)''"

definition default_signature_expression :: ustring where
  "default_signature_expression =
     lit ''request.headers['' @ [34] @ lit ''webhook-signature'' @ [34] @ lit '']''"

definition expression_or_empty :: "ustring \<Rightarrow> expression" where
  "expression_or_empty source =
     (case expression_parse source of
        Ok e \<Rightarrow> e
      | Err _ \<Rightarrow> \<lparr>ex_source = source, ex_parsed = Literal []\<rparr>)"

definition default_config :: signature_config where
  "default_config =
     \<lparr>sc_algorithm = HmacSha256,
      sc_payload = expression_or_empty default_payload_expression,
      sc_signature = expression_or_empty default_signature_expression,
      sc_signature_encoding = SigBase64,
      sc_secret_encoding = SecUtf8,
      sc_public_key = None\<rparr>"

definition config_validate :: "'u crates \<Rightarrow> 'k key_crates \<Rightarrow> signature_config \<Rightarrow> (unit, public_key_error) result" where
  "config_validate cr kc c =
     (case (is_asymmetric (sc_algorithm c), sc_public_key c) of
        (True, None) \<Rightarrow> Err KeyMissing
      | (True, Some material) \<Rightarrow> map_ok (\<lambda>_. ()) (public_key_parse cr kc (sc_algorithm c) material)
      | (False, Some _) \<Rightarrow> Err KeyNotApplicable
      | (False, None) \<Rightarrow> Ok ())"

definition config_public_key ::
  "'u crates \<Rightarrow> 'k key_crates \<Rightarrow> signature_config \<Rightarrow> ('k public_key option, public_key_error) result" where
  "config_public_key cr kc c =
     transpose_opt (map_option (public_key_parse cr kc (sc_algorithm c)) (sc_public_key c))"

section \<open>Facts\<close>

text \<open>The kind of key that an algorithm verifies with.\<close>

fun key_fits :: "'k key_crates \<Rightarrow> algorithm \<Rightarrow> 'k public_key \<Rightarrow> bool" where
  "key_fits kc alg (Ed25519Key k) \<longleftrightarrow> alg = Ed25519"
| "key_fits kc alg (EcdsaP256Key k) \<longleftrightarrow> alg = EcdsaSha256"
| "key_fits kc alg (RsaKey k) \<longleftrightarrow> (alg = RsaSha1 \<or> alg = RsaSha256) \<and> 2048 \<le> 8 * kc_rsa_size kc k"

lemma public_key_parse_fits:
  "public_key_parse cr kc alg material = Ok k \<Longrightarrow> key_fits kc alg k"
  by (auto simp: public_key_parse_def parse_ed25519_def parse_p256_def parse_rsa_def Let_def
      result_simps is_asymmetric_def saturating_mul_def min_rsa_modulus_bits_def split: if_splits)

lemma config_validate_Ok:
  "config_validate cr kc c = Ok u \<longleftrightarrow>
     (is_asymmetric (sc_algorithm c) \<longleftrightarrow> sc_public_key c \<noteq> None) \<and>
     (\<forall>m. sc_public_key c = Some m \<longrightarrow> (\<exists>k. public_key_parse cr kc (sc_algorithm c) m = Ok k))"
  by (cases "sc_public_key c") (auto simp: config_validate_def result_simps split: bool.splits)

lemma secret_decode_nonempty: "secret_decode cr enc s = Ok bs \<Longrightarrow> bs \<noteq> []"
  by (auto simp: secret_decode_def split: option.splits if_splits)

section \<open>The default configuration\<close>

text \<open>The documented defaults are the Standard Webhooks expressions, with header names in brackets.\<close>

definition header_expr :: "string \<Rightarrow> expr" where
  "header_expr name =
     PathExpr \<lparr>path_root = RequestRoot, path_segments = [Key (lit ''headers''), Key (lit name)]\<rparr>"

definition raw_body_expr :: expr where
  "raw_body_expr = PathExpr \<lparr>path_root = RequestRoot, path_segments = [Key (lit ''raw_body'')]\<rparr>"

definition default_payload :: expr where
  "default_payload =
     CallExpr Concat
       [header_expr ''webhook-id'', Literal (lit ''.''), header_expr ''webhook-timestamp'',
        Literal (lit ''.''), raw_body_expr] None None"

definition plain_name :: "ustring \<Rightarrow> bool" where
  "plain_name k \<longleftrightarrow> k = lit ''headers'' \<or> k = lit ''raw_body''"

lemma bare_plain_name: "bare_names plain_name"
  unfolding bare_names_def plain_name_def
proof (intro allI impI)
  fix k
  assume "k = lit ''headers'' \<or> k = lit ''raw_body''"
  moreover have "is_bare_identifier (lit ''headers'')" "is_bare_identifier (lit ''raw_body'')"
    by (simp_all add: lit_def) (simp_all add: identifier_defs)
  ultimately show "is_bare_identifier k" by auto
qed

lemma default_payload_pieces:
  "pieces_text (expr_pieces plain_name default_payload) = default_payload_expression"
  by (simp add: default_payload_def header_expr_def raw_body_expr_def plain_name_def call_parts_def
      default_payload_expression_def quote_def quote_char_def lit_def)

lemma default_signature_pieces:
  "pieces_text (expr_pieces plain_name (header_expr ''webhook-signature'')) =
   default_signature_expression"
  by (simp add: header_expr_def plain_name_def default_signature_expression_def quote_def
      quote_char_def lit_def)

lemma quotable_defaults:
  "list_all quotable (lit ''headers'')" "list_all quotable (lit ''webhook-id'')"
  "list_all quotable (lit ''webhook-timestamp'')" "list_all quotable (lit ''webhook-signature'')"
  "list_all quotable (lit ''raw_body'')" "list_all quotable (lit ''.'')"
  by (simp_all add: lit_def quotable_def is_control_def)

lemma parse_default_payload: "parse default_payload_expression = Ok default_payload"
  unfolding default_payload_pieces [symmetric]
proof (rule parse_pieces [OF bare_plain_name])
  show "wf_expr default_payload"
    by (simp add: default_payload_def header_expr_def raw_body_expr_def arity_ok_def func_arity_def
        usize_max_def call_options_ok_def requires_separator_def supported_path_def
        first_segment_def request_blocks_def)
  show "printable default_payload"
    by (simp add: default_payload_def header_expr_def raw_body_expr_def quotable_defaults)
  show "expr_depth default_payload \<le> max_depth" "expr_nodes default_payload \<le> max_nodes"
    by (simp_all add: default_payload_def header_expr_def raw_body_expr_def max_depth_def max_nodes_def)
  show "str_len (pieces_text (expr_pieces plain_name default_payload)) \<le> max_expression_bytes"
    unfolding default_payload_pieces
    by (simp add: default_payload_expression_def lit_def str_len_Cons utf8_char_def
        max_expression_bytes_def)
qed

lemma parse_default_signature:
  "parse default_signature_expression = Ok (header_expr ''webhook-signature'')"
  unfolding default_signature_pieces [symmetric]
proof (rule parse_pieces [OF bare_plain_name])
  show "wf_expr (header_expr ''webhook-signature'')"
    by (simp add: header_expr_def supported_path_def first_segment_def request_blocks_def)
  show "printable (header_expr ''webhook-signature'')"
    by (simp add: header_expr_def quotable_defaults)
  show "expr_depth (header_expr ''webhook-signature'') \<le> max_depth"
    "expr_nodes (header_expr ''webhook-signature'') \<le> max_nodes"
    by (simp_all add: header_expr_def max_depth_def max_nodes_def)
  show "str_len (pieces_text (expr_pieces plain_name (header_expr ''webhook-signature''))) \<le>
      max_expression_bytes"
    unfolding default_signature_pieces
    by (simp add: default_signature_expression_def lit_def str_len_Cons utf8_char_def
        max_expression_bytes_def)
qed

section \<open>Properties\<close>

text \<open>The default configuration is the Standard Webhooks scheme: its two constant expressions
  parse (the fallback of \<open>Default\<close> is never taken), the payload is the concatenation of id,
  timestamp and body, and the configuration is consistent.\<close>

theorem default_config_is_standard_webhooks:
  "ex_parsed (sc_payload default_config) =
     CallExpr Concat
       [header_expr ''webhook-id'', Literal (lit ''.''), header_expr ''webhook-timestamp'',
        Literal (lit ''.''), raw_body_expr] None None \<and>
   ex_parsed (sc_signature default_config) = header_expr ''webhook-signature'' \<and>
   config_validate cr kc default_config = Ok ()"
  by (simp add: default_config_def expression_or_empty_def expression_parse_def
      parse_default_payload parse_default_signature default_payload_def config_validate_def
      is_asymmetric_def)

text \<open>A validated configuration has a public key exactly when its algorithm is asymmetric, the
  key is of the algorithm's kind, and an RSA key has at least 2048 bits.\<close>

theorem validated_keys_fit_the_algorithm:
  assumes "config_validate cr kc c = Ok ()"
  shows "(is_asymmetric (sc_algorithm c) \<longleftrightarrow> sc_public_key c \<noteq> None) \<and>
    (\<exists>k. config_public_key cr kc c = Ok k \<and>
       (case k of None \<Rightarrow> \<not> is_asymmetric (sc_algorithm c)
        | Some key \<Rightarrow> key_fits kc (sc_algorithm c) key))"
proof (cases "sc_public_key c")
  case None
  with assms show ?thesis by (auto simp: config_validate_Ok config_public_key_def)
next
  case (Some m)
  with assms obtain k where "public_key_parse cr kc (sc_algorithm c) m = Ok k"
    by (auto simp: config_validate_Ok)
  with assms Some public_key_parse_fits show ?thesis
    by (auto simp: config_validate_Ok config_public_key_def)
qed

definition demo_ed25519_config :: signature_config where
  "demo_ed25519_config = default_config\<lparr>sc_algorithm := Ed25519,
     sc_public_key := Some (lit ''-----BEGIN PUBLIC KEY-----'')\<rparr>"

lemma validated_keys_fit_the_algorithm_witness:
  "(is_asymmetric (sc_algorithm demo_ed25519_config) \<longleftrightarrow> sc_public_key demo_ed25519_config \<noteq> None) \<and>
   (\<exists>k. config_public_key demo_crates demo_key_crates demo_ed25519_config = Ok k \<and>
       (case k of None \<Rightarrow> \<not> is_asymmetric (sc_algorithm demo_ed25519_config)
        | Some key \<Rightarrow> key_fits demo_key_crates (sc_algorithm demo_ed25519_config) key))"
proof (rule validated_keys_fit_the_algorithm)
  have "trim (lit ''-----BEGIN PUBLIC KEY-----'') = lit ''-----BEGIN PUBLIC KEY-----''"
    by (simp add: trim_def trim_start_def trim_end_def lit_def is_whitespace_def)
  moreover have "str_len (lit ''-----BEGIN PUBLIC KEY-----'') \<le> max_public_key_bytes"
    by (simp add: lit_def str_len_Cons utf8_char_def max_public_key_bytes_def)
  moreover have "is_pem (lit ''-----BEGIN PUBLIC KEY-----'')"
    by (simp add: is_pem_def starts_with_def lit_def)
  ultimately show "config_validate demo_crates demo_key_crates demo_ed25519_config = Ok ()"
    by (simp add: demo_ed25519_config_def config_validate_def is_asymmetric_def
        public_key_parse_def parse_ed25519_def demo_key_crates_def Let_def)
qed

end
