(* ===== verification/Identity.thy ===== *)
theory Identity
  imports Contracts
begin

text \<open>
  Domain errors, identifiers, accounts and attribution (\<open>domain/error.rs\<close>, \<open>id.rs\<close>,
  \<open>account.rs\<close>, \<open>actor.rs\<close>). A newtype of the source is a datatype with one constructor; its
  validating constructor is a definition of its own, and the \<open>validated_text\<close> contract is
  interpreted for each. The \<open>uuid\<close> crate is a record of functions.
\<close>

section \<open>Errors\<close>

datatype domain_error =
    EmptyField string
  | TooLong string nat
  | InvalidFormat string string
  | OutOfRange string nat nat

datatype transition_error =
    HookAlreadyDeleted
  | HookNotDisabled
  | HookNotDeleted
  | HookRecoveryExpired
  | TimestampOutOfOrder string string
  | DeliveryTerminal string
  | DeliveryAttemptOverflow

section \<open>External identifiers\<close>

definition max_external_id_bytes :: nat where
  "max_external_id_bytes = 255"

definition ascii_graphic_byte :: "byte \<Rightarrow> bool" where
  "ascii_graphic_byte b \<longleftrightarrow> is_ascii_graphic (unat b)"

definition ascii_alphanumeric_byte :: "byte \<Rightarrow> bool" where
  "ascii_alphanumeric_byte b \<longleftrightarrow> is_ascii_alphanumeric (unat b)"

definition validate_external_id :: "ustring \<Rightarrow> string \<Rightarrow> nat \<Rightarrow> (unit, domain_error) result" where
  "validate_external_id v field max_len =
     (if v = [] then Err (EmptyField field)
      else if max_len < str_len v then Err (TooLong field max_len)
      else if \<not> list_all ascii_graphic_byte (utf8 v)
        then Err (InvalidFormat field ''must contain only visible ASCII characters'')
      else Ok ())"

datatype silicon_id = SiliconId (silicon_id_str: ustring)

datatype actor_id = ActorId (actor_id_str: ustring)

definition silicon_id_new :: "ustring \<Rightarrow> (silicon_id, domain_error) result" where
  "silicon_id_new v =
     and_then (validate_external_id v ''silicon_id'' max_external_id_bytes) (\<lambda>_. Ok (SiliconId v))"

definition actor_id_new :: "ustring \<Rightarrow> (actor_id, domain_error) result" where
  "actor_id_new v =
     and_then (validate_external_id v ''actor_id'' max_external_id_bytes) (\<lambda>_. Ok (ActorId v))"

section \<open>Generated identifiers\<close>

text \<open>
  \<open>Uuid\<close> is 16 bytes, ordered as a big-endian number. Version 7 identifiers come from the clock
  and the operating system, so the operations that allocate one take it as an argument.
\<close>

type_synonym uuid = "128 word"

datatype hook_id = HookId (hook_uuid: uuid)

datatype event_id = EventId (event_uuid: uuid)

datatype blocked_request_id = BlockedRequestId (blocked_uuid: uuid)

record uuid_crate =
  uc_parse :: "ustring \<Rightarrow> uuid option"
  uc_hyphenated :: "uuid \<Rightarrow> ustring"
  uc_is_rfc4122 :: "uuid \<Rightarrow> bool"

section \<open>Accounts\<close>

definition max_account_uuid_length :: nat where
  "max_account_uuid_length = 64"

datatype account_uuid = AccountUuid (account_uuid_str: ustring)

definition looks_like :: "uuid_crate \<Rightarrow> ustring \<Rightarrow> bool" where
  "looks_like uc v \<longleftrightarrow>
     (v \<noteq> [] \<and> str_len v \<le> max_account_uuid_length \<and> list_all ascii_alphanumeric_byte (utf8 v)) \<or>
     (str_len v = 36 \<and>
       (case uc_parse uc v of
          None \<Rightarrow> False
        | Some u \<Rightarrow> uc_hyphenated uc u = v \<and> uc_is_rfc4122 uc u))"

definition account_uuid_new :: "uuid_crate \<Rightarrow> ustring \<Rightarrow> (account_uuid, domain_error) result" where
  "account_uuid_new uc v =
     (if v = [] then Err (EmptyField ''account_uuid'')
      else if max_account_uuid_length < str_len v
        then Err (TooLong ''account_uuid'' max_account_uuid_length)
      else if \<not> looks_like uc v
        then Err (InvalidFormat ''account_uuid''
               ''must be a canonical UUID or a legacy alphanumeric account identifier'')
      else Ok (AccountUuid v))"

definition silicon_id_from_account :: "account_uuid \<Rightarrow> silicon_id" where
  "silicon_id_from_account u = SiliconId (account_uuid_str u)"

definition actor_id_from_account :: "account_uuid \<Rightarrow> actor_id" where
  "actor_id_from_account u = ActorId (account_uuid_str u)"

datatype actor_kind = Carbon | Silicon

fun actor_kind_as_str :: "actor_kind \<Rightarrow> string" where
  "actor_kind_as_str Carbon = ''carbon''"
| "actor_kind_as_str Silicon = ''silicon''"

datatype public_id = PublicId (public_id_str: ustring)

definition public_id_new :: "ustring \<Rightarrow> (public_id, domain_error) result" where
  "public_id_new v =
     and_then
       (ok_or (InvalidFormat ''id'' ''must start with c: (a Carbon) or si: (a Silicon)'')
         (or_else (strip_prefix (lit ''si:'') v) (strip_prefix (lit ''c:'') v)))
       (\<lambda>handle.
          if handle = [] \<or> 255 < str_len v
          then Err (InvalidFormat ''id'' ''must have a handle of 1 to 252 characters after the prefix'')
          else if \<not> list_all ascii_graphic_byte (utf8 handle)
          then Err (InvalidFormat ''id'' ''must contain only visible ASCII characters'')
          else Ok (PublicId v))"

definition public_id_kind :: "public_id \<Rightarrow> actor_kind" where
  "public_id_kind p = (if starts_with (public_id_str p) (lit ''si:'') then Silicon else Carbon)"

record actor =
  actor_uuid :: account_uuid
  actor_kind_of :: actor_kind
  actor_public_id :: "public_id option"
  actor_scope :: "ustring list"
  actor_token_family :: "ustring option"

definition actor_display :: "actor \<Rightarrow> ustring" where
  "actor_display a =
     (case actor_public_id a of None \<Rightarrow> account_uuid_str (actor_uuid a) | Some p \<Rightarrow> public_id_str p)"

record silicon_ref =
  sr_uuid :: account_uuid
  sr_id :: "public_id option"

definition silicon_ref_display :: "silicon_ref \<Rightarrow> ustring" where
  "silicon_ref_display r =
     (case sr_id r of None \<Rightarrow> account_uuid_str (sr_uuid r) | Some p \<Rightarrow> public_id_str p)"

section \<open>Attribution\<close>

record actor_ref =
  ar_kind :: actor_kind
  ar_id :: actor_id
  ar_uuid :: "account_uuid option"

definition actor_ref_account :: "actor_kind \<Rightarrow> account_uuid \<Rightarrow> actor_ref" where
  "actor_ref_account kind u = \<lparr>ar_kind = kind, ar_id = actor_id_from_account u, ar_uuid = Some u\<rparr>"

definition actor_ref_stored ::
  "actor_kind \<Rightarrow> ustring \<Rightarrow> account_uuid option \<Rightarrow> (actor_ref, domain_error) result" where
  "actor_ref_stored kind key u =
     map_ok (\<lambda>a. \<lparr>ar_kind = kind, ar_id = a, ar_uuid = u\<rparr>) (actor_id_new key)"

section \<open>ASCII text\<close>

text \<open>A check on the bytes of a string that only ASCII bytes pass is a check on its characters.\<close>

lemma utf8_char_ascii: "c < 128 \<Longrightarrow> utf8_char c = [byte_of c] \<and> unat (byte_of c) = c"
  by (simp add: utf8_char_def byte_of_def unat_of_nat)

lemma utf8_char_last: "\<not> c < 128 \<Longrightarrow> \<exists>b \<in> set (utf8_char c). 128 \<le> unat b"
proof -
  assume "\<not> c < 128"
  then have "byte_of (0x80 + c mod 64) \<in> set (utf8_char c)"
    by (simp add: utf8_char_def)
  moreover have "unat (byte_of (0x80 + c mod 64)) = 0x80 + c mod 64"
  proof -
    have "0x80 + c mod 64 < 256" by linarith
    then show ?thesis unfolding byte_of_def by (simp only: unat_of_nat) simp
  qed
  ultimately show ?thesis by (metis le_add1)
qed

lemma list_all_utf8:
  assumes "\<And>n. P n \<Longrightarrow> n < 128"
  shows "list_all (\<lambda>b. P (unat b)) (utf8 s) \<longleftrightarrow> list_all P s"
proof (induction s)
  case (Cons c s)
  show ?case
  proof (cases "c < 128")
    case True
    then show ?thesis using Cons by (simp add: utf8_Cons utf8_char_ascii)
  next
    case False
    then obtain b where "b \<in> set (utf8_char c)" "\<not> P (unat b)"
      using utf8_char_last assms leD by blast
    then show ?thesis using False assms by (auto simp: utf8_Cons list_all_iff)
  qed
qed simp

lemma list_all_graphic_bytes [simp]:
  "list_all ascii_graphic_byte (utf8 s) \<longleftrightarrow> list_all is_ascii_graphic s"
proof -
  have "is_ascii_graphic n \<Longrightarrow> n < 128" for n
    by (simp add: is_ascii_graphic_def)
  from list_all_utf8 [of is_ascii_graphic, OF this] show ?thesis
    by (simp add: ascii_graphic_byte_def [abs_def])
qed

lemma list_all_alphanumeric_bytes [simp]:
  "list_all ascii_alphanumeric_byte (utf8 s) \<longleftrightarrow> list_all is_ascii_alphanumeric s"
proof -
  have "is_ascii_alphanumeric n \<Longrightarrow> n < 128" for n
    by (auto simp: char_class_defs)
  from list_all_utf8 [of is_ascii_alphanumeric, OF this] show ?thesis
    by (simp add: ascii_alphanumeric_byte_def [abs_def])
qed

lemma all_ascii_graphic: "list_all is_ascii_graphic s \<Longrightarrow> all_ascii s"
  by (auto simp: all_ascii_def list_all_iff is_ascii_graphic_def)

lemma all_ascii_alphanumeric: "list_all is_ascii_alphanumeric s \<Longrightarrow> all_ascii s"
  by (force simp: all_ascii_def list_all_iff char_class_defs)

lemma alphanumeric_graphic: "is_ascii_alphanumeric c \<Longrightarrow> is_ascii_graphic c \<and> c \<noteq> 58"
  by (auto simp: char_class_defs)

section \<open>Validated identifiers\<close>

definition external_id_ok :: "ustring \<Rightarrow> bool" where
  "external_id_ok v \<longleftrightarrow> v \<noteq> [] \<and> length v \<le> 255 \<and> list_all is_ascii_graphic v"

lemma validate_external_id_Ok:
  "validate_external_id v field max_external_id_bytes = Ok u \<longleftrightarrow> external_id_ok v"
  using str_len_ascii [OF all_ascii_graphic, of v]
  by (auto simp: validate_external_id_def external_id_ok_def max_external_id_bytes_def)

lemma silicon_id_new_Ok: "silicon_id_new v = Ok x \<longleftrightarrow> external_id_ok v \<and> x = SiliconId v"
  by (auto simp: silicon_id_new_def result_simps validate_external_id_Ok)

lemma actor_id_new_Ok: "actor_id_new v = Ok x \<longleftrightarrow> external_id_ok v \<and> x = ActorId v"
  by (auto simp: actor_id_new_def result_simps validate_external_id_Ok)

lemma account_uuid_new_Ok:
  "account_uuid_new uc v = Ok x \<longleftrightarrow> looks_like uc v \<and> x = AccountUuid v"
  by (auto simp: account_uuid_new_def looks_like_def max_account_uuid_length_def)

lemma prefixes_differ: "lit ''si:'' @ h \<noteq> lit ''c:'' @ h'"
  by (simp add: lit_def)

lemma handle_of:
  "or_else (strip_prefix (lit ''si:'') v) (strip_prefix (lit ''c:'') v) = Some h \<longleftrightarrow>
     v = lit ''si:'' @ h \<or> v = lit ''c:'' @ h"
proof (cases "strip_prefix (lit ''si:'') v")
  case None
  then have "v \<noteq> lit ''si:'' @ h"
    by (metis strip_prefix_Some option.distinct(1))
  with None show ?thesis by (simp only: or_else.simps strip_prefix_Some) simp
next
  case (Some g)
  then have "v = lit ''si:'' @ g" by (simp only: strip_prefix_Some)
  with Some show ?thesis
    by (simp only: or_else.simps prefixes_differ option.inject same_append_eq simp_thms)
qed

lemma public_id_new_Ok:
  "public_id_new v = Ok x \<longleftrightarrow>
     x = PublicId v \<and>
     (\<exists>h. (v = lit ''si:'' @ h \<or> v = lit ''c:'' @ h) \<and> h \<noteq> [] \<and> str_len v \<le> 255 \<and>
        list_all is_ascii_graphic h)"
proof -
  have checks: "(if h = [] \<or> 255 < str_len v then Err e
         else if \<not> list_all ascii_graphic_byte (utf8 h) then Err e' else Ok (PublicId v)) = Ok x \<longleftrightarrow>
      h \<noteq> [] \<and> str_len v \<le> 255 \<and> list_all is_ascii_graphic h \<and> x = PublicId v" for h e e'
    by auto
  show ?thesis
    unfolding public_id_new_def and_then_Ok_iff ok_or_Ok_iff handle_of checks by blast
qed

interpretation silicon_ids: validated_text silicon_id_new silicon_id_str
  by unfold_locales (auto simp: silicon_id_new_Ok)

interpretation actor_ids: validated_text actor_id_new actor_id_str
  by unfold_locales (auto simp: actor_id_new_Ok)

interpretation account_uuids: validated_text "account_uuid_new uc" account_uuid_str for uc
  by unfold_locales (auto simp: account_uuid_new_Ok)

interpretation public_ids: validated_text public_id_new public_id_str
  by unfold_locales (auto simp: public_id_new_Ok)

text \<open>What the \<open>uuid\<close> crate documents of the hyphenated form: hexadecimal digits and hyphens.\<close>

definition uuid_text_is_hex :: "uuid_crate \<Rightarrow> bool" where
  "uuid_text_is_hex uc \<longleftrightarrow>
     (\<forall>u. list_all (\<lambda>c. is_ascii_hexdigit c \<or> c = 45) (uc_hyphenated uc u))"

lemma looks_like_graphic:
  assumes "uuid_text_is_hex uc" and "looks_like uc v"
  shows "external_id_ok v \<and> 58 \<notin> set v"
proof -
  have hex: "is_ascii_graphic c \<and> c \<noteq> 58" if "is_ascii_hexdigit c \<or> c = 45" for c
    using that by (auto simp: char_class_defs)
  from assms(2) consider
      "v \<noteq> []" "str_len v \<le> 64" "list_all is_ascii_alphanumeric v"
    | u where "str_len v = 36" "uc_hyphenated uc u = v"
    by (auto simp: looks_like_def max_account_uuid_length_def split: option.splits)
  then have "v \<noteq> [] \<and> str_len v \<le> 255 \<and> list_all is_ascii_graphic v \<and> 58 \<notin> set v"
  proof cases
    case 1
    then show ?thesis by (auto simp: list_all_iff dest: alphanumeric_graphic)
  next
    case 2
    then have "list_all (\<lambda>c. is_ascii_hexdigit c \<or> c = 45) v"
      using assms(1) unfolding uuid_text_is_hex_def by blast
    then have "\<forall>c \<in> set v. is_ascii_graphic c \<and> c \<noteq> 58"
      using hex by (simp add: list_all_iff)
    with 2(1) show ?thesis by (auto simp: list_all_iff)
  qed
  then show ?thesis using str_len_ascii [OF all_ascii_graphic] by (auto simp: external_id_ok_def)
qed

lemma public_id_colon: "public_id_new v = Ok p \<Longrightarrow> 58 \<in> set v"
  by (auto simp: public_id_new_Ok lit_def)

lemma account_keys_are_stored_keys_parts:
  assumes "uuid_text_is_hex uc" and "account_uuid_new uc v = Ok u"
  shows "actor_ref_stored k (actor_id_str (ar_id (actor_ref_account k u))) (Some u) = Ok (actor_ref_account k u)"
    and "silicon_id_new (silicon_id_str (silicon_id_from_account u)) = Ok (silicon_id_from_account u)"
    and "account_uuid_new uc (account_uuid_str u) = Ok u"
    and "public_id_new v \<noteq> Ok p"
proof -
  have v: "u = AccountUuid v" "external_id_ok v" "58 \<notin> set v"
    using assms looks_like_graphic by (auto simp: account_uuid_new_Ok)
  show "actor_ref_stored k (actor_id_str (ar_id (actor_ref_account k u))) (Some u) = Ok (actor_ref_account k u)"
    using v by (simp add: actor_ref_stored_def actor_ref_account_def actor_id_from_account_def
        result_simps actor_id_new_Ok)
  show "silicon_id_new (silicon_id_str (silicon_id_from_account u)) = Ok (silicon_id_from_account u)"
    using v by (simp add: silicon_id_from_account_def silicon_id_new_Ok)
  show "account_uuid_new uc (account_uuid_str u) = Ok u"
    using assms(2) by (rule account_uuids.make_as_str)
  show "public_id_new v \<noteq> Ok p" using v public_id_colon by blast
qed

text \<open>An Accounts uuid is always a valid stored key: the attribution and the namespace key built
  from it without validation are the ones that reading the stored text back gives; and no Accounts
  uuid is a public id, so the two ways of naming an account never collide.\<close>

theorem account_keys_are_stored_keys:
  assumes "uuid_text_is_hex uc" and "account_uuid_new uc v = Ok u"
  shows "actor_ref_stored k (actor_id_str (ar_id (actor_ref_account k u))) (Some u) = Ok (actor_ref_account k u) \<and>
    silicon_id_new (silicon_id_str (silicon_id_from_account u)) = Ok (silicon_id_from_account u) \<and>
    account_uuid_new uc (account_uuid_str u) = Ok u \<and>
    public_id_new v \<noteq> Ok p"
  using account_keys_are_stored_keys_parts [OF assms] by blast

definition demo_uuid_crate :: uuid_crate where
  "demo_uuid_crate = \<lparr>uc_parse = (\<lambda>_. None), uc_hyphenated = (\<lambda>_. []), uc_is_rfc4122 = (\<lambda>_. True)\<rparr>"

theorem account_keys_are_stored_keys_witness:
  "silicon_id_new (lit ''8HV'') = Ok (SiliconId (lit ''8HV''))"
proof -
  have h: "uuid_text_is_hex demo_uuid_crate"
    by (simp add: uuid_text_is_hex_def demo_uuid_crate_def)
  have "account_uuid_new demo_uuid_crate (lit ''8HV'') = Ok (AccountUuid (lit ''8HV''))"
    unfolding account_uuid_new_Ok looks_like_def list_all_alphanumeric_bytes
    by (simp add: max_account_uuid_length_def lit_def char_class_defs str_len_def utf8_def utf8_char_def)
  from account_keys_are_stored_keys [OF h this] show ?thesis
    by (simp add: silicon_id_from_account_def)
qed

text \<open>A public id is a prefix naming its kind and a handle of visible ASCII: one to 252
  characters for a Silicon, and one to 253 for a Carbon, whose prefix is one byte shorter.\<close>

theorem public_id_bounds:
  "public_id_new v = Ok p \<longleftrightarrow>
     p = PublicId v \<and>
     (\<exists>h. list_all is_ascii_graphic h \<and> 1 \<le> length h \<and>
        (v = lit ''si:'' @ h \<and> public_id_kind p = Silicon \<and> length h \<le> 252 \<or>
         v = lit ''c:'' @ h \<and> public_id_kind p = Carbon \<and> length h \<le> 253))"
proof -
  have len: "str_len (lit ''si:'' @ h) = 3 + length h" "str_len (lit ''c:'' @ h) = 2 + length h"
    if "list_all is_ascii_graphic h" for h
    using str_len_ascii [OF all_ascii_graphic [OF that]]
    by (simp_all add: lit_def str_len_def utf8_def utf8_char_def)
  have kind: "public_id_kind (PublicId (lit ''si:'' @ h)) = Silicon"
    "public_id_kind (PublicId (lit ''c:'' @ h)) = Carbon" for h
    by (simp_all add: public_id_kind_def starts_with_def lit_def)
  have one: "h \<noteq> [] \<longleftrightarrow> 1 \<le> length h" for h :: ustring
    by (cases h) auto
  show ?thesis
    unfolding public_id_new_Ok one
    using len kind by (fastforce simp: conj_disj_distribL)
qed

end
