(* ===== verification/HookValues.thy ===== *)
theory HookValues
  imports Config Identity
begin

text \<open>
  The value objects of \<open>domain/hook.rs\<close>: endpoint keys and signing secrets with their generation
  from operating-system randomness, key identifiers, encrypted secrets, names, descriptions and
  time zones. The \<open>jiff\<close> time zone database is a record of functions; the source of randomness is
  the sequence of results of \<open>getrandom::fill\<close>.
\<close>

section \<open>Bounds\<close>

definition signing_secret_prefix :: ustring where
  "signing_secret_prefix = lit ''v1.''"

definition signing_secret_generated_length :: nat where
  "signing_secret_generated_length = 32"

definition encryption_nonce_bytes :: nat where
  "encryption_nonce_bytes = 12"

definition encryption_tag_bytes :: nat where
  "encryption_tag_bytes = 16"

definition endpoint_key_length :: nat where
  "endpoint_key_length = 8"

definition max_secret_bytes :: nat where
  "max_secret_bytes = 4096"

definition max_hook_name_length :: nat where
  "max_hook_name_length = 200"

definition max_hook_description_length :: nat where
  "max_hook_description_length = 2000"

definition max_encryption_key_id_bytes :: nat where
  "max_encryption_key_id_bytes = 64"

definition max_time_zone_bytes :: nat where
  "max_time_zone_bytes = 64"

definition endpoint_key_alphabet :: ustring where
  "endpoint_key_alphabet = lit ''ABCDEFGHIJKLMNOPQRSTUVWXYZ0123456789''"

definition secret_alphabet :: ustring where
  "secret_alphabet = lit ''ABCDEFGHIJKLMNOPQRSTUVWXYZabcdefghijklmnopqrstuvwxyz0123456789''"

section \<open>Random strings\<close>

datatype entropy_error = EntropyError

text \<open>The result of each call of \<open>getrandom::fill\<close> on the 64-byte buffer, in order.\<close>

type_synonym entropy = "nat \<Rightarrow> bytes option"

definition accept_limit :: "ustring \<Rightarrow> nat" where
  "accept_limit alphabet = (256 div length alphabet) * length alphabet"

fun push_symbols :: "ustring \<Rightarrow> nat \<Rightarrow> bytes \<Rightarrow> ustring \<Rightarrow> ustring" where
  "push_symbols alphabet n [] output = output"
| "push_symbols alphabet n (b # buffer) output =
     (if accept_limit alphabet \<le> unat b then push_symbols alphabet n buffer output
      else
        (let output = output @ [alphabet ! (unat b mod length alphabet)] in
         if str_len output = n then output else push_symbols alphabet n buffer output))"

text \<open>The loop asks for bytes until enough were accepted; nothing bounds how often that is.\<close>

partial_function (option) random_loop ::
  "ustring \<Rightarrow> nat \<Rightarrow> entropy \<Rightarrow> nat \<Rightarrow> ustring \<Rightarrow> (ustring, entropy_error) result option" where
  "random_loop alphabet n fill i output =
     (if str_len output < n then
        (case fill i of
           None \<Rightarrow> Some (Err EntropyError)
         | Some buffer \<Rightarrow> random_loop alphabet n fill (i + 1) (push_symbols alphabet n buffer output))
      else Some (Ok output))"

definition random_string :: "ustring \<Rightarrow> nat \<Rightarrow> entropy \<Rightarrow> (ustring, entropy_error) result option" where
  "random_string alphabet n fill = random_loop alphabet n fill 0 []"

section \<open>Endpoint keys\<close>

datatype endpoint_key = EndpointKey (endpoint_key_str: ustring)

definition endpoint_key_generate :: "entropy \<Rightarrow> (endpoint_key, entropy_error) result option" where
  "endpoint_key_generate fill =
     map_option (map_ok EndpointKey) (random_string endpoint_key_alphabet endpoint_key_length fill)"

definition endpoint_key_parse :: "ustring \<Rightarrow> (endpoint_key, domain_error) result" where
  "endpoint_key_parse v =
     (if str_len v \<noteq> endpoint_key_length \<or> \<not> list_all ascii_alphanumeric_byte (utf8 v)
      then Err (InvalidFormat ''endpoint_key'' ''must be exactly eight ASCII letters or digits'')
      else Ok (EndpointKey (to_ascii_uppercase v)))"

section \<open>Signing secrets\<close>

datatype signing_secret = SigningSecret (signing_secret_str: ustring)

definition signing_secret_generate :: "entropy \<Rightarrow> (signing_secret, entropy_error) result option" where
  "signing_secret_generate fill =
     map_option (map_ok (\<lambda>s. SigningSecret (signing_secret_prefix @ s)))
       (random_string secret_alphabet signing_secret_generated_length fill)"

definition signing_secret_from_text :: "ustring \<Rightarrow> (signing_secret, domain_error) result" where
  "signing_secret_from_text v =
     (if v = [] then Err (EmptyField ''secret'')
      else if max_secret_bytes < str_len v then Err (TooLong ''secret'' max_secret_bytes)
      else if list_ex is_control v
        then Err (InvalidFormat ''secret'' ''must not contain control characters'')
      else Ok (SigningSecret v))"

datatype encryption_key_id = EncryptionKeyId (encryption_key_id_str: ustring)

definition key_id_byte :: "byte \<Rightarrow> bool" where
  "key_id_byte b \<longleftrightarrow> is_ascii_alphanumeric (unat b) \<or> unat b = 95 \<or> unat b = 45"

definition encryption_key_id_new :: "ustring \<Rightarrow> (encryption_key_id, domain_error) result" where
  "encryption_key_id_new v =
     (if v = [] then Err (EmptyField ''encryption_key_id'')
      else if max_encryption_key_id_bytes < str_len v
        then Err (TooLong ''encryption_key_id'' max_encryption_key_id_bytes)
      else if \<not> list_all key_id_byte (utf8 v)
        then Err (InvalidFormat ''encryption_key_id''
               ''must contain only ASCII letters, digits, underscores, or hyphens'')
      else Ok (EncryptionKeyId v))"

text \<open>The nonce is an array of 12 bytes in the source.\<close>

record encrypted_secret =
  es_key_id :: encryption_key_id
  es_nonce :: bytes
  es_ciphertext :: bytes

definition encrypted_secret_new ::
  "encryption_key_id \<Rightarrow> bytes \<Rightarrow> bytes \<Rightarrow> (encrypted_secret, domain_error) result" where
  "encrypted_secret_new key_id nonce ciphertext =
     (let plaintext_length = length ciphertext - encryption_tag_bytes in
      if length ciphertext \<le> encryption_tag_bytes \<or> max_secret_bytes < plaintext_length
      then Err (InvalidFormat ''encrypted_signing_secret''
             ''ciphertext must contain a bounded secret and its AES-GCM tag'')
      else Ok \<lparr>es_key_id = key_id, es_nonce = nonce, es_ciphertext = ciphertext\<rparr>)"

section \<open>Names, descriptions and time zones\<close>

datatype hook_name = HookName (hook_name_str: ustring)

definition hook_name_new :: "ustring \<Rightarrow> (hook_name, domain_error) result" where
  "hook_name_new v =
     (let v = trim v in
      if v = [] then Err (EmptyField ''name'')
      else if list_ex is_control v
        then Err (InvalidFormat ''name'' ''must not contain control characters'')
      else if max_hook_name_length < length v then Err (TooLong ''name'' max_hook_name_length)
      else Ok (HookName v))"

datatype hook_description = HookDescription (hook_description_str: ustring)

definition hook_description_new :: "ustring \<Rightarrow> (hook_description, domain_error) result" where
  "hook_description_new v =
     (let v = trim v in
      if v = [] then Err (EmptyField ''description'')
      else if 0 \<in> set v then Err (InvalidFormat ''description'' ''must not contain U+0000'')
      else if max_hook_description_length < length v
        then Err (TooLong ''description'' max_hook_description_length)
      else Ok (HookDescription v))"

definition hook_description_optional ::
  "ustring option \<Rightarrow> (hook_description option, domain_error) result" where
  "hook_description_optional v =
     transpose_opt (map_option hook_description_new
       (case v of Some d \<Rightarrow> if trim d \<noteq> [] then Some d else None | None \<Rightarrow> None))"

datatype hook_time_zone = HookTimeZone (time_zone_str: ustring)

record 'z jiff_crate =
  jf_get :: "ustring \<Rightarrow> 'z option"
  jf_iana_name :: "'z \<Rightarrow> ustring option"
  jf_utc :: 'z
  jf_clock :: "'z \<Rightarrow> int \<Rightarrow> ustring option"

definition time_zone_byte :: "byte \<Rightarrow> bool" where
  "time_zone_byte b \<longleftrightarrow> is_ascii_alphanumeric (unat b) \<or> unat b \<in> {47, 95, 45, 43}"

definition hook_time_zone_new :: "'z jiff_crate \<Rightarrow> ustring \<Rightarrow> (hook_time_zone, domain_error) result" where
  "hook_time_zone_new jf v =
     (let v = trim v in
      if v = [] then Err (EmptyField ''time_zone'')
      else if max_time_zone_bytes < str_len v then Err (TooLong ''time_zone'' max_time_zone_bytes)
      else if \<not> list_all time_zone_byte (utf8 v)
        then Err (InvalidFormat ''time_zone'' ''must be an IANA zone identifier'')
      else
        map_ok (\<lambda>zone. HookTimeZone (case jf_iana_name jf zone of Some n \<Rightarrow> n | None \<Rightarrow> v))
          (ok_or (InvalidFormat ''time_zone'' ''is not a known IANA zone identifier'') (jf_get jf v)))"

definition resolve :: "'z jiff_crate \<Rightarrow> hook_time_zone \<Rightarrow> 'z" where
  "resolve jf z = (case jf_get jf (time_zone_str z) of Some zone \<Rightarrow> zone | None \<Rightarrow> jf_utc jf)"

definition default_time_zone :: hook_time_zone where
  "default_time_zone = HookTimeZone (lit ''UTC'')"

section \<open>Trimming\<close>

lemma dropWhile_idem: "dropWhile P (dropWhile P xs) = dropWhile P xs"
  by (induction xs) auto

lemma trim_start_trim_end:
  assumes "s = [] \<or> \<not> is_whitespace (hd s)"
  shows "trim_start (trim_end s) = trim_end s"
proof (cases "trim_end s")
  case (Cons c t)
  have "\<exists>u. s = trim_end s @ u"
    unfolding trim_end_def by (metis rev_append rev_rev_ident takeWhile_dropWhile_id)
  with Cons assms have "\<not> is_whitespace c" by (metis append_Cons list.discI list.sel(1))
  with Cons show ?thesis by (simp add: trim_start_def)
qed (simp add: trim_start_def)

lemma trim_idem [simp]: "trim (trim s) = trim s"
proof -
  have "trim_start s = [] \<or> \<not> is_whitespace (hd (trim_start s))"
    unfolding trim_start_def using hd_dropWhile by blast
  from trim_start_trim_end [OF this] show ?thesis
    by (simp add: trim_def trim_end_def dropWhile_idem)
qed

section \<open>What the random strings are\<close>

definition accepted :: "ustring \<Rightarrow> bytes \<Rightarrow> ustring" where
  "accepted alphabet bs =
     map (\<lambda>b. alphabet ! (unat b mod length alphabet)) (filter (\<lambda>b. unat b < accept_limit alphabet) bs)"

lemma accepted_append [simp]: "accepted A (bs @ cs) = accepted A bs @ accepted A cs"
  by (simp add: accepted_def)

lemma accepted_subset: "A \<noteq> [] \<Longrightarrow> set (accepted A bs) \<subseteq> set A"
  by (auto simp: accepted_def)

lemma all_ascii_subset: "set s \<subseteq> set t \<Longrightarrow> all_ascii t \<Longrightarrow> all_ascii s"
  by (auto simp: all_ascii_def)

lemma push_symbols_accepted:
  "A \<noteq> [] \<Longrightarrow> all_ascii A \<Longrightarrow> all_ascii out \<Longrightarrow> length out < n \<Longrightarrow>
    push_symbols A n bs out = out @ take (n - length out) (accepted A bs)"
proof (induction A n bs out rule: push_symbols.induct)
  case (2 A n b bs out)
  show ?case
  proof (cases "accept_limit A \<le> unat b")
    case False
    let ?c = "A ! (unat b mod length A)"
    have acc: "accepted A (b # bs) = ?c # accepted A bs"
      using False by (simp add: accepted_def)
    have "?c \<in> set A" using "2.prems"(1) by simp
    then have out: "all_ascii (out @ [?c])" using 2 by (auto simp: all_ascii_def)
    note len = str_len_ascii [OF this]
    show ?thesis
    proof (cases "length out + 1 = n")
      case True
      have "n - length out = 1" using True by linarith
      then show ?thesis using False len True by (simp add: acc)
    next
      case False': False
      then have "length (out @ [?c]) < n" using "2.prems" by simp
      moreover have "n - length out = Suc (n - (length out + 1))" using 2 False' by linarith
      ultimately show ?thesis using "2.IH"(2) "2.prems"(1,2) False False' out len by (simp add: acc)
    qed
  qed (use 2 in \<open>simp add: accepted_def\<close>)
qed (simp add: accepted_def)

lemma random_loop_accepted:
  assumes "A \<noteq> []" and "all_ascii A"
  shows "all_ascii out \<Longrightarrow> length out \<le> n \<Longrightarrow> (\<forall>j < length bufs. fill (i + j) = Some (bufs ! j)) \<Longrightarrow>
    n \<le> length out + length (accepted A (concat bufs)) \<Longrightarrow>
    random_loop A n fill i out = Some (Ok (out @ take (n - length out) (accepted A (concat bufs))))"
proof (induction bufs arbitrary: i out)
  case Nil
  then show ?case by (subst random_loop.simps) (simp add: accepted_def str_len_ascii)
next
  case (Cons b bufs)
  show ?case
  proof (cases "length out < n")
    case True
    let ?out = "out @ take (n - length out) (accepted A b)"
    have fill: "fill i = Some b" "\<forall>j < length bufs. fill (i + 1 + j) = Some (bufs ! j)"
      using Cons.prems(3) [rule_format, of 0] Cons.prems(3) [rule_format, of "Suc _"] by auto
    have ascii: "all_ascii ?out"
      using Cons.prems(1) assms accepted_subset [of A b] set_take_subset [of "n - length out" "accepted A b"]
      unfolding all_ascii_def by fastforce
    have "random_loop A n fill i out = random_loop A n fill (i + 1) ?out"
      by (subst random_loop.simps)
        (use Cons.prems True fill assms in \<open>simp add: str_len_ascii push_symbols_accepted\<close>)
    moreover have "take (n - length out) (accepted A b) @ take (n - length ?out) (accepted A (concat bufs)) =
        take (n - length out) (accepted A (concat (b # bufs)))"
      by (simp add: min_def)
    ultimately show ?thesis
      using Cons.IH [OF ascii _ fill(2)] Cons.prems(4) True by (simp add: min_def split: if_splits)
  qed (use Cons in \<open>subst random_loop.simps, simp add: str_len_ascii\<close>)
qed

lemma random_string_accepted:
  assumes "A \<noteq> []" "all_ascii A" "\<forall>j < length bufs. fill j = Some (bufs ! j)"
    and "n \<le> length (accepted A (concat bufs))"
  shows "random_string A n fill = Some (Ok (take n (accepted A (concat bufs))))"
  unfolding random_string_def
  using random_loop_accepted [of A "[]" n bufs fill 0] assms by (simp add: all_ascii_def)

text \<open>Whatever is returned has the requested length and uses the alphabet only.\<close>

lemma push_symbols_keeps:
  assumes "A \<noteq> []" "all_ascii A" "set out \<subseteq> set A" "length out < n"
  shows "set (push_symbols A n b out) \<subseteq> set A \<and> length (push_symbols A n b out) \<le> n"
proof -
  have "all_ascii out" using assms all_ascii_subset by blast
  note push = push_symbols_accepted [OF assms(1,2) this assms(4), of b]
  show ?thesis
    using assms(3,4) accepted_subset [OF assms(1), of b] set_take_subset [of "n - length out" "accepted A b"]
    by (auto simp: push)
qed

lemma random_loop_returns:
  assumes "random_loop A n fill i out = Some r" and "A \<noteq> []" and "all_ascii A"
    and "set out \<subseteq> set A" and "length out \<le> n" and "r = Ok s"
  shows "length s = n \<and> set s \<subseteq> set A"
proof -
  let ?P = "\<lambda>A n fill i out r. A \<noteq> [] \<longrightarrow> all_ascii A \<longrightarrow> set out \<subseteq> set A \<longrightarrow> length out \<le> n \<longrightarrow>
    (\<forall>s. r = Ok s \<longrightarrow> length s = n \<and> set s \<subseteq> set A)"
  have "?P A n fill i out r"
  proof (rule random_loop.raw_induct [of ?P, OF _ assms(1)], intro impI)
    fix loop :: "ustring \<Rightarrow> nat \<Rightarrow> entropy \<Rightarrow> nat \<Rightarrow> ustring \<Rightarrow> (ustring, entropy_error) result option"
      and A n fill i out r
    assume IH: "\<And>A n fill i out r. loop A n fill i out = Some r \<Longrightarrow> ?P A n fill i out r"
      and step: "(if str_len out < n then case fill i of None \<Rightarrow> Some (Err EntropyError)
           | Some buffer \<Rightarrow> loop A n fill (i + 1) (push_symbols A n buffer out) else Some (Ok out)) = Some r"
      and A: "A \<noteq> []" "all_ascii A" "set out \<subseteq> set A" "length out \<le> n"
    have len: "str_len out = length out" using A all_ascii_subset str_len_ascii by metis
    show "\<forall>s. r = Ok s \<longrightarrow> length s = n \<and> set s \<subseteq> set A"
    proof (cases "length out < n")
      case True
      then show ?thesis
        using step IH A push_symbols_keeps [OF A(1,2,3) True] by (auto simp: len split: option.splits)
    qed (use step A in \<open>auto simp: len\<close>)
  qed
  then show ?thesis using assms by blast
qed

section \<open>Alphabets\<close>

lemma alphabets_ascii [simp]:
  "endpoint_key_alphabet \<noteq> []" "all_ascii endpoint_key_alphabet" "distinct endpoint_key_alphabet"
  "secret_alphabet \<noteq> []" "all_ascii secret_alphabet" "distinct secret_alphabet"
  by (simp_all add: endpoint_key_alphabet_def secret_alphabet_def lit_def all_ascii_def)

lemma length_alphabets [simp]: "length endpoint_key_alphabet = 36" "length secret_alphabet = 62"
  by (simp_all add: endpoint_key_alphabet_def secret_alphabet_def)

lemma endpoint_key_alphabet_chars:
  "c \<in> set endpoint_key_alphabet \<Longrightarrow> is_ascii_alphanumeric c \<and> to_ascii_upper c = c"
  by (auto simp: endpoint_key_alphabet_def lit_def char_class_defs to_ascii_upper_def)

lemma secret_alphabet_chars: "c \<in> set secret_alphabet \<Longrightarrow> \<not> is_control c"
  by (auto simp: secret_alphabet_def lit_def is_control_def)

lemma card_residue: "j < m \<Longrightarrow> card {x :: nat. x < q * m \<and> x mod m = j} = q"
proof -
  assume j: "j < m"
  have "{x. x < q * m \<and> x mod m = j} = (\<lambda>i. i * m + j) ` {..<q}"
  proof (intro set_eqI iffI)
    fix x assume "x \<in> {x. x < q * m \<and> x mod m = j}"
    then have "x = (x div m) * m + j" "x div m < q"
      using j by (auto simp: less_mult_imp_div_less)
    then show "x \<in> (\<lambda>i. i * m + j) ` {..<q}" by blast
  next
    fix x assume "x \<in> (\<lambda>i. i * m + j) ` {..<q}"
    then obtain i where i: "i < q" "x = i * m + j" by auto
    have "i * m + j < (i + 1) * m" using j by simp
    also have "\<dots> \<le> q * m" using i(1) by (intro mult_right_mono) auto
    finally show "x \<in> {x. x < q * m \<and> x mod m = j}" using i j by simp
  qed
  moreover have "inj_on (\<lambda>i. i * m + j) {..<q}" using j by (auto simp: inj_on_def)
  ultimately show ?thesis by (simp add: card_image)
qed

lemma card_bytes: "card {b :: byte. P (unat b)} = card {x. x < 256 \<and> P x}"
proof -
  have "unat ` {b :: byte. P (unat b)} = {x. x < 256 \<and> P x}"
  proof (intro set_eqI iffI)
    fix x assume "x \<in> {x. x < 256 \<and> P x}"
    then have "unat (of_nat x :: byte) = x" "P x" by (simp_all add: unat_of_nat)
    then show "x \<in> unat ` {b :: byte. P (unat b)}" by (metis (mono_tags) image_eqI mem_Collect_eq)
  next
    fix x assume "x \<in> unat ` {b :: byte. P (unat b)}"
    then obtain b :: byte where "x = unat b" "P (unat b)" by auto
    then show "x \<in> {x. x < 256 \<and> P x}" using unsigned_less [of b] by simp
  qed
  moreover have "inj_on unat {b :: byte. P (unat b)}" by (simp add: inj_on_def word_unat_eq_iff)
  ultimately show ?thesis by (metis card_image)
qed

text \<open>Rejection sampling is unbiased: of the 256 values of a random byte, exactly the same number,
  \<open>256 div size\<close>, are turned into each symbol of the alphabet, for every alphabet of up to 256
  distinct symbols.\<close>

theorem every_symbol_is_equally_likely:
  assumes "distinct alphabet" and "c \<in> set alphabet"
  shows "card {b :: byte. accepted alphabet [b] = [c]} = 256 div length alphabet"
proof -
  let ?m = "length alphabet" let ?q = "256 div length alphabet"
  from assms(2) obtain j where j: "j < ?m" "alphabet ! j = c" by (auto simp: in_set_conv_nth)
  have le: "?q * ?m \<le> 256" by simp
  have "accepted alphabet [b] = [c] \<longleftrightarrow> unat b < ?q * ?m \<and> unat b mod ?m = j" for b :: byte
  proof -
    have "unat b mod ?m < ?m" using j by (intro mod_less_divisor) linarith
    then show ?thesis
      using j assms(1) by (auto simp: accepted_def accept_limit_def nth_eq_iff_index_eq)
  qed
  then have "card {b :: byte. accepted alphabet [b] = [c]} =
      card {x. x < 256 \<and> (x < ?q * ?m \<and> x mod ?m = j)}"
    using card_bytes [of "\<lambda>x. x < ?q * ?m \<and> x mod ?m = j"] by simp
  also have "{x. x < 256 \<and> (x < ?q * ?m \<and> x mod ?m = j)} = {x. x < ?q * ?m \<and> x mod ?m = j}"
    using less_le_trans [OF _ le] by blast
  finally show ?thesis using card_residue [OF j(1)] by simp
qed

theorem every_symbol_is_equally_likely_witness:
  "card {b :: byte. accepted secret_alphabet [b] = [65]} = 4"
  using every_symbol_is_equally_likely [of secret_alphabet 65] by (simp add: secret_alphabet_def lit_def)

text \<open>C33: Generating terminates as soon as enough bytes were accepted. While the operating system
  delivers buffers, and after every point another accepted byte still comes, a random string of any
  length is produced, and it is the first accepted bytes in the order they were delivered; the first
  failure before that point is reported instead.\<close>

theorem random_string_terminates:
  assumes "alphabet \<noteq> []" and "all_ascii alphabet"
    and "\<forall>i. fill i = Some (buf i)" and "\<forall>i. \<exists>j \<ge> i. accepted alphabet (buf j) \<noteq> []"
  shows "\<exists>k. random_string alphabet n fill = Some (Ok (take n (accepted alphabet (concat (map buf [0..<k]))))) \<and>
    n \<le> length (accepted alphabet (concat (map buf [0..<k])))"
proof -
  have "\<exists>k. n \<le> length (accepted alphabet (concat (map buf [0..<k])))"
  proof (induction n)
    case (Suc n)
    then obtain k where k: "n \<le> length (accepted alphabet (concat (map buf [0..<k])))" by blast
    from assms(4) obtain j where j: "k \<le> j" "accepted alphabet (buf j) \<noteq> []" by blast
    have "[0..<j + 1] = [0..<k] @ [k..<j] @ [j]"
      using j(1) upt_add_eq_append [of 0 k "j - k"] by simp
    then have "Suc n \<le> length (accepted alphabet (concat (map buf [0..<j + 1])))"
      using k j(2) by (cases "accepted alphabet (buf j)") simp_all
    then show ?case by blast
  qed simp
  then obtain k where k: "n \<le> length (accepted alphabet (concat (map buf [0..<k])))" by blast
  from random_string_accepted [OF assms(1,2), of "map buf [0..<k]" fill n] k assms(3)
  show ?thesis by (metis diff_zero length_map length_upt nth_map_upt add_0)
qed

theorem random_string_terminates_witness:
  "\<exists>s. random_string secret_alphabet 32 (\<lambda>_. Some [0]) = Some (Ok s)"
proof -
  have "accepted secret_alphabet [0] \<noteq> []" by (simp add: accepted_def accept_limit_def)
  then show ?thesis
    using random_string_terminates [of secret_alphabet "\<lambda>_. Some [0]" "\<lambda>_. [0]" 32] by auto
qed

section \<open>Stored values are accepted again\<close>

lemma alphanumeric_case:
  "is_ascii_alphanumeric (to_ascii_upper c) = is_ascii_alphanumeric c"
  "is_ascii_alphanumeric (to_ascii_lower c) = is_ascii_alphanumeric c"
  "to_ascii_upper (to_ascii_upper c) = to_ascii_upper c"
  "to_ascii_upper (to_ascii_lower c) = to_ascii_upper c"
  by (auto simp: to_ascii_upper_def to_ascii_lower_def char_class_defs)

lemma endpoint_key_parse_Ok:
  "endpoint_key_parse v = Ok k \<longleftrightarrow>
     length v = 8 \<and> list_all is_ascii_alphanumeric v \<and> k = EndpointKey (to_ascii_uppercase v)"
  using str_len_ascii [OF all_ascii_alphanumeric, of v]
  by (auto simp: endpoint_key_parse_def endpoint_key_length_def)

lemma alphanumeric_case_all [simp]:
  "list_all is_ascii_alphanumeric (to_ascii_uppercase v) = list_all is_ascii_alphanumeric v"
  "list_all is_ascii_alphanumeric (to_ascii_lowercase v) = list_all is_ascii_alphanumeric v"
  "length (to_ascii_uppercase v) = length v" "length (to_ascii_lowercase v) = length v"
  "to_ascii_uppercase (to_ascii_uppercase v) = to_ascii_uppercase v"
  "to_ascii_uppercase (to_ascii_lowercase v) = to_ascii_uppercase v"
  by (simp_all add: to_ascii_uppercase_def to_ascii_lowercase_def list_all_iff alphanumeric_case)

interpretation endpoint_keys: validated_text endpoint_key_parse endpoint_key_str
  by unfold_locales (auto simp: endpoint_key_parse_Ok)

interpretation signing_secrets: validated_text signing_secret_from_text signing_secret_str
  by unfold_locales (auto simp: signing_secret_from_text_def split: if_splits)

interpretation encryption_key_ids: validated_text encryption_key_id_new encryption_key_id_str
  by unfold_locales (auto simp: encryption_key_id_new_def split: if_splits)

interpretation hook_names: validated_text hook_name_new hook_name_str
  by unfold_locales (auto simp: hook_name_new_def Let_def split: if_splits)

interpretation hook_descriptions: validated_text hook_description_new hook_description_str
  by unfold_locales (auto simp: hook_description_new_def Let_def split: if_splits)

lemma endpoint_keys_are_case_insensitive_parts:
  assumes "endpoint_key_parse v = Ok k"
  shows "endpoint_key_parse (to_ascii_lowercase v) = Ok k"
    and "endpoint_key_parse (to_ascii_uppercase v) = Ok k"
    and "endpoint_key_parse (endpoint_key_str k) = Ok k \<and> length (endpoint_key_str k) = endpoint_key_length"
    and "endpoint_key_parse w = Ok k \<longleftrightarrow> to_ascii_uppercase w = to_ascii_uppercase v"
proof -
  have v: "length v = 8" "list_all is_ascii_alphanumeric v" "k = EndpointKey (to_ascii_uppercase v)"
    using assms by (simp_all add: endpoint_key_parse_Ok)
  show "endpoint_key_parse (to_ascii_lowercase v) = Ok k" "endpoint_key_parse (to_ascii_uppercase v) = Ok k"
    using v by (simp_all add: endpoint_key_parse_Ok)
  show "endpoint_key_parse (endpoint_key_str k) = Ok k \<and> length (endpoint_key_str k) = endpoint_key_length"
    using endpoint_keys.make_as_str [OF assms] v by (simp add: endpoint_key_length_def)
  show "endpoint_key_parse w = Ok k \<longleftrightarrow> to_ascii_uppercase w = to_ascii_uppercase v"
    using v by (metis alphanumeric_case_all(1,3) endpoint_key.inject endpoint_key_parse_Ok)
qed

text \<open>Endpoint keys are case-insensitive and have one canonical form: the key a string parses to
  is also what its upper-case and lower-case spellings parse to, the stored form parses to itself,
  and two strings give the same key exactly when they agree up to the case of letters.\<close>

theorem endpoint_keys_are_case_insensitive:
  assumes "endpoint_key_parse v = Ok k"
  shows "endpoint_key_parse (to_ascii_lowercase v) = Ok k \<and>
    endpoint_key_parse (to_ascii_uppercase v) = Ok k \<and>
    (endpoint_key_parse (endpoint_key_str k) = Ok k \<and> length (endpoint_key_str k) = endpoint_key_length) \<and>
    (endpoint_key_parse w = Ok k \<longleftrightarrow> to_ascii_uppercase w = to_ascii_uppercase v)"
  using endpoint_keys_are_case_insensitive_parts [OF assms] by blast

theorem endpoint_keys_are_case_insensitive_witness:
  "endpoint_key_parse (to_ascii_lowercase (lit ''A0B1C2D3'')) = Ok (EndpointKey (lit ''A0B1C2D3''))"
  by (rule endpoint_keys_are_case_insensitive [THEN conjunct1])
    (simp add: endpoint_key_parse_Ok lit_def to_ascii_uppercase_def to_ascii_upper_def char_class_defs)

lemma generated_values_are_valid_parts:
  shows "endpoint_key_generate fill = Some (Ok k) \<Longrightarrow> endpoint_key_parse (endpoint_key_str k) = Ok k"
    and "signing_secret_generate fill = Some (Ok s) \<Longrightarrow>
      signing_secret_from_text (signing_secret_str s) = Ok s \<and>
      (\<exists>r. signing_secret_str s = signing_secret_prefix @ r \<and> length r = 32 \<and> set r \<subseteq> set secret_alphabet)"
proof -
  assume "endpoint_key_generate fill = Some (Ok k)"
  then obtain s where s: "k = EndpointKey s" "random_string endpoint_key_alphabet 8 fill = Some (Ok s)"
    by (auto simp: endpoint_key_generate_def endpoint_key_length_def result_simps)
  from random_loop_returns [OF s(2) [unfolded random_string_def]]
  have "length s = 8" "set s \<subseteq> set endpoint_key_alphabet" by auto
  then have "\<forall>c \<in> set s. is_ascii_alphanumeric c \<and> to_ascii_upper c = c"
    using endpoint_key_alphabet_chars by blast
  then have "to_ascii_uppercase s = s" "list_all is_ascii_alphanumeric s"
    by (simp_all add: to_ascii_uppercase_def map_idI list_all_iff)
  with \<open>length s = 8\<close> s(1) show "endpoint_key_parse (endpoint_key_str k) = Ok k"
    by (simp add: endpoint_key_parse_Ok)
next
  assume "signing_secret_generate fill = Some (Ok s)"
  then obtain r where r: "s = SigningSecret (signing_secret_prefix @ r)"
      "random_string secret_alphabet 32 fill = Some (Ok r)"
    by (auto simp: signing_secret_generate_def signing_secret_generated_length_def result_simps)
  from random_loop_returns [OF r(2) [unfolded random_string_def]]
  have R: "length r = 32" "set r \<subseteq> set secret_alphabet" by auto
  then have "\<forall>c \<in> set r. \<not> is_control c" using secret_alphabet_chars by blast
  moreover have "str_len r = 32"
    using R str_len_ascii [OF all_ascii_subset [OF R(2)]] by simp
  ultimately have "signing_secret_from_text (signing_secret_str s) = Ok s"
    by (auto simp: r(1) signing_secret_from_text_def signing_secret_prefix_def max_secret_bytes_def
        list_ex_iff lit_def is_control_def str_len_def utf8_def utf8_char_def)
  with R r(1) show "signing_secret_from_text (signing_secret_str s) = Ok s \<and>
      (\<exists>r. signing_secret_str s = signing_secret_prefix @ r \<and> length r = 32 \<and> set r \<subseteq> set secret_alphabet)"
    by auto
qed

text \<open>Generated values pass their own validation: a generated endpoint key parses to itself, and
  a generated signing secret is the prefix followed by 32 characters of the alphabet and is accepted
  as a secret, whatever the randomness was.\<close>

theorem generated_values_are_valid:
  shows "(endpoint_key_generate fill = Some (Ok k) \<longrightarrow> endpoint_key_parse (endpoint_key_str k) = Ok k) \<and>
    (signing_secret_generate fill = Some (Ok s) \<longrightarrow> (signing_secret_from_text (signing_secret_str s) = Ok s \<and>
      (\<exists>r. signing_secret_str s = signing_secret_prefix @ r \<and> length r = 32 \<and> set r \<subseteq> set secret_alphabet)))"
  using generated_values_are_valid_parts by blast

theorem generated_values_are_valid_witness:
  "\<exists>k. endpoint_key_generate (\<lambda>_. Some [0]) = Some (Ok k) \<and>
     endpoint_key_parse (endpoint_key_str k) = Ok k"
proof -
  have "endpoint_key_alphabet ! 0 = 65"
    by (simp add: endpoint_key_alphabet_def lit_def)
  then have one: "accepted endpoint_key_alphabet [0] = [65]"
    by (simp add: accepted_def accept_limit_def)
  have "accepted endpoint_key_alphabet (concat (replicate n [0])) = replicate n 65" for n
  proof (induction n)
    case (Suc n)
    then show ?case
      using one accepted_append [of endpoint_key_alphabet "[0]" "concat (replicate n [0])"]
      by (simp only: replicate_Suc concat.simps append_Cons append_Nil)
  qed (simp add: accepted_def)
  then have "random_string endpoint_key_alphabet 8 (\<lambda>_. Some [0]) = Some (Ok (replicate 8 65))"
    using random_string_accepted [of endpoint_key_alphabet "replicate 8 [0]" "\<lambda>_. Some [0]" 8] by simp
  then have "endpoint_key_generate (\<lambda>_. Some [0]) = Some (Ok (EndpointKey (replicate 8 65)))"
    by (simp add: endpoint_key_generate_def endpoint_key_length_def)
  with generated_values_are_valid show ?thesis by blast
qed

text \<open>
  A canonical zone name that the database knows and that names itself is accepted again; the
  database is documented to resolve aliases to such names.
\<close>

definition canonical_zones :: "'z jiff_crate \<Rightarrow> bool" where
  "canonical_zones jf \<longleftrightarrow>
     (\<forall>s zone. jf_get jf s = Some zone \<longrightarrow>
        (case jf_iana_name jf zone of
           None \<Rightarrow> True
         | Some n \<Rightarrow> n \<noteq> [] \<and> trim n = n \<and> str_len n \<le> max_time_zone_bytes \<and> list_all time_zone_byte (utf8 n) \<and>
             jf_get jf n = Some zone))"

lemma time_zone_rehydrates:
  assumes "canonical_zones jf" and "hook_time_zone_new jf s = Ok z"
  shows "hook_time_zone_new jf (time_zone_str z) = Ok z" and "\<exists>s zone. jf_get jf s = Some zone \<and> resolve jf z = zone"
proof -
  from assms(2) obtain zone where zone: "jf_get jf (trim s) = Some zone"
    "z = HookTimeZone (case jf_iana_name jf zone of Some n \<Rightarrow> n | None \<Rightarrow> trim s)"
    and s: "trim s \<noteq> []" "str_len (trim s) \<le> max_time_zone_bytes" "list_all time_zone_byte (utf8 (trim s))"
    by (auto simp: hook_time_zone_new_def Let_def result_simps split: if_splits)
  have n: "case jf_iana_name jf zone of None \<Rightarrow> True
      | Some n \<Rightarrow> n \<noteq> [] \<and> trim n = n \<and> str_len n \<le> max_time_zone_bytes \<and> list_all time_zone_byte (utf8 n) \<and>
          jf_get jf n = Some zone"
    using assms(1) zone(1) unfolding canonical_zones_def by blast
  show "hook_time_zone_new jf (time_zone_str z) = Ok z"
    using n s zone by (auto simp: hook_time_zone_new_def Let_def result_simps split: option.splits)
  show "\<exists>s zone. jf_get jf s = Some zone \<and> resolve jf z = zone"
    using n zone by (auto simp: resolve_def split: option.splits)
qed

end
