(* ===== verification/Safety.thy ===== *)
theory Safety
  imports Request Contracts
begin

text \<open>
  Abuse control per client address (\<open>domain/safety.rs\<close>), and the arithmetic of the \<open>time\<close> crate
  it and the hook lifecycle use, as a record of functions with their documented behaviour.
\<close>

section \<open>Instants\<close>

text \<open>Durations are nanoseconds, as instants are.\<close>

record time_crate =
  tc_checked_add :: "instant \<Rightarrow> int \<Rightarrow> instant option"
  tc_saturating_add :: "instant \<Rightarrow> int \<Rightarrow> instant"
  tc_checked_sub :: "instant \<Rightarrow> int \<Rightarrow> instant option"

definition duration_days :: "int \<Rightarrow> int" where
  "duration_days n = n * 86400 * 1000000000"

text \<open>
  A sum or difference that is representable is exact; one that is not is reported by \<open>checked_add\<close> and replaced
  by the last representable instant by \<open>saturating_add\<close>, which never goes below its operand.
\<close>

definition time_adds :: "time_crate \<Rightarrow> bool" where
  "time_adds tc \<longleftrightarrow>
     (\<forall>t d s. tc_checked_add tc t d = Some s \<longrightarrow> s = t + d \<and> tc_saturating_add tc t d = s) \<and>
     (\<forall>t d. 0 \<le> d \<longrightarrow> t \<le> tc_saturating_add tc t d \<and> tc_saturating_add tc t d \<le> t + d) \<and>
     (\<forall>t d s. tc_checked_sub tc t d = Some s \<longrightarrow> s = t - d)"

definition demo_time_crate :: time_crate where
  "demo_time_crate =
     \<lparr>tc_checked_add = (\<lambda>t d. Some (t + d)), tc_saturating_add = (\<lambda>t d. t + d),
      tc_checked_sub = (\<lambda>t d. Some (t - d))\<rparr>"

lemma demo_time_adds [simp]: "time_adds demo_time_crate"
  by (simp add: time_adds_def demo_time_crate_def)

section \<open>Block state\<close>

definition unverified_requests_per_block :: "32 word" where
  "unverified_requests_per_block = 20"

definition block_duration :: int where
  "block_duration = duration_days 1"

record ip_block_state =
  strikes :: "32 word"
  blocked_until :: "instant option"

definition default_block_state :: ip_block_state where
  "default_block_state = \<lparr>strikes = 0, blocked_until = None\<rparr>"

datatype block_check = CheckAllowed | BlockedUntil instant

datatype strike_outcome = Counted "32 word" | Blocked instant

definition check :: "ip_block_state \<Rightarrow> instant \<Rightarrow> block_check" where
  "check s now =
     (case blocked_until s of
        Some until \<Rightarrow> if now < until then BlockedUntil until else CheckAllowed
      | None \<Rightarrow> CheckAllowed)"

definition saturating_inc :: "32 word \<Rightarrow> 32 word" where
  "saturating_inc w = (if w = -1 then w else w + 1)"

definition record_unverified ::
  "time_crate \<Rightarrow> instant \<Rightarrow> ip_block_state \<Rightarrow> ip_block_state \<times> strike_outcome" where
  "record_unverified tc now s =
     (let s = (case blocked_until s of
                 Some until \<Rightarrow> if until \<le> now then s\<lparr>blocked_until := None\<rparr> else s
               | None \<Rightarrow> s);
          s = s\<lparr>strikes := saturating_inc (strikes s)\<rparr> in
      if strikes s < unverified_requests_per_block then (s, Counted (strikes s))
      else
        (let until = tc_saturating_add tc now block_duration in
         (s\<lparr>strikes := 0, blocked_until := Some until\<rparr>, Blocked until)))"

section \<open>Counting\<close>

text \<open>The count never reaches the threshold at rest, so the saturating addition never saturates.\<close>

definition block_state_ok :: "ip_block_state \<Rightarrow> bool" where
  "block_state_ok s \<longleftrightarrow> strikes s < unverified_requests_per_block"

lemma saturating_inc_unat: "w < unverified_requests_per_block \<Longrightarrow> unat (saturating_inc w) = unat w + 1"
proof -
  assume w: "w < unverified_requests_per_block"
  then have "unat w < 20"
    by (simp add: unverified_requests_per_block_def word_less_nat_alt)
  moreover have "w \<noteq> -1" using w by (auto simp: unverified_requests_per_block_def)
  ultimately show ?thesis
    by (simp add: saturating_inc_def unat_word_ariths)
qed

inductive unverified_step :: "time_crate \<Rightarrow> ip_block_state \<Rightarrow> ip_block_state \<Rightarrow> bool" for tc where
  "check s now = CheckAllowed \<Longrightarrow> record_unverified tc now s = (t, outcome) \<Longrightarrow> unverified_step tc s t"

inductive_cases unverified_stepE: "unverified_step tc s t"

lemma record_unverified_ok: "block_state_ok (fst (record_unverified tc now s))"
  by (simp add: record_unverified_def block_state_ok_def Let_def unverified_requests_per_block_def
      split: option.splits)

interpretation strike_machine: transition_system "unverified_step tc" block_state_ok for tc
  by unfold_locales (metis fst_conv record_unverified_ok unverified_stepE)

lemma strikes_stay_below_the_threshold_parts:
  assumes "(unverified_step tc)\<^sup>*\<^sup>* default_block_state s"
  shows "strikes s < unverified_requests_per_block"
    and "unat (saturating_inc (strikes s)) = unat (strikes s) + 1"
proof -
  have "block_state_ok default_block_state"
    by (simp add: block_state_ok_def default_block_state_def unverified_requests_per_block_def)
  with strike_machine.steps_good [OF assms] show ok: "strikes s < unverified_requests_per_block"
    by (simp add: block_state_ok_def)
  show "unat (saturating_inc (strikes s)) = unat (strikes s) + 1"
    using ok by (rule saturating_inc_unat)
qed

text \<open>From the state a new address starts in, however often its unverified requests are recorded
  while it is allowed, the strike count at rest stays below twenty: counting restarts with every
  block and the 32-bit counter never saturates.\<close>

theorem strikes_stay_below_the_threshold:
  assumes "(unverified_step tc)\<^sup>*\<^sup>* default_block_state s"
  shows "strikes s < unverified_requests_per_block \<and>
    unat (saturating_inc (strikes s)) = unat (strikes s) + 1"
  using strikes_stay_below_the_threshold_parts [OF assms] by blast

theorem strikes_stay_below_the_threshold_witness:
  "strikes \<lparr>strikes = 1, blocked_until = None\<rparr> < unverified_requests_per_block"
proof -
  have "unverified_step demo_time_crate default_block_state \<lparr>strikes = 1, blocked_until = None\<rparr>"
    by (rule unverified_step.intros [where now = 0 and outcome = "Counted 1"])
      (simp_all add: check_def default_block_state_def record_unverified_def saturating_inc_def
        unverified_requests_per_block_def)
  then show ?thesis using strikes_stay_below_the_threshold by blast
qed

text \<open>A series of unverified requests, with what each recorded.\<close>

fun record_all :: "time_crate \<Rightarrow> instant list \<Rightarrow> ip_block_state \<Rightarrow> ip_block_state \<times> strike_outcome list" where
  "record_all tc [] s = (s, [])"
| "record_all tc (t # ts) s =
     (let (s, out) = record_unverified tc t s; (s, outs) = record_all tc ts s in (s, out # outs))"

lemma record_all_snoc:
  "record_all tc (ts @ [t]) s =
     (let (s, outs) = record_all tc ts s; (s, out) = record_unverified tc t s in (s, outs @ [out]))"
  by (induction ts arbitrary: s) (simp_all add: Let_def split: prod.splits)

lemma record_below:
  assumes "strikes s = of_nat k" "k + 1 < 20" "blocked_until s = None \<or> check s t = CheckAllowed"
  shows "record_unverified tc t s = (\<lparr>strikes = of_nat (k + 1), blocked_until = None\<rparr>, Counted (of_nat (k + 1)))"
proof -
  have w: "(of_nat k :: 32 word) < unverified_requests_per_block"
    using assms(2) by (simp add: unverified_requests_per_block_def word_less_nat_alt unat_of_nat)
  have "saturating_inc (of_nat k) = of_nat (k + 1)"
    using saturating_inc_unat [OF w] by (simp add: saturating_inc_def split: if_splits)
  moreover have "(of_nat (k + 1) :: 32 word) < 20"
    using assms(2) unfolding word_less_nat_alt by (simp only: unat_of_nat) simp
  ultimately show ?thesis using assms(1,3)
    by (cases s) (auto simp: record_unverified_def check_def unverified_requests_per_block_def Let_def
        split: option.splits if_splits)
qed

lemma record_twentieth:
  assumes "strikes s = 19" "blocked_until s = None"
  shows "record_unverified tc t s =
    (\<lparr>strikes = 0, blocked_until = Some (tc_saturating_add tc t block_duration)\<rparr>,
     Blocked (tc_saturating_add tc t block_duration))"
  using assms by (cases s)
    (simp add: record_unverified_def saturating_inc_def unverified_requests_per_block_def Let_def)

lemma count_run:
  assumes "strikes s = 0" "ts \<noteq> []" "length ts < 20" "check s (hd ts) = CheckAllowed"
  shows "record_all tc ts s =
    (\<lparr>strikes = of_nat (length ts), blocked_until = None\<rparr>, map (\<lambda>n. Counted (of_nat n)) [1..<length ts + 1])"
  using assms(2,3,4)
proof (induction ts rule: rev_nonempty_induct)
  case (single t)
  then show ?case using record_below [of s 0 t tc] assms(1) by simp
next
  case (snoc t ts)
  then have "record_all tc ts s =
    (\<lparr>strikes = of_nat (length ts), blocked_until = None\<rparr>, map (\<lambda>n. Counted (of_nat n)) [1..<length ts + 1])"
    by (simp add: hd_append split: if_splits)
  then show ?case
    using record_below [of "\<lparr>strikes = of_nat (length ts), blocked_until = None\<rparr>" "length ts" t tc] snoc.prems
    by (simp add: record_all_snoc)
qed

lemma twenty_unverified_requests_block_for_one_day_parts:
  assumes "time_adds tc" and "strikes s = 0" and "length ts = 19" and "check s (hd ts) = CheckAllowed"
    and "tc_checked_add tc t block_duration = Some until"
  shows "1 \<le> n \<Longrightarrow> n \<le> 19 \<Longrightarrow>
      snd (record_all tc (take n ts) s) = map (\<lambda>i. Counted (of_nat i)) [1..<n + 1] \<and>
      check (fst (record_all tc (take n ts) s)) now = CheckAllowed"
    and "record_all tc (ts @ [t]) s =
      (\<lparr>strikes = 0, blocked_until = Some (t + duration_days 1)\<rparr>,
       map (\<lambda>i. Counted (of_nat i)) [1..<20] @ [Blocked (t + duration_days 1)])"
    and "check (fst (record_all tc (ts @ [t]) s)) now =
      (if now < t + duration_days 1 then BlockedUntil (t + duration_days 1) else CheckAllowed)"
proof -
  have until: "tc_saturating_add tc t block_duration = t + duration_days 1"
    using assms(1,5) unfolding time_adds_def block_duration_def by metis
  have "ts \<noteq> []" using assms(3) by auto
  note run = count_run [OF assms(2) this _ assms(4), of tc]
  show run20: "record_all tc (ts @ [t]) s =
      (\<lparr>strikes = 0, blocked_until = Some (t + duration_days 1)\<rparr>,
       map (\<lambda>i. Counted (of_nat i)) [1..<20] @ [Blocked (t + duration_days 1)])"
    using run assms(3) record_twentieth [of "\<lparr>strikes = 19, blocked_until = None\<rparr>" tc t] until
    by (simp add: record_all_snoc)
  show "check (fst (record_all tc (ts @ [t]) s)) now =
      (if now < t + duration_days 1 then BlockedUntil (t + duration_days 1) else CheckAllowed)"
    by (simp add: run20 check_def)
  show "snd (record_all tc (take n ts) s) = map (\<lambda>i. Counted (of_nat i)) [1..<n + 1] \<and>
      check (fst (record_all tc (take n ts) s)) now = CheckAllowed" if "1 \<le> n" "n \<le> 19"
    using count_run [of s "take n ts" tc] that assms(2,3,4) \<open>ts \<noteq> []\<close>
    by (simp add: check_def [where now = now])
qed

text \<open>Twenty unverified requests block an address for one day. From a state without strikes in
  which the first request is allowed, the first nineteen are counted, one to nineteen, and leave the
  address allowed at every instant; the twentieth starts a block that ends exactly one day later, and
  until then and no longer the address is refused; the count starts over.\<close>

theorem twenty_unverified_requests_block_for_one_day:
  assumes "time_adds tc" and "strikes s = 0" and "length ts = 19" and "check s (hd ts) = CheckAllowed"
    and "tc_checked_add tc t block_duration = Some until"
  shows "(1 \<le> n \<longrightarrow> n \<le> 19 \<longrightarrow> (snd (record_all tc (take n ts) s) = map (\<lambda>i. Counted (of_nat i)) [1..<n + 1] \<and>
      check (fst (record_all tc (take n ts) s)) now = CheckAllowed)) \<and>
    record_all tc (ts @ [t]) s =
      (\<lparr>strikes = 0, blocked_until = Some (t + duration_days 1)\<rparr>,
       map (\<lambda>i. Counted (of_nat i)) [1..<20] @ [Blocked (t + duration_days 1)]) \<and>
    check (fst (record_all tc (ts @ [t]) s)) now =
      (if now < t + duration_days 1 then BlockedUntil (t + duration_days 1) else CheckAllowed)"
  using twenty_unverified_requests_block_for_one_day_parts [OF assms] by blast

theorem twenty_unverified_requests_block_for_one_day_witness:
  "check (fst (record_all demo_time_crate (replicate 19 0 @ [5]) default_block_state)) 6 =
     BlockedUntil (5 + duration_days 1)"
  using twenty_unverified_requests_block_for_one_day
    [of demo_time_crate default_block_state "replicate 19 0" 5 "5 + block_duration" 6]
  by (simp add: default_block_state_def check_def demo_time_crate_def [of] duration_days_def
      demo_time_adds [unfolded demo_time_crate_def])

end
