(* ===== verification/Hook.thy ===== *)
theory Hook
  imports HookValues Safety "HOL-Library.Option_ord"
begin

text \<open>
  The webhook aggregate (\<open>domain/hook.rs\<close>): its snapshot, creation, rehydration, the lifecycle
  transitions with their error order, rotation, update, and the receipt times. A method with a
  mutable receiver that returns a result is a function from the old aggregate to the new one or the
  error; on an error the source has changed nothing. \<open>Hook\<close> wraps its snapshot in a private field,
  so the two are one record here.
\<close>

section \<open>The aggregate\<close>

datatype hook_status = Active | Disabled | Deleted

record signing_policy =
  sp_required :: bool
  sp_config :: signature_config
  sp_encrypted_secret :: "encrypted_secret option"

record new_hook =
  nh_id :: hook_id
  nh_silicon_id :: silicon_id
  nh_silicon_uuid :: account_uuid
  nh_name :: hook_name
  nh_description :: "hook_description option"
  nh_endpoint_key :: endpoint_key
  nh_signing :: signing_policy
  nh_time_zone :: hook_time_zone
  nh_created_by :: actor_ref
  nh_created_at :: instant

record hook =
  hk_id :: hook_id
  hk_silicon_id :: silicon_id
  hk_silicon_uuid :: "account_uuid option"
  hk_name :: hook_name
  hk_description :: "hook_description option"
  hk_endpoint_key :: endpoint_key
  hk_signing :: signing_policy
  hk_time_zone :: hook_time_zone
  hk_status :: hook_status
  hk_created_by :: actor_ref
  hk_created_at :: instant
  hk_disabled_at :: "instant option"
  hk_deleted_at :: "instant option"
  hk_last_received_at :: "instant option"
  hk_last_blocked_at :: "instant option"
  hk_endpoint_rotated_at :: "instant option"

definition hook_recovery_days :: int where
  "hook_recovery_days = 45"

definition hook_create :: "new_hook \<Rightarrow> hook" where
  "hook_create n =
     \<lparr>hk_id = nh_id n, hk_silicon_id = nh_silicon_id n, hk_silicon_uuid = Some (nh_silicon_uuid n),
      hk_name = nh_name n, hk_description = nh_description n, hk_endpoint_key = nh_endpoint_key n,
      hk_signing = nh_signing n, hk_time_zone = nh_time_zone n, hk_status = Active,
      hk_created_by = nh_created_by n, hk_created_at = nh_created_at n, hk_disabled_at = None,
      hk_deleted_at = None, hk_last_received_at = None, hk_last_blocked_at = None,
      hk_endpoint_rotated_at = None\<rparr>"

definition lifecycle_is_consistent :: "hook \<Rightarrow> bool" where
  "lifecycle_is_consistent h \<longleftrightarrow>
     (case (hk_status h, hk_disabled_at h, hk_deleted_at h) of
        (Active, None, None) \<Rightarrow> True
      | (Disabled, Some _, None) \<Rightarrow> True
      | (Deleted, None, Some _) \<Rightarrow> True
      | _ \<Rightarrow> False)"

fun check_timestamps :: "instant \<Rightarrow> (string \<times> instant option) list \<Rightarrow> (unit, domain_error) result" where
  "check_timestamps created [] = Ok ()"
| "check_timestamps created ((field, timestamp) # rest) =
     (if (case timestamp of Some t \<Rightarrow> t < created | None \<Rightarrow> False)
      then Err (InvalidFormat field ''must not precede created_at'')
      else check_timestamps created rest)"

definition hook_rehydrate :: "hook \<Rightarrow> (hook, domain_error) result" where
  "hook_rehydrate h =
     (if \<not> lifecycle_is_consistent h
      then Err (InvalidFormat ''hook_status'' ''lifecycle status must have exactly its corresponding timestamp'')
      else
        and_then
          (check_timestamps (hk_created_at h)
             [(''disabled_at'', hk_disabled_at h), (''deleted_at'', hk_deleted_at h),
              (''endpoint_rotated_at'', hk_endpoint_rotated_at h)])
          (\<lambda>_. Ok h))"

definition is_enabled :: "hook \<Rightarrow> bool" where
  "is_enabled h \<longleftrightarrow> hk_status h = Active"

definition encrypted_signing_secret :: "hook \<Rightarrow> encrypted_secret option" where
  "encrypted_signing_secret h = sp_encrypted_secret (hk_signing h)"

definition is_retained_at :: "time_crate \<Rightarrow> instant \<Rightarrow> hook \<Rightarrow> bool" where
  "is_retained_at tc now h \<longleftrightarrow>
     (case hk_deleted_at h of
        None \<Rightarrow> True
      | Some deleted_at \<Rightarrow>
          (case tc_checked_add tc deleted_at (duration_days hook_recovery_days) of
             None \<Rightarrow> False
           | Some deadline \<Rightarrow> now \<le> deadline))"

section \<open>Transitions\<close>

definition hook_disable :: "instant \<Rightarrow> hook \<Rightarrow> (hook, transition_error) result" where
  "hook_disable disabled_at h =
     (case hk_status h of
        Deleted \<Rightarrow> Err HookAlreadyDeleted
      | Disabled \<Rightarrow> Ok h
      | Active \<Rightarrow>
          if disabled_at < hk_created_at h
          then Err (TimestampOutOfOrder ''disabled_at'' ''created_at'')
          else Ok (h\<lparr>hk_status := Disabled, hk_disabled_at := Some disabled_at\<rparr>))"

definition hook_enable :: "instant \<Rightarrow> hook \<Rightarrow> (hook, transition_error) result" where
  "hook_enable enabled_at h =
     (case hk_status h of
        Deleted \<Rightarrow> Err HookAlreadyDeleted
      | Active \<Rightarrow> Ok h
      | Disabled \<Rightarrow>
          and_then (ok_or HookNotDisabled (hk_disabled_at h))
            (\<lambda>disabled_at.
               if enabled_at < disabled_at
               then Err (TimestampOutOfOrder ''enabled_at'' ''disabled_at'')
               else Ok (h\<lparr>hk_status := Active, hk_disabled_at := None\<rparr>)))"

definition hook_delete :: "instant \<Rightarrow> hook \<Rightarrow> (hook, transition_error) result" where
  "hook_delete deleted_at h =
     (if hk_status h = Deleted then Err HookAlreadyDeleted
      else if deleted_at < hk_created_at h
        then Err (TimestampOutOfOrder ''deleted_at'' ''created_at'')
      else if (case hk_disabled_at h of Some disabled_at \<Rightarrow> deleted_at < disabled_at | None \<Rightarrow> False)
        then Err (TimestampOutOfOrder ''deleted_at'' ''disabled_at'')
      else Ok (h\<lparr>hk_status := Deleted, hk_disabled_at := None, hk_deleted_at := Some deleted_at\<rparr>))"

definition hook_restore :: "time_crate \<Rightarrow> instant \<Rightarrow> hook \<Rightarrow> (hook, transition_error) result" where
  "hook_restore tc now h =
     (if hk_status h \<noteq> Deleted then Err HookNotDeleted
      else
        (case hk_deleted_at h of
           None \<Rightarrow> Err HookNotDeleted
         | Some deleted_at \<Rightarrow>
             and_then
               (ok_or HookRecoveryExpired
                 (tc_checked_add tc deleted_at (duration_days hook_recovery_days)))
               (\<lambda>deadline.
                  if deadline < now then Err HookRecoveryExpired
                  else if now < deleted_at
                    then Err (TimestampOutOfOrder ''restored_at'' ''deleted_at'')
                  else Ok (h\<lparr>hk_status := Active, hk_disabled_at := None, hk_deleted_at := None\<rparr>))))"

definition hook_rotate_secret :: "encrypted_secret \<Rightarrow> hook \<Rightarrow> (hook, transition_error) result" where
  "hook_rotate_secret secret h =
     (if hk_status h = Deleted then Err HookAlreadyDeleted
      else Ok (h\<lparr>hk_signing := (hk_signing h)\<lparr>sp_encrypted_secret := Some secret\<rparr>\<rparr>))"

text \<open>The retired key is returned, for the caller to reserve it for good.\<close>

definition hook_rotate_endpoint ::
  "endpoint_key \<Rightarrow> instant \<Rightarrow> hook \<Rightarrow> (hook \<times> endpoint_key, transition_error) result" where
  "hook_rotate_endpoint replacement rotated_at h =
     (if hk_status h = Deleted then Err HookAlreadyDeleted
      else if rotated_at < hk_created_at h
        then Err (TimestampOutOfOrder ''endpoint_rotated_at'' ''created_at'')
      else Ok (h\<lparr>hk_endpoint_key := replacement, hk_endpoint_rotated_at := Some rotated_at\<rparr>,
               hk_endpoint_key h))"

record hook_update =
  hu_name :: "hook_name option"
  hu_description :: "hook_description option option"
  hu_time_zone :: "hook_time_zone option"
  hu_signing :: "signing_policy option"

definition hook_apply_update :: "hook_update \<Rightarrow> hook \<Rightarrow> (hook, transition_error) result" where
  "hook_apply_update u h =
     (if hk_status h = Deleted then Err HookAlreadyDeleted
      else
        (let h = (case hu_name u of Some n \<Rightarrow> h\<lparr>hk_name := n\<rparr> | None \<Rightarrow> h);
             h = (case hu_description u of Some d \<Rightarrow> h\<lparr>hk_description := d\<rparr> | None \<Rightarrow> h);
             h = (case hu_time_zone u of Some z \<Rightarrow> h\<lparr>hk_time_zone := z\<rparr> | None \<Rightarrow> h);
             h = (case hu_signing u of Some s \<Rightarrow> h\<lparr>hk_signing := s\<rparr> | None \<Rightarrow> h) in
         Ok h))"

definition hook_record_received :: "instant \<Rightarrow> hook \<Rightarrow> hook" where
  "hook_record_received at h =
     h\<lparr>hk_last_received_at :=
         Some (case hk_last_received_at h of None \<Rightarrow> at | Some existing \<Rightarrow> max existing at)\<rparr>"

definition hook_record_blocked :: "instant \<Rightarrow> hook \<Rightarrow> hook" where
  "hook_record_blocked at h =
     h\<lparr>hk_last_blocked_at :=
         Some (case hk_last_blocked_at h of None \<Rightarrow> at | Some existing \<Rightarrow> max existing at)\<rparr>"

section \<open>Well-formed aggregates\<close>

definition wf_hook :: "hook \<Rightarrow> bool" where
  "wf_hook h \<longleftrightarrow>
     (hk_status h = Active \<longrightarrow> hk_disabled_at h = None \<and> hk_deleted_at h = None) \<and>
     (hk_status h = Disabled \<longrightarrow> hk_disabled_at h \<noteq> None \<and> hk_deleted_at h = None) \<and>
     (hk_status h = Deleted \<longrightarrow> hk_disabled_at h = None \<and> hk_deleted_at h \<noteq> None) \<and>
     (\<forall>t. Some t \<in> {hk_disabled_at h, hk_deleted_at h, hk_endpoint_rotated_at h} \<longrightarrow> hk_created_at h \<le> t)"

lemma rehydrate_iff: "hook_rehydrate h = Ok h' \<longleftrightarrow> wf_hook h \<and> h' = h"
  by (cases "hk_status h"; cases "hk_disabled_at h"; cases "hk_deleted_at h";
      cases "hk_endpoint_rotated_at h")
    (auto simp: hook_rehydrate_def lifecycle_is_consistent_def wf_hook_def)

text \<open>Every operation of the aggregate, as one relation.\<close>

inductive hook_step :: "time_crate \<Rightarrow> hook \<Rightarrow> hook \<Rightarrow> bool" for tc where
  step_disable: "hook_disable t h = Ok h' \<Longrightarrow> hook_step tc h h'"
| step_enable: "hook_enable t h = Ok h' \<Longrightarrow> hook_step tc h h'"
| step_delete: "hook_delete t h = Ok h' \<Longrightarrow> hook_step tc h h'"
| step_restore: "hook_restore tc t h = Ok h' \<Longrightarrow> hook_step tc h h'"
| step_rotate_secret: "hook_rotate_secret s h = Ok h' \<Longrightarrow> hook_step tc h h'"
| step_rotate_endpoint: "hook_rotate_endpoint k t h = Ok (h', retired) \<Longrightarrow> hook_step tc h h'"
| step_update: "hook_apply_update u h = Ok h' \<Longrightarrow> hook_step tc h h'"
| step_received: "hook_step tc h (hook_record_received t h)"
| step_blocked: "hook_step tc h (hook_record_blocked t h)"

inductive_cases hook_stepE: "hook_step tc h h'"

named_theorems hook_ops \<open>definitions of the transitions of the aggregate\<close>

declare hook_disable_def [hook_ops] hook_enable_def [hook_ops] hook_delete_def [hook_ops]
  hook_restore_def [hook_ops] hook_rotate_secret_def [hook_ops] hook_rotate_endpoint_def [hook_ops]
  hook_record_received_def [hook_ops] hook_record_blocked_def [hook_ops]

lemma apply_update_Ok:
  "hook_apply_update u h = Ok h' \<longleftrightarrow>
     hk_status h \<noteq> Deleted \<and>
     h' = h\<lparr>hk_name := (case hu_name u of Some n \<Rightarrow> n | None \<Rightarrow> hk_name h),
            hk_description := (case hu_description u of Some d \<Rightarrow> d | None \<Rightarrow> hk_description h),
            hk_time_zone := (case hu_time_zone u of Some z \<Rightarrow> z | None \<Rightarrow> hk_time_zone h),
            hk_signing := (case hu_signing u of Some s \<Rightarrow> s | None \<Rightarrow> hk_signing h)\<rparr>"
  by (cases h) (auto simp: hook_apply_update_def Let_def split: option.splits)

lemma wf_hook_step: "hook_step tc h h' \<Longrightarrow> wf_hook h \<Longrightarrow> wf_hook h'"
proof (induction rule: hook_step.induct)
  case (step_update u h h')
  then show ?case by (auto simp: apply_update_Ok wf_hook_def)
qed (auto simp: hook_ops wf_hook_def result_simps split: hook_status.splits if_splits option.splits)

interpretation hook_lifecycle: transition_system "hook_step tc" wf_hook for tc
  by unfold_locales (rule wf_hook_step)

lemma wf_hook_create [simp]: "wf_hook (hook_create n)"
  by (simp add: wf_hook_def hook_create_def)

section \<open>What no operation changes, and what only grows\<close>

definition same_identity :: "hook \<Rightarrow> hook \<Rightarrow> bool" where
  "same_identity h g \<longleftrightarrow>
     hk_id g = hk_id h \<and> hk_silicon_id g = hk_silicon_id h \<and> hk_silicon_uuid g = hk_silicon_uuid h \<and>
     hk_created_by g = hk_created_by h \<and> hk_created_at g = hk_created_at h"

lemma same_identity_refl [simp]: "same_identity h h"
  by (simp add: same_identity_def)

lemma same_identity_trans: "same_identity h g \<Longrightarrow> same_identity g k \<Longrightarrow> same_identity h k"
  by (simp add: same_identity_def)

lemma same_identity_updates [simp]:
  "same_identity h (hk_name_update f g) = same_identity h g"
  "same_identity h (hk_description_update f' g) = same_identity h g"
  "same_identity h (hk_endpoint_key_update k g) = same_identity h g"
  "same_identity h (hk_signing_update s g) = same_identity h g"
  "same_identity h (hk_time_zone_update z g) = same_identity h g"
  "same_identity h (hk_status_update u g) = same_identity h g"
  "same_identity h (hk_disabled_at_update t g) = same_identity h g"
  "same_identity h (hk_deleted_at_update t g) = same_identity h g"
  "same_identity h (hk_last_received_at_update t g) = same_identity h g"
  "same_identity h (hk_last_blocked_at_update t g) = same_identity h g"
  "same_identity h (hk_endpoint_rotated_at_update t g) = same_identity h g"
  by (simp_all add: same_identity_def)

lemma same_identity_step: "hook_step tc h h' \<Longrightarrow> same_identity h h'"
proof (induction rule: hook_step.induct)
  case (step_update u h h')
  then show ?case by (auto simp: apply_update_Ok)
qed (auto simp: hook_ops result_simps split: hook_status.splits if_splits option.splits)

interpretation hook_identity: transition_system "hook_step tc" "same_identity h" for tc h
  by unfold_locales (rule same_identity_trans, assumption, rule same_identity_step)

lemma receipts_step:
  "hook_step tc h h' \<Longrightarrow>
     hk_last_received_at h \<le> hk_last_received_at h' \<and> hk_last_blocked_at h \<le> hk_last_blocked_at h'"
proof (induction rule: hook_step.induct)
  case (step_update u h h')
  then show ?case by (auto simp: apply_update_Ok)
qed (auto simp: hook_ops result_simps split: hook_status.splits if_splits option.splits)

interpretation receipts: monotone_system "hook_step tc" wf_hook hk_last_received_at for tc
  by unfold_locales (use receipts_step in blast)

interpretation blocks: monotone_system "hook_step tc" wf_hook hk_last_blocked_at for tc
  by unfold_locales (use receipts_step in blast)

lemma reachable_hooks_rehydrate_parts:
  assumes "(hook_step tc)\<^sup>*\<^sup>* (hook_create n) g" and "(hook_step tc)\<^sup>*\<^sup>* g h"
  shows "hook_rehydrate h = Ok h"
    and "hk_id h = nh_id n \<and> hk_silicon_id h = nh_silicon_id n \<and> hk_silicon_uuid h = Some (nh_silicon_uuid n) \<and>
      hk_created_by h = nh_created_by n \<and> hk_created_at h = nh_created_at n"
    and "hk_last_received_at g \<le> hk_last_received_at h \<and> hk_last_blocked_at g \<le> hk_last_blocked_at h"
proof -
  have g: "wf_hook g" using assms(1) by (rule hook_lifecycle.steps_good) simp
  with assms(2) have "wf_hook h" by (rule hook_lifecycle.steps_good)
  then show "hook_rehydrate h = Ok h" by (simp add: rehydrate_iff)
  have "same_identity (hook_create n) h"
    using assms rtranclp_trans [of "hook_step tc"] by (blast intro: hook_identity.steps_good same_identity_refl)
  then show "hk_id h = nh_id n \<and> hk_silicon_id h = nh_silicon_id n \<and> hk_silicon_uuid h = Some (nh_silicon_uuid n) \<and>
      hk_created_by h = nh_created_by n \<and> hk_created_at h = nh_created_at n"
    by (simp add: same_identity_def hook_create_def)
  show "hk_last_received_at g \<le> hk_last_received_at h \<and> hk_last_blocked_at g \<le> hk_last_blocked_at h"
    using receipts.steps_level [OF assms(2) g] blocks.steps_level [OF assms(2) g] by blast
qed

text \<open>C24: Every hook that operations can produce from a created one is accepted unchanged when it is
  read back: status and timestamps stay consistent, and no timestamp precedes creation. Throughout,
  the identity, the owner, the creator and the creation time stay what they were, and the times of
  the last verified and the last blocked request never go back.\<close>

theorem reachable_hooks_rehydrate:
  assumes "(hook_step tc)\<^sup>*\<^sup>* (hook_create n) g" and "(hook_step tc)\<^sup>*\<^sup>* g h"
  shows "hook_rehydrate h = Ok h \<and>
    (hk_id h = nh_id n \<and> hk_silicon_id h = nh_silicon_id n \<and> hk_silicon_uuid h = Some (nh_silicon_uuid n) \<and>
      hk_created_by h = nh_created_by n \<and> hk_created_at h = nh_created_at n) \<and>
    (hk_last_received_at g \<le> hk_last_received_at h \<and> hk_last_blocked_at g \<le> hk_last_blocked_at h)"
  using reachable_hooks_rehydrate_parts [OF assms] by blast

definition demo_new_hook :: new_hook where
  "demo_new_hook =
     \<lparr>nh_id = HookId 1, nh_silicon_id = SiliconId (lit ''8HV''), nh_silicon_uuid = AccountUuid (lit ''8HV''),
      nh_name = HookName (lit ''GitHub''), nh_description = None, nh_endpoint_key = EndpointKey (lit ''A0B1C2D3''),
      nh_signing = \<lparr>sp_required = False, sp_config = demo_ed25519_config, sp_encrypted_secret = None\<rparr>,
      nh_time_zone = default_time_zone,
      nh_created_by = actor_ref_account Carbon (AccountUuid (lit ''b97'')), nh_created_at = 0\<rparr>"

theorem reachable_hooks_rehydrate_witness:
  "\<exists>h. hook_disable 7 (hook_create demo_new_hook) = Ok h \<and> hook_rehydrate h = Ok h \<and>
     hk_last_received_at (hook_create demo_new_hook) \<le> hk_last_received_at h"
proof -
  obtain h where h: "hook_disable 7 (hook_create demo_new_hook) = Ok h"
    by (simp add: hook_disable_def hook_create_def demo_new_hook_def)
  then have "(hook_step demo_time_crate)\<^sup>*\<^sup>* (hook_create demo_new_hook) h"
    by (blast intro: step_disable)
  from h reachable_hooks_rehydrate [OF rtranclp.rtrancl_refl this] show ?thesis by blast
qed

section \<open>The abstract lifecycle\<close>

text \<open>
  The contract of the lifecycle without the other fields: a hook serves, or is paused since an
  instant, or was removed at one. Status and timestamps cannot disagree here.
\<close>

datatype life = Serving | Paused instant | Removed instant

definition hook_life :: "hook \<Rightarrow> life" where
  "hook_life h =
     (case hk_status h of
        Active \<Rightarrow> Serving
      | Disabled \<Rightarrow> Paused (the (hk_disabled_at h))
      | Deleted \<Rightarrow> Removed (the (hk_deleted_at h)))"

fun life_disable :: "instant \<Rightarrow> instant \<Rightarrow> life \<Rightarrow> (life, transition_error) result" where
  "life_disable created t Serving =
     (if created \<le> t then Ok (Paused t) else Err (TimestampOutOfOrder ''disabled_at'' ''created_at''))"
| "life_disable created t (Paused s) = Ok (Paused s)"
| "life_disable created t (Removed s) = Err HookAlreadyDeleted"

fun life_enable :: "instant \<Rightarrow> life \<Rightarrow> (life, transition_error) result" where
  "life_enable t Serving = Ok Serving"
| "life_enable t (Paused s) =
     (if s \<le> t then Ok Serving else Err (TimestampOutOfOrder ''enabled_at'' ''disabled_at''))"
| "life_enable t (Removed s) = Err HookAlreadyDeleted"

fun life_delete :: "instant \<Rightarrow> instant \<Rightarrow> life \<Rightarrow> (life, transition_error) result" where
  "life_delete created t Serving =
     (if created \<le> t then Ok (Removed t) else Err (TimestampOutOfOrder ''deleted_at'' ''created_at''))"
| "life_delete created t (Paused s) =
     (if s \<le> t then Ok (Removed t)
      else if created \<le> t then Err (TimestampOutOfOrder ''deleted_at'' ''disabled_at'')
      else Err (TimestampOutOfOrder ''deleted_at'' ''created_at''))"
| "life_delete created t (Removed s) = Err HookAlreadyDeleted"

fun life_restore :: "instant \<Rightarrow> life \<Rightarrow> (life, transition_error) result" where
  "life_restore t (Removed s) =
     (if s + duration_days 45 < t then Err HookRecoveryExpired
      else if s \<le> t then Ok Serving
      else Err (TimestampOutOfOrder ''restored_at'' ''deleted_at''))"
| "life_restore t _ = Err HookNotDeleted"

text \<open>The end of the recovery period of the hook, if it has one, is a representable instant.\<close>

definition deadline_representable :: "time_crate \<Rightarrow> hook \<Rightarrow> bool" where
  "deadline_representable tc h \<longleftrightarrow>
     (\<forall>d. hk_deleted_at h = Some d \<longrightarrow> tc_checked_add tc d (duration_days hook_recovery_days) \<noteq> None)"

lemma deadline:
  assumes "time_adds tc" "deadline_representable tc h" "hk_deleted_at h = Some d"
  shows "tc_checked_add tc d (duration_days hook_recovery_days) = Some (d + duration_days 45)"
  using assms unfolding deadline_representable_def time_adds_def hook_recovery_days_def
  by (metis not_None_eq)

lemma hook_refines_lifecycle_parts:
  assumes "wf_hook h"
  shows "map_ok hook_life (hook_disable t h) = life_disable (hk_created_at h) t (hook_life h)"
    and "map_ok hook_life (hook_enable t h) = life_enable t (hook_life h)"
    and "map_ok hook_life (hook_delete t h) = life_delete (hk_created_at h) t (hook_life h)"
    and "time_adds tc \<Longrightarrow> deadline_representable tc h \<Longrightarrow>
      map_ok hook_life (hook_restore tc t h) = life_restore t (hook_life h)"
    and "hook_rotate_endpoint k t h = Ok (h', retired) \<Longrightarrow> hook_life h' = hook_life h \<and> retired = hk_endpoint_key h"
    and "hook_rotate_secret s h = Ok h' \<or> hook_apply_update u h = Ok h' \<or> hook_record_received t h = h' \<or>
      hook_record_blocked t h = h' \<Longrightarrow> hook_life h' = hook_life h"
proof -
  show "map_ok hook_life (hook_restore tc t h) = life_restore t (hook_life h)"
    if "time_adds tc" "deadline_representable tc h"
    using assms deadline [OF that]
    by (cases "hk_status h") (auto simp: hook_restore_def hook_life_def wf_hook_def)
  show "hook_life h' = hook_life h"
    if "hook_rotate_secret s h = Ok h' \<or> hook_apply_update u h = Ok h' \<or> hook_record_received t h = h' \<or>
      hook_record_blocked t h = h'"
    using that by (auto simp: hook_ops apply_update_Ok hook_life_def split: if_splits hook_status.splits)
qed (use assms in \<open>cases "hk_status h"; force simp: hook_ops hook_life_def wf_hook_def split: if_splits\<close>)+

text \<open>C25: The aggregate implements the abstract lifecycle. On every well-formed hook, disabling, enabling,
  deleting and restoring succeed exactly when the abstract operation does, with the abstract result
  and the same error otherwise; rotating, updating and recording receipts do not move the lifecycle.\<close>

theorem hook_refines_lifecycle:
  assumes "wf_hook h"
  shows "map_ok hook_life (hook_disable t h) = life_disable (hk_created_at h) t (hook_life h) \<and>
    map_ok hook_life (hook_enable t h) = life_enable t (hook_life h) \<and>
    map_ok hook_life (hook_delete t h) = life_delete (hk_created_at h) t (hook_life h) \<and>
    (time_adds tc \<longrightarrow> deadline_representable tc h \<longrightarrow> map_ok hook_life (hook_restore tc t h) = life_restore t (hook_life h)) \<and>
    (hook_rotate_endpoint k t h = Ok (h', retired) \<longrightarrow> (hook_life h' = hook_life h \<and> retired = hk_endpoint_key h)) \<and>
    ((hook_rotate_secret s h = Ok h' \<or> hook_apply_update u h = Ok h' \<or> hook_record_received t h = h' \<or>
      hook_record_blocked t h = h') \<longrightarrow> hook_life h' = hook_life h)"
  using hook_refines_lifecycle_parts [OF assms] by blast

theorem hook_refines_lifecycle_witness:
  "map_ok hook_life (hook_disable 7 (hook_create demo_new_hook)) = Ok (Paused 7)"
  using hook_refines_lifecycle [OF wf_hook_create, of 7 demo_new_hook]
  by (simp add: hook_life_def hook_create_def demo_new_hook_def)

section \<open>Deletion and recovery\<close>

lemma delete_then_restore_parts:
  assumes "time_adds tc" and "tc_checked_add tc t (duration_days hook_recovery_days) \<noteq> None"
    and "wf_hook h" and "hook_delete t h = Ok g"
  shows "t \<le> now \<Longrightarrow> now \<le> t + duration_days 45 \<Longrightarrow>
      hook_restore tc now g = Ok (h\<lparr>hk_status := Active, hk_disabled_at := None\<rparr>)"
    and "now < t \<or> t + duration_days 45 < now \<Longrightarrow> \<exists>e. hook_restore tc now g = Err e"
    and "is_retained_at tc now g \<longleftrightarrow> now \<le> t + duration_days 45"
    and "\<exists>e. hook_disable now g = Err e \<and> hook_enable now g = Err e \<and> hook_delete now g = Err e \<and>
      hook_rotate_secret s g = Err e \<and> hook_rotate_endpoint k now g = Err e \<and> hook_apply_update u g = Err e \<and>
      e = HookAlreadyDeleted"
proof -
  have g: "g = h\<lparr>hk_status := Deleted, hk_disabled_at := None, hk_deleted_at := Some t\<rparr>"
    and alive: "hk_deleted_at h = None"
    using assms(3,4) by (cases "hk_status h"; auto simp: hook_delete_def wf_hook_def split: if_splits)+
  have d: "tc_checked_add tc t (duration_days hook_recovery_days) = Some (t + duration_days 45)"
    using deadline [of tc g t] assms(1,2) by (simp add: g deadline_representable_def)
  show "hook_restore tc now g = Ok (h\<lparr>hk_status := Active, hk_disabled_at := None\<rparr>)"
    if "t \<le> now" "now \<le> t + duration_days 45"
    using that alive by (cases h) (simp add: g hook_restore_def d)
  show "\<exists>e. hook_restore tc now g = Err e" if "now < t \<or> t + duration_days 45 < now"
    using that by (auto simp: g hook_restore_def d)
  show "is_retained_at tc now g \<longleftrightarrow> now \<le> t + duration_days 45"
    by (simp add: g is_retained_at_def d)
  show "\<exists>e. hook_disable now g = Err e \<and> hook_enable now g = Err e \<and> hook_delete now g = Err e \<and>
      hook_rotate_secret s g = Err e \<and> hook_rotate_endpoint k now g = Err e \<and> hook_apply_update u g = Err e \<and>
      e = HookAlreadyDeleted"
    by (simp add: g hook_ops hook_apply_update_def)
qed

text \<open>Deleting and restoring undo each other within 45 days and at no other time. A hook deleted at
  \<open>t\<close> can be restored exactly from \<open>t\<close> through 45 days after it, inclusive; it is then retained, and
  every field is what it was, except that it serves again even if it had been disabled.\<close>

theorem delete_then_restore:
  assumes "time_adds tc" and "tc_checked_add tc t (duration_days hook_recovery_days) \<noteq> None"
    and "wf_hook h" and "hook_delete t h = Ok g"
  shows "(t \<le> now \<longrightarrow> now \<le> t + duration_days 45 \<longrightarrow> hook_restore tc now g = Ok (h\<lparr>hk_status := Active, hk_disabled_at := None\<rparr>)) \<and>
    ((now < t \<or> t + duration_days 45 < now) \<longrightarrow> (\<exists>e. hook_restore tc now g = Err e)) \<and>
    (is_retained_at tc now g \<longleftrightarrow> now \<le> t + duration_days 45) \<and>
    (\<exists>e. hook_disable now g = Err e \<and> hook_enable now g = Err e \<and> hook_delete now g = Err e \<and>
      hook_rotate_secret s g = Err e \<and> hook_rotate_endpoint k now g = Err e \<and> hook_apply_update u g = Err e \<and>
      e = HookAlreadyDeleted)"
  using delete_then_restore_parts [OF assms] by blast

theorem delete_then_restore_witness:
  "\<exists>g. hook_delete 7 (hook_create demo_new_hook) = Ok g \<and>
     hook_restore demo_time_crate 9 g = Ok (hook_create demo_new_hook)"
proof -
  obtain g where g: "hook_delete 7 (hook_create demo_new_hook) = Ok g"
    by (simp add: hook_delete_def hook_create_def demo_new_hook_def)
  have "hook_restore demo_time_crate 9 g =
      Ok ((hook_create demo_new_hook)\<lparr>hk_status := Active, hk_disabled_at := None\<rparr>)"
    by (rule delete_then_restore [OF demo_time_adds _ wf_hook_create g, THEN conjunct1, rule_format])
      (simp_all add: demo_time_crate_def duration_days_def)
  moreover have "(hook_create demo_new_hook)\<lparr>hk_status := Active, hk_disabled_at := None\<rparr> =
      hook_create demo_new_hook"
    by (simp add: hook_create_def)
  ultimately show ?thesis using g by simp
qed

end
