(* ===== verification/Verify.thy ===== *)
theory Verify
  imports Config EvalProps
begin

text \<open>
  Verification of a captured request against a signature configuration
  (\<open>domain/signature/verify.rs\<close>): preparing key material, evaluating the payload and the
  presented signature, splitting the presented value into candidates, decoding them, and the
  comparison with the expected tag or the check against the public key.
\<close>

section \<open>Bounds, material and reasons\<close>

definition max_signature_candidates :: nat where
  "max_signature_candidates = 16"

definition max_presented_signature_bytes :: nat where
  "max_presented_signature_bytes = 8 * 1024"

record hook_context =
  hc_id :: ustring
  hc_url :: ustring

record 'k verification_material =
  vm_secret :: "bytes option"
  vm_public_key :: "'k public_key option"
  vm_public_key_der :: "bytes option"

datatype material_error = MaterialSecret secret_encoding | MaterialPublicKey public_key_error

definition config_material ::
  "'u crates \<Rightarrow> 'k key_crates \<Rightarrow> signature_config \<Rightarrow> ustring option \<Rightarrow>
   ('k verification_material, material_error) result" where
  "config_material cr kc c secret =
     and_then (map_err MaterialSecret
         (transpose_opt (map_option (secret_decode cr (sc_secret_encoding c)) secret)))
       (\<lambda>s. and_then (map_err MaterialPublicKey (config_public_key cr kc c))
          (\<lambda>key. and_then (map_err MaterialPublicKey (transpose_opt (map_option (to_spki_der kc) key)))
             (\<lambda>der. Ok \<lparr>vm_secret = s, vm_public_key = key, vm_public_key_der = der\<rparr>)))"

datatype rejection_reason =
    PayloadUnavailable eval_error
  | SignatureUnavailable eval_error
  | SignatureMissing
  | SignatureNotText
  | SignatureTooLarge
  | SignatureMismatch
  | SecretMissing
  | PublicKeyMissing

fun rejection_code :: "rejection_reason \<Rightarrow> string" where
  "rejection_code (PayloadUnavailable _) = ''payload_unavailable''"
| "rejection_code (SignatureUnavailable _) = ''signature_unavailable''"
| "rejection_code SignatureMissing = ''signature_missing''"
| "rejection_code SignatureNotText = ''signature_not_text''"
| "rejection_code SignatureTooLarge = ''signature_too_large''"
| "rejection_code SignatureMismatch = ''signature_mismatch''"
| "rejection_code SecretMissing = ''secret_missing''"
| "rejection_code PublicKeyMissing = ''public_key_missing''"

datatype verification_outcome = Verified | Rejected rejection_reason

section \<open>Candidates\<close>

definition label_byte :: "byte \<Rightarrow> bool" where
  "label_byte b \<longleftrightarrow> is_ascii_alphanumeric (unat b) \<or> unat b = 95 \<or> unat b = 45"

definition label_ok :: "ustring \<Rightarrow> bool" where
  "label_ok label \<longleftrightarrow>
     1 \<le> str_len label \<and> str_len label \<le> 16 \<and> list_all label_byte (utf8 label)"

text \<open>The token itself, and the part after a short label if there is still room.\<close>

definition push_candidates :: "ustring list \<Rightarrow> ustring \<Rightarrow> ustring list" where
  "push_candidates cs t =
     (let cs = cs @ [t] in
      case split_once 61 t of
        Some (label, rest) \<Rightarrow>
          if rest \<noteq> [] \<and> label_ok label \<and> length cs < max_signature_candidates
          then cs @ [rest] else cs
      | None \<Rightarrow> cs)"

fun candidates_loop :: "ustring list \<Rightarrow> ustring list \<Rightarrow> ustring list" where
  "candidates_loop [] cs = cs"
| "candidates_loop (t # ts) cs =
     (if t = [] then candidates_loop ts cs
      else if max_signature_candidates \<le> length cs then cs
      else candidates_loop ts (push_candidates cs t))"

definition candidates :: "ustring \<Rightarrow> ustring list" where
  "candidates presented =
     candidates_loop (split_on (\<lambda>c. is_whitespace c \<or> c = 44) presented) []"

definition decode_candidate :: "'u crates \<Rightarrow> signature_encoding \<Rightarrow> ustring \<Rightarrow> bytes option" where
  "decode_candidate cr enc candidate =
     (case enc of
        SigHex \<Rightarrow> cr_hex_decode cr candidate
      | SigBase64 \<Rightarrow>
          or_else (cr_base64_decode cr STANDARD candidate)
            (cr_base64_decode cr STANDARD_NO_PAD candidate)
      | SigBase64Url \<Rightarrow>
          or_else (cr_base64_decode cr URL_SAFE_NO_PAD candidate)
            (cr_base64_decode cr URL_SAFE candidate)
      | SigRaw \<Rightarrow> Some (utf8 candidate))"

section \<open>Verification\<close>

definition symmetric_signature ::
  "'u crates \<Rightarrow> 'k key_crates \<Rightarrow> algorithm \<Rightarrow> bytes \<Rightarrow> bytes \<Rightarrow> bytes option" where
  "symmetric_signature cr kc alg secret payload =
     (case alg of
        HmacSha1 \<Rightarrow> kc_hmac kc HashSha1 secret payload
      | HmacSha256 \<Rightarrow> kc_hmac kc HashSha256 secret payload
      | HmacSha384 \<Rightarrow> kc_hmac kc HashSha384 secret payload
      | HmacSha512 \<Rightarrow> kc_hmac kc HashSha512 secret payload
      | DigestSha1 \<Rightarrow> Some (cr_digest cr HashSha1 payload)
      | DigestSha256 \<Rightarrow> Some (cr_digest cr HashSha256 payload)
      | DigestSha384 \<Rightarrow> Some (cr_digest cr HashSha384 payload)
      | DigestSha512 \<Rightarrow> Some (cr_digest cr HashSha512 payload)
      | _ \<Rightarrow> None)"

definition asymmetric_matches ::
  "'k key_crates \<Rightarrow> algorithm \<Rightarrow> 'k public_key \<Rightarrow> bytes \<Rightarrow> bytes \<Rightarrow> bool" where
  "asymmetric_matches kc alg key payload candidate =
     (case (alg, key) of
        (Ed25519, Ed25519Key k) \<Rightarrow>
          (case kc_ed25519_signature kc candidate of
             None \<Rightarrow> False | Some s \<Rightarrow> kc_ed25519_verify kc k payload s)
      | (EcdsaSha256, EcdsaP256Key k) \<Rightarrow>
          (case or_else (kc_p256_signature_der kc candidate) (kc_p256_signature_raw kc candidate) of
             None \<Rightarrow> False | Some s \<Rightarrow> kc_p256_verify kc k payload s)
      | (RsaSha1, RsaKey k) \<Rightarrow>
          (case kc_rsa_signature kc candidate of
             None \<Rightarrow> False | Some s \<Rightarrow> kc_rsa_verify kc HashSha1 k payload s)
      | (RsaSha256, RsaKey k) \<Rightarrow>
          (case kc_rsa_signature kc candidate of
             None \<Rightarrow> False | Some s \<Rightarrow> kc_rsa_verify kc HashSha256 k payload s)
      | _ \<Rightarrow> False)"

definition signed_payload ::
  "'u crates \<Rightarrow> signature_config \<Rightarrow> 'u eval_context \<Rightarrow> (bytes, rejection_reason) result" where
  "signed_payload cr c ctx =
     and_then (map_err PayloadUnavailable (evaluate cr (ex_parsed (sc_payload c)) ctx))
       (\<lambda>v. map_err (\<lambda>e. PayloadUnavailable (from_value ''payload'' ''text or bytes'' e)) (into_bytes v))"

definition presented_candidates ::
  "'u crates \<Rightarrow> signature_config \<Rightarrow> 'u eval_context \<Rightarrow> (bytes list, rejection_reason) result" where
  "presented_candidates cr c ctx =
     (case evaluate cr (ex_parsed (sc_signature c)) ctx of
        Err e \<Rightarrow> Err (SignatureUnavailable e)
      | Ok v \<Rightarrow>
          if is_null v then Err SignatureMissing
          else if sc_signature_encoding c = SigRaw then
            (case into_bytes v of
               Err _ \<Rightarrow> Err SignatureNotText
             | Ok bs \<Rightarrow>
                 if max_presented_signature_bytes < length bs then Err SignatureTooLarge
                 else if bs = [] then Err SignatureMissing
                 else Ok [bs])
          else
            (case into_text v of
               Err _ \<Rightarrow> Err SignatureNotText
             | Ok presented \<Rightarrow>
                 if max_presented_signature_bytes < str_len presented then Err SignatureTooLarge
                 else if trim presented = [] then Err SignatureMissing
                 else Ok (List.map_filter (decode_candidate cr (sc_signature_encoding c))
                   (candidates presented))))"

definition verify_context ::
  "'u captured \<Rightarrow> hook_context \<Rightarrow> 'k verification_material \<Rightarrow> 'u eval_context" where
  "verify_context r hook m =
     \<lparr>ctx_request = r, ctx_hook_id = hc_id hook, ctx_hook_url = hc_url hook,
      ctx_secret = vm_secret m, ctx_public_key = vm_public_key_der m\<rparr>"

definition verify ::
  "'u crates \<Rightarrow> 'k key_crates \<Rightarrow> signature_config \<Rightarrow> 'u captured \<Rightarrow> hook_context \<Rightarrow>
   'k verification_material \<Rightarrow> verification_outcome" where
  "verify cr kc c r hook m =
     (let ctx = verify_context r hook m in
      case signed_payload cr c ctx of
        Err reason \<Rightarrow> Rejected reason
      | Ok payload \<Rightarrow>
          (case presented_candidates cr c ctx of
             Err reason \<Rightarrow> Rejected reason
           | Ok cands \<Rightarrow>
               if uses_secret (sc_algorithm c) then
                 (case vm_secret m of
                    None \<Rightarrow> Rejected SecretMissing
                  | Some secret \<Rightarrow>
                      (case symmetric_signature cr kc (sc_algorithm c) secret payload of
                         None \<Rightarrow> Rejected SecretMissing
                       | Some expected \<Rightarrow>
                           if list_ex (\<lambda>x. length x = length expected \<and> x = expected) cands
                           then Verified else Rejected SignatureMismatch))
               else
                 (case vm_public_key m of
                    None \<Rightarrow> Rejected PublicKeyMissing
                  | Some key \<Rightarrow>
                      if list_ex (asymmetric_matches kc (sc_algorithm c) key payload) cands
                      then Verified else Rejected SignatureMismatch)))"

section \<open>Facts about candidates\<close>

text \<open>A candidate is a non-empty token of the presented value, or what follows its label.\<close>

definition candidate_of :: "ustring list \<Rightarrow> ustring \<Rightarrow> bool" where
  "candidate_of ts x \<longleftrightarrow>
     x \<noteq> [] \<and> (\<exists>t \<in> set ts. x = t \<or> (\<exists>label. t = label @ 61 # x \<and> label_ok label))"

lemma push_candidates_sound:
  "t \<noteq> [] \<Longrightarrow> x \<in> set (push_candidates cs t) \<Longrightarrow> x \<in> set cs \<or> candidate_of [t] x"
  by (auto simp: push_candidates_def candidate_of_def Let_def split_once_Some
      split: option.splits if_splits)

lemma candidates_loop_sound:
  "x \<in> set (candidates_loop ts cs) \<Longrightarrow> x \<in> set cs \<or> candidate_of ts x"
proof (induction ts cs rule: candidates_loop.induct)
  case (2 t ts cs)
  have mono: "candidate_of ts x \<Longrightarrow> candidate_of (t # ts) x"
    "candidate_of [t] x \<Longrightarrow> candidate_of (t # ts) x"
    by (auto simp: candidate_of_def)
  consider "t = []" | "t \<noteq> []" "max_signature_candidates \<le> length cs"
    | "t \<noteq> []" "\<not> max_signature_candidates \<le> length cs" by blast
  then show ?case
  proof cases
    case 1
    with 2 mono show ?thesis by auto
  next
    case 2
    with "2.prems" show ?thesis by auto
  next
    case 3
    with "2.IH"(2) "2.prems" push_candidates_sound [of t x cs] mono show ?thesis by auto
  qed
qed simp

lemma push_candidates_bound:
  "length cs < max_signature_candidates \<Longrightarrow>
   length (push_candidates cs t) \<le> max_signature_candidates"
  by (auto simp: push_candidates_def Let_def split: option.splits)

lemma candidates_loop_bound:
  "length cs \<le> max_signature_candidates \<Longrightarrow>
   length (candidates_loop ts cs) \<le> max_signature_candidates"
  by (induction ts cs rule: candidates_loop.induct) (auto simp: push_candidates_bound)

lemma candidates_single:
  assumes "label_ok label" and "61 \<notin> set label" and "rest \<noteq> []"
    and "\<forall>c \<in> set (label @ 61 # rest). \<not> is_whitespace c \<and> c \<noteq> 44"
  shows "candidates (label @ 61 # rest) = [label @ 61 # rest, rest]"
proof -
  have "split_on (\<lambda>c. is_whitespace c \<or> c = 44) (label @ 61 # rest) = [label @ 61 # rest]"
    by (rule split_on_none) (use assms(4) in auto)
  moreover have "split_once 61 (label @ 61 # rest) = Some (label, rest)"
    using assms(2) by (simp add: split_once_Some)
  ultimately show ?thesis
    using assms(1,3) by (simp add: candidates_def push_candidates_def max_signature_candidates_def)
qed

lemma map_filter_in: "y \<in> set (List.map_filter f xs) \<longleftrightarrow> (\<exists>x \<in> set xs. f x = Some y)"
  by (force simp: map_filter_def)

lemma length_map_filter: "length (List.map_filter f xs) \<le> length xs"
  by (simp add: map_filter_def)

section \<open>Facts about verification\<close>

lemma presented_candidates_Ok:
  assumes "presented_candidates cr c ctx = Ok cands"
  shows "length cands \<le> max_signature_candidates"
    and "y \<in> set cands \<Longrightarrow> \<exists>v. evaluate cr (ex_parsed (sc_signature c)) ctx = Ok v \<and>
      ((sc_signature_encoding c = SigRaw \<and> into_bytes v = Ok y) \<or>
       (\<exists>presented x. into_text v = Ok presented \<and>
          candidate_of (split_on (\<lambda>c. is_whitespace c \<or> c = 44) presented) x \<and>
          decode_candidate cr (sc_signature_encoding c) x = Some y))"
proof -
  from assms obtain v where v: "evaluate cr (ex_parsed (sc_signature c)) ctx = Ok v"
    by (auto simp: presented_candidates_def split: result.splits)
  have c: "(sc_signature_encoding c = SigRaw \<and> (\<exists>bs. into_bytes v = Ok bs \<and> cands = [bs])) \<or>
    (\<exists>presented. into_text v = Ok presented \<and>
       cands = List.map_filter (decode_candidate cr (sc_signature_encoding c)) (candidates presented))"
    using assms v by (auto simp: presented_candidates_def split: result.splits if_splits)
  show "length cands \<le> max_signature_candidates"
    using c
  proof
    assume "\<exists>presented. into_text v = Ok presented \<and>
      cands = List.map_filter (decode_candidate cr (sc_signature_encoding c)) (candidates presented)"
    then obtain presented where
      "cands = List.map_filter (decode_candidate cr (sc_signature_encoding c)) (candidates presented)"
      by blast
    then have "length cands \<le> length (candidates presented)" by (simp add: length_map_filter)
    also have "\<dots> \<le> max_signature_candidates"
      by (simp add: candidates_def candidates_loop_bound)
    finally show ?thesis .
  qed (auto simp: max_signature_candidates_def)
  assume "y \<in> set cands"
  with c v candidates_loop_sound [of _ _ "[]"] show "\<exists>v. evaluate cr (ex_parsed (sc_signature c)) ctx = Ok v \<and>
      ((sc_signature_encoding c = SigRaw \<and> into_bytes v = Ok y) \<or>
       (\<exists>presented x. into_text v = Ok presented \<and>
          candidate_of (split_on (\<lambda>c. is_whitespace c \<or> c = 44) presented) x \<and>
          decode_candidate cr (sc_signature_encoding c) x = Some y))"
    by (fastforce simp: map_filter_in candidates_def)
qed

lemma verify_Verified:
  "verify cr kc c r hook m = Verified \<longleftrightarrow>
     (\<exists>payload cands. signed_payload cr c (verify_context r hook m) = Ok payload \<and>
        presented_candidates cr c (verify_context r hook m) = Ok cands \<and>
        (if uses_secret (sc_algorithm c)
         then \<exists>secret tag. vm_secret m = Some secret \<and>
           symmetric_signature cr kc (sc_algorithm c) secret payload = Some tag \<and> tag \<in> set cands
         else \<exists>key x. vm_public_key m = Some key \<and> x \<in> set cands \<and>
           asymmetric_matches kc (sc_algorithm c) key payload x))"
  by (auto simp: verify_def Let_def list_ex_iff split: result.splits option.splits)

text \<open>Encoders write at least one character per input, and neither whitespace nor commas.\<close>

definition encoders_write_tokens :: "'u crates \<Rightarrow> bool" where
  "encoders_write_tokens cr \<longleftrightarrow>
     (\<forall>b. b \<noteq> [] \<longrightarrow> cr_hex_encode cr b \<noteq> [] \<and>
        (\<forall>c \<in> set (cr_hex_encode cr b). \<not> is_whitespace c \<and> c \<noteq> 44)) \<and>
     (\<forall>e b. b \<noteq> [] \<longrightarrow> cr_base64_encode cr e b \<noteq> [] \<and>
        (\<forall>c \<in> set (cr_base64_encode cr e b). \<not> is_whitespace c \<and> c \<noteq> 44))"

lemma demo_encoders: "encoders_write_tokens demo_crates"
proof -
  have w: "unat (w :: byte) < 256" for w using unsigned_less [of w] by simp
  have t: "\<not> is_whitespace (0x100 + unat (w :: byte))" for w
    using w [of w] by (simp add: is_whitespace_def)
  show ?thesis by (auto simp: encoders_write_tokens_def demo_crates_def demo_encode_def t)
qed

lemma trim_nonempty: "x \<in> set s \<Longrightarrow> \<not> is_whitespace x \<Longrightarrow> trim s \<noteq> []"
proof -
  assume x: "x \<in> set s" "\<not> is_whitespace x"
  have *: "x \<in> set (dropWhile is_whitespace t)" if "x \<in> set t" for t
    using that x(2) by (induction t) auto
  have "x \<in> set (trim s)"
    unfolding trim_def trim_end_def trim_start_def using * x(1) by simp
  then show ?thesis by auto
qed

lemma presented_text_Ok:
  assumes "evaluate cr (ex_parsed (sc_signature c)) ctx = Ok (VText s)" and "sc_signature_encoding c \<noteq> SigRaw"
    and "str_len s \<le> max_presented_signature_bytes" and "trim s \<noteq> []"
  shows "presented_candidates cr c ctx =
    Ok (List.map_filter (decode_candidate cr (sc_signature_encoding c)) (candidates s))"
  using assms by (simp add: presented_candidates_def)

lemma split_on_label:
  assumes "\<forall>c \<in> set a. \<not> P c" and "\<forall>c \<in> set b. \<not> P c" and "P d"
  shows "split_on P (a @ d # b) = [a, b]"
  using assms by (simp add: split_on_append_sep split_on_none)

section \<open>Properties\<close>


text \<open>C34: at most 16 candidates are examined, and each is the raw presented value or the decoding of
  a whitespace- or comma-separated token of it, with or without a short label before \<open>=\<close>.\<close>

theorem candidates_are_bounded_and_presented:
  assumes "presented_candidates cr c ctx = Ok cands"
  shows "length cands \<le> 16 \<and>
    (\<forall>y \<in> set cands. \<exists>v. evaluate cr (ex_parsed (sc_signature c)) ctx = Ok v \<and>
      ((sc_signature_encoding c = SigRaw \<and> into_bytes v = Ok y) \<or>
       (\<exists>presented x. into_text v = Ok presented \<and>
          decode_candidate cr (sc_signature_encoding c) x = Some y \<and> x \<noteq> [] \<and>
          (\<exists>t \<in> set (split_on (\<lambda>c. is_whitespace c \<or> c = 44) presented).
             x = t \<or> (\<exists>label. t = label @ 61 # x \<and> label_ok label)))))"
  using presented_candidates_Ok [OF assms]
  by (fastforce simp: max_signature_candidates_def candidate_of_def)


definition demo_hook :: hook_context where
  "demo_hook = \<lparr>hc_id = lit ''hook'', hc_url = lit ''https://hook/''\<rparr>"

definition demo_material :: "bytes verification_material" where
  "demo_material = \<lparr>vm_secret = Some [107], vm_public_key = None, vm_public_key_der = None\<rparr>"

definition demo_tag :: bytes where
  "demo_tag = 2 # 107 # utf8 (lit ''m'') @ utf8 (lit ''.'') @ utf8 (lit ''7'') @ utf8 (lit ''.'') @
     utf8 (lit ''ping'')"

definition demo_signed_request :: "(ustring \<times> pairs) captured" where
  "demo_signed_request = (demo_request (utf8 (lit ''ping'')))\<lparr>cap_headers :=
     [(lit ''webhook-id'', lit ''m''), (lit ''webhook-timestamp'', lit ''7''),
      (lit ''webhook-signature'', lit ''v1,'' @ demo_encode demo_tag)]\<rparr>"

lemma lowercase_standard_headers:
  "to_ascii_lowercase (lit ''webhook-id'') = lit ''webhook-id''"
  "to_ascii_lowercase (lit ''webhook-timestamp'') = lit ''webhook-timestamp''"
  "to_ascii_lowercase (lit ''webhook-signature'') = lit ''webhook-signature''"
  by (simp_all add: to_ascii_lowercase_def lit_def to_ascii_lower_def is_ascii_uppercase_def)

lemma demo_signed_headers:
  "header demo_signed_request (lit ''webhook-id'') = Some (lit ''m'')"
  "header demo_signed_request (lit ''webhook-timestamp'') = Some (lit ''7'')"
  "header demo_signed_request (lit ''webhook-signature'') = Some (lit ''v1,'' @ demo_encode demo_tag)"
  by (simp_all add: demo_signed_request_def header_def lowercase_standard_headers)

lemma demo_candidates:
  "presented_candidates demo_crates default_config (verify_context demo_signed_request demo_hook demo_material) =
   Ok (List.map_filter (decode_candidate demo_crates SigBase64) (candidates (lit ''v1,'' @ demo_encode demo_tag)))"
proof -
  have "evaluate demo_crates (header_expr ''webhook-signature'')
      (verify_context demo_signed_request demo_hook demo_material) = Ok (VText (lit ''v1,'' @ demo_encode demo_tag))"
    using evaluate_header [of demo_crates "lit ''webhook-signature''"
        "verify_context demo_signed_request demo_hook demo_material"]
    by (simp add: header_expr_def header_path_def verify_context_def demo_signed_headers)
  moreover have "sc_signature_encoding default_config = SigBase64"
    "ex_parsed (sc_signature default_config) = header_expr ''webhook-signature''"
    by (simp_all add: default_config_def expression_or_empty_def expression_parse_def
        parse_default_signature)
  moreover have "str_len (lit ''v1,'' @ demo_encode demo_tag) \<le> max_presented_signature_bytes"
    by (simp add: demo_encode_def demo_tag_def lit_def str_len_Cons utf8_Cons utf8_char_def
        max_presented_signature_bytes_def byte_of_def)
  moreover have "118 \<in> set (lit ''v1,'' @ demo_encode demo_tag)" "\<not> is_whitespace 118"
    by (simp_all add: lit_def is_whitespace_def)
  then have "trim (lit ''v1,'' @ demo_encode demo_tag) \<noteq> []" by (rule trim_nonempty)
  ultimately show ?thesis
    using presented_text_Ok [of demo_crates default_config
        "verify_context demo_signed_request demo_hook demo_material" "lit ''v1,'' @ demo_encode demo_tag"]
    by simp
qed

lemma candidates_are_bounded_and_presented_witness:
  "let cands = List.map_filter (decode_candidate demo_crates SigBase64)
     (candidates (lit ''v1,'' @ demo_encode demo_tag)) in
   length cands \<le> 16 \<and>
    (\<forall>y \<in> set cands. \<exists>v. evaluate demo_crates (ex_parsed (sc_signature default_config))
        (verify_context demo_signed_request demo_hook demo_material) = Ok v \<and>
      ((sc_signature_encoding default_config = SigRaw \<and> into_bytes v = Ok y) \<or>
       (\<exists>presented x. into_text v = Ok presented \<and>
          decode_candidate demo_crates (sc_signature_encoding default_config) x = Some y \<and> x \<noteq> [] \<and>
          (\<exists>t \<in> set (split_on (\<lambda>c. is_whitespace c \<or> c = 44) presented).
             x = t \<or> (\<exists>label. t = label @ 61 # x \<and> label_ok label)))))"
  unfolding Let_def by (rule candidates_are_bounded_and_presented [OF demo_candidates])


end
