(* ===== verification/Event.thy ===== *)
theory Event
  imports Hook Verify
begin

text \<open>
  Verified and blocked request records (\<open>domain/event.rs\<close>) and the keyset boundaries of history
  pages (\<open>domain/cursor.rs\<close>): delivery positions with their order, the summary line, acceptance and
  expiry of events, reasons for withholding a request with their bounded detail, and cursors.
\<close>

section \<open>Delivery positions\<close>

definition log_retention :: int where
  "log_retention = duration_days 14"

definition max_reason_detail_length :: nat where
  "max_reason_detail_length = 500"

definition u64_max :: nat where
  "u64_max = 2 ^ 64 - 1"

text \<open>The position is an \<open>i64\<close>.\<close>

datatype delivery_sequence = DeliverySequence (sequence_get: int)

definition delivery_sequence_new :: "int \<Rightarrow> (delivery_sequence, domain_error) result" where
  "delivery_sequence_new v =
     (if v < 1 then Err (OutOfRange ''delivery_sequence'' 1 u64_max) else Ok (DeliverySequence v))"

instantiation delivery_sequence :: linorder
begin

definition less_eq_delivery_sequence :: "delivery_sequence \<Rightarrow> delivery_sequence \<Rightarrow> bool" where
  "less_eq_delivery_sequence a b \<longleftrightarrow> sequence_get a \<le> sequence_get b"

definition less_delivery_sequence :: "delivery_sequence \<Rightarrow> delivery_sequence \<Rightarrow> bool" where
  "less_delivery_sequence a b \<longleftrightarrow> sequence_get a < sequence_get b"

instance
  by standard
    (auto simp: less_eq_delivery_sequence_def less_delivery_sequence_def delivery_sequence.expand)

end

section \<open>Events\<close>

definition delivery_summary :: "'z jiff_crate \<Rightarrow> hook_name \<Rightarrow> instant \<Rightarrow> hook_time_zone \<Rightarrow> ustring" where
  "delivery_summary jf provider at zone =
     (let rendered =
        (case jf_clock jf (resolve jf zone) at of
           Some t \<Rightarrow> t
         | None \<Rightarrow> lit ''00:00:00 01-01-1970'') in
      hook_name_str provider @ lit '' triggered at '' @ rendered @ lit '' '' @ time_zone_str zone)"

record 'u event_record =
  ev_id :: event_id
  ev_silicon_id :: silicon_id
  ev_silicon_uuid :: "account_uuid option"
  ev_hook_id :: hook_id
  ev_provider :: hook_name
  ev_summary :: ustring
  ev_request :: "'u captured"
  ev_sequence :: delivery_sequence
  ev_received_at :: instant

definition event_accept ::
  "'z jiff_crate \<Rightarrow> event_id \<Rightarrow> hook \<Rightarrow> 'u captured \<Rightarrow> delivery_sequence \<Rightarrow> 'u event_record" where
  "event_accept jf i h request sequence =
     (let received_at = cap_received_at request in
      \<lparr>ev_id = i, ev_silicon_id = hk_silicon_id h, ev_silicon_uuid = hk_silicon_uuid h,
       ev_hook_id = hk_id h, ev_provider = hk_name h,
       ev_summary = delivery_summary jf (hk_name h) received_at (hk_time_zone h),
       ev_request = request, ev_sequence = sequence, ev_received_at = received_at\<rparr>)"

definition event_expires_at :: "time_crate \<Rightarrow> 'u event_record \<Rightarrow> instant" where
  "event_expires_at tc e = tc_saturating_add tc (ev_received_at e) log_retention"

section \<open>Reasons for withholding a request\<close>

fun eval_error_text :: "eval_error \<Rightarrow> ustring" where
  "eval_error_text (MissingValue path) = path @ lit '' is missing''"
| "eval_error_text (UnsupportedBlock path) = path @ lit '' is not available''"
| "eval_error_text (NotIndexable path) = path @ lit '' cannot be indexed''"
| "eval_error_text BodyNotJson = lit ''request body is not JSON''"
| "eval_error_text BodyNotForm = lit ''request body is not form-encoded''"
| "eval_error_text BodyNotMultipart = lit ''request body is not multipart''"
| "eval_error_text BodyNotText = lit ''request body is not UTF-8 text''"
| "eval_error_text (TypeError function expected actual) =
     lit function @ lit '' expected '' @ lit expected @ lit '' but received '' @ lit actual"
| "eval_error_text (MissingArgument function) = lit function @ lit '' received a missing value''"
| "eval_error_text (InvalidUtf8 function) = lit function @ lit '' received bytes that are not UTF-8''"
| "eval_error_text (InvalidEncoding function) = lit function @ lit '' received malformed input''"

fun rejection_text :: "rejection_reason \<Rightarrow> ustring" where
  "rejection_text (PayloadUnavailable e) = lit ''payload unavailable: '' @ eval_error_text e"
| "rejection_text (SignatureUnavailable e) = lit ''signature unavailable: '' @ eval_error_text e"
| "rejection_text SignatureMissing = lit ''signature missing''"
| "rejection_text SignatureNotText = lit ''signature is not text''"
| "rejection_text SignatureTooLarge = lit ''signature too large''"
| "rejection_text SignatureMismatch = lit ''signature mismatch''"
| "rejection_text SecretMissing = lit ''secret missing''"
| "rejection_text PublicKeyMissing = lit ''public key missing''"

definition bounded_detail :: "ustring \<Rightarrow> ustring" where
  "bounded_detail detail =
     take max_reason_detail_length (map (\<lambda>c. if is_control c then 32 else c) detail)"

record block_reason =
  br_code :: ustring
  br_detail :: ustring

definition block_reason_signature :: "rejection_reason \<Rightarrow> block_reason" where
  "block_reason_signature reason =
     \<lparr>br_code = lit (rejection_code reason), br_detail = bounded_detail (rejection_text reason)\<rparr>"

definition block_reason_material_unavailable :: "ustring \<Rightarrow> block_reason" where
  "block_reason_material_unavailable detail =
     \<lparr>br_code = lit ''material_unavailable'', br_detail = bounded_detail detail\<rparr>"

definition code_byte :: "byte \<Rightarrow> bool" where
  "code_byte b \<longleftrightarrow> is_ascii_lowercase (unat b) \<or> is_ascii_digit (unat b) \<or> unat b = 95"

definition block_reason_rehydrate :: "ustring \<Rightarrow> ustring \<Rightarrow> (block_reason, domain_error) result" where
  "block_reason_rehydrate code detail =
     (if code = [] \<or> 64 < str_len code \<or> \<not> list_all code_byte (utf8 code)
      then Err (InvalidFormat ''reason_code'' ''must be a lowercase snake_case token'')
      else Ok \<lparr>br_code = code, br_detail = bounded_detail detail\<rparr>)"

record 'u blocked_request =
  bk_id :: blocked_request_id
  bk_silicon_id :: silicon_id
  bk_silicon_uuid :: "account_uuid option"
  bk_hook_id :: hook_id
  bk_provider :: hook_name
  bk_request :: "'u captured"
  bk_reason :: block_reason
  bk_received_at :: instant

definition blocked_request_record ::
  "blocked_request_id \<Rightarrow> hook \<Rightarrow> 'u captured \<Rightarrow> block_reason \<Rightarrow> 'u blocked_request" where
  "blocked_request_record i h request reason =
     \<lparr>bk_id = i, bk_silicon_id = hk_silicon_id h, bk_silicon_uuid = hk_silicon_uuid h,
      bk_hook_id = hk_id h, bk_provider = hk_name h, bk_request = request, bk_reason = reason,
      bk_received_at = cap_received_at request\<rparr>"

section \<open>History cursors\<close>

datatype history_collection = Events | BlockedRequests

record history_filter =
  hf_hook_id :: "hook_id option"

record history_cursor_scope =
  hs_silicon :: account_uuid
  hs_collection :: history_collection
  hs_filter :: history_filter

record history_cursor =
  hc_received_at :: instant
  hc_id :: uuid

section \<open>Facts about reasons\<close>

lemma bounded_detail_idem [simp]: "bounded_detail (bounded_detail d) = bounded_detail d"
  by (simp add: bounded_detail_def take_map is_control_def)

lemma bounded_detail_ok:
  "length (bounded_detail d) \<le> 500" "c \<in> set (bounded_detail d) \<Longrightarrow> \<not> is_control c"
  by (auto simp: bounded_detail_def max_reason_detail_length_def is_control_def dest!: in_set_takeD
      split: if_splits)

lemma code_bytes: "list_all code_byte (utf8 s) \<longleftrightarrow> list_all (\<lambda>c. is_ascii_lowercase c \<or> is_ascii_digit c \<or> c = 95) s"
proof -
  have "is_ascii_lowercase n \<or> is_ascii_digit n \<or> n = 95 \<Longrightarrow> n < 128" for n
    by (auto simp: char_class_defs)
  from list_all_utf8 [of "\<lambda>c. is_ascii_lowercase c \<or> is_ascii_digit c \<or> c = 95", OF this] show ?thesis
    by (simp add: code_byte_def [abs_def])
qed

lemma lit_code:
  assumes "list_all (\<lambda>c. is_ascii_lowercase c \<or> is_ascii_digit c \<or> c = 95) (lit s)" "s \<noteq> []" "length s \<le> 64"
  shows "block_reason_rehydrate (lit s) d = Ok \<lparr>br_code = lit s, br_detail = bounded_detail d\<rparr>"
proof -
  have "all_ascii (lit s)"
    using assms(1) by (force simp: all_ascii_def list_all_iff char_class_defs)
  from str_len_ascii [OF this] show ?thesis
    using assms by (simp add: block_reason_rehydrate_def code_bytes)
qed

lemma recorded_reasons_rehydrate_parts:
  assumes "r = block_reason_signature reason \<or> r = block_reason_material_unavailable detail"
  shows "block_reason_rehydrate (br_code r) (br_detail r) = Ok r"
    and "length (br_detail r) \<le> max_reason_detail_length \<and> (\<forall>c \<in> set (br_detail r). \<not> is_control c)"
proof -
  have sig: "block_reason_rehydrate (lit (rejection_code reason)) d =
      Ok \<lparr>br_code = lit (rejection_code reason), br_detail = bounded_detail d\<rparr>" for d
    by (rule lit_code; cases reason) (simp_all add: lit_def char_class_defs)
  have mat: "block_reason_rehydrate (lit ''material_unavailable'') d =
      Ok \<lparr>br_code = lit ''material_unavailable'', br_detail = bounded_detail d\<rparr>" for d
    by (rule lit_code) (simp_all add: lit_def char_class_defs)
  show "block_reason_rehydrate (br_code r) (br_detail r) = Ok r"
    using assms sig mat by (auto simp: block_reason_signature_def block_reason_material_unavailable_def)
  show "length (br_detail r) \<le> max_reason_detail_length \<and> (\<forall>c \<in> set (br_detail r). \<not> is_control c)"
    using assms bounded_detail_ok
    by (auto simp: block_reason_signature_def block_reason_material_unavailable_def max_reason_detail_length_def)
qed

text \<open>Every reason the service records can be read back: its code passes the check on stored codes
  and its detail is kept, holds no control character and has at most 500 characters. A stored detail
  is bounded again on reading, which changes nothing the second time.\<close>

theorem recorded_reasons_rehydrate:
  assumes "r = block_reason_signature reason \<or> r = block_reason_material_unavailable detail"
  shows "block_reason_rehydrate (br_code r) (br_detail r) = Ok r \<and>
    (length (br_detail r) \<le> max_reason_detail_length \<and> (\<forall>c \<in> set (br_detail r). \<not> is_control c))"
  using recorded_reasons_rehydrate_parts [OF assms] by blast

theorem recorded_reasons_rehydrate_witness:
  "block_reason_rehydrate (lit ''signature_mismatch'') (br_detail (block_reason_signature SignatureMismatch)) =
     Ok (block_reason_signature SignatureMismatch)"
  using recorded_reasons_rehydrate [of "block_reason_signature SignatureMismatch" SignatureMismatch]
  by (simp add: block_reason_signature_def [of SignatureMismatch])

end
