(* ===== verification/Crypto.thy ===== *)
theory Crypto
  imports Event
begin

text \<open>
  The cryptographic boundary (\<open>infrastructure/crypto.rs\<close>): key decoding, the versioned keyring,
  encryption and decryption of signing secrets bound to their hook, and authenticated history
  cursors. AES-GCM, HMAC, base64, and the JSON text of the cursor claims are functions of a record;
  randomness is an argument.
\<close>

section \<open>Crates\<close>

record cursor_claims =
  cl_version :: nat
  cl_scope :: history_cursor_scope
  cl_received_at_unix_nanos :: int
  cl_id :: uuid

record crypto_crates =
  cc_base64url_encode :: "bytes \<Rightarrow> ustring"
  cc_base64url_decode :: "ustring \<Rightarrow> bytes option"
  cc_base64url_decode_slice :: "nat \<Rightarrow> ustring \<Rightarrow> bytes option"
  cc_aes_encrypt :: "bytes \<Rightarrow> bytes \<Rightarrow> bytes \<Rightarrow> bytes \<Rightarrow> bytes option"
  cc_aes_decrypt :: "bytes \<Rightarrow> bytes \<Rightarrow> bytes \<Rightarrow> bytes \<Rightarrow> bytes option"
  cc_hmac_sha256 :: "bytes \<Rightarrow> bytes \<Rightarrow> bytes option"
  cc_claims_vec :: "cursor_claims \<Rightarrow> bytes option"
  cc_claims_parse :: "bytes \<Rightarrow> cursor_claims option"
  cc_from_unix_nanos :: "int \<Rightarrow> instant option"

section \<open>Keys\<close>

definition key_bytes :: nat where
  "key_bytes = 32"

datatype key_error =
    KeyInvalidEncoding
  | KeyInvalidLength
  | CurrentKeyMissing
  | DuplicateKey encryption_key_id
  | EmptyKeyring

text \<open>A key is an array of 32 bytes in the source.\<close>

type_synonym secret_key = bytes

definition secret_key_from_base64url :: "crypto_crates \<Rightarrow> ustring \<Rightarrow> (secret_key, key_error) result" where
  "secret_key_from_base64url cc v =
     (if 61 \<in> set v then Err KeyInvalidEncoding
      else
        and_then (ok_or KeyInvalidEncoding (cc_base64url_decode_slice cc key_bytes v))
          (\<lambda>decoded.
             if length decoded \<noteq> key_bytes then Err KeyInvalidLength
             else if cc_base64url_encode cc decoded \<noteq> v then Err KeyInvalidEncoding
             else Ok decoded))"

record secret_keyring =
  kr_current :: encryption_key_id
  kr_keys :: "(encryption_key_id \<times> secret_key) list"

fun keyring_insert ::
  "(encryption_key_id \<times> secret_key) list \<Rightarrow> (encryption_key_id \<times> secret_key) list \<Rightarrow>
     ((encryption_key_id \<times> secret_key) list, key_error) result" where
  "keyring_insert [] keys = Ok keys"
| "keyring_insert ((key_id, key) # entries) keys =
     (if map_of keys key_id \<noteq> None then Err (DuplicateKey key_id)
      else keyring_insert entries ((key_id, key) # keys))"

definition keyring_new ::
  "encryption_key_id \<Rightarrow> (encryption_key_id \<times> secret_key) list \<Rightarrow> (secret_keyring, key_error) result" where
  "keyring_new current entries =
     and_then (keyring_insert entries [])
       (\<lambda>keys.
          if keys = [] then Err EmptyKeyring
          else if map_of keys current = None then Err CurrentKeyMissing
          else Ok \<lparr>kr_current = current, kr_keys = keys\<rparr>)"

section \<open>Secret cipher\<close>

datatype secret_cipher_error =
    UnknownKey
  | Randomness
  | EncryptionFailed
  | AuthenticationFailed
  | InvalidRepresentation domain_error

definition keyring_current_key :: "secret_keyring \<Rightarrow> (secret_key, secret_cipher_error) result" where
  "keyring_current_key kr = ok_or UnknownKey (map_of (kr_keys kr) (kr_current kr))"

definition keyring_key :: "secret_keyring \<Rightarrow> encryption_key_id \<Rightarrow> (secret_key, secret_cipher_error) result" where
  "keyring_key kr key_id = ok_or UnknownKey (map_of (kr_keys kr) key_id)"

definition secret_aad_domain :: bytes where
  "secret_aad_domain = utf8 (lit ''silicon-hook/signing-secret/v2'') @ [0]"

definition uuid_bytes :: "uuid \<Rightarrow> bytes" where
  "uuid_bytes u = map (\<lambda>i. ucast (drop_bit (120 - 8 * i) u)) [0..<16]"

definition signing_secret_aad :: "hook_id \<Rightarrow> bytes" where
  "signing_secret_aad h = secret_aad_domain @ uuid_bytes (hook_uuid h)"

text \<open>The nonce is what filling the 12-byte buffer gave.\<close>

definition secret_encrypt ::
  "crypto_crates \<Rightarrow> secret_keyring \<Rightarrow> bytes option \<Rightarrow> hook_id \<Rightarrow> signing_secret \<Rightarrow>
     (encrypted_secret, secret_cipher_error) result" where
  "secret_encrypt cc kr filled h secret =
     and_then (ok_or Randomness filled) (\<lambda>nonce.
     and_then (keyring_current_key kr) (\<lambda>key.
     and_then
       (ok_or EncryptionFailed
         (cc_aes_encrypt cc key nonce (utf8 (signing_secret_str secret)) (signing_secret_aad h)))
       (\<lambda>ciphertext.
          map_err InvalidRepresentation (encrypted_secret_new (kr_current kr) nonce ciphertext))))"

definition secret_decrypt ::
  "crypto_crates \<Rightarrow> secret_keyring \<Rightarrow> hook_id \<Rightarrow> encrypted_secret \<Rightarrow>
     (signing_secret, secret_cipher_error) result" where
  "secret_decrypt cc kr h enc =
     and_then (keyring_key kr (es_key_id enc)) (\<lambda>key.
     and_then
       (ok_or AuthenticationFailed
         (cc_aes_decrypt cc key (es_nonce enc) (es_ciphertext enc) (signing_secret_aad h)))
       (\<lambda>plaintext.
     and_then (ok_or AuthenticationFailed (from_utf8 plaintext)) (\<lambda>t.
        map_err InvalidRepresentation (signing_secret_from_text t))))"

definition secret_reencrypt ::
  "crypto_crates \<Rightarrow> secret_keyring \<Rightarrow> bytes option \<Rightarrow> hook_id \<Rightarrow> encrypted_secret \<Rightarrow>
     (encrypted_secret, secret_cipher_error) result" where
  "secret_reencrypt cc kr filled h enc =
     and_then (secret_decrypt cc kr h enc) (secret_encrypt cc kr filled h)"

definition needs_reencryption :: "secret_keyring \<Rightarrow> encrypted_secret \<Rightarrow> bool" where
  "needs_reencryption kr enc \<longleftrightarrow> es_key_id enc \<noteq> kr_current kr"

section \<open>Cursors\<close>

definition hmac_tag_bytes :: nat where
  "hmac_tag_bytes = 32"

definition cursor_version :: nat where
  "cursor_version = 2"

definition max_cursor_bytes :: nat where
  "max_cursor_bytes = 2048"

datatype cursor_error =
    CursorTooLong
  | CursorInvalidEncoding
  | CursorAuthentication
  | CursorInvalidPayload
  | CursorUnsupportedVersion
  | CursorScopeMismatch

definition cursor_authenticate :: "crypto_crates \<Rightarrow> secret_key \<Rightarrow> bytes \<Rightarrow> (bytes, cursor_error) result" where
  "cursor_authenticate cc key payload = ok_or CursorAuthentication (cc_hmac_sha256 cc key payload)"

definition cursor_claims_of :: "history_cursor_scope \<Rightarrow> history_cursor \<Rightarrow> cursor_claims" where
  "cursor_claims_of scope cursor =
     \<lparr>cl_version = cursor_version, cl_scope = scope,
      cl_received_at_unix_nanos = hc_received_at cursor, cl_id = hc_id cursor\<rparr>"

definition cursor_encode ::
  "crypto_crates \<Rightarrow> secret_key \<Rightarrow> history_cursor_scope \<Rightarrow> history_cursor \<Rightarrow> (ustring, cursor_error) result" where
  "cursor_encode cc key scope cursor =
     and_then (ok_or CursorInvalidPayload (cc_claims_vec cc (cursor_claims_of scope cursor))) (\<lambda>payload.
     and_then (cursor_authenticate cc key payload) (\<lambda>tag.
       Ok (cc_base64url_encode cc (payload @ tag))))"

definition cursor_decode ::
  "crypto_crates \<Rightarrow> secret_key \<Rightarrow> history_cursor_scope \<Rightarrow> ustring \<Rightarrow> (history_cursor, cursor_error) result" where
  "cursor_decode cc key expected_scope encoded =
     (if max_cursor_bytes < str_len encoded then Err CursorTooLong
      else if encoded = [] \<or> 61 \<in> set encoded then Err CursorInvalidEncoding
      else
        and_then (ok_or CursorInvalidEncoding (cc_base64url_decode cc encoded)) (\<lambda>authenticated.
          if length authenticated \<le> hmac_tag_bytes then Err CursorInvalidEncoding
          else
            (let payload_length = length authenticated - hmac_tag_bytes;
                 payload = take payload_length authenticated;
                 supplied_tag = drop payload_length authenticated in
             if cc_hmac_sha256 cc key payload \<noteq> Some supplied_tag then Err CursorAuthentication
             else
               and_then (ok_or CursorInvalidPayload (cc_claims_parse cc payload)) (\<lambda>claims.
                 if cl_version claims \<noteq> cursor_version then Err CursorUnsupportedVersion
                 else if cl_scope claims \<noteq> expected_scope then Err CursorScopeMismatch
                 else
                   map_ok (\<lambda>t. \<lparr>hc_received_at = t, hc_id = cl_id claims\<rparr>)
                     (ok_or CursorInvalidPayload (cc_from_unix_nanos cc (cl_received_at_unix_nanos claims)))))))"

section \<open>Documented behaviour\<close>

text \<open>
  AES-GCM decrypts exactly what was encrypted under the same key, nonce and associated data, and its
  ciphertext is as long as the message and the tag; an HMAC-SHA-256 tag has 32 bytes; base64 decoding
  undoes encoding, and unpadded text has no equals sign.
\<close>

definition aead_law :: "crypto_crates \<Rightarrow> bool" where
  "aead_law cc \<longleftrightarrow>
     (\<forall>k n m aad c. cc_aes_encrypt cc k n m aad = Some c \<longrightarrow>
        cc_aes_decrypt cc k n c aad = Some m \<and> length c = length m + encryption_tag_bytes)"

definition hmac_law :: "crypto_crates \<Rightarrow> bool" where
  "hmac_law cc \<longleftrightarrow> (\<forall>k p t. cc_hmac_sha256 cc k p = Some t \<longrightarrow> length t = hmac_tag_bytes)"

definition base64url_law :: "crypto_crates \<Rightarrow> bool" where
  "base64url_law cc \<longleftrightarrow>
     (\<forall>b. cc_base64url_decode cc (cc_base64url_encode cc b) = Some b \<and>
          61 \<notin> set (cc_base64url_encode cc b) \<and> (b \<noteq> [] \<longrightarrow> cc_base64url_encode cc b \<noteq> []))"

section \<open>Keyrings\<close>

lemma keyring_insert_keeps:
  "keyring_insert entries keys = Ok ks \<Longrightarrow> map_of keys i = Some k \<Longrightarrow> map_of ks i = Some k"
proof (induction entries keys rule: keyring_insert.induct)
  case (2 j l entries keys)
  then show ?case by (cases "i = j") (auto split: if_splits)
qed simp

lemma keyring_insert_holds:
  "keyring_insert entries keys = Ok ks \<Longrightarrow> (i, k) \<in> set entries \<Longrightarrow> map_of ks i = Some k"
proof (induction entries keys rule: keyring_insert.induct)
  case (2 j l entries keys)
  then have ins: "keyring_insert entries ((j, l) # keys) = Ok ks" by (auto split: if_splits)
  from keyring_insert_keeps [OF this, of j l] have "map_of ks j = Some l" by simp
  with 2 ins show ?case by (auto split: if_splits)
qed simp

lemma keyring_new_holds:
  assumes "keyring_new current entries = Ok kr" and "(i, k) \<in> set entries"
  shows "keyring_key kr i = Ok k"
  using assms keyring_insert_holds
  by (fastforce simp: keyring_new_def keyring_key_def result_simps split: if_splits)

lemma keyring_new_current:
  assumes "keyring_new current entries = Ok kr"
  shows "kr_current kr = current \<and> (\<exists>k. keyring_current_key kr = Ok k)"
  using assms by (auto simp: keyring_new_def keyring_current_key_def result_simps split: if_splits)

section \<open>Associated data\<close>

lemma uuid_bytes_inject: "uuid_bytes u = uuid_bytes v \<longleftrightarrow> u = v"
proof
  assume eq: "uuid_bytes u = uuid_bytes v"
  show "u = v"
  proof (rule bit_word_eqI)
    fix n assume "n < LENGTH(128)"
    then have n: "n < 128" by simp
    define i where "i = 15 - n div 8"
    have "n div 8 \<le> 15" "8 * (n div 8) + n mod 8 = n" using n by auto
    then have i: "i < 16" "120 - 8 * i + n mod 8 = n" unfolding i_def by linarith+
    have "(ucast (drop_bit (120 - 8 * i) u) :: byte) = ucast (drop_bit (120 - 8 * i) v)"
      using arg_cong [OF eq, of "\<lambda>bs. bs ! i"] i(1) by (simp add: uuid_bytes_def)
    then have "bit (ucast (drop_bit (120 - 8 * i) u) :: byte) (n mod 8) =
        bit (ucast (drop_bit (120 - 8 * i) v) :: byte) (n mod 8)" by simp
    then show "bit u n = bit v n"
      using i by (simp add: bit_ucast_iff bit_drop_bit_eq)
  qed
qed simp

lemma signing_secret_aad_inject: "signing_secret_aad h = signing_secret_aad h' \<longleftrightarrow> h = h'"
  by (cases h; cases h') (simp add: signing_secret_aad_def uuid_bytes_inject)

section \<open>Secrets survive encryption\<close>

definition valid_secret :: "signing_secret \<Rightarrow> bool" where
  "valid_secret s \<longleftrightarrow> signing_secret_from_text (signing_secret_str s) = Ok s \<and> valid_text (signing_secret_str s)"

lemma decrypt_encrypted:
  assumes "aead_law cc" and "valid_secret s" and "secret_encrypt cc kr filled h s = Ok e"
    and "keyring_key kr' (kr_current kr) = keyring_current_key kr"
  shows "secret_decrypt cc kr' h e = Ok s" and "es_key_id e = kr_current kr"
proof -
  from assms(3) obtain nonce key c where
    key: "keyring_current_key kr = Ok key"
    and enc: "cc_aes_encrypt cc key nonce (utf8 (signing_secret_str s)) (signing_secret_aad h) = Some c"
    and e: "e = \<lparr>es_key_id = kr_current kr, es_nonce = nonce, es_ciphertext = c\<rparr>"
    by (auto simp: secret_encrypt_def encrypted_secret_new_def result_simps Let_def split: if_splits)
  show "es_key_id e = kr_current kr" by (simp add: e)
  show "secret_decrypt cc kr' h e = Ok s"
    using assms(1,2,4) enc key by (auto simp: secret_decrypt_def e aead_law_def valid_secret_def)
qed

lemma secrets_survive_encryption_parts:
  assumes "aead_law cc" and "valid_secret s" and "secret_encrypt cc kr filled h s = Ok e"
    and "keyring_key kr' (kr_current kr) = keyring_current_key kr"
  shows "secret_decrypt cc kr' h e = Ok s"
    and "\<not> needs_reencryption kr e"
    and "secret_reencrypt cc kr' filled' h e = Ok e' \<Longrightarrow>
      secret_decrypt cc kr' h e' = Ok s \<and> \<not> needs_reencryption kr' e'"
    and "secret_encrypt cc kr'' filled'' h s \<noteq> Err (InvalidRepresentation err)"
    and "signing_secret_aad h = signing_secret_aad h' \<longleftrightarrow> h = h'"
proof -
  show d: "secret_decrypt cc kr' h e = Ok s" using assms by (rule decrypt_encrypted)
  show "\<not> needs_reencryption kr e"
    using decrypt_encrypted(2) [OF assms] by (simp add: needs_reencryption_def)
  show "secret_decrypt cc kr' h e' = Ok s \<and> \<not> needs_reencryption kr' e'"
    if "secret_reencrypt cc kr' filled' h e = Ok e'"
  proof -
    have "secret_encrypt cc kr' filled' h s = Ok e'" using that d by (simp add: secret_reencrypt_def)
    from decrypt_encrypted [OF assms(1,2) this, of kr'] show ?thesis
      by (simp add: needs_reencryption_def keyring_key_def keyring_current_key_def)
  qed
  have "signing_secret_str s \<noteq> [] \<and> str_len (signing_secret_str s) \<le> max_secret_bytes"
    using assms(2) by (auto simp: valid_secret_def signing_secret_from_text_def split: if_splits)
  then show "secret_encrypt cc kr'' filled'' h s \<noteq> Err (InvalidRepresentation err)"
    using assms(1) str_len_eq_0 [of "signing_secret_str s"]
    by (auto simp: secret_encrypt_def encrypted_secret_new_def keyring_current_key_def result_simps Let_def
        str_len_def dest!: assms(1) [unfolded aead_law_def, rule_format] split: if_splits)
  show "signing_secret_aad h = signing_secret_aad h' \<longleftrightarrow> h = h'"
    by (rule signing_secret_aad_inject)
qed

text \<open>C26: A signing secret survives storage. What was encrypted for a hook decrypts to the same secret
  under every keyring that still holds the key it was encrypted under, whatever its current key;
  re-encrypting moves it to the current key and keeps it; a valid secret never fails the check of the
  stored form; and the associated data of two hooks differ, so that a ciphertext is bound to one.\<close>

theorem secrets_survive_encryption:
  assumes "aead_law cc" and "valid_secret s" and "secret_encrypt cc kr filled h s = Ok e"
    and "keyring_key kr' (kr_current kr) = keyring_current_key kr"
  shows "secret_decrypt cc kr' h e = Ok s \<and>
    \<not> needs_reencryption kr e \<and>
    (secret_reencrypt cc kr' filled' h e = Ok e' \<longrightarrow> (secret_decrypt cc kr' h e' = Ok s \<and> \<not> needs_reencryption kr' e')) \<and>
    secret_encrypt cc kr'' filled'' h s \<noteq> Err (InvalidRepresentation err) \<and>
    (signing_secret_aad h = signing_secret_aad h' \<longleftrightarrow> h = h')"
  using secrets_survive_encryption_parts [OF assms] by blast

definition demo_scope :: history_cursor_scope where
  "demo_scope = \<lparr>hs_silicon = AccountUuid (lit ''8HV''), hs_collection = Events, hs_filter = \<lparr>hf_hook_id = None\<rparr>\<rparr>"

definition demo_cursor :: history_cursor where
  "demo_cursor = \<lparr>hc_received_at = 7, hc_id = 9\<rparr>"

definition demo_crypto :: crypto_crates where
  "demo_crypto =
     \<lparr>cc_base64url_encode = demo_encode, cc_base64url_decode = demo_decode,
      cc_base64url_decode_slice = (\<lambda>_. demo_decode),
      cc_aes_encrypt = (\<lambda>_ _ m _. Some (m @ replicate 16 0)),
      cc_aes_decrypt = (\<lambda>_ _ c _. Some (take (length c - 16) c)),
      cc_hmac_sha256 = (\<lambda>_ _. Some (replicate 32 1)),
      cc_claims_vec = (\<lambda>_. Some [2]),
      cc_claims_parse = (\<lambda>_. Some (cursor_claims_of demo_scope demo_cursor)),
      cc_from_unix_nanos = Some\<rparr>"

definition demo_keyring :: secret_keyring where
  "demo_keyring = \<lparr>kr_current = EncryptionKeyId (lit ''v1''), kr_keys = [(EncryptionKeyId (lit ''v1''), replicate 32 0)]\<rparr>"

theorem secrets_survive_encryption_witness:
  "\<exists>e. secret_encrypt demo_crypto demo_keyring (Some (replicate 12 0)) (HookId 1) (SigningSecret (lit ''s3cret'')) = Ok e \<and>
     secret_decrypt demo_crypto demo_keyring (HookId 1) e = Ok (SigningSecret (lit ''s3cret''))"
proof -
  have law: "aead_law demo_crypto"
    by (simp add: aead_law_def demo_crypto_def encryption_tag_bytes_def)
  have valid: "valid_secret (SigningSecret (lit ''s3cret''))"
    unfolding valid_secret_def
    by (simp add: signing_secret_from_text_def max_secret_bytes_def)
      (simp add: lit_def is_control_def str_len_def utf8_def utf8_char_def)
  obtain e where e: "secret_encrypt demo_crypto demo_keyring (Some (replicate 12 0)) (HookId 1)
      (SigningSecret (lit ''s3cret'')) = Ok e"
    by (simp add: secret_encrypt_def demo_crypto_def demo_keyring_def keyring_current_key_def
        encrypted_secret_new_def encryption_tag_bytes_def max_secret_bytes_def Let_def)
      (simp add: lit_def utf8_def utf8_char_def)
  from secrets_survive_encryption [OF law valid e, of demo_keyring] e show ?thesis
    by (auto simp: keyring_key_def keyring_current_key_def)
qed

section \<open>Cursors are authentic and bound to their query\<close>

text \<open>The claims of this boundary are written and read back by the JSON codec, and its instant is representable.\<close>

definition claims_round_trip :: "crypto_crates \<Rightarrow> history_cursor_scope \<Rightarrow> history_cursor \<Rightarrow> bool" where
  "claims_round_trip cc scope cursor \<longleftrightarrow>
     (\<forall>p. cc_claims_vec cc (cursor_claims_of scope cursor) = Some p \<longrightarrow>
        p \<noteq> [] \<and> cc_claims_parse cc p = Some (cursor_claims_of scope cursor)) \<and>
     cc_from_unix_nanos cc (hc_received_at cursor) = Some (hc_received_at cursor)"

lemma decode_authenticated:
  assumes "hmac_law cc" "base64url_law cc" "str_len (cc_base64url_encode cc (p @ t)) \<le> max_cursor_bytes"
    and "p \<noteq> []" "cc_hmac_sha256 cc key p = Some t"
  shows "cursor_decode cc key scope (cc_base64url_encode cc (p @ t)) =
     and_then (ok_or CursorInvalidPayload (cc_claims_parse cc p)) (\<lambda>claims.
       if cl_version claims \<noteq> cursor_version then Err CursorUnsupportedVersion
       else if cl_scope claims \<noteq> scope then Err CursorScopeMismatch
       else map_ok (\<lambda>t. \<lparr>hc_received_at = t, hc_id = cl_id claims\<rparr>)
         (ok_or CursorInvalidPayload (cc_from_unix_nanos cc (cl_received_at_unix_nanos claims))))"
proof -
  have t: "length t = hmac_tag_bytes" using assms(1,5) unfolding hmac_law_def by blast
  have "cc_base64url_decode cc (cc_base64url_encode cc (p @ t)) = Some (p @ t)"
    "61 \<notin> set (cc_base64url_encode cc (p @ t))" "cc_base64url_encode cc (p @ t) \<noteq> []"
    using assms(2,4) unfolding base64url_law_def by auto
  with t assms(3,4,5) show ?thesis by (simp add: cursor_decode_def Let_def)
qed

lemma cursors_round_trip_parts:
  assumes "hmac_law cc" and "base64url_law cc" and "claims_round_trip cc scope cursor"
    and "cursor_encode cc key scope cursor = Ok encoded" and "str_len encoded \<le> max_cursor_bytes"
  shows "cursor_decode cc key scope encoded = Ok cursor"
    and "scope' \<noteq> scope \<Longrightarrow> cursor_decode cc key scope' encoded = Err CursorScopeMismatch"
proof -
  from assms(4) obtain p t where p: "cc_claims_vec cc (cursor_claims_of scope cursor) = Some p"
    "cc_hmac_sha256 cc key p = Some t" "encoded = cc_base64url_encode cc (p @ t)"
    by (auto simp: cursor_encode_def cursor_authenticate_def result_simps)
  have c: "p \<noteq> []" "cc_claims_parse cc p = Some (cursor_claims_of scope cursor)"
    "cc_from_unix_nanos cc (hc_received_at cursor) = Some (hc_received_at cursor)"
    using assms(3) p(1) by (auto simp: claims_round_trip_def)
  note decode = decode_authenticated [OF assms(1,2) assms(5) [unfolded p(3)] c(1) p(2)]
  show "cursor_decode cc key scope encoded = Ok cursor"
    unfolding p(3) decode using c by (simp add: cursor_claims_of_def)
  show "cursor_decode cc key scope' encoded = Err CursorScopeMismatch" if "scope' \<noteq> scope"
    unfolding p(3) decode using c that by (simp add: cursor_claims_of_def)
qed

text \<open>A history cursor decodes to the boundary it was made from under its own query, and under any
  other Silicon, collection or filter it is refused as a mismatch.\<close>

theorem cursors_round_trip:
  assumes "hmac_law cc" and "base64url_law cc" and "claims_round_trip cc scope cursor"
    and "cursor_encode cc key scope cursor = Ok encoded" and "str_len encoded \<le> max_cursor_bytes"
  shows "cursor_decode cc key scope encoded = Ok cursor \<and>
    (scope' \<noteq> scope \<longrightarrow> cursor_decode cc key scope' encoded = Err CursorScopeMismatch)"
  using cursors_round_trip_parts [OF assms] by blast

lemma str_len_le: "str_len s \<le> 4 * length s"
proof (induction s)
  case (Cons c s)
  then show ?case using length_utf8_char(2) [of c] by (simp add: str_len_Cons)
qed simp

lemma demo_cursor_laws:
  "hmac_law demo_crypto" "base64url_law demo_crypto" "claims_round_trip demo_crypto demo_scope demo_cursor"
  using demo_codec(1)
  by (auto simp: hmac_law_def base64url_law_def claims_round_trip_def demo_crypto_def hmac_tag_bytes_def
      demo_encode_def)

lemma demo_cursor_encoded:
  "cursor_encode demo_crypto (replicate 32 0) demo_scope demo_cursor = Ok (demo_encode ([2] @ replicate 32 1))"
  "str_len (demo_encode ([2] @ replicate 32 1)) \<le> max_cursor_bytes"
proof -
  show "cursor_encode demo_crypto (replicate 32 0) demo_scope demo_cursor = Ok (demo_encode ([2] @ replicate 32 1))"
    by (simp add: cursor_encode_def cursor_authenticate_def demo_crypto_def)
  have "str_len (demo_encode ([2] @ replicate 32 1)) \<le> 4 * length (demo_encode ([2] @ replicate 32 1))"
    by (rule str_len_le)
  then show "str_len (demo_encode ([2] @ replicate 32 1)) \<le> max_cursor_bytes"
    by (simp add: max_cursor_bytes_def demo_encode_def)
qed

lemma cursors_round_trip_demo:
  "cursor_decode demo_crypto (replicate 32 0) demo_scope (demo_encode ([2] @ replicate 32 1)) = Ok demo_cursor"
proof -
  have "demo_encode ([2] @ replicate 32 1) = cc_base64url_encode demo_crypto ([2] @ replicate 32 1)"
    by (simp add: demo_crypto_def)
  then show ?thesis
    using decode_authenticated [OF demo_cursor_laws(1,2), of "[2]" "replicate 32 1" "replicate 32 0" demo_scope]
      demo_cursor_encoded(2)
    by (simp add: demo_crypto_def cursor_claims_of_def demo_cursor_def)
qed

theorem cursors_round_trip_witness:
  "\<exists>encoded. cursor_encode demo_crypto (replicate 32 0) demo_scope demo_cursor = Ok encoded \<and>
     cursor_decode demo_crypto (replicate 32 0) demo_scope encoded = Ok demo_cursor"
proof -
  from cursors_round_trip [OF demo_cursor_laws demo_cursor_encoded] demo_cursor_encoded(1)
  show ?thesis by blast
qed

lemma decoded_cursors_are_authentic_parts:
  assumes "cursor_decode cc key scope encoded = Ok cursor"
  shows "\<exists>payload tag claims. cc_base64url_decode cc encoded = Some (payload @ tag) \<and>
      payload \<noteq> [] \<and> length tag = hmac_tag_bytes \<and> cc_hmac_sha256 cc key payload = Some tag \<and>
      cc_claims_parse cc payload = Some claims \<and> cl_version claims = cursor_version \<and>
      cl_scope claims = scope \<and> hc_id cursor = cl_id claims \<and>
      cc_from_unix_nanos cc (cl_received_at_unix_nanos claims) = Some (hc_received_at cursor)"
    and "str_len encoded \<le> max_cursor_bytes \<and> 61 \<notin> set encoded"
proof -
  from assms obtain a claims where a: "cc_base64url_decode cc encoded = Some a" "hmac_tag_bytes < length a"
    "cc_hmac_sha256 cc key (take (length a - hmac_tag_bytes) a) = Some (drop (length a - hmac_tag_bytes) a)"
    "cc_claims_parse cc (take (length a - hmac_tag_bytes) a) = Some claims"
    "cl_version claims = cursor_version" "cl_scope claims = scope" "hc_id cursor = cl_id claims"
    "cc_from_unix_nanos cc (cl_received_at_unix_nanos claims) = Some (hc_received_at cursor)"
    by (auto simp: cursor_decode_def Let_def result_simps split: if_splits)
  show "\<exists>payload tag claims. cc_base64url_decode cc encoded = Some (payload @ tag) \<and>
      payload \<noteq> [] \<and> length tag = hmac_tag_bytes \<and> cc_hmac_sha256 cc key payload = Some tag \<and>
      cc_claims_parse cc payload = Some claims \<and> cl_version claims = cursor_version \<and>
      cl_scope claims = scope \<and> hc_id cursor = cl_id claims \<and>
      cc_from_unix_nanos cc (cl_received_at_unix_nanos claims) = Some (hc_received_at cursor)"
  proof (intro exI conjI)
    show "cc_base64url_decode cc encoded =
        Some (take (length a - hmac_tag_bytes) a @ drop (length a - hmac_tag_bytes) a)"
      using a(1) by simp
  qed (use a in auto)
  show "str_len encoded \<le> max_cursor_bytes \<and> 61 \<notin> set encoded"
    using assms by (auto simp: cursor_decode_def split: if_splits)
qed

text \<open>C27: Nothing but an authentic cursor of this query is accepted: whatever text decodes to a boundary
  is at most 2048 bytes of unpadded base64url whose last 32 bytes are the tag of the rest under the
  codec's key, and the authenticated claims carry version 2, exactly the expected scope, and that
  boundary.\<close>

theorem decoded_cursors_are_authentic:
  assumes "cursor_decode cc key scope encoded = Ok cursor"
  shows "(\<exists>payload tag claims. cc_base64url_decode cc encoded = Some (payload @ tag) \<and>
      payload \<noteq> [] \<and> length tag = hmac_tag_bytes \<and> cc_hmac_sha256 cc key payload = Some tag \<and>
      cc_claims_parse cc payload = Some claims \<and> cl_version claims = cursor_version \<and>
      cl_scope claims = scope \<and> hc_id cursor = cl_id claims \<and>
      cc_from_unix_nanos cc (cl_received_at_unix_nanos claims) = Some (hc_received_at cursor)) \<and>
    (str_len encoded \<le> max_cursor_bytes \<and> 61 \<notin> set encoded)"
  using decoded_cursors_are_authentic_parts [OF assms] by blast

theorem decoded_cursors_are_authentic_witness:
  "str_len (demo_encode ([2] @ replicate 32 1)) \<le> max_cursor_bytes"
proof -
  have "cursor_decode demo_crypto (replicate 32 0) demo_scope (demo_encode ([2] @ replicate 32 1)) = Ok demo_cursor"
    using cursors_round_trip_demo by simp
  then show ?thesis using decoded_cursors_are_authentic by blast
qed

end
