(* ===== verification/Policy.thy ===== *)
theory Policy
  imports Identity
begin

text \<open>
  Who may do what with one Silicon's hooks (\<open>domain/policy.rs\<close>): grant levels with their order
  and names, the ways an actor has access, the actions, and the decision.
\<close>

datatype grant_level = View | Manage

fun grant_level_as_str :: "grant_level \<Rightarrow> string" where
  "grant_level_as_str View = ''view''"
| "grant_level_as_str Manage = ''manage''"

definition grant_level_parse :: "ustring \<Rightarrow> grant_level option" where
  "grant_level_parse v =
     (if v = lit ''view'' then Some View else if v = lit ''manage'' then Some Manage else None)"

lemma grant_level_parse_Some: "grant_level_parse v = Some l \<Longrightarrow> v = lit (grant_level_as_str l)"
  by (auto simp: grant_level_parse_def split: if_splits)

lemma grant_level_parse_as_str [simp]: "grant_level_parse (lit (grant_level_as_str l)) = Some l"
  by (cases l) (simp_all add: grant_level_parse_def)

interpretation grant_levels: name_table grant_level_as_str grant_level_parse
  by unfold_locales (simp_all add: grant_level_parse_Some)

text \<open>The derived order: \<open>View\<close> is below \<open>Manage\<close>.\<close>

instantiation grant_level :: linorder
begin

definition less_eq_grant_level :: "grant_level \<Rightarrow> grant_level \<Rightarrow> bool" where
  "less_eq_grant_level a b \<longleftrightarrow> a = View \<or> b = Manage"

definition less_grant_level :: "grant_level \<Rightarrow> grant_level \<Rightarrow> bool" where
  "less_grant_level a b \<longleftrightarrow> a = View \<and> b = Manage"

instance
proof
  fix a b :: grant_level
  show "a \<le> b \<or> b \<le> a"
    by (cases a; cases b) (simp_all add: less_eq_grant_level_def)
qed (use grant_level.exhaust in \<open>auto simp: less_eq_grant_level_def less_grant_level_def\<close>)

end

datatype access = Own | Custodian | Grant grant_level

fun access_as_str :: "access \<Rightarrow> string" where
  "access_as_str Own = ''self''"
| "access_as_str Custodian = ''custodian''"
| "access_as_str (Grant l) = grant_level_as_str l"

text \<open>The grant that is worth as much, for changing hooks.\<close>

definition access_level :: "access \<Rightarrow> grant_level" where
  "access_level a = (case a of Own \<Rightarrow> Manage | Custodian \<Rightarrow> Manage | Grant l \<Rightarrow> l)"

datatype action =
    ListHooks | ReadHook | ReadEvents | CreateHook | UpdateHook | SetHookEnabled | DeleteHook
  | RestoreHook | RotateSecret | RotateEndpoint | ConnectAccountsHook | ManageAccess
  | ManageAllowList | Observe

datatype authorization_decision = Allowed | Forbidden string

definition is_allowed :: "authorization_decision \<Rightarrow> bool" where
  "is_allowed d \<longleftrightarrow> d = Allowed"

record authorization_context =
  ac_actor :: actor
  ac_silicon :: silicon_ref
  ac_access :: access

definition authorize :: "authorization_context \<Rightarrow> action \<Rightarrow> authorization_decision" where
  "authorize c act =
     (let access = ac_access c;
          full = (access = Own \<or> access = Custodian);
          manage = (full \<or> access = Grant Manage) in
      case act of
        ListHooks \<Rightarrow> Allowed | ReadHook \<Rightarrow> Allowed | ReadEvents \<Rightarrow> Allowed
      | Observe \<Rightarrow>
          if actor_kind_of (ac_actor c) \<noteq> Carbon
          then Forbidden ''only Carbons observe a Silicon's events; the Silicon itself receives them directly''
          else if access = Own then Forbidden ''a Silicon receives its own events directly''
          else Allowed
      | _ \<Rightarrow>
          if act \<in> {CreateHook, UpdateHook, SetHookEnabled, DeleteHook, RestoreHook, RotateSecret, RotateEndpoint}
          then (if manage then Allowed
                else Forbidden ''changing hooks needs the Silicon itself, its custodian, or a manage grant; you have view access'')
          else (if full then Allowed
                else Forbidden ''only the Silicon itself or its custodian can do this''))"

section \<open>What access is worth\<close>

definition reading :: "action \<Rightarrow> bool" where
  "reading a \<longleftrightarrow> a \<in> {ListHooks, ReadHook, ReadEvents}"

definition owners_only :: "action \<Rightarrow> bool" where
  "owners_only a \<longleftrightarrow> a \<in> {ConnectAccountsHook, ManageAccess, ManageAllowList}"

definition changing :: "action \<Rightarrow> bool" where
  "changing a \<longleftrightarrow>
     a \<in> {CreateHook, UpdateHook, SetHookEnabled, DeleteHook, RestoreHook, RotateSecret, RotateEndpoint}"

lemma action_classes: "reading a \<or> changing a \<or> owners_only a \<or> a = Observe"
  by (cases a) (simp_all add: reading_def changing_def owners_only_def)

lemma authorize_reading [simp]: "reading a \<Longrightarrow> authorize c a = Allowed"
  by (auto simp: reading_def authorize_def)

lemma authorize_changing:
  "changing a \<Longrightarrow> authorize c a = Allowed \<longleftrightarrow> access_level (ac_access c) = Manage"
  by (cases "ac_access c"; cases a) (auto simp: changing_def authorize_def access_level_def)

lemma authorize_owners_only:
  "owners_only a \<Longrightarrow> authorize c a = Allowed \<longleftrightarrow> ac_access c = Own \<or> ac_access c = Custodian"
  by (cases a) (auto simp: owners_only_def authorize_def split: if_splits)

lemma authorize_observe:
  "authorize c Observe = Allowed \<longleftrightarrow> actor_kind_of (ac_actor c) = Carbon \<and> ac_access c \<noteq> Own"
  by (simp add: authorize_def)

lemma authorization_is_graded_parts:
  shows "l \<le> m \<Longrightarrow> is_allowed (authorize (c\<lparr>ac_access := Grant l\<rparr>) a) \<Longrightarrow>
      is_allowed (authorize (c\<lparr>ac_access := Grant m\<rparr>) a)"
    and "is_allowed (authorize (c\<lparr>ac_access := Grant l\<rparr>) a) \<Longrightarrow>
      is_allowed (authorize (c\<lparr>ac_access := Custodian\<rparr>) a)"
    and "is_allowed (authorize (c\<lparr>ac_access := Grant View\<rparr>) a) \<longleftrightarrow>
      reading a \<or> a = Observe \<and> actor_kind_of (ac_actor c) = Carbon"
    and "is_allowed (authorize (c\<lparr>ac_access := Grant l\<rparr>) a) \<Longrightarrow>
      a \<notin> {ConnectAccountsHook, ManageAccess, ManageAllowList}"
  using action_classes [of a]
  by (auto simp: is_allowed_def authorize_changing authorize_owners_only authorize_observe
      access_level_def less_eq_grant_level_def reading_def changing_def owners_only_def)



end
