(* ===== verification/Rows.thy ===== *)
theory Rows
  imports Crypto
begin

text \<open>
  Stored rows and their conversion to domain values (\<open>infrastructure/postgres/models.rs\<close>,
  \<open>error.rs\<close>). A row keeps the columns as the driver returns them: text, bytes, JSON, instants. A
  conversion fails with \<open>CorruptData\<close> on the first column that is not a valid domain value. The
  reason in the error is kept as its cause instead of its rendered text. \<open>timestamptz\<close> columns hold
  microseconds; the application passes only instants cut to microseconds, and a column here keeps
  the instant it is given.
\<close>

section \<open>Persistence errors\<close>

datatype sqlx_error =
    SqlxIo
  | SqlxTls
  | SqlxPoolTimedOut
  | SqlxPoolClosed
  | SqlxWorkerCrashed
  | SqlxDatabase "string option" "string option"
  | SqlxEncode
  | SqlxOther

datatype cause =
    CauseText string
  | CauseDomain domain_error
  | CauseCapture capture_error
  | CauseConfig
  | CauseUrl
  | CauseNumber
  | CauseJson

datatype store_error =
    Database sqlx_error
  | Migration
  | SchemaNotReady ustring
  | CorruptData string cause
  | NotFound string
  | StateConflict string
  | IdempotencyConflict
  | SecretReplayExpired
  | SecretSuperseded
  | EndpointKeyConflict
  | DefaultHookExists
  | HookLimitReached
  | NumericRange string
  | InvalidArgument string string

fun diagnostic_code :: "store_error \<Rightarrow> string" where
  "diagnostic_code (Database _) = ''database''"
| "diagnostic_code Migration = ''migration''"
| "diagnostic_code (SchemaNotReady _) = ''schema_not_ready''"
| "diagnostic_code (CorruptData _ _) = ''corrupt_data''"
| "diagnostic_code (NotFound _) = ''not_found''"
| "diagnostic_code (StateConflict _) = ''state_conflict''"
| "diagnostic_code IdempotencyConflict = ''idempotency_conflict''"
| "diagnostic_code SecretReplayExpired = ''secret_replay_expired''"
| "diagnostic_code SecretSuperseded = ''secret_superseded''"
| "diagnostic_code EndpointKeyConflict = ''endpoint_key_conflict''"
| "diagnostic_code DefaultHookExists = ''default_hook_exists''"
| "diagnostic_code HookLimitReached = ''hook_limit_reached''"
| "diagnostic_code (NumericRange _) = ''numeric_range''"
| "diagnostic_code (InvalidArgument _ _) = ''invalid_argument''"

definition corrupt :: "string \<Rightarrow> domain_error \<Rightarrow> store_error" where
  "corrupt entity e = CorruptData entity (CauseDomain e)"

section \<open>Crates of the service\<close>

text \<open>
  The crates of the components the service is built from, in one record. \<open>dp_config_value\<close> and
  \<open>dp_config_parse\<close> are the derived \<open>serde\<close> conversions of the signature configuration.
\<close>

record ('u, 'k, 'z) deps =
  dp_crates :: "'u crates"
  dp_keys :: "'k key_crates"
  dp_uuid :: uuid_crate
  dp_jiff :: "'z jiff_crate"
  dp_time :: time_crate
  dp_crypto :: crypto_crates
  dp_config_value :: "signature_config \<Rightarrow> json option"
  dp_config_parse :: "json \<Rightarrow> signature_config option"

section \<open>Hook rows\<close>

text \<open>
  The columns of \<open>hook.hooks\<close>: those every projection reads, then the ones only the statements
  use.
\<close>

record hook_row =
  hr_id :: uuid
  hr_silicon_id :: ustring
  hr_silicon_uuid :: "ustring option"
  hr_endpoint_key :: ustring
  hr_name :: ustring
  hr_description :: "ustring option"
  hr_signature_required :: bool
  hr_signature_config :: json
  hr_encryption_key_id :: "ustring option"
  hr_secret_nonce :: "bytes option"
  hr_encrypted_signing_secret :: "bytes option"
  hr_time_zone :: ustring
  hr_created_by_kind :: ustring
  hr_created_by_id :: ustring
  hr_created_by_uuid :: "ustring option"
  hr_created_at :: instant
  hr_disabled_at :: "instant option"
  hr_deleted_at :: "instant option"
  hr_last_received_at :: "instant option"
  hr_last_blocked_at :: "instant option"
  hr_endpoint_rotated_at :: "instant option"
  hr_is_accounts_default :: bool
  hr_secret_generation :: int
  hr_updated_at :: instant

definition parse_actor_kind :: "ustring \<Rightarrow> (actor_kind, store_error) result" where
  "parse_actor_kind v =
     (if v = lit ''carbon'' then Ok Carbon
      else if v = lit ''silicon'' then Ok Silicon
      else Err (CorruptData ''actor'' (CauseText ''unknown actor kind'')))"

definition optional_uuid ::
  "uuid_crate \<Rightarrow> ustring option \<Rightarrow> string \<Rightarrow> (account_uuid option, store_error) result" where
  "optional_uuid uc v entity =
     map_err (corrupt entity) (transpose_opt (map_option (account_uuid_new uc) v))"

definition row_status :: "hook_row \<Rightarrow> hook_status" where
  "row_status row =
     (if hr_deleted_at row \<noteq> None then Deleted
      else if hr_disabled_at row \<noteq> None then Disabled
      else Active)"

definition row_secret :: "hook_row \<Rightarrow> (encrypted_secret option, store_error) result" where
  "row_secret row =
     (case (hr_encryption_key_id row, hr_secret_nonce row, hr_encrypted_signing_secret row) of
        (Some key_id, Some nonce, Some ciphertext) \<Rightarrow>
          if length nonce \<noteq> encryption_nonce_bytes
          then Err (CorruptData ''hook'' (CauseText ''invalid secret nonce length''))
          else
            and_then (map_err (corrupt ''hook'') (encryption_key_id_new key_id)) (\<lambda>key_id.
              map_ok Some (map_err (corrupt ''hook'') (encrypted_secret_new key_id nonce ciphertext)))
      | (None, None, None) \<Rightarrow> Ok None
      | _ \<Rightarrow> Err (CorruptData ''hook'' (CauseText ''incomplete encrypted secret'')))"

definition row_creator :: "uuid_crate \<Rightarrow> hook_row \<Rightarrow> (actor_ref, store_error) result" where
  "row_creator uc row =
     and_then (parse_actor_kind (hr_created_by_kind row)) (\<lambda>kind.
     and_then (optional_uuid uc (hr_created_by_uuid row) ''hook'') (\<lambda>u.
       map_err (corrupt ''hook'') (actor_ref_stored kind (hr_created_by_id row) u)))"

definition hook_of_row :: "('u, 'k, 'z) deps \<Rightarrow> hook_row \<Rightarrow> (hook, store_error) result" where
  "hook_of_row dp row =
     and_then (row_secret row) (\<lambda>encrypted_secret.
     and_then (ok_or (CorruptData ''hook'' CauseConfig) (dp_config_parse dp (hr_signature_config row))) (\<lambda>config.
     and_then (row_creator (dp_uuid dp) row) (\<lambda>created_by.
     and_then (map_err (corrupt ''hook'') (silicon_id_new (hr_silicon_id row))) (\<lambda>silicon_id.
     and_then (optional_uuid (dp_uuid dp) (hr_silicon_uuid row) ''hook'') (\<lambda>silicon_uuid.
     and_then (map_err (corrupt ''hook'') (hook_name_new (hr_name row))) (\<lambda>hname.
     and_then (map_err (corrupt ''hook'')
        (transpose_opt (map_option hook_description_new (hr_description row)))) (\<lambda>description.
     and_then (map_err (corrupt ''hook'') (endpoint_key_parse (hr_endpoint_key row))) (\<lambda>endpoint_key.
     and_then (map_err (corrupt ''hook'') (hook_time_zone_new (dp_jiff dp) (hr_time_zone row))) (\<lambda>time_zone.
       map_err (corrupt ''hook'') (hook_rehydrate
         \<lparr>hk_id = HookId (hr_id row), hk_silicon_id = silicon_id, hk_silicon_uuid = silicon_uuid,
          hk_name = hname, hk_description = description, hk_endpoint_key = endpoint_key,
          hk_signing = \<lparr>sp_required = hr_signature_required row, sp_config = config,
                        sp_encrypted_secret = encrypted_secret\<rparr>,
          hk_time_zone = time_zone, hk_status = row_status row, hk_created_by = created_by,
          hk_created_at = hr_created_at row, hk_disabled_at = hr_disabled_at row,
          hk_deleted_at = hr_deleted_at row, hk_last_received_at = hr_last_received_at row,
          hk_last_blocked_at = hr_last_blocked_at row,
          hk_endpoint_rotated_at = hr_endpoint_rotated_at row\<rparr>))))))))))"

section \<open>Captured requests in rows\<close>

record capture_row =
  cw_method :: ustring
  cw_url :: ustring
  cw_path :: ustring
  cw_query_string :: ustring
  cw_headers :: json
  cw_content_type :: "ustring option"
  cw_body :: bytes
  cw_remote_ip :: ip_addr
  cw_received_at :: instant

text \<open>The length of the JSON text of the headers; writing a \<open>Value\<close> as text does not fail.\<close>

definition json_text_len :: "'u crates \<Rightarrow> json \<Rightarrow> nat" where
  "json_text_len cr j = (case cr_json_text cr j of Some t \<Rightarrow> str_len t | None \<Rightarrow> 0)"

definition estimated_response_bytes :: "'u crates \<Rightarrow> capture_row \<Rightarrow> nat" where
  "estimated_response_bytes cr row =
     saturating_add
       (saturating_add
         (saturating_add
           (saturating_add
             (saturating_add (saturating_mul (length (cw_body row)) 2)
               (saturating_mul (json_text_len cr (cw_headers row)) 2))
             (str_len (cw_url row)))
           (str_len (cw_path row)))
         (str_len (cw_query_string row)))
       1024"

definition replace_nul :: "ustring \<Rightarrow> ustring" where
  "replace_nul s = map (\<lambda>c. if c = 0 then 0xFFFD else c) s"

definition encode_headers :: "pairs \<Rightarrow> json" where
  "encode_headers hs =
     JArray (map (\<lambda>(name, v). JArray [JString (replace_nul name), JString (replace_nul v)]) hs)"

fun decode_pair :: "json \<Rightarrow> (ustring \<times> ustring) option" where
  "decode_pair (JArray [JString name, JString v]) = Some (name, v)"
| "decode_pair _ = None"

fun decode_pairs :: "json list \<Rightarrow> pairs option" where
  "decode_pairs [] = Some []"
| "decode_pairs (p # ps) =
     (case decode_pair p of
        None \<Rightarrow> None
      | Some kv \<Rightarrow> map_option (Cons kv) (decode_pairs ps))"

fun decode_headers :: "json \<Rightarrow> pairs option" where
  "decode_headers (JArray ps) = decode_pairs ps"
| "decode_headers _ = None"

text \<open>The columns a statement binds for a captured request.\<close>

definition bind_capture :: "'u crates \<Rightarrow> 'u captured \<Rightarrow> capture_row" where
  "bind_capture cr r =
     \<lparr>cw_method = cap_method r, cw_url = cr_url_text cr (cap_url r), cw_path = cr_url_path cr (cap_url r),
      cw_query_string = query_string cr r, cw_headers = encode_headers (cap_headers r),
      cw_content_type = content_type r, cw_body = cap_body r, cw_remote_ip = cap_remote_ip r,
      cw_received_at = cap_received_at r\<rparr>"

definition into_request :: "'u crates \<Rightarrow> string \<Rightarrow> capture_row \<Rightarrow> ('u captured, store_error) result" where
  "into_request cr entity row =
     and_then (ok_or (CorruptData entity (CauseText ''headers are not name/value pairs''))
        (decode_headers (cw_headers row))) (\<lambda>headers.
     and_then (ok_or (CorruptData entity CauseUrl) (cr_url_parse cr (cw_url row))) (\<lambda>url.
       if cr_url_path cr url \<noteq> cw_path row \<or>
          (case cr_url_query cr url of None \<Rightarrow> [] | Some q \<Rightarrow> q) \<noteq> cw_query_string row
       then Err (CorruptData entity (CauseText ''url disagrees with path or query''))
       else
         map_err (\<lambda>e. CorruptData entity (CauseCapture e))
           (captured_new
             \<lparr>rp_method = cw_method row, rp_url = url, rp_headers = headers, rp_body = cw_body row,
              rp_remote_ip = cw_remote_ip row, rp_received_at = cw_received_at row\<rparr>)))"

section \<open>Log rows\<close>

record event_row =
  er_id :: uuid
  er_hook_id :: uuid
  er_silicon_id :: ustring
  er_silicon_uuid :: "ustring option"
  er_provider :: ustring
  er_summary :: ustring
  er_sequence :: int
  er_capture :: capture_row
  er_expires_at :: instant

definition event_of_row :: "('u, 'k, 'z) deps \<Rightarrow> event_row \<Rightarrow> ('u event_record, store_error) result" where
  "event_of_row dp row =
     and_then (map_err (corrupt ''event'') (silicon_id_new (er_silicon_id row))) (\<lambda>silicon_id.
     and_then (optional_uuid (dp_uuid dp) (er_silicon_uuid row) ''event'') (\<lambda>silicon_uuid.
     and_then (map_err (corrupt ''event'') (hook_name_new (er_provider row))) (\<lambda>provider.
     and_then (into_request (dp_crates dp) ''event'' (er_capture row)) (\<lambda>request.
     and_then (map_err (corrupt ''event'') (delivery_sequence_new (er_sequence row))) (\<lambda>sequence.
       Ok \<lparr>ev_id = EventId (er_id row), ev_silicon_id = silicon_id, ev_silicon_uuid = silicon_uuid,
           ev_hook_id = HookId (er_hook_id row), ev_provider = provider, ev_summary = er_summary row,
           ev_request = request, ev_sequence = sequence,
           ev_received_at = cw_received_at (er_capture row)\<rparr>)))))"

record blocked_row =
  br_id :: uuid
  br_hook_id :: uuid
  br_silicon_id :: ustring
  br_silicon_uuid :: "ustring option"
  br_provider :: ustring
  br_reason_code :: ustring
  br_reason_detail :: ustring
  br_capture :: capture_row
  br_expires_at :: instant

definition blocked_of_row ::
  "('u, 'k, 'z) deps \<Rightarrow> blocked_row \<Rightarrow> ('u blocked_request, store_error) result" where
  "blocked_of_row dp row =
     and_then (map_err (corrupt ''blocked request'') (silicon_id_new (br_silicon_id row))) (\<lambda>silicon_id.
     and_then (optional_uuid (dp_uuid dp) (br_silicon_uuid row) ''blocked request'') (\<lambda>silicon_uuid.
     and_then (map_err (corrupt ''blocked request'') (hook_name_new (br_provider row))) (\<lambda>provider.
     and_then (into_request (dp_crates dp) ''blocked request'' (br_capture row)) (\<lambda>request.
     and_then (map_err (corrupt ''blocked request'')
        (block_reason_rehydrate (br_reason_code row) (br_reason_detail row))) (\<lambda>reason.
       Ok \<lparr>bk_id = BlockedRequestId (br_id row), bk_silicon_id = silicon_id,
           bk_silicon_uuid = silicon_uuid, bk_hook_id = HookId (br_hook_id row), bk_provider = provider,
           bk_request = request, bk_reason = reason,
           bk_received_at = cw_received_at (br_capture row)\<rparr>)))))"

section \<open>Reading a hook row\<close>

lemma parse_actor_kind_as_str [simp]: "parse_actor_kind (lit (actor_kind_as_str k)) = Ok k"
  by (cases k) (simp_all add: parse_actor_kind_def)

lemma hook_of_row_Ok:
  "hook_of_row dp r = Ok h \<longleftrightarrow>
     hk_id h = HookId (hr_id r) \<and> hk_status h = row_status r \<and> hk_created_at h = hr_created_at r \<and>
     hk_disabled_at h = hr_disabled_at r \<and> hk_deleted_at h = hr_deleted_at r \<and>
     hk_last_received_at h = hr_last_received_at r \<and> hk_last_blocked_at h = hr_last_blocked_at r \<and>
     hk_endpoint_rotated_at h = hr_endpoint_rotated_at r \<and>
     sp_required (hk_signing h) = hr_signature_required r \<and>
     dp_config_parse dp (hr_signature_config r) = Some (sp_config (hk_signing h)) \<and>
     row_secret r = Ok (sp_encrypted_secret (hk_signing h)) \<and>
     row_creator (dp_uuid dp) r = Ok (hk_created_by h) \<and>
     silicon_id_new (hr_silicon_id r) = Ok (hk_silicon_id h) \<and>
     optional_uuid (dp_uuid dp) (hr_silicon_uuid r) ''hook'' = Ok (hk_silicon_uuid h) \<and>
     hook_name_new (hr_name r) = Ok (hk_name h) \<and>
     transpose_opt (map_option hook_description_new (hr_description r)) = Ok (hk_description h) \<and>
     endpoint_key_parse (hr_endpoint_key r) = Ok (hk_endpoint_key h) \<and>
     hook_time_zone_new (dp_jiff dp) (hr_time_zone r) = Ok (hk_time_zone h) \<and> wf_hook h"
  unfolding hook_of_row_def and_then_Ok_iff map_err_Ok_iff ok_or_Ok_iff rehydrate_iff
  by (cases h; cases "hk_signing h") (simp, blast)

section \<open>Hooks survive storage\<close>

text \<open>The values a hook carries are in the form their columns are read back from.\<close>

definition secret_storable :: "encrypted_secret \<Rightarrow> bool" where
  "secret_storable s \<longleftrightarrow>
     length (es_nonce s) = encryption_nonce_bytes \<and>
     encryption_key_id_new (encryption_key_id_str (es_key_id s)) = Ok (es_key_id s) \<and>
     encrypted_secret_new (es_key_id s) (es_nonce s) (es_ciphertext s) = Ok s"

definition account_storable :: "uuid_crate \<Rightarrow> account_uuid option \<Rightarrow> bool" where
  "account_storable uc u \<longleftrightarrow> (\<forall>x. u = Some x \<longrightarrow> account_uuid_new uc (account_uuid_str x) = Ok x)"

definition actor_storable :: "uuid_crate \<Rightarrow> actor_ref \<Rightarrow> bool" where
  "actor_storable uc a \<longleftrightarrow>
     actor_id_new (actor_id_str (ar_id a)) = Ok (ar_id a) \<and> account_storable uc (ar_uuid a)"

definition config_storable :: "('u, 'k, 'z) deps \<Rightarrow> signature_config \<Rightarrow> bool" where
  "config_storable dp c \<longleftrightarrow>
     (\<exists>j. dp_config_value dp c = Some j \<and> dp_config_parse dp j = Some c)"

definition signing_storable :: "('u, 'k, 'z) deps \<Rightarrow> signing_policy \<Rightarrow> bool" where
  "signing_storable dp s \<longleftrightarrow>
     config_storable dp (sp_config s) \<and> (\<forall>x. sp_encrypted_secret s = Some x \<longrightarrow> secret_storable x)"

definition hook_storable :: "('u, 'k, 'z) deps \<Rightarrow> hook \<Rightarrow> bool" where
  "hook_storable dp h \<longleftrightarrow>
     silicon_id_new (silicon_id_str (hk_silicon_id h)) = Ok (hk_silicon_id h) \<and>
     account_storable (dp_uuid dp) (hk_silicon_uuid h) \<and>
     hook_name_new (hook_name_str (hk_name h)) = Ok (hk_name h) \<and>
     (\<forall>d. hk_description h = Some d \<longrightarrow> hook_description_new (hook_description_str d) = Ok d) \<and>
     endpoint_key_parse (endpoint_key_str (hk_endpoint_key h)) = Ok (hk_endpoint_key h) \<and>
     hook_time_zone_new (dp_jiff dp) (time_zone_str (hk_time_zone h)) = Ok (hk_time_zone h) \<and>
     actor_storable (dp_uuid dp) (hk_created_by h) \<and> signing_storable dp (hk_signing h)"

text \<open>The three columns of an encrypted secret, as every statement that writes them binds them.\<close>

definition set_secret_columns :: "encrypted_secret option \<Rightarrow> hook_row \<Rightarrow> hook_row" where
  "set_secret_columns s row =
     row\<lparr>hr_encryption_key_id := map_option (\<lambda>x. encryption_key_id_str (es_key_id x)) s,
         hr_secret_nonce := map_option es_nonce s,
         hr_encrypted_signing_secret := map_option es_ciphertext s\<rparr>"

lemma row_secret_set:
  "(\<forall>x. s = Some x \<longrightarrow> secret_storable x) \<Longrightarrow> row_secret (set_secret_columns s r) = Ok s"
  by (cases s) (auto simp: row_secret_def set_secret_columns_def secret_storable_def)

lemma optional_uuid_stored:
  "account_storable uc u \<Longrightarrow> optional_uuid uc (map_option account_uuid_str u) e = Ok u"
  by (cases u) (auto simp: optional_uuid_def account_storable_def)

text \<open>What the columns give back is storable again.\<close>

lemma secret_of_row_storable: "row_secret r = Ok (Some x) \<Longrightarrow> secret_storable x"
  by (auto simp: row_secret_def secret_storable_def result_simps encrypted_secret_new_def Let_def
      split: option.splits if_splits intro: encryption_key_ids.make_as_str)

lemma account_of_column_storable: "optional_uuid uc v e = Ok u \<Longrightarrow> account_storable uc u"
  by (auto simp: optional_uuid_def account_storable_def result_simps intro: account_uuids.make_as_str)

lemma creator_of_row_storable: "row_creator uc r = Ok a \<Longrightarrow> actor_storable uc a"
  by (auto simp: row_creator_def actor_storable_def actor_ref_stored_def result_simps
      dest: account_of_column_storable intro: actor_ids.make_as_str)

definition config_reads_back :: "('u, 'k, 'z) deps \<Rightarrow> bool" where
  "config_reads_back dp \<longleftrightarrow> (\<forall>j c. dp_config_parse dp j = Some c \<longrightarrow> config_storable dp c)"

lemma hook_of_row_storable:
  assumes "hook_of_row dp r = Ok h" and "canonical_zones (dp_jiff dp)" and "config_reads_back dp"
  shows "hook_storable dp h \<and> wf_hook h"
  using assms unfolding hook_of_row_Ok hook_storable_def signing_storable_def config_reads_back_def
  by (auto simp: result_simps dest: account_of_column_storable creator_of_row_storable secret_of_row_storable
      intro: silicon_ids.make_as_str hook_names.make_as_str hook_descriptions.make_as_str
        endpoint_keys.make_as_str time_zone_rehydrates(1))

section \<open>Captured requests survive storage\<close>

lemma decode_encode_headers:
  "decode_headers (encode_headers hs) = Some (map (\<lambda>(n, v). (replace_nul n, replace_nul v)) hs)"
proof -
  have "decode_pairs (map (\<lambda>(n, v). JArray [JString (replace_nul n), JString (replace_nul v)]) hs) =
      Some (map (\<lambda>(n, v). (replace_nul n, replace_nul v)) hs)"
    by (induction hs) auto
  then show ?thesis by (simp add: encode_headers_def)
qed

lemma replace_nul_id: "0 \<notin> set s \<Longrightarrow> replace_nul s = s"
  unfolding replace_nul_def by (induction s) auto

definition headers_without_nul :: "pairs \<Rightarrow> bool" where
  "headers_without_nul hs \<longleftrightarrow> (\<forall>(n, v) \<in> set hs. 0 \<notin> set n \<and> 0 \<notin> set v)"

lemma decode_stored_headers:
  "headers_without_nul hs \<Longrightarrow> decode_headers (encode_headers hs) = Some hs"
  unfolding decode_encode_headers headers_without_nul_def
  by (simp add: map_idI replace_nul_id case_prod_beta)

text \<open>A URL is written in a form that parses to itself.\<close>

definition url_text_parses :: "'u crates \<Rightarrow> bool" where
  "url_text_parses cr \<longleftrightarrow> (\<forall>u. cr_url_parse cr (cr_url_text cr u) = Some u)"

definition token_char :: "nat \<Rightarrow> bool" where
  "token_char c \<longleftrightarrow>
     is_ascii_alphanumeric c \<or> c \<in> set [33, 35, 36, 37, 38, 39, 42, 43, 45, 46, 94, 95, 96, 124, 126]"

lemma token_bytes: "list_all is_token_byte (utf8 m) \<longleftrightarrow> list_all token_char m"
proof -
  have "token_char c \<Longrightarrow> c < 128" for c
    by (auto simp: token_char_def char_class_defs)
  from list_all_utf8 [of token_char, OF this] show ?thesis
    by (simp add: is_token_byte_def [abs_def] token_char_def [abs_def])
qed

lemma token_char_upper: "token_char c \<Longrightarrow> token_char (to_ascii_upper c)"
proof (cases "is_ascii_lowercase c")
  case True
  then have "is_ascii_alphanumeric (c - 32)" by (auto simp: char_class_defs)
  with True show ?thesis by (simp add: token_char_def to_ascii_upper_def)
qed (simp add: to_ascii_upper_def)

lemma upper_idem: "to_ascii_uppercase (to_ascii_uppercase s) = to_ascii_uppercase s"
proof -
  have "to_ascii_upper (to_ascii_upper c) = to_ascii_upper c" for c
    by (auto simp: to_ascii_upper_def is_ascii_lowercase_def)
  then show ?thesis by (simp add: to_ascii_uppercase_def)
qed

lemma method_ok_upper: "method_ok m \<Longrightarrow> method_ok (to_ascii_uppercase m)"
  unfolding method_ok_def token_bytes
  by (auto simp: to_ascii_uppercase_def list_all_iff token_char_upper)

lemma str_len_lower: "str_len (to_ascii_lowercase s) = str_len s"
proof -
  have "length (utf8_char (to_ascii_lower c)) = length (utf8_char c)" for c
    by (auto simp: to_ascii_lower_def is_ascii_uppercase_def utf8_char_def)
  then show ?thesis
    by (induction s) (simp_all add: str_len_def utf8_def to_ascii_lowercase_def)
qed

lemma header_size_lower: "header_size (map (\<lambda>(n, v). (to_ascii_lowercase n, v)) hs) = header_size hs"
  by (induction hs) (auto simp: header_size_def str_len_lower)

lemma captured_again:
  assumes "captured_new p = Ok r"
  shows "captured_new
      \<lparr>rp_method = cap_method r, rp_url = cap_url r, rp_headers = cap_headers r, rp_body = cap_body r,
       rp_remote_ip = cap_remote_ip r, rp_received_at = cap_received_at r\<rparr> = Ok r"
proof -
  let ?q = "\<lparr>rp_method = cap_method r, rp_url = cap_url r, rp_headers = cap_headers r, rp_body = cap_body r,
       rp_remote_ip = cap_remote_ip r, rp_received_at = cap_received_at r\<rparr>"
  note f = captured_new_fields [OF assms]
  have "method_ok (rp_method p) \<and> length (rp_body p) \<le> max_body_bytes \<and>
     length (rp_headers p) \<le> max_header_count \<and> header_size (rp_headers p) \<le> max_header_bytes"
    using assms captured_new_Ok by blast
  then have "\<exists>s. captured_new ?q = Ok s"
    unfolding captured_new_Ok by (simp add: f method_ok_upper header_size_lower)
  then obtain s where s: "captured_new ?q = Ok s" by blast
  have "s = r"
    using captured_new_fields [OF s] f
    by (cases r; cases s) (simp add: upper_idem case_prod_beta)
  with s show ?thesis by simp
qed

lemma into_request_bind:
  assumes "captured_new p = Ok r" and "url_text_parses cr" and "headers_without_nul (cap_headers r)"
  shows "into_request cr e (bind_capture cr r) = Ok r"
  using assms captured_again [OF assms(1)] unfolding url_text_parses_def
  by (simp add: into_request_def bind_capture_def decode_stored_headers query_string_def result_simps)

end
