(* ===== verification/Database.thy ===== *)
theory Database
  imports Rows
begin

text \<open>
  The tables the service keeps in PostgreSQL and the transactions over them. A table is the list of
  its rows. An operation is a function from the tables to its result and the new tables; an error
  leaves the transaction uncommitted, so nothing it did remains. A statement is translated with the
  primary keys and unique indexes of \<open>migrations/\<close> that it can violate. The database clock, where a
  statement reads it, and generated identifiers are arguments. Concurrency is not in a single
  operation: each runs under the row locks it takes, so the operations of a run are one after
  another.
\<close>

section \<open>Tables\<close>

record retired_row =
  rt_silicon_id :: ustring
  rt_silicon_uuid :: "ustring option"
  rt_endpoint_key :: ustring
  rt_hook_id :: uuid
  rt_retired_at :: instant

record ip_block_row =
  ib_hook_id :: uuid
  ib_remote_ip :: ip_addr
  ib_strikes :: int
  ib_blocked_until :: "instant option"
  ib_rejected_requests :: int
  ib_first_seen_at :: instant
  ib_updated_at :: instant

record idempotency_row =
  ir_operation :: ustring
  ir_actor_kind :: ustring
  ir_actor_id :: ustring
  ir_org_id :: ustring
  ir_target_id :: ustring
  ir_idempotency_key :: ustring
  ir_request_digest :: bytes
  ir_created_at :: instant
  ir_expires_at :: instant
  ir_response_status :: "int option"
  ir_resource_id :: "uuid option"
  ir_secret_key_id :: "ustring option"
  ir_secret_nonce :: "bytes option"
  ir_encrypted_secret :: "bytes option"
  ir_secret_replay_until :: "instant option"

record audit_row =
  au_id :: uuid
  au_occurred_at :: instant
  au_action :: ustring
  au_silicon_id :: ustring
  au_silicon_uuid :: "ustring option"
  au_hook_id :: "uuid option"
  au_actor_kind :: ustring
  au_actor_id :: ustring
  au_actor_uuid :: "ustring option"
  au_request_id :: "ustring option"

record account_row =
  ac_uuid :: ustring
  ac_kind :: "ustring option"
  ac_public_id :: "ustring option"
  ac_public_id_at :: "instant option"
  ac_display_name :: "ustring option"
  ac_pfp_url :: "ustring option"
  ac_custodian_uuid :: "ustring option"
  ac_custodian_checked_at :: "instant option"
  ac_custodian_changed_at :: "instant option"
  ac_profile_version :: int
  ac_revoked_before :: "instant option"
  ac_deleted_at :: "instant option"
  ac_updated_at :: instant

record account_id_row =
  ai_account_uuid :: ustring
  ai_public_id :: ustring
  ai_last_seen_at :: instant

record grant_row =
  gr_silicon_uuid :: ustring
  gr_grantee_uuid :: ustring
  gr_level :: ustring
  gr_granted_by_uuid :: ustring
  gr_created_at :: instant
  gr_updated_at :: instant

record allow_row =
  al_silicon_uuid :: ustring
  al_allowed_uuid :: ustring
  al_added_by_uuid :: ustring
  al_created_at :: instant

record observer_row =
  ob_id :: uuid
  ob_silicon_uuid :: ustring
  ob_recipient_uuid :: ustring
  ob_created_at :: instant

record outbox_row =
  ox_id :: uuid
  ox_event_id :: uuid
  ox_silicon_id :: ustring
  ox_recipient_id :: ustring
  ox_idempotency_key :: ustring
  ox_request_body :: bytes
  ox_attempts :: int
  ox_created_at :: instant
  ox_next_attempt_at :: instant
  ox_last_attempt_at :: "instant option"
  ox_last_error_code :: "ustring option"
  ox_lease_id :: "uuid option"
  ox_lease_until :: "instant option"
  ox_accepted_at :: "instant option"
  ox_ting_id :: "ustring option"
  ox_silent :: "bool option"
  ox_expires_at :: instant
  ox_observer_subscription_id :: "uuid option"

record accounts_event_row =
  ae_event_id :: ustring
  ae_event_type :: ustring
  ae_account_uuid :: "ustring option"
  ae_occurred_at :: "instant option"
  ae_received_at :: instant

record db =
  db_hooks :: "hook_row list"
  db_retired :: "retired_row list"
  db_events :: "event_row list"
  db_blocked :: "blocked_row list"
  db_sequences :: "(ustring \<times> int) list"
  db_ip_blocks :: "ip_block_row list"
  db_idempotency :: "idempotency_row list"
  db_audit :: "audit_row list"
  db_accounts :: "account_row list"
  db_account_ids :: "account_id_row list"
  db_grants :: "grant_row list"
  db_allowances :: "allow_row list"
  db_observers :: "observer_row list"
  db_outbox :: "outbox_row list"
  db_accounts_events :: "accounts_event_row list"
  db_retired_uuids :: "ustring list"

definition empty_db :: db where
  "empty_db =
     \<lparr>db_hooks = [], db_retired = [], db_events = [], db_blocked = [], db_sequences = [],
      db_ip_blocks = [], db_idempotency = [], db_audit = [], db_accounts = [], db_account_ids = [],
      db_grants = [], db_allowances = [], db_observers = [], db_outbox = [], db_accounts_events = [],
      db_retired_uuids = []\<rparr>"

definition unique_violation :: "string \<Rightarrow> store_error" where
  "unique_violation constraint = Database (SqlxDatabase (Some ''23505'') (Some constraint))"

definition check_violation :: "string \<Rightarrow> store_error" where
  "check_violation constraint = Database (SqlxDatabase (Some ''23514'') (Some constraint))"

section \<open>Statements\<close>

text \<open>\<open>UPDATE ... SET f WHERE P\<close> and the number of rows it affects.\<close>

definition rows_update :: "('r \<Rightarrow> bool) \<Rightarrow> ('r \<Rightarrow> 'r) \<Rightarrow> 'r list \<Rightarrow> 'r list" where
  "rows_update P f rows = map (\<lambda>r. if P r then f r else r) rows"

definition rows_affected :: "('r \<Rightarrow> bool) \<Rightarrow> 'r list \<Rightarrow> nat" where
  "rows_affected P rows = length (filter P rows)"

lemma find_rows_update:
  "(\<And>r. r \<in> set rows \<Longrightarrow> P r \<Longrightarrow> Q (f r) = Q r) \<Longrightarrow>
     find Q (rows_update P f rows) = map_option (\<lambda>r. if P r then f r else r) (find Q rows)"
  by (induction rows) (auto simp: rows_update_def)

lemma map_key_rows_update [simp]:
  "(\<And>r. P r \<Longrightarrow> key (f r) = key r) \<Longrightarrow> map key (rows_update P f rows) = map key rows"
  by (simp add: rows_update_def)

lemma set_rows_update: "set (rows_update P f rows) = (\<lambda>r. if P r then f r else r) ` set rows"
  by (simp add: rows_update_def)

lemma length_rows_update [simp]: "length (rows_update P f rows) = length rows"
  by (simp add: rows_update_def)

lemma rows_update_id: "(\<And>r. r \<in> set rows \<Longrightarrow> P r \<Longrightarrow> f r = r) \<Longrightarrow> rows_update P f rows = rows"
  by (induction rows) (auto simp: rows_update_def)

lemma rows_affected_pos: "rows_affected P rows = 0 \<longleftrightarrow> (\<forall>r \<in> set rows. \<not> P r)"
  by (simp add: rows_affected_def filter_empty_conv)

lemma find_SomeD: "find P xs = Some x \<Longrightarrow> x \<in> set xs \<and> P x"
  by (induction xs) (auto split: if_splits)

lemma same_key: "distinct (map key rows) \<Longrightarrow> q \<in> set rows \<Longrightarrow> r \<in> set rows \<Longrightarrow> key q = key r \<Longrightarrow> q = r"
  unfolding distinct_map inj_on_def by blast

lemma find_unique:
  assumes "distinct (map key rows)" and "r \<in> set rows" and "P r" and "\<And>q. P q \<Longrightarrow> key q = key r"
  shows "find P rows = Some r"
proof (cases "find P rows")
  case None
  with assms(2,3) show ?thesis by (simp add: find_None_iff)
next
  case (Some q)
  then have "q \<in> set rows" "P q" using find_SomeD by fast+
  with assms(1,2,4) have "q = r" by (blast intro: same_key)
  with Some show ?thesis by simp
qed

lemma rows_affected_unique:
  assumes "distinct (map key rows)" and "\<And>q r. P q \<Longrightarrow> P r \<Longrightarrow> key q = key r"
  shows "rows_affected P rows \<le> 1"
proof -
  have d: "distinct (filter P rows)" using assms(1) by (simp add: distinct_map)
  have same: "q = r" if "q \<in> set (filter P rows)" "r \<in> set (filter P rows)" for q r
    using that same_key [OF assms(1), of q r] assms(2) [of q r] by simp
  show ?thesis
  proof (cases "filter P rows")
    case (Cons q qs)
    then have "qs = []" using d same [of q] by (cases qs) auto
    with Cons show ?thesis by (simp add: rows_affected_def)
  qed (simp add: rows_affected_def)
qed

lemma rows_affected_one:
  assumes "distinct (map key rows)" and "\<And>q r. P q \<Longrightarrow> P r \<Longrightarrow> key q = key r" and "r \<in> set rows" and "P r"
  shows "rows_affected P rows = 1"
  using rows_affected_unique [of key rows P, OF assms(1,2)] rows_affected_pos [of P rows] assms(3,4)
  by fastforce

end
