(* ===== verification/Idempotency.thy ===== *)
theory Idempotency
  imports Database
begin

text \<open>
  Management idempotency (\<open>infrastructure/postgres/idempotency.rs\<close> and the commands it takes from
  \<open>types.rs\<close>): reserving a key, replaying the stored response of an earlier request, and finishing a
  reservation in the transaction that did the work.
\<close>

section \<open>Reservations\<close>

definition accounts_era_org :: ustring where
  "accounts_era_org = lit ''accounts''"

record idempotency_scope =
  is_operation :: ustring
  is_actor :: actor_ref
  is_target_id :: ustring
  is_key :: ustring
  is_request_digest :: bytes

record persisted_response =
  pr_status :: nat
  pr_resource_id :: "hook_id option"
  pr_encrypted_secret :: "encrypted_secret option"
  pr_secret_replay_until :: "instant option"

datatype management_reservation = Reserved | Replayed persisted_response

text \<open>The six columns of the primary key that a scope binds.\<close>

definition scope_key :: "idempotency_scope \<Rightarrow> ustring list" where
  "scope_key s =
     [is_operation s, lit (actor_kind_as_str (ar_kind (is_actor s))), actor_id_str (ar_id (is_actor s)),
      accounts_era_org, is_target_id s, is_key s]"

definition ir_key :: "idempotency_row \<Rightarrow> ustring list" where
  "ir_key r =
     [ir_operation r, ir_actor_kind r, ir_actor_id r, ir_org_id r, ir_target_id r, ir_idempotency_key r]"

definition reservation_row :: "idempotency_scope \<Rightarrow> instant \<Rightarrow> idempotency_row" where
  "reservation_row s now =
     \<lparr>ir_operation = is_operation s, ir_actor_kind = lit (actor_kind_as_str (ar_kind (is_actor s))),
      ir_actor_id = actor_id_str (ar_id (is_actor s)), ir_org_id = accounts_era_org,
      ir_target_id = is_target_id s, ir_idempotency_key = is_key s,
      ir_request_digest = is_request_digest s, ir_created_at = now,
      ir_expires_at = now + duration_days 1, ir_response_status = None, ir_resource_id = None,
      ir_secret_key_id = None, ir_secret_nonce = None, ir_encrypted_secret = None,
      ir_secret_replay_until = None\<rparr>"

definition rehydrate_replay_secret :: "idempotency_row \<Rightarrow> (encrypted_secret option, store_error) result" where
  "rehydrate_replay_secret row =
     (let entity = ''management idempotency'' in
      case (ir_secret_key_id row, ir_secret_nonce row, ir_encrypted_secret row) of
        (Some key_id, Some nonce, Some ciphertext) \<Rightarrow>
          if length nonce \<noteq> encryption_nonce_bytes
          then Err (CorruptData entity (CauseText ''invalid replay-secret nonce''))
          else
            and_then (map_err (corrupt entity) (encryption_key_id_new key_id)) (\<lambda>key_id.
              map_err (corrupt entity) (map_ok Some (encrypted_secret_new key_id nonce ciphertext)))
      | (None, None, None) \<Rightarrow> Ok None
      | _ \<Rightarrow> Err (CorruptData entity (CauseText ''incomplete encrypted replay secret'')))"

definition replay_from_row ::
  "idempotency_row \<Rightarrow> idempotency_scope \<Rightarrow> instant \<Rightarrow> (management_reservation, store_error) result" where
  "replay_from_row row s now =
     (if ir_request_digest row \<noteq> is_request_digest s then Err IdempotencyConflict
      else if (case ir_secret_replay_until row of Some replay_until \<Rightarrow> replay_until < now | None \<Rightarrow> False)
        then Err SecretReplayExpired
      else
        and_then (ok_or (CorruptData ''management idempotency'' (CauseText ''missing response status''))
           (ir_response_status row)) (\<lambda>status.
          if status < 0 then Err (CorruptData ''management idempotency'' CauseNumber)
          else
            and_then (rehydrate_replay_secret row) (\<lambda>encrypted_secret.
              Ok (Replayed
                \<lparr>pr_status = nat status, pr_resource_id = map_option HookId (ir_resource_id row),
                 pr_encrypted_secret = encrypted_secret,
                 pr_secret_replay_until = ir_secret_replay_until row\<rparr>))))"

text \<open>
  Expired rows of the key are removed, then the key is inserted unless it is there; the row of an
  earlier request answers for it otherwise.
\<close>

definition reserve_management_key ::
  "idempotency_scope \<Rightarrow> instant \<Rightarrow> db \<Rightarrow> (management_reservation \<times> db, store_error) result" where
  "reserve_management_key s now db =
     (let rows = filter (\<lambda>r. \<not> (ir_key r = scope_key s \<and> ir_expires_at r \<le> now)) (db_idempotency db);
          db = db\<lparr>db_idempotency := rows\<rparr> in
      if list_all (\<lambda>r. ir_key r \<noteq> scope_key s) rows
      then Ok (Reserved, db\<lparr>db_idempotency := reservation_row s now # rows\<rparr>)
      else
        and_then
          (ok_or (CorruptData ''management idempotency'' (CauseText ''conflict row disappeared''))
            (find (\<lambda>r. ir_key r = scope_key s) rows)) (\<lambda>existing.
          map_ok (\<lambda>reservation. (reservation, db)) (replay_from_row existing s now)))"

definition finish_row :: "persisted_response \<Rightarrow> idempotency_row \<Rightarrow> idempotency_row" where
  "finish_row response r =
     r\<lparr>ir_response_status := Some (int (pr_status response)),
       ir_resource_id := map_option hook_uuid (pr_resource_id response),
       ir_secret_key_id := map_option (\<lambda>x. encryption_key_id_str (es_key_id x)) (pr_encrypted_secret response),
       ir_secret_nonce := map_option es_nonce (pr_encrypted_secret response),
       ir_encrypted_secret := map_option es_ciphertext (pr_encrypted_secret response),
       ir_secret_replay_until := pr_secret_replay_until response\<rparr>"

definition finish_management_key ::
  "idempotency_scope \<Rightarrow> persisted_response \<Rightarrow> db \<Rightarrow> (unit \<times> db, store_error) result" where
  "finish_management_key s response db =
     (let open = (\<lambda>r. ir_key r = scope_key s \<and> ir_request_digest r = is_request_digest s \<and>
                   ir_response_status r = None) in
      if \<not> (100 \<le> pr_status response \<and> pr_status response \<le> 599)
      then Err (InvalidArgument ''status'' ''must be between 100 and 599'')
      else if rows_affected open (db_idempotency db) \<noteq> 1
      then Err (StateConflict ''management idempotency reservation'')
      else Ok ((), db\<lparr>db_idempotency := rows_update open (finish_row response) (db_idempotency db)\<rparr>))"

section \<open>The key is unique\<close>

definition idempotency_ok :: "db \<Rightarrow> bool" where
  "idempotency_ok db \<longleftrightarrow> distinct (map ir_key (db_idempotency db))"

lemma ir_key_reservation [simp]: "ir_key (reservation_row s now) = scope_key s"
  by (simp add: ir_key_def reservation_row_def scope_key_def)

lemma ir_key_finish [simp]: "ir_key (finish_row response r) = ir_key r"
  by (simp add: ir_key_def finish_row_def)

lemma reserve_fresh:
  assumes "reserve_management_key s now db = Ok (Reserved, db')"
  shows "db' = db\<lparr>db_idempotency := reservation_row s now #
           filter (\<lambda>r. \<not> (ir_key r = scope_key s \<and> ir_expires_at r \<le> now)) (db_idempotency db)\<rparr>"
    and "\<forall>r \<in> set (tl (db_idempotency db')). ir_key r \<noteq> scope_key s"
  using assms
  by (auto simp: reserve_management_key_def Let_def result_simps replay_from_row_def list_all_iff
      split: if_splits)

lemma reserve_other_tables:
  assumes "reserve_management_key s now db = Ok (res, db')"
  shows "db' = db\<lparr>db_idempotency := db_idempotency db'\<rparr>"
  using assms by (auto simp: reserve_management_key_def Let_def result_simps split: if_splits)

lemma finish_other_tables:
  assumes "finish_management_key s response db = Ok (u, db')"
  shows "db' = db\<lparr>db_idempotency := db_idempotency db'\<rparr>"
  using assms by (auto simp: finish_management_key_def Let_def split: if_splits)

lemma reserve_keeps_unique:
  "reserve_management_key s now db = Ok (res, db') \<Longrightarrow> idempotency_ok db \<Longrightarrow> idempotency_ok db'"
proof -
  assume r: "reserve_management_key s now db = Ok (res, db')" and ok: "idempotency_ok db"
  let ?rows = "filter (\<lambda>r. \<not> (ir_key r = scope_key s \<and> ir_expires_at r \<le> now)) (db_idempotency db)"
  have d: "distinct (map ir_key ?rows)"
    using ok unfolding idempotency_ok_def by (rule distinct_map_filter)
  from r have "db_idempotency db' = ?rows \<or>
      db_idempotency db' = reservation_row s now # ?rows \<and> scope_key s \<notin> ir_key ` set ?rows"
    by (auto simp: reserve_management_key_def Let_def result_simps list_all_iff split: if_splits)
  then show "idempotency_ok db'"
  proof
    assume "db_idempotency db' = ?rows"
    with d show ?thesis by (simp only: idempotency_ok_def)
  next
    assume "db_idempotency db' = reservation_row s now # ?rows \<and> scope_key s \<notin> ir_key ` set ?rows"
    with d show ?thesis by (simp only: idempotency_ok_def list.map distinct.simps set_map ir_key_reservation
          simp_thms not_False_eq_True)
  qed
qed

lemma finish_writes:
  assumes "finish_management_key s response db = Ok (u, db')"
  shows "db' = db\<lparr>db_idempotency := rows_update
      (\<lambda>r. ir_key r = scope_key s \<and> ir_request_digest r = is_request_digest s \<and> ir_response_status r = None)
      (finish_row response) (db_idempotency db)\<rparr>"
  using assms by (simp add: finish_management_key_def Let_def split: if_splits)

lemma finish_keeps_unique:
  "finish_management_key s response db = Ok (u, db') \<Longrightarrow> idempotency_ok db \<Longrightarrow> idempotency_ok db'"
  by (auto simp: finish_management_key_def idempotency_ok_def Let_def split: if_splits)

section \<open>Replays\<close>

definition response_storable :: "persisted_response \<Rightarrow> bool" where
  "response_storable response \<longleftrightarrow>
     (\<forall>x. pr_encrypted_secret response = Some x \<longrightarrow> secret_storable x)"

lemma replay_secret_finish:
  "response_storable response \<Longrightarrow>
     rehydrate_replay_secret (finish_row response r) = Ok (pr_encrypted_secret response)"
  by (cases "pr_encrypted_secret response")
    (auto simp: rehydrate_replay_secret_def finish_row_def response_storable_def secret_storable_def)

lemma replay_finished:
  assumes "response_storable response" and "ir_request_digest r = d"
    and "\<forall>t. pr_secret_replay_until response = Some t \<longrightarrow> later \<le> t"
  shows "replay_from_row (finish_row response r) s later =
     (if d = is_request_digest s then Ok (Replayed response) else Err IdempotencyConflict)"
proof -
  have status: "ir_response_status (finish_row response r) = Some (int (pr_status response))"
    and until: "ir_secret_replay_until (finish_row response r) = pr_secret_replay_until response"
    and res: "ir_resource_id (finish_row response r) = map_option hook_uuid (pr_resource_id response)"
    and dig: "ir_request_digest (finish_row response r) = ir_request_digest r"
    by (simp_all add: finish_row_def)
  have "\<not> (case pr_secret_replay_until response of Some t \<Rightarrow> t < later | None \<Rightarrow> False)"
    using assms(3) by (auto split: option.splits)
  then show ?thesis
    using assms(1,2)
    by (simp add: replay_from_row_def status until res dig replay_secret_finish option.map_comp comp_def
        option.map_ident)
qed

text \<open>The row a finished reservation leaves behind, whatever else the transaction wrote.\<close>

lemma finished_row:
  assumes "reserve_management_key s now db = Ok (Reserved, db1)"
    and "db_idempotency db2 = db_idempotency db1"
    and "finish_management_key s response db2 = Ok (u, db3)"
  shows "find (\<lambda>r. ir_key r = scope_key s) (db_idempotency db3) = Some (finish_row response (reservation_row s now))"
    and "\<forall>r \<in> set (db_idempotency db3). ir_key r = scope_key s \<longrightarrow> r = finish_row response (reservation_row s now)"
proof -
  let ?P = "\<lambda>r. ir_key r = scope_key s \<and> ir_request_digest r = is_request_digest s \<and> ir_response_status r = None"
  let ?rest = "filter (\<lambda>r. \<not> (ir_key r = scope_key s \<and> ir_expires_at r \<le> now)) (db_idempotency db)"
  have eq: "db_idempotency db1 = reservation_row s now # ?rest"
    by (subst reserve_fresh(1) [OF assms(1)]) simp
  have "\<forall>r \<in> set ?rest. ir_key r \<noteq> scope_key s"
    using reserve_fresh(2) [OF assms(1)] unfolding eq list.sel .
  with eq obtain rest where rows: "db_idempotency db1 = reservation_row s now # rest"
    and rest: "\<forall>r \<in> set rest. ir_key r \<noteq> scope_key s" by blast
  have "db_idempotency db3 = rows_update ?P (finish_row response) (db_idempotency db1)"
    using finish_writes [OF assms(3)] assms(2) by simp
  also have "\<dots> = finish_row response (reservation_row s now) # rest"
  proof -
    have "rows_update ?P (finish_row response) rest = rest"
      by (rule rows_update_id) (use rest in blast)
    moreover have "?P (reservation_row s now)"
      by (simp, simp add: reservation_row_def)
    ultimately show ?thesis by (simp add: rows rows_update_def)
  qed
  finally show "find (\<lambda>r. ir_key r = scope_key s) (db_idempotency db3) = Some (finish_row response (reservation_row s now))"
    and "\<forall>r \<in> set (db_idempotency db3). ir_key r = scope_key s \<longrightarrow> r = finish_row response (reservation_row s now)"
    using rest by simp_all
qed

lemma replayed_for_a_day:
  assumes "reserve_management_key s now db = Ok (Reserved, db1)"
    and "db_idempotency db2 = db_idempotency db1"
    and "finish_management_key s response db2 = Ok (u, db3)"
    and "response_storable response"
    and "scope_key s' = scope_key s"
  shows "(later < now + duration_days 1 \<and> (\<forall>t. pr_secret_replay_until response = Some t \<longrightarrow> later \<le> t) \<longrightarrow>
        reserve_management_key s' later db3 =
          (if is_request_digest s' = is_request_digest s then Ok (Replayed response, db3) else Err IdempotencyConflict)) \<and>
     (later < now + duration_days 1 \<and> (\<exists>t. pr_secret_replay_until response = Some t \<and> t < later) \<longrightarrow>
        reserve_management_key s' later db3 =
          Err (if is_request_digest s' = is_request_digest s then SecretReplayExpired else IdempotencyConflict)) \<and>
     (now + duration_days 1 \<le> later \<longrightarrow> (\<exists>db4. reserve_management_key s' later db3 = Ok (Reserved, db4)))"
proof -
  let ?row = "finish_row response (reservation_row s now)"
  note row = finished_row [OF assms(1-3)]
  have expires: "ir_expires_at ?row = now + duration_days 1" and digest: "ir_request_digest ?row = is_request_digest s"
    and until: "ir_secret_replay_until ?row = pr_secret_replay_until response"
    by (simp_all add: finish_row_def reservation_row_def)
  have key: "ir_key ?row = scope_key s" by simp
  have live: "filter (\<lambda>r. \<not> (ir_key r = scope_key s' \<and> ir_expires_at r \<le> later)) (db_idempotency db3) = db_idempotency db3"
    if "later < now + duration_days 1"
    using that row(2) expires assms(5) by (intro filter_True) auto
  have mem: "?row \<in> set (db_idempotency db3)" using find_SomeD [OF row(1)] by simp
  have here: "reserve_management_key s' later db3 = map_ok (\<lambda>x. (x, db3)) (replay_from_row ?row s' later)"
    if "later < now + duration_days 1"
    using mem key row(1) unfolding reserve_management_key_def Let_def live [OF that]
    by (auto simp: list_all_iff assms(5))
  have "\<exists>db4. reserve_management_key s' later db3 = Ok (Reserved, db4)" if "now + duration_days 1 \<le> later"
  proof -
    have "list_all (\<lambda>r. ir_key r \<noteq> scope_key s')
        (filter (\<lambda>r. \<not> (ir_key r = scope_key s' \<and> ir_expires_at r \<le> later)) (db_idempotency db3))"
      using that row(2) expires assms(5) by (auto simp: list_all_iff)
    then show ?thesis by (simp add: reserve_management_key_def Let_def)
  qed
  moreover have "replay_from_row ?row s' later =
      Err (if is_request_digest s' = is_request_digest s then SecretReplayExpired else IdempotencyConflict)"
    if "pr_secret_replay_until response = Some t" "t < later" for t
    using that by (simp add: replay_from_row_def digest until)
  moreover have "ir_request_digest (reservation_row s now) = is_request_digest s"
    by (simp add: reservation_row_def)
  ultimately show ?thesis
    using here replay_finished [OF assms(4), of "reservation_row s now" "is_request_digest s" later s'] by auto
qed

text \<open>A management request that is repeated with its key within a day is answered with the stored
  response of the first one and changes nothing; repeated with other content it is refused as a
  conflict; once the interval for replaying a secret is over the secret is not given out again; and
  after a day the key can be used for a new request. This holds whatever the transaction that
  reserved the key wrote to the other tables.
\<close>

theorem requests_are_replayed_for_a_day:
  assumes "reserve_management_key s now db = Ok (Reserved, db1)"
    and "db_idempotency db2 = db_idempotency db1"
    and "finish_management_key s response db2 = Ok (u, db3)"
    and "response_storable response"
    and "scope_key s' = scope_key s"
  shows "(later < now + duration_days 1 \<and> (\<forall>t. pr_secret_replay_until response = Some t \<longrightarrow> later \<le> t) \<longrightarrow>
        reserve_management_key s' later db3 =
          (if is_request_digest s' = is_request_digest s then Ok (Replayed response, db3) else Err IdempotencyConflict)) \<and>
     (later < now + duration_days 1 \<and> (\<exists>t. pr_secret_replay_until response = Some t \<and> t < later) \<longrightarrow>
        reserve_management_key s' later db3 =
          Err (if is_request_digest s' = is_request_digest s then SecretReplayExpired else IdempotencyConflict)) \<and>
     (now + duration_days 1 \<le> later \<longrightarrow> (\<exists>db4. reserve_management_key s' later db3 = Ok (Reserved, db4)))"
  by (rule replayed_for_a_day [OF assms])

definition demo_scope_of :: "ustring \<Rightarrow> bytes \<Rightarrow> idempotency_scope" where
  "demo_scope_of key d =
     \<lparr>is_operation = lit ''hook.restore'', is_actor = actor_ref_account Carbon (AccountUuid (lit ''b97'')),
      is_target_id = lit ''t'', is_key = key, is_request_digest = d\<rparr>"

definition demo_response :: persisted_response where
  "demo_response =
     \<lparr>pr_status = 200, pr_resource_id = Some (HookId 1), pr_encrypted_secret = None, pr_secret_replay_until = None\<rparr>"

theorem requests_are_replayed_for_a_day_witness:
  "\<exists>db1 db3. reserve_management_key (demo_scope_of [107] [1]) 0 empty_db = Ok (Reserved, db1) \<and>
     finish_management_key (demo_scope_of [107] [1]) demo_response db1 = Ok ((), db3) \<and>
     reserve_management_key (demo_scope_of [107] [1]) 5 db3 = Ok (Replayed demo_response, db3)"
proof -
  let ?s = "demo_scope_of [107] [1]"
  obtain db1 where r: "reserve_management_key ?s 0 empty_db = Ok (Reserved, db1)"
    and db1: "db_idempotency db1 = [reservation_row ?s 0]"
    by (simp add: reserve_management_key_def empty_db_def)
  obtain db3 where f: "finish_management_key ?s demo_response db1 = Ok ((), db3)"
    by (simp add: finish_management_key_def Let_def db1 rows_affected_def demo_response_def)
      (simp add: reservation_row_def)
  have "response_storable demo_response" by (simp add: response_storable_def demo_response_def)
  from requests_are_replayed_for_a_day [OF r refl f this refl, of 5] r f
  show ?thesis by (auto simp: demo_response_def duration_days_def)
qed

end
