(* ===== verification/HookStore.thy ===== *)
theory HookStore
  imports Idempotency "HOL-Library.Product_Lexorder"
begin

text \<open>
  Hook persistence (\<open>infrastructure/postgres/hooks.rs\<close>, with its commands and outcomes from
  \<open>types.rs\<close>): creation, routing of a public endpoint, reading, deletion, update, recovery, the
  rotations, and the activation of a batch. Each operation is one transaction over the tables.
\<close>

section \<open>Commands and outcomes\<close>

record audit_context =
  at_actor :: actor_ref
  at_request_id :: "ustring option"

datatype audit_action =
    AuditCreated
  | AuditUpdated
  | AuditDisabled
  | AuditEnabled
  | AuditDeleted
  | AuditRestored
  | AuditSecretRotated
  | AuditEndpointRotated
  | AuditIamConnected
  | AuditAccountsConnected
  | AuditAccessGranted
  | AuditAccessRevoked
  | AuditAllowListAdded
  | AuditAllowListRemoved

fun as_db_str :: "audit_action \<Rightarrow> string" where
  "as_db_str AuditCreated = ''hook.created''"
| "as_db_str AuditUpdated = ''hook.updated''"
| "as_db_str AuditDisabled = ''hook.disabled''"
| "as_db_str AuditEnabled = ''hook.enabled''"
| "as_db_str AuditDeleted = ''hook.deleted''"
| "as_db_str AuditRestored = ''hook.restored''"
| "as_db_str AuditSecretRotated = ''hook.secret_rotated''"
| "as_db_str AuditEndpointRotated = ''hook.endpoint_rotated''"
| "as_db_str AuditIamConnected = ''hook.iam_connected''"
| "as_db_str AuditAccountsConnected = ''hook.accounts_connected''"
| "as_db_str AuditAccessGranted = ''access.granted''"
| "as_db_str AuditAccessRevoked = ''access.revoked''"
| "as_db_str AuditAllowListAdded = ''allow_list.added''"
| "as_db_str AuditAllowListRemoved = ''allow_list.removed''"

record create_hook_command =
  ch_hook :: hook
  ch_is_accounts_default :: bool
  ch_idempotency :: idempotency_scope
  ch_response :: persisted_response
  ch_audit :: audit_context
  ch_recorded_at :: instant

datatype create_hook_outcome = HookCreated hook | CreateReplayed hook persisted_response

record hook_mutation =
  hm_silicon_uuid :: account_uuid
  hm_hook_id :: hook_id
  hm_audit :: audit_context
  hm_occurred_at :: instant

record update_hook_command =
  uh_silicon_uuid :: account_uuid
  uh_hook_id :: hook_id
  uh_update :: hook_update
  uh_audit :: audit_context
  uh_occurred_at :: instant

record batch_hook_activation =
  ba_silicon_uuid :: account_uuid
  ba_hook_ids :: "hook_id list"
  ba_enabled :: bool
  ba_audit :: audit_context
  ba_occurred_at :: instant

record rotate_secret_command =
  rs_silicon_uuid :: account_uuid
  rs_hook_id :: hook_id
  rs_encrypted_secret :: encrypted_secret
  rs_idempotency :: idempotency_scope
  rs_response :: persisted_response
  rs_audit :: audit_context
  rs_occurred_at :: instant

record rotate_endpoint_command =
  re_silicon_uuid :: account_uuid
  re_hook_id :: hook_id
  re_replacement :: endpoint_key
  re_idempotency :: idempotency_scope
  re_response :: persisted_response
  re_audit :: audit_context
  re_occurred_at :: instant

record restore_hook_command =
  rh_silicon_uuid :: account_uuid
  rh_hook_id :: hook_id
  rh_idempotency :: idempotency_scope
  rh_response :: persisted_response
  rh_audit :: audit_context
  rh_occurred_at :: instant

datatype rotation_outcome = Rotated hook | RotationReplayed hook persisted_response

datatype restore_outcome = Restored hook | RestoreReplayed hook persisted_response

datatype endpoint_resolution =
    EndpointActive hook instant
  | EndpointInactive
  | EndpointRetired
  | EndpointAccountDeleted
  | EndpointUnknown

definition max_retained_hooks_per_silicon :: nat where
  "max_retained_hooks_per_silicon = 1000"

definition max_hook_activation_batch_size :: nat where
  "max_hook_activation_batch_size = 1000"

definition secret_replay_window :: int where
  "secret_replay_window = 10 * 60 * 1000000000"

section \<open>Reading\<close>

definition row_owned :: "account_uuid \<Rightarrow> hook_id \<Rightarrow> hook_row \<Rightarrow> bool" where
  "row_owned su i r \<longleftrightarrow> hr_silicon_uuid r = Some (account_uuid_str su) \<and> hr_id r = hook_uuid i"

definition get_hook ::
  "('u, 'k, 'z) deps \<Rightarrow> account_uuid \<Rightarrow> hook_id \<Rightarrow> db \<Rightarrow> (hook option, store_error) result" where
  "get_hook dp su i db =
     transpose_opt (map_option (hook_of_row dp) (find (row_owned su i) (db_hooks db)))"

definition select_scoped_hook_for_update ::
  "('u, 'k, 'z) deps \<Rightarrow> account_uuid \<Rightarrow> hook_id \<Rightarrow> db \<Rightarrow> (hook option, store_error) result" where
  "select_scoped_hook_for_update dp su i db =
     transpose_opt (map_option (hook_of_row dp) (find (row_owned su i) (db_hooks db)))"

definition select_replayed_scoped_hook ::
  "('u, 'k, 'z) deps \<Rightarrow> account_uuid \<Rightarrow> persisted_response \<Rightarrow> db \<Rightarrow> (hook, store_error) result" where
  "select_replayed_scoped_hook dp su response db =
     and_then (ok_or (CorruptData ''management idempotency'' (CauseText ''missing hook resource ID''))
        (pr_resource_id response)) (\<lambda>i.
     and_then (select_scoped_hook_for_update dp su i db) (\<lambda>found.
       ok_or (CorruptData ''management idempotency''
           (CauseText ''replayed hook no longer exists in its owner scope'')) found))"

definition find_accounts_hook ::
  "('u, 'k, 'z) deps \<Rightarrow> account_uuid \<Rightarrow> db \<Rightarrow> (hook option, store_error) result" where
  "find_accounts_hook dp su db =
     transpose_opt (map_option (hook_of_row dp)
       (find (\<lambda>r. hr_silicon_uuid r = Some (account_uuid_str su) \<and> hr_is_accounts_default r) (db_hooks db)))"

definition recovery_cutoff :: "time_crate \<Rightarrow> instant \<Rightarrow> (instant, store_error) result" where
  "recovery_cutoff tc retained_at =
     ok_or (NumericRange ''retained_at'') (tc_checked_sub tc retained_at (duration_days hook_recovery_days))"

definition list_hooks ::
  "('u, 'k, 'z) deps \<Rightarrow> account_uuid \<Rightarrow> bool \<Rightarrow> instant \<Rightarrow> db \<Rightarrow> (hook list, store_error) result" where
  "list_hooks dp su include_deleted retained_at db =
     and_then (recovery_cutoff (dp_time dp) retained_at) (\<lambda>cutoff.
       (let rows = take (max_retained_hooks_per_silicon + 1)
              (rev (sort_key (\<lambda>r. (hr_created_at r, hr_id r))
                (filter (\<lambda>r. hr_silicon_uuid r = Some (account_uuid_str su) \<and>
                    (case hr_deleted_at r of None \<Rightarrow> True | Some d \<Rightarrow> include_deleted \<and> cutoff \<le> d))
                  (db_hooks db)))) in
        if max_retained_hooks_per_silicon < length rows
        then Err (CorruptData ''hook collection'' (CauseText ''retained hook count exceeds the enforced limit''))
        else collect_map (hook_of_row dp) rows))"

definition get_hooks_by_ids ::
  "('u, 'k, 'z) deps \<Rightarrow> account_uuid \<Rightarrow> hook_id list \<Rightarrow> db \<Rightarrow> (hook list, store_error) result" where
  "get_hooks_by_ids dp su ids db =
     (if ids = [] then Ok []
      else
        collect_map (hook_of_row dp)
          (sort_key hr_id
            (filter (\<lambda>r. hr_silicon_uuid r = Some (account_uuid_str su) \<and> hr_id r \<in> set (map hook_uuid ids))
              (db_hooks db))))"

section \<open>Routing a public endpoint\<close>

text \<open>
  Conditions in a select list keep the three truth values of SQL: a comparison with \<open>NULL\<close> is
  neither true nor false, and the driver cannot read that into a \<open>bool\<close>.
\<close>

fun sql_or :: "bool option \<Rightarrow> bool option \<Rightarrow> bool option" where
  "sql_or (Some True) _ = Some True"
| "sql_or _ (Some True) = Some True"
| "sql_or (Some False) (Some False) = Some False"
| "sql_or _ _ = None"

definition seen_id :: "ustring option \<Rightarrow> ustring \<Rightarrow> db \<Rightarrow> bool" where
  "seen_id owner segment db \<longleftrightarrow>
     list_ex (\<lambda>seen. Some (ai_account_uuid seen) = owner \<and> ai_public_id seen = segment) (db_account_ids db)"

definition path_matches :: "ustring \<Rightarrow> hook_row \<Rightarrow> db \<Rightarrow> bool option" where
  "path_matches segment r db =
     sql_or
       (sql_or (Some (hr_silicon_id r = segment)) (map_option (\<lambda>u. u = segment) (hr_silicon_uuid r)))
       (Some (seen_id (hr_silicon_uuid r) segment db))"

definition owner_deleted :: "hook_row \<Rightarrow> db \<Rightarrow> bool" where
  "owner_deleted r db \<longleftrightarrow>
     list_ex (\<lambda>owner. Some (ac_uuid owner) = hr_silicon_uuid r \<and> ac_deleted_at owner \<noteq> None) (db_accounts db)"

definition retired_matches :: "ustring \<Rightarrow> endpoint_key \<Rightarrow> db \<Rightarrow> bool" where
  "retired_matches segment key db \<longleftrightarrow>
     list_ex (\<lambda>r. rt_endpoint_key r = endpoint_key_str key \<and>
         (rt_silicon_id r = segment \<or> rt_silicon_uuid r = Some segment \<or> seen_id (rt_silicon_uuid r) segment db))
       (db_retired db)"

definition resolve_endpoint ::
  "('u, 'k, 'z) deps \<Rightarrow> ustring \<Rightarrow> endpoint_key \<Rightarrow> instant \<Rightarrow> db \<Rightarrow> (endpoint_resolution, store_error) result" where
  "resolve_endpoint dp segment key clock db =
     (case find (\<lambda>r. hr_endpoint_key r = endpoint_key_str key) (db_hooks db) of
        Some row \<Rightarrow>
          (case path_matches segment row db of
             None \<Rightarrow> Err (Database SqlxOther)
           | Some matches \<Rightarrow>
               if \<not> matches then Ok EndpointUnknown
               else if owner_deleted row db then Ok EndpointAccountDeleted
               else
                 map_ok (\<lambda>h. if is_enabled h then EndpointActive h clock else EndpointInactive)
                   (hook_of_row dp row))
      | None \<Rightarrow> Ok (if retired_matches segment key db then EndpointRetired else EndpointUnknown))"

section \<open>Statements on the hook table\<close>

text \<open>
  The check constraints of the table on its instants; those on its other columns restate what the
  domain types validate.
\<close>

definition hook_check :: "hook_row \<Rightarrow> string option" where
  "hook_check r =
     (if hr_updated_at r < hr_created_at r then Some ''hooks_updated_at_valid''
      else if (case hr_disabled_at r of Some t \<Rightarrow> t < hr_created_at r | None \<Rightarrow> False)
        then Some ''hooks_disabled_at_valid''
      else if (case hr_deleted_at r of Some t \<Rightarrow> t < hr_created_at r | None \<Rightarrow> False)
        then Some ''hooks_deleted_at_valid''
      else if hr_disabled_at r \<noteq> None \<and> hr_deleted_at r \<noteq> None
        then Some ''hooks_lifecycle_timestamps_mutually_exclusive''
      else if (case hr_endpoint_rotated_at r of Some t \<Rightarrow> t < hr_created_at r | None \<Rightarrow> False)
        then Some ''hooks_activity_timestamps_valid''
      else None)"

definition update_hooks ::
  "(hook_row \<Rightarrow> bool) \<Rightarrow> (hook_row \<Rightarrow> hook_row) \<Rightarrow> db \<Rightarrow> (nat \<times> db, store_error) result" where
  "update_hooks P f db =
     (let rows = rows_update P f (db_hooks db) in
      case find (\<lambda>c. c \<noteq> None) (map (\<lambda>r. hook_check (f r)) (filter P (db_hooks db))) of
        Some violated \<Rightarrow> Err (check_violation (the violated))
      | None \<Rightarrow>
          if \<not> distinct (map hr_endpoint_key rows) then Err (unique_violation ''hooks_endpoint_key_global'')
          else Ok (rows_affected P (db_hooks db), db\<lparr>db_hooks := rows\<rparr>))"

definition ensure_one_row :: "nat \<Rightarrow> string \<Rightarrow> (unit, store_error) result" where
  "ensure_one_row affected entity = (if affected = 1 then Ok () else Err (StateConflict entity))"

definition audit_row_of :: "uuid \<Rightarrow> audit_action \<Rightarrow> hook \<Rightarrow> audit_context \<Rightarrow> instant \<Rightarrow> audit_row" where
  "audit_row_of i action h context occurred_at =
     \<lparr>au_id = i, au_occurred_at = occurred_at, au_action = lit (as_db_str action),
      au_silicon_id = silicon_id_str (hk_silicon_id h),
      au_silicon_uuid = map_option account_uuid_str (hk_silicon_uuid h),
      au_hook_id = Some (hook_uuid (hk_id h)),
      au_actor_kind = lit (actor_kind_as_str (ar_kind (at_actor context))),
      au_actor_id = actor_id_str (ar_id (at_actor context)),
      au_actor_uuid = map_option account_uuid_str (ar_uuid (at_actor context)),
      au_request_id = at_request_id context\<rparr>"

definition insert_audit ::
  "uuid \<Rightarrow> audit_action \<Rightarrow> hook \<Rightarrow> audit_context \<Rightarrow> instant \<Rightarrow> db \<Rightarrow> (unit \<times> db, store_error) result" where
  "insert_audit i action h context occurred_at db =
     (if i \<in> set (map au_id (db_audit db)) then Err (unique_violation ''audit_log_pkey'')
      else Ok ((), db\<lparr>db_audit := audit_row_of i action h context occurred_at # db_audit db\<rparr>))"

definition insert_row :: "hook \<Rightarrow> bool \<Rightarrow> json \<Rightarrow> hook_row" where
  "insert_row h is_accounts_default config =
     (let secret = encrypted_signing_secret h in
      \<lparr>hr_id = hook_uuid (hk_id h), hr_silicon_id = silicon_id_str (hk_silicon_id h),
       hr_silicon_uuid = map_option account_uuid_str (hk_silicon_uuid h),
       hr_endpoint_key = endpoint_key_str (hk_endpoint_key h), hr_name = hook_name_str (hk_name h),
       hr_description = map_option hook_description_str (hk_description h),
       hr_signature_required = sp_required (hk_signing h), hr_signature_config = config,
       hr_encryption_key_id = map_option (\<lambda>x. encryption_key_id_str (es_key_id x)) secret,
       hr_secret_nonce = map_option es_nonce secret,
       hr_encrypted_signing_secret = map_option es_ciphertext secret,
       hr_time_zone = time_zone_str (hk_time_zone h),
       hr_created_by_kind = lit (actor_kind_as_str (ar_kind (hk_created_by h))),
       hr_created_by_id = actor_id_str (ar_id (hk_created_by h)),
       hr_created_by_uuid = map_option account_uuid_str (ar_uuid (hk_created_by h)),
       hr_created_at = hk_created_at h, hr_disabled_at = None, hr_deleted_at = None,
       hr_last_received_at = None, hr_last_blocked_at = None, hr_endpoint_rotated_at = None,
       hr_is_accounts_default = is_accounts_default, hr_secret_generation = 1,
       hr_updated_at = hk_created_at h\<rparr>)"

definition insert_hook ::
  "('u, 'k, 'z) deps \<Rightarrow> hook \<Rightarrow> bool \<Rightarrow> db \<Rightarrow> (unit \<times> db, store_error) result" where
  "insert_hook dp h is_accounts_default db =
     and_then (ok_or (Database SqlxEncode) (dp_config_value dp (sp_config (hk_signing h)))) (\<lambda>config.
       (let row = insert_row h is_accounts_default config in
        if hr_id row \<in> set (map hr_id (db_hooks db)) then Err (unique_violation ''hooks_pkey'')
        else if hr_endpoint_key row \<in> set (map hr_endpoint_key (db_hooks db))
          then Err (unique_violation ''hooks_endpoint_key_global'')
        else if is_accounts_default \<and> hr_silicon_uuid row \<noteq> None \<and>
            list_ex (\<lambda>r. hr_is_accounts_default r \<and> hr_silicon_uuid r = hr_silicon_uuid row) (db_hooks db)
          then Err (unique_violation ''hooks_one_accounts_default_per_silicon'')
        else Ok ((), db\<lparr>db_hooks := row # db_hooks db\<rparr>)))"

definition classify_hook_insert_error :: "store_error \<Rightarrow> store_error" where
  "classify_hook_insert_error e =
     (case e of
        Database (SqlxDatabase code (Some constraint)) \<Rightarrow>
          if constraint = ''test_environment_hook_limit'' then HookLimitReached
          else if constraint \<in> {''hooks_endpoint_key_unique'', ''hooks_endpoint_key_global'',
                  ''retired_endpoint_keys_global'', ''retired_endpoint_keys_pk''}
            then EndpointKeyConflict
          else if constraint = ''hooks_one_accounts_default_per_silicon'' then DefaultHookExists
          else e
      | _ \<Rightarrow> e)"

definition ensure_endpoint_key_unused :: "endpoint_key \<Rightarrow> db \<Rightarrow> (unit, store_error) result" where
  "ensure_endpoint_key_unused key db =
     (if endpoint_key_str key \<in> set (map rt_endpoint_key (db_retired db)) \<or>
         endpoint_key_str key \<in> set (map hr_endpoint_key (db_hooks db))
      then Err EndpointKeyConflict else Ok ())"

definition retained_row :: "account_uuid \<Rightarrow> instant \<Rightarrow> hook_row \<Rightarrow> bool" where
  "retained_row su cutoff r \<longleftrightarrow>
     hr_silicon_uuid r = Some (account_uuid_str su) \<and>
     (case hr_deleted_at r of None \<Rightarrow> True | Some d \<Rightarrow> cutoff \<le> d)"

definition reserve_retained_hook_slot ::
  "time_crate \<Rightarrow> account_uuid \<Rightarrow> instant \<Rightarrow> db \<Rightarrow> (unit, store_error) result" where
  "reserve_retained_hook_slot tc su retained_at db =
     and_then (recovery_cutoff tc retained_at) (\<lambda>cutoff.
       if max_retained_hooks_per_silicon \<le> rows_affected (retained_row su cutoff) (db_hooks db)
       then Err HookLimitReached else Ok ())"

section \<open>Validation of commands\<close>

definition has_normative_secret_deadline :: "time_crate \<Rightarrow> persisted_response \<Rightarrow> instant \<Rightarrow> bool" where
  "has_normative_secret_deadline tc response operation_time \<longleftrightarrow>
     (case tc_checked_add tc operation_time secret_replay_window of
        None \<Rightarrow> False
      | Some deadline \<Rightarrow> pr_secret_replay_until response = Some deadline)"

definition validate_create_command :: "time_crate \<Rightarrow> create_hook_command \<Rightarrow> (unit, store_error) result" where
  "validate_create_command tc c =
     (if hk_status (ch_hook c) \<noteq> Active
      then Err (InvalidArgument ''hook.status'' ''new hooks must be active'')
      else if is_actor (ch_idempotency c) \<noteq> at_actor (ch_audit c) \<or>
              at_actor (ch_audit c) \<noteq> hk_created_by (ch_hook c)
        then Err (InvalidArgument ''audit.actor'' ''must match the creator and idempotency actor'')
      else if pr_resource_id (ch_response c) \<noteq> Some (hk_id (ch_hook c))
        then Err (InvalidArgument ''response.resource_id'' ''must identify the created hook'')
      else if pr_encrypted_secret (ch_response c) \<noteq> encrypted_signing_secret (ch_hook c)
        then Err (InvalidArgument ''response.encrypted_secret'' ''must match the created hook secret'')
      else if (pr_encrypted_secret (ch_response c) \<noteq> None) \<noteq>
              has_normative_secret_deadline tc (ch_response c) (ch_recorded_at c)
        then Err (InvalidArgument ''response.secret_replay_until''
                    ''must accompany exactly a secret-bearing response'')
      else Ok ())"

definition validate_mutation_scope ::
  "hook_id \<Rightarrow> idempotency_scope \<Rightarrow> persisted_response \<Rightarrow> audit_context \<Rightarrow> (unit, store_error) result" where
  "validate_mutation_scope i s response audit =
     (if is_actor s \<noteq> at_actor audit
      then Err (InvalidArgument ''audit.actor'' ''must match the idempotency actor'')
      else if pr_resource_id response \<noteq> Some i
        then Err (InvalidArgument ''response.resource_id'' ''must identify the mutated hook'')
      else Ok ())"

definition ensure_non_secret_response :: "persisted_response \<Rightarrow> string \<Rightarrow> (unit, store_error) result" where
  "ensure_non_secret_response response operation =
     (if pr_encrypted_secret response \<noteq> None \<or> pr_secret_replay_until response \<noteq> None
      then Err (InvalidArgument ''response.encrypted_secret''
             (if operation = ''restore'' then ''restore responses must not contain secret material''
              else ''endpoint rotation responses must not contain secret material''))
      else Ok ())"

definition validate_restore_command :: "restore_hook_command \<Rightarrow> (unit, store_error) result" where
  "validate_restore_command c =
     and_then (validate_mutation_scope (rh_hook_id c) (rh_idempotency c) (rh_response c) (rh_audit c))
       (\<lambda>_. ensure_non_secret_response (rh_response c) ''restore'')"

definition validate_endpoint_rotation_command :: "rotate_endpoint_command \<Rightarrow> (unit, store_error) result" where
  "validate_endpoint_rotation_command c =
     and_then (validate_mutation_scope (re_hook_id c) (re_idempotency c) (re_response c) (re_audit c))
       (\<lambda>_. ensure_non_secret_response (re_response c) ''endpoint rotation'')"

definition validate_rotate_command :: "time_crate \<Rightarrow> rotate_secret_command \<Rightarrow> (unit, store_error) result" where
  "validate_rotate_command tc c =
     and_then (validate_mutation_scope (rs_hook_id c) (rs_idempotency c) (rs_response c) (rs_audit c)) (\<lambda>_.
       if pr_encrypted_secret (rs_response c) \<noteq> Some (rs_encrypted_secret c) \<or>
          \<not> has_normative_secret_deadline tc (rs_response c) (rs_occurred_at c)
       then Err (InvalidArgument ''response.encrypted_secret''
              ''must contain the rotated secret and a replay deadline'')
       else Ok ())"

section \<open>Transactions\<close>

definition create_hook ::
  "('u, 'k, 'z) deps \<Rightarrow> uuid \<Rightarrow> create_hook_command \<Rightarrow> db \<Rightarrow> (create_hook_outcome \<times> db, store_error) result" where
  "create_hook dp audit_id c db =
     and_then (validate_create_command (dp_time dp) c) (\<lambda>_.
     and_then (ok_or (InvalidArgument ''hook.silicon_uuid'' ''new hooks belong to a Silicon Accounts account'')
        (hk_silicon_uuid (ch_hook c))) (\<lambda>su.
     and_then (reserve_management_key (ch_idempotency c) (ch_recorded_at c) db) (\<lambda>(reservation, db).
       case reservation of
         Replayed response \<Rightarrow>
           and_then (select_replayed_scoped_hook dp su response db) (\<lambda>h.
             if hk_status h = Deleted then Err (StateConflict ''hook'')
             else if pr_encrypted_secret response \<noteq> encrypted_signing_secret h then Err SecretSuperseded
             else Ok (CreateReplayed h response, db))
       | Reserved \<Rightarrow>
           and_then (reserve_retained_hook_slot (dp_time dp) su (ch_recorded_at c) db) (\<lambda>_.
           and_then (ensure_endpoint_key_unused (hk_endpoint_key (ch_hook c)) db) (\<lambda>_.
           and_then (map_err classify_hook_insert_error
              (insert_hook dp (ch_hook c) (ch_is_accounts_default c) db)) (\<lambda>(_, db).
           and_then (insert_audit audit_id
              (if ch_is_accounts_default c then AuditAccountsConnected else AuditCreated)
              (ch_hook c) (ch_audit c) (ch_recorded_at c) db) (\<lambda>(_, db).
           and_then (finish_management_key (ch_idempotency c) (ch_response c) db) (\<lambda>(_, db).
             Ok (HookCreated (ch_hook c), db)))))))))"

definition delete_hook ::
  "('u, 'k, 'z) deps \<Rightarrow> uuid \<Rightarrow> hook_mutation \<Rightarrow> db \<Rightarrow> (hook \<times> db, store_error) result" where
  "delete_hook dp audit_id c db =
     and_then (select_scoped_hook_for_update dp (hm_silicon_uuid c) (hm_hook_id c) db) (\<lambda>found.
     and_then (ok_or (NotFound ''hook'') found) (\<lambda>h.
     and_then (map_err (\<lambda>_. StateConflict ''hook'') (hook_delete (hm_occurred_at c) h)) (\<lambda>h.
     and_then
       (update_hooks (\<lambda>r. hr_id r = hook_uuid (hm_hook_id c) \<and> hr_deleted_at r = None)
         (\<lambda>r. r\<lparr>hr_disabled_at := None, hr_deleted_at := Some (hm_occurred_at c),
                hr_updated_at := hm_occurred_at c\<rparr>) db) (\<lambda>(updated, db).
     and_then (ensure_one_row updated ''hook'') (\<lambda>_.
     and_then (insert_audit audit_id AuditDeleted h (hm_audit c) (hm_occurred_at c) db) (\<lambda>(_, db).
       Ok (h, db)))))))"

definition replaces_secret :: "hook_update \<Rightarrow> hook \<Rightarrow> bool" where
  "replaces_secret u h \<longleftrightarrow>
     (case hu_signing u of
        None \<Rightarrow> False
      | Some signing \<Rightarrow> sp_encrypted_secret signing \<noteq> sp_encrypted_secret (hk_signing h))"

definition update_columns :: "hook \<Rightarrow> json \<Rightarrow> bool \<Rightarrow> instant \<Rightarrow> hook_row \<Rightarrow> hook_row" where
  "update_columns h config replaces occurred_at r =
     (set_secret_columns (encrypted_signing_secret h) r)
       \<lparr>hr_name := hook_name_str (hk_name h),
        hr_description := map_option hook_description_str (hk_description h),
        hr_time_zone := time_zone_str (hk_time_zone h),
        hr_signature_required := sp_required (hk_signing h),
        hr_signature_config := config,
        hr_secret_generation := hr_secret_generation r + (if replaces then 1 else 0),
        hr_updated_at := occurred_at\<rparr>"

definition update_hook ::
  "('u, 'k, 'z) deps \<Rightarrow> uuid \<Rightarrow> update_hook_command \<Rightarrow> db \<Rightarrow> (hook \<times> db, store_error) result" where
  "update_hook dp audit_id c db =
     and_then (select_scoped_hook_for_update dp (uh_silicon_uuid c) (uh_hook_id c) db) (\<lambda>found.
     and_then (ok_or (NotFound ''hook'') found) (\<lambda>before.
     and_then (map_err (\<lambda>_. StateConflict ''hook'') (hook_apply_update (uh_update c) before)) (\<lambda>h.
     and_then (ok_or (CorruptData ''hook'' CauseJson) (dp_config_value dp (sp_config (hk_signing h)))) (\<lambda>config.
     and_then
       (update_hooks (\<lambda>r. hr_id r = hook_uuid (uh_hook_id c) \<and> hr_deleted_at r = None)
         (update_columns h config (replaces_secret (uh_update c) before) (uh_occurred_at c)) db)
       (\<lambda>(updated, db).
     and_then (ensure_one_row updated ''hook'') (\<lambda>_.
     and_then (insert_audit audit_id AuditUpdated h (uh_audit c) (uh_occurred_at c) db) (\<lambda>(_, db).
       Ok (h, db))))))))"

definition restore_hook ::
  "('u, 'k, 'z) deps \<Rightarrow> uuid \<Rightarrow> restore_hook_command \<Rightarrow> db \<Rightarrow> (restore_outcome \<times> db, store_error) result" where
  "restore_hook dp audit_id c db =
     and_then (validate_restore_command c) (\<lambda>_.
     and_then (reserve_management_key (rh_idempotency c) (rh_occurred_at c) db) (\<lambda>(reservation, db).
       case reservation of
         Replayed response \<Rightarrow>
           and_then (select_replayed_scoped_hook dp (rh_silicon_uuid c) response db) (\<lambda>h.
             if hk_status h = Deleted then Err (StateConflict ''hook'')
             else Ok (RestoreReplayed h response, db))
       | Reserved \<Rightarrow>
           and_then (select_scoped_hook_for_update dp (rh_silicon_uuid c) (rh_hook_id c) db) (\<lambda>found.
           and_then (ok_or (NotFound ''hook'') found) (\<lambda>h.
           and_then (map_err (\<lambda>_. StateConflict ''hook'')
              (hook_restore (dp_time dp) (rh_occurred_at c) h)) (\<lambda>h.
           and_then
             (update_hooks (\<lambda>r. hr_id r = hook_uuid (rh_hook_id c) \<and> hr_deleted_at r \<noteq> None)
               (\<lambda>r. r\<lparr>hr_deleted_at := None, hr_updated_at := rh_occurred_at c\<rparr>) db) (\<lambda>(updated, db).
           and_then (ensure_one_row updated ''hook'') (\<lambda>_.
           and_then (insert_audit audit_id AuditRestored h (rh_audit c) (rh_occurred_at c) db) (\<lambda>(_, db).
           and_then (finish_management_key (rh_idempotency c) (rh_response c) db) (\<lambda>(_, db).
             Ok (Restored h, db))))))))))"

definition rotate_secret_columns :: "encrypted_secret \<Rightarrow> instant \<Rightarrow> hook_row \<Rightarrow> hook_row" where
  "rotate_secret_columns secret occurred_at r =
     (set_secret_columns (Some secret) r)
       \<lparr>hr_secret_generation := hr_secret_generation r + 1, hr_updated_at := occurred_at\<rparr>"

definition rotate_hook_secret ::
  "('u, 'k, 'z) deps \<Rightarrow> uuid \<Rightarrow> rotate_secret_command \<Rightarrow> db \<Rightarrow> (rotation_outcome \<times> db, store_error) result" where
  "rotate_hook_secret dp audit_id c db =
     and_then (validate_rotate_command (dp_time dp) c) (\<lambda>_.
     and_then (reserve_management_key (rs_idempotency c) (rs_occurred_at c) db) (\<lambda>(reservation, db).
       case reservation of
         Replayed response \<Rightarrow>
           and_then (select_replayed_scoped_hook dp (rs_silicon_uuid c) response db) (\<lambda>h.
             if hk_status h = Deleted then Err (StateConflict ''hook'')
             else if pr_encrypted_secret response \<noteq> encrypted_signing_secret h then Err SecretSuperseded
             else Ok (RotationReplayed h response, db))
       | Reserved \<Rightarrow>
           and_then (select_scoped_hook_for_update dp (rs_silicon_uuid c) (rs_hook_id c) db) (\<lambda>found.
           and_then (ok_or (NotFound ''hook'') found) (\<lambda>h.
           and_then (map_err (\<lambda>_. StateConflict ''hook'')
              (hook_rotate_secret (rs_encrypted_secret c) h)) (\<lambda>h.
           and_then
             (update_hooks (\<lambda>r. hr_id r = hook_uuid (rs_hook_id c) \<and> hr_deleted_at r = None)
               (rotate_secret_columns (rs_encrypted_secret c) (rs_occurred_at c)) db) (\<lambda>(updated, db).
           and_then (ensure_one_row updated ''hook'') (\<lambda>_.
           and_then (insert_audit audit_id AuditSecretRotated h (rs_audit c) (rs_occurred_at c) db) (\<lambda>(_, db).
           and_then (finish_management_key (rs_idempotency c) (rs_response c) db) (\<lambda>(_, db).
             Ok (Rotated h, db))))))))))"

text \<open>The retired key is reserved for good, in a table that outlives the hook.\<close>

definition insert_retired ::
  "hook \<Rightarrow> endpoint_key \<Rightarrow> hook_id \<Rightarrow> instant \<Rightarrow> db \<Rightarrow> (unit \<times> db, store_error) result" where
  "insert_retired h retired i occurred_at db =
     (if endpoint_key_str retired \<in> set (map rt_endpoint_key (db_retired db))
      then Err (unique_violation ''retired_endpoint_keys_global'')
      else Ok ((), db\<lparr>db_retired :=
             \<lparr>rt_silicon_id = silicon_id_str (hk_silicon_id h),
              rt_silicon_uuid = map_option account_uuid_str (hk_silicon_uuid h),
              rt_endpoint_key = endpoint_key_str retired, rt_hook_id = hook_uuid i,
              rt_retired_at = occurred_at\<rparr> # db_retired db\<rparr>))"

definition rotation_error :: "transition_error \<Rightarrow> store_error" where
  "rotation_error e =
     (case e of
        HookAlreadyDeleted \<Rightarrow> StateConflict ''hook''
      | _ \<Rightarrow> InvalidArgument ''occurred_at'' ''must not precede hook creation'')"

definition rotate_hook_endpoint ::
  "('u, 'k, 'z) deps \<Rightarrow> uuid \<Rightarrow> rotate_endpoint_command \<Rightarrow> db \<Rightarrow> (rotation_outcome \<times> db, store_error) result" where
  "rotate_hook_endpoint dp audit_id c db =
     and_then (validate_endpoint_rotation_command c) (\<lambda>_.
     and_then (reserve_management_key (re_idempotency c) (re_occurred_at c) db) (\<lambda>(reservation, db).
       case reservation of
         Replayed response \<Rightarrow>
           and_then (select_replayed_scoped_hook dp (re_silicon_uuid c) response db) (\<lambda>h.
             if hk_status h = Deleted then Err (StateConflict ''hook'')
             else Ok (RotationReplayed h response, db))
       | Reserved \<Rightarrow>
           and_then (select_scoped_hook_for_update dp (re_silicon_uuid c) (re_hook_id c) db) (\<lambda>found.
           and_then (ok_or (NotFound ''hook'') found) (\<lambda>h.
           and_then (ensure_endpoint_key_unused (re_replacement c) db) (\<lambda>_.
           and_then (map_err rotation_error
              (hook_rotate_endpoint (re_replacement c) (re_occurred_at c) h)) (\<lambda>(h, retired).
           and_then
             (map_err classify_hook_insert_error
               (update_hooks (\<lambda>r. hr_id r = hook_uuid (re_hook_id c) \<and> hr_deleted_at r = None)
                 (\<lambda>r. r\<lparr>hr_endpoint_key := endpoint_key_str (hk_endpoint_key h),
                        hr_endpoint_rotated_at := Some (re_occurred_at c),
                        hr_updated_at := re_occurred_at c\<rparr>) db)) (\<lambda>(updated, db).
           and_then (ensure_one_row updated ''hook'') (\<lambda>_.
           and_then (insert_retired h retired (re_hook_id c) (re_occurred_at c) db) (\<lambda>(_, db).
           and_then (insert_audit audit_id AuditEndpointRotated h (re_audit c) (re_occurred_at c) db) (\<lambda>(_, db).
           and_then (finish_management_key (re_idempotency c) (re_response c) db) (\<lambda>(_, db).
             Ok (Rotated h, db))))))))))))"

section \<open>Activation of a batch\<close>

definition has_duplicates :: "uuid list \<Rightarrow> bool" where
  "has_duplicates ids \<longleftrightarrow> list_ex (\<lambda>(a, b). a = b) (zip ids (tl ids))"

definition activation_hook_ids :: "batch_hook_activation \<Rightarrow> (uuid list, store_error) result" where
  "activation_hook_ids c =
     (let ids = map hook_uuid (ba_hook_ids c) in
      if ids = [] \<or> max_hook_activation_batch_size < length ids
      then Err (InvalidArgument ''hook_ids'' ''must contain between one and 1000 hooks'')
      else
        (let ids = sort ids in
         if has_duplicates ids then Err (InvalidArgument ''hook_ids'' ''must not contain duplicates'')
         else Ok ids))"

definition lock_hooks_for_activation ::
  "('u, 'k, 'z) deps \<Rightarrow> batch_hook_activation \<Rightarrow> uuid list \<Rightarrow> db \<Rightarrow> (hook list, store_error) result" where
  "lock_hooks_for_activation dp c ids db =
     (let rows = sort_key hr_id
            (filter (\<lambda>r. hr_silicon_uuid r = Some (account_uuid_str (ba_silicon_uuid c)) \<and> hr_id r \<in> set ids)
              (db_hooks db)) in
      if length rows \<noteq> length ids then Err (NotFound ''hook'') else collect_map (hook_of_row dp) rows)"

definition activation_error :: "transition_error \<Rightarrow> store_error" where
  "activation_error e =
     (case e of
        TimestampOutOfOrder _ _ \<Rightarrow>
          InvalidArgument ''occurred_at'' ''must not precede the prior lifecycle transition''
      | _ \<Rightarrow> StateConflict ''hook'')"

definition hook_activate :: "bool \<Rightarrow> instant \<Rightarrow> hook \<Rightarrow> (hook, transition_error) result" where
  "hook_activate enabled at h = (if enabled then hook_enable at h else hook_disable at h)"

fun apply_activation_transitions ::
  "batch_hook_activation \<Rightarrow> hook list \<Rightarrow> (hook list \<times> uuid list, store_error) result" where
  "apply_activation_transitions c [] = Ok ([], [])"
| "apply_activation_transitions c (h # hs) =
     and_then (map_err activation_error (hook_activate (ba_enabled c) (ba_occurred_at c) h)) (\<lambda>g.
       map_ok (\<lambda>(gs, changed).
           (g # gs, if is_enabled h \<noteq> ba_enabled c then hook_uuid (hk_id h) # changed else changed))
         (apply_activation_transitions c hs))"

definition activation_row :: "batch_hook_activation \<Rightarrow> uuid list \<Rightarrow> hook_row \<Rightarrow> bool" where
  "activation_row c ids r \<longleftrightarrow>
     hr_silicon_uuid r = Some (account_uuid_str (ba_silicon_uuid c)) \<and> hr_id r \<in> set ids \<and>
     hr_deleted_at r = None \<and>
     ((ba_enabled c \<and> hr_disabled_at r \<noteq> None) \<or> (\<not> ba_enabled c \<and> hr_disabled_at r = None))"

definition update_hook_activation ::
  "batch_hook_activation \<Rightarrow> uuid list \<Rightarrow> db \<Rightarrow> (uuid list \<times> db, store_error) result" where
  "update_hook_activation c ids db =
     and_then
       (update_hooks (activation_row c ids)
         (\<lambda>r. r\<lparr>hr_disabled_at := (if ba_enabled c then None else Some (ba_occurred_at c)),
                hr_updated_at := ba_occurred_at c\<rparr>) db) (\<lambda>(_, db').
       Ok (sort (map hr_id (filter (activation_row c ids) (db_hooks db))), db'))"

text \<open>One audit row per changed hook, joined with the hooks of the owner.\<close>

definition activation_audits ::
  "(nat \<Rightarrow> uuid) \<Rightarrow> batch_hook_activation \<Rightarrow> uuid list \<Rightarrow> db \<Rightarrow> audit_row list" where
  "activation_audits audit_id c changed db =
     concat (map (\<lambda>(i, hook_id).
       map (\<lambda>r.
           \<lparr>au_id = audit_id i, au_occurred_at = ba_occurred_at c,
            au_action = lit (as_db_str (if ba_enabled c then AuditEnabled else AuditDisabled)),
            au_silicon_id = hr_silicon_id r, au_silicon_uuid = hr_silicon_uuid r, au_hook_id = Some (hr_id r),
            au_actor_kind = lit (actor_kind_as_str (ar_kind (at_actor (ba_audit c)))),
            au_actor_id = actor_id_str (ar_id (at_actor (ba_audit c))),
            au_actor_uuid = map_option account_uuid_str (ar_uuid (at_actor (ba_audit c))),
            au_request_id = at_request_id (ba_audit c)\<rparr>)
         (filter (\<lambda>r. hr_id r = hook_id \<and>
             hr_silicon_uuid r = Some (account_uuid_str (ba_silicon_uuid c))) (db_hooks db)))
       (enumerate 0 changed))"

definition insert_activation_audits ::
  "(nat \<Rightarrow> uuid) \<Rightarrow> batch_hook_activation \<Rightarrow> uuid list \<Rightarrow> db \<Rightarrow> (unit \<times> db, store_error) result" where
  "insert_activation_audits audit_id c changed db =
     (if changed = [] then Ok ((), db)
      else
        (let rows = activation_audits audit_id c changed db in
         if \<not> distinct (map au_id (rows @ db_audit db)) then Err (unique_violation ''audit_log_pkey'')
         else if length rows \<noteq> length changed then Err (StateConflict ''hook'')
         else Ok ((), db\<lparr>db_audit := rows @ db_audit db\<rparr>)))"

definition set_hooks_enabled ::
  "('u, 'k, 'z) deps \<Rightarrow> (nat \<Rightarrow> uuid) \<Rightarrow> batch_hook_activation \<Rightarrow> db \<Rightarrow> (hook list \<times> db, store_error) result" where
  "set_hooks_enabled dp audit_id c db =
     and_then (activation_hook_ids c) (\<lambda>ids.
     and_then (lock_hooks_for_activation dp c ids db) (\<lambda>hooks.
     and_then (apply_activation_transitions c hooks) (\<lambda>(hooks, expected_changes).
     and_then (update_hook_activation c ids db) (\<lambda>(changed, db).
       if changed \<noteq> expected_changes then Err (StateConflict ''hook'')
       else
         and_then (insert_activation_audits audit_id c changed db) (\<lambda>(_, db). Ok (hooks, db))))))"

end
