(* ===== verification/HookStoreFacts.thy ===== *)
theory HookStoreFacts
  imports HookStore
begin

text \<open>
  What the transactions of \<open>HookStore\<close> do to the tables: the statements on the hook table, the
  columns each operation writes against the transition of the aggregate, the map from identifiers to
  aggregates that the table represents, and the endpoint keys it has given out.
\<close>

section \<open>Statements\<close>

lemma update_hooks_Ok:
  "update_hooks P f db = Ok (n, db') \<longleftrightarrow>
     n = rows_affected P (db_hooks db) \<and> db' = db\<lparr>db_hooks := rows_update P f (db_hooks db)\<rparr> \<and>
     (\<forall>r \<in> set (db_hooks db). P r \<longrightarrow> hook_check (f r) = None) \<and>
     distinct (map hr_endpoint_key (rows_update P f (db_hooks db)))"
proof (cases "find (\<lambda>c. c \<noteq> None) (map (\<lambda>r. hook_check (f r)) (filter P (db_hooks db)))")
  case None
  then have "\<forall>r \<in> set (db_hooks db). P r \<longrightarrow> hook_check (f r) = None"
    by (force simp: find_None_iff)
  with None show ?thesis by (auto simp: update_hooks_def Let_def)
next
  case (Some c)
  then have "\<not> (\<forall>r \<in> set (db_hooks db). P r \<longrightarrow> hook_check (f r) = None)"
    by (auto dest!: find_SomeD) (metis option.simps(3))
  with Some show ?thesis by (auto simp: update_hooks_def Let_def)
qed

lemma ensure_one_row_Ok [simp]: "ensure_one_row n e = Ok u \<longleftrightarrow> n = 1"
  by (simp add: ensure_one_row_def)

lemma insert_audit_Ok:
  "insert_audit i action h context at db = Ok (u, db') \<longleftrightarrow>
     i \<notin> set (map au_id (db_audit db)) \<and>
     db' = db\<lparr>db_audit := audit_row_of i action h context at # db_audit db\<rparr>"
  by (auto simp: insert_audit_def)

lemma insert_retired_Ok:
  "insert_retired h k i at db = Ok (u, db') \<longleftrightarrow>
     endpoint_key_str k \<notin> set (map rt_endpoint_key (db_retired db)) \<and>
     db' = db\<lparr>db_retired := \<lparr>rt_silicon_id = silicon_id_str (hk_silicon_id h),
              rt_silicon_uuid = map_option account_uuid_str (hk_silicon_uuid h),
              rt_endpoint_key = endpoint_key_str k, rt_hook_id = hook_uuid i, rt_retired_at = at\<rparr> # db_retired db\<rparr>"
  by (auto simp: insert_retired_def)

lemma insert_hook_Ok:
  "insert_hook dp h d db = Ok (u, db') \<Longrightarrow>
     \<exists>config. dp_config_value dp (sp_config (hk_signing h)) = Some config \<and>
       db' = db\<lparr>db_hooks := insert_row h d config # db_hooks db\<rparr> \<and>
       hook_uuid (hk_id h) \<notin> set (map hr_id (db_hooks db)) \<and>
       endpoint_key_str (hk_endpoint_key h) \<notin> set (map hr_endpoint_key (db_hooks db))"
  by (auto simp: insert_hook_def Let_def insert_row_def result_simps split: if_splits)

lemma ensure_unused_Ok:
  "ensure_endpoint_key_unused k db = Ok u \<longleftrightarrow>
     endpoint_key_str k \<notin> set (map rt_endpoint_key (db_retired db)) \<and>
     endpoint_key_str k \<notin> set (map hr_endpoint_key (db_hooks db))"
  by (auto simp: ensure_endpoint_key_unused_def)

lemma get_hook_Ok:
  "get_hook dp su i db = Ok (Some h) \<longleftrightarrow>
     (\<exists>r. find (row_owned su i) (db_hooks db) = Some r \<and> hook_of_row dp r = Ok h)"
  by (auto simp: get_hook_def result_simps)

lemma select_Ok:
  "select_scoped_hook_for_update dp su i db = Ok (Some h) \<longleftrightarrow>
     (\<exists>r. find (row_owned su i) (db_hooks db) = Some r \<and> hook_of_row dp r = Ok h)"
  by (auto simp: select_scoped_hook_for_update_def result_simps)

section \<open>Columns against transitions\<close>

lemma row_secret_updates [simp]:
  "row_secret (r\<lparr>hr_disabled_at := a\<rparr>) = row_secret r"
  "row_secret (r\<lparr>hr_deleted_at := b\<rparr>) = row_secret r"
  "row_secret (r\<lparr>hr_updated_at := c\<rparr>) = row_secret r"
  "row_secret (r\<lparr>hr_endpoint_key := d\<rparr>) = row_secret r"
  "row_secret (r\<lparr>hr_endpoint_rotated_at := e\<rparr>) = row_secret r"
  "row_secret (r\<lparr>hr_name := f\<rparr>) = row_secret r"
  "row_secret (r\<lparr>hr_description := g\<rparr>) = row_secret r"
  "row_secret (r\<lparr>hr_time_zone := h\<rparr>) = row_secret r"
  "row_secret (r\<lparr>hr_signature_required := i\<rparr>) = row_secret r"
  "row_secret (r\<lparr>hr_signature_config := j\<rparr>) = row_secret r"
  "row_secret (r\<lparr>hr_secret_generation := k\<rparr>) = row_secret r"
  "row_secret (r\<lparr>hr_last_received_at := l\<rparr>) = row_secret r"
  "row_secret (r\<lparr>hr_last_blocked_at := m\<rparr>) = row_secret r"
  by (simp_all add: row_secret_def)

lemma row_creator_updates [simp]:
  "row_creator uc (r\<lparr>hr_disabled_at := a\<rparr>) = row_creator uc r"
  "row_creator uc (r\<lparr>hr_deleted_at := b\<rparr>) = row_creator uc r"
  "row_creator uc (r\<lparr>hr_updated_at := c\<rparr>) = row_creator uc r"
  "row_creator uc (r\<lparr>hr_endpoint_key := d\<rparr>) = row_creator uc r"
  "row_creator uc (r\<lparr>hr_endpoint_rotated_at := e\<rparr>) = row_creator uc r"
  "row_creator uc (r\<lparr>hr_name := f\<rparr>) = row_creator uc r"
  "row_creator uc (r\<lparr>hr_description := g\<rparr>) = row_creator uc r"
  "row_creator uc (r\<lparr>hr_time_zone := h\<rparr>) = row_creator uc r"
  "row_creator uc (r\<lparr>hr_signature_required := i\<rparr>) = row_creator uc r"
  "row_creator uc (r\<lparr>hr_signature_config := j\<rparr>) = row_creator uc r"
  "row_creator uc (r\<lparr>hr_secret_generation := k\<rparr>) = row_creator uc r"
  "row_creator uc (r\<lparr>hr_last_received_at := l\<rparr>) = row_creator uc r"
  "row_creator uc (r\<lparr>hr_last_blocked_at := m\<rparr>) = row_creator uc r"
  "row_creator uc (set_secret_columns s r) = row_creator uc r"
  by (simp_all add: row_creator_def set_secret_columns_def)

lemma set_secret_columns_sel [simp]:
  "hr_id (set_secret_columns s r) = hr_id r"
  "hr_silicon_id (set_secret_columns s r) = hr_silicon_id r"
  "hr_silicon_uuid (set_secret_columns s r) = hr_silicon_uuid r"
  "hr_endpoint_key (set_secret_columns s r) = hr_endpoint_key r"
  "hr_name (set_secret_columns s r) = hr_name r"
  "hr_description (set_secret_columns s r) = hr_description r"
  "hr_time_zone (set_secret_columns s r) = hr_time_zone r"
  "hr_signature_required (set_secret_columns s r) = hr_signature_required r"
  "hr_signature_config (set_secret_columns s r) = hr_signature_config r"
  "hr_created_at (set_secret_columns s r) = hr_created_at r"
  "hr_disabled_at (set_secret_columns s r) = hr_disabled_at r"
  "hr_deleted_at (set_secret_columns s r) = hr_deleted_at r"
  "hr_last_received_at (set_secret_columns s r) = hr_last_received_at r"
  "hr_last_blocked_at (set_secret_columns s r) = hr_last_blocked_at r"
  "hr_endpoint_rotated_at (set_secret_columns s r) = hr_endpoint_rotated_at r"
  by (simp_all add: set_secret_columns_def)

text \<open>The status of a readable row is the one its instants say.\<close>

lemma stored_status:
  assumes "hook_of_row dp r = Ok h"
  shows "hk_status h = Deleted \<longleftrightarrow> hr_deleted_at r \<noteq> None"
    and "hk_status h = Disabled \<longleftrightarrow> hr_deleted_at r = None \<and> hr_disabled_at r \<noteq> None"
    and "hk_status h = Active \<longleftrightarrow> hr_deleted_at r = None \<and> hr_disabled_at r = None"
    and "hr_deleted_at r \<noteq> None \<Longrightarrow> hr_disabled_at r = None"
  using assms by (auto simp: hook_of_row_Ok row_status_def wf_hook_def split: if_splits)

lemma delete_columns:
  assumes "hook_of_row dp r = Ok h" and "hook_delete t h = Ok g"
  shows "hook_of_row dp (r\<lparr>hr_disabled_at := None, hr_deleted_at := Some t, hr_updated_at := t\<rparr>) = Ok g"
proof -
  have "wf_hook g"
    using assms by (auto simp: hook_of_row_Ok intro: wf_hook_step step_delete)
  with assms show ?thesis
    by (auto simp: hook_of_row_Ok hook_delete_def row_status_def split: if_splits)
qed

lemma restore_columns:
  assumes "hook_of_row dp r = Ok h" and "hook_restore tc t h = Ok g"
  shows "hook_of_row dp (r\<lparr>hr_deleted_at := None, hr_updated_at := t\<rparr>) = Ok g"
proof -
  have "wf_hook g"
    using assms by (auto simp: hook_of_row_Ok intro: wf_hook_step step_restore)
  moreover have "hr_disabled_at r = None"
    using assms stored_status [OF assms(1)] by (auto simp: hook_restore_def split: if_splits)
  ultimately show ?thesis
    using assms by (auto simp: hook_of_row_Ok hook_restore_def row_status_def result_simps
        split: if_splits option.splits)
qed

lemma rotate_endpoint_columns:
  assumes "hook_of_row dp r = Ok h" and "hook_rotate_endpoint k t h = Ok (g, retired)"
    and "endpoint_key_parse (endpoint_key_str k) = Ok k"
  shows "hook_of_row dp (r\<lparr>hr_endpoint_key := endpoint_key_str (hk_endpoint_key g),
      hr_endpoint_rotated_at := Some t, hr_updated_at := t\<rparr>) = Ok g"
proof -
  have "wf_hook g"
    using assms by (auto simp: hook_of_row_Ok intro: wf_hook_step step_rotate_endpoint)
  with assms show ?thesis
    by (auto simp: hook_of_row_Ok hook_rotate_endpoint_def row_status_def split: if_splits)
qed

lemma rotate_secret_columns_ok:
  assumes "hook_of_row dp r = Ok h" and "hook_rotate_secret s h = Ok g" and "secret_storable s"
  shows "hook_of_row dp (rotate_secret_columns s t r) = Ok g"
proof -
  have "wf_hook g"
    using assms by (auto simp: hook_of_row_Ok intro: wf_hook_step step_rotate_secret)
  with assms show ?thesis
    by (auto simp: hook_of_row_Ok hook_rotate_secret_def row_status_def rotate_secret_columns_def
        row_secret_set split: if_splits)
qed

lemma update_columns_ok:
  assumes "hook_of_row dp r = Ok h" and "hook_apply_update u h = Ok g" and "hook_storable dp g"
    and "dp_config_value dp (sp_config (hk_signing g)) = Some config"
  shows "hook_of_row dp (update_columns g config b t r) = Ok g"
proof -
  have "wf_hook g"
    using assms by (auto simp: hook_of_row_Ok intro: wf_hook_step step_update)
  moreover have "dp_config_parse dp config = Some (sp_config (hk_signing g))"
    using assms(3,4) by (auto simp: hook_storable_def signing_storable_def config_storable_def)
  moreover have "row_secret (set_secret_columns (sp_encrypted_secret (hk_signing g)) r) =
      Ok (sp_encrypted_secret (hk_signing g))"
    using assms(3) by (auto simp: hook_storable_def signing_storable_def intro: row_secret_set)
  ultimately show ?thesis
    using assms unfolding hook_of_row_Ok update_columns_def
    by (cases "hk_description g")
      (auto simp: apply_update_Ok row_status_def hook_storable_def encrypted_signing_secret_def)
qed

lemma insert_columns:
  assumes "hook_storable dp h" and "wf_hook h" and "hk_status h = Active"
    and "hk_last_received_at h = None" "hk_last_blocked_at h = None" "hk_endpoint_rotated_at h = None"
    and "dp_config_value dp (sp_config (hk_signing h)) = Some config"
  shows "hook_of_row dp (insert_row h d config) = Ok h"
proof -
  let ?r = "insert_row h d config"
  have secret: "row_secret ?r = Ok (sp_encrypted_secret (hk_signing h))"
    using assms(1) row_secret_set [of "sp_encrypted_secret (hk_signing h)" ?r]
    by (simp add: hook_storable_def signing_storable_def insert_row_def Let_def encrypted_signing_secret_def
        row_secret_def set_secret_columns_def)
  have creator: "row_creator (dp_uuid dp) ?r = Ok (hk_created_by h)"
    using assms(1) optional_uuid_stored [of "dp_uuid dp" "ar_uuid (hk_created_by h)" "''hook''"]
    by (simp add: hook_storable_def actor_storable_def row_creator_def insert_row_def Let_def actor_ref_stored_def)
  have description: "transpose_opt (map_option hook_description_new (hr_description ?r)) = Ok (hk_description h)"
    using assms(1) by (cases "hk_description h") (auto simp: hook_storable_def insert_row_def Let_def)
  have "optional_uuid (dp_uuid dp) (hr_silicon_uuid ?r) ''hook'' = Ok (hk_silicon_uuid h)"
    using assms(1) by (simp add: hook_storable_def insert_row_def Let_def optional_uuid_stored)
  moreover have "dp_config_parse dp config = Some (sp_config (hk_signing h))"
    using assms(1,7) by (auto simp: hook_storable_def signing_storable_def config_storable_def)
  ultimately show ?thesis
    unfolding hook_of_row_Ok using assms secret creator description
    by (auto simp: hook_storable_def insert_row_def Let_def row_status_def wf_hook_def)
qed

section \<open>The map of aggregates\<close>

text \<open>
  The hook table stands for a partial map from identifiers to aggregates; a row that does not
  convert stands for its error.
\<close>

definition stored :: "('u, 'k, 'z) deps \<Rightarrow> db \<Rightarrow> uuid \<Rightarrow> (hook, store_error) result option" where
  "stored dp db i = map_option (hook_of_row dp) (find (\<lambda>r. hr_id r = i) (db_hooks db))"

definition ids_ok :: "db \<Rightarrow> bool" where
  "ids_ok db \<longleftrightarrow> distinct (map hr_id (db_hooks db))"

lemma owned_is_found:
  assumes "ids_ok db" and "find (row_owned su i) (db_hooks db) = Some r"
  shows "find (\<lambda>q. hr_id q = hook_uuid i) (db_hooks db) = Some r" and "row_owned su i r"
proof -
  from assms(2) have r: "r \<in> set (db_hooks db)" "row_owned su i r" using find_SomeD by fast+
  then show "row_owned su i r" by simp
  from r show "find (\<lambda>q. hr_id q = hook_uuid i) (db_hooks db) = Some r"
    by (intro find_unique [of hr_id]) (use assms(1) in \<open>auto simp: ids_ok_def row_owned_def\<close>)
qed

lemma owner_of_row:
  assumes "hook_of_row dp r = Ok h" and "hr_silicon_uuid r = Some (account_uuid_str su)"
  shows "hk_silicon_uuid h = Some su"
  using assms
  by (auto simp: hook_of_row_Ok optional_uuid_def result_simps account_uuid_new_def split: if_splits)

lemma update_one_hook:
  assumes "update_hooks P f db = Ok (1, db')" and "ids_ok db"
    and "find (row_owned su i) (db_hooks db) = Some r"
    and "\<And>q. P q \<Longrightarrow> hr_id q = hook_uuid i" and "\<And>q. hr_id (f q) = hr_id q"
  shows "stored dp db' = (stored dp db)(hook_uuid i \<mapsto> hook_of_row dp (f r))" and "P r" and "ids_ok db'"
proof -
  have rows: "db_hooks db' = rows_update P f (db_hooks db)" and one: "rows_affected P (db_hooks db) = 1"
    using assms(1) by (auto simp: update_hooks_Ok)
  note found = owned_is_found [OF assms(2,3)]
  have r: "r \<in> set (db_hooks db)" "hr_id r = hook_uuid i"
    using find_SomeD [OF found(1)] by simp_all
  from one obtain q where q: "q \<in> set (db_hooks db)" "P q"
    using rows_affected_pos [of P "db_hooks db"] by force
  have "q = r"
    by (rule same_key [OF assms(2) [unfolded ids_ok_def] q(1) r(1)]) (simp add: r(2) assms(4) [OF q(2)])
  with q show Pr: "P r" by simp
  show "ids_ok db'"
    using assms(2,5) by (simp add: ids_ok_def rows)
  show "stored dp db' = (stored dp db)(hook_uuid i \<mapsto> hook_of_row dp (f r))"
  proof
    fix j
    have f: "find (\<lambda>q. hr_id q = j) (db_hooks db') =
        map_option (\<lambda>q. if P q then f q else q) (find (\<lambda>q. hr_id q = j) (db_hooks db))"
      unfolding rows by (rule find_rows_update) (simp add: assms(5))
    show "stored dp db' j = ((stored dp db)(hook_uuid i \<mapsto> hook_of_row dp (f r))) j"
    proof (cases "j = hook_uuid i")
      case True
      then show ?thesis using found(1) Pr f by (simp add: stored_def)
    next
      case False
      then have "\<not> P q" if "find (\<lambda>q. hr_id q = j) (db_hooks db) = Some q" for q
        using find_SomeD [OF that] assms(4) by auto
      with False show ?thesis
        by (cases "find (\<lambda>q. hr_id q = j) (db_hooks db)") (simp_all add: stored_def f)
    qed
  qed
qed

text \<open>Statements on other tables do not change the map.\<close>

lemma stored_other_tables [simp]:
  "stored dp (db_retired_update a db) = stored dp db"
  "stored dp (db_idempotency_update b db) = stored dp db"
  "stored dp (db_audit_update c db) = stored dp db"
  "ids_ok (db_retired_update a db) = ids_ok db"
  "ids_ok (db_idempotency_update b db) = ids_ok db"
  "ids_ok (db_audit_update c db) = ids_ok db"
  by (simp_all add: stored_def [abs_def] ids_ok_def)

lemma reserve_hooks:
  assumes "reserve_management_key s now db = Ok (res, db')"
  shows "db_hooks db' = db_hooks db" and "db_retired db' = db_retired db" and "db_audit db' = db_audit db"
    and "stored dp db' = stored dp db" and "ids_ok db' = ids_ok db"
  by (subst reserve_other_tables [OF assms], simp)+

lemma finish_hooks:
  assumes "finish_management_key s response db = Ok (u, db')"
  shows "db_hooks db' = db_hooks db" and "db_retired db' = db_retired db" and "db_audit db' = db_audit db"
    and "stored dp db' = stored dp db" and "ids_ok db' = ids_ok db"
  by (subst finish_other_tables [OF assms], simp)+

section \<open>The two ways an idempotent operation succeeds\<close>

lemma restore_hookE:
  assumes "restore_hook dp a c db = Ok (out, db')"
  obtains (replayed) h response where
      "reserve_management_key (rh_idempotency c) (rh_occurred_at c) db = Ok (Replayed response, db')"
      "select_replayed_scoped_hook dp (rh_silicon_uuid c) response db' = Ok h"
      "hk_status h \<noteq> Deleted" "out = RestoreReplayed h response"
    | (fresh) h g db1 db2 db3 where
      "reserve_management_key (rh_idempotency c) (rh_occurred_at c) db = Ok (Reserved, db1)"
      "select_scoped_hook_for_update dp (rh_silicon_uuid c) (rh_hook_id c) db1 = Ok (Some h)"
      "hook_restore (dp_time dp) (rh_occurred_at c) h = Ok g"
      "update_hooks (\<lambda>r. hr_id r = hook_uuid (rh_hook_id c) \<and> hr_deleted_at r \<noteq> None)
        (\<lambda>r. r\<lparr>hr_deleted_at := None, hr_updated_at := rh_occurred_at c\<rparr>) db1 = Ok (1, db2)"
      "insert_audit a AuditRestored g (rh_audit c) (rh_occurred_at c) db2 = Ok ((), db3)"
      "finish_management_key (rh_idempotency c) (rh_response c) db3 = Ok ((), db')" "out = Restored g"
proof -
  obtain reservation db1 where res: "reserve_management_key (rh_idempotency c) (rh_occurred_at c) db = Ok (reservation, db1)"
    using assms by (auto simp: restore_hook_def result_simps)
  show thesis
  proof (cases reservation)
    case Reserved
    then show thesis
      using assms res by (auto simp: restore_hook_def result_simps intro: fresh)
  next
    case (Replayed response)
    then show thesis
      using assms res by (auto simp: restore_hook_def result_simps split: if_splits intro: replayed)
  qed
qed

lemma rotate_hook_secretE:
  assumes "rotate_hook_secret dp a c db = Ok (out, db')"
  obtains (replayed) h response where
      "reserve_management_key (rs_idempotency c) (rs_occurred_at c) db = Ok (Replayed response, db')"
      "select_replayed_scoped_hook dp (rs_silicon_uuid c) response db' = Ok h"
      "hk_status h \<noteq> Deleted" "pr_encrypted_secret response = encrypted_signing_secret h"
      "out = RotationReplayed h response"
    | (fresh) h g db1 db2 db3 where
      "reserve_management_key (rs_idempotency c) (rs_occurred_at c) db = Ok (Reserved, db1)"
      "select_scoped_hook_for_update dp (rs_silicon_uuid c) (rs_hook_id c) db1 = Ok (Some h)"
      "hook_rotate_secret (rs_encrypted_secret c) h = Ok g"
      "update_hooks (\<lambda>r. hr_id r = hook_uuid (rs_hook_id c) \<and> hr_deleted_at r = None)
        (rotate_secret_columns (rs_encrypted_secret c) (rs_occurred_at c)) db1 = Ok (1, db2)"
      "insert_audit a AuditSecretRotated g (rs_audit c) (rs_occurred_at c) db2 = Ok ((), db3)"
      "finish_management_key (rs_idempotency c) (rs_response c) db3 = Ok ((), db')" "out = Rotated g"
proof -
  obtain reservation db1 where res: "reserve_management_key (rs_idempotency c) (rs_occurred_at c) db = Ok (reservation, db1)"
    using assms by (auto simp: rotate_hook_secret_def result_simps)
  show thesis
  proof (cases reservation)
    case Reserved
    then show thesis
      using assms res by (auto simp: rotate_hook_secret_def result_simps intro: fresh)
  next
    case (Replayed response)
    then show thesis
      using assms res by (auto simp: rotate_hook_secret_def result_simps split: if_splits intro: replayed)
  qed
qed

lemma rotate_hook_endpointE:
  assumes "rotate_hook_endpoint dp a c db = Ok (out, db')"
  obtains (replayed) h response where
      "reserve_management_key (re_idempotency c) (re_occurred_at c) db = Ok (Replayed response, db')"
      "select_replayed_scoped_hook dp (re_silicon_uuid c) response db' = Ok h"
      "hk_status h \<noteq> Deleted" "out = RotationReplayed h response"
    | (fresh) h g db1 db2 db3 db4 where
      "reserve_management_key (re_idempotency c) (re_occurred_at c) db = Ok (Reserved, db1)"
      "select_scoped_hook_for_update dp (re_silicon_uuid c) (re_hook_id c) db1 = Ok (Some h)"
      "ensure_endpoint_key_unused (re_replacement c) db1 = Ok ()"
      "hook_rotate_endpoint (re_replacement c) (re_occurred_at c) h = Ok (g, hk_endpoint_key h)"
      "update_hooks (\<lambda>r. hr_id r = hook_uuid (re_hook_id c) \<and> hr_deleted_at r = None)
        (\<lambda>r. r\<lparr>hr_endpoint_key := endpoint_key_str (re_replacement c),
               hr_endpoint_rotated_at := Some (re_occurred_at c), hr_updated_at := re_occurred_at c\<rparr>) db1 = Ok (1, db2)"
      "insert_retired g (hk_endpoint_key h) (re_hook_id c) (re_occurred_at c) db2 = Ok ((), db3)"
      "insert_audit a AuditEndpointRotated g (re_audit c) (re_occurred_at c) db3 = Ok ((), db4)"
      "finish_management_key (re_idempotency c) (re_response c) db4 = Ok ((), db')" "out = Rotated g"
proof -
  obtain reservation db1 where res: "reserve_management_key (re_idempotency c) (re_occurred_at c) db = Ok (reservation, db1)"
    using assms by (auto simp: rotate_hook_endpoint_def result_simps)
  show thesis
  proof (cases reservation)
    case Reserved
    then show thesis
      using assms res by (auto simp: rotate_hook_endpoint_def result_simps hook_rotate_endpoint_def split: if_splits intro!: fresh)
  next
    case (Replayed response)
    then show thesis
      using assms res by (auto simp: rotate_hook_endpoint_def result_simps split: if_splits intro: replayed)
  qed
qed

lemma create_hookE:
  assumes "create_hook dp a c db = Ok (out, db')"
  obtains (replayed) su h response where "hk_silicon_uuid (ch_hook c) = Some su"
      "reserve_management_key (ch_idempotency c) (ch_recorded_at c) db = Ok (Replayed response, db')"
      "select_replayed_scoped_hook dp su response db' = Ok h"
      "hk_status h \<noteq> Deleted" "pr_encrypted_secret response = encrypted_signing_secret h"
      "out = CreateReplayed h response"
    | (fresh) su db1 db2 db3 where "hk_silicon_uuid (ch_hook c) = Some su"
      "validate_create_command (dp_time dp) c = Ok ()"
      "reserve_management_key (ch_idempotency c) (ch_recorded_at c) db = Ok (Reserved, db1)"
      "reserve_retained_hook_slot (dp_time dp) su (ch_recorded_at c) db1 = Ok ()"
      "ensure_endpoint_key_unused (hk_endpoint_key (ch_hook c)) db1 = Ok ()"
      "insert_hook dp (ch_hook c) (ch_is_accounts_default c) db1 = Ok ((), db2)"
      "insert_audit a (if ch_is_accounts_default c then AuditAccountsConnected else AuditCreated)
        (ch_hook c) (ch_audit c) (ch_recorded_at c) db2 = Ok ((), db3)"
      "finish_management_key (ch_idempotency c) (ch_response c) db3 = Ok ((), db')" "out = HookCreated (ch_hook c)"
proof -
  obtain reservation db1 where res: "reserve_management_key (ch_idempotency c) (ch_recorded_at c) db = Ok (reservation, db1)"
    using assms by (auto simp: create_hook_def result_simps)
  show thesis
  proof (cases reservation)
    case Reserved
    then show thesis
      using assms res by (auto simp: create_hook_def result_simps split: if_splits intro: fresh)
  next
    case (Replayed response)
    then show thesis
      using assms res by (auto simp: create_hook_def result_simps split: if_splits intro: replayed)
  qed
qed

section \<open>Each operation is its transition on the map\<close>

lemma delete_refines:
  assumes "delete_hook dp a c db = Ok (g, db')" and "ids_ok db"
  shows "\<exists>h. stored dp db (hook_uuid (hm_hook_id c)) = Some (Ok h) \<and> hk_silicon_uuid h = Some (hm_silicon_uuid c) \<and>
    hook_delete (hm_occurred_at c) h = Ok g \<and>
    stored dp db' = (stored dp db)(hook_uuid (hm_hook_id c) \<mapsto> Ok g) \<and> ids_ok db' \<and>
    db_audit db' = audit_row_of a AuditDeleted g (hm_audit c) (hm_occurred_at c) # db_audit db"
proof -
  let ?P = "\<lambda>r. hr_id r = hook_uuid (hm_hook_id c) \<and> hr_deleted_at r = None"
  let ?f = "\<lambda>r. r\<lparr>hr_disabled_at := None, hr_deleted_at := Some (hm_occurred_at c), hr_updated_at := hm_occurred_at c\<rparr>"
  obtain r h db1 where r: "find (row_owned (hm_silicon_uuid c) (hm_hook_id c)) (db_hooks db) = Some r"
    and h: "hook_of_row dp r = Ok h" and g: "hook_delete (hm_occurred_at c) h = Ok g"
    and upd: "update_hooks ?P ?f db = Ok (1, db1)"
    and audit: "insert_audit a AuditDeleted g (hm_audit c) (hm_occurred_at c) db1 = Ok ((), db')"
    using assms(1) by (auto simp: delete_hook_def result_simps select_Ok)
  note found = owned_is_found [OF assms(2) r]
  note upd1 = update_one_hook [OF upd assms(2) r, simplified]
  have "db_audit db1 = db_audit db" using upd by (auto simp: update_hooks_Ok)
  then show ?thesis
    using upd1(1) [of dp] upd1(3) audit h g found delete_columns [OF h g]
    by (auto simp: insert_audit_Ok stored_def row_owned_def intro: owner_of_row)
qed

lemma update_columns_sel [simp]:
  "hr_id (update_columns h config b t r) = hr_id r"
  "hr_endpoint_key (update_columns h config b t r) = hr_endpoint_key r"
  "hr_silicon_uuid (update_columns h config b t r) = hr_silicon_uuid r"
  "hr_id (rotate_secret_columns s t r) = hr_id r"
  "hr_endpoint_key (rotate_secret_columns s t r) = hr_endpoint_key r"
  "hr_silicon_uuid (rotate_secret_columns s t r) = hr_silicon_uuid r"
  by (simp_all add: update_columns_def rotate_secret_columns_def)

lemma update_refines:
  assumes "update_hook dp a c db = Ok (g, db')" and "ids_ok db" and "hook_storable dp g"
  shows "\<exists>h. stored dp db (hook_uuid (uh_hook_id c)) = Some (Ok h) \<and> hk_silicon_uuid h = Some (uh_silicon_uuid c) \<and>
    hook_apply_update (uh_update c) h = Ok g \<and>
    stored dp db' = (stored dp db)(hook_uuid (uh_hook_id c) \<mapsto> Ok g) \<and> ids_ok db' \<and>
    db_audit db' = audit_row_of a AuditUpdated g (uh_audit c) (uh_occurred_at c) # db_audit db"
proof -
  let ?P = "\<lambda>r. hr_id r = hook_uuid (uh_hook_id c) \<and> hr_deleted_at r = None"
  obtain r h config db1 where r: "find (row_owned (uh_silicon_uuid c) (uh_hook_id c)) (db_hooks db) = Some r"
    and h: "hook_of_row dp r = Ok h" and g: "hook_apply_update (uh_update c) h = Ok g"
    and config: "dp_config_value dp (sp_config (hk_signing g)) = Some config"
    and upd: "update_hooks ?P (update_columns g config (replaces_secret (uh_update c) h) (uh_occurred_at c)) db = Ok (1, db1)"
    and audit: "insert_audit a AuditUpdated g (uh_audit c) (uh_occurred_at c) db1 = Ok ((), db')"
    using assms(1) by (auto simp: update_hook_def result_simps select_Ok)
  note found = owned_is_found [OF assms(2) r]
  note upd1 = update_one_hook [OF upd assms(2) r, simplified]
  have "db_audit db1 = db_audit db" using upd by (auto simp: update_hooks_Ok)
  then show ?thesis
    using upd1(1) [of dp] upd1(3) audit h g found update_columns_ok [OF h g assms(3) config]
    by (auto simp: insert_audit_Ok stored_def row_owned_def intro: owner_of_row)
qed

lemma restore_refines:
  assumes "restore_hook dp a c db = Ok (Restored g, db')" and "ids_ok db"
  shows "\<exists>h. stored dp db (hook_uuid (rh_hook_id c)) = Some (Ok h) \<and> hk_silicon_uuid h = Some (rh_silicon_uuid c) \<and>
    hook_restore (dp_time dp) (rh_occurred_at c) h = Ok g \<and>
    stored dp db' = (stored dp db)(hook_uuid (rh_hook_id c) \<mapsto> Ok g) \<and> ids_ok db' \<and>
    db_audit db' = audit_row_of a AuditRestored g (rh_audit c) (rh_occurred_at c) # db_audit db"
proof -
  let ?P = "\<lambda>r. hr_id r = hook_uuid (rh_hook_id c) \<and> hr_deleted_at r \<noteq> None"
  let ?f = "\<lambda>r. r\<lparr>hr_deleted_at := None, hr_updated_at := rh_occurred_at c\<rparr>"
  obtain r h db1 db2 db3 where
    res: "reserve_management_key (rh_idempotency c) (rh_occurred_at c) db = Ok (Reserved, db1)"
    and r: "find (row_owned (rh_silicon_uuid c) (rh_hook_id c)) (db_hooks db1) = Some r"
    and h: "hook_of_row dp r = Ok h" and g: "hook_restore (dp_time dp) (rh_occurred_at c) h = Ok g"
    and upd: "update_hooks ?P ?f db1 = Ok (1, db2)"
    and audit: "insert_audit a AuditRestored g (rh_audit c) (rh_occurred_at c) db2 = Ok ((), db3)"
    and fin: "finish_management_key (rh_idempotency c) (rh_response c) db3 = Ok ((), db')"
    using assms(1) by (cases rule: restore_hookE) (auto simp: select_Ok)
  note res1 = reserve_hooks [OF res] and fin1 = finish_hooks [OF fin]
  have ids: "ids_ok db1" using assms(2) res1(5) by simp
  note found = owned_is_found [OF ids r]
  note upd1 = update_one_hook [OF upd ids r, simplified]
  have "db_audit db2 = db_audit db1" using upd by (auto simp: update_hooks_Ok)
  then have "stored dp db1 (hook_uuid (rh_hook_id c)) = Some (Ok h) \<and> hk_silicon_uuid h = Some (rh_silicon_uuid c) \<and>
      stored dp db3 = (stored dp db1)(hook_uuid (rh_hook_id c) \<mapsto> Ok g) \<and> ids_ok db3 \<and>
      db_audit db3 = audit_row_of a AuditRestored g (rh_audit c) (rh_occurred_at c) # db_audit db1"
    using upd1(1) [of dp] upd1(3) audit h g found restore_columns [OF h g]
    by (auto simp: insert_audit_Ok stored_def row_owned_def intro: owner_of_row)
  with g show ?thesis by (auto simp: fin1 res1(3,4))
qed

lemma rotate_secret_refines:
  assumes "rotate_hook_secret dp a c db = Ok (Rotated g, db')" and "ids_ok db"
    and "secret_storable (rs_encrypted_secret c)"
  shows "\<exists>h. stored dp db (hook_uuid (rs_hook_id c)) = Some (Ok h) \<and> hk_silicon_uuid h = Some (rs_silicon_uuid c) \<and>
    hook_rotate_secret (rs_encrypted_secret c) h = Ok g \<and>
    stored dp db' = (stored dp db)(hook_uuid (rs_hook_id c) \<mapsto> Ok g) \<and> ids_ok db' \<and>
    db_audit db' = audit_row_of a AuditSecretRotated g (rs_audit c) (rs_occurred_at c) # db_audit db"
proof -
  let ?P = "\<lambda>r. hr_id r = hook_uuid (rs_hook_id c) \<and> hr_deleted_at r = None"
  obtain r h db1 db2 db3 where
    res: "reserve_management_key (rs_idempotency c) (rs_occurred_at c) db = Ok (Reserved, db1)"
    and r: "find (row_owned (rs_silicon_uuid c) (rs_hook_id c)) (db_hooks db1) = Some r"
    and h: "hook_of_row dp r = Ok h" and g: "hook_rotate_secret (rs_encrypted_secret c) h = Ok g"
    and upd: "update_hooks ?P (rotate_secret_columns (rs_encrypted_secret c) (rs_occurred_at c)) db1 = Ok (1, db2)"
    and audit: "insert_audit a AuditSecretRotated g (rs_audit c) (rs_occurred_at c) db2 = Ok ((), db3)"
    and fin: "finish_management_key (rs_idempotency c) (rs_response c) db3 = Ok ((), db')"
    using assms(1) by (cases rule: rotate_hook_secretE) (auto simp: select_Ok)
  note res1 = reserve_hooks [OF res] and fin1 = finish_hooks [OF fin]
  have ids: "ids_ok db1" using assms(2) res1(5) by simp
  note found = owned_is_found [OF ids r]
  note upd1 = update_one_hook [OF upd ids r, simplified]
  have "db_audit db2 = db_audit db1" using upd by (auto simp: update_hooks_Ok)
  then have "stored dp db1 (hook_uuid (rs_hook_id c)) = Some (Ok h) \<and> hk_silicon_uuid h = Some (rs_silicon_uuid c) \<and>
      stored dp db3 = (stored dp db1)(hook_uuid (rs_hook_id c) \<mapsto> Ok g) \<and> ids_ok db3 \<and>
      db_audit db3 = audit_row_of a AuditSecretRotated g (rs_audit c) (rs_occurred_at c) # db_audit db1"
    using upd1(1) [of dp] upd1(3) audit h g found rotate_secret_columns_ok [OF h g assms(3)]
    by (auto simp: insert_audit_Ok stored_def row_owned_def intro: owner_of_row)
  with g show ?thesis by (auto simp: fin1 res1(3,4))
qed

lemma classify_keeps_Ok: "map_err classify_hook_insert_error r = Ok x \<longleftrightarrow> r = Ok x"
  by (simp add: result_simps)

lemma rotate_endpoint_refines:
  assumes "rotate_hook_endpoint dp a c db = Ok (Rotated g, db')" and "ids_ok db"
    and "endpoint_key_parse (endpoint_key_str (re_replacement c)) = Ok (re_replacement c)"
  shows "\<exists>h. stored dp db (hook_uuid (re_hook_id c)) = Some (Ok h) \<and> hk_silicon_uuid h = Some (re_silicon_uuid c) \<and>
    hook_rotate_endpoint (re_replacement c) (re_occurred_at c) h = Ok (g, hk_endpoint_key h) \<and>
    stored dp db' = (stored dp db)(hook_uuid (re_hook_id c) \<mapsto> Ok g) \<and> ids_ok db' \<and>
    db_audit db' = audit_row_of a AuditEndpointRotated g (re_audit c) (re_occurred_at c) # db_audit db"
proof -
  let ?P = "\<lambda>r. hr_id r = hook_uuid (re_hook_id c) \<and> hr_deleted_at r = None"
  let ?f = "\<lambda>r. r\<lparr>hr_endpoint_key := endpoint_key_str (re_replacement c),
      hr_endpoint_rotated_at := Some (re_occurred_at c), hr_updated_at := re_occurred_at c\<rparr>"
  obtain r h db1 db2 db3 db4 where
    res: "reserve_management_key (re_idempotency c) (re_occurred_at c) db = Ok (Reserved, db1)"
    and r: "find (row_owned (re_silicon_uuid c) (re_hook_id c)) (db_hooks db1) = Some r"
    and h: "hook_of_row dp r = Ok h" and g: "hook_rotate_endpoint (re_replacement c) (re_occurred_at c) h = Ok (g, hk_endpoint_key h)"
    and upd: "update_hooks ?P ?f db1 = Ok (1, db2)"
    and ret: "insert_retired g (hk_endpoint_key h) (re_hook_id c) (re_occurred_at c) db2 = Ok ((), db3)"
    and audit: "insert_audit a AuditEndpointRotated g (re_audit c) (re_occurred_at c) db3 = Ok ((), db4)"
    and fin: "finish_management_key (re_idempotency c) (re_response c) db4 = Ok ((), db')"
    using assms(1) by (cases rule: rotate_hook_endpointE) (auto simp: select_Ok)
  note res1 = reserve_hooks [OF res] and fin1 = finish_hooks [OF fin]
  have ids: "ids_ok db1" using assms(2) res1(5) by simp
  note found = owned_is_found [OF ids r]
  note upd1 = update_one_hook [OF upd ids r, simplified]
  have "hk_endpoint_key g = re_replacement c" using g by (auto simp: hook_rotate_endpoint_def split: if_splits)
  note cols = rotate_endpoint_columns [OF h g assms(3), unfolded this]
  have "db_audit db2 = db_audit db1" using upd by (auto simp: update_hooks_Ok)
  then have "stored dp db1 (hook_uuid (re_hook_id c)) = Some (Ok h) \<and> hk_silicon_uuid h = Some (re_silicon_uuid c) \<and>
      stored dp db4 = (stored dp db1)(hook_uuid (re_hook_id c) \<mapsto> Ok g) \<and> ids_ok db4 \<and>
      db_audit db4 = audit_row_of a AuditEndpointRotated g (re_audit c) (re_occurred_at c) # db_audit db1"
    using upd1(1) [of dp] upd1(3) audit ret h g found cols
    by (auto simp: insert_audit_Ok insert_retired_Ok stored_def row_owned_def intro: owner_of_row)
  with g show ?thesis by (auto simp: fin1 res1(3,4))
qed

lemma stored_insert:
  assumes "ids_ok db" and "hr_id r \<notin> set (map hr_id (db_hooks db))"
  shows "stored dp (db\<lparr>db_hooks := r # db_hooks db\<rparr>) = (stored dp db)(hr_id r \<mapsto> hook_of_row dp r)"
    and "stored dp db (hr_id r) = None" and "ids_ok (db\<lparr>db_hooks := r # db_hooks db\<rparr>)"
  using assms by (auto simp: stored_def ids_ok_def find_None_iff fun_eq_iff) (metis image_eqI)

lemma create_refines:
  assumes "create_hook dp a c db = Ok (HookCreated g, db')" and "ids_ok db" and "hook_storable dp g" and "wf_hook g"
    and "hk_last_received_at g = None" "hk_last_blocked_at g = None" "hk_endpoint_rotated_at g = None"
  shows "g = ch_hook c \<and> stored dp db (hook_uuid (hk_id g)) = None \<and>
    stored dp db' = (stored dp db)(hook_uuid (hk_id g) \<mapsto> Ok g) \<and> ids_ok db' \<and>
    db_audit db' = audit_row_of a (if ch_is_accounts_default c then AuditAccountsConnected else AuditCreated)
      g (ch_audit c) (ch_recorded_at c) # db_audit db"
proof -
  obtain su db1 db2 db3 where
    valid: "validate_create_command (dp_time dp) c = Ok ()" and su: "hk_silicon_uuid (ch_hook c) = Some su"
    and res: "reserve_management_key (ch_idempotency c) (ch_recorded_at c) db = Ok (Reserved, db1)"
    and ins: "insert_hook dp (ch_hook c) (ch_is_accounts_default c) db1 = Ok ((), db2)"
    and audit: "insert_audit a (if ch_is_accounts_default c then AuditAccountsConnected else AuditCreated)
        (ch_hook c) (ch_audit c) (ch_recorded_at c) db2 = Ok ((), db3)"
    and fin: "finish_management_key (ch_idempotency c) (ch_response c) db3 = Ok ((), db')"
    and g: "g = ch_hook c"
    using assms(1) by (cases rule: create_hookE) auto
  note res1 = reserve_hooks [OF res] and fin1 = finish_hooks [OF fin]
  have ids: "ids_ok db1" using assms(2) res1(5) by simp
  obtain config where config: "dp_config_value dp (sp_config (hk_signing g)) = Some config"
    and db2: "db2 = db1\<lparr>db_hooks := insert_row g (ch_is_accounts_default c) config # db_hooks db1\<rparr>"
    and fresh: "hook_uuid (hk_id g) \<notin> set (map hr_id (db_hooks db1))"
    using insert_hook_Ok [OF ins] g by blast
  have active: "hk_status g = Active"
    using valid g by (auto simp: validate_create_command_def split: if_splits)
  have row: "hook_of_row dp (insert_row g (ch_is_accounts_default c) config) = Ok g"
    by (rule insert_columns) (use assms active config in auto)
  have id: "hr_id (insert_row g (ch_is_accounts_default c) config) = hook_uuid (hk_id g)"
    by (simp add: insert_row_def Let_def)
  note ins1 = stored_insert [OF ids, of "insert_row g (ch_is_accounts_default c) config", unfolded id, OF fresh]
  have "stored dp db3 = (stored dp db1)(hook_uuid (hk_id g) \<mapsto> Ok g) \<and> ids_ok db3 \<and>
      db_audit db3 = audit_row_of a (if ch_is_accounts_default c then AuditAccountsConnected else AuditCreated)
        g (ch_audit c) (ch_recorded_at c) # db_audit db1"
    using audit ins1(1) [of dp] ins1(3) by (auto simp: insert_audit_Ok db2 g row [unfolded g])
  with ins1(2) [of dp] g show ?thesis by (auto simp: fin1 res1(3,4))
qed

section \<open>Activation of a batch on the map\<close>

lemma activation_columns:
  assumes "hook_of_row dp r = Ok h" and "hook_activate e t h = Ok g"
  shows "hook_of_row dp
      (if hr_deleted_at r = None \<and> ((e \<and> hr_disabled_at r \<noteq> None) \<or> (\<not> e \<and> hr_disabled_at r = None))
       then r\<lparr>hr_disabled_at := (if e then None else Some t), hr_updated_at := t\<rparr> else r) = Ok g"
proof -
  have wf: "wf_hook g"
    using assms by (auto simp: hook_of_row_Ok hook_activate_def intro: wf_hook_step step_enable step_disable
        split: if_splits)
  show ?thesis
  proof (cases "hk_status h")
    case Active
    with assms stored_status [OF assms(1)] wf show ?thesis
      by (auto simp: hook_activate_def hook_enable_def hook_disable_def hook_of_row_Ok row_status_def split: if_splits)
  next
    case Disabled
    with assms stored_status [OF assms(1)] wf show ?thesis
      by (auto simp: hook_activate_def hook_enable_def hook_disable_def hook_of_row_Ok row_status_def result_simps
          split: if_splits)
  next
    case Deleted
    with assms show ?thesis by (simp add: hook_activate_def hook_enable_def hook_disable_def split: if_splits)
  qed
qed

lemma activate_id: "hook_activate e t h = Ok g \<Longrightarrow> hk_id g = hk_id h"
  using same_identity_step [of undefined h g]
  by (auto simp: hook_activate_def same_identity_def split: if_splits intro: step_enable step_disable)

lemma activation_transitions:
  "apply_activation_transitions c hs = Ok (gs, changed) \<Longrightarrow>
     list_all2 (\<lambda>h g. hook_activate (ba_enabled c) (ba_occurred_at c) h = Ok g) hs gs"
  by (induction hs arbitrary: gs changed) (auto simp: result_simps)

lemma activation_ids:
  assumes "activation_hook_ids c = Ok ids"
  shows "sorted ids \<and> distinct ids \<and> set ids = hook_uuid ` set (ba_hook_ids c) \<and> ids \<noteq> []"
proof -
  have ids: "ids = sort (map hook_uuid (ba_hook_ids c))" and no: "\<not> has_duplicates ids"
    and ne: "ba_hook_ids c \<noteq> []"
    using assms by (auto simp: activation_hook_ids_def Let_def split: if_splits)
  have sorted: "sorted ids" by (simp add: ids)
  have distinct: "distinct xs" if "sorted xs" "\<not> has_duplicates xs" for xs :: "uuid list"
    using that
  proof (induction xs)
    case (Cons x xs)
    then have "\<not> has_duplicates xs" "xs = [] \<or> x \<noteq> hd xs"
      by (cases xs; auto simp: has_duplicates_def)+
    with Cons show ?case by (cases xs) (force simp: order_le_less)+
  qed simp
  have "ids \<noteq> []"
    using ne arg_cong [OF ids, of length] by auto
  moreover have "set ids = hook_uuid ` set (ba_hook_ids c)" by (simp add: ids)
  ultimately show ?thesis using sorted distinct [OF sorted no] by blast
qed

lemma sorted_rows_ids:
  assumes "distinct (map key rows)" and "distinct ids" and "sorted ids"
    and "rs = sort_key key (filter (\<lambda>r. Q r \<and> key r \<in> set ids) rows)" and "length rs = length ids"
  shows "map key rs = ids"
proof -
  have d: "distinct (map key rs)"
    using distinct_map_filter [OF assms(1), of "\<lambda>r. Q r \<and> key r \<in> set ids"]
    by (simp add: assms(4) distinct_map distinct_sort)
  have sub: "set (map key rs) \<subseteq> set ids"
    by (auto simp: assms(4))
  have "card (set (map key rs)) = card (set ids)"
    using d assms(2,5) distinct_card [of "map key rs"] distinct_card [of ids] by simp
  with sub have "set (map key rs) = set ids"
    by (simp add: card_subset_eq)
  then show ?thesis
    using sorted_distinct_set_unique [of "map key rs" ids] d assms(2,3)
    by (simp add: assms(4))
qed

lemma activation_refines:
  assumes "set_hooks_enabled dp a c db = Ok (gs, db')" and "ids_ok db"
  shows "set (map hk_id gs) = set (ba_hook_ids c)" and "ids_ok db'"
    and "\<And>i. HookId i \<notin> set (ba_hook_ids c) \<Longrightarrow> stored dp db' i = stored dp db i"
    and "\<And>i. HookId i \<in> set (ba_hook_ids c) \<Longrightarrow>
      \<exists>h g. stored dp db i = Some (Ok h) \<and> hk_silicon_uuid h = Some (ba_silicon_uuid c) \<and>
        hook_activate (ba_enabled c) (ba_occurred_at c) h = Ok g \<and> g \<in> set gs \<and>
        stored dp db' i = Some (Ok g)"
proof -
  let ?P = "\<lambda>ids. activation_row c ids"
  let ?f = "\<lambda>r. r\<lparr>hr_disabled_at := (if ba_enabled c then None else Some (ba_occurred_at c)),
      hr_updated_at := ba_occurred_at c\<rparr>"
  let ?Q = "\<lambda>r. hr_silicon_uuid r = Some (account_uuid_str (ba_silicon_uuid c))"
  obtain ids hs changed n db1 where ids: "activation_hook_ids c = Ok ids"
    and lock: "lock_hooks_for_activation dp c ids db = Ok hs"
    and trans: "apply_activation_transitions c hs = Ok (gs, changed)"
    and upd: "update_hooks (?P ids) ?f db = Ok (n, db1)"
    and audit: "insert_activation_audits a c changed db1 = Ok ((), db')"
    using assms(1)
    by (auto simp: set_hooks_enabled_def update_hook_activation_def result_simps split: if_splits)
  note ids1 = activation_ids [OF ids]
  define rs where "rs = sort_key hr_id (filter (\<lambda>r. ?Q r \<and> hr_id r \<in> set ids) (db_hooks db))"
  have len: "length rs = length ids" and all: "list_all2 (\<lambda>r h. hook_of_row dp r = Ok h) rs hs"
    using lock by (auto simp: lock_hooks_for_activation_def Let_def rs_def result_simps split: if_splits)
  have key: "map hr_id rs = ids"
    by (rule sorted_rows_ids [OF _ _ _ rs_def len]) (use assms(2) ids1 in \<open>auto simp: ids_ok_def\<close>)
  have db1: "db_hooks db1 = rows_update (?P ids) ?f (db_hooks db)"
    using upd by (auto simp: update_hooks_Ok)
  have db': "db_hooks db' = db_hooks db1"
    using audit by (auto simp: insert_activation_audits_def Let_def split: if_splits)
  have find': "find (\<lambda>q. hr_id q = i) (db_hooks db') =
      map_option (\<lambda>q. if ?P ids q then ?f q else q) (find (\<lambda>q. hr_id q = i) (db_hooks db))" for i
    unfolding db' db1 by (rule find_rows_update) simp
  show "ids_ok db'" using assms(2) by (simp add: ids_ok_def db' db1)
  note tr = activation_transitions [OF trans]
  have hsl: "length hs = length ids" and lens: "length gs = length ids"
    using list_all2_lengthD [OF all] list_all2_lengthD [OF tr] len by simp_all
  have same: "hk_id (gs ! j) = HookId (ids ! j)" if "j < length ids" for j
  proof -
    have "hook_of_row dp (rs ! j) = Ok (hs ! j)"
      using list_all2_nthD [OF all] that len by simp
    moreover have "hook_activate (ba_enabled c) (ba_occurred_at c) (hs ! j) = Ok (gs ! j)"
      using list_all2_nthD [OF tr] that hsl by simp
    ultimately have "hk_id (gs ! j) = HookId (hr_id (rs ! j))"
      using activate_id by (simp add: hook_of_row_Ok)
    then show ?thesis using key that len by (metis nth_map)
  qed
  have "map hk_id gs = map HookId ids"
    using same lens by (auto intro: nth_equalityI)
  then have "set (map hk_id gs) = HookId ` set ids" by simp
  also have "\<dots> = set (ba_hook_ids c)" using ids1 by (force simp: image_iff)
  finally show "set (map hk_id gs) = set (ba_hook_ids c)" .
  show "stored dp db' i = stored dp db i" if i: "HookId i \<notin> set (ba_hook_ids c)" for i
  proof -
    have "i \<notin> set ids" using i ids1 by (metis hook_id.collapse imageE)
    then have "\<not> ?P ids q" if "find (\<lambda>q. hr_id q = i) (db_hooks db) = Some q" for q
      using find_SomeD [OF that] by (simp add: activation_row_def)
    then show ?thesis
      unfolding stored_def find' by (cases "find (\<lambda>q. hr_id q = i) (db_hooks db)") simp_all
  qed
  show "\<exists>h g. stored dp db i = Some (Ok h) \<and> hk_silicon_uuid h = Some (ba_silicon_uuid c) \<and>
      hook_activate (ba_enabled c) (ba_occurred_at c) h = Ok g \<and> g \<in> set gs \<and> stored dp db' i = Some (Ok g)"
    if i: "HookId i \<in> set (ba_hook_ids c)" for i
  proof -
    have "i \<in> set ids" using i ids1 by force
    then obtain j where j: "j < length ids" "ids ! j = i" by (auto simp: in_set_conv_nth)
    let ?r = "rs ! j" and ?h = "hs ! j" and ?g = "gs ! j"
    have r: "hook_of_row dp ?r = Ok ?h" and g: "hook_activate (ba_enabled c) (ba_occurred_at c) ?h = Ok ?g"
      using list_all2_nthD [OF all] list_all2_nthD [OF tr] j len hsl by simp_all
    have "?r \<in> set rs" using j len by simp
    then have mem: "?r \<in> set (db_hooks db)" and own: "?Q ?r" by (auto simp: rs_def)
    have id: "hr_id ?r = i" using key j len by (metis nth_map)
    have found: "find (\<lambda>q. hr_id q = i) (db_hooks db) = Some ?r"
      by (rule find_unique [of hr_id]) (use assms(2) mem id in \<open>auto simp: ids_ok_def\<close>)
    have P: "?P ids ?r \<longleftrightarrow> hr_deleted_at ?r = None \<and>
        ((ba_enabled c \<and> hr_disabled_at ?r \<noteq> None) \<or> (\<not> ba_enabled c \<and> hr_disabled_at ?r = None))"
      using own id \<open>i \<in> set ids\<close> by (simp add: activation_row_def)
    have "stored dp db' i = Some (hook_of_row dp (if ?P ids ?r then ?f ?r else ?r))"
      by (simp add: stored_def find' found)
    also have "\<dots> = Some (Ok ?g)"
      using activation_columns [OF r g] unfolding P by simp
    finally have "stored dp db' i = Some (Ok ?g)" .
    moreover have "?g \<in> set gs" using lens j by simp
    ultimately show ?thesis
      using r g owner_of_row [OF r own] by (auto simp: stored_def found)
  qed
qed

end
