(* ===== verification/EndpointKeys.thy ===== *)
theory EndpointKeys
  imports HookStoreFacts
begin

text \<open>
  Endpoint keys across the transactions of \<open>HookStore\<close>: no two hooks share a key, a retired key is
  retired once, and no retired key is live. The relation of one table state to the next that every
  operation satisfies also says that retired keys stay retired and that audit rows are only added.
\<close>

definition key_canonical :: "ustring \<Rightarrow> bool" where
  "key_canonical t \<longleftrightarrow> endpoint_key_parse t = Ok (EndpointKey t)"

definition keys_ok :: "db \<Rightarrow> bool" where
  "keys_ok db \<longleftrightarrow>
     distinct (map hr_id (db_hooks db)) \<and>
     distinct (map hr_endpoint_key (db_hooks db)) \<and>
     distinct (map rt_endpoint_key (db_retired db)) \<and>
     set (map hr_endpoint_key (db_hooks db)) \<inter> set (map rt_endpoint_key (db_retired db)) = {} \<and>
     list_all key_canonical (map hr_endpoint_key (db_hooks db))"

definition keys_after :: "db \<Rightarrow> db \<Rightarrow> bool" where
  "keys_after db db' \<longleftrightarrow>
     keys_ok db' \<and>
     set (map rt_endpoint_key (db_retired db)) \<subseteq> set (map rt_endpoint_key (db_retired db')) \<and>
     set (map hr_endpoint_key (db_hooks db)) \<subseteq>
       set (map hr_endpoint_key (db_hooks db')) \<union> set (map rt_endpoint_key (db_retired db')) \<and>
     (\<exists>new. db_audit db' = new @ db_audit db)"

lemma keys_after_refl: "keys_ok db \<Longrightarrow> keys_after db db"
  by (simp add: keys_after_def)

lemma keys_after_same:
  assumes "keys_ok db" and "map hr_id (db_hooks db') = map hr_id (db_hooks db)"
    and "map hr_endpoint_key (db_hooks db') = map hr_endpoint_key (db_hooks db)"
    and "db_retired db' = db_retired db" and "\<exists>new. db_audit db' = new @ db_audit db"
  shows "keys_after db db'"
  using assms unfolding keys_after_def keys_ok_def by (metis subset_refl sup.coboundedI1)

lemma keys_after_trans: "keys_after a b \<Longrightarrow> keys_after b c \<Longrightarrow> keys_after a c"
proof -
  assume ab: "keys_after a b" and bc: "keys_after b c"
  obtain x y where "db_audit b = x @ db_audit a" "db_audit c = y @ db_audit b"
    using ab bc unfolding keys_after_def by blast
  then have "db_audit c = (y @ x) @ db_audit a" by simp
  moreover have "set (map hr_endpoint_key (db_hooks a)) \<subseteq>
      set (map hr_endpoint_key (db_hooks c)) \<union> set (map rt_endpoint_key (db_retired c))"
    using ab bc unfolding keys_after_def by blast
  ultimately show ?thesis
    using ab bc unfolding keys_after_def by blast
qed

lemma keys_after_ok: "keys_after db0 db \<Longrightarrow> keys_ok db"
  by (simp add: keys_after_def)

lemma keys_valid: "endpoint_key_parse (endpoint_key_str k) = Ok k \<Longrightarrow> key_canonical (endpoint_key_str k)"
  by (cases k) (simp add: key_canonical_def)

section \<open>Statements\<close>

lemma reserve_after:
  "reserve_management_key s now db = Ok (res, db') \<Longrightarrow> keys_after db0 db \<Longrightarrow> keys_after db0 db'"
  by (rule keys_after_trans, assumption, rule keys_after_same, erule keys_after_ok)
    (simp_all add: reserve_hooks(1-3))

lemma finish_after:
  "finish_management_key s response db = Ok (u, db') \<Longrightarrow> keys_after db0 db \<Longrightarrow> keys_after db0 db'"
  by (rule keys_after_trans, assumption, rule keys_after_same, erule keys_after_ok)
    (simp_all add: finish_hooks(1-3))

lemma audit_after:
  "insert_audit i action h context at db = Ok (u, db') \<Longrightarrow> keys_after db0 db \<Longrightarrow> keys_after db0 db'"
  by (rule keys_after_trans, assumption, rule keys_after_same, erule keys_after_ok)
    (auto simp: insert_audit_Ok)

lemma update_after:
  assumes "update_hooks P f db = Ok (n, db')" and "keys_after db0 db"
    and "\<And>r. hr_id (f r) = hr_id r" and "\<And>r. hr_endpoint_key (f r) = hr_endpoint_key r"
  shows "keys_after db0 db'"
  using assms(2)
  by (rule keys_after_trans, intro keys_after_same)
    (use assms in \<open>auto simp: update_hooks_Ok dest: keys_after_ok\<close>)

lemma activation_audits_after:
  "insert_activation_audits ids c changed db = Ok (u, db') \<Longrightarrow> keys_after db0 db \<Longrightarrow> keys_after db0 db'"
  by (rule keys_after_trans, assumption, rule keys_after_same, erule keys_after_ok)
    (auto simp: insert_activation_audits_def Let_def split: if_splits)

lemma insert_after:
  assumes "insert_hook dp h d db = Ok (u, db')" and "ensure_endpoint_key_unused (hk_endpoint_key h) db = Ok v"
    and "keys_after db0 db" and "endpoint_key_parse (endpoint_key_str (hk_endpoint_key h)) = Ok (hk_endpoint_key h)"
  shows "keys_after db0 db'"
proof (rule keys_after_trans [OF assms(3)])
  obtain config where db': "db' = db\<lparr>db_hooks := insert_row h d config # db_hooks db\<rparr>"
    and "hook_uuid (hk_id h) \<notin> set (map hr_id (db_hooks db))"
    and "endpoint_key_str (hk_endpoint_key h) \<notin> set (map hr_endpoint_key (db_hooks db))"
    using insert_hook_Ok [OF assms(1)] by blast
  with assms(2) keys_after_ok [OF assms(3)] keys_valid [OF assms(4)] show "keys_after db db'"
    by (auto simp: keys_after_def keys_ok_def ensure_unused_Ok insert_row_def Let_def)
qed

text \<open>Replacing the key of the hook and retiring the old one, together.\<close>

lemma updated_keys:
  assumes "distinct (map hr_id rs)" and "r \<in> set rs" and "rows_affected (\<lambda>q. hr_id q = hr_id r \<and> Q q) rs = 1"
    and "\<And>q. hr_endpoint_key (f q) = k"
  shows "hr_endpoint_key ` set (rows_update (\<lambda>q. hr_id q = hr_id r \<and> Q q) f rs) =
    insert k (hr_endpoint_key ` (set rs - {r}))"
proof -
  let ?P = "\<lambda>q. hr_id q = hr_id r \<and> Q q"
  let ?g = "\<lambda>q. hr_endpoint_key (if ?P q then f q else q)"
  have only: "q = r" if "q \<in> set rs" "hr_id q = hr_id r" for q
    by (rule same_key [OF assms(1) that(1) assms(2) that(2)])
  from assms(3) have "\<exists>q \<in> set rs. ?P q" using rows_affected_pos [of ?P rs] by simp
  then obtain q where q: "q \<in> set rs" "?P q" by (elim bexE)
  have "q = r" by (rule only [OF q(1) conjunct1 [OF q(2)]])
  with q(2) have Pr: "?P r" by (simp only:)
  have "hr_endpoint_key ` set (rows_update ?P f rs) = ?g ` set rs"
    by (simp only: set_rows_update image_image)
  also have "\<dots> = ?g ` (insert r (set rs - {r}))" by (simp only: insert_Diff [OF assms(2)])
  also have "\<dots> = insert (?g r) (?g ` (set rs - {r}))" by (rule image_insert)
  also have "?g ` (set rs - {r}) = hr_endpoint_key ` (set rs - {r})"
  proof (rule image_cong [OF refl])
    fix p assume p: "p \<in> set rs - {r}"
    then have "hr_id p \<noteq> hr_id r" using only by fast
    then show "?g p = hr_endpoint_key p" by simp
  qed
  also have "?g r = k" using Pr assms(4) by simp
  finally show ?thesis .
qed

lemma replace_key_after:
  assumes "update_hooks (\<lambda>r. hr_id r = i \<and> hr_deleted_at r = None)
      (\<lambda>r. r\<lparr>hr_endpoint_key := endpoint_key_str k, hr_endpoint_rotated_at := Some t, hr_updated_at := t\<rparr>) db = Ok (1, db1)"
    and "insert_retired g old j t db1 = Ok (u, db')" and "ensure_endpoint_key_unused k db = Ok v"
    and "find (\<lambda>r. hr_id r = i) (db_hooks db) = Some r" and "endpoint_key_parse (hr_endpoint_key r) = Ok old"
    and "keys_after db0 db" and "endpoint_key_parse (endpoint_key_str k) = Ok k"
  shows "keys_after db0 db'"
proof (rule keys_after_trans [OF assms(6)])
  let ?f = "\<lambda>r. r\<lparr>hr_endpoint_key := endpoint_key_str k, hr_endpoint_rotated_at := Some t, hr_updated_at := t\<rparr>"
  let ?P = "\<lambda>q. hr_id q = hr_id r \<and> hr_deleted_at q = None"
  let ?K = "hr_endpoint_key ` set (db_hooks db)" and ?R = "rt_endpoint_key ` set (db_retired db)"
  let ?K' = "hr_endpoint_key ` set (db_hooks db1)"
  note ok = keys_after_ok [OF assms(6), unfolded keys_ok_def set_map list.pred_map comp_def]
  have r: "r \<in> set (db_hooks db)" "i = hr_id r" using find_SomeD [OF assms(4)] by simp_all
  have rows: "db_hooks db1 = rows_update ?P ?f (db_hooks db)" and one: "rows_affected ?P (db_hooks db) = 1"
    and db1: "db_retired db1 = db_retired db" "db_audit db1 = db_audit db"
    and dist: "distinct (map hr_endpoint_key (rows_update ?P ?f (db_hooks db)))"
    using assms(1) by (auto simp: update_hooks_Ok r(2))
  have K': "?K' = insert (endpoint_key_str k) (hr_endpoint_key ` (set (db_hooks db) - {r}))"
    unfolding rows by (rule updated_keys [OF conjunct1 [OF ok] r(1) one]) simp
  have canonical: "\<forall>x \<in> set (db_hooks db). key_canonical (hr_endpoint_key x)" using ok by (simp add: list_all_iff)
  then have "key_canonical (hr_endpoint_key r)" using r(1) by (rule bspec)
  then have old: "endpoint_key_str old = hr_endpoint_key r" using assms(5) by (auto simp: key_canonical_def)
  have unused: "endpoint_key_str k \<notin> ?K" "endpoint_key_str k \<notin> ?R"
    using assms(3) by (auto simp: ensure_unused_Ok)
  have inj: "inj_on hr_endpoint_key (set (db_hooks db))" using ok by (simp add: distinct_map)
  have minus: "hr_endpoint_key ` (set (db_hooks db) - {r}) = ?K - {hr_endpoint_key r}"
    using inj_on_image_set_diff [OF inj, of "set (db_hooks db)" "{r}"] r(1) by simp
  have K'': "?K' = insert (endpoint_key_str k) (?K - {hr_endpoint_key r})" using K' unfolding minus .
  have inK: "hr_endpoint_key r \<in> ?K" using r(1) by (rule imageI)
  have db': "db_hooks db' = db_hooks db1" "db_audit db' = db_audit db"
    "map rt_endpoint_key (db_retired db') = hr_endpoint_key r # map rt_endpoint_key (db_retired db)"
    and fresh: "hr_endpoint_key r \<notin> ?R"
    using assms(2) by (auto simp: insert_retired_Ok db1 old)
  have R': "rt_endpoint_key ` set (db_retired db') = insert (hr_endpoint_key r) ?R"
    using arg_cong [OF db'(3), of set] by simp
  have "distinct (map hr_id (db_hooks db1))" using ok by (simp add: rows)
  moreover have "distinct (map hr_endpoint_key (db_hooks db1))" using dist by (simp only: rows)
  moreover have "distinct (hr_endpoint_key r # map rt_endpoint_key (db_retired db))" using fresh ok by simp
  moreover have "?K' \<inter> insert (hr_endpoint_key r) ?R = {}"
  proof -
    have "?K \<inter> ?R = {}" using ok by (elim conjE)
    moreover have "endpoint_key_str k \<noteq> hr_endpoint_key r" using unused(1) inK by metis
    ultimately show ?thesis unfolding K'' using unused(2) by blast
  qed
  moreover have "list_all key_canonical (map hr_endpoint_key (db_hooks db1))"
  proof -
    have "\<forall>x \<in> ?K'. key_canonical x"
      unfolding K' using canonical keys_valid [OF assms(7)] by blast
    then show ?thesis by (simp add: list_all_iff)
  qed
  ultimately have "keys_ok db'" unfolding keys_ok_def db'(1,3) set_map R' by simp
  moreover have "?K \<subseteq> ?K' \<union> insert (hr_endpoint_key r) ?R" unfolding K'' by blast
  moreover have "?R \<subseteq> insert (hr_endpoint_key r) ?R" by (rule subset_insertI)
  ultimately show "keys_after db db'"
    unfolding keys_after_def db'(1,2) set_map R' by simp
qed

section \<open>Operations\<close>

lemma delete_keys: "delete_hook dp a c db = Ok (g, db') \<Longrightarrow> keys_after db0 db \<Longrightarrow> keys_after db0 db'"
  by (clarsimp simp: delete_hook_def result_simps) (auto dest!: update_after audit_after)

lemma update_keys: "update_hook dp a c db = Ok (g, db') \<Longrightarrow> keys_after db0 db \<Longrightarrow> keys_after db0 db'"
  by (clarsimp simp: update_hook_def result_simps) (auto dest!: update_after audit_after)

lemma restore_keys: "restore_hook dp a c db = Ok (out, db') \<Longrightarrow> keys_after db0 db \<Longrightarrow> keys_after db0 db'"
  by (erule restore_hookE) (auto dest!: reserve_after update_after audit_after finish_after)

lemma rotate_secret_keys:
  "rotate_hook_secret dp a c db = Ok (out, db') \<Longrightarrow> keys_after db0 db \<Longrightarrow> keys_after db0 db'"
  by (erule rotate_hook_secretE) (auto dest!: reserve_after update_after audit_after finish_after)

lemma create_keys:
  assumes "create_hook dp a c db = Ok (out, db')" and "keys_after db0 db"
    and "endpoint_key_parse (endpoint_key_str (hk_endpoint_key (ch_hook c))) = Ok (hk_endpoint_key (ch_hook c))"
  shows "keys_after db0 db'"
  using assms(1)
proof (cases rule: create_hookE)
  case (fresh su db1 db2 db3)
  from reserve_after [OF fresh(3) assms(2)] have "keys_after db0 db1" .
  from insert_after [OF fresh(6,5) this assms(3)] have "keys_after db0 db2" .
  with fresh(7,8) show ?thesis by (blast intro: audit_after finish_after)
qed (use assms(2) in \<open>blast intro: reserve_after\<close>)

lemma rotate_endpoint_keys:
  assumes "rotate_hook_endpoint dp a c db = Ok (out, db')" and "keys_after db0 db"
    and "endpoint_key_parse (endpoint_key_str (re_replacement c)) = Ok (re_replacement c)"
  shows "keys_after db0 db'"
  using assms(1)
proof (cases rule: rotate_hook_endpointE)
  case (fresh h g db1 db2 db3 db4)
  from reserve_after [OF fresh(1) assms(2)] have after: "keys_after db0 db1" .
  obtain r where r: "find (row_owned (re_silicon_uuid c) (re_hook_id c)) (db_hooks db1) = Some r"
    and h: "hook_of_row dp r = Ok h"
    using fresh(2) by (auto simp: select_Ok)
  have "ids_ok db1" using keys_after_ok [OF after] by (simp add: keys_ok_def ids_ok_def)
  note found = owned_is_found(1) [OF this r]
  have "endpoint_key_parse (hr_endpoint_key r) = Ok (hk_endpoint_key h)" using h by (simp add: hook_of_row_Ok)
  from replace_key_after [OF fresh(5,6,3) found this after assms(3)] have "keys_after db0 db3" .
  with fresh(7,8) show ?thesis by (blast intro: audit_after finish_after)
qed (use assms(2) in \<open>blast intro: reserve_after\<close>)

lemma activation_keys:
  "set_hooks_enabled dp ids c db = Ok (gs, db') \<Longrightarrow> keys_after db0 db \<Longrightarrow> keys_after db0 db'"
  by (clarsimp simp: set_hooks_enabled_def update_hook_activation_def result_simps split: if_split_asm)
    (auto dest!: update_after activation_audits_after)

end
