(* ===== verification/Outbox.thy ===== *)
theory Outbox
  imports HookStore
begin

text \<open>
  Queued Ting sends (\<open>infrastructure/postgres/ting.rs\<close>), the body prepared for a send
  (\<open>delivery/mod.rs\<close>) and the subscriptions of observers (\<open>delivery/subscriptions.rs\<close>). A statement
  reads the database clock once. The derived parser of a prepared body, the RFC 3339 text of an
  instant and the \<open>jsonb\<close> reading of a stored body are crates; an instant of the service's clock has
  an RFC 3339 text. The organization column of the table is not read any more: the unique index on
  the key of a send is taken over all rows, and keys name their event.
\<close>

section \<open>Prepared requests\<close>

datatype ting_delivery_mode = Ordinary | Required

record ting_recipient =
  tr_uuid :: ustring
  tr_id :: "ustring option"

record prepared_ting =
  pt_recipient :: ting_recipient
  pt_type :: ustring
  pt_key :: ustring
  pt_data :: json
  pt_metadata :: json
  pt_delivery :: ting_delivery_mode

record ting_crates =
  tg_rfc3339 :: "instant \<Rightarrow> ustring"
  tg_prepared_parse :: "bytes \<Rightarrow> prepared_ting option"
  tg_jsonb :: "bytes \<Rightarrow> json option"

definition max_ting_send_bytes :: nat where
  "max_ting_send_bytes = 256 * 1024"

definition event_type_suffix :: ustring where
  "event_type_suffix = lit ''.webhook.received''"

record referenced_silicon =
  rf_uuid :: ustring
  rf_id :: "ustring option"

record event_reference =
  ef_id :: event_id
  ef_silicon :: referenced_silicon
  ef_hook_id :: hook_id
  ef_delivery_sequence :: int
  ef_received_at :: instant
  ef_summary :: ustring

definition show_int :: "int \<Rightarrow> ustring" where
  "show_int n = (if n < 0 then 45 # show_nat (nat (- n)) else show_nat (nat n))"

definition json_members :: "(ustring \<times> json) list \<Rightarrow> json" where
  "json_members ms = JObject (foldl (\<lambda>m (k, v). btree_insert k v m) [] ms)"

definition optional_member :: "string \<Rightarrow> ustring option \<Rightarrow> (ustring \<times> json) list" where
  "optional_member k v = (case v of None \<Rightarrow> [] | Some t \<Rightarrow> [(lit k, JString t)])"

definition silicon_json :: "referenced_silicon \<Rightarrow> json" where
  "silicon_json s = json_members ((lit ''uuid'', JString (rf_uuid s)) # optional_member ''id'' (rf_id s))"

definition recipient_json :: "ting_recipient \<Rightarrow> json" where
  "recipient_json r = json_members ((lit ''uuid'', JString (tr_uuid r)) # optional_member ''id'' (tr_id r))"

definition reference_json :: "uuid_crate \<Rightarrow> ting_crates \<Rightarrow> event_reference \<Rightarrow> json" where
  "reference_json uc tg r = json_members
     [(lit ''id'', JString (uc_hyphenated uc (event_uuid (ef_id r)))),
      (lit ''silicon'', silicon_json (ef_silicon r)),
      (lit ''hook_id'', JString (uc_hyphenated uc (hook_uuid (ef_hook_id r)))),
      (lit ''delivery_sequence'', JNumber (show_int (ef_delivery_sequence r))),
      (lit ''received_at'', JString (tg_rfc3339 tg (ef_received_at r))),
      (lit ''summary'', JString (ef_summary r))]"

definition event_reference_of :: "'u event_record \<Rightarrow> referenced_silicon \<Rightarrow> event_reference" where
  "event_reference_of e s =
     \<lparr>ef_id = ev_id e, ef_silicon = s, ef_hook_id = ev_hook_id e,
      ef_delivery_sequence = sequence_get (ev_sequence e), ef_received_at = ev_received_at e,
      ef_summary = ev_summary e\<rparr>"

definition producer_key :: "('u, 'k, 'z) deps \<Rightarrow> event_id \<Rightarrow> ting_recipient \<Rightarrow> ustring" where
  "producer_key dp i recipient =
     lit ''hook:'' @ uc_hyphenated (dp_uuid dp) (event_uuid i) @ lit '':'' @
     cr_hex_encode (dp_crates dp) (cr_digest (dp_crates dp) HashSha256 (utf8 (tr_uuid recipient)))"

definition prepared_json ::
  "('u, 'k, 'z) deps \<Rightarrow> ting_crates \<Rightarrow> ustring \<Rightarrow> 'v event_record \<Rightarrow> referenced_silicon \<Rightarrow> ting_recipient \<Rightarrow>
    ting_delivery_mode \<Rightarrow> json" where
  "prepared_json dp tg app_id e s recipient mode = json_members
     ([(lit ''type'', JString (app_id @ event_type_suffix)),
       (lit ''for'', recipient_json recipient),
       (lit ''key'', JString (producer_key dp (ev_id e) recipient)),
       (lit ''data'', json_members
          [(lit ''type'', JString (lit ''new_event'')),
           (lit ''data'', json_members
              [(lit ''sender'', JString (hook_name_str (ev_provider e))),
               (lit ''metadata'', reference_json (dp_uuid dp) tg (event_reference_of e s))])]),
       (lit ''metadata'', JObject [])] @
      (if mode = Required then [(lit ''delivery'', JString (lit ''required''))] else []))"

definition prepare_event ::
  "('u, 'k, 'z) deps \<Rightarrow> ting_crates \<Rightarrow> ustring \<Rightarrow> 'v event_record \<Rightarrow> referenced_silicon \<Rightarrow> ting_recipient \<Rightarrow>
    ting_delivery_mode \<Rightarrow> bytes option" where
  "prepare_event dp tg app_id e s recipient mode =
     cr_json_vec (dp_crates dp) (prepared_json dp tg app_id e s recipient mode)"

fun is_object :: "json \<Rightarrow> bool" where
  "is_object (JObject _) = True"
| "is_object _ = False"

definition invalid_body :: store_error where
  "invalid_body = InvalidArgument ''prepared_body'' ''must be a Ting request addressed to the queued recipient''"

definition prepared_key :: "ting_crates \<Rightarrow> bytes \<Rightarrow> account_uuid \<Rightarrow> (ustring, store_error) result" where
  "prepared_key tg body recipient =
     (if body = [] \<or> max_ting_send_bytes < length body then Err invalid_body
      else
        and_then (ok_or invalid_body (tg_prepared_parse tg body)) (\<lambda>request.
          if tr_uuid (pt_recipient request) \<noteq> account_uuid_str recipient \<or> pt_key request = [] \<or>
             200 < str_len (pt_key request) \<or> list_ex is_control (pt_key request) \<or>
             pt_type request = [] \<or> 255 < str_len (pt_type request) \<or>
             \<not> is_object (pt_data request) \<or> \<not> is_object (pt_metadata request)
          then Err invalid_body else Ok (pt_key request)))"

definition valid_identifier :: "ustring \<Rightarrow> nat \<Rightarrow> bool" where
  "valid_identifier v max_bytes \<longleftrightarrow>
     v \<noteq> [] \<and> str_len v \<le> max_bytes \<and> list_all (\<lambda>b. is_ascii_graphic (unat b)) (utf8 v)"

section \<open>Queueing\<close>

definition foreign_key_violation :: "string \<Rightarrow> store_error" where
  "foreign_key_violation constraint = Database (SqlxDatabase (Some ''23503'') (Some constraint))"

definition same_send :: "uuid \<Rightarrow> ustring \<Rightarrow> outbox_row \<Rightarrow> bool" where
  "same_send event recipient r \<longleftrightarrow> ox_event_id r = event \<and> ox_recipient_id r = recipient"

definition send_row ::
  "uuid \<Rightarrow> instant \<Rightarrow> event_row \<Rightarrow> ustring \<Rightarrow> ustring \<Rightarrow> bytes \<Rightarrow> uuid option \<Rightarrow> outbox_row" where
  "send_row new_id clock event recipient key body subscription =
     \<lparr>ox_id = new_id, ox_event_id = er_id event, ox_silicon_id = er_silicon_id event,
      ox_recipient_id = recipient, ox_idempotency_key = key, ox_request_body = body, ox_attempts = 0,
      ox_created_at = clock, ox_next_attempt_at = clock, ox_last_attempt_at = None,
      ox_last_error_code = None, ox_lease_id = None, ox_lease_until = None, ox_accepted_at = None,
      ox_ting_id = None, ox_silent = None, ox_expires_at = er_expires_at event,
      ox_observer_subscription_id = subscription\<rparr>"

text \<open>The insertion of a send: its identifier, or nothing when the send is queued already.\<close>

definition insert_send :: "outbox_row \<Rightarrow> db \<Rightarrow> (uuid option \<times> db, store_error) result" where
  "insert_send row db =
     (if list_ex (same_send (ox_event_id row) (ox_recipient_id row)) (db_outbox db) then Ok (None, db)
      else if ox_id row \<in> set (map ox_id (db_outbox db)) then Err (unique_violation ''ting_outbox_pkey'')
      else if ox_idempotency_key row \<in> set (map ox_idempotency_key (db_outbox db))
        then Err (unique_violation ''ting_outbox_key_unique'')
      else if (case ox_observer_subscription_id row of
                 None \<Rightarrow> False | Some s \<Rightarrow> s \<notin> set (map ob_id (db_observers db)))
        then Err (foreign_key_violation ''ting_outbox_observer_subscription_id_fkey'')
      else Ok (Some (ox_id row), db\<lparr>db_outbox := row # db_outbox db\<rparr>))"

definition enqueue_ting ::
  "ting_crates \<Rightarrow> uuid \<Rightarrow> instant \<Rightarrow> 'u event_record \<Rightarrow> account_uuid \<Rightarrow> bytes \<Rightarrow> uuid option \<Rightarrow> db \<Rightarrow>
    (uuid \<times> db, store_error) result" where
  "enqueue_ting tg new_id clock e recipient body subscription db =
     and_then (prepared_key tg body recipient) (\<lambda>key.
     and_then
       (case find (\<lambda>r. er_id r = event_uuid (ev_id e) \<and> clock < er_expires_at r) (db_events db) of
          None \<Rightarrow> Ok (None, db)
        | Some event \<Rightarrow>
            insert_send (send_row new_id clock event (account_uuid_str recipient) key body subscription) db)
       (\<lambda>(inserted, db).
       case inserted of
         Some i \<Rightarrow> Ok (i, db)
       | None \<Rightarrow>
           (case find (\<lambda>r. same_send (event_uuid (ev_id e)) (account_uuid_str recipient) r \<and>
                    clock < ox_expires_at r) (db_outbox db) of
              None \<Rightarrow> Err (NotFound ''event'')
            | Some existing \<Rightarrow>
                if ox_request_body existing = body \<and> ox_observer_subscription_id existing = subscription
                then Ok (ox_id existing, db)
                else Err IdempotencyConflict)))"

section \<open>Leases\<close>

record ting_claim =
  tc_id :: uuid
  tc_event_id :: uuid
  tc_recipient_id :: ustring
  tc_observer_subscription_id :: "uuid option"
  tc_idempotency_key :: ustring
  tc_request_body :: bytes
  tc_attempts :: int
  tc_lease_id :: uuid
  tc_lease_until :: instant
  tc_expires_at :: instant

definition seconds :: "int \<Rightarrow> int" where
  "seconds n = n * 1000000000"

definition due_send :: "instant \<Rightarrow> outbox_row \<Rightarrow> bool" where
  "due_send clock r \<longleftrightarrow>
     ox_accepted_at r = None \<and> clock < ox_expires_at r \<and> ox_next_attempt_at r \<le> clock \<and>
     ox_last_error_code r \<noteq> Some (lit ''legacy_identity'') \<and>
     (case ox_lease_until r of None \<Rightarrow> True | Some until \<Rightarrow> until \<le> clock)"

definition due_sends :: "nat \<Rightarrow> instant \<Rightarrow> db \<Rightarrow> outbox_row list" where
  "due_sends limit clock db =
     take limit (sort_key (\<lambda>r. (ox_next_attempt_at r, ox_created_at r, ox_id r))
       (filter (due_send clock) (db_outbox db)))"

definition lease_row :: "(uuid \<Rightarrow> uuid) \<Rightarrow> int \<Rightarrow> instant \<Rightarrow> outbox_row \<Rightarrow> outbox_row" where
  "lease_row new_lease lease_seconds clock r =
     r\<lparr>ox_lease_id := Some (new_lease (ox_id r)),
       ox_lease_until := Some (min (ox_expires_at r) (clock + seconds lease_seconds)),
       ox_attempts := ox_attempts r + 1, ox_last_attempt_at := Some clock\<rparr>"

definition claim_of_row :: "outbox_row \<Rightarrow> ting_claim" where
  "claim_of_row r =
     \<lparr>tc_id = ox_id r, tc_event_id = ox_event_id r, tc_recipient_id = ox_recipient_id r,
      tc_observer_subscription_id = ox_observer_subscription_id r,
      tc_idempotency_key = ox_idempotency_key r, tc_request_body = ox_request_body r,
      tc_attempts = ox_attempts r, tc_lease_id = the (ox_lease_id r),
      tc_lease_until = the (ox_lease_until r), tc_expires_at = ox_expires_at r\<rparr>"

text \<open>The duration of a lease is given in nanoseconds, as the clock is.\<close>

definition claim_ting ::
  "(uuid \<Rightarrow> uuid) \<Rightarrow> nat \<Rightarrow> nat \<Rightarrow> instant \<Rightarrow> db \<Rightarrow> (ting_claim list \<times> db, store_error) result" where
  "claim_ting new_lease limit lease_duration clock db =
     (if \<not> (1 \<le> limit \<and> limit \<le> 100) then Err (InvalidArgument ''limit'' ''must be between 1 and 100'')
      else if \<not> (seconds 1 \<le> int lease_duration \<and> int lease_duration \<le> seconds 3600)
        then Err (InvalidArgument ''lease_duration'' ''must be between one second and one hour'')
      else
        (let lease_seconds = int lease_duration div seconds 1;
             due = due_sends limit clock db;
             lease = lease_row new_lease lease_seconds clock in
         Ok (map (\<lambda>r. claim_of_row (lease r)) due,
             db\<lparr>db_outbox := rows_update (\<lambda>r. ox_id r \<in> set (map ox_id due)) lease (db_outbox db)\<rparr>)))"

definition current_lease :: "ting_claim \<Rightarrow> instant \<Rightarrow> outbox_row \<Rightarrow> bool" where
  "current_lease c clock r \<longleftrightarrow>
     ox_id r = tc_id c \<and> ox_lease_id r = Some (tc_lease_id c) \<and> ox_accepted_at r = None \<and>
     (case ox_lease_until r of None \<Rightarrow> False | Some until \<Rightarrow> clock < until) \<and> clock < ox_expires_at r"

definition ting_claim_is_current :: "ting_claim \<Rightarrow> instant \<Rightarrow> db \<Rightarrow> bool" where
  "ting_claim_is_current c clock db \<longleftrightarrow> list_ex (current_lease c clock) (db_outbox db)"

definition accept_row :: "ustring \<Rightarrow> bool \<Rightarrow> instant \<Rightarrow> outbox_row \<Rightarrow> outbox_row" where
  "accept_row ting_id silent clock r =
     r\<lparr>ox_accepted_at := Some clock, ox_ting_id := Some ting_id, ox_silent := Some silent,
       ox_lease_id := None, ox_lease_until := None, ox_last_error_code := None\<rparr>"

definition complete_ting ::
  "ting_claim \<Rightarrow> ustring \<Rightarrow> bool \<Rightarrow> instant \<Rightarrow> db \<Rightarrow> (bool \<times> db, store_error) result" where
  "complete_ting c ting_id silent clock db =
     (if \<not> valid_identifier ting_id 255
      then Err (InvalidArgument ''ting_id'' ''must be a nonempty identifier of at most 255 bytes'')
      else Ok (rows_affected (current_lease c clock) (db_outbox db) = 1,
             db\<lparr>db_outbox := rows_update (current_lease c clock) (accept_row ting_id silent clock) (db_outbox db)\<rparr>))"

datatype ting_send_failure =
    ProofUnavailable
  | ConsentRequired
  | RecipientNotRegistered
  | RequiredDeliveryNotEnabled
  | TransportUnavailable
  | RateLimited
  | TingUnavailable
  | RequestRejected
  | InvalidResponse
  | TingUnauthorized
  | TypeNotRegistered
  | SendIdempotencyConflict

fun send_failure_as_str :: "ting_send_failure \<Rightarrow> string" where
  "send_failure_as_str ProofUnavailable = ''proof_unavailable''"
| "send_failure_as_str ConsentRequired = ''consent_required''"
| "send_failure_as_str RecipientNotRegistered = ''recipient_not_registered''"
| "send_failure_as_str RequiredDeliveryNotEnabled = ''required_delivery_not_enabled''"
| "send_failure_as_str TransportUnavailable = ''transport_unavailable''"
| "send_failure_as_str RateLimited = ''rate_limited''"
| "send_failure_as_str TingUnavailable = ''ting_unavailable''"
| "send_failure_as_str RequestRejected = ''request_rejected''"
| "send_failure_as_str InvalidResponse = ''invalid_response''"
| "send_failure_as_str TingUnauthorized = ''ting_unauthorized''"
| "send_failure_as_str TypeNotRegistered = ''type_not_registered''"
| "send_failure_as_str SendIdempotencyConflict = ''idempotency_conflict''"

text \<open>The codes the check constraint of the table accepts.\<close>

definition safe_error_codes :: "string list" where
  "safe_error_codes =
     [''authorization_unavailable'', ''consent_required'', ''recipient_not_registered'',
      ''required_delivery_not_enabled'', ''transport_unavailable'', ''rate_limited'', ''ting_unavailable'',
      ''request_rejected'', ''invalid_response'', ''publisher_not_configured'', ''publisher_unavailable'',
      ''publisher_unauthorized'', ''ting_unauthorized'', ''type_not_registered'', ''idempotency_conflict'',
      ''environment_changed'', ''observer_authority_refresh_required'', ''observer_authorization_unavailable'',
      ''legacy_identity'', ''proof_unavailable'']"

definition retry_row :: "ting_send_failure \<Rightarrow> instant \<Rightarrow> instant \<Rightarrow> outbox_row \<Rightarrow> outbox_row" where
  "retry_row failure retry_at clock r =
     r\<lparr>ox_next_attempt_at := min (ox_expires_at r) (max clock retry_at),
       ox_last_error_code := Some (lit (send_failure_as_str failure)), ox_lease_id := None, ox_lease_until := None\<rparr>"

definition retry_ting ::
  "ting_claim \<Rightarrow> ting_send_failure \<Rightarrow> instant \<Rightarrow> instant \<Rightarrow> db \<Rightarrow> (bool \<times> db, store_error) result" where
  "retry_ting c failure retry_at clock db =
     (if rows_affected (current_lease c clock) (db_outbox db) \<noteq> 0 \<and>
         send_failure_as_str failure \<notin> set safe_error_codes
      then Err (check_violation ''ting_outbox_error_safe'')
      else Ok (rows_affected (current_lease c clock) (db_outbox db) = 1,
             db\<lparr>db_outbox := rows_update (current_lease c clock) (retry_row failure retry_at clock) (db_outbox db)\<rparr>))"

record ting_status =
  ts_id :: uuid
  ts_event_id :: uuid
  ts_recipient_id :: ustring
  ts_attempts :: int
  ts_created_at :: instant
  ts_next_attempt_at :: instant
  ts_last_attempt_at :: "instant option"
  ts_last_error_code :: "ustring option"
  ts_lease_until :: "instant option"
  ts_accepted_at :: "instant option"
  ts_ting_id :: "ustring option"
  ts_silent :: "bool option"
  ts_delivery :: ting_delivery_mode
  ts_expires_at :: instant

definition delivery_mode_parse :: "ustring \<Rightarrow> ting_delivery_mode option" where
  "delivery_mode_parse v =
     (if v = lit ''ordinary'' then Some Ordinary else if v = lit ''required'' then Some Required else None)"

text \<open>
  The member \<open>delivery\<close> of the stored body as text, \<open>ordinary\<close> where it is absent or \<open>null\<close>;
  another JSON value than a string has a text that names no mode.
\<close>

definition stored_delivery :: "ting_crates \<Rightarrow> outbox_row \<Rightarrow> (ting_delivery_mode, store_error) result" where
  "stored_delivery tg r =
     (case tg_jsonb tg (ox_request_body r) of
        None \<Rightarrow> Err (Database (SqlxDatabase (Some ''22P02'') None))
      | Some (JObject ms) \<Rightarrow>
          (case map_of ms (lit ''delivery'') of
             None \<Rightarrow> Ok Ordinary
           | Some JNull \<Rightarrow> Ok Ordinary
           | Some (JString t) \<Rightarrow> ok_or (Database SqlxOther) (delivery_mode_parse t)
           | Some _ \<Rightarrow> Err (Database SqlxOther))
      | Some _ \<Rightarrow> Ok Ordinary)"

definition ting_status ::
  "ting_crates \<Rightarrow> account_uuid \<Rightarrow> event_id \<Rightarrow> ustring \<Rightarrow> instant \<Rightarrow> db \<Rightarrow> (ting_status option, store_error) result" where
  "ting_status tg silicon i recipient clock db =
     (case find (\<lambda>r. ox_event_id r = event_uuid i \<and> ox_recipient_id r = recipient \<and> clock < ox_expires_at r \<and>
              list_ex (\<lambda>e. er_id e = ox_event_id r \<and> er_silicon_uuid e = Some (account_uuid_str silicon)) (db_events db))
            (db_outbox db) of
        None \<Rightarrow> Ok None
      | Some r \<Rightarrow>
          map_ok (\<lambda>mode. Some
            \<lparr>ts_id = ox_id r, ts_event_id = ox_event_id r, ts_recipient_id = ox_recipient_id r,
             ts_attempts = ox_attempts r, ts_created_at = ox_created_at r,
             ts_next_attempt_at = ox_next_attempt_at r, ts_last_attempt_at = ox_last_attempt_at r,
             ts_last_error_code = ox_last_error_code r, ts_lease_until = ox_lease_until r,
             ts_accepted_at = ox_accepted_at r, ts_ting_id = ox_ting_id r, ts_silent = ox_silent r,
             ts_delivery = mode, ts_expires_at = ox_expires_at r\<rparr>) (stored_delivery tg r))"

section \<open>Observers\<close>

definition max_observers_per_silicon :: nat where
  "max_observers_per_silicon = 100"

datatype subscription_error = LimitReached | SubscriptionStore store_error

definition subscription_of :: "account_uuid \<Rightarrow> account_uuid \<Rightarrow> observer_row \<Rightarrow> bool" where
  "subscription_of silicon recipient r \<longleftrightarrow>
     ob_silicon_uuid r = account_uuid_str silicon \<and> ob_recipient_uuid r = account_uuid_str recipient"

definition get_subscription :: "account_uuid \<Rightarrow> account_uuid \<Rightarrow> db \<Rightarrow> observer_row option" where
  "get_subscription silicon recipient db = find (subscription_of silicon recipient) (db_observers db)"

definition subscribe ::
  "uuid \<Rightarrow> instant \<Rightarrow> account_uuid \<Rightarrow> account_uuid \<Rightarrow> db \<Rightarrow> (observer_row \<times> db, subscription_error) result" where
  "subscribe new_id clock silicon recipient db =
     (case find (subscription_of silicon recipient) (db_observers db) of
        Some existing \<Rightarrow> Ok (existing, db)
      | None \<Rightarrow>
          if max_observers_per_silicon \<le>
             rows_affected (\<lambda>r. ob_silicon_uuid r = account_uuid_str silicon) (db_observers db)
          then Err LimitReached
          else if new_id \<in> set (map ob_id (db_observers db))
            then Err (SubscriptionStore (unique_violation ''observer_subscriptions_pkey''))
          else if silicon = recipient
            then Err (SubscriptionStore (check_violation ''observer_subscriptions_not_self''))
          else
            (let row = \<lparr>ob_id = new_id, ob_silicon_uuid = account_uuid_str silicon,
                 ob_recipient_uuid = account_uuid_str recipient, ob_created_at = clock\<rparr> in
             Ok (row, db\<lparr>db_observers := row # db_observers db\<rparr>)))"

text \<open>Removing observers removes the sends queued for them.\<close>

definition delete_observers :: "(observer_row \<Rightarrow> bool) \<Rightarrow> db \<Rightarrow> db" where
  "delete_observers P db =
     (let gone = map ob_id (filter P (db_observers db)) in
      db\<lparr>db_observers := filter (\<lambda>r. \<not> P r) (db_observers db),
         db_outbox := filter (\<lambda>r. case ox_observer_subscription_id r of None \<Rightarrow> True | Some s \<Rightarrow> s \<notin> set gone)
           (db_outbox db)\<rparr>)"

definition unsubscribe :: "account_uuid \<Rightarrow> account_uuid \<Rightarrow> db \<Rightarrow> bool \<times> db" where
  "unsubscribe silicon recipient db =
     (rows_affected (subscription_of silicon recipient) (db_observers db) = 1,
      delete_observers (subscription_of silicon recipient) db)"

definition may_observe :: "account_uuid \<Rightarrow> observer_row \<Rightarrow> db \<Rightarrow> bool" where
  "may_observe silicon r db \<longleftrightarrow>
     ob_silicon_uuid r = account_uuid_str silicon \<and>
     \<not> list_ex (\<lambda>a. ac_uuid a = ob_recipient_uuid r \<and> ac_deleted_at a \<noteq> None) (db_accounts db) \<and>
     (list_ex (\<lambda>g. gr_silicon_uuid g = ob_silicon_uuid r \<and> gr_grantee_uuid g = ob_recipient_uuid r) (db_grants db) \<or>
      list_ex (\<lambda>a. ac_uuid a = ob_silicon_uuid r \<and> ac_custodian_uuid a = Some (ob_recipient_uuid r)) (db_accounts db))"

definition public_id_of :: "ustring \<Rightarrow> db \<Rightarrow> ustring option" where
  "public_id_of u db = (case find (\<lambda>a. ac_uuid a = u) (db_accounts db) of None \<Rightarrow> None | Some a \<Rightarrow> ac_public_id a)"

definition observers_of :: "account_uuid \<Rightarrow> db \<Rightarrow> observer_row list" where
  "observers_of silicon db =
     take (max_observers_per_silicon + 1)
       (sort_key ob_id (filter (\<lambda>r. may_observe silicon r db) (db_observers db)))"

definition enqueue_observer ::
  "('u, 'k, 'z) deps \<Rightarrow> ting_crates \<Rightarrow> (uuid \<Rightarrow> uuid) \<Rightarrow> instant \<Rightarrow> 'v event_record \<Rightarrow> referenced_silicon \<Rightarrow> ustring \<Rightarrow>
    observer_row \<Rightarrow> db \<Rightarrow> (db, store_error) result" where
  "enqueue_observer dp tg new_id clock e s app_id r db =
     and_then (map_err (corrupt ''observer_subscriptions'') (account_uuid_new (dp_uuid dp) (ob_recipient_uuid r))) (\<lambda>recipient.
     and_then (ok_or (CorruptData ''ting_outbox'' CauseJson)
        (prepare_event dp tg app_id e s
          \<lparr>tr_uuid = ob_recipient_uuid r, tr_id = public_id_of (ob_recipient_uuid r) db\<rparr> Ordinary)) (\<lambda>body.
       map_ok snd (enqueue_ting tg (new_id (ob_id r)) clock e recipient body (Some (ob_id r)) db)))"

fun enqueue_all ::
  "('u, 'k, 'z) deps \<Rightarrow> ting_crates \<Rightarrow> (uuid \<Rightarrow> uuid) \<Rightarrow> instant \<Rightarrow> 'v event_record \<Rightarrow> referenced_silicon \<Rightarrow> ustring \<Rightarrow>
    observer_row list \<Rightarrow> db \<Rightarrow> (db, store_error) result" where
  "enqueue_all dp tg new_id clock e s app_id [] db = Ok db"
| "enqueue_all dp tg new_id clock e s app_id (r # rs) db =
     and_then (enqueue_observer dp tg new_id clock e s app_id r db)
       (enqueue_all dp tg new_id clock e s app_id rs)"

definition enqueue_observers ::
  "('u, 'k, 'z) deps \<Rightarrow> ting_crates \<Rightarrow> (uuid \<Rightarrow> uuid) \<Rightarrow> instant \<Rightarrow> 'v event_record \<Rightarrow> account_uuid \<Rightarrow>
    referenced_silicon \<Rightarrow> ustring \<Rightarrow> db \<Rightarrow> (db, store_error) result" where
  "enqueue_observers dp tg new_id clock e silicon s app_id db =
     (let observers = observers_of silicon db in
      if max_observers_per_silicon < length observers
      then Err (CorruptData ''observer_subscriptions'' (CauseText ''observer limit exceeded''))
      else enqueue_all dp tg new_id clock e s app_id observers db)"

end
