(* ===== verification/EventStore.thy ===== *)
theory EventStore
  imports Outbox
begin

text \<open>
  The logs of verified and blocked requests (\<open>infrastructure/postgres/events.rs\<close>), the abuse
  counters (\<open>safety.rs\<close>) and retention (\<open>maintenance.rs\<close>, \<open>worker/maintenance.rs\<close>). The check
  constraints on the columns of a captured request are part of an insertion, because capturing does
  not bound every column: a request can be captured and still not be stored.
\<close>

section \<open>Appending\<close>

record accept_event_command =
  av_delivery :: "ustring option"
  av_event :: event_id
  av_hook :: hook

record record_blocked_command =
  rb_id :: blocked_request_id
  rb_hook :: hook
  rb_reason :: block_reason

definition greatest :: "instant option \<Rightarrow> instant \<Rightarrow> instant" where
  "greatest old t = (case old of None \<Rightarrow> t | Some u \<Rightarrow> max u t)"

definition serving_row :: "uuid \<Rightarrow> hook_row \<Rightarrow> bool" where
  "serving_row i r \<longleftrightarrow> hr_id r = i \<and> hr_disabled_at r = None \<and> hr_deleted_at r = None"

definition touch_received :: "instant \<Rightarrow> hook_row \<Rightarrow> hook_row" where
  "touch_received t r =
     r\<lparr>hr_last_received_at := Some (greatest (hr_last_received_at r) t), hr_updated_at := max (hr_updated_at r) t\<rparr>"

definition touch_blocked :: "instant \<Rightarrow> hook_row \<Rightarrow> hook_row" where
  "touch_blocked t r =
     r\<lparr>hr_last_blocked_at := Some (greatest (hr_last_blocked_at r) t), hr_updated_at := max (hr_updated_at r) t\<rparr>"

definition i64_max :: int where
  "i64_max = 2 ^ 63 - 1"

text \<open>The counter of a namespace key after the upsert; the column is a \<open>bigint\<close>.\<close>

definition next_sequence :: "ustring \<Rightarrow> db \<Rightarrow> (int \<times> db, store_error) result" where
  "next_sequence key db =
     (case map_of (db_sequences db) key of
        None \<Rightarrow> Ok (1, db\<lparr>db_sequences := (key, 1) # db_sequences db\<rparr>)
      | Some previous \<Rightarrow>
          if i64_max < previous + 1 then Err (Database (SqlxDatabase (Some ''22003'') None))
          else Ok (previous + 1,
                 db\<lparr>db_sequences := map (\<lambda>(k, n). if k = key then (k, previous + 1) else (k, n)) (db_sequences db)\<rparr>))"

text \<open>The constraints on the columns of a captured request, in the order of the table.\<close>

definition capture_check :: "string \<Rightarrow> capture_row \<Rightarrow> string option" where
  "capture_check tbl c =
     (if \<not> (1 \<le> length (cw_method c) \<and> length (cw_method c) \<le> 32 \<and> list_all is_token_byte (utf8 (cw_method c)))
      then Some (tbl @ ''_method_token'')
      else if \<not> (1 \<le> length (cw_url c) \<and> length (cw_url c) \<le> 16384) then Some (tbl @ ''_url_length'')
      else if \<not> (1 \<le> length (cw_path c) \<and> length (cw_path c) \<le> 4096) then Some (tbl @ ''_path_length'')
      else if 8192 < length (cw_query_string c) then Some (tbl @ ''_query_string_length'')
      else if (case cw_content_type c of None \<Rightarrow> False | Some t \<Rightarrow> 255 < length t)
        then Some (tbl @ ''_content_type_length'')
      else if 1048576 < length (cw_body c) then Some (tbl @ ''_body_length'')
      else None)"

definition event_row_of :: "'u crates \<Rightarrow> hook_row \<Rightarrow> 'u event_record \<Rightarrow> event_row" where
  "event_row_of cr h e =
     \<lparr>er_id = event_uuid (ev_id e), er_hook_id = hr_id h, er_silicon_id = hr_silicon_id h,
      er_silicon_uuid = hr_silicon_uuid h, er_provider = hook_name_str (ev_provider e),
      er_summary = ev_summary e, er_sequence = sequence_get (ev_sequence e),
      er_capture = bind_capture cr (ev_request e),
      er_expires_at = cap_received_at (ev_request e) + log_retention\<rparr>"

definition insert_event :: "'u crates \<Rightarrow> 'u event_record \<Rightarrow> db \<Rightarrow> (db, store_error) result" where
  "insert_event cr e db =
     (case find (\<lambda>r. hr_id r = hook_uuid (ev_hook_id e)) (db_hooks db) of
        None \<Rightarrow> Err (NotFound ''hook'')
      | Some h \<Rightarrow>
          (let row = event_row_of cr h e in
           case capture_check ''events'' (er_capture row) of
             Some violated \<Rightarrow> Err (check_violation violated)
           | None \<Rightarrow>
               if er_id row \<in> set (map er_id (db_events db)) then Err (unique_violation ''events_pkey'')
               else if (er_silicon_id row, er_sequence row) \<in>
                   set (map (\<lambda>x. (er_silicon_id x, er_sequence x)) (db_events db))
                 then Err (unique_violation ''events_delivery_stream_unique'')
               else Ok (db\<lparr>db_events := row # db_events db\<rparr>)))"

definition blocked_row_of :: "'u crates \<Rightarrow> hook_row \<Rightarrow> 'u blocked_request \<Rightarrow> blocked_row" where
  "blocked_row_of cr h b =
     \<lparr>br_id = blocked_uuid (bk_id b), br_hook_id = hr_id h, br_silicon_id = hr_silicon_id h,
      br_silicon_uuid = hr_silicon_uuid h, br_provider = hook_name_str (bk_provider b),
      br_reason_code = br_code (bk_reason b), br_reason_detail = br_detail (bk_reason b),
      br_capture = bind_capture cr (bk_request b),
      br_expires_at = cap_received_at (bk_request b) + log_retention\<rparr>"

definition insert_blocked_request :: "'u crates \<Rightarrow> 'u blocked_request \<Rightarrow> db \<Rightarrow> (db, store_error) result" where
  "insert_blocked_request cr b db =
     (case find (\<lambda>r. hr_id r = hook_uuid (bk_hook_id b)) (db_hooks db) of
        None \<Rightarrow> Err (NotFound ''hook'')
      | Some h \<Rightarrow>
          (let row = blocked_row_of cr h b in
           case capture_check ''blocked_requests'' (br_capture row) of
             Some violated \<Rightarrow> Err (check_violation violated)
           | None \<Rightarrow>
               if br_id row \<in> set (map br_id (db_blocked db)) then Err (unique_violation ''blocked_requests_pkey'')
               else Ok (db\<lparr>db_blocked := row # db_blocked db\<rparr>)))"

text \<open>
  The sends of an accepted event: to its Silicon, and a copy to every observer. New identifiers are
  taken from \<open>new_id\<close>, for the Silicon and for each subscription.
\<close>

definition queue_sends ::
  "('u, 'k, 'z) deps \<Rightarrow> ting_crates \<Rightarrow> (uuid option \<Rightarrow> uuid) \<Rightarrow> instant \<Rightarrow> ustring \<Rightarrow> account_uuid \<Rightarrow> 'u event_record \<Rightarrow>
    db \<Rightarrow> (db, store_error) result" where
  "queue_sends dp tg new_id clock app_id silicon_uuid e db =
     (let public_id = public_id_of (account_uuid_str silicon_uuid) db;
          silicon = \<lparr>rf_uuid = account_uuid_str silicon_uuid, rf_id = public_id\<rparr>;
          recipient = \<lparr>tr_uuid = account_uuid_str silicon_uuid, tr_id = public_id\<rparr> in
      and_then (ok_or (CorruptData ''ting_outbox'' CauseJson)
         (prepare_event dp tg app_id e silicon recipient Required)) (\<lambda>body.
      and_then (enqueue_ting tg (new_id None) clock e silicon_uuid body None db) (\<lambda>(_, db).
        enqueue_observers dp tg (\<lambda>s. new_id (Some s)) clock e silicon_uuid silicon app_id db)))"

definition accept_event ::
  "('u, 'k, 'z) deps \<Rightarrow> ting_crates \<Rightarrow> (uuid option \<Rightarrow> uuid) \<Rightarrow> instant \<Rightarrow> accept_event_command \<Rightarrow> 'u captured \<Rightarrow> db \<Rightarrow>
    ('u event_record \<times> db, store_error) result" where
  "accept_event dp tg new_id clock c request db =
     (let received_at = cap_received_at request; h = av_hook c in
      and_then (update_hooks (serving_row (hook_uuid (hk_id h))) (touch_received received_at) db) (\<lambda>(n, db).
      if n \<noteq> 1 then Err (NotFound ''hook'')
      else
        and_then (next_sequence (silicon_id_str (hk_silicon_id h)) db) (\<lambda>(n, db).
        and_then (map_err (corrupt ''event'') (delivery_sequence_new n)) (\<lambda>sequence.
        (let e = event_accept (dp_jiff dp) (av_event c) h request sequence in
         and_then (insert_event (dp_crates dp) e db) (\<lambda>db.
         case (av_delivery c, ev_silicon_uuid e) of
           (Some app_id, Some silicon_uuid) \<Rightarrow>
             map_ok (\<lambda>db. (e, db)) (queue_sends dp tg new_id clock app_id silicon_uuid e db)
         | _ \<Rightarrow> Ok (e, db)))))))"

definition record_blocked_request ::
  "('u, 'k, 'z) deps \<Rightarrow> record_blocked_command \<Rightarrow> 'u captured \<Rightarrow> db \<Rightarrow>
    ('u blocked_request \<times> db, store_error) result" where
  "record_blocked_request dp c request db =
     (let received_at = cap_received_at request; h = rb_hook c in
      and_then (update_hooks (serving_row (hook_uuid (hk_id h))) (touch_blocked received_at) db) (\<lambda>(n, db).
      if n \<noteq> 1 then Err (NotFound ''hook'')
      else
        (let b = blocked_request_record (rb_id c) h request (rb_reason c) in
         map_ok (\<lambda>db. (b, db)) (insert_blocked_request (dp_crates dp) b db))))"

section \<open>History pages\<close>

definition history_page_byte_budget :: nat where
  "history_page_byte_budget = 16 * 1024 * 1024"

definition max_history_limit :: nat where
  "max_history_limit = 10000"

record history_page_request =
  hp_silicon_uuid :: account_uuid
  hp_filter :: history_filter
  hp_cursor :: "history_cursor option"
  hp_limit :: nat

definition validate_limit :: "nat \<Rightarrow> (unit, store_error) result" where
  "validate_limit limit =
     (if limit = 0 \<or> max_history_limit < limit
      then Err (InvalidArgument ''limit'' ''must be between 1 and 10000'') else Ok ())"

text \<open>The hook a log row belongs to decides whether the row can be read.\<close>

definition readable_hook :: "account_uuid \<Rightarrow> instant \<Rightarrow> hook_row \<Rightarrow> bool" where
  "readable_hook su clock h \<longleftrightarrow>
     hr_silicon_uuid h = Some (account_uuid_str su) \<and>
     (case hr_deleted_at h of None \<Rightarrow> True | Some d \<Rightarrow> clock - duration_days hook_recovery_days \<le> d)"

definition visible :: "history_page_request \<Rightarrow> instant \<Rightarrow> db \<Rightarrow> uuid \<Rightarrow> instant \<Rightarrow> bool" where
  "visible q clock db hook_id expires_at \<longleftrightarrow>
     list_ex (\<lambda>h. hr_id h = hook_id \<and> readable_hook (hp_silicon_uuid q) clock h) (db_hooks db) \<and>
     (case hf_hook_id (hp_filter q) of None \<Rightarrow> True | Some i \<Rightarrow> hook_id = hook_uuid i) \<and>
     clock < expires_at"

definition before_cursor :: "history_cursor option \<Rightarrow> instant \<times> uuid \<Rightarrow> bool" where
  "before_cursor c k \<longleftrightarrow> (case c of None \<Rightarrow> True | Some b \<Rightarrow> k < (hc_received_at b, hc_id b))"

definition descending :: "('r \<Rightarrow> instant \<times> uuid) \<Rightarrow> 'r list \<Rightarrow> 'r list" where
  "descending key rows = rev (sort_key key rows)"

definition event_key :: "event_row \<Rightarrow> instant \<times> uuid" where
  "event_key r = (cw_received_at (er_capture r), er_id r)"

definition blocked_key :: "blocked_row \<Rightarrow> instant \<times> uuid" where
  "blocked_key r = (cw_received_at (br_capture r), br_id r)"

definition event_history :: "history_page_request \<Rightarrow> instant \<Rightarrow> db \<Rightarrow> event_row list" where
  "event_history q clock db =
     take (hp_limit q + 1) (descending event_key
       (filter (\<lambda>r. visible q clock db (er_hook_id r) (er_expires_at r) \<and> before_cursor (hp_cursor q) (event_key r))
         (db_events db)))"

definition blocked_history :: "history_page_request \<Rightarrow> instant \<Rightarrow> db \<Rightarrow> blocked_row list" where
  "blocked_history q clock db =
     take (hp_limit q + 1) (descending blocked_key
       (filter (\<lambda>r. visible q clock db (br_hook_id r) (br_expires_at r) \<and> before_cursor (hp_cursor q) (blocked_key r))
         (db_blocked db)))"

definition cursor_of :: "instant \<times> uuid \<Rightarrow> history_cursor" where
  "cursor_of k = \<lparr>hc_received_at = fst k, hc_id = snd k\<rparr>"

text \<open>The loop over the rows of a page: so many items, their estimated bytes, the last boundary.\<close>

fun collect_loop ::
  "nat \<Rightarrow> ('r \<Rightarrow> nat \<times> instant \<times> uuid) \<Rightarrow> ('r \<Rightarrow> ('x, store_error) result) \<Rightarrow> nat \<Rightarrow> nat \<Rightarrow> history_cursor option \<Rightarrow> 'r list \<Rightarrow>
    ('x list \<times> history_cursor option, store_error) result" where
  "collect_loop limit describe conv n bytes reached [] = Ok ([], None)"
| "collect_loop limit describe conv n bytes reached (r # rs) =
     (if n = limit then Ok ([], reached)
      else
        (let (row_bytes, k) = describe r in
         if n \<noteq> 0 \<and> history_page_byte_budget < saturating_add bytes row_bytes then Ok ([], reached)
         else
           and_then (conv r) (\<lambda>x.
             map_ok (\<lambda>(xs, next_cursor). (x # xs, next_cursor))
               (collect_loop limit describe conv (n + 1) (saturating_add bytes row_bytes) (Some (cursor_of k)) rs))))"

definition collect_page ::
  "nat \<Rightarrow> ('r \<Rightarrow> nat \<times> instant \<times> uuid) \<Rightarrow> ('r \<Rightarrow> ('x, store_error) result) \<Rightarrow> 'r list \<Rightarrow>
    ('x list \<times> history_cursor option, store_error) result" where
  "collect_page limit describe conv rows = collect_loop limit describe conv 0 0 None rows"

definition describe_event :: "'u crates \<Rightarrow> event_row \<Rightarrow> nat \<times> instant \<times> uuid" where
  "describe_event cr r = (estimated_response_bytes cr (er_capture r), event_key r)"

definition describe_blocked :: "'u crates \<Rightarrow> blocked_row \<Rightarrow> nat \<times> instant \<times> uuid" where
  "describe_blocked cr r = (estimated_response_bytes cr (br_capture r), blocked_key r)"

definition list_events ::
  "('u, 'k, 'z) deps \<Rightarrow> history_page_request \<Rightarrow> instant \<Rightarrow> db \<Rightarrow>
    ('u event_record list \<times> history_cursor option, store_error) result" where
  "list_events dp q clock db =
     and_then (validate_limit (hp_limit q)) (\<lambda>_.
       collect_page (hp_limit q) (describe_event (dp_crates dp)) (event_of_row dp) (event_history q clock db))"

definition list_blocked_requests ::
  "('u, 'k, 'z) deps \<Rightarrow> history_page_request \<Rightarrow> instant \<Rightarrow> db \<Rightarrow>
    ('u blocked_request list \<times> history_cursor option, store_error) result" where
  "list_blocked_requests dp q clock db =
     and_then (validate_limit (hp_limit q)) (\<lambda>_.
       collect_page (hp_limit q) (describe_blocked (dp_crates dp)) (blocked_of_row dp) (blocked_history q clock db))"

definition get_event ::
  "('u, 'k, 'z) deps \<Rightarrow> account_uuid \<Rightarrow> event_id \<Rightarrow> instant \<Rightarrow> db \<Rightarrow> ('u event_record option, store_error) result" where
  "get_event dp su i clock db =
     transpose_opt (map_option (event_of_row dp)
       (find (\<lambda>r. er_id r = event_uuid i \<and> clock < er_expires_at r \<and>
            list_ex (\<lambda>h. hr_id h = er_hook_id r \<and> readable_hook su clock h) (db_hooks db))
         (db_events db)))"

section \<open>Abuse counters\<close>

definition block_state_of_row :: "ip_block_row \<Rightarrow> (ip_block_state, store_error) result" where
  "block_state_of_row r =
     (if 0 \<le> ib_strikes r \<and> ib_strikes r < 2 ^ 32
      then Ok \<lparr>strikes = word_of_int (ib_strikes r), blocked_until = ib_blocked_until r\<rparr>
      else Err (CorruptData ''ip block'' CauseNumber))"

definition block_row :: "hook_id \<Rightarrow> ip_addr \<Rightarrow> ip_block_row \<Rightarrow> bool" where
  "block_row i ip r \<longleftrightarrow> ib_hook_id r = hook_uuid i \<and> ib_remote_ip r = ip"

definition check_ip_block ::
  "hook_id \<Rightarrow> ip_addr \<Rightarrow> instant \<Rightarrow> db \<Rightarrow> (block_check \<times> db, store_error) result" where
  "check_ip_block i ip now db =
     (case find (block_row i ip) (db_ip_blocks db) of
        None \<Rightarrow> Ok (CheckAllowed, db)
      | Some row \<Rightarrow>
          map_ok (\<lambda>s.
            (let outcome = check s now in
             (outcome,
              if outcome = CheckAllowed then db
              else db\<lparr>db_ip_blocks := rows_update (block_row i ip)
                     (\<lambda>r. r\<lparr>ib_rejected_requests := ib_rejected_requests r + 1, ib_updated_at := now\<rparr>)
                     (db_ip_blocks db)\<rparr>)))
            (block_state_of_row row))"

definition i32_max :: int where
  "i32_max = 2 ^ 31 - 1"

definition count_row :: "ip_block_state \<Rightarrow> instant \<Rightarrow> ip_block_row \<Rightarrow> ip_block_row" where
  "count_row s now r =
     r\<lparr>ib_strikes := (if uint (strikes s) \<le> i32_max then uint (strikes s) else i32_max),
       ib_blocked_until := blocked_until s, ib_updated_at := now\<rparr>"

definition fresh_block_row :: "hook_id \<Rightarrow> ip_addr \<Rightarrow> instant \<Rightarrow> ip_block_row" where
  "fresh_block_row i ip now =
     \<lparr>ib_hook_id = hook_uuid i, ib_remote_ip = ip, ib_strikes = 0, ib_blocked_until = None,
      ib_rejected_requests = 0, ib_first_seen_at = now, ib_updated_at = now\<rparr>"

definition record_unverified_request ::
  "time_crate \<Rightarrow> hook_id \<Rightarrow> ip_addr \<Rightarrow> instant \<Rightarrow> db \<Rightarrow> (strike_outcome \<times> db, store_error) result" where
  "record_unverified_request tc i ip now db =
     (if \<not> list_ex (block_row i ip) (db_ip_blocks db) \<and> hook_uuid i \<notin> set (map hr_id (db_hooks db))
      then Err (foreign_key_violation ''ip_blocks_hook_id_fkey'')
      else
        (let rows = (if list_ex (block_row i ip) (db_ip_blocks db) then db_ip_blocks db
                     else fresh_block_row i ip now # db_ip_blocks db) in
         and_then (ok_or (Database SqlxOther) (find (block_row i ip) rows)) (\<lambda>row.
         and_then (block_state_of_row row) (\<lambda>s.
           (let (s, outcome) = record_unverified tc now s in
            Ok (outcome, db\<lparr>db_ip_blocks := rows_update (block_row i ip) (count_row s now) rows\<rparr>))))))"

section \<open>Retention\<close>

definition stale_ip_block_days :: int where
  "stale_ip_block_days = 30"

datatype maintenance_task =
    ExpiredEvents
  | ExpiredBlockedRequests
  | ExpiredHooks
  | ExpiredIdempotency
  | StaleIpBlocks
  | ExpiredAccountsEvents

definition all_tasks :: "maintenance_task list" where
  "all_tasks =
     [ExpiredEvents, ExpiredBlockedRequests, ExpiredHooks, ExpiredIdempotency, StaleIpBlocks, ExpiredAccountsEvents]"

fun task_code :: "maintenance_task \<Rightarrow> string" where
  "task_code ExpiredEvents = ''expired_events''"
| "task_code ExpiredBlockedRequests = ''expired_blocked_requests''"
| "task_code ExpiredHooks = ''expired_hooks''"
| "task_code ExpiredIdempotency = ''expired_idempotency''"
| "task_code StaleIpBlocks = ''stale_ip_blocks''"
| "task_code ExpiredAccountsEvents = ''expired_accounts_events''"

text \<open>The victims of a batch: so many eligible rows, the oldest first.\<close>

definition victims :: "nat \<Rightarrow> ('r \<Rightarrow> bool) \<Rightarrow> ('r \<Rightarrow> 'k::linorder) \<Rightarrow> 'r list \<Rightarrow> 'r list" where
  "victims batch eligible key rows = take batch (sort_key key (filter eligible rows))"

definition expired_event :: "instant \<Rightarrow> event_row \<Rightarrow> bool" where
  "expired_event clock r \<longleftrightarrow> er_expires_at r \<le> clock"

definition expired_blocked :: "instant \<Rightarrow> blocked_row \<Rightarrow> bool" where
  "expired_blocked clock r \<longleftrightarrow> br_expires_at r \<le> clock"

definition expired_hook :: "instant \<Rightarrow> hook_row \<Rightarrow> bool" where
  "expired_hook clock r \<longleftrightarrow>
     (case hr_deleted_at r of None \<Rightarrow> False | Some d \<Rightarrow> d < clock - duration_days hook_recovery_days)"

definition expired_key :: "instant \<Rightarrow> idempotency_row \<Rightarrow> bool" where
  "expired_key clock r \<longleftrightarrow> ir_expires_at r \<le> clock"

definition stale_block :: "instant \<Rightarrow> ip_block_row \<Rightarrow> bool" where
  "stale_block clock r \<longleftrightarrow>
     (case ib_blocked_until r of None \<Rightarrow> True | Some until \<Rightarrow> until \<le> clock) \<and>
     ib_updated_at r < clock - duration_days stale_ip_block_days"

definition old_accounts_event :: "instant \<Rightarrow> accounts_event_row \<Rightarrow> bool" where
  "old_accounts_event clock r \<longleftrightarrow> ae_received_at r < clock - duration_days 30"

text \<open>Deleting events takes their sends with them; deleting hooks takes their logs and counters.\<close>

definition delete_events :: "(event_row \<Rightarrow> bool) \<Rightarrow> db \<Rightarrow> db" where
  "delete_events P db =
     (let gone = map er_id (filter P (db_events db)) in
      db\<lparr>db_events := filter (\<lambda>r. \<not> P r) (db_events db),
         db_outbox := filter (\<lambda>r. ox_event_id r \<notin> set gone) (db_outbox db)\<rparr>)"

definition delete_hooks :: "(hook_row \<Rightarrow> bool) \<Rightarrow> db \<Rightarrow> db" where
  "delete_hooks P db =
     (let gone = map hr_id (filter P (db_hooks db)) in
      (delete_events (\<lambda>r. er_hook_id r \<in> set gone) db)
        \<lparr>db_hooks := filter (\<lambda>r. \<not> P r) (db_hooks db),
         db_blocked := filter (\<lambda>r. br_hook_id r \<notin> set gone) (db_blocked db),
         db_ip_blocks := filter (\<lambda>r. ib_hook_id r \<notin> set gone) (db_ip_blocks db)\<rparr>)"

definition purge_events :: "nat \<Rightarrow> instant \<Rightarrow> db \<Rightarrow> nat \<times> db" where
  "purge_events batch clock db =
     (let ids = map er_id (victims batch (expired_event clock) (\<lambda>r. (er_expires_at r, er_id r)) (db_events db)) in
      (rows_affected (\<lambda>r. er_id r \<in> set ids) (db_events db), delete_events (\<lambda>r. er_id r \<in> set ids) db))"

definition purge_blocked :: "nat \<Rightarrow> instant \<Rightarrow> db \<Rightarrow> nat \<times> db" where
  "purge_blocked batch clock db =
     (let ids = map br_id (victims batch (expired_blocked clock) (\<lambda>r. (br_expires_at r, br_id r)) (db_blocked db)) in
      (rows_affected (\<lambda>r. br_id r \<in> set ids) (db_blocked db),
       db\<lparr>db_blocked := filter (\<lambda>r. br_id r \<notin> set ids) (db_blocked db)\<rparr>))"

definition purge_hooks :: "nat \<Rightarrow> instant \<Rightarrow> db \<Rightarrow> nat \<times> db" where
  "purge_hooks batch clock db =
     (let ids = map hr_id (victims batch (expired_hook clock) (\<lambda>r. (the (hr_deleted_at r), hr_id r)) (db_hooks db)) in
      (rows_affected (\<lambda>r. hr_id r \<in> set ids) (db_hooks db), delete_hooks (\<lambda>r. hr_id r \<in> set ids) db))"

definition purge_keys :: "nat \<Rightarrow> instant \<Rightarrow> db \<Rightarrow> nat \<times> db" where
  "purge_keys batch clock db =
     (let keys = map ir_key (victims batch (expired_key clock) ir_expires_at (db_idempotency db)) in
      (rows_affected (\<lambda>r. ir_key r \<in> set keys) (db_idempotency db),
       db\<lparr>db_idempotency := filter (\<lambda>r. ir_key r \<notin> set keys) (db_idempotency db)\<rparr>))"

definition purge_blocks :: "nat \<Rightarrow> instant \<Rightarrow> db \<Rightarrow> nat \<times> db" where
  "purge_blocks batch clock db =
     (let keys = map (\<lambda>r. (ib_hook_id r, ib_remote_ip r)) (victims batch (stale_block clock) ib_updated_at (db_ip_blocks db)) in
      (rows_affected (\<lambda>r. (ib_hook_id r, ib_remote_ip r) \<in> set keys) (db_ip_blocks db),
       db\<lparr>db_ip_blocks := filter (\<lambda>r. (ib_hook_id r, ib_remote_ip r) \<notin> set keys) (db_ip_blocks db)\<rparr>))"

definition purge_accounts_events :: "nat \<Rightarrow> instant \<Rightarrow> db \<Rightarrow> nat \<times> db" where
  "purge_accounts_events batch clock db =
     (let ids = map ae_event_id (victims batch (old_accounts_event clock) ae_received_at (db_accounts_events db)) in
      (rows_affected (\<lambda>r. ae_event_id r \<in> set ids) (db_accounts_events db),
       db\<lparr>db_accounts_events := filter (\<lambda>r. ae_event_id r \<notin> set ids) (db_accounts_events db)\<rparr>))"

fun purge :: "maintenance_task \<Rightarrow> nat \<Rightarrow> instant \<Rightarrow> db \<Rightarrow> nat \<times> db" where
  "purge ExpiredEvents = purge_events"
| "purge ExpiredBlockedRequests = purge_blocked"
| "purge ExpiredHooks = purge_hooks"
| "purge ExpiredIdempotency = purge_keys"
| "purge StaleIpBlocks = purge_blocks"
| "purge ExpiredAccountsEvents = purge_accounts_events"

record maintenance_batch =
  mb_rows_affected :: nat
  mb_more_work :: bool

definition run_maintenance_task ::
  "maintenance_task \<Rightarrow> nat \<Rightarrow> instant \<Rightarrow> db \<Rightarrow> (maintenance_batch \<times> db, store_error) result" where
  "run_maintenance_task task batch clock db =
     (if batch = 0 \<or> 10000 < batch then Err (InvalidArgument ''batch_size'' ''must be between 1 and 10000'')
      else
        (let (n, db) = purge task batch clock db in
         Ok (\<lparr>mb_rows_affected = n, mb_more_work = (n = batch)\<rparr>, db)))"

section \<open>A maintenance cycle\<close>

text \<open>
  One round runs the tasks that are still active, each with the clock of its own statement; a task
  stays active while its batch was full. The counts of the cycle are kept per task. The model has
  no failing connection: the only error is a batch size out of range, which ends every task.
\<close>

record cycle =
  cy_active :: "maintenance_task \<Rightarrow> bool"
  cy_purged :: "maintenance_task \<Rightarrow> nat"
  cy_failed :: nat
  cy_db :: db

definition run_task :: "nat \<Rightarrow> instant \<Rightarrow> maintenance_task \<Rightarrow> cycle \<Rightarrow> cycle" where
  "run_task batch clock task s =
     (if \<not> cy_active s task then s
      else
        (case run_maintenance_task task batch clock (cy_db s) of
           Ok (b, db) \<Rightarrow>
             s\<lparr>cy_active := (cy_active s)(task := mb_more_work b),
               cy_purged := (cy_purged s)(task := cy_purged s task + mb_rows_affected b), cy_db := db\<rparr>
         | Err e \<Rightarrow> s\<lparr>cy_active := (cy_active s)(task := False), cy_failed := cy_failed s + 1\<rparr>))"

definition run_round :: "nat \<Rightarrow> instant \<Rightarrow> cycle \<Rightarrow> cycle" where
  "run_round batch clock s = foldl (\<lambda>s task. run_task batch clock task s) s all_tasks"

fun run_rounds :: "nat \<Rightarrow> nat \<Rightarrow> instant \<Rightarrow> cycle \<Rightarrow> cycle" where
  "run_rounds 0 batch clock s = s"
| "run_rounds (Suc n) batch clock s =
     (let s = run_round batch clock s in
      if list_ex (cy_active s) all_tasks then run_rounds n batch clock s else s)"

definition run_maintenance_cycle :: "nat \<Rightarrow> nat \<Rightarrow> instant \<Rightarrow> db \<Rightarrow> cycle" where
  "run_maintenance_cycle batches batch clock db =
     run_rounds batches batch clock
       \<lparr>cy_active = (\<lambda>_. True), cy_purged = (\<lambda>_. 0), cy_failed = 0, cy_db = db\<rparr>"

end
