(* ===== verification/Paging.thy ===== *)
theory Paging
  imports EventStore
begin

text \<open>
  Reading a log page by page. The statement behind a page is an interface: whatever log it reads, it
  returns the records below a boundary in descending order, one more than a page may hold. Under
  that contract a page is a prefix of the records that are left, within the limits on its number
  and weight, and following the boundaries from the newest record gives every record once.
\<close>

section \<open>One page\<close>

text \<open>How many of the rows the loop takes, by their number and estimated sizes.\<close>

fun page_len :: "nat \<Rightarrow> ('r \<Rightarrow> nat) \<Rightarrow> nat \<Rightarrow> nat \<Rightarrow> 'r list \<Rightarrow> nat" where
  "page_len limit weight n bytes [] = 0"
| "page_len limit weight n bytes (r # rs) =
     (if n = limit \<or> n \<noteq> 0 \<and> history_page_byte_budget < saturating_add bytes (weight r) then 0
      else Suc (page_len limit weight (n + 1) (saturating_add bytes (weight r)) rs))"

lemma page_len_le: "page_len limit weight n bytes rs \<le> length rs"
  by (induction rs arbitrary: n bytes) auto

lemma page_len_limit: "n \<le> limit \<Longrightarrow> n + page_len limit weight n bytes rs \<le> limit"
proof (induction rs arbitrary: n bytes)
  case (Cons r rs)
  then show ?case using Cons.IH [of "n + 1"] by (cases "n = limit") auto
qed simp

lemma page_len_pos: "0 < limit \<Longrightarrow> rs \<noteq> [] \<Longrightarrow> 0 < page_len limit weight 0 bytes rs"
  by (cases rs) auto

lemma collect_loop_eq:
  "collect_loop limit (\<lambda>r. (weight r, key r)) conv n bytes reached rs =
     map_ok (\<lambda>xs. (xs,
         if page_len limit weight n bytes rs < length rs
         then (if page_len limit weight n bytes rs = 0 then reached
               else Some (cursor_of (key (rs ! (page_len limit weight n bytes rs - 1)))))
         else None))
       (collect_map conv (take (page_len limit weight n bytes rs) rs))"
proof (induction rs arbitrary: n bytes reached)
  case (Cons r rs)
  show ?case
  proof (cases "n = limit \<or> n \<noteq> 0 \<and> history_page_byte_budget < saturating_add bytes (weight r)")
    case False
    let ?k = "page_len limit weight (n + 1) (saturating_add bytes (weight r)) rs"
    have "(r # rs) ! ?k = rs ! (?k - 1)" if "?k \<noteq> 0" using that by (cases ?k) auto
    then show ?thesis
      using False Cons.IH [of "n + 1" "saturating_add bytes (weight r)" "Some (cursor_of (key r))"]
      by (cases "conv r"; cases "collect_map conv (take ?k rs)") (auto simp: Let_def)
  qed auto
qed simp

lemma page_bytes:
  "n \<noteq> 0 \<Longrightarrow> bytes \<le> history_page_byte_budget \<Longrightarrow>
     foldl saturating_add bytes (map weight (take (page_len limit weight n bytes rs) rs)) \<le> history_page_byte_budget"
  by (induction rs arbitrary: n bytes) auto

lemma page_weight:
  "page_len limit weight 0 0 rs \<le> 1 \<or>
     foldl saturating_add 0 (map weight (take (page_len limit weight 0 0 rs) rs)) \<le> history_page_byte_budget"
proof (cases rs)
  case (Cons r rs')
  show ?thesis
  proof (cases "saturating_add 0 (weight r) \<le> history_page_byte_budget")
    case True
    then show ?thesis using Cons page_bytes [of 1 "saturating_add 0 (weight r)" weight limit rs'] by simp
  next
    case False
    then have "history_page_byte_budget < saturating_add (saturating_add 0 (weight r)) x" for x
      by (simp add: saturating_add_def history_page_byte_budget_def usize_max_def)
    then have "page_len limit weight 1 (saturating_add 0 (weight r)) rs' = 0" by (cases rs') simp_all
    with Cons show ?thesis by simp
  qed
qed simp

section \<open>Following the boundaries\<close>

text \<open>A reader asks for the next page until there is no boundary.\<close>

fun read_all ::
  "nat \<Rightarrow> (history_cursor option \<Rightarrow> ('x list \<times> history_cursor option, store_error) result) \<Rightarrow> history_cursor option \<Rightarrow>
    ('x list, store_error) result" where
  "read_all 0 page c = Ok []"
| "read_all (Suc n) page c =
     and_then (page c) (\<lambda>(xs, next_cursor).
       case next_cursor of
         None \<Rightarrow> Ok xs
       | Some b \<Rightarrow> map_ok (append xs) (read_all n page (Some b)))"

lemma collect_map_append:
  "collect_map f (xs @ ys) = and_then (collect_map f xs) (\<lambda>a. map_ok (append a) (collect_map f ys))"
  by (induction xs) (auto split: result.splits, (cases "collect_map f ys"; simp)+)

lemma sorted_desc:
  "distinct (map key rs) \<Longrightarrow> sorted_wrt (\<lambda>a b. key b < key a) (descending key rs)"
proof -
  assume d: "distinct (map key rs)"
  have "sorted_wrt (\<lambda>a b. key a < key b) (sort_key key rs)"
  proof -
    have "sorted (map key (sort_key key rs))" by simp
    moreover have "distinct (map key (sort_key key rs))"
      using d by (simp add: distinct_map)
    ultimately have "sorted_wrt (<) (map key (sort_key key rs))" by (simp add: strict_sorted_iff)
    then show ?thesis by (simp add: sorted_wrt_map)
  qed
  then show ?thesis by (simp add: descending_def sorted_wrt_rev)
qed

lemma filter_descending: "filter P (descending key rs) = descending key (filter P rs)"
  by (simp add: descending_def filter_sort rev_filter [symmetric])

text \<open>Below the key of the last record of a page is what the page left out.\<close>

lemma filter_before:
  fixes key :: "'r \<Rightarrow> 'k::linorder"
  assumes "sorted_wrt (\<lambda>a b. key b < key a) rs" and "0 < k" and "k \<le> length rs"
  shows "filter (\<lambda>r. key r < key (rs ! (k - 1))) rs = drop k rs"
proof -
  let ?b = "rs ! (k - 1)"
  have "\<not> key r < key ?b" if "r \<in> set (take k rs)" for r
  proof -
    from that obtain i where i: "i < k" "r = rs ! i" using assms(3) by (auto simp: in_set_conv_nth)
    show ?thesis
    proof (cases "i = k - 1")
      case False
      then have "key ?b < key r" using i assms sorted_wrt_nth_less [OF assms(1), of i "k - 1"] by simp
      then show ?thesis by (rule less_not_sym)
    qed (simp add: i)
  qed
  then have "filter (\<lambda>r. key r < key ?b) (take k rs) = []" by (simp add: filter_empty_conv)
  moreover have "key r < key ?b" if "r \<in> set (drop k rs)" for r
  proof -
    from that obtain i where "i < length (drop k rs)" "r = drop k rs ! i" by (auto simp: in_set_conv_nth)
    then have i: "k + i < length rs" "r = rs ! (k + i)" using assms(3) by simp_all
    with assms sorted_wrt_nth_less [OF assms(1), of "k - 1" "k + i"] show ?thesis by simp
  qed
  then have "filter (\<lambda>r. key r < key ?b) (drop k rs) = drop k rs" by (simp add: filter_id_conv)
  ultimately show ?thesis
    by (metis append_Nil append_take_drop_id filter_append)
qed

locale keyset =
  fixes source :: "history_cursor option \<Rightarrow> nat \<Rightarrow> 'r list"
    and log :: "'r list"
    and key :: "'r \<Rightarrow> instant \<times> uuid"
  assumes source_eq:
    "source c limit = take (limit + 1) (descending key (filter (\<lambda>r. before_cursor c (key r)) log))"
begin

definition page where
  "page weight conv limit c = collect_page limit (\<lambda>r. (weight r, key r)) conv (source c limit)"

lemma page_eq:
  assumes "rest = descending key (filter (\<lambda>r. before_cursor c (key r)) log)" and "0 < limit"
  obtains k where "k \<le> limit" "k \<le> length rest" "rest \<noteq> [] \<longrightarrow> 0 < k"
    "page weight conv limit c =
       map_ok (\<lambda>xs. (xs, if k < length rest then Some (cursor_of (key (rest ! (k - 1)))) else None))
         (collect_map conv (take k rest))"
proof -
  let ?rs = "take (limit + 1) rest"
  let ?k = "page_len limit weight 0 0 ?rs"
  have k: "?k \<le> limit" using page_len_limit [of 0 limit weight 0 ?rs] by simp
  have kl: "?k \<le> length ?rs" by (rule page_len_le)
  have len: "?k < length ?rs \<longleftrightarrow> ?k < length rest" using k kl by (cases "limit + 1 \<le> length rest") auto
  have pos: "rest \<noteq> [] \<longrightarrow> 0 < ?k" using page_len_pos [of limit ?rs weight 0] assms(2) by simp
  have "source c limit = ?rs" unfolding source_eq assms(1) ..
  then have "page weight conv limit c =
       map_ok (\<lambda>xs. (xs, if ?k < length ?rs then
           (if ?k = 0 then None else Some (cursor_of (key (?rs ! (?k - 1))))) else None))
         (collect_map conv (take ?k ?rs))"
    by (simp only: page_def collect_page_def collect_loop_eq)
  also have "take ?k ?rs = take ?k rest" using k by (simp add: min_def)
  also have "(\<lambda>xs. (xs, if ?k < length ?rs then
           (if ?k = 0 then None else Some (cursor_of (key (?rs ! (?k - 1))))) else None)) =
      (\<lambda>xs. (xs, if ?k < length rest then Some (cursor_of (key (rest ! (?k - 1)))) else None))"
  proof (cases "?k < length rest")
    case True
    then have nz: "?k \<noteq> 0" using pos by fastforce
    have "?rs ! (?k - 1) = rest ! (?k - 1)" using k by (intro nth_take) simp
    with True nz show ?thesis by (simp only: len if_True if_False)
  qed (simp only: len if_False)
  finally have eq: "page weight conv limit c =
      map_ok (\<lambda>xs. (xs, if ?k < length rest then Some (cursor_of (key (rest ! (?k - 1)))) else None))
        (collect_map conv (take ?k rest))" .
  have "?k \<le> length rest" using kl by simp
  from that [OF k this pos eq] show thesis by blast
qed

lemma every_record_once:
  assumes "distinct (map key log)" and "0 < limit" and "length log < n"
  shows "read_all n (page weight conv limit) None = collect_map conv (descending key log)"
proof -
  let ?rest = "\<lambda>c. descending key (filter (\<lambda>r. before_cursor c (key r)) log)"
  have "read_all n (page weight conv limit) c = collect_map conv (?rest c)" if "length (?rest c) < n" for c
    using that
  proof (induction n arbitrary: c)
    case (Suc n)
    obtain k where k: "k \<le> limit" "k \<le> length (?rest c)" "?rest c \<noteq> [] \<longrightarrow> 0 < k"
      and p: "page weight conv limit c =
         map_ok (\<lambda>xs. (xs, if k < length (?rest c) then Some (cursor_of (key (?rest c ! (k - 1)))) else None))
           (collect_map conv (take k (?rest c)))"
      by (rule page_eq [of "?rest c" c limit weight conv, OF refl assms(2)])
    show ?case
    proof (cases "k < length (?rest c)")
      case True
      then have pos: "0 < k" using k(3) by fastforce
      let ?b = "?rest c ! (k - 1)"
      have sorted: "sorted_wrt (\<lambda>a b. key b < key a) (?rest c)"
        by (rule sorted_desc) (rule distinct_map_filter [OF assms(1)])
      have mem: "?b \<in> set (?rest c)" using True pos by simp
      then have b: "before_cursor c (key ?b)" by (simp add: descending_def)
      have cut: "before_cursor (Some (cursor_of (key ?b))) (key r) \<longleftrightarrow> key r < key ?b" for r
        by (simp add: before_cursor_def cursor_of_def)
      have below: "key r < key ?b \<Longrightarrow> before_cursor c (key r)" for r
        using b by (auto simp: before_cursor_def split: option.splits)
      have "?rest (Some (cursor_of (key ?b))) = filter (\<lambda>r. key r < key ?b) (?rest c)"
        unfolding filter_descending filter_filter cut
        by (rule arg_cong [of _ _ "descending key"], rule filter_cong) (auto intro: below)
      also have "\<dots> = drop k (?rest c)" by (rule filter_before [OF sorted pos k(2)])
      finally have rest': "?rest (Some (cursor_of (key ?b))) = drop k (?rest c)" .
      have "read_all n (page weight conv limit) (Some (cursor_of (key ?b))) = collect_map conv (drop k (?rest c))"
      proof (rule Suc.IH [of "Some (cursor_of (key ?b))", unfolded rest'])
        show "length (drop k (?rest c)) < n" using Suc.prems True pos by (simp only: length_drop)
      qed
      then show ?thesis
        using True collect_map_append [of conv "take k (?rest c)" "drop k (?rest c)"] p
        by (cases "collect_map conv (take k (?rest c))") simp_all
    next
      case False
      with k(2) have "take k (?rest c) = ?rest c" by simp
      with False p show ?thesis by (cases "collect_map conv (?rest c)") simp_all
    qed
  qed simp
  from this [of None] assms(3) show ?thesis by (simp add: before_cursor_def descending_def)
qed

lemma page_bounds:
  assumes "page weight conv limit c = Ok (xs, next_cursor)"
  shows "\<exists>k. list_all2 (\<lambda>r x. conv r = Ok x) (take k (source c limit)) xs \<and> length xs \<le> limit \<and>
     (length xs \<le> 1 \<or>
      foldl saturating_add 0 (map weight (take k (source c limit))) \<le> history_page_byte_budget)"
proof -
  let ?rs = "source c limit"
  let ?k = "page_len limit weight 0 0 ?rs"
  have all: "list_all2 (\<lambda>r x. conv r = Ok x) (take ?k ?rs) xs"
    using assms by (auto simp: page_def collect_page_def collect_loop_eq result_simps)
  have "length xs = ?k" using list_all2_lengthD [OF all] page_len_le [of limit weight 0 0 ?rs] by simp
  then show ?thesis
    using all page_len_limit [of 0 limit weight 0 ?rs] page_weight [of limit weight ?rs] by auto
qed

end

section \<open>The logs\<close>

definition event_request :: "account_uuid \<Rightarrow> history_filter \<Rightarrow> history_cursor option \<Rightarrow> nat \<Rightarrow> history_page_request" where
  "event_request su f c limit = \<lparr>hp_silicon_uuid = su, hp_filter = f, hp_cursor = c, hp_limit = limit\<rparr>"

definition readable_events :: "account_uuid \<Rightarrow> history_filter \<Rightarrow> instant \<Rightarrow> db \<Rightarrow> event_row list" where
  "readable_events su f clock db =
     filter (\<lambda>r. visible (event_request su f None 0) clock db (er_hook_id r) (er_expires_at r)) (db_events db)"

definition readable_blocked :: "account_uuid \<Rightarrow> history_filter \<Rightarrow> instant \<Rightarrow> db \<Rightarrow> blocked_row list" where
  "readable_blocked su f clock db =
     filter (\<lambda>r. visible (event_request su f None 0) clock db (br_hook_id r) (br_expires_at r)) (db_blocked db)"

lemma visible_request: "visible (event_request su f c limit) = visible (event_request su f None 0)"
  by (simp add: visible_def event_request_def fun_eq_iff)

interpretation event_log: keyset "\<lambda>c limit. event_history (event_request su f c limit) clock db"
    "readable_events su f clock db" event_key for su f clock db
proof
  show "event_history (event_request su f c limit) clock db =
      take (limit + 1) (descending event_key (filter (\<lambda>r. before_cursor c (event_key r)) (readable_events su f clock db)))"
    for c limit
    by (simp add: event_history_def visible_request [of su f c limit] readable_events_def conj_commute filter_filter)
      (simp add: event_request_def conj_commute)
qed

interpretation blocked_log: keyset "\<lambda>c limit. blocked_history (event_request su f c limit) clock db"
    "readable_blocked su f clock db" blocked_key for su f clock db
proof
  show "blocked_history (event_request su f c limit) clock db =
      take (limit + 1) (descending blocked_key (filter (\<lambda>r. before_cursor c (blocked_key r)) (readable_blocked su f clock db)))"
    for c limit
    by (simp add: blocked_history_def visible_request [of su f c limit] readable_blocked_def conj_commute filter_filter)
      (simp add: event_request_def conj_commute)
qed

lemma list_events_page:
  "0 < limit \<Longrightarrow> limit \<le> max_history_limit \<Longrightarrow>
     list_events dp (event_request su f c limit) clock db =
       event_log.page su f clock db (\<lambda>r. estimated_response_bytes (dp_crates dp) (er_capture r)) (event_of_row dp) limit c"
  by (simp add: list_events_def validate_limit_def event_log.page_def describe_event_def [abs_def])
    (simp add: event_request_def)

lemma list_blocked_page:
  "0 < limit \<Longrightarrow> limit \<le> max_history_limit \<Longrightarrow>
     list_blocked_requests dp (event_request su f c limit) clock db =
       blocked_log.page su f clock db (\<lambda>r. estimated_response_bytes (dp_crates dp) (br_capture r)) (blocked_of_row dp) limit c"
  by (simp add: list_blocked_requests_def validate_limit_def blocked_log.page_def describe_blocked_def [abs_def])
    (simp add: event_request_def)

lemma distinct_keys: "distinct (map snd (map key rs)) \<Longrightarrow> distinct (map key rs)"
  by (simp add: distinct_map inj_on_def)

end
