(* ===== verification/StoreDemo.thy ===== *)
theory StoreDemo
  imports EndpointKeys Paging
begin

text \<open>
  A concrete store for the witnesses of the properties about persistence: crates for every
  component, one hook of one Silicon that was just created, and commands on it.
\<close>

definition demo_jiff :: "unit jiff_crate" where
  "demo_jiff =
     \<lparr>jf_get = (\<lambda>_. Some ()), jf_iana_name = (\<lambda>_. None), jf_utc = (),
      jf_clock = (\<lambda>_ _. Some (lit ''00:00:00 01-01-1970''))\<rparr>"

definition demo_deps :: "(ustring \<times> pairs, bytes, unit) deps" where
  "demo_deps =
     \<lparr>dp_crates = demo_crates, dp_keys = demo_key_crates, dp_uuid = demo_uuid_crate, dp_jiff = demo_jiff,
      dp_time = demo_time_crate, dp_crypto = demo_crypto,
      dp_config_value = (\<lambda>c. Some JNull), dp_config_parse = (\<lambda>_. Some demo_ed25519_config)\<rparr>"

definition demo_silicon :: account_uuid where
  "demo_silicon = AccountUuid (lit ''8HV'')"

definition stored_hook :: hook where
  "stored_hook = hook_create demo_new_hook"

definition demo_row :: hook_row where
  "demo_row = insert_row stored_hook False JNull"

definition demo_db :: db where
  "demo_db = empty_db\<lparr>db_hooks := [demo_row]\<rparr>"

lemma stored_hook_sel [simp]:
  "hk_id stored_hook = HookId 1" "hk_silicon_id stored_hook = SiliconId (lit ''8HV'')"
  "hk_silicon_uuid stored_hook = Some demo_silicon" "hk_status stored_hook = Active"
  "hk_created_at stored_hook = 0" "hk_deleted_at stored_hook = None" "hk_disabled_at stored_hook = None"
  "hk_endpoint_key stored_hook = EndpointKey (lit ''A0B1C2D3'')" "hk_name stored_hook = HookName (lit ''GitHub'')"
  "hk_last_received_at stored_hook = None" "hk_last_blocked_at stored_hook = None"
  "hk_endpoint_rotated_at stored_hook = None" "hk_time_zone stored_hook = default_time_zone"
  by (simp_all add: stored_hook_def hook_create_def demo_new_hook_def demo_silicon_def)

lemma demo_row_sel [simp]:
  "hr_id demo_row = 1" "hr_silicon_uuid demo_row = Some (lit ''8HV'')" "hr_silicon_id demo_row = lit ''8HV''"
  "hr_deleted_at demo_row = None" "hr_disabled_at demo_row = None" "hr_created_at demo_row = 0"
  "hr_updated_at demo_row = 0" "hr_endpoint_rotated_at demo_row = None"
  "hr_endpoint_key demo_row = lit ''A0B1C2D3''" "hr_last_received_at demo_row = None"
  by (simp_all add: demo_row_def insert_row_def Let_def) (simp_all add: demo_silicon_def)

lemma short_text: "trim (lit ''GitHub'') = lit ''GitHub''" "trim (lit ''UTC'') = lit ''UTC''"
  by (rule trim_no_whitespace, simp add: lit_def is_whitespace_def)+

lemma demo_uuid_ok: "account_uuid_new uc (lit ''8HV'') = Ok (AccountUuid (lit ''8HV''))"
    "account_uuid_new uc (lit ''b97'') = Ok (AccountUuid (lit ''b97''))"
  unfolding account_uuid_new_Ok looks_like_def list_all_alphanumeric_bytes
  by (simp_all add: max_account_uuid_length_def lit_def char_class_defs str_len_def utf8_def utf8_char_def)

lemma demo_ids_ok: "silicon_id_new (lit ''8HV'') = Ok (SiliconId (lit ''8HV''))"
    "actor_id_new (lit ''b97'') = Ok (ActorId (lit ''b97''))"
proof -
  have "uuid_text_is_hex demo_uuid_crate" by (simp add: uuid_text_is_hex_def demo_uuid_crate_def)
  from account_keys_are_stored_keys_parts [OF this demo_uuid_ok(1)] account_keys_are_stored_keys_parts [OF this demo_uuid_ok(2)]
  show "silicon_id_new (lit ''8HV'') = Ok (SiliconId (lit ''8HV''))" "actor_id_new (lit ''b97'') = Ok (ActorId (lit ''b97''))"
    by (auto simp: silicon_id_from_account_def actor_ref_account_def actor_id_from_account_def actor_ref_stored_def result_simps)
qed

lemma demo_key_ok: "endpoint_key_parse (lit ''A0B1C2D3'') = Ok (EndpointKey (lit ''A0B1C2D3''))"
    "endpoint_key_parse (lit ''Z9Z9Z9Z9'') = Ok (EndpointKey (lit ''Z9Z9Z9Z9''))"
  by (simp_all add: endpoint_key_parse_Ok lit_def to_ascii_uppercase_def to_ascii_upper_def char_class_defs)

lemma demo_storable: "hook_storable demo_deps stored_hook"
proof -
  have "hook_name_new (lit ''GitHub'') = Ok (HookName (lit ''GitHub''))"
    unfolding hook_name_new_def short_text Let_def
    by (simp add: lit_def is_control_def max_hook_name_length_def)
  moreover have "hook_time_zone_new demo_jiff (lit ''UTC'') = Ok (HookTimeZone (lit ''UTC''))"
    unfolding hook_time_zone_new_def short_text Let_def demo_jiff_def
    by (simp add: max_time_zone_bytes_def) (simp add: lit_def str_len_def utf8_def utf8_char_def time_zone_byte_def char_class_defs)
  moreover have "hk_created_by stored_hook = actor_ref_account Carbon (AccountUuid (lit ''b97''))"
    "hk_signing stored_hook = \<lparr>sp_required = False, sp_config = demo_ed25519_config, sp_encrypted_secret = None\<rparr>"
    "hk_description stored_hook = None"
    by (simp_all add: stored_hook_def hook_create_def demo_new_hook_def)
  ultimately show ?thesis
    by (simp add: hook_storable_def demo_deps_def demo_ids_ok demo_key_ok demo_uuid_ok account_storable_def
        actor_storable_def signing_storable_def config_storable_def default_time_zone_def demo_silicon_def
        actor_ref_account_def actor_id_from_account_def)
qed

lemma stored_hook_wf [simp]: "wf_hook stored_hook"
  by (simp add: stored_hook_def wf_hook_create)

lemma demo_row_reads [simp]: "hook_of_row demo_deps demo_row = Ok stored_hook"
  unfolding demo_row_def by (rule insert_columns [OF demo_storable]) (simp_all add: demo_deps_def)

end
