(* ===== verification/HookStoreProps.thy ===== *)
theory HookStoreProps
  imports StoreDemo
begin

text \<open>
  The contract of the hook table: what it stores is a map from identifiers to hooks, and every
  transaction is one transition of the aggregate at one key of that map, with its audit row.
\<close>

definition hook_transaction ::
  "('u, 'k, 'z) deps \<Rightarrow> audit_row list \<Rightarrow> account_uuid \<Rightarrow> hook_id \<Rightarrow> (hook \<Rightarrow> (hook, 'e) result) \<Rightarrow> hook \<Rightarrow>
    db \<Rightarrow> db \<Rightarrow> bool" where
  "hook_transaction dp audit owner i transition g db db' \<longleftrightarrow>
     (\<exists>h. stored dp db (hook_uuid i) = Some (Ok h) \<and> hk_silicon_uuid h = Some owner \<and> transition h = Ok g) \<and>
     stored dp db' = (stored dp db)(hook_uuid i \<mapsto> Ok g) \<and> ids_ok db' \<and> db_audit db' = audit @ db_audit db"

lemma delete_transaction:
  "delete_hook dp a c db = Ok (g, db') \<Longrightarrow> ids_ok db \<Longrightarrow>
     hook_transaction dp [audit_row_of a AuditDeleted g (hm_audit c) (hm_occurred_at c)]
       (hm_silicon_uuid c) (hm_hook_id c) (hook_delete (hm_occurred_at c)) g db db'"
  by (drule (1) delete_refines) (auto simp: hook_transaction_def)

lemma update_transaction:
  "update_hook dp a c db = Ok (g, db') \<Longrightarrow> ids_ok db \<Longrightarrow> hook_storable dp g \<Longrightarrow>
     hook_transaction dp [audit_row_of a AuditUpdated g (uh_audit c) (uh_occurred_at c)]
       (uh_silicon_uuid c) (uh_hook_id c) (hook_apply_update (uh_update c)) g db db'"
  by (drule (1) update_refines, assumption) (auto simp: hook_transaction_def)

lemma restore_transaction:
  "restore_hook dp a c db = Ok (Restored g, db') \<Longrightarrow> ids_ok db \<Longrightarrow>
     hook_transaction dp [audit_row_of a AuditRestored g (rh_audit c) (rh_occurred_at c)]
       (rh_silicon_uuid c) (rh_hook_id c) (hook_restore (dp_time dp) (rh_occurred_at c)) g db db'"
  by (drule (1) restore_refines) (auto simp: hook_transaction_def)

lemma rotate_secret_transaction:
  "rotate_hook_secret dp a c db = Ok (Rotated g, db') \<Longrightarrow> ids_ok db \<Longrightarrow> secret_storable (rs_encrypted_secret c) \<Longrightarrow>
     hook_transaction dp [audit_row_of a AuditSecretRotated g (rs_audit c) (rs_occurred_at c)]
       (rs_silicon_uuid c) (rs_hook_id c) (hook_rotate_secret (rs_encrypted_secret c)) g db db'"
  by (drule (1) rotate_secret_refines, assumption) (auto simp: hook_transaction_def)

lemma rotate_endpoint_transaction:
  "rotate_hook_endpoint dp a c db = Ok (Rotated g, db') \<Longrightarrow> ids_ok db \<Longrightarrow> endpoint_key_parse (endpoint_key_str (re_replacement c)) = Ok (re_replacement c) \<Longrightarrow>
     hook_transaction dp [audit_row_of a AuditEndpointRotated g (re_audit c) (re_occurred_at c)]
       (re_silicon_uuid c) (re_hook_id c) (\<lambda>h. map_ok fst (hook_rotate_endpoint (re_replacement c) (re_occurred_at c) h)) g db db'"
  by (drule (1) rotate_endpoint_refines, assumption) (auto simp: hook_transaction_def)

text \<open>A creation adds a hook under an identifier that was free; a repetition under its key answers what is stored.\<close>

definition hook_creation :: "('u, 'k, 'z) deps \<Rightarrow> audit_row list \<Rightarrow> hook \<Rightarrow> db \<Rightarrow> db \<Rightarrow> bool" where
  "hook_creation dp audit g db db' \<longleftrightarrow>
     stored dp db (hook_uuid (hk_id g)) = None \<and> stored dp db' = (stored dp db)(hook_uuid (hk_id g) \<mapsto> Ok g) \<and>
     ids_ok db' \<and> db_audit db' = audit @ db_audit db"

definition hook_replay :: "('u, 'k, 'z) deps \<Rightarrow> account_uuid \<Rightarrow> hook \<Rightarrow> persisted_response \<Rightarrow> db \<Rightarrow> db \<Rightarrow> bool" where
  "hook_replay dp owner g response db db' \<longleftrightarrow>
     pr_resource_id response = Some (hk_id g) \<and> stored dp db (hook_uuid (hk_id g)) = Some (Ok g) \<and>
     hk_silicon_uuid g = Some owner \<and> hk_status g \<noteq> Deleted \<and>
     stored dp db' = stored dp db \<and> ids_ok db' \<and> db_audit db' = db_audit db"

lemma created_fresh:
  assumes "create_hook dp a c db = Ok (HookCreated g, db')" and "ids_ok db" and "ch_hook c = hook_create n" and "hook_storable dp g"
  shows "g = hook_create n" and "hook_creation dp [audit_row_of a (if ch_is_accounts_default c then AuditAccountsConnected else AuditCreated)
        g (ch_audit c) (ch_recorded_at c)] g db db'"
proof -
  have g: "g = ch_hook c" using assms(1) by (cases rule: create_hookE) auto
  then show "g = hook_create n" using assms(3) by simp
  have "wf_hook g" "hk_last_received_at g = None" "hk_last_blocked_at g = None" "hk_endpoint_rotated_at g = None"
    unfolding g assms(3) by (rule wf_hook_create) (simp_all add: hook_create_def)
  note new = create_refines [OF assms(1,2,4) this]
  show "hook_creation dp [audit_row_of a
      (if ch_is_accounts_default c then AuditAccountsConnected else AuditCreated) g (ch_audit c) (ch_recorded_at c)] g db db'"
    unfolding hook_creation_def append_Cons append_Nil using new by blast
qed

lemma replay_answers_stored:
  assumes "reserve_management_key s now db = Ok (Replayed response, db')" and "ids_ok db"
    and "select_replayed_scoped_hook dp su response db' = Ok h" and "hk_status h \<noteq> Deleted"
  shows "hook_replay dp su h response db db'"
proof -
  note res = reserve_hooks [OF assms(1)]
  obtain i r where i: "pr_resource_id response = Some i" and r: "find (row_owned su i) (db_hooks db') = Some r" "hook_of_row dp r = Ok h"
    using assms(3) by (auto simp: select_replayed_scoped_hook_def result_simps select_Ok)
  have ids: "ids_ok db'" using res(5) assms(2) by simp
  note found = owned_is_found [OF ids r(1)]
  have "hk_id h = i" using r(2) found(2) by (auto simp: hook_of_row_Ok row_owned_def)
  moreover have "stored dp db' (hook_uuid i) = Some (Ok h)" using found(1) r(2) by (simp add: stored_def)
  moreover have "hk_silicon_uuid h = Some su" using owner_of_row [OF r(2)] found(2) by (simp add: row_owned_def)
  ultimately show ?thesis using i res(3) ids assms(4) by (simp add: hook_replay_def res(4) [of dp, symmetric])
qed

lemma replays:
  assumes "ids_ok db"
  shows "create_hook dp a cc db = Ok (CreateReplayed h response, db') \<Longrightarrow> hk_silicon_uuid (ch_hook cc) = Some su \<Longrightarrow>
      hook_replay dp su h response db db'"
    and "restore_hook dp a rc db = Ok (RestoreReplayed h response, db') \<Longrightarrow> hook_replay dp (rh_silicon_uuid rc) h response db db'"
    and "rotate_hook_secret dp a sc db = Ok (RotationReplayed h response, db') \<Longrightarrow> hook_replay dp (rs_silicon_uuid sc) h response db db'"
    and "rotate_hook_endpoint dp a ec db = Ok (RotationReplayed h response, db') \<Longrightarrow> hook_replay dp (re_silicon_uuid ec) h response db db'"
  by (erule create_hookE restore_hookE rotate_hook_secretE rotate_hook_endpointE;
      auto intro: replay_answers_stored [OF _ assms])+

text \<open>
  A batch of activations: each hook in it makes its transition, every other stays, and one audit row
  is added for each hook that was not yet in the wanted state.
\<close>

definition hook_batch :: "('u, 'k, 'z) deps \<Rightarrow> batch_hook_activation \<Rightarrow> hook list \<Rightarrow> db \<Rightarrow> db \<Rightarrow> bool" where
  "hook_batch dp c gs db db' \<longleftrightarrow>
     set (map hk_id gs) = set (ba_hook_ids c) \<and> ids_ok db' \<and>
     (\<forall>i. HookId i \<notin> set (ba_hook_ids c) \<longrightarrow> stored dp db' i = stored dp db i) \<and>
     (\<forall>i. HookId i \<in> set (ba_hook_ids c) \<longrightarrow>
        (\<exists>h g. stored dp db i = Some (Ok h) \<and> hk_silicon_uuid h = Some (ba_silicon_uuid c) \<and>
           hook_activate (ba_enabled c) (ba_occurred_at c) h = Ok g \<and> g \<in> set gs \<and> stored dp db' i = Some (Ok g))) \<and>
     (\<exists>new. db_audit db' = new @ db_audit db \<and>
        au_hook_id ` set new = Some ` {i. HookId i \<in> set (ba_hook_ids c) \<and>
          (\<exists>h. stored dp db i = Some (Ok h) \<and> is_enabled h \<noteq> ba_enabled c)} \<and>
        length new = card (au_hook_id ` set new) \<and>
        (\<forall>r \<in> set new. au_action r = lit (as_db_str (if ba_enabled c then AuditEnabled else AuditDisabled)) \<and>
           au_actor_id r = actor_id_str (ar_id (at_actor (ba_audit c))) \<and> au_occurred_at r = ba_occurred_at c))"

lemma locked_hooks:
  assumes "activation_hook_ids c = Ok ids" and "lock_hooks_for_activation dp c ids db = Ok hs" and "ids_ok db"
  shows "map (hook_uuid \<circ> hk_id) hs = ids" and "h \<in> set hs \<longleftrightarrow> (\<exists>i \<in> set ids. stored dp db i = Some (Ok h))"
    and "i \<in> set ids \<Longrightarrow> \<exists>r \<in> set (db_hooks db). hr_id r = i \<and> hr_silicon_uuid r = Some (account_uuid_str (ba_silicon_uuid c))"
proof -
  let ?Q = "\<lambda>r. hr_silicon_uuid r = Some (account_uuid_str (ba_silicon_uuid c))"
  define rs where "rs = sort_key hr_id (filter (\<lambda>r. ?Q r \<and> hr_id r \<in> set ids) (db_hooks db))"
  have len: "length rs = length ids" and all: "list_all2 (\<lambda>r h. hook_of_row dp r = Ok h) rs hs"
    using assms(2) by (auto simp: lock_hooks_for_activation_def Let_def rs_def result_simps split: if_splits)
  have key: "map hr_id rs = ids"
    by (rule sorted_rows_ids [OF _ _ _ rs_def len]) (use assms(3) activation_ids [OF assms(1)] in \<open>auto simp: ids_ok_def\<close>)
  have "list_all2 (\<lambda>r h. hr_id r = hook_uuid (hk_id h)) rs hs"
    by (rule list_all2_mono [OF all]) (auto simp: hook_of_row_Ok)
  then show ids: "map (hook_uuid \<circ> hk_id) hs = ids"
    unfolding key [symmetric] by (induction rule: list_all2_induct) auto
  show "\<exists>r \<in> set (db_hooks db). hr_id r = i \<and> hr_silicon_uuid r = Some (account_uuid_str (ba_silicon_uuid c))" if "i \<in> set ids"
    using that unfolding key [symmetric] by (auto simp: rs_def)
  have rows: "stored dp db (hr_id r) = Some (hook_of_row dp r)" if "r \<in> set rs" for r
  proof -
    have "find (\<lambda>q. hr_id q = hr_id r) (db_hooks db) = Some r"
      by (rule find_unique [of hr_id]) (use assms(3) that in \<open>auto simp: ids_ok_def rs_def\<close>)
    then show ?thesis by (simp add: stored_def)
  qed
  show "h \<in> set hs \<longleftrightarrow> (\<exists>i \<in> set ids. stored dp db i = Some (Ok h))"
  proof
    assume "h \<in> set hs"
    then obtain j where "j < length hs" "hs ! j = h" by (auto simp: in_set_conv_nth)
    then have "rs ! j \<in> set rs" "hook_of_row dp (rs ! j) = Ok h"
      using list_all2_nthD2 [OF all] list_all2_lengthD [OF all] by auto
    then show "\<exists>i \<in> set ids. stored dp db i = Some (Ok h)" using rows key by force
  next
    assume "\<exists>i \<in> set ids. stored dp db i = Some (Ok h)"
    then obtain j where "j < length rs" "stored dp db (hr_id (rs ! j)) = Some (Ok h)"
      unfolding key [symmetric] by (auto simp: in_set_conv_nth)
    then have "hook_of_row dp (rs ! j) = Ok h" "hook_of_row dp (rs ! j) = Ok (hs ! j)" "j < length hs"
      using rows list_all2_nthD [OF all] list_all2_lengthD [OF all] by auto
    then show "h \<in> set hs" by auto
  qed
qed

lemma transitions_change:
  "apply_activation_transitions c hs = Ok (gs, changed) \<Longrightarrow>
     changed = map (hook_uuid \<circ> hk_id) (filter (\<lambda>h. is_enabled h \<noteq> ba_enabled c) hs)"
  by (induction hs arbitrary: gs changed) (auto simp: result_simps)

lemma stored_id: "stored dp db i = Some (Ok h) \<Longrightarrow> hk_id h = HookId i"
  by (auto simp: stored_def hook_of_row_Ok dest!: find_SomeD)

lemma activation_audit_rows:
  assumes "r \<in> set (activation_audits a c changed db)"
  shows "\<exists>i \<in> set changed. au_hook_id r = Some i" and "au_action r = lit (as_db_str (if ba_enabled c then AuditEnabled else AuditDisabled))"
    and "au_actor_id r = actor_id_str (ar_id (at_actor (ba_audit c)))" and "au_occurred_at r = ba_occurred_at c"
  using assms by (auto simp: activation_audits_def in_set_enumerate_eq) (metis nth_mem)

lemma activation_audit_ids:
  "au_hook_id ` set (activation_audits a c changed db) =
     (\<lambda>r. Some (hr_id r)) ` {r \<in> set (db_hooks db). hr_id r \<in> set changed \<and>
       hr_silicon_uuid r = Some (account_uuid_str (ba_silicon_uuid c))}"
proof -
  let ?G = "\<lambda>i. map (\<lambda>r. Some (hr_id r)) (filter (\<lambda>r. hr_id r = i \<and>
             hr_silicon_uuid r = Some (account_uuid_str (ba_silicon_uuid c))) (db_hooks db))"
  have "map au_hook_id (activation_audits a c changed db) = concat (map (\<lambda>p. ?G (snd p)) (enumerate 0 changed))"
    by (simp add: activation_audits_def map_concat comp_def case_prod_beta)
  also have "map (\<lambda>p. ?G (snd p)) (enumerate 0 changed) = map ?G (map snd (enumerate 0 changed))"
    by (simp only: map_map comp_def)
  finally have "map au_hook_id (activation_audits a c changed db) = concat (map ?G changed)"
    by (simp only: map_snd_enumerate)
  from arg_cong [OF this, of set] show ?thesis by auto
qed

lemma batch_refines:
  assumes "set_hooks_enabled dp a c db = Ok (gs, db')" and "ids_ok db"
  shows "hook_batch dp c gs db db'"
proof -
  note act = activation_refines [OF assms]
  obtain ids hs changed n db1 where ids: "activation_hook_ids c = Ok ids"
    and lock: "lock_hooks_for_activation dp c ids db = Ok hs"
    and trans: "apply_activation_transitions c hs = Ok (gs, changed)"
    and upd: "update_hooks (activation_row c ids) (\<lambda>r. r\<lparr>hr_disabled_at := (if ba_enabled c then None else Some (ba_occurred_at c)),
      hr_updated_at := ba_occurred_at c\<rparr>) db = Ok (n, db1)"
    and audit: "insert_activation_audits a c changed db1 = Ok ((), db')"
    using assms(1) by (auto simp: set_hooks_enabled_def update_hook_activation_def result_simps split: if_splits)
  note locked = locked_hooks [OF ids lock assms(2)] and ids1 = activation_ids [OF ids]
  note changed = transitions_change [OF trans]
  have mem: "i \<in> set ids \<longleftrightarrow> HookId i \<in> set (ba_hook_ids c)" for i
    using ids1 by (metis hook_id.collapse hook_id.sel image_iff)
  have set: "set changed = {i. HookId i \<in> set (ba_hook_ids c) \<and> (\<exists>h. stored dp db i = Some (Ok h) \<and> is_enabled h \<noteq> ba_enabled c)}"
  proof (intro set_eqI iffI)
    fix i assume "i \<in> set changed"
    then obtain h where h: "h \<in> set hs" "is_enabled h \<noteq> ba_enabled c" "i = hook_uuid (hk_id h)" by (auto simp: changed)
    from h(1) obtain j where "j \<in> set ids" "stored dp db j = Some (Ok h)" using locked(2) by blast
    with h(2,3) stored_id [OF this(2)] show "i \<in> {i. HookId i \<in> set (ba_hook_ids c) \<and>
        (\<exists>h. stored dp db i = Some (Ok h) \<and> is_enabled h \<noteq> ba_enabled c)}" by (simp add: mem)
  next
    fix i assume "i \<in> {i. HookId i \<in> set (ba_hook_ids c) \<and> (\<exists>h. stored dp db i = Some (Ok h) \<and> is_enabled h \<noteq> ba_enabled c)}"
    then obtain h where h: "i \<in> set ids" "stored dp db i = Some (Ok h)" "is_enabled h \<noteq> ba_enabled c" by (auto simp: mem)
    then have "h \<in> set hs" using locked(2) by blast
    with h(3) stored_id [OF h(2)] show "i \<in> set changed" by (force simp: changed)
  qed
  have "distinct (map (hook_uuid \<circ> hk_id) hs)" using locked(1) ids1 by simp
  then have distinct: "distinct changed" unfolding changed by (rule distinct_map_filter)
  have db1: "db_audit db1 = db_audit db" "db_hooks db1 = rows_update (activation_row c ids) (\<lambda>r. r\<lparr>hr_disabled_at :=
      (if ba_enabled c then None else Some (ba_occurred_at c)), hr_updated_at := ba_occurred_at c\<rparr>) (db_hooks db)"
    using upd by (auto simp: update_hooks_Ok)
  let ?rows = "activation_audits a c changed db1"
  have named: "au_hook_id ` set ?rows = Some ` set changed"
  proof
    show "au_hook_id ` set ?rows \<subseteq> Some ` set changed" using activation_audit_rows(1) by fastforce
    show "Some ` set changed \<subseteq> au_hook_id ` set ?rows"
    proof
      fix x assume "x \<in> Some ` set changed"
      then obtain k where k: "k < length changed" "x = Some (changed ! k)" by (auto simp: in_set_conv_nth)
      then have "changed ! k \<in> set ids" using set mem nth_mem by blast
      from locked(3) [OF this] obtain r where "r \<in> set (db_hooks db)" "hr_id r = changed ! k"
        "hr_silicon_uuid r = Some (account_uuid_str (ba_silicon_uuid c))" by blast
      then have "\<exists>q \<in> set (db_hooks db1). hr_id q = changed ! k \<and> hr_silicon_uuid q = Some (account_uuid_str (ba_silicon_uuid c))"
        unfolding db1(2) set_rows_update by (intro bexI [OF _ imageI]) auto
      then obtain q where q: "q \<in> set (db_hooks db1)" "hr_id q = changed ! k"
        "hr_silicon_uuid q = Some (account_uuid_str (ba_silicon_uuid c))" by blast
      have "changed ! k \<in> set changed" using k(1) by simp
      with q k(2) show "x \<in> au_hook_id ` set ?rows" unfolding activation_audit_ids by (intro image_eqI [of _ _ q]) simp_all
    qed
  qed
  have "\<exists>new. db_audit db' = new @ db_audit db \<and> au_hook_id ` set new = Some ` set changed \<and> length new = length changed \<and>
      (\<forall>r \<in> set new. r \<in> set ?rows)"
  proof (cases "changed = []")
    case True
    then show ?thesis using audit db1(1) by (simp add: insert_activation_audits_def)
  next
    case False
    then show ?thesis using audit db1(1) named by (auto simp: insert_activation_audits_def Let_def split: if_splits)
  qed
  then obtain new where new: "db_audit db' = new @ db_audit db" "au_hook_id ` set new = Some ` set changed"
      "length new = length changed" "\<forall>r \<in> set new. r \<in> set ?rows" by blast
  have "card (Some ` set changed) = length changed" using distinct by (simp add: card_image distinct_card)
  then have "length new = card (au_hook_id ` set new)" using new(2,3) by simp
  moreover have "\<forall>r \<in> set new. au_action r = lit (as_db_str (if ba_enabled c then AuditEnabled else AuditDisabled)) \<and>
           au_actor_id r = actor_id_str (ar_id (at_actor (ba_audit c))) \<and> au_occurred_at r = ba_occurred_at c"
    using new(4) activation_audit_rows(2-4) by blast
  ultimately have "\<exists>new. db_audit db' = new @ db_audit db \<and> au_hook_id ` set new = Some ` set changed \<and>
      length new = card (au_hook_id ` set new) \<and>
      (\<forall>r \<in> set new. au_action r = lit (as_db_str (if ba_enabled c then AuditEnabled else AuditDisabled)) \<and>
           au_actor_id r = actor_id_str (ar_id (at_actor (ba_audit c))) \<and> au_occurred_at r = ba_occurred_at c)"
    using new(1,2) by (intro exI [of _ new] conjI)
  then show ?thesis
    unfolding hook_batch_def set [symmetric] using act by (intro conjI allI impI)
qed

text \<open>C6: Every transaction of the hook store is a transition of the aggregate. Over tables with distinct hook
  identifiers, whenever one succeeds:
  creating adds the new hook under an identifier that was free; deleting, updating, restoring,
  rotating the secret and rotating the endpoint find the hook stored under its identifier for the
  owner in the request, put the result of the transition they are named after in its place, and
  change nothing else of the map from identifiers to hooks; each of these adds exactly one audit row
  with its action and actor. Activating a batch does the same for each hook of the batch, with an
  audit row for each hook that was not yet in the wanted state. A creation, restoration or rotation
  that is repeated under its key answers the hook as it is stored and leaves the map and the audit
  log alone. (For a creation and an update the resulting hook, for a rotation the new secret or key,
  is taken to be one whose parts their own constructors accept, as the types of the code ensure.)\<close>

theorem hook_transactions_refine_the_aggregate:
  assumes "ids_ok db"
  shows "(\<forall>c n g db'. create_hook dp a c db = Ok (HookCreated g, db') \<and> ch_hook c = hook_create n \<and> hook_storable dp g \<longrightarrow>
      g = hook_create n \<and>
      hook_creation dp [audit_row_of a (if ch_is_accounts_default c then AuditAccountsConnected else AuditCreated)
        g (ch_audit c) (ch_recorded_at c)] g db db') \<and>
    (\<forall>c g db'. delete_hook dp a c db = Ok (g, db') \<longrightarrow>
      hook_transaction dp [audit_row_of a AuditDeleted g (hm_audit c) (hm_occurred_at c)]
        (hm_silicon_uuid c) (hm_hook_id c) (hook_delete (hm_occurred_at c)) g db db') \<and>
    (\<forall>c g db'. update_hook dp a c db = Ok (g, db') \<and> hook_storable dp g \<longrightarrow>
      hook_transaction dp [audit_row_of a AuditUpdated g (uh_audit c) (uh_occurred_at c)]
        (uh_silicon_uuid c) (uh_hook_id c) (hook_apply_update (uh_update c)) g db db') \<and>
    (\<forall>c g db'. restore_hook dp a c db = Ok (Restored g, db') \<longrightarrow>
      hook_transaction dp [audit_row_of a AuditRestored g (rh_audit c) (rh_occurred_at c)]
        (rh_silicon_uuid c) (rh_hook_id c) (hook_restore (dp_time dp) (rh_occurred_at c)) g db db') \<and>
    (\<forall>c g db'. rotate_hook_secret dp a c db = Ok (Rotated g, db') \<and> secret_storable (rs_encrypted_secret c) \<longrightarrow>
      hook_transaction dp [audit_row_of a AuditSecretRotated g (rs_audit c) (rs_occurred_at c)]
        (rs_silicon_uuid c) (rs_hook_id c) (hook_rotate_secret (rs_encrypted_secret c)) g db db') \<and>
    (\<forall>c g db'. rotate_hook_endpoint dp a c db = Ok (Rotated g, db') \<and>
        endpoint_key_parse (endpoint_key_str (re_replacement c)) = Ok (re_replacement c) \<longrightarrow>
      hook_transaction dp [audit_row_of a AuditEndpointRotated g (re_audit c) (re_occurred_at c)]
        (re_silicon_uuid c) (re_hook_id c)
        (\<lambda>h. map_ok fst (hook_rotate_endpoint (re_replacement c) (re_occurred_at c) h)) g db db') \<and>
    (\<forall>ids c gs db'. set_hooks_enabled dp ids c db = Ok (gs, db') \<longrightarrow> hook_batch dp c gs db db') \<and>
    (\<forall>c su h response db'. create_hook dp a c db = Ok (CreateReplayed h response, db') \<and> hk_silicon_uuid (ch_hook c) = Some su \<longrightarrow>
      hook_replay dp su h response db db') \<and>
    (\<forall>c h response db'. restore_hook dp a c db = Ok (RestoreReplayed h response, db') \<longrightarrow>
      hook_replay dp (rh_silicon_uuid c) h response db db') \<and>
    (\<forall>c h response db'. rotate_hook_secret dp a c db = Ok (RotationReplayed h response, db') \<longrightarrow>
      hook_replay dp (rs_silicon_uuid c) h response db db') \<and>
    (\<forall>c h response db'. rotate_hook_endpoint dp a c db = Ok (RotationReplayed h response, db') \<longrightarrow>
      hook_replay dp (re_silicon_uuid c) h response db db')"
  by (intro conjI allI impI; (elim conjE)?;
      (rule delete_transaction [OF _ assms] update_transaction [OF _ assms] restore_transaction [OF _ assms]
        rotate_secret_transaction [OF _ assms] rotate_endpoint_transaction [OF _ assms] batch_refines [OF _ assms]
        replays [OF assms] created_fresh [OF _ assms]; assumption)+)

definition demo_audit :: audit_context where
  "demo_audit = \<lparr>at_actor = actor_ref_account Carbon (AccountUuid (lit ''b97'')), at_request_id = None\<rparr>"

definition demo_delete :: hook_mutation where
  "demo_delete = \<lparr>hm_silicon_uuid = demo_silicon, hm_hook_id = HookId 1, hm_audit = demo_audit, hm_occurred_at = 7\<rparr>"

lemma demo_db_sel [simp]: "db_hooks demo_db = [demo_row]" "db_audit demo_db = []" "db_retired demo_db = []"
    "db_idempotency demo_db = []" "ids_ok demo_db"
  by (simp_all add: demo_db_def empty_db_def ids_ok_def)

lemma demo_select [simp]:
  "select_scoped_hook_for_update demo_deps demo_silicon (HookId 1) demo_db = Ok (Some stored_hook)"
  by (simp add: select_scoped_hook_for_update_def row_owned_def demo_silicon_def)

theorem hook_transactions_refine_the_aggregate_witness:
  "\<exists>g db'. delete_hook demo_deps 5 demo_delete demo_db = Ok (g, db') \<and>
     stored demo_deps db' = (stored demo_deps demo_db)(1 \<mapsto> Ok g) \<and> hk_deleted_at g = Some 7"
proof -
  obtain g where g: "hook_delete 7 stored_hook = Ok g" "hk_deleted_at g = Some 7"
    by (simp add: hook_delete_def)
  have "\<exists>db'. delete_hook demo_deps 5 demo_delete demo_db = Ok (g, db')"
    by (simp add: delete_hook_def demo_delete_def g update_hooks_def Let_def rows_update_def rows_affected_def
        hook_check_def ensure_one_row_def insert_audit_def)
  then obtain db' where "delete_hook demo_deps 5 demo_delete demo_db = Ok (g, db')" ..
  with hook_transactions_refine_the_aggregate [of demo_db demo_deps 5] g show ?thesis
    by (auto simp: hook_transaction_def demo_delete_def)
qed

end
