(* ===== verification/EventFacts.thy ===== *)
theory EventFacts
  imports HookStoreFacts EventStore
begin

text \<open>
  What the transactions of \<open>EventStore\<close> and \<open>Outbox\<close> do to the tables: which tables a statement
  leaves alone, the rule for an accepted event, and the counters behind delivery positions.
\<close>

section \<open>Tables a statement leaves alone\<close>

lemma insert_send_tables: "insert_send row db = Ok (i, db') \<Longrightarrow> db' = db\<lparr>db_outbox := db_outbox db'\<rparr>"
  by (auto simp: insert_send_def split: if_splits)

lemma enqueue_ting_tables: "enqueue_ting tg i clock e u body s db = Ok (j, db') \<Longrightarrow> db' = db\<lparr>db_outbox := db_outbox db'\<rparr>"
  by (auto simp: enqueue_ting_def result_simps dest: insert_send_tables split: option.splits if_splits)

lemma enqueue_all_tables:
  "enqueue_all dp tg new_id clock e s app rs db = Ok db' \<Longrightarrow> db' = db\<lparr>db_outbox := db_outbox db'\<rparr>"
proof (induction rs arbitrary: db)
  case (Cons r rs)
  then obtain db1 where one: "enqueue_observer dp tg new_id clock e s app r db = Ok db1"
    and rest: "enqueue_all dp tg new_id clock e s app rs db1 = Ok db'" by (auto simp: result_simps)
  from one have "db1 = db\<lparr>db_outbox := db_outbox db1\<rparr>"
    by (auto simp: enqueue_observer_def result_simps dest: enqueue_ting_tables)
  moreover have "db' = db1\<lparr>db_outbox := db_outbox db'\<rparr>" by (rule Cons.IH [OF rest])
  ultimately show ?case by (metis db.update_convs(14) db.surjective)
qed simp

lemma queue_sends_tables:
  "queue_sends dp tg new_id clock app su e db = Ok db' \<Longrightarrow> db' = db\<lparr>db_outbox := db_outbox db'\<rparr>"
proof -
  assume "queue_sends dp tg new_id clock app su e db = Ok db'"
  then obtain i body db1 s where one: "enqueue_ting tg (new_id None) clock e su body None db = Ok (i, db1)"
    and rest: "enqueue_observers dp tg (\<lambda>s. new_id (Some s)) clock e su s app db1 = Ok db'"
    by (auto simp: queue_sends_def Let_def result_simps)
  have "db1 = db\<lparr>db_outbox := db_outbox db1\<rparr>" by (rule enqueue_ting_tables [OF one])
  moreover have "db' = db1\<lparr>db_outbox := db_outbox db'\<rparr>"
    using rest by (auto simp: enqueue_observers_def Let_def split: if_splits dest: enqueue_all_tables)
  ultimately show ?thesis by (metis db.update_convs(14) db.surjective)
qed

section \<open>Accepting an event\<close>

definition counter :: "ustring \<Rightarrow> db \<Rightarrow> int" where
  "counter key db = (case map_of (db_sequences db) key of None \<Rightarrow> 0 | Some n \<Rightarrow> n)"

lemma map_of_replace:
  "map_of (map (\<lambda>(k, n). if k = key then (k, v) else (k, n)) xs) x =
     (if x = key then map_option (\<lambda>_. v) (map_of xs key) else map_of xs x)"
  by (induction xs) auto

lemma next_sequence_Ok:
  assumes "next_sequence key db = Ok (n, db')"
  shows "n = counter key db + 1" and "db' = db\<lparr>db_sequences := db_sequences db'\<rparr>"
    and "counter k db' = (if k = key then n else counter k db)"
  using assms
  by (auto simp: next_sequence_def counter_def map_of_replace split: option.splits if_splits)

lemma insert_event_Ok:
  assumes "insert_event cr e db = Ok db'"
  obtains r where "find (\<lambda>r. hr_id r = hook_uuid (ev_hook_id e)) (db_hooks db) = Some r"
    and "db' = db\<lparr>db_events := event_row_of cr r e # db_events db\<rparr>"
    and "event_uuid (ev_id e) \<notin> set (map er_id (db_events db))"
    and "(hr_silicon_id r, sequence_get (ev_sequence e)) \<notin>
          set (map (\<lambda>x. (er_silicon_id x, er_sequence x)) (db_events db))"
    and "capture_check ''events'' (bind_capture cr (ev_request e)) = None"
  using assms
  by (auto simp: insert_event_def Let_def event_row_of_def split: option.splits if_splits)

lemma accept_eventE:
  assumes "accept_event dp tg new_id clock c request db = Ok (e, db')"
  obtains db1 db2 db3 r where
    "update_hooks (serving_row (hook_uuid (hk_id (av_hook c)))) (touch_received (cap_received_at request)) db = Ok (1, db1)"
    and "next_sequence (silicon_id_str (hk_silicon_id (av_hook c))) db1 = Ok (sequence_get (ev_sequence e), db2)"
    and "1 \<le> sequence_get (ev_sequence e)"
    and "e = event_accept (dp_jiff dp) (av_event c) (av_hook c) request (ev_sequence e)"
    and "insert_event (dp_crates dp) e db2 = Ok db3"
    and "db' = db3\<lparr>db_outbox := db_outbox db'\<rparr>"
proof -
  obtain db1 n db2 s db3 where
    "update_hooks (serving_row (hook_uuid (hk_id (av_hook c)))) (touch_received (cap_received_at request)) db = Ok (1, db1)"
    and "next_sequence (silicon_id_str (hk_silicon_id (av_hook c))) db1 = Ok (n, db2)"
    and s: "delivery_sequence_new n = Ok s"
    and ins: "insert_event (dp_crates dp) (event_accept (dp_jiff dp) (av_event c) (av_hook c) request s) db2 = Ok db3"
    and rest: "(case (av_delivery c, ev_silicon_uuid (event_accept (dp_jiff dp) (av_event c) (av_hook c) request s)) of
        (Some app_id, Some su) \<Rightarrow> map_ok (\<lambda>db. (event_accept (dp_jiff dp) (av_event c) (av_hook c) request s, db))
          (queue_sends dp tg new_id clock app_id su (event_accept (dp_jiff dp) (av_event c) (av_hook c) request s) db3)
      | _ \<Rightarrow> Ok (event_accept (dp_jiff dp) (av_event c) (av_hook c) request s, db3)) = Ok (e, db')"
    using assms by (auto simp: accept_event_def Let_def result_simps split: if_splits)
  moreover have e: "e = event_accept (dp_jiff dp) (av_event c) (av_hook c) request s"
    using rest by (auto simp: result_simps split: option.splits)
  moreover have "ev_sequence e = s" by (simp add: e event_accept_def Let_def)
  moreover have "1 \<le> sequence_get s" "n = sequence_get s"
    using s by (auto simp: delivery_sequence_new_def split: if_splits)
  moreover have "db' = db3\<lparr>db_outbox := db_outbox db'\<rparr>"
    using rest by (auto simp: result_simps split: option.splits dest: queue_sends_tables)
  ultimately show thesis using that by metis
qed

section \<open>Delivery positions\<close>

definition stream_of :: "event_row \<Rightarrow> ustring \<times> int" where
  "stream_of r = (er_silicon_id r, er_sequence r)"

definition streams_ok :: "db \<Rightarrow> bool" where
  "streams_ok db \<longleftrightarrow>
     distinct (map er_id (db_events db)) \<and> distinct (map stream_of (db_events db)) \<and>
     (\<forall>r \<in> set (db_events db). 1 \<le> er_sequence r \<and> er_sequence r \<le> counter (er_silicon_id r) db)"

text \<open>The hook a request was routed to carries the namespace key of its row, which no statement changes.\<close>

definition same_namespace :: "hook \<Rightarrow> db \<Rightarrow> bool" where
  "same_namespace h db \<longleftrightarrow>
     (\<forall>r \<in> set (db_hooks db). hr_id r = hook_uuid (hk_id h) \<longrightarrow> hr_silicon_id r = silicon_id_str (hk_silicon_id h))"

lemma accept_event_streams:
  assumes "accept_event dp tg new_id clock c request db = Ok (e, db')"
  shows "sequence_get (ev_sequence e) = counter (silicon_id_str (hk_silicon_id (av_hook c))) db + 1"
    and "counter k db' =
      (if k = silicon_id_str (hk_silicon_id (av_hook c)) then sequence_get (ev_sequence e) else counter k db)"
    and "streams_ok db \<Longrightarrow> same_namespace (av_hook c) db \<Longrightarrow> streams_ok db'"
proof -
  let ?key = "silicon_id_str (hk_silicon_id (av_hook c))"
  from assms obtain db1 db2 db3 where
    upd: "update_hooks (serving_row (hook_uuid (hk_id (av_hook c)))) (touch_received (cap_received_at request)) db = Ok (1, db1)"
    and seq: "next_sequence ?key db1 = Ok (sequence_get (ev_sequence e), db2)" and pos: "1 \<le> sequence_get (ev_sequence e)"
    and e: "e = event_accept (dp_jiff dp) (av_event c) (av_hook c) request (ev_sequence e)"
    and ins: "insert_event (dp_crates dp) e db2 = Ok db3" and out: "db' = db3\<lparr>db_outbox := db_outbox db'\<rparr>"
    by (rule accept_eventE)
  have db1: "db_sequences db1 = db_sequences db" "db_events db1 = db_events db"
    "db_hooks db1 = rows_update (serving_row (hook_uuid (hk_id (av_hook c)))) (touch_received (cap_received_at request)) (db_hooks db)"
    using upd by (auto simp: update_hooks_Ok)
  have c1: "counter k db1 = counter k db" for k by (simp add: counter_def db1)
  note next1 = next_sequence_Ok [OF seq]
  show first: "sequence_get (ev_sequence e) = counter ?key db + 1" using next1(1) c1 by simp
  from ins obtain r where r: "find (\<lambda>r. hr_id r = hook_uuid (ev_hook_id e)) (db_hooks db2) = Some r"
    and db3: "db3 = db2\<lparr>db_events := event_row_of (dp_crates dp) r e # db_events db2\<rparr>"
    and new: "event_uuid (ev_id e) \<notin> set (map er_id (db_events db2))"
    and pair: "(hr_silicon_id r, sequence_get (ev_sequence e)) \<notin> set (map (\<lambda>x. (er_silicon_id x, er_sequence x)) (db_events db2))"
    by (rule insert_event_Ok)
  have "db_sequences db3 = db_sequences db2" by (simp add: db3)
  then have seqs: "db_sequences db' = db_sequences db2" by (subst out) simp
  then show c': "counter k db' = (if k = ?key then sequence_get (ev_sequence e) else counter k db)" for k
    using next1(3) [of k] c1 by (simp add: counter_def)
  assume ok: "streams_ok db" and ns: "same_namespace (av_hook c) db"
  have events2: "db_events db2 = db_events db" by (subst next1(2)) (simp add: db1)
  have hooks2: "db_hooks db2 = db_hooks db1" by (subst next1(2)) simp
  have events': "db_events db' = event_row_of (dp_crates dp) r e # db_events db"
    by (subst out) (simp add: db3 events2)
  have "r \<in> set (db_hooks db1)" "hr_id r = hook_uuid (hk_id (av_hook c))"
    using find_SomeD [OF r] hooks2 by (simp_all, subst (asm) e, simp add: event_accept_def Let_def)
  then have key: "hr_silicon_id r = ?key"
    using ns unfolding db1(3) set_rows_update same_namespace_def
    by (auto simp: touch_received_def split: if_splits)
  have row: "er_id (event_row_of (dp_crates dp) r e) = event_uuid (ev_id e)"
    "er_silicon_id (event_row_of (dp_crates dp) r e) = ?key"
    "er_sequence (event_row_of (dp_crates dp) r e) = sequence_get (ev_sequence e)"
    by (simp_all add: event_row_of_def key)
  show "streams_ok db'"
    unfolding streams_ok_def events'
  proof (intro conjI ballI)
    show "distinct (map er_id (event_row_of (dp_crates dp) r e # db_events db))"
      using ok new by (simp add: streams_ok_def row events2)
    show "distinct (map stream_of (event_row_of (dp_crates dp) r e # db_events db))"
      using ok pair by (auto simp: streams_ok_def row events2 key stream_of_def)
    fix x assume "x \<in> set (event_row_of (dp_crates dp) r e # db_events db)"
    then show "1 \<le> er_sequence x" "er_sequence x \<le> counter (er_silicon_id x) db'"
      using ok pos first by (auto simp: streams_ok_def row c' dest!: bspec)
  qed
qed

text \<open>The unique index on the stream is never what makes an insertion fail.\<close>

lemma fresh_position:
  "streams_ok db \<Longrightarrow> (k, counter k db + 1) \<notin> set (map stream_of (db_events db))"
  by (auto simp: streams_ok_def stream_of_def dest!: bspec)

end
