(* ===== verification/Accounts.thy ===== *)
theory Accounts
  imports EventStore Policy "HOL-Library.List_Lexorder"
begin

text \<open>
  What the service knows about accounts (\<open>infrastructure/postgres/accounts.rs\<close>): the cached
  accounts with the public identifiers seen for each, and the grants and allow lists of a Silicon
  (\<open>access.rs\<close>). A statement with \<open>ON CONFLICT\<close> checks the row it proposes before it looks for a
  conflict. Text columns are ordered by code points. A row is converted after the transaction is
  committed, so an operation that cannot read its row back has still written it.
\<close>

section \<open>Records\<close>

record account_record =
  rc_uuid :: account_uuid
  rc_kind :: actor_kind
  rc_public_id :: "public_id option"
  rc_public_id_at :: "instant option"
  rc_display_name :: "ustring option"
  rc_pfp_url :: "ustring option"
  rc_custodian_uuid :: "account_uuid option"
  rc_custodian_checked_at :: "instant option"
  rc_revoked_before :: "instant option"
  rc_deleted_at :: "instant option"

record account_view =
  vw_uuid :: account_uuid
  vw_kind :: actor_kind
  vw_public_id :: "public_id option"
  vw_custodian :: "(account_uuid \<times> public_id option) option"

record grant_record =
  gt_silicon_uuid :: account_uuid
  gt_grantee_uuid :: account_uuid
  gt_level :: grant_level
  gt_granted_by_uuid :: account_uuid
  gt_created_at :: instant
  gt_updated_at :: instant

record allow_record =
  aw_silicon_uuid :: account_uuid
  aw_allowed_uuid :: account_uuid
  aw_added_by_uuid :: account_uuid
  aw_created_at :: instant

definition stored_uuid :: "uuid_crate \<Rightarrow> ustring \<Rightarrow> (account_uuid, store_error) result" where
  "stored_uuid uc v = map_err (corrupt ''account uuid'') (account_uuid_new uc v)"

definition account_of_row :: "uuid_crate \<Rightarrow> account_row \<Rightarrow> (account_record, store_error) result" where
  "account_of_row uc r =
     and_then (stored_uuid uc (ac_uuid r)) (\<lambda>u.
     and_then (ok_or (Database SqlxOther) (ac_kind r)) (\<lambda>kind.
     and_then (parse_actor_kind kind) (\<lambda>kind.
     and_then (map_err (corrupt ''account'') (transpose_opt (map_option public_id_new (ac_public_id r)))) (\<lambda>i.
     and_then (transpose_opt (map_option (stored_uuid uc) (ac_custodian_uuid r))) (\<lambda>custodian.
       Ok \<lparr>rc_uuid = u, rc_kind = kind, rc_public_id = i, rc_public_id_at = ac_public_id_at r,
           rc_display_name = ac_display_name r, rc_pfp_url = ac_pfp_url r, rc_custodian_uuid = custodian,
           rc_custodian_checked_at = ac_custodian_checked_at r, rc_revoked_before = ac_revoked_before r,
           rc_deleted_at = ac_deleted_at r\<rparr>)))))"

definition grant_of_row :: "uuid_crate \<Rightarrow> grant_row \<Rightarrow> (grant_record, store_error) result" where
  "grant_of_row uc r =
     and_then (stored_uuid uc (gr_silicon_uuid r)) (\<lambda>silicon.
     and_then (stored_uuid uc (gr_grantee_uuid r)) (\<lambda>grantee.
     and_then (ok_or (CorruptData ''silicon_grant'' (CauseText ''unknown level'')) (grant_level_parse (gr_level r))) (\<lambda>level.
     and_then (stored_uuid uc (gr_granted_by_uuid r)) (\<lambda>granted_by.
       Ok \<lparr>gt_silicon_uuid = silicon, gt_grantee_uuid = grantee, gt_level = level,
           gt_granted_by_uuid = granted_by, gt_created_at = gr_created_at r, gt_updated_at = gr_updated_at r\<rparr>))))"

definition allow_of_row :: "uuid_crate \<Rightarrow> allow_row \<Rightarrow> (allow_record, store_error) result" where
  "allow_of_row uc r =
     and_then (stored_uuid uc (al_silicon_uuid r)) (\<lambda>silicon.
     and_then (stored_uuid uc (al_allowed_uuid r)) (\<lambda>allowed.
     and_then (stored_uuid uc (al_added_by_uuid r)) (\<lambda>added_by.
       Ok \<lparr>aw_silicon_uuid = silicon, aw_allowed_uuid = allowed, aw_added_by_uuid = added_by,
           aw_created_at = al_created_at r\<rparr>)))"

section \<open>Cached accounts\<close>

text \<open>The default columns, and the check that only a Silicon has a custodian; an unknown kind passes it.\<close>

definition new_account :: "account_uuid \<Rightarrow> instant \<Rightarrow> account_row" where
  "new_account u clock =
     \<lparr>ac_uuid = account_uuid_str u, ac_kind = None, ac_public_id = None, ac_public_id_at = None,
      ac_display_name = None, ac_pfp_url = None, ac_custodian_uuid = None, ac_custodian_checked_at = None,
      ac_custodian_changed_at = None, ac_profile_version = 0, ac_revoked_before = None,
      ac_deleted_at = None, ac_updated_at = clock\<rparr>"

definition kind_text :: "actor_kind \<Rightarrow> ustring" where
  "kind_text kind = lit (actor_kind_as_str kind)"

definition account_check :: "account_row \<Rightarrow> bool" where
  "account_check r \<longleftrightarrow> ac_custodian_uuid r = None \<or> ac_kind r = None \<or> ac_kind r = Some (kind_text Silicon)"

definition custodian_violation :: store_error where
  "custodian_violation = check_violation ''accounts_only_silicons_have_custodians''"

definition account_row_of :: "account_uuid \<Rightarrow> account_row \<Rightarrow> bool" where
  "account_row_of u r \<longleftrightarrow> ac_uuid r = account_uuid_str u"

text \<open>\<open>INSERT ... ON CONFLICT (uuid) DO UPDATE\<close>, with the row it returns.\<close>

definition upsert_account ::
  "account_uuid \<Rightarrow> account_row \<Rightarrow> (account_row \<Rightarrow> account_row) \<Rightarrow> db \<Rightarrow> (account_row \<times> db, store_error) result" where
  "upsert_account u new f db =
     (if \<not> account_check new then Err custodian_violation
      else
        (case find (account_row_of u) (db_accounts db) of
           None \<Rightarrow> Ok (new, db\<lparr>db_accounts := new # db_accounts db\<rparr>)
         | Some r \<Rightarrow>
             if \<not> account_check (f r) then Err custodian_violation
             else Ok (f r, db\<lparr>db_accounts := rows_update (account_row_of u) f (db_accounts db)\<rparr>)))"

text \<open>\<open>UPDATE ... WHERE uuid = $1 AND P\<close>, and whether it changed the row.\<close>

definition update_account ::
  "account_uuid \<Rightarrow> (account_row \<Rightarrow> bool) \<Rightarrow> (account_row \<Rightarrow> account_row) \<Rightarrow> db \<Rightarrow> (bool \<times> db, store_error) result" where
  "update_account u P f db =
     (case find (account_row_of u) (db_accounts db) of
        None \<Rightarrow> Ok (False, db)
      | Some r \<Rightarrow>
          if \<not> P r then Ok (False, db)
          else if \<not> account_check (f r) then Err custodian_violation
          else Ok (True, db\<lparr>db_accounts := rows_update (account_row_of u) f (db_accounts db)\<rparr>))"

definition or_kind :: "actor_kind \<Rightarrow> account_row \<Rightarrow> account_row" where
  "or_kind kind r = r\<lparr>ac_kind := Some (case ac_kind r of None \<Rightarrow> kind_text kind | Some k \<Rightarrow> k)\<rparr>"

text \<open>A stored public identifier only moves forward in time, and not after deletion.\<close>

definition forward_public_id :: "public_id option \<Rightarrow> instant \<Rightarrow> account_row \<Rightarrow> account_row" where
  "forward_public_id i at r =
     (case i of
        None \<Rightarrow> r
      | Some i \<Rightarrow>
          if ac_deleted_at r = None \<and> (case ac_public_id_at r of None \<Rightarrow> True | Some t \<Rightarrow> t < at)
          then r\<lparr>ac_public_id := Some (public_id_str i), ac_public_id_at := Some at\<rparr>
          else r)"

definition known_account :: "account_uuid \<Rightarrow> actor_kind \<Rightarrow> public_id option \<Rightarrow> instant \<Rightarrow> instant \<Rightarrow> account_row" where
  "known_account u kind i at clock =
     (new_account u clock)
       \<lparr>ac_kind := Some (kind_text kind), ac_public_id := map_option public_id_str i,
        ac_public_id_at := (case i of None \<Rightarrow> None | Some _ \<Rightarrow> Some at)\<rparr>"

definition hour :: int where
  "hour = seconds 3600"

definition seen_row :: "account_uuid \<Rightarrow> public_id \<Rightarrow> account_id_row \<Rightarrow> bool" where
  "seen_row u i r \<longleftrightarrow> ai_account_uuid r = account_uuid_str u \<and> ai_public_id r = public_id_str i"

definition remember_public_id :: "account_uuid \<Rightarrow> public_id \<Rightarrow> instant \<Rightarrow> db \<Rightarrow> (db, store_error) result" where
  "remember_public_id u i clock db =
     (if list_ex (seen_row u i) (db_account_ids db)
      then Ok (db\<lparr>db_account_ids :=
        rows_update (\<lambda>r. seen_row u i r \<and> ai_last_seen_at r < clock - hour)
          (\<lambda>r. r\<lparr>ai_last_seen_at := clock\<rparr>) (db_account_ids db)\<rparr>)
      else if \<not> list_ex (account_row_of u) (db_accounts db)
        then Err (foreign_key_violation ''account_ids_account_uuid_fkey'')
      else Ok (db\<lparr>db_account_ids :=
        \<lparr>ai_account_uuid = account_uuid_str u, ai_public_id = public_id_str i, ai_last_seen_at = clock\<rparr> #
        db_account_ids db\<rparr>))"

definition remember_optional :: "account_uuid \<Rightarrow> public_id option \<Rightarrow> instant \<Rightarrow> db \<Rightarrow> (db, store_error) result" where
  "remember_optional u i clock db =
     (case i of None \<Rightarrow> Ok db | Some i \<Rightarrow> remember_public_id u i clock db)"

definition upsert_known_account ::
  "account_uuid \<Rightarrow> actor_kind \<Rightarrow> public_id option \<Rightarrow> instant \<Rightarrow> instant \<Rightarrow> db \<Rightarrow> (db, store_error) result" where
  "upsert_known_account u kind i at clock db =
     and_then (upsert_account u (known_account u kind i at clock) (\<lambda>r. forward_public_id i at (or_kind kind r)) db)
       (\<lambda>(_, db). remember_optional u i clock db)"

definition account :: "uuid_crate \<Rightarrow> account_uuid \<Rightarrow> db \<Rightarrow> (account_record option, store_error) result" where
  "account uc u db =
     transpose_opt (map_option (account_of_row uc)
       (find (\<lambda>r. account_row_of u r \<and> ac_kind r \<noteq> None) (db_accounts db)))"

text \<open>\<open>DESC NULLS LAST\<close>, then the latest update.\<close>

definition freshness :: "account_row \<Rightarrow> nat \<times> instant \<times> instant" where
  "freshness r =
     (case ac_public_id_at r of None \<Rightarrow> (1, 0, - ac_updated_at r) | Some t \<Rightarrow> (0, - t, - ac_updated_at r))"

definition account_by_public_id :: "uuid_crate \<Rightarrow> public_id \<Rightarrow> db \<Rightarrow> (account_record option, store_error) result" where
  "account_by_public_id uc i db =
     (case sort_key freshness
         (filter (\<lambda>r. ac_public_id r = Some (public_id_str i) \<and> ac_deleted_at r = None \<and> ac_kind r \<noteq> None) (db_accounts db)) of
        [] \<Rightarrow> Ok None
      | r # _ \<Rightarrow> map_ok Some (account_of_row uc r))"

definition observe_token_account ::
  "uuid_crate \<Rightarrow> account_uuid \<Rightarrow> actor_kind \<Rightarrow> public_id option \<Rightarrow> instant \<Rightarrow> instant \<Rightarrow> db \<Rightarrow>
    (account_record, store_error) result \<times> db" where
  "observe_token_account uc u kind i issued_at clock db =
     (case and_then (upsert_account u (known_account u kind i issued_at clock)
              (\<lambda>r. (forward_public_id i issued_at (or_kind kind r))\<lparr>ac_updated_at := clock\<rparr>) db)
              (\<lambda>(r, db). map_ok (Pair r) (remember_optional u i clock db)) of
        Err e \<Rightarrow> (Err e, db)
      | Ok (r, db) \<Rightarrow> (account_of_row uc r, db))"

definition viewed_account :: "account_view \<Rightarrow> instant \<Rightarrow> instant \<Rightarrow> account_row" where
  "viewed_account v at clock =
     (new_account (vw_uuid v) clock)
       \<lparr>ac_kind := Some (kind_text (vw_kind v)), ac_public_id := map_option public_id_str (vw_public_id v),
        ac_public_id_at := Some at, ac_custodian_uuid := map_option (account_uuid_str \<circ> fst) (vw_custodian v),
        ac_custodian_checked_at := (if vw_kind v = Silicon then Some at else None)\<rparr>"

definition view_account :: "account_view \<Rightarrow> instant \<Rightarrow> instant \<Rightarrow> account_row \<Rightarrow> account_row" where
  "view_account v at clock r =
     (let r = (or_kind (vw_kind v) r)\<lparr>ac_updated_at := clock\<rparr> in
      if ac_deleted_at r \<noteq> None then r
      else
        (let r = (case vw_public_id v of
                    None \<Rightarrow> r
                  | Some i \<Rightarrow> r\<lparr>ac_public_id := Some (public_id_str i), ac_public_id_at := Some at\<rparr>) in
         if ac_kind r = Some (kind_text Silicon)
         then r\<lparr>ac_custodian_uuid := map_option (account_uuid_str \<circ> fst) (vw_custodian v),
               ac_custodian_checked_at := Some at\<rparr>
         else r\<lparr>ac_custodian_uuid := None, ac_custodian_checked_at := None\<rparr>))"

definition upsert_custodian ::
  "(account_uuid \<times> public_id option) option \<Rightarrow> instant \<Rightarrow> instant \<Rightarrow> db \<Rightarrow> (db, store_error) result" where
  "upsert_custodian custodian at clock db =
     (case custodian of
        None \<Rightarrow> Ok db
      | Some (u, i) \<Rightarrow> upsert_known_account u Carbon i at clock db)"

definition record_account_view ::
  "uuid_crate \<Rightarrow> account_view \<Rightarrow> instant \<Rightarrow> instant \<Rightarrow> db \<Rightarrow> (account_record, store_error) result \<times> db" where
  "record_account_view uc v at clock db =
     (case and_then (upsert_custodian (vw_custodian v) at clock db) (\<lambda>db.
           and_then (upsert_account (vw_uuid v) (viewed_account v at clock) (view_account v at clock) db) (\<lambda>(r, db).
             map_ok (Pair r) (remember_optional (vw_uuid v) (vw_public_id v) clock db))) of
        Err e \<Rightarrow> (Err e, db)
      | Ok (r, db) \<Rightarrow> (account_of_row uc r, db))"

definition later :: "instant option \<Rightarrow> instant \<Rightarrow> instant option" where
  "later stored at = Some (greatest stored at)"

definition record_account_deleted_by_lookup :: "account_uuid \<Rightarrow> instant \<Rightarrow> instant \<Rightarrow> db \<Rightarrow> (db, store_error) result" where
  "record_account_deleted_by_lookup u at clock db =
     map_ok snd (upsert_account u
       ((new_account u clock)\<lparr>ac_deleted_at := Some at, ac_revoked_before := Some at\<rparr>)
       (\<lambda>r. r\<lparr>ac_deleted_at := or_else (ac_deleted_at r) (Some at), ac_public_id := None,
              ac_revoked_before := later (ac_revoked_before r) at, ac_updated_at := clock\<rparr>) db)"

definition page_of_1000 :: "('r \<Rightarrow> 'k::linorder) \<Rightarrow> 'r list \<Rightarrow> 'r list" where
  "page_of_1000 key rows = take 1000 (sort_key key rows)"

definition silicons_looked_after_by :: "uuid_crate \<Rightarrow> account_uuid \<Rightarrow> db \<Rightarrow> (account_record list, store_error) result" where
  "silicons_looked_after_by uc custodian db =
     collect_map (account_of_row uc)
       (page_of_1000
         (\<lambda>r. (case ac_public_id r of None \<Rightarrow> (1::nat, []) | Some i \<Rightarrow> (0, i), ac_uuid r))
         (filter (\<lambda>r. ac_custodian_uuid r = Some (account_uuid_str custodian) \<and> ac_kind r = Some (kind_text Silicon) \<and>
             ac_deleted_at r = None) (db_accounts db)))"

definition accounts :: "uuid_crate \<Rightarrow> account_uuid list \<Rightarrow> db \<Rightarrow> (account_record list, store_error) result" where
  "accounts uc us db =
     collect_map (account_of_row uc)
       (filter (\<lambda>r. ac_uuid r \<in> set (map account_uuid_str us) \<and> ac_kind r \<noteq> None) (db_accounts db))"

section \<open>Grants and allow lists\<close>

definition grant_row_of :: "account_uuid \<Rightarrow> account_uuid \<Rightarrow> grant_row \<Rightarrow> bool" where
  "grant_row_of silicon grantee r \<longleftrightarrow>
     gr_silicon_uuid r = account_uuid_str silicon \<and> gr_grantee_uuid r = account_uuid_str grantee"

definition grant :: "uuid_crate \<Rightarrow> account_uuid \<Rightarrow> account_uuid \<Rightarrow> db \<Rightarrow> (grant_record option, store_error) result" where
  "grant uc silicon grantee db =
     transpose_opt (map_option (grant_of_row uc) (find (grant_row_of silicon grantee) (db_grants db)))"

definition grants_on :: "uuid_crate \<Rightarrow> account_uuid \<Rightarrow> db \<Rightarrow> (grant_record list, store_error) result" where
  "grants_on uc silicon db =
     collect_map (grant_of_row uc)
       (page_of_1000 (\<lambda>r. (gr_created_at r, gr_grantee_uuid r))
         (filter (\<lambda>r. gr_silicon_uuid r = account_uuid_str silicon) (db_grants db)))"

definition grants_to :: "uuid_crate \<Rightarrow> account_uuid \<Rightarrow> db \<Rightarrow> (grant_record list, store_error) result" where
  "grants_to uc grantee db =
     collect_map (grant_of_row uc)
       (page_of_1000 (\<lambda>r. (gr_created_at r, gr_silicon_uuid r))
         (filter (\<lambda>r. gr_grantee_uuid r = account_uuid_str grantee) (db_grants db)))"

definition access_audit ::
  "uuid \<Rightarrow> audit_action \<Rightarrow> account_uuid \<Rightarrow> actor \<Rightarrow> ustring option \<Rightarrow> instant \<Rightarrow> audit_row" where
  "access_audit i action silicon a request_id clock =
     \<lparr>au_id = i, au_occurred_at = clock, au_action = lit (as_db_str action),
      au_silicon_id = account_uuid_str silicon, au_silicon_uuid = Some (account_uuid_str silicon),
      au_hook_id = None, au_actor_kind = kind_text (actor_kind_of a),
      au_actor_id = account_uuid_str (actor_uuid a), au_actor_uuid = Some (account_uuid_str (actor_uuid a)),
      au_request_id = request_id\<rparr>"

definition insert_access_audit ::
  "uuid \<Rightarrow> audit_action \<Rightarrow> account_uuid \<Rightarrow> actor \<Rightarrow> ustring option \<Rightarrow> instant \<Rightarrow> db \<Rightarrow> (db, store_error) result" where
  "insert_access_audit i action silicon a request_id clock db =
     (if i \<in> set (map au_id (db_audit db)) then Err (unique_violation ''audit_log_pkey'')
      else Ok (db\<lparr>db_audit := access_audit i action silicon a request_id clock # db_audit db\<rparr>))"

definition put_grant ::
  "uuid_crate \<Rightarrow> uuid \<Rightarrow> account_uuid \<Rightarrow> account_uuid \<Rightarrow> grant_level \<Rightarrow> actor \<Rightarrow> ustring option \<Rightarrow> instant \<Rightarrow> db \<Rightarrow>
    (grant_record, store_error) result \<times> db" where
  "put_grant uc audit_id silicon grantee level a request_id clock db =
     (let new = \<lparr>gr_silicon_uuid = account_uuid_str silicon, gr_grantee_uuid = account_uuid_str grantee,
            gr_level = lit (grant_level_as_str level), gr_granted_by_uuid = account_uuid_str (actor_uuid a),
            gr_created_at = clock, gr_updated_at = clock\<rparr>;
          change = (\<lambda>r. r\<lparr>gr_level := gr_level new, gr_granted_by_uuid := gr_granted_by_uuid new, gr_updated_at := clock\<rparr>);
          (r, rows) = (case find (grant_row_of silicon grantee) (db_grants db) of
              None \<Rightarrow> (new, new # db_grants db)
            | Some r \<Rightarrow> (change r, rows_update (grant_row_of silicon grantee) change (db_grants db))) in
      if silicon = grantee then (Err (check_violation ''silicon_grants_not_self''), db)
      else
        (case insert_access_audit audit_id AuditAccessGranted silicon a request_id clock (db\<lparr>db_grants := rows\<rparr>) of
           Err e \<Rightarrow> (Err e, db)
         | Ok db' \<Rightarrow> (grant_of_row uc r, db')))"

definition delete_grant ::
  "uuid \<Rightarrow> account_uuid \<Rightarrow> account_uuid \<Rightarrow> actor \<Rightarrow> ustring option \<Rightarrow> bool \<Rightarrow> instant \<Rightarrow> db \<Rightarrow>
    (bool \<times> db, store_error) result" where
  "delete_grant audit_id silicon grantee a request_id grantee_keeps_access clock db =
     (let deleted = rows_affected (grant_row_of silicon grantee) (db_grants db) = 1;
          db = db\<lparr>db_grants := filter (\<lambda>r. \<not> grant_row_of silicon grantee r) (db_grants db)\<rparr> in
      if \<not> deleted then Ok (False, db)
      else
        (let db = (if grantee_keeps_access then db else delete_observers (subscription_of silicon grantee) db) in
         map_ok (Pair True) (insert_access_audit audit_id AuditAccessRevoked silicon a request_id clock db)))"

definition allow_row_of :: "account_uuid \<Rightarrow> account_uuid \<Rightarrow> allow_row \<Rightarrow> bool" where
  "allow_row_of silicon allowed r \<longleftrightarrow>
     al_silicon_uuid r = account_uuid_str silicon \<and> al_allowed_uuid r = account_uuid_str allowed"

definition allow_list :: "uuid_crate \<Rightarrow> account_uuid \<Rightarrow> db \<Rightarrow> (allow_record list, store_error) result" where
  "allow_list uc silicon db =
     collect_map (allow_of_row uc)
       (page_of_1000 (\<lambda>r. (al_created_at r, al_allowed_uuid r))
         (filter (\<lambda>r. al_silicon_uuid r = account_uuid_str silicon) (db_allowances db)))"

definition allows_any :: "account_uuid \<Rightarrow> account_uuid list \<Rightarrow> db \<Rightarrow> bool" where
  "allows_any silicon others db \<longleftrightarrow>
     list_ex (\<lambda>r. al_silicon_uuid r = account_uuid_str silicon \<and>
       al_allowed_uuid r \<in> set (map account_uuid_str others)) (db_allowances db)"

definition put_allowance ::
  "uuid_crate \<Rightarrow> uuid \<Rightarrow> account_uuid \<Rightarrow> account_uuid \<Rightarrow> actor \<Rightarrow> ustring option \<Rightarrow> instant \<Rightarrow> db \<Rightarrow>
    (allow_record, store_error) result \<times> db" where
  "put_allowance uc audit_id silicon allowed a request_id clock db =
     (let new = \<lparr>al_silicon_uuid = account_uuid_str silicon, al_allowed_uuid = account_uuid_str allowed,
            al_added_by_uuid = account_uuid_str (actor_uuid a), al_created_at = clock\<rparr>;
          (r, rows) = (case find (allow_row_of silicon allowed) (db_allowances db) of
              None \<Rightarrow> (new, new # db_allowances db)
            | Some r \<Rightarrow> (r, db_allowances db)) in
      if silicon = allowed then (Err (check_violation ''silicon_allowances_not_self''), db)
      else
        (case insert_access_audit audit_id AuditAllowListAdded silicon a request_id clock (db\<lparr>db_allowances := rows\<rparr>) of
           Err e \<Rightarrow> (Err e, db)
         | Ok db' \<Rightarrow> (allow_of_row uc r, db')))"

definition delete_allowance ::
  "uuid \<Rightarrow> account_uuid \<Rightarrow> account_uuid \<Rightarrow> actor \<Rightarrow> ustring option \<Rightarrow> instant \<Rightarrow> db \<Rightarrow> (bool \<times> db, store_error) result" where
  "delete_allowance audit_id silicon allowed a request_id clock db =
     (let deleted = rows_affected (allow_row_of silicon allowed) (db_allowances db) = 1;
          db = db\<lparr>db_allowances := filter (\<lambda>r. \<not> allow_row_of silicon allowed r) (db_allowances db)\<rparr> in
      if \<not> deleted then Ok (False, db)
      else map_ok (Pair True) (insert_access_audit audit_id AuditAllowListRemoved silicon a request_id clock db))"

end
