(* ===== verification/AccountsEvents.thy ===== *)
theory AccountsEvents
  imports Accounts
begin

text \<open>
  Webhook events of Silicon Accounts (\<open>infrastructure/postgres/accounts_events.rs\<close>): each is applied
  in one transaction with the row that records its identifier. Identities retired by the move to
  128-bit identifiers are a table of their own; an event that names one is recorded and has no
  other effect.
\<close>

section \<open>Events\<close>

datatype accounts_change =
    IdChanged account_uuid "actor_kind option" "public_id option" public_id
  | Updated account_uuid actor_kind "public_id option" "ustring option" "ustring option"
      "(account_uuid \<times> public_id option) option" int
  | CustodianChanged account_uuid "account_uuid option" "(account_uuid \<times> public_id option) option"
  | SignedOut account_uuid "ustring option"
  | AccessRemoved account_uuid
  | AccountDeleted account_uuid
  | NothingChanged

record accounts_event =
  ax_event_id :: ustring
  ax_event_type :: ustring
  ax_occurred_at :: instant
  ax_change :: accounts_change

datatype event_outcome = Applied | Duplicate

fun change_account :: "accounts_change \<Rightarrow> account_uuid option" where
  "change_account (IdChanged u _ _ _) = Some u"
| "change_account (Updated u _ _ _ _ _ _) = Some u"
| "change_account (CustodianChanged u _ _) = Some u"
| "change_account (SignedOut u _) = Some u"
| "change_account (AccessRemoved u) = Some u"
| "change_account (AccountDeleted u) = Some u"
| "change_account NothingChanged = None"

fun named_accounts :: "accounts_change \<Rightarrow> account_uuid list" where
  "named_accounts (Updated u _ _ _ _ (Some (c, _)) _) = [u, c]"
| "named_accounts (CustodianChanged u before after) =
     u # (case before of None \<Rightarrow> [] | Some b \<Rightarrow> [b]) @ (case after of None \<Rightarrow> [] | Some (a, _) \<Rightarrow> [a])"
| "named_accounts change = (case change_account change of None \<Rightarrow> [] | Some u \<Rightarrow> [u])"

definition retired_identity :: "accounts_change \<Rightarrow> db \<Rightarrow> bool" where
  "retired_identity change db \<longleftrightarrow>
     list_ex (\<lambda>u. account_uuid_str u \<in> set (db_retired_uuids db)) (named_accounts change)"

section \<open>Changes of one account\<close>

definition ensure_account :: "account_uuid \<Rightarrow> actor_kind \<Rightarrow> instant \<Rightarrow> db \<Rightarrow> (db, store_error) result" where
  "ensure_account u kind clock db =
     map_ok snd (upsert_account u ((new_account u clock)\<lparr>ac_kind := Some (kind_text kind)\<rparr>) (or_kind kind) db)"

definition id_changed ::
  "account_uuid \<Rightarrow> actor_kind option \<Rightarrow> public_id option \<Rightarrow> public_id \<Rightarrow> instant \<Rightarrow> instant \<Rightarrow> db \<Rightarrow> (db, store_error) result" where
  "id_changed u kind old_id new_id at clock db =
     and_then (ensure_account u (case kind of None \<Rightarrow> public_id_kind new_id | Some k \<Rightarrow> k) clock db) (\<lambda>db.
     and_then
       (update_account u
         (\<lambda>r. ac_deleted_at r = None \<and> (case ac_public_id_at r of None \<Rightarrow> True | Some t \<Rightarrow> t < at))
         (\<lambda>r. r\<lparr>ac_public_id := Some (public_id_str new_id), ac_public_id_at := Some at, ac_updated_at := clock\<rparr>) db) (\<lambda>(_, db).
     and_then (remember_public_id u new_id clock db) (remember_optional u old_id clock)))"

definition shortened_name :: "ustring \<Rightarrow> ustring" where
  "shortened_name name = take 200 name"

definition short_url :: "ustring option \<Rightarrow> ustring option" where
  "short_url url = (case url of None \<Rightarrow> None | Some v \<Rightarrow> if str_len v \<le> 2048 then Some v else None)"

text \<open>\<open>custodian_changed_at IS NULL OR custodian_changed_at < at\<close>, and the same with \<open><=\<close>.\<close>

definition custodian_before :: "instant \<Rightarrow> account_row \<Rightarrow> bool" where
  "custodian_before at r \<longleftrightarrow> (case ac_custodian_changed_at r of None \<Rightarrow> True | Some t \<Rightarrow> t < at)"

definition custodian_not_after :: "instant \<Rightarrow> account_row \<Rightarrow> bool" where
  "custodian_not_after at r \<longleftrightarrow> (case ac_custodian_changed_at r of None \<Rightarrow> True | Some t \<Rightarrow> t \<le> at)"

definition updated ::
  "account_uuid \<Rightarrow> actor_kind \<Rightarrow> public_id option \<Rightarrow> ustring option \<Rightarrow> ustring option \<Rightarrow>
    (account_uuid \<times> public_id option) option \<Rightarrow> int \<Rightarrow> instant \<Rightarrow> instant \<Rightarrow> db \<Rightarrow> (db, store_error) result" where
  "updated u kind i display_name pfp_url custodian version at clock db =
     and_then (ensure_account u kind clock db) (\<lambda>db.
     and_then
       (update_account u
         (\<lambda>r. ac_deleted_at r = None \<and> ac_profile_version r < version)
         (\<lambda>r. r\<lparr>ac_display_name := map_option shortened_name display_name, ac_pfp_url := short_url pfp_url,
                ac_profile_version := version, ac_updated_at := clock\<rparr>) db) (\<lambda>(newer, db).
     and_then (case i of None \<Rightarrow> Ok db | Some _ \<Rightarrow> upsert_known_account u kind i at clock db) (\<lambda>db.
       if newer \<and> kind = Silicon
       then
         and_then (upsert_custodian custodian at clock db) (\<lambda>db.
         map_ok snd (update_account u (custodian_not_after at)
           (\<lambda>r. r\<lparr>ac_custodian_uuid := map_option (account_uuid_str \<circ> fst) custodian,
                  ac_custodian_checked_at := Some clock\<rparr>) db))
       else Ok db)))"

definition custodian_changed ::
  "account_uuid \<Rightarrow> account_uuid option \<Rightarrow> (account_uuid \<times> public_id option) option \<Rightarrow> instant \<Rightarrow> instant \<Rightarrow> db \<Rightarrow>
    (db, store_error) result" where
  "custodian_changed u before after at clock db =
     and_then (ensure_account u Silicon clock db) (\<lambda>db.
     and_then (upsert_custodian after at clock db) (\<lambda>db.
     and_then
       (update_account u (\<lambda>r. ac_kind r = Some (kind_text Silicon) \<and> custodian_before at r)
         (\<lambda>r. r\<lparr>ac_custodian_uuid := map_option (account_uuid_str \<circ> fst) after, ac_custodian_changed_at := Some at,
                ac_custodian_checked_at := Some clock, ac_updated_at := clock\<rparr>) db) (\<lambda>(applied, db).
       Ok (case before of
             Some previous \<Rightarrow>
               if applied \<and> Some previous \<noteq> map_option fst after
               then delete_observers
                 (\<lambda>s. subscription_of u previous s \<and> \<not> list_ex (grant_row_of u previous) (db_grants db)) db
               else db
           | None \<Rightarrow> db))))"

definition revoke :: "account_uuid \<Rightarrow> instant \<Rightarrow> instant \<Rightarrow> db \<Rightarrow> (db, store_error) result" where
  "revoke u at clock db =
     map_ok (\<lambda>(_, db). delete_observers (\<lambda>s. ob_recipient_uuid s = account_uuid_str u) db)
       (upsert_account u ((new_account u clock)\<lparr>ac_revoked_before := Some at\<rparr>)
         (\<lambda>r. r\<lparr>ac_revoked_before := later (ac_revoked_before r) at, ac_updated_at := clock\<rparr>) db)"

definition account_deleted_audit :: "(uuid \<Rightarrow> uuid) \<Rightarrow> account_uuid \<Rightarrow> instant \<Rightarrow> hook_row \<Rightarrow> audit_row" where
  "account_deleted_audit new_id u clock r =
     \<lparr>au_id = new_id (hr_id r), au_occurred_at = clock, au_action = lit ''account.deleted'',
      au_silicon_id = hr_silicon_id r, au_silicon_uuid = Some (account_uuid_str u), au_hook_id = Some (hr_id r),
      au_actor_kind = kind_text Silicon, au_actor_id = account_uuid_str u,
      au_actor_uuid = Some (account_uuid_str u), au_request_id = None\<rparr>"

definition delete_accounts_hooks ::
  "(uuid \<Rightarrow> uuid) \<Rightarrow> account_uuid \<Rightarrow> instant \<Rightarrow> db \<Rightarrow> (db, store_error) result" where
  "delete_accounts_hooks new_id u clock db =
     (let live = (\<lambda>r. hr_silicon_uuid r = Some (account_uuid_str u) \<and> hr_deleted_at r = None);
          audits = map (account_deleted_audit new_id u clock) (filter live (db_hooks db)) in
      and_then
        (update_hooks live
          (\<lambda>r. r\<lparr>hr_disabled_at := None, hr_deleted_at := Some (max (hr_created_at r) clock), hr_updated_at := clock\<rparr>) db)
        (\<lambda>(_, db).
          if \<not> distinct (map au_id (audits @ db_audit db)) then Err (unique_violation ''audit_log_pkey'')
          else Ok (db\<lparr>db_audit := audits @ db_audit db\<rparr>)))"

definition forget_account :: "account_uuid \<Rightarrow> db \<Rightarrow> db" where
  "forget_account u db =
     (let v = account_uuid_str u in
      delete_observers (\<lambda>s. ob_silicon_uuid s = v \<or> ob_recipient_uuid s = v)
        (db\<lparr>db_grants := filter (\<lambda>g. \<not> (gr_silicon_uuid g = v \<or> gr_grantee_uuid g = v)) (db_grants db),
            db_allowances := filter (\<lambda>a. \<not> (al_silicon_uuid a = v \<or> al_allowed_uuid a = v)) (db_allowances db)\<rparr>))"

definition deleted :: "(uuid \<Rightarrow> uuid) \<Rightarrow> account_uuid \<Rightarrow> instant \<Rightarrow> instant \<Rightarrow> db \<Rightarrow> (db, store_error) result" where
  "deleted new_id u at clock db =
     and_then
       (upsert_account u ((new_account u clock)\<lparr>ac_deleted_at := Some at, ac_revoked_before := Some at\<rparr>)
         (\<lambda>r. r\<lparr>ac_deleted_at := or_else (ac_deleted_at r) (Some at), ac_public_id := None,
                ac_display_name := None, ac_pfp_url := None,
                ac_revoked_before := later (ac_revoked_before r) at, ac_updated_at := clock\<rparr>) db) (\<lambda>(r, db).
       (let db = forget_account u db in
        if ac_kind r = Some (kind_text Carbon) then Ok db else delete_accounts_hooks new_id u clock db))"

section \<open>Applying an event\<close>

fun apply_change :: "(uuid \<Rightarrow> uuid) \<Rightarrow> instant \<Rightarrow> instant \<Rightarrow> accounts_change \<Rightarrow> db \<Rightarrow> (db, store_error) result" where
  "apply_change new_id at clock (IdChanged u kind old_id new_id_text) db = id_changed u kind old_id new_id_text at clock db"
| "apply_change new_id at clock (Updated u kind i name pfp custodian version) db =
     updated u kind i name pfp custodian version at clock db"
| "apply_change new_id at clock (CustodianChanged u before after) db = custodian_changed u before after at clock db"
| "apply_change new_id at clock (SignedOut u reason) db =
     (if reason = Some (lit ''app_revoked'') then Ok db else revoke u at clock db)"
| "apply_change new_id at clock (AccessRemoved u) db = revoke u at clock db"
| "apply_change new_id at clock (AccountDeleted u) db = deleted new_id u at clock db"
| "apply_change new_id at clock NothingChanged db = Ok db"

definition accounts_event_row_of :: "accounts_event \<Rightarrow> bool \<Rightarrow> instant \<Rightarrow> accounts_event_row" where
  "accounts_event_row_of e retired clock =
     \<lparr>ae_event_id = ax_event_id e, ae_event_type = ax_event_type e,
      ae_account_uuid = (if retired then None else map_option account_uuid_str (change_account (ax_change e))),
      ae_occurred_at = Some (ax_occurred_at e), ae_received_at = clock\<rparr>"

definition event_seen :: "ustring \<Rightarrow> db \<Rightarrow> bool" where
  "event_seen i db \<longleftrightarrow> list_ex (\<lambda>r. ae_event_id r = i) (db_accounts_events db)"

definition event_row_check :: "accounts_event \<Rightarrow> string option" where
  "event_row_check e =
     (if \<not> (1 \<le> length (ax_event_id e) \<and> length (ax_event_id e) \<le> 200) then Some ''accounts_events_id_length''
      else if \<not> (1 \<le> length (ax_event_type e) \<and> length (ax_event_type e) \<le> 100)
        then Some ''accounts_events_type_length''
      else None)"

definition apply_accounts_event ::
  "(uuid \<Rightarrow> uuid) \<Rightarrow> accounts_event \<Rightarrow> instant \<Rightarrow> db \<Rightarrow> (event_outcome \<times> db, store_error) result" where
  "apply_accounts_event new_id e clock db =
     (case event_row_check e of
        Some violated \<Rightarrow> Err (check_violation violated)
      | None \<Rightarrow>
          if event_seen (ax_event_id e) db then Ok (Duplicate, db)
          else
            (let retired = retired_identity (ax_change e) db;
                 db = db\<lparr>db_accounts_events := accounts_event_row_of e retired clock # db_accounts_events db\<rparr> in
             if retired then Ok (Applied, db)
             else map_ok (Pair Applied) (apply_change new_id (ax_occurred_at e) clock (ax_change e) db)))"

end
