(* ===== verification/AccountsFacts.thy ===== *)
theory AccountsFacts
  imports AccountsEvents
begin

text \<open>
  What the operations on accounts do to the row of one account: an upsert replaces exactly that
  row, so every operation is a function on the map from account to row. Facts an account has only
  move forward: deletion is permanent, revocation never moves back, a known kind stays, a profile
  version never drops.
\<close>

section \<open>The row of an account\<close>

definition the_account :: "account_uuid \<Rightarrow> db \<Rightarrow> account_row option" where
  "the_account u db = find (account_row_of u) (db_accounts db)"

lemma account_row_of_other: "account_row_of u r \<Longrightarrow> account_row_of v r \<longleftrightarrow> u = v"
  by (auto simp: account_row_of_def account_uuid.expand)

lemma the_account_uuid: "the_account u db = Some r \<Longrightarrow> account_row_of u r"
  by (auto simp: the_account_def dest: find_SomeD)

lemma the_account_same: "db_accounts db' = db_accounts db \<Longrightarrow> the_account u db' = the_account u db"
  by (simp add: the_account_def)

lemma the_account_update:
  assumes "\<And>r. account_row_of v r \<Longrightarrow> account_row_of v (f r)"
  shows "the_account u (db\<lparr>db_accounts := rows_update (account_row_of v) f (db_accounts db)\<rparr>) =
    (if u = v then map_option f (the_account u db) else the_account u db)"
proof -
  have "account_row_of u (f r) = account_row_of u r" if "account_row_of v r" for r
    using account_row_of_other assms that by blast
  then have "the_account u (db\<lparr>db_accounts := rows_update (account_row_of v) f (db_accounts db)\<rparr>) =
      map_option (\<lambda>r. if account_row_of v r then f r else r) (the_account u db)"
    by (simp add: the_account_def find_rows_update)
  moreover have "account_row_of v r \<longleftrightarrow> u = v" if "the_account u db = Some r" for r
    using account_row_of_other [OF the_account_uuid [OF that]] by simp
  ultimately show ?thesis by (cases "the_account u db") (auto simp del: find_rows_update)
qed

lemma upsert_account_Ok:
  assumes "upsert_account v new f db = Ok (r, db')" and "account_row_of v new"
    and "\<And>r. account_row_of v r \<Longrightarrow> account_row_of v (f r)"
  shows "r = (case the_account v db of None \<Rightarrow> new | Some r \<Rightarrow> f r)"
    and "the_account u db' = (if u = v then Some r else the_account u db)"
    and "db' = db\<lparr>db_accounts := db_accounts db'\<rparr>"
proof -
  show r: "r = (case the_account v db of None \<Rightarrow> new | Some r \<Rightarrow> f r)"
    and "db' = db\<lparr>db_accounts := db_accounts db'\<rparr>"
    using assms(1) by (auto simp: upsert_account_def the_account_def split: if_splits option.splits)
  show "the_account u db' = (if u = v then Some r else the_account u db)"
  proof (cases "the_account v db")
    case None
    then have db': "db' = db\<lparr>db_accounts := new # db_accounts db\<rparr>"
      using assms(1) by (auto simp: upsert_account_def the_account_def split: if_splits)
    have "account_row_of u new \<longleftrightarrow> u = v"
      using account_row_of_other [OF assms(2), of u] by blast
    then show ?thesis
      using None r by (simp add: db' the_account_def)
  next
    case (Some old)
    then have db': "db' = db\<lparr>db_accounts := rows_update (account_row_of v) f (db_accounts db)\<rparr>"
      using assms(1) by (auto simp: upsert_account_def the_account_def split: if_splits)
    show ?thesis using Some r by (simp add: db' the_account_update assms(3))
  qed
qed

lemma update_account_Ok:
  assumes "update_account v P f db = Ok (b, db')" and "\<And>r. account_row_of v r \<Longrightarrow> account_row_of v (f r)"
  shows "b = (case the_account v db of None \<Rightarrow> False | Some r \<Rightarrow> P r)"
    and "the_account u db' = (if u = v \<and> b then map_option f (the_account u db) else the_account u db)"
    and "db' = db\<lparr>db_accounts := db_accounts db'\<rparr>"
  using assms(1) the_account_update [of v f u db, OF assms(2)]
  by (auto simp: update_account_def the_account_def split: if_splits option.splits)

lemma row_of_new [simp]: "account_row_of u (new_account u clock)"
  by (simp add: account_row_of_def new_account_def)

lemma row_of_updates [simp]:
  "account_row_of u (r\<lparr>ac_kind := k\<rparr>) = account_row_of u r"
  "account_row_of u (r\<lparr>ac_public_id := i\<rparr>) = account_row_of u r"
  "account_row_of u (r\<lparr>ac_public_id_at := t\<rparr>) = account_row_of u r"
  "account_row_of u (r\<lparr>ac_display_name := n\<rparr>) = account_row_of u r"
  "account_row_of u (r\<lparr>ac_pfp_url := n\<rparr>) = account_row_of u r"
  "account_row_of u (r\<lparr>ac_custodian_uuid := c\<rparr>) = account_row_of u r"
  "account_row_of u (r\<lparr>ac_custodian_checked_at := t\<rparr>) = account_row_of u r"
  "account_row_of u (r\<lparr>ac_custodian_changed_at := t\<rparr>) = account_row_of u r"
  "account_row_of u (r\<lparr>ac_profile_version := p\<rparr>) = account_row_of u r"
  "account_row_of u (r\<lparr>ac_revoked_before := t\<rparr>) = account_row_of u r"
  "account_row_of u (r\<lparr>ac_deleted_at := t\<rparr>) = account_row_of u r"
  "account_row_of u (r\<lparr>ac_updated_at := s\<rparr>) = account_row_of u r"
  by (simp_all add: account_row_of_def)

lemma row_of_changes [simp]:
  "account_row_of u (or_kind k r) = account_row_of u r"
  "account_row_of u (forward_public_id i at r) = account_row_of u r"
  "account_row_of u (known_account u k i at clock)"
  "account_row_of u (view_account v at clock r) = account_row_of u r"
  "account_row_of (vw_uuid v) (viewed_account v at clock)"
  by (auto simp: or_kind_def forward_public_id_def known_account_def view_account_def viewed_account_def Let_def
      split: option.splits)

section \<open>Facts only move forward\<close>

definition row_evolves :: "account_row \<Rightarrow> account_row \<Rightarrow> bool" where
  "row_evolves r r' \<longleftrightarrow>
     ac_uuid r' = ac_uuid r \<and> (ac_kind r \<noteq> None \<longrightarrow> ac_kind r' = ac_kind r) \<and>
     ac_profile_version r \<le> ac_profile_version r' \<and>
     (\<forall>t. ac_revoked_before r = Some t \<longrightarrow> (\<exists>t'. ac_revoked_before r' = Some t' \<and> t \<le> t')) \<and>
     (ac_deleted_at r \<noteq> None \<longrightarrow> ac_deleted_at r' = ac_deleted_at r \<and>
        (ac_public_id r = None \<longrightarrow> ac_public_id r' = None) \<and>
        (ac_display_name r = None \<longrightarrow> ac_display_name r' = None) \<and> (ac_pfp_url r = None \<longrightarrow> ac_pfp_url r' = None))"

lemma row_evolves_refl [simp]: "row_evolves r r"
  by (simp add: row_evolves_def)

lemma row_evolves_trans: "row_evolves r s \<Longrightarrow> row_evolves s t \<Longrightarrow> row_evolves r t"
proof -
  assume a: "row_evolves r s" "row_evolves s t"
  then have "\<exists>t'. ac_revoked_before t = Some t' \<and> x \<le> t'" if "ac_revoked_before r = Some x" for x
    using that unfolding row_evolves_def by (meson order_trans)
  with a show ?thesis
    unfolding row_evolves_def by (intro conjI impI allI; (elim conjE)?; simp)
qed

lemma later_evolves: "\<exists>t'. later s at = Some t' \<and> (\<forall>t. s = Some t \<longrightarrow> t \<le> t')"
  by (cases s) (simp_all add: later_def greatest_def)

lemma evolves_changes:
  "row_evolves r (or_kind k r)"
  "row_evolves r (forward_public_id i at r)"
  "row_evolves r (view_account v at clock r)"
  "row_evolves r (r\<lparr>ac_updated_at := clock\<rparr>)"
proof -
  show kind: "row_evolves r (or_kind k r)" for k r
    by (auto simp: row_evolves_def or_kind_def)
  show "row_evolves r (forward_public_id i at r)"
    by (cases i) (simp_all add: row_evolves_def forward_public_id_def)
  show upd: "row_evolves r (r\<lparr>ac_updated_at := clock\<rparr>)" for r
    by (simp add: row_evolves_def)
  have "row_evolves (or_kind (vw_kind v) r\<lparr>ac_updated_at := clock\<rparr>) (view_account v at clock r)"
    by (simp add: row_evolves_def view_account_def Let_def split: option.splits)
  with kind upd show "row_evolves r (view_account v at clock r)"
    by (blast intro: row_evolves_trans)
qed

text \<open>An account has one row.\<close>

definition accounts_ok :: "db \<Rightarrow> bool" where
  "accounts_ok db \<longleftrightarrow> distinct (map ac_uuid (db_accounts db))"

definition evolves :: "account_uuid \<Rightarrow> db \<Rightarrow> db \<Rightarrow> bool" where
  "evolves u db db' \<longleftrightarrow>
     (accounts_ok db \<longrightarrow> accounts_ok db') \<and>
     (\<forall>r. the_account u db = Some r \<longrightarrow> (\<exists>r'. the_account u db' = Some r' \<and> row_evolves r r'))"

lemma evolves_same: "db_accounts db' = db_accounts db \<Longrightarrow> evolves u db db'"
  by (simp add: evolves_def the_account_def accounts_ok_def)

lemma evolves_trans: "evolves u a b \<Longrightarrow> evolves u b c \<Longrightarrow> evolves u a c"
  unfolding evolves_def using row_evolves_trans by blast

lemma rows_update_uuids:
  "(\<And>r. account_row_of v (f r) = account_row_of v r) \<Longrightarrow>
     map ac_uuid (rows_update (account_row_of v) f rows) = map ac_uuid rows"
  by (induction rows) (auto simp: rows_update_def account_row_of_def)

lemma upsert_accounts_ok:
  assumes "upsert_account v new f db = Ok (r, db')" and "account_row_of v new"
    and "\<And>r. account_row_of v (f r) = account_row_of v r" and "accounts_ok db"
  shows "accounts_ok db'"
proof (cases "the_account v db")
  case None
  then have "db' = db\<lparr>db_accounts := new # db_accounts db\<rparr>"
    using assms(1) by (auto simp: upsert_account_def the_account_def split: if_splits)
  moreover have "\<forall>r \<in> set (db_accounts db). \<not> account_row_of v r"
    using None by (auto simp: the_account_def find_None_iff)
  ultimately show ?thesis using assms(2,4) by (auto simp: accounts_ok_def account_row_of_def)
next
  case (Some old)
  then have "db' = db\<lparr>db_accounts := rows_update (account_row_of v) f (db_accounts db)\<rparr>"
    using assms(1) by (auto simp: upsert_account_def the_account_def split: if_splits)
  with assms(4) show ?thesis by (simp add: accounts_ok_def rows_update_uuids [OF assms(3)])
qed

lemma upsert_evolves:
  assumes "upsert_account v new f db = Ok (r, db')" and "account_row_of v new"
    and "\<And>r. account_row_of v (f r) = account_row_of v r" and "\<And>r. row_evolves r (f r)"
  shows "evolves u db db'"
  using upsert_account_Ok(1) [OF assms(1,2)] upsert_account_Ok(2) [OF assms(1,2), of u] assms(3,4)
    upsert_accounts_ok [OF assms(1,2,3)] by (auto simp: evolves_def)

lemma update_evolves:
  assumes "update_account v P f db = Ok (b, db')"
    and "\<And>r. account_row_of v (f r) = account_row_of v r" and "\<And>r. P r \<Longrightarrow> row_evolves r (f r)"
  shows "evolves u db db'"
proof -
  have "accounts_ok db \<longrightarrow> accounts_ok db'"
    using assms(1)
    by (auto simp: update_account_def accounts_ok_def rows_update_uuids [OF assms(2)] split: option.splits if_splits)
  then show ?thesis
    using update_account_Ok(1) [OF assms(1)] update_account_Ok(2) [OF assms(1), of u] assms(2,3)
    by (auto simp: evolves_def split: option.splits)
qed

lemma remember_tables:
  "remember_public_id u i clock db = Ok db' \<Longrightarrow> db' = db\<lparr>db_account_ids := db_account_ids db'\<rparr>"
  "remember_optional u j clock db = Ok db' \<Longrightarrow> db' = db\<lparr>db_account_ids := db_account_ids db'\<rparr>"
  by (auto simp: remember_optional_def remember_public_id_def split: if_splits option.splits)

lemma remember_accounts:
  "remember_public_id u i clock db = Ok db' \<Longrightarrow> db_accounts db' = db_accounts db"
  "remember_optional u j clock db = Ok db' \<Longrightarrow> db_accounts db' = db_accounts db"
  by (metis db.ext_inject db.surjective db.update_convs(10) remember_tables)+

section \<open>Every operation on accounts\<close>

text \<open>An operation that does not touch the cached accounts.\<close>

lemma delete_observers_accounts [simp]: "db_accounts (delete_observers P db) = db_accounts db"
  by (simp add: delete_observers_def Let_def)

lemma forget_account_accounts [simp]: "db_accounts (forget_account u db) = db_accounts db"
  by (simp add: forget_account_def Let_def)

lemma update_hooks_accounts: "update_hooks P f db = Ok (n, db') \<Longrightarrow> db_accounts db' = db_accounts db"
  by (auto simp: update_hooks_def Let_def split: if_splits option.splits)

lemma delete_accounts_hooks_accounts:
  "delete_accounts_hooks new_id u clock db = Ok db' \<Longrightarrow> db_accounts db' = db_accounts db"
  by (auto simp: delete_accounts_hooks_def Let_def result_simps dest!: update_hooks_accounts split: if_splits)

lemma known_evolves: "upsert_known_account v k i at clock db = Ok db' \<Longrightarrow> evolves u db db'"
proof -
  assume "upsert_known_account v k i at clock db = Ok db'"
  then obtain r db1 where up: "upsert_account v (known_account v k i at clock)
        (\<lambda>r. forward_public_id i at (or_kind k r)) db = Ok (r, db1)"
    and rest: "remember_optional v i clock db1 = Ok db'"
    by (auto simp: upsert_known_account_def result_simps)
  have "evolves u db db1"
    by (rule upsert_evolves [OF up]) (auto intro: row_evolves_trans evolves_changes)
  with remember_accounts(2) [OF rest] show ?thesis
    by (blast intro: evolves_trans evolves_same)
qed

lemma custodian_evolves: "upsert_custodian c at clock db = Ok db' \<Longrightarrow> evolves u db db'"
  by (auto simp: upsert_custodian_def intro: known_evolves evolves_same split: option.splits)

lemma ensure_evolves: "ensure_account v k clock db = Ok db' \<Longrightarrow> evolves u db db'"
  by (auto simp: ensure_account_def result_simps intro!: evolves_changes elim!: upsert_evolves)

lemma id_changed_evolves: "id_changed v k old_id new_id at clock db = Ok db' \<Longrightarrow> evolves u db db'"
proof -
  assume "id_changed v k old_id new_id at clock db = Ok db'"
  then obtain db1 b db2 db3 where e: "ensure_account v (case k of None \<Rightarrow> public_id_kind new_id | Some k \<Rightarrow> k) clock db = Ok db1"
    and up: "update_account v
         (\<lambda>r. ac_deleted_at r = None \<and> (case ac_public_id_at r of None \<Rightarrow> True | Some t \<Rightarrow> t < at))
         (\<lambda>r. r\<lparr>ac_public_id := Some (public_id_str new_id), ac_public_id_at := Some at, ac_updated_at := clock\<rparr>) db1 = Ok (b, db2)"
    and rest: "remember_public_id v new_id clock db2 = Ok db3" "remember_optional v old_id clock db3 = Ok db'"
    by (auto simp: id_changed_def result_simps)
  have "evolves u db1 db2"
    by (rule update_evolves [OF up]) (auto simp: row_evolves_def)
  with ensure_evolves [OF e, of u] remember_accounts(1) [OF rest(1)] remember_accounts(2) [OF rest(2)] show ?thesis
    by (metis evolves_trans evolves_same)
qed

lemma updated_evolves: "updated v k i n p c version at clock db = Ok db' \<Longrightarrow> evolves u db db'"
proof -
  assume "updated v k i n p c version at clock db = Ok db'"
  then obtain db1 newer db2 db3 where e: "ensure_account v k clock db = Ok db1"
    and up: "update_account v (\<lambda>r. ac_deleted_at r = None \<and> ac_profile_version r < version)
         (\<lambda>r. r\<lparr>ac_display_name := map_option shortened_name n, ac_pfp_url := short_url p,
                ac_profile_version := version, ac_updated_at := clock\<rparr>) db1 = Ok (newer, db2)"
    and known: "(case i of None \<Rightarrow> Ok db2 | Some _ \<Rightarrow> upsert_known_account v k i at clock db2) = Ok db3"
    and rest: "(if newer \<and> k = Silicon
       then
         and_then (upsert_custodian c at clock db3) (\<lambda>db.
         map_ok snd (update_account v (custodian_not_after at)
           (\<lambda>r. r\<lparr>ac_custodian_uuid := map_option (account_uuid_str \<circ> fst) c,
                  ac_custodian_checked_at := Some clock\<rparr>) db))
       else Ok db3) = Ok db'"
    by (auto simp: updated_def result_simps)
  have 2: "evolves u db1 db2"
    by (rule update_evolves [OF up]) (auto simp: row_evolves_def)
  have 3: "evolves u db2 db3"
    using known by (auto intro: known_evolves evolves_same split: option.splits)
  have "evolves u db3 db'"
  proof (cases "newer \<and> k = Silicon")
    case True
    with rest obtain db4 b where c: "upsert_custodian c at clock db3 = Ok db4"
      and up: "update_account v (custodian_not_after at)
           (\<lambda>r. r\<lparr>ac_custodian_uuid := map_option (account_uuid_str \<circ> fst) c,
                  ac_custodian_checked_at := Some clock\<rparr>) db4 = Ok (b, db')"
      by (auto simp: result_simps)
    have "evolves u db4 db'"
      by (rule update_evolves [OF up]) (auto simp: row_evolves_def)
    with custodian_evolves [OF c] show ?thesis by (blast intro: evolves_trans)
  qed (use rest in \<open>auto intro: evolves_same\<close>)
  with ensure_evolves [OF e] 2 3 show ?thesis by (blast intro: evolves_trans)
qed

lemma custodian_changed_evolves: "custodian_changed v before after at clock db = Ok db' \<Longrightarrow> evolves u db db'"
proof -
  assume "custodian_changed v before after at clock db = Ok db'"
  then obtain db1 db2 b db3 where e: "ensure_account v Silicon clock db = Ok db1"
    and c: "upsert_custodian after at clock db1 = Ok db2"
    and up: "update_account v (\<lambda>r. ac_kind r = Some (kind_text Silicon) \<and> custodian_before at r)
         (\<lambda>r. r\<lparr>ac_custodian_uuid := map_option (account_uuid_str \<circ> fst) after, ac_custodian_changed_at := Some at,
                ac_custodian_checked_at := Some clock, ac_updated_at := clock\<rparr>) db2 = Ok (b, db3)"
    and rest: "db_accounts db' = db_accounts db3"
    by (auto simp: custodian_changed_def result_simps split: option.splits)
  have "evolves u db2 db3"
    by (rule update_evolves [OF up]) (auto simp: row_evolves_def)
  with ensure_evolves [OF e] custodian_evolves [OF c] rest show ?thesis
    by (metis evolves_trans evolves_same)
qed

lemma revoked_evolves: "row_evolves r (r\<lparr>ac_revoked_before := later (ac_revoked_before r) at, ac_updated_at := clock\<rparr>)"
  using later_evolves [of "ac_revoked_before r" at] by (auto simp: row_evolves_def)

lemma revoke_evolves: "revoke v at clock db = Ok db' \<Longrightarrow> evolves u db db'"
proof -
  assume "revoke v at clock db = Ok db'"
  then obtain r db1 where up: "upsert_account v ((new_account v clock)\<lparr>ac_revoked_before := Some at\<rparr>)
         (\<lambda>r. r\<lparr>ac_revoked_before := later (ac_revoked_before r) at, ac_updated_at := clock\<rparr>) db = Ok (r, db1)"
    and "db_accounts db' = db_accounts db1"
    by (auto simp: revoke_def result_simps)
  moreover have "evolves u db db1"
    by (rule upsert_evolves [OF up]) (simp_all add: revoked_evolves)
  ultimately show ?thesis by (blast intro: evolves_trans evolves_same)
qed

lemma deletion_evolves:
  "row_evolves r (r\<lparr>ac_deleted_at := or_else (ac_deleted_at r) (Some at), ac_public_id := None,
     ac_display_name := n, ac_pfp_url := p,
     ac_revoked_before := later (ac_revoked_before r) at, ac_updated_at := clock\<rparr>)"
  if "n = None \<or> n = ac_display_name r" and "p = None \<or> p = ac_pfp_url r"
  using later_evolves [of "ac_revoked_before r" at] that
  by (cases "ac_deleted_at r") (auto simp: row_evolves_def)

lemma deleted_evolves: "deleted new_id v at clock db = Ok db' \<Longrightarrow> evolves u db db'"
proof -
  assume "deleted new_id v at clock db = Ok db'"
  then obtain r db1 where up: "upsert_account v ((new_account v clock)\<lparr>ac_deleted_at := Some at, ac_revoked_before := Some at\<rparr>)
         (\<lambda>r. r\<lparr>ac_deleted_at := or_else (ac_deleted_at r) (Some at), ac_public_id := None,
                ac_display_name := None, ac_pfp_url := None,
                ac_revoked_before := later (ac_revoked_before r) at, ac_updated_at := clock\<rparr>) db = Ok (r, db1)"
    and rest: "db_accounts db' = db_accounts db1"
    by (auto simp: deleted_def result_simps Let_def dest: delete_accounts_hooks_accounts split: if_splits)
  have "evolves u db db1"
    by (rule upsert_evolves [OF up]) (simp_all add: deletion_evolves)
  with rest show ?thesis by (blast intro: evolves_trans evolves_same)
qed

lemma apply_change_evolves: "apply_change new_id at clock change db = Ok db' \<Longrightarrow> evolves u db db'"
  by (cases change) (auto intro: id_changed_evolves updated_evolves custodian_changed_evolves revoke_evolves
      deleted_evolves evolves_same split: if_splits)

lemma apply_event_evolves:
  assumes "apply_accounts_event new_id e clock db = Ok (out, db')"
  shows "evolves u db db'"
proof (cases "out = Applied \<and> \<not> retired_identity (ax_change e) db")
  case True
  then have change: "apply_change new_id (ax_occurred_at e) clock (ax_change e)
      (db\<lparr>db_accounts_events := accounts_event_row_of e False clock # db_accounts_events db\<rparr>) = Ok db'"
    using assms by (auto simp: apply_accounts_event_def Let_def result_simps split: option.splits if_splits)
  show ?thesis
    by (rule evolves_trans [OF evolves_same apply_change_evolves [OF change]]) simp
next
  case False
  then have "db_accounts db' = db_accounts db"
    using assms by (auto simp: apply_accounts_event_def Let_def result_simps split: option.splits if_splits)
  then show ?thesis by (rule evolves_same)
qed

lemma observe_evolves: "observe_token_account uc v k i issued clock db = (r, db') \<Longrightarrow> evolves u db db'"
proof -
  assume a: "observe_token_account uc v k i issued clock db = (r, db')"
  show ?thesis
  proof (cases "db' = db")
    case False
    with a obtain row db1 where up: "upsert_account v (known_account v k i issued clock)
              (\<lambda>r. (forward_public_id i issued (or_kind k r))\<lparr>ac_updated_at := clock\<rparr>) db = Ok (row, db1)"
      and rest: "remember_optional v i clock db1 = Ok db'"
      by (auto simp: observe_token_account_def result_simps split: result.splits prod.splits)
    have "row_evolves r ((forward_public_id i issued (or_kind k r))\<lparr>ac_updated_at := clock\<rparr>)" for r
      by (rule row_evolves_trans [OF evolves_changes(1) row_evolves_trans [OF evolves_changes(2) evolves_changes(4)]])
    then have "evolves u db db1"
      by (intro upsert_evolves [OF up]) simp_all
    with remember_accounts(2) [OF rest] show ?thesis
      by (blast intro: evolves_trans evolves_same)
  qed (simp add: evolves_same)
qed

lemma view_evolves: "record_account_view uc v at clock db = (r, db') \<Longrightarrow> evolves u db db'"
proof -
  assume a: "record_account_view uc v at clock db = (r, db')"
  show ?thesis
  proof (cases "db' = db")
    case False
    with a obtain row db1 db2 where c: "upsert_custodian (vw_custodian v) at clock db = Ok db1"
      and up: "upsert_account (vw_uuid v) (viewed_account v at clock) (view_account v at clock) db1 = Ok (row, db2)"
      and rest: "remember_optional (vw_uuid v) (vw_public_id v) clock db2 = Ok db'"
      by (auto simp: record_account_view_def result_simps split: result.splits prod.splits)
    have "evolves u db1 db2"
      by (rule upsert_evolves [OF up]) (simp_all add: evolves_changes)
    with custodian_evolves [OF c] remember_accounts(2) [OF rest] show ?thesis
      by (blast intro: evolves_trans evolves_same)
  qed (simp add: evolves_same)
qed

lemma lookup_deleted_evolves: "record_account_deleted_by_lookup v at clock db = Ok db' \<Longrightarrow> evolves u db db'"
proof -
  assume "record_account_deleted_by_lookup v at clock db = Ok db'"
  then obtain r where up: "upsert_account v ((new_account v clock)\<lparr>ac_deleted_at := Some at, ac_revoked_before := Some at\<rparr>)
       (\<lambda>r. r\<lparr>ac_deleted_at := or_else (ac_deleted_at r) (Some at), ac_public_id := None,
              ac_revoked_before := later (ac_revoked_before r) at, ac_updated_at := clock\<rparr>) db = Ok (r, db')"
    by (auto simp: record_account_deleted_by_lookup_def result_simps)
  show ?thesis
  proof (rule upsert_evolves [OF up])
    show "row_evolves r (r\<lparr>ac_deleted_at := or_else (ac_deleted_at r) (Some at), ac_public_id := None,
              ac_revoked_before := later (ac_revoked_before r) at, ac_updated_at := clock\<rparr>)" for r
      using later_evolves [of "ac_revoked_before r" at] by (cases "ac_deleted_at r") (auto simp: row_evolves_def)
  qed simp_all
qed

end
