(* ===== verification/System.thy ===== *)
theory System
  imports EventFacts AccountsFacts EndpointKeys
begin

text \<open>
  The store as a whole: one step is any transaction of the service, labelled with the events it
  accepts. A transaction that names a new endpoint key got it from the constructor of keys. Every
  step keeps the endpoint keys apart and only adds to the retired keys and the audit log; a run
  numbers the events of a namespace key without gaps.
\<close>

section \<open>Transactions that leave hooks, keys and counters alone\<close>

definition keeps :: "db \<Rightarrow> db \<Rightarrow> bool" where
  "keeps db db' \<longleftrightarrow>
     map hr_id (db_hooks db') = map hr_id (db_hooks db) \<and>
     map hr_endpoint_key (db_hooks db') = map hr_endpoint_key (db_hooks db) \<and>
     db_retired db' = db_retired db \<and> db_sequences db' = db_sequences db \<and>
     (\<exists>new. db_audit db' = new @ db_audit db)"

named_theorems keeps_rules

lemma keeps_refl [simp]: "keeps db db"
  by (simp add: keeps_def)

lemma keeps_trans: "keeps a b \<Longrightarrow> keeps b c \<Longrightarrow> keeps a c"
proof -
  assume ab: "keeps a b" and bc: "keeps b c"
  then obtain x y where "db_audit b = x @ db_audit a" "db_audit c = y @ db_audit b"
    unfolding keeps_def by blast
  then have "db_audit c = (y @ x) @ db_audit a" by simp
  with ab bc show ?thesis unfolding keeps_def by metis
qed

lemma keeps_tables [simp]:
  "keeps db (db\<lparr>db_events := ev\<rparr>)" "keeps db (db\<lparr>db_blocked := bl\<rparr>)" "keeps db (db\<lparr>db_ip_blocks := ib\<rparr>)"
  "keeps db (db\<lparr>db_idempotency := ir\<rparr>)" "keeps db (db\<lparr>db_accounts := ac\<rparr>)" "keeps db (db\<lparr>db_account_ids := ai\<rparr>)"
  "keeps db (db\<lparr>db_grants := gr\<rparr>)" "keeps db (db\<lparr>db_allowances := al\<rparr>)" "keeps db (db\<lparr>db_observers := ob\<rparr>)"
  "keeps db (db\<lparr>db_outbox := ox\<rparr>)" "keeps db (db\<lparr>db_accounts_events := ae\<rparr>)"
  by (simp_all add: keeps_def)

lemma keeps_audit [simp]: "keeps db (db\<lparr>db_audit := a # db_audit db\<rparr>)" "keeps db (db\<lparr>db_audit := as @ db_audit db\<rparr>)"
  by (auto simp: keeps_def)

lemma update_keeps:
  "update_hooks P f db = Ok (n, db') \<Longrightarrow> (\<And>r. hr_id (f r) = hr_id r) \<Longrightarrow>
     (\<And>r. hr_endpoint_key (f r) = hr_endpoint_key r) \<Longrightarrow> keeps db db'"
  by (auto simp: update_hooks_Ok keeps_def)

subsection \<open>Logs, counters and the outbox\<close>

lemma blocked_keeps: "record_blocked_request dp c request db = Ok (b, db') \<Longrightarrow> keeps db db'"
proof -
  assume "record_blocked_request dp c request db = Ok (b, db')"
  then obtain db1 n b' where up: "update_hooks (serving_row (hook_uuid (hk_id (rb_hook c))))
      (touch_blocked (cap_received_at request)) db = Ok (n, db1)"
    and ins: "insert_blocked_request (dp_crates dp) b' db1 = Ok db'"
    by (auto simp: record_blocked_request_def Let_def result_simps split: if_splits)
  have "keeps db db1" by (rule update_keeps [OF up]) (simp_all add: touch_blocked_def)
  moreover have "keeps db1 db'"
    using ins by (auto simp: insert_blocked_request_def Let_def result_simps split: if_splits option.splits)
  ultimately show ?thesis by (rule keeps_trans)
qed

lemma check_block_keeps: "check_ip_block i ip now db = Ok (c, db') \<Longrightarrow> keeps db db'"
  by (auto simp: check_ip_block_def result_simps Let_def split: option.splits if_splits)

lemma unverified_keeps: "record_unverified_request tc i ip now db = Ok (s, db') \<Longrightarrow> keeps db db'"
  by (auto simp: record_unverified_request_def Let_def result_simps split_beta split: option.splits if_splits)

lemma claim_keeps: "claim_ting new_lease limit d clock db = Ok (cs, db') \<Longrightarrow> keeps db db'"
  by (auto simp: claim_ting_def Let_def split: if_splits)

lemma complete_keeps: "complete_ting c i silent clock db = Ok (b, db') \<Longrightarrow> keeps db db'"
  by (auto simp: complete_ting_def split: if_splits)

lemma retry_keeps: "retry_ting c failure at clock db = Ok (b, db') \<Longrightarrow> keeps db db'"
  by (auto simp: retry_ting_def split: if_splits)

lemma subscribe_keeps: "subscribe i clock silicon recipient db = Ok (r, db') \<Longrightarrow> keeps db db'"
  by (auto simp: subscribe_def Let_def split: if_splits option.splits)

lemma delete_observers_keeps [simp]: "keeps db (delete_observers P db)"
  by (simp add: delete_observers_def Let_def keeps_def)

lemma unsubscribe_keeps: "unsubscribe silicon recipient db = (b, db') \<Longrightarrow> keeps db db'"
  by (auto simp: unsubscribe_def)

subsection \<open>Accounts and access\<close>

lemma upsert_keeps: "upsert_account u new f db = Ok (r, db') \<Longrightarrow> keeps db db'"
  by (auto simp: upsert_account_def split: if_splits option.splits)

lemma update_account_keeps: "update_account u P f db = Ok (b, db') \<Longrightarrow> keeps db db'"
  by (auto simp: update_account_def split: if_splits option.splits)

lemma remember_keeps:
  "remember_public_id u i clock db = Ok db' \<Longrightarrow> keeps db db'"
  "remember_optional u j clock db = Ok db' \<Longrightarrow> keeps db db'"
  by (auto simp: remember_optional_def remember_public_id_def split: if_splits option.splits)

lemma known_keeps: "upsert_known_account u k i at clock db = Ok db' \<Longrightarrow> keeps db db'"
  by (auto simp: upsert_known_account_def result_simps intro: keeps_trans upsert_keeps remember_keeps)

lemma custodian_keeps: "upsert_custodian c at clock db = Ok db' \<Longrightarrow> keeps db db'"
  by (auto simp: upsert_custodian_def intro: known_keeps split: option.splits)

lemma ensure_keeps: "ensure_account u k clock db = Ok db' \<Longrightarrow> keeps db db'"
  by (auto simp: ensure_account_def result_simps intro: upsert_keeps)

lemma forget_keeps [simp]: "keeps db (forget_account u db)"
  by (simp add: forget_account_def Let_def delete_observers_def keeps_def)

lemma accounts_hooks_keep: "delete_accounts_hooks new_id u clock db = Ok db' \<Longrightarrow> keeps db db'"
proof -
  assume "delete_accounts_hooks new_id u clock db = Ok db'"
  then obtain n db1 as where up: "update_hooks (\<lambda>r. hr_silicon_uuid r = Some (account_uuid_str u) \<and> hr_deleted_at r = None)
      (\<lambda>r. r\<lparr>hr_disabled_at := None, hr_deleted_at := Some (max (hr_created_at r) clock), hr_updated_at := clock\<rparr>) db = Ok (n, db1)"
    and db': "db' = db1\<lparr>db_audit := as @ db_audit db1\<rparr>"
    by (auto simp: delete_accounts_hooks_def Let_def result_simps split: if_splits)
  have "keeps db db1" by (rule update_keeps [OF up]) simp_all
  then show ?thesis unfolding db' by (rule keeps_trans) simp
qed

lemma id_changed_keeps: "id_changed u k old i at clock db = Ok db' \<Longrightarrow> keeps db db'"
  by (auto simp: id_changed_def result_simps dest!: ensure_keeps update_account_keeps remember_keeps)
    (meson keeps_trans)

lemma updated_keeps: "updated u k i n p c version at clock db = Ok db' \<Longrightarrow> keeps db db'"
  by (auto simp: updated_def result_simps split: if_splits option.splits
      dest!: ensure_keeps update_account_keeps known_keeps custodian_keeps)
    (meson keeps_trans)+

lemma custodian_changed_keeps: "custodian_changed u before after at clock db = Ok db' \<Longrightarrow> keeps db db'"
proof -
  assume "custodian_changed u before after at clock db = Ok db'"
  then obtain db1 db2 b db3 P f where steps: "ensure_account u Silicon clock db = Ok db1"
    "upsert_custodian after at clock db1 = Ok db2" "update_account u P f db2 = Ok (b, db3)"
    and db': "db' = (case before of
             Some previous \<Rightarrow>
               if b \<and> Some previous \<noteq> map_option fst after
               then delete_observers
                 (\<lambda>s. subscription_of u previous s \<and> \<not> list_ex (grant_row_of u previous) (db_grants db3)) db3
               else db3
           | None \<Rightarrow> db3)"
    by (auto simp: custodian_changed_def result_simps)
  have "keeps db3 db'" unfolding db' by (simp split: option.splits)
  with ensure_keeps [OF steps(1)] custodian_keeps [OF steps(2)] update_account_keeps [OF steps(3)] show ?thesis
    by (meson keeps_trans)
qed

lemma revoke_keeps: "revoke u at clock db = Ok db' \<Longrightarrow> keeps db db'"
  by (auto simp: revoke_def result_simps intro: keeps_trans [OF upsert_keeps])

lemma deleted_keeps: "deleted new_id u at clock db = Ok db' \<Longrightarrow> keeps db db'"
  by (auto simp: deleted_def Let_def result_simps split: if_splits
      intro: keeps_trans [OF upsert_keeps] keeps_trans [OF forget_keeps accounts_hooks_keep])

lemma apply_change_keeps: "apply_change new_id at clock change db = Ok db' \<Longrightarrow> keeps db db'"
  by (cases change) (auto intro: id_changed_keeps updated_keeps custodian_changed_keeps revoke_keeps deleted_keeps
      split: if_splits)

lemma apply_event_keeps: "apply_accounts_event new_id e clock db = Ok (out, db') \<Longrightarrow> keeps db db'"
  by (auto simp: apply_accounts_event_def Let_def result_simps split: option.splits if_splits
      intro: keeps_trans [OF keeps_tables(11) apply_change_keeps])

lemma observe_keeps: "observe_token_account uc u k i at clock db = (r, db') \<Longrightarrow> keeps db db'"
  by (auto simp: observe_token_account_def result_simps split: result.splits prod.splits
      intro: keeps_trans [OF upsert_keeps remember_keeps(2)])

lemma view_keeps: "record_account_view uc v at clock db = (r, db') \<Longrightarrow> keeps db db'"
  by (auto simp: record_account_view_def result_simps split: result.splits prod.splits
      intro: keeps_trans [OF custodian_keeps keeps_trans [OF upsert_keeps remember_keeps(2)]])

lemma lookup_deleted_keeps: "record_account_deleted_by_lookup u at clock db = Ok db' \<Longrightarrow> keeps db db'"
  by (auto simp: record_account_deleted_by_lookup_def result_simps intro: upsert_keeps)

lemma access_audit_keeps: "insert_access_audit i action silicon a request_id clock db = Ok db' \<Longrightarrow> keeps db db'"
  by (auto simp: insert_access_audit_def split: if_splits)

lemma put_grant_keeps: "put_grant uc i silicon grantee level a request_id clock db = (r, db') \<Longrightarrow> keeps db db'"
  by (auto simp: put_grant_def Let_def split: if_splits prod.splits result.splits
      intro: keeps_trans [OF keeps_tables(7) access_audit_keeps])

lemma put_allowance_keeps: "put_allowance uc i silicon allowed a request_id clock db = (r, db') \<Longrightarrow> keeps db db'"
  by (auto simp: put_allowance_def Let_def split: if_splits prod.splits result.splits
      intro: keeps_trans [OF keeps_tables(8) access_audit_keeps])

lemma delete_grant_keeps: "delete_grant i silicon grantee a request_id kept clock db = Ok (b, db') \<Longrightarrow> keeps db db'"
proof -
  assume a: "delete_grant i silicon grantee a request_id kept clock db = Ok (b, db')"
  let ?db = "db\<lparr>db_grants := filter (\<lambda>r. \<not> grant_row_of silicon grantee r) (db_grants db)\<rparr>"
  let ?out = "if kept then ?db else delete_observers (subscription_of silicon grantee) ?db"
  have "db' = ?db \<or> insert_access_audit i AuditAccessRevoked silicon a request_id clock ?out = Ok db'"
    using a by (auto simp: delete_grant_def Let_def result_simps split: if_splits)
  moreover have "keeps db ?db" by simp
  moreover have "keeps ?db ?out" by simp
  ultimately show ?thesis by (blast intro: keeps_trans access_audit_keeps)
qed

lemma delete_allowance_keeps: "delete_allowance i silicon allowed a request_id clock db = Ok (b, db') \<Longrightarrow> keeps db db'"
  by (auto simp: delete_allowance_def Let_def result_simps split: if_splits
      intro: keeps_trans [OF keeps_tables(8)] access_audit_keeps)

section \<open>Retention\<close>

text \<open>Retention removes hooks with their keys; a retired key outlives its hook.\<close>

definition keys_kept :: "db \<Rightarrow> db \<Rightarrow> bool" where
  "keys_kept db db' \<longleftrightarrow>
     (keys_ok db \<longrightarrow> keys_ok db') \<and>
     set (map rt_endpoint_key (db_retired db)) \<subseteq> set (map rt_endpoint_key (db_retired db')) \<and>
     (\<exists>new. db_audit db' = new @ db_audit db)"

lemma keys_kept_trans: "keys_kept a b \<Longrightarrow> keys_kept b c \<Longrightarrow> keys_kept a c"
proof -
  assume ab: "keys_kept a b" and bc: "keys_kept b c"
  then obtain x y where "db_audit b = x @ db_audit a" "db_audit c = y @ db_audit b"
    unfolding keys_kept_def by blast
  then have "db_audit c = (y @ x) @ db_audit a" by simp
  with ab bc show ?thesis unfolding keys_kept_def by blast
qed

lemma keeps_keys: "keeps db db' \<Longrightarrow> keys_kept db db'"
  unfolding keeps_def keys_kept_def keys_ok_def by (metis subset_refl)

lemma after_keys: "(\<And>db0. keys_after db0 db \<Longrightarrow> keys_after db0 db') \<Longrightarrow> keys_ok db \<Longrightarrow> keys_kept db db'"
  using keys_after_refl [of db] unfolding keys_after_def keys_kept_def by blast

lemma distinct_map_sub: "distinct (map f xs) \<Longrightarrow> distinct (map f (filter P xs))"
  by (rule distinct_map_filter)

lemma purge_tables:
  assumes "purge task batch clock db = (n, db')"
  shows "db_retired db' = db_retired db" "db_audit db' = db_audit db" "db_sequences db' = db_sequences db"
    "\<exists>P. db_hooks db' = filter P (db_hooks db)"
proof -
  have all [simp]: "\<exists>P. xs = filter P xs" for xs :: "hook_row list"
    by (rule exI [of _ "\<lambda>_. True"]) simp
  have "db_retired db' = db_retired db \<and> db_audit db' = db_audit db \<and> db_sequences db' = db_sequences db \<and>
      (\<exists>P. db_hooks db' = filter P (db_hooks db))"
    using assms
    by (cases task)
      (auto simp: purge_events_def purge_blocked_def purge_hooks_def purge_keys_def purge_blocks_def
        purge_accounts_events_def delete_events_def delete_hooks_def Let_def)
  then show "db_retired db' = db_retired db" "db_audit db' = db_audit db" "db_sequences db' = db_sequences db"
    "\<exists>P. db_hooks db' = filter P (db_hooks db)" by blast+
qed

lemma purge_keys_kept: "purge task batch clock db = (n, db') \<Longrightarrow> keys_kept db db'"
proof -
  assume a: "purge task batch clock db = (n, db')"
  obtain P where P: "db_hooks db' = filter P (db_hooks db)" using purge_tables(4) [OF a] by blast
  show ?thesis
    using purge_tables(1-3) [OF a]
    by (auto simp: keys_kept_def keys_ok_def P distinct_map_filter list_all_iff)
qed

lemma maintenance_keys: "run_maintenance_task task batch clock db = Ok (b, db') \<Longrightarrow> keys_kept db db' \<and> db_sequences db' = db_sequences db"
  by (auto simp: run_maintenance_task_def split: if_splits prod.splits dest: purge_keys_kept purge_tables(3))

section \<open>Counters\<close>

lemma hook_statements_sequences:
  "reserve_management_key s now db = Ok (res, db') \<Longrightarrow> db_sequences db' = db_sequences db"
  "finish_management_key s response db = Ok (u, db') \<Longrightarrow> db_sequences db' = db_sequences db"
  "insert_audit i action h context at db = Ok (v, db') \<Longrightarrow> db_sequences db' = db_sequences db"
  "update_hooks P f db = Ok (n, db') \<Longrightarrow> db_sequences db' = db_sequences db"
  "insert_hook dp h d db = Ok (w, db') \<Longrightarrow> db_sequences db' = db_sequences db"
  "insert_retired g k j at db = Ok (x, db') \<Longrightarrow> db_sequences db' = db_sequences db"
  "insert_activation_audits ids c changed db = Ok (y, db') \<Longrightarrow> db_sequences db' = db_sequences db"
  by (subst reserve_other_tables finish_other_tables, assumption, simp)+
    (auto simp: insert_audit_Ok update_hooks_Ok insert_retired_Ok insert_activation_audits_def Let_def
      dest: insert_hook_Ok split: if_splits)

lemma hook_operations_sequences:
  "create_hook dp a cc db = Ok (o1, db') \<Longrightarrow> db_sequences db' = db_sequences db"
  "delete_hook dp a dc db = Ok (g, db') \<Longrightarrow> db_sequences db' = db_sequences db"
  "update_hook dp a uc db = Ok (g, db') \<Longrightarrow> db_sequences db' = db_sequences db"
  "restore_hook dp a rc db = Ok (o2, db') \<Longrightarrow> db_sequences db' = db_sequences db"
  "rotate_hook_secret dp a sc db = Ok (o3, db') \<Longrightarrow> db_sequences db' = db_sequences db"
  "rotate_hook_endpoint dp a ec db = Ok (o3, db') \<Longrightarrow> db_sequences db' = db_sequences db"
  "set_hooks_enabled dp ids bc db = Ok (gs, db') \<Longrightarrow> db_sequences db' = db_sequences db"
proof -
  show "create_hook dp a cc db = Ok (o1, db') \<Longrightarrow> db_sequences db' = db_sequences db"
    by (erule create_hookE) (auto dest!: hook_statements_sequences)
  show "delete_hook dp a dc db = Ok (g, db') \<Longrightarrow> db_sequences db' = db_sequences db"
    by (clarsimp simp: delete_hook_def result_simps) (auto dest!: hook_statements_sequences)
  show "update_hook dp a uc db = Ok (g, db') \<Longrightarrow> db_sequences db' = db_sequences db"
    by (clarsimp simp: update_hook_def result_simps) (auto dest!: hook_statements_sequences)
  show "restore_hook dp a rc db = Ok (o2, db') \<Longrightarrow> db_sequences db' = db_sequences db"
    by (erule restore_hookE) (auto dest!: hook_statements_sequences)
  show "rotate_hook_secret dp a sc db = Ok (o3, db') \<Longrightarrow> db_sequences db' = db_sequences db"
    by (erule rotate_hook_secretE) (auto dest!: hook_statements_sequences)
  show "rotate_hook_endpoint dp a ec db = Ok (o3, db') \<Longrightarrow> db_sequences db' = db_sequences db"
    by (erule rotate_hook_endpointE) (auto dest!: hook_statements_sequences)
  show "set_hooks_enabled dp ids bc db = Ok (gs, db') \<Longrightarrow> db_sequences db' = db_sequences db"
    by (clarsimp simp: set_hooks_enabled_def update_hook_activation_def result_simps split: if_split_asm)
      (auto dest!: hook_statements_sequences)
qed

lemma accept_keys: "accept_event dp tg new_id clock c request db = Ok (e, db') \<Longrightarrow> keys_kept db db'"
proof -
  assume "accept_event dp tg new_id clock c request db = Ok (e, db')"
  then obtain db1 db2 db3 where
    upd: "update_hooks (serving_row (hook_uuid (hk_id (av_hook c)))) (touch_received (cap_received_at request)) db = Ok (1, db1)"
    and seq: "next_sequence (silicon_id_str (hk_silicon_id (av_hook c))) db1 = Ok (sequence_get (ev_sequence e), db2)"
    and ins: "insert_event (dp_crates dp) e db2 = Ok db3" and out: "db' = db3\<lparr>db_outbox := db_outbox db'\<rparr>"
    by (rule accept_eventE)
  have "keeps db db1" by (rule update_keeps [OF upd]) (simp_all add: touch_received_def)
  then have "keys_kept db db1" by (rule keeps_keys)
  moreover have "keys_kept db1 db2"
    by (subst next_sequence_Ok(2) [OF seq]) (simp add: keys_kept_def keys_ok_def)
  moreover have "keys_kept db2 db3"
    using ins by (rule insert_event_Ok) (simp add: keys_kept_def keys_ok_def)
  moreover have "keys_kept db3 db'" by (subst out) (simp add: keys_kept_def keys_ok_def)
  ultimately show ?thesis by (meson keys_kept_trans)
qed

section \<open>Runs\<close>

definition well_keyed :: "endpoint_key \<Rightarrow> bool" where
  "well_keyed k \<longleftrightarrow> endpoint_key_parse (endpoint_key_str k) = Ok k"

inductive store_step :: "('u, 'k, 'z) deps \<Rightarrow> ting_crates \<Rightarrow> db \<Rightarrow> 'u event_record list \<Rightarrow> db \<Rightarrow> bool" for dp tg where
  created: "create_hook dp a cc db = Ok (o1, db') \<Longrightarrow> well_keyed (hk_endpoint_key (ch_hook cc)) \<Longrightarrow> store_step dp tg db [] db'"
| deleted_hook: "delete_hook dp a dc db = Ok (g, db') \<Longrightarrow> store_step dp tg db [] db'"
| updated_hook: "update_hook dp a uc db = Ok (g, db') \<Longrightarrow> store_step dp tg db [] db'"
| restored: "restore_hook dp a rc db = Ok (o2, db') \<Longrightarrow> store_step dp tg db [] db'"
| secret: "rotate_hook_secret dp a sc db = Ok (o3, db') \<Longrightarrow> store_step dp tg db [] db'"
| endpoint: "rotate_hook_endpoint dp a ec db = Ok (o3, db') \<Longrightarrow> well_keyed (re_replacement ec) \<Longrightarrow> store_step dp tg db [] db'"
| activation: "set_hooks_enabled dp ids bc db = Ok (gs, db') \<Longrightarrow> store_step dp tg db [] db'"
| accepted: "accept_event dp tg new_id clock ac request db = Ok (e, db') \<Longrightarrow> store_step dp tg db [e] db'"
| blocked: "record_blocked_request dp rc' request db = Ok (b, db') \<Longrightarrow> store_step dp tg db [] db'"
| checked: "check_ip_block h ip now db = Ok (bc', db') \<Longrightarrow> store_step dp tg db [] db'"
| struck: "record_unverified_request tc h ip now db = Ok (st, db') \<Longrightarrow> store_step dp tg db [] db'"
| claimed: "claim_ting lease limit d clock db = Ok (cs, db') \<Longrightarrow> store_step dp tg db [] db'"
| completed: "complete_ting claim ting_id silent clock db = Ok (done, db') \<Longrightarrow> store_step dp tg db [] db'"
| retried: "retry_ting claim failure at clock db = Ok (done, db') \<Longrightarrow> store_step dp tg db [] db'"
| subscribed: "subscribe i clock silicon recipient db = Ok (r, db') \<Longrightarrow> store_step dp tg db [] db'"
| unsubscribed: "unsubscribe silicon recipient db = (done, db') \<Longrightarrow> store_step dp tg db [] db'"
| maintained: "run_maintenance_task task batch clock db = Ok (mb, db') \<Longrightarrow> store_step dp tg db [] db'"
| observed: "observe_token_account uc' u k pid at clock db = (res, db') \<Longrightarrow> store_step dp tg db [] db'"
| viewed: "record_account_view uc' v at clock db = (res, db') \<Longrightarrow> store_step dp tg db [] db'"
| gone: "record_account_deleted_by_lookup u at clock db = Ok db' \<Longrightarrow> store_step dp tg db [] db'"
| webhook: "apply_accounts_event audit_ids ae clock db = Ok (out, db') \<Longrightarrow> store_step dp tg db [] db'"
| granted: "put_grant uc' i silicon grantee level actor request_id clock db = (gr, db') \<Longrightarrow> store_step dp tg db [] db'"
| revoked: "delete_grant i silicon grantee actor request_id kept clock db = Ok (done, db') \<Longrightarrow> store_step dp tg db [] db'"
| allowed: "put_allowance uc' i silicon other actor request_id clock db = (al, db') \<Longrightarrow> store_step dp tg db [] db'"
| disallowed: "delete_allowance i silicon other actor request_id clock db = Ok (done, db') \<Longrightarrow> store_step dp tg db [] db'"

inductive store_run :: "('u, 'k, 'z) deps \<Rightarrow> ting_crates \<Rightarrow> db \<Rightarrow> 'u event_record list \<Rightarrow> db \<Rightarrow> bool" for dp tg where
  start: "store_run dp tg db [] db"
| more: "store_run dp tg db es db' \<Longrightarrow> store_step dp tg db' fs db'' \<Longrightarrow> store_run dp tg db (es @ fs) db''"

lemma keeps_sequences: "keeps db db' \<Longrightarrow> db_sequences db' = db_sequences db"
  by (simp add: keeps_def)

lemmas quiet_operations =
  blocked_keeps check_block_keeps unverified_keeps claim_keeps complete_keeps retry_keeps subscribe_keeps
  unsubscribe_keeps observe_keeps view_keeps lookup_deleted_keeps apply_event_keeps put_grant_keeps delete_grant_keeps
  put_allowance_keeps delete_allowance_keeps

lemma hook_operations_keys:
  "create_hook dp a cc db = Ok (o1, db') \<Longrightarrow> well_keyed (hk_endpoint_key (ch_hook cc)) \<Longrightarrow> keys_ok db \<Longrightarrow> keys_kept db db'"
  "delete_hook dp a dc db = Ok (g, db') \<Longrightarrow> keys_ok db \<Longrightarrow> keys_kept db db'"
  "update_hook dp a uc db = Ok (g, db') \<Longrightarrow> keys_ok db \<Longrightarrow> keys_kept db db'"
  "restore_hook dp a rc db = Ok (o2, db') \<Longrightarrow> keys_ok db \<Longrightarrow> keys_kept db db'"
  "rotate_hook_secret dp a sc db = Ok (o3, db') \<Longrightarrow> keys_ok db \<Longrightarrow> keys_kept db db'"
  "rotate_hook_endpoint dp a ec db = Ok (o3, db') \<Longrightarrow> well_keyed (re_replacement ec) \<Longrightarrow> keys_ok db \<Longrightarrow> keys_kept db db'"
  "set_hooks_enabled dp ids bc db = Ok (gs, db') \<Longrightarrow> keys_ok db \<Longrightarrow> keys_kept db db'"
  by (rule after_keys, erule create_keys delete_keys update_keys restore_keys rotate_secret_keys rotate_endpoint_keys
      activation_keys, (assumption | simp add: well_keyed_def)+)+

lemma maintenance_keys_kept: "run_maintenance_task task batch clock db = Ok (b, db') \<Longrightarrow> keys_kept db db'"
  and maintenance_sequences: "run_maintenance_task task batch clock db = Ok (b, db') \<Longrightarrow> db_sequences db' = db_sequences db"
  using maintenance_keys by blast+

lemma step_keys: "store_step dp tg db es db' \<Longrightarrow> keys_ok db \<Longrightarrow> keys_kept db db'"
  by (erule store_step.cases; hypsubst;
      erule hook_operations_keys quiet_operations [THEN keeps_keys] accept_keys maintenance_keys_kept; assumption)

lemma quiet_step_sequences: "store_step dp tg db [] db' \<Longrightarrow> db_sequences db' = db_sequences db"
  by (erule store_step.cases; hypsubst?;
      (erule hook_operations_sequences quiet_operations [THEN keeps_sequences] maintenance_sequences | simp))

end
