(* ===== verification/AccountsProps.thy ===== *)
theory AccountsProps
  imports System StoreDemo
begin

text \<open>
  Properties of the account cache: what is known about an account only moves forward whatever
  arrives and in whatever order, a webhook event is applied once, changes of a public identifier
  may be delivered in any order, and a late change of custodian displaces a newer profile.
\<close>

section \<open>Transactions that leave the accounts alone\<close>

lemma hook_statements_accounts:
  "reserve_management_key s now db = Ok (res, db') \<Longrightarrow> db_accounts db' = db_accounts db"
  "finish_management_key s response db = Ok (u, db') \<Longrightarrow> db_accounts db' = db_accounts db"
  "insert_audit i action h context at db = Ok (v, db') \<Longrightarrow> db_accounts db' = db_accounts db"
  "update_hooks P f db = Ok (n, db') \<Longrightarrow> db_accounts db' = db_accounts db"
  "insert_hook dp h d db = Ok (w, db') \<Longrightarrow> db_accounts db' = db_accounts db"
  "insert_retired g k j at db = Ok (x, db') \<Longrightarrow> db_accounts db' = db_accounts db"
  "insert_activation_audits ids c changed db = Ok (y, db') \<Longrightarrow> db_accounts db' = db_accounts db"
  by (subst reserve_other_tables finish_other_tables, assumption, simp)+
    (auto simp: insert_audit_Ok update_hooks_Ok insert_retired_Ok insert_activation_audits_def Let_def
      dest: insert_hook_Ok split: if_splits)

lemma hook_operations_accounts:
  "create_hook dp a cc db = Ok (o1, db') \<Longrightarrow> db_accounts db' = db_accounts db"
  "delete_hook dp a dc db = Ok (g, db') \<Longrightarrow> db_accounts db' = db_accounts db"
  "update_hook dp a uc db = Ok (g, db') \<Longrightarrow> db_accounts db' = db_accounts db"
  "restore_hook dp a rc db = Ok (o2, db') \<Longrightarrow> db_accounts db' = db_accounts db"
  "rotate_hook_secret dp a sc db = Ok (o3, db') \<Longrightarrow> db_accounts db' = db_accounts db"
  "rotate_hook_endpoint dp a ec db = Ok (o3, db') \<Longrightarrow> db_accounts db' = db_accounts db"
  "set_hooks_enabled dp ids bc db = Ok (gs, db') \<Longrightarrow> db_accounts db' = db_accounts db"
proof -
  show "create_hook dp a cc db = Ok (o1, db') \<Longrightarrow> db_accounts db' = db_accounts db"
    by (erule create_hookE) (auto dest!: hook_statements_accounts)
  show "delete_hook dp a dc db = Ok (g, db') \<Longrightarrow> db_accounts db' = db_accounts db"
    by (clarsimp simp: delete_hook_def result_simps) (auto dest!: hook_statements_accounts)
  show "update_hook dp a uc db = Ok (g, db') \<Longrightarrow> db_accounts db' = db_accounts db"
    by (clarsimp simp: update_hook_def result_simps) (auto dest!: hook_statements_accounts)
  show "restore_hook dp a rc db = Ok (o2, db') \<Longrightarrow> db_accounts db' = db_accounts db"
    by (erule restore_hookE) (auto dest!: hook_statements_accounts)
  show "rotate_hook_secret dp a sc db = Ok (o3, db') \<Longrightarrow> db_accounts db' = db_accounts db"
    by (erule rotate_hook_secretE) (auto dest!: hook_statements_accounts)
  show "rotate_hook_endpoint dp a ec db = Ok (o3, db') \<Longrightarrow> db_accounts db' = db_accounts db"
    by (erule rotate_hook_endpointE) (auto dest!: hook_statements_accounts)
  show "set_hooks_enabled dp ids bc db = Ok (gs, db') \<Longrightarrow> db_accounts db' = db_accounts db"
    by (clarsimp simp: set_hooks_enabled_def update_hook_activation_def result_simps split: if_split_asm)
      (auto dest!: hook_statements_accounts)
qed

lemma ingress_accounts:
  "accept_event dp tg new_id clock ac request db = Ok (e, db') \<Longrightarrow> db_accounts db' = db_accounts db"
  "record_blocked_request dp rc request db = Ok (b, db') \<Longrightarrow> db_accounts db' = db_accounts db"
  "check_ip_block h ip now db = Ok (bc, db') \<Longrightarrow> db_accounts db' = db_accounts db"
  "record_unverified_request tc h ip now db = Ok (st, db') \<Longrightarrow> db_accounts db' = db_accounts db"
proof -
  show "db_accounts db' = db_accounts db" if "accept_event dp tg new_id clock ac request db = Ok (e, db')"
    using that
  proof (rule accept_eventE)
    fix db1 db2 db3
    assume upd: "update_hooks (serving_row (hook_uuid (hk_id (av_hook ac)))) (touch_received (cap_received_at request)) db = Ok (1, db1)"
      and seq: "next_sequence (silicon_id_str (hk_silicon_id (av_hook ac))) db1 = Ok (sequence_get (ev_sequence e), db2)"
      and ins: "insert_event (dp_crates dp) e db2 = Ok db3" and out: "db' = db3\<lparr>db_outbox := db_outbox db'\<rparr>"
    have "db_accounts db2 = db_accounts db1" by (subst next_sequence_Ok(2) [OF seq]) simp
    moreover have "db_accounts db3 = db_accounts db2" using ins by (rule insert_event_Ok) simp
    moreover have "db_accounts db' = db_accounts db3" by (subst out) simp
    ultimately show ?thesis using hook_statements_accounts(4) [OF upd] by simp
  qed
  show "record_blocked_request dp rc request db = Ok (b, db') \<Longrightarrow> db_accounts db' = db_accounts db"
    by (auto simp: record_blocked_request_def insert_blocked_request_def Let_def result_simps
        dest!: hook_statements_accounts split: if_splits option.splits)
  show "check_ip_block h ip now db = Ok (bc, db') \<Longrightarrow> db_accounts db' = db_accounts db"
    by (auto simp: check_ip_block_def result_simps Let_def split: option.splits if_splits)
  show "record_unverified_request tc h ip now db = Ok (st, db') \<Longrightarrow> db_accounts db' = db_accounts db"
    by (auto simp: record_unverified_request_def Let_def result_simps split_beta split: option.splits if_splits)
qed

lemma outbox_accounts:
  "claim_ting lease limit d clock db = Ok (cs, db') \<Longrightarrow> db_accounts db' = db_accounts db"
  "complete_ting claim ting_id silent clock db = Ok (finished, db') \<Longrightarrow> db_accounts db' = db_accounts db"
  "retry_ting claim failure at clock db = Ok (finished, db') \<Longrightarrow> db_accounts db' = db_accounts db"
  "subscribe i clock silicon recipient db = Ok (r, db') \<Longrightarrow> db_accounts db' = db_accounts db"
  "unsubscribe silicon recipient db = (finished, db') \<Longrightarrow> db_accounts db' = db_accounts db"
  by (auto simp: claim_ting_def complete_ting_def retry_ting_def subscribe_def unsubscribe_def Let_def
      split: if_splits option.splits)

lemma purge_accounts: "purge task batch clock db = (n, db') \<Longrightarrow> db_accounts db' = db_accounts db"
  by (cases task)
    (auto simp: purge_events_def purge_blocked_def purge_hooks_def purge_keys_def purge_blocks_def
      purge_accounts_events_def delete_events_def delete_hooks_def Let_def)

lemma sharing_accounts:
  "run_maintenance_task task batch clock db = Ok (mb, db') \<Longrightarrow> db_accounts db' = db_accounts db"
  "put_grant uc' i silicon grantee level actor request_id clock db = (gr, db') \<Longrightarrow> db_accounts db' = db_accounts db"
  "delete_grant i silicon grantee actor request_id kept clock db = Ok (finished, db') \<Longrightarrow> db_accounts db' = db_accounts db"
  "put_allowance uc' i silicon other actor request_id clock db = (al, db') \<Longrightarrow> db_accounts db' = db_accounts db"
  "delete_allowance i silicon other actor request_id clock db = Ok (finished, db') \<Longrightarrow> db_accounts db' = db_accounts db"
  by (auto simp: run_maintenance_task_def put_grant_def delete_grant_def put_allowance_def delete_allowance_def
      insert_access_audit_def Let_def result_simps split: if_splits prod.splits result.splits option.splits
      dest: purge_accounts)

lemmas accounts_alone = hook_operations_accounts ingress_accounts outbox_accounts sharing_accounts

section \<open>Whatever is done\<close>

lemma step_evolves: "store_step dp tg db es db' \<Longrightarrow> evolves u db db'"
  by (erule store_step.cases; hypsubst;
      erule accounts_alone [THEN evolves_same] observe_evolves view_evolves lookup_deleted_evolves apply_event_evolves)

lemma run_evolves: "store_run dp tg db es db' \<Longrightarrow> evolves u db db'"
  by (induction rule: store_run.induct) (auto intro: evolves_same evolves_trans step_evolves)


definition demo_account :: account_uuid where
  "demo_account = AccountUuid (lit ''abc'')"

definition demo_deletion :: "instant \<Rightarrow> accounts_event" where
  "demo_deletion at =
     \<lparr>ax_event_id = lit ''e1'', ax_event_type = lit ''account.deleted'', ax_occurred_at = at,
      ax_change = AccountDeleted demo_account\<rparr>"

definition demo_known :: db where
  "demo_known = empty_db\<lparr>db_accounts :=
     [(new_account demo_account 0)\<lparr>ac_kind := Some (lit ''carbon''), ac_public_id := Some (lit ''c:ann''),
        ac_public_id_at := Some 1\<rparr>]\<rparr>"

lemma demo_deleted:
  "apply_accounts_event id (demo_deletion 5) 6 demo_known = Ok (Applied,
     demo_known\<lparr>db_accounts := [(new_account demo_account 6)\<lparr>ac_kind := Some (lit ''carbon''), ac_public_id_at := Some 1,
        ac_deleted_at := Some 5, ac_revoked_before := Some 5\<rparr>],
       db_accounts_events := [accounts_event_row_of (demo_deletion 5) False 6]\<rparr>)"
  by code_simp

text \<open>After the deletion a token still names the account, and a second deletion arrives.\<close>

definition demo_gone :: db where
  "demo_gone = demo_known\<lparr>db_accounts := [(new_account demo_account 6)\<lparr>ac_kind := Some (lit ''carbon''), ac_public_id_at := Some 1,
        ac_deleted_at := Some 5, ac_revoked_before := Some 5\<rparr>],
       db_accounts_events := [accounts_event_row_of (demo_deletion 5) False 6]\<rparr>"

lemma demo_gone_row: "the_account demo_account demo_gone = Some ((new_account demo_account 6)
    \<lparr>ac_kind := Some (lit ''carbon''), ac_public_id_at := Some 1, ac_deleted_at := Some 5, ac_revoked_before := Some 5\<rparr>)"
  by code_simp


section \<open>Once\<close>

text \<open>Deliveries, each with the clock at its arrival; a failed one leaves the tables alone.\<close>

definition deliver :: "(uuid \<Rightarrow> uuid) \<Rightarrow> accounts_event \<times> instant \<Rightarrow> db \<Rightarrow> db" where
  "deliver new_id d db =
     (case apply_accounts_event new_id (fst d) (snd d) db of Err e \<Rightarrow> db | Ok (_, db') \<Rightarrow> db')"

lemma upsert_events: "upsert_account v new f db = Ok (r, db') \<Longrightarrow> db_accounts_events db' = db_accounts_events db"
  by (auto simp: upsert_account_def split: if_splits option.splits)

lemma update_events: "update_account v P f db = Ok (b, db') \<Longrightarrow> db_accounts_events db' = db_accounts_events db"
  by (auto simp: update_account_def split: if_splits option.splits)

lemma remember_events:
  "remember_public_id v i clock db = Ok db' \<Longrightarrow> db_accounts_events db' = db_accounts_events db"
  "remember_optional v j clock db = Ok db' \<Longrightarrow> db_accounts_events db' = db_accounts_events db"
  by (auto simp: remember_optional_def remember_public_id_def split: if_splits option.splits)

lemma known_events: "upsert_known_account v k i at clock db = Ok db' \<Longrightarrow> db_accounts_events db' = db_accounts_events db"
  by (auto simp: upsert_known_account_def result_simps dest!: upsert_events remember_events)

lemma custodian_events: "upsert_custodian c at clock db = Ok db' \<Longrightarrow> db_accounts_events db' = db_accounts_events db"
  by (auto simp: upsert_custodian_def dest: known_events split: option.splits)

lemma ensure_events: "ensure_account v k clock db = Ok db' \<Longrightarrow> db_accounts_events db' = db_accounts_events db"
  by (auto simp: ensure_account_def result_simps dest: upsert_events)

lemma observers_events [simp]: "db_accounts_events (delete_observers P db) = db_accounts_events db"
  by (simp add: delete_observers_def Let_def)

lemma forget_events [simp]: "db_accounts_events (forget_account u db) = db_accounts_events db"
  by (simp add: forget_account_def Let_def)

lemma hooks_events: "delete_accounts_hooks new_id u clock db = Ok db' \<Longrightarrow> db_accounts_events db' = db_accounts_events db"
  by (auto simp: delete_accounts_hooks_def update_hooks_def Let_def result_simps split: if_splits option.splits)

lemma id_changed_events: "id_changed u k old i at clock db = Ok db' \<Longrightarrow> db_accounts_events db' = db_accounts_events db"
  by (auto simp: id_changed_def result_simps dest!: ensure_events update_events remember_events)

lemma updated_events:
  assumes "updated u k i n p c version at clock db = Ok db'"
  shows "db_accounts_events db' = db_accounts_events db"
proof -
  obtain db1 newer db2 db3 where steps: "ensure_account u k clock db = Ok db1"
    "db_accounts_events db2 = db_accounts_events db1"
    "(case i of None \<Rightarrow> Ok db2 | Some _ \<Rightarrow> upsert_known_account u k i at clock db2) = Ok db3"
    and rest: "(if newer \<and> k = Silicon
       then
         and_then (upsert_custodian c at clock db3) (\<lambda>db.
         map_ok snd (update_account u (custodian_not_after at)
           (\<lambda>r. r\<lparr>ac_custodian_uuid := map_option (account_uuid_str \<circ> fst) c,
                  ac_custodian_checked_at := Some clock\<rparr>) db))
       else Ok db3) = Ok db'"
    using assms by (auto simp: updated_def result_simps dest!: update_events)
  have "db_accounts_events db3 = db_accounts_events db2"
    using steps(3) by (cases i) (auto dest: known_events)
  moreover have "db_accounts_events db' = db_accounts_events db3"
    using rest by (cases "newer \<and> k = Silicon") (auto simp: result_simps dest!: update_events custodian_events)
  ultimately show ?thesis using steps(2) ensure_events [OF steps(1)] by simp
qed

lemma custodian_changed_events:
  "custodian_changed u before after at clock db = Ok db' \<Longrightarrow> db_accounts_events db' = db_accounts_events db"
  by (auto simp: custodian_changed_def result_simps dest!: ensure_events update_events custodian_events
      split: option.splits)

lemma revoke_events: "revoke u at clock db = Ok db' \<Longrightarrow> db_accounts_events db' = db_accounts_events db"
  by (auto simp: revoke_def result_simps dest!: upsert_events)

lemma deleted_events: "deleted new_id u at clock db = Ok db' \<Longrightarrow> db_accounts_events db' = db_accounts_events db"
  by (auto simp: deleted_def Let_def result_simps dest!: upsert_events hooks_events split: if_splits)

lemma apply_change_events: "apply_change new_id at clock change db = Ok db' \<Longrightarrow> db_accounts_events db' = db_accounts_events db"
  by (cases change) (auto dest: id_changed_events updated_events custodian_changed_events revoke_events deleted_events
      split: if_splits)

lemma apply_event_events:
  "apply_accounts_event new_id e clock db = Ok (out, db') \<Longrightarrow>
     (event_seen i db' \<longleftrightarrow> event_seen i db \<or> i = ax_event_id e)"
  by (auto simp: apply_accounts_event_def Let_def result_simps event_seen_def accounts_event_row_of_def
      dest!: apply_change_events split: option.splits if_splits)

lemma deliver_seen: "event_seen i db \<Longrightarrow> event_seen i (deliver new_id d db)"
  by (auto simp: deliver_def apply_event_events split: result.splits)

lemma deliveries_seen: "event_seen i db \<Longrightarrow> event_seen i (fold (deliver new_id) ds db)"
  by (induction ds arbitrary: db) (simp_all add: deliver_seen)

lemma seen_is_duplicate:
  "event_seen (ax_event_id e) db \<Longrightarrow> deliver new_id (e, clock) db = db \<and>
     (event_row_check e = None \<longrightarrow> apply_accounts_event new_id e clock db = Ok (Duplicate, db))"
  by (simp add: deliver_def apply_accounts_event_def split: option.splits)

text \<open>C14: A webhook event takes effect once. After an event has been applied, and whatever other events
  are delivered afterwards, a delivery with the same identifier answers that it is a duplicate and
  changes nothing, so it can be left out of any history of deliveries.\<close>

theorem accounts_events_take_effect_once:
  assumes "apply_accounts_event new_id e clock db = Ok (out, db')" and "ax_event_id again = ax_event_id e"
  shows "fold (deliver new_id) (ds @ (again, clock') # es) db' = fold (deliver new_id) (ds @ es) db' \<and>
    (event_row_check again = None \<longrightarrow>
       apply_accounts_event new_id again clock' (fold (deliver new_id) ds db') =
         Ok (Duplicate, fold (deliver new_id) ds db'))"
proof -
  have "event_seen (ax_event_id again) (fold (deliver new_id) ds db')"
    using apply_event_events [OF assms(1)] assms(2) by (simp add: deliveries_seen)
  from seen_is_duplicate [OF this] show ?thesis
    by simp
qed

theorem accounts_events_take_effect_once_witness:
  "\<exists>db'. apply_accounts_event id (demo_deletion 5) 6 demo_known = Ok (Applied, db') \<and>
     apply_accounts_event id (demo_deletion 9) 10 db' = Ok (Duplicate, db')"
proof -
  have "event_row_check (demo_deletion 9) = None" "ax_event_id (demo_deletion 9) = ax_event_id (demo_deletion 5)"
    by code_simp+
  with accounts_events_take_effect_once [OF demo_deleted, of "demo_deletion 9" "[]" 10 "[]"] demo_deleted
  show ?thesis by auto
qed

section \<open>In any order\<close>

lemma upsert_known_row:
  assumes "the_account u db = Some r" and "account_check new" and "account_check (f r)"
    and "account_row_of u new" and "\<And>r. account_row_of u r \<Longrightarrow> account_row_of u (f r)"
  shows "\<exists>db'. upsert_account u new f db = Ok (f r, db') \<and> the_account u db' = Some (f r) \<and>
    db' = db\<lparr>db_accounts := db_accounts db'\<rparr>"
proof -
  have "upsert_account u new f db = Ok (f r, db\<lparr>db_accounts := rows_update (account_row_of u) f (db_accounts db)\<rparr>)"
    using assms(1-3) by (simp add: upsert_account_def the_account_def)
  with the_account_update [of u f u db, OF assms(5)] assms(1) show ?thesis by simp
qed

lemma update_known_row:
  assumes "the_account u db = Some r" and "account_check (f r)" and "\<And>r. account_row_of u r \<Longrightarrow> account_row_of u (f r)"
  shows "\<exists>db'. update_account u P f db = Ok (P r, db') \<and> the_account u db' = Some (if P r then f r else r) \<and>
    db' = db\<lparr>db_accounts := db_accounts db'\<rparr>"
proof (cases "P r")
  case True
  then have "update_account u P f db = Ok (True, db\<lparr>db_accounts := rows_update (account_row_of u) f (db_accounts db)\<rparr>)"
    using assms(1,2) by (simp add: update_account_def the_account_def)
  with True the_account_update [of u f u db, OF assms(3)] assms(1) show ?thesis by simp
qed (use assms(1) in \<open>simp add: update_account_def the_account_def\<close>)

lemma remember_known:
  assumes "the_account u db = Some r"
  shows "\<exists>db'. remember_public_id u i clock db = Ok db' \<and> db' = db\<lparr>db_account_ids := db_account_ids db'\<rparr>"
proof -
  have "list_ex (account_row_of u) (db_accounts db)"
    using assms by (auto simp: the_account_def list_ex_iff dest: find_SomeD)
  then show ?thesis by (auto simp: remember_public_id_def)
qed

definition newer_id :: "public_id \<Rightarrow> instant \<Rightarrow> instant \<Rightarrow> account_row \<Rightarrow> account_row" where
  "newer_id i at clock r =
     (if ac_deleted_at r = None \<and> (case ac_public_id_at r of None \<Rightarrow> True | Some t \<Rightarrow> t < at)
      then r\<lparr>ac_public_id := Some (public_id_str i), ac_public_id_at := Some at, ac_updated_at := clock\<rparr> else r)"

text \<open>The public identifiers seen for accounts.\<close>

definition known_ids :: "db \<Rightarrow> (ustring \<times> ustring) set" where
  "known_ids db = (\<lambda>r. (ai_account_uuid r, ai_public_id r)) ` set (db_account_ids db)"

definition ids_named :: "account_uuid \<Rightarrow> public_id option \<Rightarrow> (ustring \<times> ustring) set" where
  "ids_named u i = (\<lambda>i. (account_uuid_str u, public_id_str i)) ` set_option i"

lemma rows_update_image: "(\<And>r. g (f r) = g r) \<Longrightarrow> g ` set (rows_update P f rows) = g ` set rows"
  unfolding set_rows_update image_image by (rule image_cong) simp_all

lemma remember_known_ids:
  "remember_public_id u i clock db = Ok db' \<Longrightarrow> known_ids db' = known_ids db \<union> ids_named u (Some i)"
  "remember_optional u j clock db = Ok db' \<Longrightarrow> known_ids db' = known_ids db \<union> ids_named u j"
proof -
  show one: "known_ids db' = known_ids db \<union> ids_named u (Some i)" if "remember_public_id u i clock db = Ok db'" for i
  proof (cases "list_ex (seen_row u i) (db_account_ids db)")
    case True
    then have "db' = db\<lparr>db_account_ids := rows_update (\<lambda>r. seen_row u i r \<and> ai_last_seen_at r < clock - hour)
        (\<lambda>r. r\<lparr>ai_last_seen_at := clock\<rparr>) (db_account_ids db)\<rparr>"
      using that by (simp add: remember_public_id_def)
    then have "known_ids db' = known_ids db" by (simp add: known_ids_def rows_update_image)
    moreover have "(account_uuid_str u, public_id_str i) \<in> known_ids db"
      using True by (force simp: known_ids_def list_ex_iff seen_row_def image_iff)
    ultimately show ?thesis by (auto simp: ids_named_def)
  next
    case False
    then show ?thesis using that by (auto simp: remember_public_id_def known_ids_def ids_named_def split: if_splits)
  qed
  show "known_ids db' = known_ids db \<union> ids_named u j" if "remember_optional u j clock db = Ok db'"
    using that one by (auto simp: remember_optional_def ids_named_def split: option.splits)
qed

lemma or_kind_known: "ac_kind r \<noteq> None \<Longrightarrow> or_kind k r = r"
  by (auto simp: or_kind_def)

lemma new_account_checks: "account_check ((new_account u clock)\<lparr>ac_kind := k\<rparr>)"
  by (simp add: account_check_def new_account_def)

lemma id_changed_row:
  assumes "the_account u db = Some r" and "ac_kind r \<noteq> None" and "account_check r"
  shows "\<exists>db'. id_changed u k old i at clock db = Ok db' \<and> the_account u db' = Some (newer_id i at clock r) \<and>
    db' = db\<lparr>db_accounts := db_accounts db', db_account_ids := db_account_ids db'\<rparr> \<and>
    (\<forall>v. v \<noteq> u \<longrightarrow> the_account v db' = the_account v db) \<and>
    known_ids db' = known_ids db \<union> ids_named u (Some i) \<union> ids_named u old"
proof -
  let ?k = "case k of None \<Rightarrow> public_id_kind i | Some k \<Rightarrow> k"
  obtain db1 where 1: "upsert_account u ((new_account u clock)\<lparr>ac_kind := Some (kind_text ?k)\<rparr>) (or_kind ?k) db = Ok (r, db1)"
    "the_account u db1 = Some r" "db1 = db\<lparr>db_accounts := db_accounts db1\<rparr>"
    using upsert_known_row [OF assms(1), of "(new_account u clock)\<lparr>ac_kind := Some (kind_text ?k)\<rparr>" "or_kind ?k"]
      assms(2,3) new_account_checks [where u = u and clock = clock] by (auto simp: or_kind_known)
  let ?P = "\<lambda>r. ac_deleted_at r = None \<and> (case ac_public_id_at r of None \<Rightarrow> True | Some t \<Rightarrow> t < at)"
  let ?f = "\<lambda>r. r\<lparr>ac_public_id := Some (public_id_str i), ac_public_id_at := Some at, ac_updated_at := clock\<rparr>"
  obtain db2 where 2: "update_account u ?P ?f db1 = Ok (?P r, db2)" "the_account u db2 = Some (newer_id i at clock r)"
    "db2 = db1\<lparr>db_accounts := db_accounts db2\<rparr>"
    using update_known_row [OF 1(2), of ?f ?P] assms(3) by (auto simp: newer_id_def account_check_def)
  obtain db3 where 3: "remember_public_id u i clock db2 = Ok db3" "db3 = db2\<lparr>db_account_ids := db_account_ids db3\<rparr>"
    using remember_known [OF 2(2)] by blast
  have a3: "db_accounts db3 = db_accounts db2" by (rule remember_accounts(1) [OF 3(1)])
  then have "the_account u db3 = Some (newer_id i at clock r)" using 2(2) by (simp add: the_account_def)
  then obtain db4 where 4: "remember_optional u old clock db3 = Ok db4"
    using remember_known by (cases old) (fastforce simp: remember_optional_def)+
  have a4: "db_accounts db4 = db_accounts db2" using a3 remember_accounts(2) [OF 4] by simp
  have "db4 = db3\<lparr>db_account_ids := db_account_ids db4\<rparr>" by (rule remember_tables(2) [OF 4])
  then have "db4 = db\<lparr>db_accounts := db_accounts db4, db_account_ids := db_account_ids db4\<rparr>"
    using 1(3) 2(3) 3(2) a4 by (cases db, cases db1, cases db2, cases db3, cases db4) simp
  moreover have "id_changed u k old i at clock db = Ok db4"
    using 1(1) 2(1) 3(1) 4 by (simp add: id_changed_def ensure_account_def)
  moreover have "the_account u db4 = Some (newer_id i at clock r)"
    using 2(2) a4 by (simp add: the_account_def)
  moreover have "the_account v db4 = the_account v db" if "v \<noteq> u" for v
    using that a4 upsert_account_Ok(2) [OF 1(1), of v] update_account_Ok(2) [OF 2(1), of v] by (simp add: the_account_def)
  moreover have "db_account_ids db2 = db_account_ids db" by (subst 2(3), subst 1(3)) simp
  then have "known_ids db4 = known_ids db \<union> ids_named u (Some i) \<union> ids_named u old"
    using remember_known_ids(1) [OF 3(1)] remember_known_ids(2) [OF 4] by (simp add: known_ids_def)
  ultimately show ?thesis by blast
qed

text \<open>The public identifier an account has and the instant it became current.\<close>

definition named :: "account_row \<Rightarrow> ustring option \<times> instant option" where
  "named r = (ac_public_id r, ac_public_id_at r)"

fun latest :: "accounts_event \<times> instant \<Rightarrow> ustring option \<times> instant option \<Rightarrow> ustring option \<times> instant option" where
  "latest (e, clock) (i, t) =
     (case ax_change e of
        IdChanged u k old new \<Rightarrow>
          if (case t of None \<Rightarrow> True | Some t \<Rightarrow> t < ax_occurred_at e)
          then (Some (public_id_str new), Some (ax_occurred_at e)) else (i, t)
      | _ \<Rightarrow> (i, t))"

definition renames :: "account_uuid \<Rightarrow> accounts_event \<Rightarrow> bool" where
  "renames u e \<longleftrightarrow> event_row_check e = None \<and> (\<exists>k old new. ax_change e = IdChanged u k old new)"

fun mentioned_ids :: "accounts_change \<Rightarrow> (ustring \<times> ustring) set" where
  "mentioned_ids (IdChanged u k old new) = ids_named u (Some new) \<union> ids_named u old"
| "mentioned_ids change = {}"

text \<open>A row but for its public identifier and the time of its last update.\<close>

definition unnamed :: "account_row \<Rightarrow> account_row" where
  "unnamed r = r\<lparr>ac_public_id := None, ac_public_id_at := None, ac_updated_at := 0\<rparr>"

lemma unnamed_newer: "unnamed (newer_id i at clock r) = unnamed r"
  by (simp add: unnamed_def newer_id_def)

lemma unnamed_eq:
  "unnamed r = unnamed s \<Longrightarrow> named r = named s \<Longrightarrow> r\<lparr>ac_updated_at := 0\<rparr> = s\<lparr>ac_updated_at := 0\<rparr>"
  by (cases r, cases s) (simp add: unnamed_def named_def)

lemma deliver_rename:
  assumes "renames u e" and "\<not> event_seen (ax_event_id e) db" and "account_uuid_str u \<notin> set (db_retired_uuids db)"
    and "the_account u db = Some r" and "ac_kind r \<noteq> None" and "account_check r" and "ac_deleted_at r = None"
  shows "\<exists>r'. the_account u (deliver new_id (e, clock) db) = Some r' \<and> named r' = latest (e, clock) (named r) \<and>
    unnamed r' = unnamed r \<and> ac_kind r' = ac_kind r \<and> account_check r' \<and> ac_deleted_at r' = None"
    and "db_retired_uuids (deliver new_id (e, clock) db) = db_retired_uuids db"
    and "event_seen i (deliver new_id (e, clock) db) \<longleftrightarrow> event_seen i db \<or> i = ax_event_id e"
    and "v \<noteq> u \<Longrightarrow> the_account v (deliver new_id (e, clock) db) = the_account v db"
    and "known_ids (deliver new_id (e, clock) db) = known_ids db \<union> mentioned_ids (ax_change e)"
proof -
  obtain k old new where e: "ax_change e = IdChanged u k old new" "event_row_check e = None"
    using assms(1) by (auto simp: renames_def)
  have retired: "\<not> retired_identity (ax_change e) db"
    using assms(3) by (simp add: e retired_identity_def)
  let ?db = "db\<lparr>db_accounts_events := accounts_event_row_of e False clock # db_accounts_events db\<rparr>"
  have "the_account u ?db = Some r" using assms(4) by (simp add: the_account_def)
  from id_changed_row [OF this assms(5,6), of k old new "ax_occurred_at e" clock] obtain db' where
    db': "id_changed u k old new (ax_occurred_at e) clock ?db = Ok db'"
      "the_account u db' = Some (newer_id new (ax_occurred_at e) clock r)"
      "db' = ?db\<lparr>db_accounts := db_accounts db', db_account_ids := db_account_ids db'\<rparr>"
      "\<And>v. v \<noteq> u \<Longrightarrow> the_account v db' = the_account v db"
      "known_ids db' = known_ids db \<union> ids_named u (Some new) \<union> ids_named u old"
    by (auto simp: the_account_def known_ids_def)
  have applied: "apply_accounts_event new_id e clock db = Ok (Applied, db')"
    using e assms(2) retired db'(1) by (simp add: apply_accounts_event_def Let_def e(1))
  then have out: "deliver new_id (e, clock) db = db'" by (simp add: deliver_def)
  show "db_retired_uuids (deliver new_id (e, clock) db) = db_retired_uuids db"
    unfolding out by (subst db'(3)) simp
  show "event_seen i (deliver new_id (e, clock) db) \<longleftrightarrow> event_seen i db \<or> i = ax_event_id e"
    unfolding out by (rule apply_event_events [OF applied])
  show "v \<noteq> u \<Longrightarrow> the_account v (deliver new_id (e, clock) db) = the_account v db"
    unfolding out by (rule db'(4))
  show "known_ids (deliver new_id (e, clock) db) = known_ids db \<union> mentioned_ids (ax_change e)"
    unfolding out db'(5) by (simp add: e(1) Un_assoc)
  show "\<exists>r'. the_account u (deliver new_id (e, clock) db) = Some r' \<and> named r' = latest (e, clock) (named r) \<and>
    unnamed r' = unnamed r \<and> ac_kind r' = ac_kind r \<and> account_check r' \<and> ac_deleted_at r' = None"
    using out db'(2) assms(6,7) unnamed_newer [of new "ax_occurred_at e" clock r]
    by (auto simp: newer_id_def named_def e(1) account_check_def split: option.splits)
qed

definition fresh_renames :: "account_uuid \<Rightarrow> (accounts_event \<times> instant) list \<Rightarrow> db \<Rightarrow> bool" where
  "fresh_renames u ds db \<longleftrightarrow>
     (\<forall>d \<in> set ds. renames u (fst d) \<and> \<not> event_seen (ax_event_id (fst d)) db) \<and> distinct (map (ax_event_id \<circ> fst) ds)"

lemma deliver_renames:
  assumes "fresh_renames u ds db" and "account_uuid_str u \<notin> set (db_retired_uuids db)"
    and "the_account u db = Some r" and "ac_kind r \<noteq> None" and "account_check r" and "ac_deleted_at r = None"
  shows "(\<exists>r'. the_account u (fold (deliver new_id) ds db) = Some r' \<and> named r' = fold latest ds (named r) \<and> unnamed r' = unnamed r) \<and>
    (\<forall>v. v \<noteq> u \<longrightarrow> the_account v (fold (deliver new_id) ds db) = the_account v db) \<and>
    known_ids (fold (deliver new_id) ds db) = known_ids db \<union> (\<Union>d \<in> set ds. mentioned_ids (ax_change (fst d)))"
  using assms
proof (induction ds arbitrary: db r)
  case (Cons d ds)
  obtain e clock where d: "d = (e, clock)" by fastforce
  have e: "renames u e" "\<not> event_seen (ax_event_id e) db" using Cons.prems(1) by (auto simp: d fresh_renames_def)
  note one = deliver_rename [OF e Cons.prems(2-6), where new_id = new_id and clock = clock]
  from one(1) obtain r' where
    r': "the_account u (deliver new_id d db) = Some r'" "named r' = latest d (named r)" "unnamed r' = unnamed r"
      "ac_kind r' = ac_kind r" "account_check r'" "ac_deleted_at r' = None"
    unfolding d by blast
  have "fresh_renames u ds (deliver new_id d db)"
    using Cons.prems(1) unfolding d fresh_renames_def one(3) by (force simp: image_iff)
  from Cons.IH [OF this _ r'(1)] Cons.prems(2,4) r'(2-6) one(2,4,5) show ?case by (auto simp: d)
qed (simp add: fresh_renames_def)

lemma latest_commute:
  assumes "ax_occurred_at (fst d) = ax_occurred_at (fst e) \<longrightarrow> d = e"
  shows "latest d \<circ> latest e = latest e \<circ> latest d"
proof (cases "d = e")
  case False
  with assms have "ax_occurred_at (fst d) \<noteq> ax_occurred_at (fst e)" by blast
  then show ?thesis
    by (cases d, cases e) (auto simp: fun_eq_iff split: accounts_change.splits option.splits)
qed simp

lemma latest_skips:
  "snd p = Some t \<Longrightarrow> \<forall>d \<in> set ds. ax_occurred_at (fst d) \<le> t \<Longrightarrow> fold latest ds p = p"
proof (induction ds)
  case (Cons d ds)
  then have "latest d p = p" by (cases d, cases p) (auto split: accounts_change.split)
  with Cons show ?case by simp
qed simp

lemma latest_from:
  "snd (fold latest ds p) = snd p \<or> (\<exists>d \<in> set ds. snd (fold latest ds p) = Some (ax_occurred_at (fst d)))"
proof (induction ds arbitrary: p)
  case (Cons d ds)
  have "snd (latest d p) = snd p \<or> snd (latest d p) = Some (ax_occurred_at (fst d))"
    by (cases d, cases p) (auto split: accounts_change.split)
  with Cons.IH [of "latest d p"] show ?case by auto
qed simp

fun new_name :: "accounts_change \<Rightarrow> ustring option" where
  "new_name (IdChanged u k old new) = Some (public_id_str new)"
| "new_name change = None"

text \<open>The newest change wins, unless what is stored is as new.\<close>

lemma newest_wins:
  assumes "d \<in> set ds" and "\<forall>e \<in> set ds. ax_occurred_at (fst e) \<le> ax_occurred_at (fst d)"
    and "distinct (map (ax_occurred_at \<circ> fst) ds)" and "renames u (fst d)"
  shows "fold latest ds p =
    (if \<exists>t. snd p = Some t \<and> ax_occurred_at (fst d) \<le> t then p
     else (new_name (ax_change (fst d)), Some (ax_occurred_at (fst d))))"
proof (cases "\<exists>t. snd p = Some t \<and> ax_occurred_at (fst d) \<le> t")
  case True
  then obtain t where t: "snd p = Some t" "ax_occurred_at (fst d) \<le> t" by blast
  with assms(2) have "fold latest ds p = p" by (intro latest_skips [OF t(1)]) (blast intro: order_trans)
  with True show ?thesis by simp
next
  case False
  obtain xs ys where ds: "ds = xs @ d # ys" using assms(1) by (meson split_list)
  have less: "ax_occurred_at (fst e) < ax_occurred_at (fst d)" if "e \<in> set xs \<or> e \<in> set ys" for e
  proof -
    have "(ax_occurred_at \<circ> fst) d \<notin> (ax_occurred_at \<circ> fst) ` (set xs \<union> set ys)"
      using assms(3) by (simp add: ds image_Un)
    with that have "ax_occurred_at (fst e) \<noteq> ax_occurred_at (fst d)" by (metis UnI1 UnI2 comp_apply image_eqI)
    with assms(2) that show ?thesis by (force simp: ds)
  qed
  have "snd (fold latest xs p) = None \<or> (\<exists>t. snd (fold latest xs p) = Some t \<and> t < ax_occurred_at (fst d))"
    using latest_from [of xs p] False less by (cases "snd p") (auto simp: not_le)
  then have "fold latest (xs @ [d]) p = (new_name (ax_change (fst d)), Some (ax_occurred_at (fst d)))"
    using assms(4) by (cases d; cases "fold latest xs p") (auto simp: renames_def)
  moreover have "fold latest ys (new_name (ax_change (fst d)), Some (ax_occurred_at (fst d))) =
      (new_name (ax_change (fst d)), Some (ax_occurred_at (fst d)))"
    using less [OF disjI2] by (intro latest_skips) (simp, blast intro: less_imp_le)
  ultimately show ?thesis unfolding if_not_P [OF False] by (simp add: ds)
qed

text \<open>C23: Changes of a public identifier may be delivered in any order. For a known account that is not
  deleted, any two orders of the same changes, with distinct event identifiers and distinct instants,
  leave the same row of the account but for the time of its last update, no change to the row of any
  other account, and the same set of identifiers seen. The newest change wins: its identifier is the
  account's, current since its instant, unless the identifier stored before was current since that
  instant or a later one, which then stays.\<close>

theorem id_changes_apply_in_any_order:
  assumes "mset es = mset ds" and "fresh_renames u ds db" and "distinct (map (ax_occurred_at \<circ> fst) ds)"
    and "account_uuid_str u \<notin> set (db_retired_uuids db)"
    and "the_account u db = Some r" and "ac_kind r \<noteq> None" and "account_check r" and "ac_deleted_at r = None"
  shows "\<exists>r1 r2. the_account u (fold (deliver new_id) ds db) = Some r1 \<and>
    the_account u (fold (deliver new_id) es db) = Some r2 \<and> r1\<lparr>ac_updated_at := 0\<rparr> = r2\<lparr>ac_updated_at := 0\<rparr> \<and>
    (\<forall>v. v \<noteq> u \<longrightarrow> the_account v (fold (deliver new_id) ds db) = the_account v db \<and>
       the_account v (fold (deliver new_id) es db) = the_account v db) \<and>
    known_ids (fold (deliver new_id) es db) = known_ids (fold (deliver new_id) ds db) \<and>
    (\<forall>d \<in> set ds. (\<forall>e \<in> set ds. ax_occurred_at (fst e) \<le> ax_occurred_at (fst d)) \<longrightarrow>
       (ac_public_id r1, ac_public_id_at r1) =
         (if \<exists>t. ac_public_id_at r = Some t \<and> ax_occurred_at (fst d) \<le> t then (ac_public_id r, ac_public_id_at r)
          else (new_name (ax_change (fst d)), Some (ax_occurred_at (fst d)))))"
proof -
  have set: "set es = set ds" using assms(1) by (rule mset_eq_setD)
  have "mset (map (ax_event_id \<circ> fst) es) = mset (map (ax_event_id \<circ> fst) ds)" using assms(1) by simp
  then have "distinct (map (ax_event_id \<circ> fst) es)"
    using assms(2) by (metis fresh_renames_def mset_eq_imp_distinct_iff)
  then have fresh: "fresh_renames u es db" using assms(2) set by (simp add: fresh_renames_def)
  note one = deliver_renames [OF assms(2,4-8), of new_id] and two = deliver_renames [OF fresh assms(4-8), of new_id]
  from one two obtain r1 r2 where
    1: "the_account u (fold (deliver new_id) ds db) = Some r1" "named r1 = fold latest ds (named r)" "unnamed r1 = unnamed r" and
    2: "the_account u (fold (deliver new_id) es db) = Some r2" "named r2 = fold latest es (named r)" "unnamed r2 = unnamed r"
    by blast
  have "latest d \<circ> latest e = latest e \<circ> latest d" if "d \<in> set es" "e \<in> set es" for d e
    using that set same_key [OF assms(3), of d e] by (intro latest_commute) auto
  then have "fold latest es = fold latest ds" by (rule fold_multiset_equiv [OF _ assms(1)])
  with 1 2 have same: "r1\<lparr>ac_updated_at := 0\<rparr> = r2\<lparr>ac_updated_at := 0\<rparr>" by (intro unnamed_eq) simp_all
  have others: "\<forall>v. v \<noteq> u \<longrightarrow> the_account v (fold (deliver new_id) ds db) = the_account v db \<and>
      the_account v (fold (deliver new_id) es db) = the_account v db" using one two by blast
  have ids: "known_ids (fold (deliver new_id) es db) = known_ids (fold (deliver new_id) ds db)"
    using one two set by simp
  have newest: "\<forall>d \<in> set ds. (\<forall>e \<in> set ds. ax_occurred_at (fst e) \<le> ax_occurred_at (fst d)) \<longrightarrow>
       (ac_public_id r1, ac_public_id_at r1) =
         (if \<exists>t. ac_public_id_at r = Some t \<and> ax_occurred_at (fst d) \<le> t then (ac_public_id r, ac_public_id_at r)
          else (new_name (ax_change (fst d)), Some (ax_occurred_at (fst d))))"
  proof (intro ballI impI)
    fix d assume d: "d \<in> set ds" "\<forall>e \<in> set ds. ax_occurred_at (fst e) \<le> ax_occurred_at (fst d)"
    have "renames u (fst d)" using assms(2) d(1) unfolding fresh_renames_def by blast
    from newest_wins [OF d assms(3) this, of "named r"]
    show "(ac_public_id r1, ac_public_id_at r1) =
         (if \<exists>t. ac_public_id_at r = Some t \<and> ax_occurred_at (fst d) \<le> t then (ac_public_id r, ac_public_id_at r)
          else (new_name (ax_change (fst d)), Some (ax_occurred_at (fst d))))"
      using 1(2) by (simp only: named_def snd_conv)
  qed
  from 1(1) 2(1) same others ids newest show ?thesis
    by (intro exI [of _ r1] exI [of _ r2] conjI)
qed

definition demo_rename :: "string \<Rightarrow> instant \<Rightarrow> string \<Rightarrow> accounts_event \<times> instant" where
  "demo_rename i at name =
     (\<lparr>ax_event_id = lit i, ax_event_type = lit ''account.id_changed'', ax_occurred_at = at,
       ax_change = IdChanged demo_account (Some Carbon) None (PublicId (lit name))\<rparr>, 9)"

theorem id_changes_apply_in_any_order_witness:
  "\<exists>r1 r2. the_account demo_account (fold (deliver id) [demo_rename ''a'' 5 ''c:bea'', demo_rename ''b'' 7 ''c:cid''] demo_known) = Some r1 \<and>
     the_account demo_account (fold (deliver id) [demo_rename ''b'' 7 ''c:cid'', demo_rename ''a'' 5 ''c:bea''] demo_known) = Some r2 \<and>
     ac_public_id r1 = Some (lit ''c:cid'') \<and> ac_public_id r2 = Some (lit ''c:cid'')"
proof -
  let ?a = "demo_rename ''a'' 5 ''c:bea''" and ?b = "demo_rename ''b'' 7 ''c:cid''"
  have known: "the_account demo_account demo_known = Some ((new_account demo_account 0)\<lparr>ac_kind := Some (lit ''carbon''),
      ac_public_id := Some (lit ''c:ann''), ac_public_id_at := Some 1\<rparr>)"
    "account_uuid_str demo_account \<notin> set (db_retired_uuids demo_known)"
    "\<not> event_seen i demo_known" for i
    by (simp_all add: the_account_def demo_known_def empty_db_def new_account_def account_row_of_def event_seen_def)
  have parts: "renames demo_account (fst ?a)" "renames demo_account (fst ?b)"
    "ax_event_id (fst ?a) \<noteq> ax_event_id (fst ?b)" "ax_occurred_at (fst ?a) = 5" "ax_occurred_at (fst ?b) = 7"
    "new_name (ax_change (fst ?b)) = Some (lit ''c:cid'')"
    by (simp_all add: renames_def demo_rename_def event_row_check_def lit_def)
  have "mset [?b, ?a] = mset [?a, ?b]" "fresh_renames demo_account [?a, ?b] demo_known"
    "distinct (map (ax_occurred_at \<circ> fst) [?a, ?b])"
    using parts(1-5) known(3) by (simp_all add: fresh_renames_def)
  from id_changes_apply_in_any_order [OF this known(2,1), of id] obtain r1 r2 where
    r: "the_account demo_account (fold (deliver id) [?a, ?b] demo_known) = Some r1"
    "the_account demo_account (fold (deliver id) [?b, ?a] demo_known) = Some r2"
    "r1\<lparr>ac_updated_at := 0\<rparr> = r2\<lparr>ac_updated_at := 0\<rparr>" "ac_public_id r1 = Some (lit ''c:cid'')"
    using parts(4-6) by (force simp: account_check_def new_account_def)
  from r(3) have "ac_public_id r2 = ac_public_id r1" by (metis account_row.select_convs(3) account_row.surjective account_row.update_convs(13))
  with r show ?thesis by auto
qed

section \<open>A late change of custodian\<close>

lemma or_kind_silicon: "ac_kind r = Some k \<Longrightarrow> or_kind k' r = r"
  by (simp add: or_kind_def)

lemma known_other_row:
  assumes "upsert_known_account v k i at clock db = Ok db'" and "v \<noteq> u"
  shows "the_account u db' = the_account u db"
proof -
  from assms(1) obtain r db1 where up: "upsert_account v (known_account v k i at clock)
        (\<lambda>r. forward_public_id i at (or_kind k r)) db = Ok (r, db1)"
    and rest: "remember_optional v i clock db1 = Ok db'"
    by (auto simp: upsert_known_account_def result_simps)
  with upsert_account_Ok(2) [OF up, of u] remember_accounts(2) [OF rest] assms(2) show ?thesis
    by (simp add: the_account_def)
qed

lemma custodian_other_row:
  "upsert_custodian (Some (v, i)) at clock db = Ok db' \<Longrightarrow> v \<noteq> u \<Longrightarrow> the_account u db' = the_account u db"
  by (simp add: upsert_custodian_def known_other_row)

lemma ensure_known_row:
  "ensure_account u k clock db = Ok db' \<Longrightarrow> the_account u db = Some r \<Longrightarrow> ac_kind r \<noteq> None \<Longrightarrow> the_account u db' = Some r"
  using upsert_account_Ok(1,2) [of u "(new_account u clock)\<lparr>ac_kind := Some (kind_text k)\<rparr>" "or_kind k" db]
  by (auto simp: ensure_account_def result_simps or_kind_known)

lemma custodian_changed_row:
  assumes "custodian_changed u before (Some (v, i)) at clock db = Ok db'" and "v \<noteq> u"
    and "the_account u db = Some r" and "ac_kind r = Some (kind_text Silicon)" and "custodian_before at r"
  shows "\<exists>r'. the_account u db' = Some r' \<and> ac_custodian_uuid r' = Some (account_uuid_str v) \<and>
    ac_custodian_changed_at r' = Some at \<and> ac_kind r' = ac_kind r \<and> ac_deleted_at r' = ac_deleted_at r \<and>
    ac_profile_version r' = ac_profile_version r"
proof -
  let ?f = "\<lambda>r. r\<lparr>ac_custodian_uuid := map_option (account_uuid_str \<circ> fst) (Some (v, i)), ac_custodian_changed_at := Some at,
                ac_custodian_checked_at := Some clock, ac_updated_at := clock\<rparr>"
  from assms(1) obtain db1 db2 b db3 where e: "ensure_account u Silicon clock db = Ok db1"
    and c: "upsert_custodian (Some (v, i)) at clock db1 = Ok db2"
    and up: "update_account u (\<lambda>r. ac_kind r = Some (kind_text Silicon) \<and> custodian_before at r) ?f db2 = Ok (b, db3)"
    and rest: "db_accounts db' = db_accounts db3"
    by (auto simp: custodian_changed_def result_simps split: option.splits)
  have "the_account u db2 = Some r"
    using custodian_other_row [OF c assms(2)] ensure_known_row [OF e assms(3)] assms(4) by simp
  with update_account_Ok(1,2) [OF up] assms(4,5) have "the_account u db3 = Some (?f r)" by simp
  with rest show ?thesis by (auto simp: the_account_def)
qed

lemma updated_row:
  assumes "updated u Silicon i n p (Some (v, j)) version at clock db = Ok db'" and "v \<noteq> u"
    and "the_account u db = Some r" and "ac_kind r = Some (kind_text Silicon)" and "ac_deleted_at r = None"
    and "ac_profile_version r < version"
  shows "\<exists>r'. the_account u db' = Some r' \<and> ac_kind r' = ac_kind r \<and>
    ac_custodian_changed_at r' = ac_custodian_changed_at r \<and>
    ac_custodian_uuid r' = (if custodian_not_after at r then Some (account_uuid_str v) else ac_custodian_uuid r)"
proof -
  let ?f = "\<lambda>r. r\<lparr>ac_display_name := map_option shortened_name n, ac_pfp_url := short_url p,
                ac_profile_version := version, ac_updated_at := clock\<rparr>"
  let ?g = "\<lambda>r. r\<lparr>ac_custodian_uuid := map_option (account_uuid_str \<circ> fst) (Some (v, j)), ac_custodian_checked_at := Some clock\<rparr>"
  from assms(1) obtain db1 newer db2 db3 where e: "ensure_account u Silicon clock db = Ok db1"
    and up: "update_account u (\<lambda>r. ac_deleted_at r = None \<and> ac_profile_version r < version) ?f db1 = Ok (newer, db2)"
    and known: "(case i of None \<Rightarrow> Ok db2 | Some _ \<Rightarrow> upsert_known_account u Silicon i at clock db2) = Ok db3"
    and rest: "(if newer \<and> Silicon = Silicon
       then and_then (upsert_custodian (Some (v, j)) at clock db3) (\<lambda>db. map_ok snd (update_account u (custodian_not_after at) ?g db))
       else Ok db3) = Ok db'"
    unfolding updated_def by (auto simp only: and_then_Ok_iff split_paired_all prod.case)
  have 1: "the_account u db1 = Some r" using ensure_known_row [OF e assms(3)] assms(4) by simp
  with update_account_Ok(1,2) [OF up] assms(5,6) have 2: "newer" "the_account u db2 = Some (?f r)" by auto
  have 3: "\<exists>s. the_account u db3 = Some s \<and> ac_kind s = ac_kind r \<and> ac_custodian_changed_at s = ac_custodian_changed_at r \<and>
      ac_custodian_uuid s = ac_custodian_uuid r"
  proof (cases i)
    case (Some x)
    with known obtain s db4 where k: "upsert_account u (known_account u Silicon i at clock)
        (\<lambda>r. forward_public_id i at (or_kind Silicon r)) db2 = Ok (s, db4)" "remember_optional u i clock db4 = Ok db3"
      by (auto simp: upsert_known_account_def result_simps)
    from upsert_account_Ok(1,2) [OF k(1)] 2(2) have "the_account u db4 = Some (forward_public_id i at (or_kind Silicon (?f r)))"
      by simp
    with remember_accounts(2) [OF k(2)] assms(4) show ?thesis
      by (simp add: the_account_def forward_public_id_def or_kind_def split: option.splits)
  qed (use known 2(2) in simp)
  then obtain s where s: "the_account u db3 = Some s" "ac_kind s = ac_kind r"
    "ac_custodian_changed_at s = ac_custodian_changed_at r" "ac_custodian_uuid s = ac_custodian_uuid r" by blast
  from rest 2(1) obtain db4 b where c: "upsert_custodian (Some (v, j)) at clock db3 = Ok db4"
    and up: "update_account u (custodian_not_after at) ?g db4 = Ok (b, db')"
    by (auto simp: result_simps)
  have "the_account u db4 = Some s" using custodian_other_row [OF c assms(2)] s(1) by simp
  with update_account_Ok(1,2) [OF up] s show ?thesis
    by (auto simp: custodian_not_after_def)
qed

text \<open>C38: A change of custodian that arrives late displaces a newer profile. For a Silicon whose custodian
  did not change after \<open>early\<close>, take a profile of version and instant \<open>late\<close> with custodian \<open>new\<close> and
  a change of custodian to \<open>old\<close> at the earlier instant \<open>early\<close>. Delivered in their order the
  Silicon ends with custodian \<open>new\<close>. Delivered the other way round it ends with \<open>old\<close>, although what
  is stored came from the newer event: the instant of a profile is not recorded as the instant of
  its custodian, against the rule that a change of custodian applies only when it is newer than
  what is stored.\<close>

theorem late_custodian_change_displaces_newer_profile:
  assumes "the_account u db = Some r" and "ac_kind r = Some (kind_text Silicon)" and "ac_deleted_at r = None"
    and "ac_profile_version r < version" and "custodian_before early r" and "early < late" and "old \<noteq> u" and "new \<noteq> u"
    and "custodian_changed u before (Some (old, i)) early c1 db = Ok a1"
    and "updated u Silicon k n p (Some (new, j)) version late c2 a1 = Ok a2"
    and "updated u Silicon k n p (Some (new, j)) version late c1 db = Ok b1"
    and "custodian_changed u before (Some (old, i)) early c2 b1 = Ok b2"
  shows "\<exists>r1 r2. the_account u a2 = Some r1 \<and> ac_custodian_uuid r1 = Some (account_uuid_str new) \<and>
    the_account u b2 = Some r2 \<and> ac_custodian_uuid r2 = Some (account_uuid_str old)"
proof -
  from custodian_changed_row [OF assms(9,7,1,2,5)] obtain s where s: "the_account u a1 = Some s"
    "ac_custodian_changed_at s = Some early" "ac_kind s = Some (kind_text Silicon)" "ac_deleted_at s = None"
    "ac_profile_version s < version" using assms(2-4) by auto
  from updated_row [OF assms(10,8) s(1,3-5)] s(2) assms(6) obtain r1 where
    "the_account u a2 = Some r1" "ac_custodian_uuid r1 = Some (account_uuid_str new)"
    by (auto simp: custodian_not_after_def)
  moreover from updated_row [OF assms(11,8,1-4)] assms(2) obtain t where t: "the_account u b1 = Some t"
    "ac_kind t = Some (kind_text Silicon)" "ac_custodian_changed_at t = ac_custodian_changed_at r" by auto
  from t(3) assms(5) have "custodian_before early t" by (simp add: custodian_before_def)
  from custodian_changed_row [OF assms(12,7) t(1,2) this] obtain r2 where
    "the_account u b2 = Some r2" "ac_custodian_uuid r2 = Some (account_uuid_str old)" by auto
  ultimately show ?thesis by blast
qed

definition demo_silicon_db :: db where
  "demo_silicon_db = empty_db\<lparr>db_accounts := [(new_account demo_account 0)\<lparr>ac_kind := Some (kind_text Silicon)\<rparr>]\<rparr>"

theorem late_custodian_change_displaces_newer_profile_witness:
  "\<exists>b1 b2 r. updated demo_account Silicon None None None (Some (AccountUuid (lit ''new''), None)) 3 20 30 demo_silicon_db = Ok b1 \<and>
     custodian_changed demo_account None (Some (AccountUuid (lit ''old''), None)) 10 40 b1 = Ok b2 \<and>
     the_account demo_account b2 = Some r \<and> ac_custodian_uuid r = Some (lit ''old'')"
proof -
  let ?c = "\<lambda>clock db. custodian_changed demo_account None (Some (AccountUuid (lit ''old''), None)) 10 clock db"
  let ?p = "\<lambda>clock db. updated demo_account Silicon None None None (Some (AccountUuid (lit ''new''), None)) 3 20 clock db"
  have ok: "is_ok (?c 30 demo_silicon_db)" "is_ok (and_then (?c 30 demo_silicon_db) (?p 40))"
    "is_ok (?p 30 demo_silicon_db)" "is_ok (and_then (?p 30 demo_silicon_db) (?c 40))"
    by code_simp+
  then obtain a1 a2 b1 b2 where runs: "?c 30 demo_silicon_db = Ok a1" "?p 40 a1 = Ok a2" "?p 30 demo_silicon_db = Ok b1"
    "?c 40 b1 = Ok b2"
    by (cases "?c 30 demo_silicon_db"; cases "?p 30 demo_silicon_db"; auto elim!: is_ok.elims)
  have "the_account demo_account demo_silicon_db = Some ((new_account demo_account 0)\<lparr>ac_kind := Some (kind_text Silicon)\<rparr>)"
    by code_simp
  from late_custodian_change_displaces_newer_profile [OF this _ _ _ _ _ _ _ runs] runs(3,4) show ?thesis
    by (fastforce simp: new_account_def custodian_before_def demo_account_def lit_def)
qed

end
