(* ===== verification/SystemProps.thy ===== *)
theory SystemProps
  imports System StoreDemo
begin

text \<open>
  Properties of runs of the store: a retired endpoint key never routes again, and the events of a
  Silicon's stream are numbered without gaps in the order of their acceptance.
\<close>

section \<open>Retired keys\<close>

definition retired_keys :: "db \<Rightarrow> ustring set" where
  "retired_keys db = set (map rt_endpoint_key (db_retired db))"

interpretation key_registry: monotone_system "\<lambda>s t. \<exists>es. store_step dp tg s es t" keys_ok retired_keys for dp tg
proof
  fix s t
  assume "\<exists>es. store_step dp tg s es t" and ok: "keys_ok s"
  then have "keys_kept s t" using step_keys by blast
  then show "keys_ok t" and "retired_keys s \<le> retired_keys t"
    using ok unfolding keys_kept_def retired_keys_def by blast+
qed

lemma run_steps: "store_run dp tg db es db' \<Longrightarrow> (\<lambda>s t. \<exists>es. store_step dp tg s es t)\<^sup>*\<^sup>* db db'"
  by (induction rule: store_run.induct) (auto intro: rtranclp.rtrancl_into_rtrancl)

lemma resolve_unrouted:
  "\<forall>r \<in> set (db_hooks db). hr_endpoint_key r \<noteq> endpoint_key_str k \<Longrightarrow>
     resolve_endpoint dp segment k clock db = Ok (if retired_matches segment k db then EndpointRetired else EndpointUnknown)"
  by (auto simp: resolve_endpoint_def split: option.splits dest: find_SomeD)

text \<open>C19: A retired endpoint key never routes again. Over any run of the service, starting where no key is
  live twice and no retired key is live, a key that was retired stays retired, no hook has it, and
  resolving it under any path segment answers that it is retired or unknown, never a hook; the audit
  log only grows.\<close>

theorem retired_keys_never_route:
  assumes "store_run dp tg db es db'" and "keys_ok db" and "endpoint_key_str k \<in> retired_keys db"
  shows "keys_ok db' \<and> endpoint_key_str k \<in> retired_keys db' \<and>
    (\<forall>r \<in> set (db_hooks db'). hr_endpoint_key r \<noteq> endpoint_key_str k) \<and>
    (\<forall>segment clock. resolve_endpoint dp segment k clock db' \<in> {Ok EndpointRetired, Ok EndpointUnknown}) \<and>
    (\<exists>new. db_audit db' = new @ db_audit db)"
proof -
  note steps = run_steps [OF assms(1)]
  have ok: "keys_ok db'" by (rule key_registry.steps_good [OF steps assms(2)])
  have mem: "endpoint_key_str k \<in> retired_keys db'"
    using key_registry.steps_level [OF steps assms(2)] assms(3) by blast
  have free: "\<forall>r \<in> set (db_hooks db'). hr_endpoint_key r \<noteq> endpoint_key_str k"
    using ok mem unfolding keys_ok_def retired_keys_def by (metis disjoint_iff image_eqI set_map)
  have "\<exists>new. db_audit db' = new @ db_audit db"
    using assms(1,2)
  proof (induction rule: store_run.induct)
    case (more db es db' fs db'')
    then obtain new where "db_audit db' = new @ db_audit db" by blast
    moreover have "keys_ok db'" by (rule key_registry.steps_good [OF run_steps [OF more.hyps(1)] more.prems])
    then obtain more_rows where "db_audit db'' = more_rows @ db_audit db'"
      using step_keys [OF more.hyps(2)] by (auto simp: keys_kept_def)
    ultimately show ?case by simp
  qed simp
  then show ?thesis using ok mem free by (simp add: resolve_unrouted [OF free])
qed

definition demo_ting :: ting_crates where
  "demo_ting =
     \<lparr>tg_rfc3339 = (\<lambda>_. lit ''1970-01-01T00:00:00Z''), tg_prepared_parse = (\<lambda>_. None), tg_jsonb = (\<lambda>_. None)\<rparr>"

definition demo_retired_db :: db where
  "demo_retired_db = demo_db\<lparr>db_retired :=
     [\<lparr>rt_silicon_id = lit ''8HV'', rt_silicon_uuid = Some (lit ''8HV''), rt_endpoint_key = lit ''Z9Z9Z9Z9'',
       rt_hook_id = 1, rt_retired_at = 5\<rparr>]\<rparr>"

lemma demo_retired_sel: "db_hooks demo_retired_db = [demo_row]" "retired_keys demo_retired_db = {lit ''Z9Z9Z9Z9''}"
    "keys_ok demo_retired_db"
  by (simp_all add: demo_retired_db_def demo_db_def empty_db_def retired_keys_def keys_ok_def key_canonical_def demo_key_ok lit_inject)

theorem retired_keys_never_route_witness:
  "\<exists>db'. store_run demo_deps demo_ting demo_retired_db [] db' \<and>
     resolve_endpoint demo_deps (lit ''8HV'') (EndpointKey (lit ''Z9Z9Z9Z9'')) 9 db' \<in> {Ok EndpointRetired, Ok EndpointUnknown}"
proof -
  obtain b db' where "unsubscribe demo_silicon demo_silicon demo_retired_db = (b, db')" by fastforce
  from store_run.more [OF store_run.start store_step.unsubscribed [OF this], of demo_deps demo_ting]
  have run: "store_run demo_deps demo_ting demo_retired_db [] db'" by simp
  from retired_keys_never_route [OF this demo_retired_sel(3), of "EndpointKey (lit ''Z9Z9Z9Z9'')"] demo_retired_sel(2) run
  show ?thesis by (intro exI [of _ db']) simp
qed

section \<open>Delivery positions\<close>

definition stream_key :: "'u event_record \<Rightarrow> ustring" where
  "stream_key e = silicon_id_str (ev_silicon_id e)"

definition positions :: "ustring \<Rightarrow> 'u event_record list \<Rightarrow> int list" where
  "positions k es = map (sequence_get \<circ> ev_sequence) (filter (\<lambda>e. stream_key e = k) es)"

lemma accepted_stream:
  assumes "accept_event dp tg new_id clock c request db = Ok (e, db')"
  shows "stream_key e = silicon_id_str (hk_silicon_id (av_hook c))"
  using assms
  by (rule accept_eventE) (simp add: stream_key_def event_accept_def Let_def, metis event_record.select_convs(2))

lemma step_positions:
  assumes "store_step dp tg db es db'"
  shows "positions k es = [counter k db + 1..counter k db'] \<and> counter k db \<le> counter k db'"
proof (cases es)
  case Nil
  then have "db_sequences db' = db_sequences db" using assms quiet_step_sequences by simp
  with Nil show ?thesis by (simp add: positions_def counter_def)
next
  case (Cons e fs)
  with assms obtain new_id clock c request where "fs = []"
    and acc: "accept_event dp tg new_id clock c request db = Ok (e, db')"
    by (cases rule: store_step.cases) auto
  with Cons accept_event_streams(1,2) [OF acc] accepted_stream [OF acc] show ?thesis
    by (auto simp: positions_def)
qed

lemma upto_append: "i \<le> j \<Longrightarrow> j \<le> n \<Longrightarrow> [i + 1..j] @ [j + 1..n] = [i + 1..n]" for i j n :: int
  using upto_split2 [of "i + 1" j n] by (cases "i = j") simp_all

text \<open>C5: Deliveries are dense. Over any run of the service, whatever else happens in between and however
  many acceptances fail, the accepted events of one stream carry, in the order of their
  acceptance, exactly the positions that follow the stream's counter, without gap or repetition,
  and the counter ends at the last of them. Retention removes events but never moves the counter,
  so a position is never given twice.\<close>

theorem deliveries_are_dense:
  assumes "store_run dp tg db es db'"
  shows "positions k es = [counter k db + 1..counter k db'] \<and> counter k db \<le> counter k db'"
  using assms
proof (induction rule: store_run.induct)
  case (more db es db' fs db'')
  with step_positions [OF more.hyps(2), of k] show ?case
    using upto_append [of "counter k db" "counter k db'" "counter k db''"] by (simp add: positions_def)
qed (simp add: positions_def)

definition demo_accept :: accept_event_command where
  "demo_accept = \<lparr>av_delivery = None, av_event = EventId 42, av_hook = stored_hook\<rparr>"

lemma demo_touched: "update_hooks (serving_row 1) (touch_received 0) demo_db = Ok (1, demo_db\<lparr>db_hooks := [touch_received 0 demo_row]\<rparr>)"
  by (simp add: update_hooks_Ok rows_affected_def rows_update_def demo_db_def serving_row_def hook_check_def touch_received_def greatest_def)

lemma demo_capture_fits: "capture_check ''events'' (bind_capture demo_crates (demo_request [])) = None"
proof -
  have "list_all is_token_byte (utf8 (lit ''POST''))"
    by (simp add: lit_def utf8_def utf8_char_def is_token_byte_def char_class_defs)
  moreover have "content_type (demo_request []) = None" "query_string demo_crates (demo_request []) = []"
    by (simp_all add: content_type_def query_string_def demo_request_def header_def demo_crates_def lit_def to_ascii_lowercase_def to_ascii_lower_def is_ascii_uppercase_def)
  ultimately show ?thesis
    by (simp add: capture_check_def bind_capture_def) (simp add: demo_request_def demo_crates_def lit_def scalar_def)
qed

lemma demo_accepted:
  "\<exists>e db'. accept_event demo_deps demo_ting (\<lambda>_. 1) 30 demo_accept (demo_request []) demo_db = Ok (e, db')"
proof -
  have "cap_received_at (demo_request []) = 0" by (simp add: demo_request_def)
  moreover have "next_sequence (lit ''8HV'') (demo_db\<lparr>db_hooks := [touch_received 0 demo_row]\<rparr>) =
      Ok (1, demo_db\<lparr>db_hooks := [touch_received 0 demo_row], db_sequences := [(lit ''8HV'', 1)]\<rparr>)"
    by (simp add: next_sequence_def demo_db_def empty_db_def)
  moreover have "dp_crates demo_deps = demo_crates" by (simp add: demo_deps_def)
  ultimately show ?thesis
    using demo_touched demo_capture_fits
    by (simp add: accept_event_def demo_accept_def Let_def delivery_sequence_new_def event_accept_def insert_event_def
        event_row_of_def touch_received_def demo_db_def empty_db_def)
qed
theorem deliveries_are_dense_witness:
  "\<exists>e db'. store_run demo_deps demo_ting demo_db [e] db' \<and> positions (lit ''8HV'') [e] = [1] \<and> counter (lit ''8HV'') db' = 1"
proof -
  obtain e db' where acc: "accept_event demo_deps demo_ting (\<lambda>_. 1) 30 demo_accept (demo_request []) demo_db = Ok (e, db')"
    using demo_accepted by blast
  from store_run.more [OF store_run.start store_step.accepted [OF acc]]
  have run: "store_run demo_deps demo_ting demo_db [e] db'" by simp
  have "counter (lit ''8HV'') demo_db = 0" by (simp add: counter_def demo_db_def empty_db_def)
  moreover have "stream_key e = lit ''8HV''"
    using accepted_stream [OF acc] by (simp add: demo_accept_def)
  moreover have "length (positions (lit ''8HV'') [e]) = 1" using calculation by (simp add: positions_def)
  ultimately have "positions (lit ''8HV'') [e] = [1..counter (lit ''8HV'') db']" "length [1..counter (lit ''8HV'') db'] = 1"
    using deliveries_are_dense [OF run, of "lit ''8HV''"] by auto
  moreover from this(2) have "counter (lit ''8HV'') db' = 1" by simp
  ultimately show ?thesis using run by (intro exI [of _ e] exI [of _ db']) simp
qed

end
