(* ===== verification/OutboxProps.thy ===== *)
theory OutboxProps
  imports Outbox
begin

text \<open>
  Properties of the outbox: a lease excludes other publishers until it runs out, only its holder
  records a result, and nothing a publisher does changes what is sent or undoes an acceptance.
\<close>

section \<open>Leases\<close>

lemma seconds_pos: "seconds 1 \<le> int d \<Longrightarrow> 0 < seconds (int d div seconds 1)"
  by (simp add: seconds_def pos_imp_zdiv_pos_iff)

lemma due_sendsD: "r \<in> set (due_sends limit clock db) \<Longrightarrow> r \<in> set (db_outbox db) \<and> due_send clock r"
  by (auto simp: due_sends_def dest: in_set_takeD)

lemma claim_ting_Ok:
  assumes "claim_ting new_lease limit d clock db = Ok (cs, db')"
  shows "cs = map (\<lambda>r. claim_of_row (lease_row new_lease (int d div seconds 1) clock r)) (due_sends limit clock db)"
    and "db_outbox db' = rows_update (\<lambda>r. ox_id r \<in> ox_id ` set (due_sends limit clock db))
           (lease_row new_lease (int d div seconds 1) clock) (db_outbox db)"
    and "0 < seconds (int d div seconds 1)" and "1 \<le> limit" and "limit \<le> 100"
  using assms by (auto simp: claim_ting_def Let_def seconds_pos split: if_splits)

lemma leased_not_due:
  assumes "0 < s" and "clock' < min (ox_expires_at r) (clock + s)"
    and "s = seconds lease_seconds"
  shows "\<not> due_send clock' (lease_row new_lease lease_seconds clock r)"
  using assms by (auto simp: due_send_def lease_row_def min_le_iff_disj)

text \<open>C15: A lease excludes other publishers. A claim leases between one and a hundred sends, each due: not
  accepted, not expired, past its next attempt and not under a lease. It carries exactly the stored
  bytes, and its lease ends after the clock and no later than the send expires. Until then no other
  claim gives the same send out, whatever its limit and duration.\<close>

theorem a_lease_excludes_other_publishers:
  assumes "distinct (map ox_id (db_outbox db))" and "claim_ting new_lease limit d clock db = Ok (cs, db')"
  shows "length cs \<le> 100 \<and> distinct (map tc_id cs) \<and>
    (\<forall>c \<in> set cs. (\<exists>r \<in> set (db_outbox db). due_send clock r \<and> ox_id r = tc_id c \<and> ox_request_body r = tc_request_body c \<and>
        ox_idempotency_key r = tc_idempotency_key c \<and> tc_attempts c = ox_attempts r + 1) \<and>
      clock < tc_lease_until c \<and> tc_lease_until c \<le> tc_expires_at c) \<and>
    (\<forall>other limit' d' clock' cs' db'' c c'. claim_ting other limit' d' clock' db' = Ok (cs', db'') \<and>
       c \<in> set cs \<and> c' \<in> set cs' \<and> tc_id c = tc_id c' \<longrightarrow> tc_lease_until c \<le> clock')"
proof (intro conjI ballI allI impI)
  let ?s = "int d div seconds 1"
  let ?lease = "lease_row new_lease ?s clock"
  note ok = claim_ting_Ok [OF assms(2)]
  have id: "ox_id (?lease r) = ox_id r" for r by (simp add: lease_row_def)
  have "distinct (map ox_id (due_sends limit clock db))"
  proof -
    have "distinct (map ox_id (filter (due_send clock) (db_outbox db)))" by (rule distinct_map_filter [OF assms(1)])
    then show ?thesis
      unfolding due_sends_def take_map [symmetric] by (intro distinct_take) (simp add: distinct_map)
  qed
  then show "distinct (map tc_id cs)" by (simp add: ok(1) claim_of_row_def comp_def id)
  show "length cs \<le> 100" using ok(5) by (simp add: ok(1) due_sends_def)
  fix c
  assume "c \<in> set cs"
  then obtain r where r: "r \<in> set (due_sends limit clock db)" "c = claim_of_row (?lease r)" by (auto simp: ok(1))
  note due = due_sendsD [OF r(1)]
  then show "\<exists>r \<in> set (db_outbox db). due_send clock r \<and> ox_id r = tc_id c \<and> ox_request_body r = tc_request_body c \<and>
      ox_idempotency_key r = tc_idempotency_key c \<and> tc_attempts c = ox_attempts r + 1"
    by (intro bexI [of _ r]) (simp_all add: r(2) claim_of_row_def lease_row_def)
  show "clock < tc_lease_until c" "tc_lease_until c \<le> tc_expires_at c"
    using due ok(3) by (simp_all add: r(2) claim_of_row_def lease_row_def due_send_def)
next
  let ?s = "int d div seconds 1"
  let ?lease = "lease_row new_lease ?s clock"
  note ok = claim_ting_Ok [OF assms(2)]
  fix other limit' d' clock' cs' db'' c c'
  assume a: "claim_ting other limit' d' clock' db' = Ok (cs', db'') \<and> c \<in> set cs \<and> c' \<in> set cs' \<and> tc_id c = tc_id c'"
  then obtain r where r: "r \<in> set (due_sends limit clock db)" "c = claim_of_row (?lease r)" by (auto simp: ok(1))
  from a claim_ting_Ok(1) [of other limit' d' clock' db' cs' db''] obtain q where
    q: "q \<in> set (due_sends limit' clock' db')" "tc_id c' = ox_id q"
    by (auto simp: claim_of_row_def lease_row_def)
  have same: "ox_id q = ox_id r" using a q(2) by (simp add: r(2) claim_of_row_def lease_row_def)
  from due_sendsD [OF q(1)] obtain p where p: "p \<in> set (db_outbox db)"
    "q = (if ox_id p \<in> ox_id ` set (due_sends limit clock db) then ?lease p else p)" and due: "due_send clock' q"
    by (auto simp: ok(2) set_rows_update)
  have "ox_id p = ox_id r" using same p(2) by (auto simp: lease_row_def split: if_splits)
  then have "p = r" using same_key [OF assms(1) p(1)] due_sendsD [OF r(1)] by blast
  then have "q = ?lease r" using p(2) r(1) by simp
  with due leased_not_due [OF ok(3), of clock' r clock ?s new_lease] show "tc_lease_until c \<le> clock'"
    by (fastforce simp: r(2) claim_of_row_def lease_row_def)
qed

section \<open>Results\<close>

inductive publisher_step :: "db \<Rightarrow> db \<Rightarrow> bool" where
  claim: "claim_ting new_lease limit d clock db = Ok (cs, db') \<Longrightarrow> publisher_step db db'"
| complete: "complete_ting c ting_id silent clock db = Ok (b, db') \<Longrightarrow> publisher_step db db'"
| retry: "retry_ting c failure at clock db = Ok (b, db') \<Longrightarrow> publisher_step db db'"

text \<open>What a send keeps: its place, its content, and its acceptance.\<close>

definition send_evolves :: "outbox_row \<Rightarrow> outbox_row \<Rightarrow> bool" where
  "send_evolves r r' \<longleftrightarrow>
     ox_id r' = ox_id r \<and> ox_event_id r' = ox_event_id r \<and> ox_recipient_id r' = ox_recipient_id r \<and>
     ox_idempotency_key r' = ox_idempotency_key r \<and> ox_request_body r' = ox_request_body r \<and>
     ox_expires_at r' = ox_expires_at r \<and> ox_observer_subscription_id r' = ox_observer_subscription_id r \<and>
     ox_attempts r \<le> ox_attempts r' \<and> (ox_accepted_at r \<noteq> None \<longrightarrow> r' = r)"

lemma send_evolves_refl [simp]: "send_evolves r r"
  by (simp add: send_evolves_def)

lemma send_evolves_trans: "send_evolves r s \<Longrightarrow> send_evolves s t \<Longrightarrow> send_evolves r t"
  by (auto simp: send_evolves_def)

definition sends_evolve :: "db \<Rightarrow> db \<Rightarrow> bool" where
  "sends_evolve db db' \<longleftrightarrow> list_all2 send_evolves (db_outbox db) (db_outbox db')"

lemma rows_update_evolve:
  "(\<And>r. r \<in> set rows \<Longrightarrow> P r \<Longrightarrow> send_evolves r (f r)) \<Longrightarrow> list_all2 send_evolves rows (rows_update P f rows)"
  by (induction rows) (auto simp: rows_update_def)

lemma publisher_sends:
  assumes "distinct (map ox_id (db_outbox db))" and "publisher_step db db'"
  shows "sends_evolve db db'"
  using assms(2)
proof (cases rule: publisher_step.cases)
  case (claim new_lease limit d clock cs)
  have "send_evolves r (lease_row new_lease (int d div seconds 1) clock r)"
    if "r \<in> set (db_outbox db)" "ox_id r \<in> ox_id ` set (due_sends limit clock db)" for r
  proof -
    from that(2) obtain q where q: "q \<in> set (due_sends limit clock db)" "ox_id r = ox_id q" by blast
    have "r = q" using same_key [OF assms(1) that(1)] due_sendsD [OF q(1)] q(2) by blast
    then have "ox_accepted_at r = None" using due_sendsD [OF q(1)] by (simp add: due_send_def)
    then show ?thesis by (simp add: send_evolves_def lease_row_def)
  qed
  then show ?thesis
    unfolding sends_evolve_def claim_ting_Ok(2) [OF claim] by (rule rows_update_evolve)
next
  case (complete c ting_id silent clock b)
  then show ?thesis
    by (auto simp: complete_ting_def sends_evolve_def send_evolves_def current_lease_def accept_row_def
        intro!: rows_update_evolve split: if_splits)
next
  case (retry c failure at clock b)
  then show ?thesis
    by (auto simp: retry_ting_def sends_evolve_def send_evolves_def current_lease_def retry_row_def
        intro!: rows_update_evolve split: if_splits)
qed

lemma evolve_ids: "sends_evolve db db' \<Longrightarrow> map ox_id (db_outbox db') = map ox_id (db_outbox db)"
  unfolding sends_evolve_def by (induction rule: list_all2_induct) (auto simp: send_evolves_def)

lemma sends_evolve_refl [simp]: "sends_evolve db db"
  by (simp add: sends_evolve_def list_all2_same)

lemma sends_evolve_trans: "sends_evolve a b \<Longrightarrow> sends_evolve b c \<Longrightarrow> sends_evolve a c"
  unfolding sends_evolve_def using list_all2_trans [of send_evolves send_evolves send_evolves] send_evolves_trans by blast

interpretation publishing: transition_system publisher_step
    "\<lambda>db. distinct (map ox_id (db_outbox db)) \<and> sends_evolve start db" for start
proof
  fix s t
  assume step: "publisher_step s t" and "distinct (map ox_id (db_outbox s)) \<and> sends_evolve start s"
  then have "distinct (map ox_id (db_outbox s))" and start: "sends_evolve start s" by simp_all
  with publisher_sends [OF _ step] have "sends_evolve s t" by blast
  then show "distinct (map ox_id (db_outbox t)) \<and> sends_evolve start t"
    using start \<open>distinct (map ox_id (db_outbox s))\<close> evolve_ids [of s t] sends_evolve_trans [of start s t] by simp
qed

text \<open>C16: Publishing never changes what is sent and never undoes an acceptance. Over any sequence of claims,
  confirmations and retries, by any publishers with any clocks, the outbox keeps the same sends in
  place with the same event, recipient, key, bytes and expiry, attempts only grow, and a send that
  was accepted is not touched again. A result is recorded only for the lease it was claimed under:
  for a claim whose lease was replaced, ran out or was settled, confirming and retrying report
  failure and change nothing.\<close>

theorem publishing_keeps_every_send:
  assumes "distinct (map ox_id (db_outbox db))" and "publisher_step\<^sup>*\<^sup>* db db'"
  shows "list_all2 send_evolves (db_outbox db) (db_outbox db') \<and>
    (\<forall>c ting_id silent failure at clock. \<not> ting_claim_is_current c clock db' \<and> valid_identifier ting_id 255 \<longrightarrow>
       complete_ting c ting_id silent clock db' = Ok (False, db') \<and> retry_ting c failure at clock db' = Ok (False, db'))"
proof (intro conjI allI impI)
  show "list_all2 send_evolves (db_outbox db) (db_outbox db')"
    using publishing.steps_good [OF assms(2), of db] assms(1) by (simp add: sends_evolve_def list_all2_same)
next
  fix c ting_id silent failure at clock
  assume a: "\<not> ting_claim_is_current c clock db' \<and> valid_identifier ting_id 255"
  then have none: "\<forall>r \<in> set (db_outbox db'). \<not> current_lease c clock r"
    by (simp add: ting_claim_is_current_def list_ex_iff)
  then have "rows_affected (current_lease c clock) (db_outbox db') = 0" by (simp add: rows_affected_pos)
  moreover have "rows_update (current_lease c clock) f (db_outbox db') = db_outbox db'" for f
    using none by (intro rows_update_id) blast
  ultimately show "complete_ting c ting_id silent clock db' = Ok (False, db')" "retry_ting c failure at clock db' = Ok (False, db')"
    using a by (simp_all add: complete_ting_def retry_ting_def)
qed

section \<open>A send\<close>

definition demo_send :: outbox_row where
  "demo_send =
     \<lparr>ox_id = 5, ox_event_id = 7, ox_silicon_id = lit ''8HV'', ox_recipient_id = lit ''8HV'',
      ox_idempotency_key = lit ''k'', ox_request_body = [123, 125], ox_attempts = 0, ox_created_at = 10,
      ox_next_attempt_at = 10, ox_last_attempt_at = None, ox_last_error_code = None, ox_lease_id = None,
      ox_lease_until = None, ox_accepted_at = None, ox_ting_id = None, ox_silent = None,
      ox_expires_at = 60000000000, ox_observer_subscription_id = None\<rparr>"

definition demo_outbox :: db where
  "demo_outbox = empty_db\<lparr>db_outbox := [demo_send]\<rparr>"

lemma demo_claimed:
  "claim_ting (\<lambda>_. 9) 1 2000000000 20 demo_outbox = Ok ([claim_of_row (lease_row (\<lambda>_. 9) 2 20 demo_send)],
     demo_outbox\<lparr>db_outbox := [lease_row (\<lambda>_. 9) 2 20 demo_send]\<rparr>)"
  by (simp add: claim_ting_def seconds_def Let_def due_sends_def due_send_def rows_update_def demo_outbox_def demo_send_def)

theorem a_lease_excludes_other_publishers_witness:
  "\<exists>c db'. claim_ting (\<lambda>_. 9) 1 2000000000 20 demo_outbox = Ok ([c], db') \<and> 20 < tc_lease_until c \<and>
     tc_request_body c = [123, 125]"
proof -
  have "distinct (map ox_id (db_outbox demo_outbox))" by (simp add: demo_outbox_def)
  from a_lease_excludes_other_publishers [OF this demo_claimed] demo_claimed show ?thesis
    by (auto simp: demo_outbox_def demo_send_def)
qed

theorem publishing_keeps_every_send_witness:
  "\<exists>db'. publisher_step\<^sup>*\<^sup>* demo_outbox db' \<and> list_all2 send_evolves [demo_send] (db_outbox db')"
proof -
  have "distinct (map ox_id (db_outbox demo_outbox))" "db_outbox demo_outbox = [demo_send]" by (simp_all add: demo_outbox_def)
  with publishing_keeps_every_send [of demo_outbox, OF _ r_into_rtranclp, OF _ publisher_step.claim [OF demo_claimed]]
    r_into_rtranclp [of publisher_step, OF publisher_step.claim [OF demo_claimed]]
  show ?thesis by metis
qed

end
