(* ===== verification/Application.thy ===== *)
theory Application
  imports Accounts
begin

text \<open>
  The application layer's own vocabulary (\<open>application/error.rs\<close>, \<open>service.rs\<close>, \<open>commands.rs\<close>): its
  errors, how a persistence error becomes one, an operation as a function on the tables, the
  settings of the composed application, and the helpers every use case shares. A use case runs
  several transactions; one that fails leaves what the earlier ones committed, so an operation
  returns its result and the tables in every case. One reading of the clock stands for the readings
  of an operation. A refusal keeps its status and code; its message, prose for the caller, is
  dropped.
\<close>

section \<open>Errors\<close>

text \<open>What an internal failure wraps (an \<open>anyhow::Error\<close> in the source).\<close>

datatype fault =
    StoreFault store_error
  | SqlxFault sqlx_error
  | CipherFault secret_cipher_error
  | CursorFault cursor_error
  | EntropyFault
  | DomainFault domain_error
  | ParseFault parse_error
  | JsonFault
  | FaultText string

datatype application_error =
    Validation string
  | ValidationDetailed string ustring
  | OperationForbidden
  | ResourceNotFound
  | RecoveryExpired
  | RetiredEndpoint
  | IpBlocked instant
  | IdempotencyKeyConflict
  | ResourceConflict
  | SecretUnavailable
  | RetainedHookLimitReached
  | PayloadTooLarge
  | Unavailable fault
  | Internal fault
  | Refused nat string

text \<open>PostgreSQL's classes 08 and 53, and the cancellations of class 57, pass with time.\<close>

definition database_is_unavailable :: "sqlx_error \<Rightarrow> bool" where
  "database_is_unavailable e =
     (case e of
        SqlxIo \<Rightarrow> True
      | SqlxTls \<Rightarrow> True
      | SqlxPoolTimedOut \<Rightarrow> True
      | SqlxPoolClosed \<Rightarrow> True
      | SqlxWorkerCrashed \<Rightarrow> True
      | SqlxDatabase (Some code) _ \<Rightarrow>
          take 2 code = ''08'' \<or> take 2 code = ''53'' \<or> code \<in> {''57014'', ''57P01'', ''57P02'', ''57P03''}
      | _ \<Rightarrow> False)"

definition map_store_error :: "store_error \<Rightarrow> application_error" where
  "map_store_error e =
     (case e of
        NotFound _ \<Rightarrow> ResourceNotFound
      | StateConflict _ \<Rightarrow> ResourceConflict
      | DefaultHookExists \<Rightarrow> ResourceConflict
      | IdempotencyConflict \<Rightarrow> IdempotencyKeyConflict
      | SecretReplayExpired \<Rightarrow> SecretUnavailable
      | SecretSuperseded \<Rightarrow> SecretUnavailable
      | HookLimitReached \<Rightarrow> RetainedHookLimitReached
      | InvalidArgument field _ \<Rightarrow> Validation field
      | Database source \<Rightarrow>
          if database_is_unavailable source then Unavailable (SqlxFault source) else Internal (SqlxFault source)
      | _ \<Rightarrow> Internal (StoreFault e))"

section \<open>Operations\<close>

type_synonym ('s, 'a) served = "'s \<Rightarrow> ('a, application_error) result \<times> 's"

type_synonym 'a app = "(db, 'a) served"

definition give :: "('a, application_error) result \<Rightarrow> ('s, 'a) served" where
  "give r s = (r, s)"

definition app_bind :: "('s, 'a) served \<Rightarrow> ('a \<Rightarrow> ('s, 'b) served) \<Rightarrow> ('s, 'b) served" where
  "app_bind m f s = (case m s of (Ok a, s) \<Rightarrow> f a s | (Err e, s) \<Rightarrow> (Err e, s))"

text \<open>
  A query, a transaction, and a transaction whose result is read after its commit, each with
  \<open>map_err(map_store_error)\<close>; \<open>attempt\<close> is a transaction whose error the caller looks at.
\<close>

definition query :: "(db \<Rightarrow> ('a, store_error) result) \<Rightarrow> 'a app" where
  "query q db = (map_err map_store_error (q db), db)"

definition attempt :: "(db \<Rightarrow> ('a \<times> db, store_error) result) \<Rightarrow> ('a, store_error) result app" where
  "attempt t db = (case t db of Ok (a, db) \<Rightarrow> (Ok (Ok a), db) | Err e \<Rightarrow> (Ok (Err e), db))"

definition transact :: "(db \<Rightarrow> ('a \<times> db, store_error) result) \<Rightarrow> 'a app" where
  "transact t db = (case t db of Ok (a, db) \<Rightarrow> (Ok a, db) | Err e \<Rightarrow> (Err (map_store_error e), db))"

definition committed :: "(db \<Rightarrow> ('a, store_error) result \<times> db) \<Rightarrow> 'a app" where
  "committed t db = (case t db of (r, db) \<Rightarrow> (map_err map_store_error r, db))"

lemma give_simps [simp]: "give r db = (r, db)"
  by (simp add: give_def)

lemma app_bind_give [simp]:
  "app_bind (give (Ok a)) f = f a" "app_bind (give (Err e)) f = give (Err e)"
  by (simp_all add: app_bind_def fun_eq_iff)

lemma app_bind_assoc: "app_bind (app_bind m f) g = app_bind m (\<lambda>a. app_bind (f a) g)"
  by (simp add: app_bind_def fun_eq_iff split: prod.split result.split)

lemma app_bind_Ok:
  "app_bind m f db = (Ok b, db'') \<longleftrightarrow> (\<exists>a db'. m db = (Ok a, db') \<and> f a db' = (Ok b, db''))"
  by (simp add: app_bind_def split: prod.split result.split)

lemma app_bind_Err:
  "app_bind m f db = (Err e, db'') \<longleftrightarrow>
     m db = (Err e, db'') \<or> (\<exists>a db'. m db = (Ok a, db') \<and> f a db' = (Err e, db''))"
  by (auto simp: app_bind_def split: prod.splits result.splits)

lemma app_bindE:
  assumes "app_bind m f db = (r, db'')"
  obtains (failed) e where "m db = (Err e, db'')" and "r = Err e"
  | (continued) a db' where "m db = (Ok a, db')" and "f a db' = (r, db'')"
  using assms by (auto simp: app_bind_def split: prod.splits result.splits)

lemma query_Ok: "query q db = (Ok a, db') \<longleftrightarrow> q db = Ok a \<and> db' = db"
  by (auto simp: query_def result_simps)

lemma transact_Ok: "transact t db = (Ok a, db') \<longleftrightarrow> t db = Ok (a, db')"
  by (simp add: transact_def split: result.split prod.split)

lemma attempt_Ok: "attempt t db = (Ok r, db') \<longleftrightarrow>
    (\<exists>a. r = Ok a \<and> t db = Ok (a, db')) \<or> (\<exists>e. r = Err e \<and> t db = Err e \<and> db' = db)"
  by (auto simp: attempt_def split: result.split prod.split)

text \<open>What an operation does to the tables: nothing, or something a relation allows.\<close>

definition app_within :: "('s \<Rightarrow> 's \<Rightarrow> bool) \<Rightarrow> ('s, 'a) served \<Rightarrow> bool" where
  "app_within R m \<longleftrightarrow> (\<forall>db. R db (snd (m db)))"

definition reads_only :: "('s, 'a) served \<Rightarrow> bool" where
  "reads_only m \<longleftrightarrow> (\<forall>db. snd (m db) = db)"

named_theorems reading \<open>operations that leave the tables as they are\<close>

lemma reads_onlyD: "reads_only m \<Longrightarrow> m db = (r, db') \<Longrightarrow> db' = db"
  by (metis reads_only_def snd_conv)

lemma reads_only_give [reading]: "reads_only (give r)"
  by (simp add: reads_only_def)

lemma reads_only_query [reading]: "reads_only (query q)"
  by (simp add: reads_only_def query_def)

lemma reads_only_bind [reading]:
  assumes "reads_only m" and "\<And>a. reads_only (f a)"
  shows "reads_only (app_bind m f)"
  unfolding reads_only_def
proof
  fix db
  have "snd (m db) = db" using assms(1) by (simp add: reads_only_def)
  then show "snd (app_bind m f db) = db"
    using assms(2) by (auto simp: app_bind_def reads_only_def split: prod.split result.split)
qed

lemma within_give: "reflp R \<Longrightarrow> app_within R (give r)"
  by (simp add: app_within_def reflp_def)

lemma within_reading: "reflp R \<Longrightarrow> reads_only m \<Longrightarrow> app_within R m"
  by (simp add: app_within_def reads_only_def reflp_def)

lemma within_bind:
  assumes "reflp R" and "transp R" and "app_within R m" and "\<And>a. app_within R (f a)"
  shows "app_within R (app_bind m f)"
  unfolding app_within_def
proof
  fix db
  obtain r db' where m: "m db = (r, db')" by fastforce
  then have first: "R db db'" using assms(3) by (metis app_within_def snd_conv)
  show "R db (snd (app_bind m f db))"
  proof (cases r)
    case (Ok a)
    have "R db' (snd (f a db'))" using assms(4) [of a] by (simp add: app_within_def)
    with Ok m first show ?thesis using transpD [OF assms(2)] by (simp add: app_bind_def)
  qed (use m first in \<open>simp add: app_bind_def\<close>)
qed

lemma within_transact:
  assumes "reflp R" and "\<And>db a db'. t db = Ok (a, db') \<Longrightarrow> R db db'"
  shows "app_within R (transact t)"
  using assms by (auto simp: app_within_def transact_def reflp_def split: result.splits)

lemma within_attempt:
  assumes "reflp R" and "\<And>db a db'. t db = Ok (a, db') \<Longrightarrow> R db db'"
  shows "app_within R (attempt t)"
  using assms by (auto simp: app_within_def attempt_def reflp_def split: result.splits)

lemma within_committed: "(\<And>db. R db (snd (t db))) \<Longrightarrow> app_within R (committed t)"
  by (simp add: app_within_def committed_def split: prod.split) (metis snd_conv)

section \<open>Texts of errors that are recorded or shown\<close>

fun domain_error_text :: "domain_error \<Rightarrow> ustring" where
  "domain_error_text (EmptyField field) = lit field @ lit '' must not be empty''"
| "domain_error_text (TooLong field max_len) =
     lit field @ lit '' must be at most '' @ show_nat max_len @ lit '' characters''"
| "domain_error_text (InvalidFormat field reason) = lit field @ lit '' has an invalid format: '' @ lit reason"
| "domain_error_text (OutOfRange field low high) =
     lit field @ lit '' must be between '' @ show_nat low @ lit '' and '' @ show_nat high"

fun secret_cipher_error_text :: "secret_cipher_error \<Rightarrow> ustring" where
  "secret_cipher_error_text UnknownKey = lit ''encrypted secret references an unavailable key''"
| "secret_cipher_error_text Randomness = lit ''operating-system randomness unavailable''"
| "secret_cipher_error_text EncryptionFailed = lit ''signing-secret encryption failed''"
| "secret_cipher_error_text AuthenticationFailed = lit ''signing-secret authentication failed''"
| "secret_cipher_error_text (InvalidRepresentation e) =
     lit ''invalid encrypted-secret representation: '' @ domain_error_text e"

fun secret_encoding_debug :: "secret_encoding \<Rightarrow> string" where
  "secret_encoding_debug SecUtf8 = ''Utf8''"
| "secret_encoding_debug SecAscii = ''Ascii''"
| "secret_encoding_debug SecHex = ''Hex''"
| "secret_encoding_debug SecBase64 = ''Base64''"
| "secret_encoding_debug SecBase64Url = ''Base64Url''"
| "secret_encoding_debug SecRaw = ''Raw''"

definition secret_decode_error_text :: "secret_encoding \<Rightarrow> ustring" where
  "secret_decode_error_text enc = lit ''secret is not valid '' @ lit (secret_encoding_debug enc)"

fun public_key_error_text :: "public_key_error \<Rightarrow> ustring" where
  "public_key_error_text KeyMissing = lit ''a public key is required for this signature algorithm''"
| "public_key_error_text KeyNotApplicable =
     lit ''a public key cannot be used with a symmetric signature algorithm''"
| "public_key_error_text KeyTooLarge =
     lit ''public key material exceeds '' @ show_nat max_public_key_bytes @ lit '' bytes''"
| "public_key_error_text KeyMalformed = lit ''public key material is malformed for the signature algorithm''"
| "public_key_error_text WeakRsaKey =
     lit ''RSA public keys must have at least '' @ show_nat min_rsa_modulus_bits @ lit ''-bit moduli''"
| "public_key_error_text KeyEncoding = lit ''public key cannot be encoded as SubjectPublicKeyInfo''"

definition config_error_text :: "public_key_error \<Rightarrow> ustring" where
  "config_error_text e = lit ''public key: '' @ public_key_error_text e"

fun material_error_text :: "material_error \<Rightarrow> ustring" where
  "material_error_text (MaterialSecret enc) = secret_decode_error_text enc"
| "material_error_text (MaterialPublicKey e) = public_key_error_text e"

section \<open>The composed application\<close>

text \<open>
  The parts of \<open>url\<close> that build URLs: \<open>path_segments_mut\<close> with \<open>clear\<close> and \<open>push\<close> (absent for a
  URL that cannot be a base), \<open>set_query\<close>, and \<open>set_path\<close>.
\<close>

record 'u url_builder =
  ub_with_segments :: "ustring list \<Rightarrow> 'u \<Rightarrow> 'u option"
  ub_set_query :: "ustring option \<Rightarrow> 'u \<Rightarrow> 'u"
  ub_set_path :: "ustring \<Rightarrow> 'u \<Rightarrow> 'u"

text \<open>
  What is digested of a request to create or connect a hook, and its canonical bytes
  (\<open>serde_json::to_vec\<close> on the derived serialization).
\<close>

record canonical_create_hook_request =
  cn_name :: ustring
  cn_description :: "ustring option"
  cn_time_zone :: ustring
  cn_signature_required :: bool
  cn_signature :: signature_config
  cn_secret_digest :: "ustring option"

record canonical_crate =
  cs_create_vec :: "canonical_create_hook_request \<Rightarrow> bytes option"
  cs_connect_vec :: "ustring \<Rightarrow> bytes option"

record ('u, 'k, 'z) hook_application =
  ap_deps :: "('u, 'k, 'z) deps"
  ap_urls :: "'u url_builder"
  ap_canonical :: canonical_crate
  ap_keyring :: secret_keyring
  ap_cursor_key :: secret_key
  ap_public_base_url :: 'u
  ap_app_id :: ustring
  ap_ting :: bool
  ap_ting_crates :: ting_crates

definition ap_crates :: "('u, 'k, 'z) hook_application \<Rightarrow> 'u crates" where
  "ap_crates ap = dp_crates (ap_deps ap)"

definition endpoint_url ::
  "('u, 'k, 'z) hook_application \<Rightarrow> ustring \<Rightarrow> endpoint_key \<Rightarrow> ('u, application_error) result" where
  "endpoint_url ap silicon_segment key =
     ok_or (Internal (FaultText ''public Hook URL cannot contain path segments''))
       (ub_with_segments (ap_urls ap) [lit ''silicon'', silicon_segment, endpoint_key_str key]
         (cr_url_no_fragment (ap_crates ap) (ub_set_query (ap_urls ap) None (ap_public_base_url ap))))"

definition authorize_action :: "authorization_context \<Rightarrow> action \<Rightarrow> (unit, application_error) result" where
  "authorize_action c a =
     (case authorize c a of
        Allowed \<Rightarrow> Ok ()
      | Forbidden reason \<Rightarrow> Err (Refused 403 ''forbidden''))"

definition actor_reference :: "authorization_context \<Rightarrow> actor_ref" where
  "actor_reference c = actor_ref_account (actor_kind_of (ac_actor c)) (actor_uuid (ac_actor c))"

definition management_audit :: "authorization_context \<Rightarrow> ustring option \<Rightarrow> audit_context" where
  "management_audit c request_id = \<lparr>at_actor = actor_reference c, at_request_id = request_id\<rparr>"

definition management_scope ::
  "string \<Rightarrow> authorization_context \<Rightarrow> ustring \<Rightarrow> ustring \<Rightarrow> bytes \<Rightarrow> idempotency_scope" where
  "management_scope operation c target_id key request_digest =
     \<lparr>is_operation = lit operation, is_actor = actor_reference c, is_target_id = target_id,
      is_key = key, is_request_digest = request_digest\<rparr>"

definition secret_replay_until :: "time_crate \<Rightarrow> instant \<Rightarrow> (instant, application_error) result" where
  "secret_replay_until tc now =
     ok_or (Internal (FaultText ''secret replay deadline overflow'')) (tc_checked_add tc now secret_replay_window)"

text \<open>Whole microseconds; \<open>replace_nanosecond\<close> accepts the smaller nanosecond.\<close>

definition database_time :: "instant \<Rightarrow> instant" where
  "database_time at = at - at mod 1000"

lemma database_time_idem [simp]: "database_time (database_time at) = database_time at"
  by (simp add: database_time_def minus_mod_eq_mult_div)

lemma authorize_action_Ok: "authorize_action c a = Ok u \<longleftrightarrow> authorize c a = Allowed"
  by (simp add: authorize_action_def split: authorization_decision.split)

section \<open>Inputs and outputs\<close>

record management_context =
  mc_authorization :: authorization_context
  mc_idempotency_key :: ustring
  mc_request_id :: "ustring option"

record signing_input =
  si_required :: bool
  si_config :: signature_config
  si_secret :: "signing_secret option"

record signing_patch =
  sg_required :: "bool option"
  sg_algorithm :: "algorithm option"
  sg_payload :: "expression option"
  sg_signature :: "expression option"
  sg_signature_encoding :: "signature_encoding option"
  sg_secret_encoding :: "secret_encoding option"
  sg_public_key :: "ustring option option"
  sg_secret :: "signing_secret option"

definition unwrap_or :: "'a option \<Rightarrow> 'a \<Rightarrow> 'a" where
  "unwrap_or x d = (case x of None \<Rightarrow> d | Some a \<Rightarrow> a)"

definition signing_patch_resolve :: "signing_patch \<Rightarrow> signature_config \<Rightarrow> bool \<Rightarrow> signing_input" where
  "signing_patch_resolve p base base_required =
     \<lparr>si_required = unwrap_or (sg_required p) base_required,
      si_config =
        \<lparr>sc_algorithm = unwrap_or (sg_algorithm p) (sc_algorithm base),
         sc_payload = unwrap_or (sg_payload p) (sc_payload base),
         sc_signature = unwrap_or (sg_signature p) (sc_signature base),
         sc_signature_encoding = unwrap_or (sg_signature_encoding p) (sc_signature_encoding base),
         sc_secret_encoding = unwrap_or (sg_secret_encoding p) (sc_secret_encoding base),
         sc_public_key = unwrap_or (sg_public_key p) (sc_public_key base)\<rparr>,
      si_secret = sg_secret p\<rparr>"

record hook_patch =
  up_name :: "hook_name option"
  up_description :: "hook_description option option"
  up_time_zone :: "hook_time_zone option"
  up_enabled :: "bool option"
  up_signing :: "signing_patch option"

definition changes_metadata :: "hook_patch \<Rightarrow> bool" where
  "changes_metadata p \<longleftrightarrow>
     up_name p \<noteq> None \<or> up_description p \<noteq> None \<or> up_time_zone p \<noteq> None \<or> up_signing p \<noteq> None"

record receive_request_command =
  rq_silicon_segment :: ustring
  rq_endpoint_key :: endpoint_key
  rq_method :: ustring
  rq_path :: ustring
  rq_query :: "ustring option"
  rq_headers :: pairs
  rq_body :: bytes
  rq_remote_ip :: ip_addr

datatype 'u receive_outcome =
    RequestAccepted "'u event_record"
  | RequestBlocked "'u blocked_request"

fun receipt_id :: "'u receive_outcome \<Rightarrow> uuid" where
  "receipt_id (RequestAccepted e) = event_uuid (ev_id e)"
| "receipt_id (RequestBlocked b) = blocked_uuid (bk_id b)"

fun accepted_event_id :: "'u receive_outcome \<Rightarrow> event_id option" where
  "accepted_event_id (RequestAccepted e) = Some (ev_id e)"
| "accepted_event_id (RequestBlocked b) = None"

fun withheld_id :: "'u receive_outcome \<Rightarrow> blocked_request_id option" where
  "withheld_id (RequestAccepted e) = None"
| "withheld_id (RequestBlocked b) = Some (bk_id b)"

record list_history_command =
  lh_authorization :: authorization_context
  lh_hook_id :: "hook_id option"
  lh_limit :: nat
  lh_cursor :: "ustring option"

record 'a history_page =
  pg_items :: "'a list"
  pg_next_cursor :: "ustring option"

record hook_with_secret =
  hw_hook :: hook
  hw_signing_secret :: "signing_secret option"

end
