(* ===== verification/Ingress.thy ===== *)
theory Ingress
  imports Application EventFacts
begin

text \<open>
  Public ingress (\<open>application/ingress.rs\<close>): a provider's request is routed, its address is checked,
  it is captured, verified when the hook requires it, and recorded as an event or as a blocked
  request. New identifiers and the clocks are arguments: \<open>now\<close> is the database clock of the
  operation, \<open>clock\<close> the one its last statements read.
\<close>

section \<open>Receiving a request\<close>

definition capture_request ::
  "('u, 'k, 'z) hook_application \<Rightarrow> receive_request_command \<Rightarrow> instant \<Rightarrow> ('u captured, application_error) result" where
  "capture_request ap c received_at =
     map_err
       (\<lambda>e. case e of
          BodyTooLarge \<Rightarrow> PayloadTooLarge
        | HeadersTooLarge \<Rightarrow> PayloadTooLarge
        | TooManyHeaders \<Rightarrow> PayloadTooLarge
        | InvalidMethod \<Rightarrow> Validation ''method'')
       (captured_new
         \<lparr>rp_method = rq_method c,
          rp_url = ub_set_path (ap_urls ap) (rq_path c)
            (cr_url_no_fragment (ap_crates ap) (ub_set_query (ap_urls ap) (rq_query c) (ap_public_base_url ap))),
          rp_headers = rq_headers c, rp_body = rq_body c, rp_remote_ip = rq_remote_ip c,
          rp_received_at = received_at\<rparr>)"

text \<open>Reading the parts of a multipart body: a malformed body is not fatal.\<close>

definition read_parts :: "'u crates \<Rightarrow> 'u captured \<Rightarrow> 'u captured" where
  "read_parts cr r =
     (if content_type r = Some (lit ''multipart/form-data'')
      then (case parse_multipart cr r of Ok (_, r) \<Rightarrow> r | Err _ \<Rightarrow> r)
      else r)"

definition verify_request ::
  "('u, 'k, 'z) hook_application \<Rightarrow> hook \<Rightarrow> 'u \<Rightarrow> 'u captured \<Rightarrow> (unit, block_reason) result" where
  "verify_request ap h hook_url request =
     and_then
       (map_err (\<lambda>e. block_reason_material_unavailable (secret_cipher_error_text e))
         (transpose_opt (map_option (secret_decrypt (dp_crypto (ap_deps ap)) (ap_keyring ap) (hk_id h))
           (encrypted_signing_secret h)))) (\<lambda>secret.
     and_then
       (map_err (\<lambda>e. block_reason_material_unavailable (material_error_text e))
         (config_material (ap_crates ap) (dp_keys (ap_deps ap)) (sp_config (hk_signing h))
           (map_option signing_secret_str secret))) (\<lambda>material.
       let context = \<lparr>hook_context.hc_id = uc_hyphenated (dp_uuid (ap_deps ap)) (hook_uuid (hk_id h)),
                      hc_url = cr_url_text (ap_crates ap) hook_url\<rparr> in
       case verify (ap_crates ap) (dp_keys (ap_deps ap)) (sp_config (hk_signing h)) request context material of
         Verified \<Rightarrow> Ok ()
       | Rejected reason \<Rightarrow> Err (block_reason_signature reason)))"

text \<open>The identifiers an operation may take: of an event, of its sends, of a blocked request.\<close>

record ingress_ids =
  in_event :: event_id
  in_send :: "uuid option \<Rightarrow> uuid"
  in_blocked :: blocked_request_id

definition accept_request ::
  "('u, 'k, 'z) hook_application \<Rightarrow> ingress_ids \<Rightarrow> instant \<Rightarrow> hook \<Rightarrow> 'u captured \<Rightarrow> 'u receive_outcome app" where
  "accept_request ap ids clock h request =
     app_bind
       (transact (accept_event (ap_deps ap) (ap_ting_crates ap) (in_send ids) clock
         \<lparr>av_delivery = (if ap_ting ap then Some (ap_app_id ap) else None), av_event = in_event ids, av_hook = h\<rparr>
         request))
       (\<lambda>e. give (Ok (RequestAccepted e)))"

definition block_request ::
  "('u, 'k, 'z) hook_application \<Rightarrow> ingress_ids \<Rightarrow> hook \<Rightarrow> 'u captured \<Rightarrow> block_reason \<Rightarrow> 'u receive_outcome app" where
  "block_request ap ids h request reason =
     app_bind
       (transact (record_unverified_request (dp_time (ap_deps ap)) (hk_id h) (cap_remote_ip request)
         (cap_received_at request))) (\<lambda>_.
     app_bind
       (attempt (record_blocked_request (ap_deps ap)
         \<lparr>rb_id = in_blocked ids, rb_hook = h, rb_reason = reason\<rparr> request)) (\<lambda>recorded.
       give (case recorded of
           Ok blocked \<Rightarrow> Ok (RequestBlocked blocked)
         | Err (NotFound _) \<Rightarrow> Err ResourceNotFound
         | Err e \<Rightarrow> Err (map_store_error e))))"

definition route_request ::
  "('u, 'k, 'z) hook_application \<Rightarrow> receive_request_command \<Rightarrow> instant \<Rightarrow> (hook \<times> instant) app" where
  "route_request ap c now =
     app_bind (query (resolve_endpoint (ap_deps ap) (rq_silicon_segment c) (rq_endpoint_key c) now)) (\<lambda>resolution.
       give (case resolution of
           EndpointActive h at \<Rightarrow> Ok (h, database_time at)
         | EndpointRetired \<Rightarrow> Err RetiredEndpoint
         | EndpointAccountDeleted \<Rightarrow> Err (Refused 410 ''account_deleted'')
         | EndpointInactive \<Rightarrow> Err ResourceNotFound
         | EndpointUnknown \<Rightarrow> Err ResourceNotFound))"

definition receive_request ::
  "('u, 'k, 'z) hook_application \<Rightarrow> ingress_ids \<Rightarrow> instant \<Rightarrow> instant \<Rightarrow> receive_request_command \<Rightarrow> 'u receive_outcome app" where
  "receive_request ap ids now clock c =
     app_bind (route_request ap c now) (\<lambda>(h, now).
     app_bind (transact (check_ip_block (hk_id h) (rq_remote_ip c) now)) (\<lambda>outcome.
     case outcome of
       BlockedUntil until \<Rightarrow> give (Err (IpBlocked until))
     | CheckAllowed \<Rightarrow>
         app_bind (give (endpoint_url ap (rq_silicon_segment c) (rq_endpoint_key c))) (\<lambda>hook_url.
         app_bind (give (capture_request ap c now)) (\<lambda>request.
         let request = read_parts (ap_crates ap) request in
         if \<not> sp_required (hk_signing h) then accept_request ap ids clock h request
         else
           (case verify_request ap h hook_url request of
              Ok _ \<Rightarrow> accept_request ap ids clock h request
            | Err reason \<Rightarrow> block_request ap ids h request reason)))))"

end
