(* ===== verification/IngressFacts.thy ===== *)
theory IngressFacts
  imports Ingress
begin

text \<open>
  How an ingress operation runs: its outcomes by case, what each does to the tables, what
  verification means without the order of its checks, and the counter of an address as the state of
  \<open>domain/safety.rs\<close>.
\<close>

section \<open>The steps of an operation\<close>

lemma resolve_endpoint_Active:
  assumes "resolve_endpoint dp segment key now db = Ok (EndpointActive h t)"
  obtains row where "row \<in> set (db_hooks db)" and "hr_endpoint_key row = endpoint_key_str key"
    and "path_matches segment row db = Some True" and "\<not> owner_deleted row db"
    and "hook_of_row dp row = Ok h" and "hk_status h = Active" and "t = now"
  using assms
  by (auto simp: resolve_endpoint_def is_enabled_def result_simps dest!: find_SomeD
      split: option.splits if_splits)

lemma resolve_endpoint_clock: "resolve_endpoint dp segment key now db = Ok (EndpointActive h t) \<Longrightarrow> t = now"
  by (erule resolve_endpoint_Active)

lemma route_request_Ok:
  "route_request ap c now db = (Ok (h, t), db') \<longleftrightarrow>
     db' = db \<and> (\<exists>t0. t = database_time t0 \<and>
       resolve_endpoint (ap_deps ap) (rq_silicon_segment c) (rq_endpoint_key c) now db = Ok (EndpointActive h t0))"
proof (cases "resolve_endpoint (ap_deps ap) (rq_silicon_segment c) (rq_endpoint_key c) now db")
  case (Ok resolution)
  then show ?thesis by (cases resolution) (auto simp: route_request_def app_bind_def query_def)
qed (simp add: route_request_def app_bind_def query_def)

lemma route_request_reads [reading]: "reads_only (route_request ap c now)"
  unfolding route_request_def by (intro reading)

lemma block_state_of_rejection:
  "block_state_of_row (r\<lparr>ib_rejected_requests := n, ib_updated_at := t\<rparr>) = block_state_of_row r"
  by (simp add: block_state_of_row_def)

lemma check_ip_block_tables:
  "check_ip_block i ip now db = Ok (outcome, db') \<Longrightarrow> db' = db\<lparr>db_ip_blocks := db_ip_blocks db'\<rparr>"
  by (auto simp: check_ip_block_def Let_def result_simps split: option.splits if_splits)

lemma check_ip_block_allowed: "check_ip_block i ip now db = Ok (CheckAllowed, db') \<Longrightarrow> db' = db"
  by (auto simp: check_ip_block_def Let_def result_simps split: option.splits if_splits)

lemma unverified_tables:
  "record_unverified_request tc i ip now db = Ok (outcome, db') \<Longrightarrow> db' = db\<lparr>db_ip_blocks := db_ip_blocks db'\<rparr>"
  by (auto simp: record_unverified_request_def Let_def result_simps case_prod_beta split: if_splits)

lemma record_blocked_Ok:
  assumes "record_blocked_request dp c request db = Ok (b, db')"
  shows "b = blocked_request_record (rb_id c) (rb_hook c) request (rb_reason c)"
    and "db' = db\<lparr>db_hooks := db_hooks db', db_blocked := db_blocked db'\<rparr>"
    and "\<exists>r. db_blocked db' = blocked_row_of (dp_crates dp) r b # db_blocked db"
  using assms
  by (auto simp: record_blocked_request_def insert_blocked_request_def Let_def result_simps update_hooks_Ok
      split: option.splits if_splits)

text \<open>A request that got through: routed, from an allowed address, captured.\<close>

definition admitted ::
  "('u, 'k, 'z) hook_application \<Rightarrow> instant \<Rightarrow> receive_request_command \<Rightarrow> db \<Rightarrow> hook \<Rightarrow> 'u \<Rightarrow> 'u captured \<Rightarrow> bool" where
  "admitted ap now c db h url request \<longleftrightarrow>
     resolve_endpoint (ap_deps ap) (rq_silicon_segment c) (rq_endpoint_key c) now db = Ok (EndpointActive h now) \<and>
     check_ip_block (hk_id h) (rq_remote_ip c) (database_time now) db = Ok (CheckAllowed, db) \<and>
     endpoint_url ap (rq_silicon_segment c) (rq_endpoint_key c) = Ok url \<and>
     (\<exists>captured. capture_request ap c (database_time now) = Ok captured \<and>
        request = read_parts (ap_crates ap) captured)"

lemma receive_requestE:
  assumes "receive_request ap ids now clock c db = (r, db')"
  obtains (stopped) e where "r = Err e" and "db' = db\<lparr>db_ip_blocks := db_ip_blocks db'\<rparr>"
  | (accepted) h url request where "admitted ap now c db h url request"
      and "sp_required (hk_signing h) \<Longrightarrow> verify_request ap h url request = Ok ()"
      and "accept_request ap ids clock h request db = (r, db')"
  | (blocked) h url request reason where "admitted ap now c db h url request"
      and "sp_required (hk_signing h)" and "verify_request ap h url request = Err reason"
      and "block_request ap ids h request reason db = (r, db')"
  using assms unfolding receive_request_def
proof (cases rule: app_bindE)
  case (failed e)
  then have "db' = db" using reads_onlyD [OF route_request_reads] by blast
  with failed show thesis using stopped [of e] by simp
next
  case (continued p d)
  obtain h t where p: "p = (h, t)" by fastforce
  with continued(1) have d: "d = db" "t = database_time now"
    and routed: "resolve_endpoint (ap_deps ap) (rq_silicon_segment c) (rq_endpoint_key c) now db = Ok (EndpointActive h now)"
    by (auto simp: route_request_Ok dest: resolve_endpoint_clock)
  from continued(2) [unfolded p d prod.case] show thesis
  proof (cases rule: app_bindE)
    case (failed e)
    then show thesis using stopped [of e] by (simp add: transact_def split: result.splits prod.splits)
  next
    case (continued outcome d)
    then have checked: "check_ip_block (hk_id h) (rq_remote_ip c) (database_time now) db = Ok (outcome, d)"
      by (simp add: transact_Ok)
    show thesis
    proof (cases outcome)
      case (BlockedUntil until)
      then show thesis using continued(2) stopped [of "IpBlocked until"] check_ip_block_tables [OF checked] by simp
    next
      case CheckAllowed
      with checked have same: "d = db" by (simp add: check_ip_block_allowed)
      from continued(2) [unfolded same CheckAllowed block_check.case] show thesis
      proof (cases rule: app_bindE)
        case url: (continued url d)
        from url(2) show thesis
        proof (cases rule: app_bindE)
          case captured: (continued captured d')
          let ?request = "read_parts (ap_crates ap) captured"
          have adm: "admitted ap now c db h url ?request"
            using routed checked url captured CheckAllowed same by (auto simp: admitted_def)
          show thesis
            using captured url accepted [OF adm] blocked [OF adm] by (auto simp: Let_def split: if_splits result.splits)
        qed (use url stopped in simp)
      qed (use stopped in simp)
    qed
  qed
qed

section \<open>Events\<close>

text \<open>
  What verification means, without the order of its checks: the stored secret decrypts and decodes,
  the configured expressions give a payload and candidates, and one candidate is the tag of the
  payload under the secret, or is accepted by the configured public key.
\<close>

definition key_material :: "('u, 'k, 'z) hook_application \<Rightarrow> hook \<Rightarrow> 'k verification_material \<Rightarrow> bool" where
  "key_material ap h m \<longleftrightarrow>
     (\<exists>secret. transpose_opt (map_option (secret_decrypt (dp_crypto (ap_deps ap)) (ap_keyring ap) (hk_id h))
          (encrypted_signing_secret h)) = Ok secret \<and>
        config_material (ap_crates ap) (dp_keys (ap_deps ap)) (sp_config (hk_signing h))
          (map_option signing_secret_str secret) = Ok m)"

definition authenticated :: "('u, 'k, 'z) hook_application \<Rightarrow> hook \<Rightarrow> 'u \<Rightarrow> 'u captured \<Rightarrow> bool" where
  "authenticated ap h url request \<longleftrightarrow>
     (let config = sp_config (hk_signing h);
          context = \<lparr>hook_context.hc_id = uc_hyphenated (dp_uuid (ap_deps ap)) (hook_uuid (hk_id h)),
                     hc_url = cr_url_text (ap_crates ap) url\<rparr> in
      \<exists>m payload cands. key_material ap h m \<and>
        signed_payload (ap_crates ap) config (verify_context request context m) = Ok payload \<and>
        presented_candidates (ap_crates ap) config (verify_context request context m) = Ok cands \<and>
        (if uses_secret (sc_algorithm config)
         then \<exists>secret tag. vm_secret m = Some secret \<and>
           symmetric_signature (ap_crates ap) (dp_keys (ap_deps ap)) (sc_algorithm config) secret payload = Some tag \<and>
           tag \<in> set cands
         else \<exists>key x. vm_public_key m = Some key \<and> x \<in> set cands \<and>
           asymmetric_matches (dp_keys (ap_deps ap)) (sc_algorithm config) key payload x))"

lemma verify_request_Ok: "verify_request ap h url request = Ok u \<longleftrightarrow> authenticated ap h url request"
proof -
  have outcome: "(case v of Verified \<Rightarrow> Ok () | Rejected reason \<Rightarrow> Err (f reason)) = Ok u \<longleftrightarrow> v = Verified" for v f
    by (cases v) simp_all
  show ?thesis
    unfolding verify_request_def Let_def and_then_Ok_iff map_err_Ok_iff outcome verify_Verified
      authenticated_def key_material_def by blast
qed

lemma read_parts_fields:
  "cap_body (read_parts cr r) = cap_body r" "cap_headers (read_parts cr r) = cap_headers r"
  "cap_method (read_parts cr r) = cap_method r" "cap_url (read_parts cr r) = cap_url r"
  "cap_remote_ip (read_parts cr r) = cap_remote_ip r" "cap_received_at (read_parts cr r) = cap_received_at r"
  by (auto simp: read_parts_def parse_multipart_def result_simps split: result.splits option.splits)

lemma capture_request_fields:
  assumes "capture_request ap c at = Ok r"
  shows "cap_body r = rq_body c" "cap_headers r = map (\<lambda>(name, v). (to_ascii_lowercase name, v)) (rq_headers c)"
    "cap_remote_ip r = rq_remote_ip c" "cap_received_at r = at"
  using assms by (auto simp: capture_request_def captured_new_def result_simps split: if_splits)

lemma admitted_fields:
  assumes "admitted ap now c db h url request"
  shows "cap_body request = rq_body c" "cap_remote_ip request = rq_remote_ip c"
    "cap_headers request = map (\<lambda>(name, v). (to_ascii_lowercase name, v)) (rq_headers c)"
    "cap_received_at request = database_time now"
  using assms by (auto simp: admitted_def read_parts_fields dest: capture_request_fields)

lemma accept_request_Ok:
  assumes "accept_request ap ids clock h request db = (Ok (RequestAccepted e), db')"
  shows "accept_event (ap_deps ap) (ap_ting_crates ap) (in_send ids) clock
     \<lparr>av_delivery = (if ap_ting ap then Some (ap_app_id ap) else None), av_event = in_event ids, av_hook = h\<rparr>
     request db = Ok (e, db')"
  using assms by (simp add: accept_request_def app_bind_Ok transact_Ok)

lemma accept_request_outcome:
  "accept_request ap ids clock h request db = (r, db') \<Longrightarrow> (\<exists>e. r = Ok (RequestAccepted e)) \<or> (\<exists>e. r = Err e) \<and> db' = db"
  by (auto simp: accept_request_def app_bind_def transact_def split: result.splits prod.splits)

lemma block_requestE:
  assumes "block_request ap ids h request reason db = (r, db')"
  obtains (uncounted) e where "r = Err e" and "db' = db"
  | (unrecorded) outcome e where "r = Err e"
      and "record_unverified_request (dp_time (ap_deps ap)) (hk_id h) (cap_remote_ip request) (cap_received_at request) db =
        Ok (outcome, db')"
  | (recorded) outcome db1 b where "r = Ok (RequestBlocked b)"
      and "record_unverified_request (dp_time (ap_deps ap)) (hk_id h) (cap_remote_ip request) (cap_received_at request) db =
        Ok (outcome, db1)"
      and "record_blocked_request (ap_deps ap) \<lparr>rb_id = in_blocked ids, rb_hook = h, rb_reason = reason\<rparr> request db1 =
        Ok (b, db')"
  using assms unfolding block_request_def
proof (cases rule: app_bindE)
  case (failed e)
  then show thesis using uncounted by (auto simp: transact_def split: result.splits prod.splits)
next
  case (continued outcome db1)
  note count = continued(1) [unfolded transact_Ok]
  from continued(2) show thesis
  proof (cases rule: app_bindE)
    case failed
    then show thesis by (auto simp: attempt_def split: result.splits prod.splits)
  next
    case (continued recorded d)
    then have "(\<exists>e. r = Err e) \<and> db' = db1 \<or> (\<exists>b. r = Ok (RequestBlocked b) \<and> recorded = Ok b)"
      and "attempt (record_blocked_request (ap_deps ap) \<lparr>rb_id = in_blocked ids, rb_hook = h, rb_reason = reason\<rparr> request) db1 =
        (Ok recorded, db')"
      by (auto simp: attempt_Ok split: result.splits store_error.splits)
    then show thesis using recorded [OF _ count] unrecorded count by (auto simp: attempt_Ok)
  qed
qed

lemma block_request_not_accepted: "block_request ap ids h request reason db = (r, db') \<Longrightarrow> r \<noteq> Ok (RequestAccepted e)"
  by (erule block_requestE) simp_all

lemma block_request_tables:
  assumes "block_request ap ids h request reason db = (r, db')"
  shows "db' = db\<lparr>db_hooks := db_hooks db', db_blocked := db_blocked db', db_ip_blocks := db_ip_blocks db'\<rparr>"
  using assms
proof (cases rule: block_requestE)
  case (recorded outcome db1 b)
  obtain x y z where "db1 = db\<lparr>db_ip_blocks := x\<rparr>" "db' = db1\<lparr>db_hooks := y, db_blocked := z\<rparr>"
    using unverified_tables [OF recorded(2)] record_blocked_Ok(2) [OF recorded(3)] by blast
  then show ?thesis by simp
next
  case (unrecorded outcome e')
  obtain x where "db' = db\<lparr>db_ip_blocks := x\<rparr>" using unverified_tables [OF unrecorded(2)] by blast
  then show ?thesis by simp
qed simp

lemma accept_event_stored:
  assumes "accept_event dp tg new_id clock v request db = Ok (e, db')"
  shows "\<exists>r. db_events db' = event_row_of (dp_crates dp) r e # db_events db"
    and "ev_id e = av_event v" and "ev_hook_id e = hk_id (av_hook v)" and "ev_request e = request"
proof -
  obtain db1 db2 db3 where upd: "update_hooks (serving_row (hook_uuid (hk_id (av_hook v)))) (touch_received (cap_received_at request)) db = Ok (1, db1)"
    and num: "next_sequence (silicon_id_str (hk_silicon_id (av_hook v))) db1 = Ok (sequence_get (ev_sequence e), db2)"
    and e: "e = event_accept (dp_jiff dp) (av_event v) (av_hook v) request (ev_sequence e)"
    and ins: "insert_event (dp_crates dp) e db2 = Ok db3" and out: "db' = db3\<lparr>db_outbox := db_outbox db'\<rparr>"
    using assms by (rule accept_eventE)
  have "db_events db1 = db_events db" using upd by (simp add: update_hooks_Ok)
  moreover have "db_events db2 = db_events db1" using arg_cong [OF next_sequence_Ok(2) [OF num], of db_events] by simp
  moreover have "db_events db' = db_events db3" using arg_cong [OF out, of db_events] by simp
  ultimately show "\<exists>r. db_events db' = event_row_of (dp_crates dp) r e # db_events db"
    using ins by (auto elim!: insert_event_Ok)
  show "ev_id e = av_event v" "ev_hook_id e = hk_id (av_hook v)" "ev_request e = request"
    by (subst e, simp add: event_accept_def Let_def)+
qed

section \<open>The counter of an address\<close>

definition abuse_state :: "hook_id \<Rightarrow> ip_addr \<Rightarrow> db \<Rightarrow> ip_block_state" where
  "abuse_state i ip db =
     (case find (block_row i ip) (db_ip_blocks db) of
        None \<Rightarrow> default_block_state
      | Some r \<Rightarrow> \<lparr>strikes = word_of_int (ib_strikes r), blocked_until = ib_blocked_until r\<rparr>)"

lemma abuse_state_update:
  assumes "\<And>r j q. block_row j q (f r) = block_row j q r"
  shows "find (block_row j q) (rows_update (block_row i ip) f rows) =
    (if (j, q) = (i, ip) then map_option f (find (block_row i ip) rows) else find (block_row j q) rows)"
proof -
  have one: "find (block_row j q) (rows_update (block_row i ip) f rows) =
      map_option (\<lambda>r. if block_row i ip r then f r else r) (find (block_row j q) rows)"
    using assms by (intro find_rows_update) auto
  have key: "block_row j q r \<Longrightarrow> block_row i ip r \<longleftrightarrow> (j, q) = (i, ip)" for r
    by (auto simp: block_row_def intro: hook_id.expand)
  show ?thesis
  proof (cases "find (block_row j q) rows")
    case (Some r)
    with key [of r] find_SomeD [OF Some] one show ?thesis by auto
  qed (use one in auto)
qed

lemma check_ip_block_refines:
  assumes "check_ip_block i ip now db = Ok (outcome, db')"
  shows "outcome = check (abuse_state i ip db) now" and "abuse_state j q db' = abuse_state j q db"
proof -
  show "outcome = check (abuse_state i ip db) now"
    using assms by (auto simp: check_ip_block_def abuse_state_def default_block_state_def check_def result_simps Let_def
        block_state_of_row_def split: option.splits if_splits)
  have f: "block_row j q (r\<lparr>ib_rejected_requests := n, ib_updated_at := t\<rparr>) = block_row j q r" for r n t j q
    by (simp add: block_row_def)
  show "abuse_state j q db' = abuse_state j q db"
    using assms by (auto simp: check_ip_block_def abuse_state_def result_simps Let_def abuse_state_update f
        split: option.splits if_splits)
qed

lemma stored_strikes:
  assumes "record_unverified tc now s = (t, outcome)"
  shows "word_of_int (ib_strikes (count_row t now r)) = strikes t"
proof -
  have "strikes t < unverified_requests_per_block"
    using record_unverified_ok [of tc now s] assms by (simp add: block_state_ok_def)
  then have "uint (strikes t) < 20" by (simp add: unverified_requests_per_block_def word_less_def)
  then show ?thesis by (simp add: count_row_def i32_max_def)
qed

lemma record_unverified_refines:
  assumes "record_unverified_request tc i ip now db = Ok (outcome, db')"
  shows "(abuse_state i ip db', outcome) = record_unverified tc now (abuse_state i ip db)"
    and "(j, q) \<noteq> (i, ip) \<Longrightarrow> abuse_state j q db' = abuse_state j q db"
proof -
  let ?rows = "if list_ex (block_row i ip) (db_ip_blocks db) then db_ip_blocks db
    else fresh_block_row i ip now # db_ip_blocks db"
  obtain row s t where found: "find (block_row i ip) ?rows = Some row" and s: "block_state_of_row row = Ok s"
    and step: "record_unverified tc now s = (t, outcome)"
    and db': "db' = db\<lparr>db_ip_blocks := rows_update (block_row i ip) (count_row t now) ?rows\<rparr>"
    using assms by (auto simp: record_unverified_request_def Let_def result_simps case_prod_beta prod_eq_iff split: if_splits)
  have fresh: "block_row j q (fresh_block_row i ip now) \<longleftrightarrow> (j, q) = (i, ip)" for j q
    by (auto simp: block_row_def fresh_block_row_def intro: hook_id.expand)
  have none: "\<not> list_ex (block_row i ip) (db_ip_blocks db) \<Longrightarrow> find (block_row i ip) (db_ip_blocks db) = None"
    by (auto simp: find_None_iff list_ex_iff)
  have row: "abuse_state i ip db = s"
    using found s none fresh
    by (auto simp: abuse_state_def block_state_of_row_def default_block_state_def fresh_block_row_def split: if_splits)
  have keep: "block_row j q (count_row t now r) = block_row j q r" for j q r
    by (simp add: block_row_def count_row_def)
  show "(abuse_state i ip db', outcome) = record_unverified tc now (abuse_state i ip db)"
    using found step stored_strikes [OF step, of row] unfolding row
    by (simp add: abuse_state_def db' abuse_state_update keep) (simp add: count_row_def)
  show "abuse_state j q db' = abuse_state j q db" if "(j, q) \<noteq> (i, ip)"
    using that fresh by (auto simp: abuse_state_def db' abuse_state_update keep)
qed

section \<open>Closing an endpoint to an address\<close>

text \<open>Requests one after another, each with its identifiers and clocks.\<close>

type_synonym delivery = "ingress_ids \<times> instant \<times> instant \<times> receive_request_command"

fun receive_all ::
  "('u, 'k, 'z) hook_application \<Rightarrow> delivery list \<Rightarrow> db \<Rightarrow> ('u receive_outcome, application_error) result list \<times> db" where
  "receive_all ap [] db = ([], db)"
| "receive_all ap ((ids, now, clock, c) # rest) db =
     (let (r, db) = receive_request ap ids now clock c db; (rs, db) = receive_all ap rest db in (r # rs, db))"

definition withheld_from ::
  "hook_id \<Rightarrow> ip_addr \<Rightarrow> delivery \<Rightarrow> ('u receive_outcome, application_error) result \<Rightarrow> bool" where
  "withheld_from i ip d r \<longleftrightarrow>
     rq_remote_ip (snd (snd (snd d))) = ip \<and> (\<exists>b. r = Ok (RequestBlocked b) \<and> bk_hook_id b = i)"

definition received_at :: "delivery \<Rightarrow> instant" where
  "received_at d = database_time (fst (snd d))"

lemma withheld_step:
  assumes "receive_request ap ids now clock c db = (r, db')" and "withheld_from i ip (ids, now, clock, c) r"
  shows "check (abuse_state i ip db) (database_time now) = CheckAllowed"
    and "abuse_state i ip db' = fst (record_unverified (dp_time (ap_deps ap)) (database_time now) (abuse_state i ip db))"
    and "(j, q) \<noteq> (i, ip) \<Longrightarrow> abuse_state j q db' = abuse_state j q db"
proof -
  obtain b where r: "r = Ok (RequestBlocked b)" "bk_hook_id b = i" and ip: "rq_remote_ip c = ip"
    using assms(2) by (auto simp: withheld_from_def)
  from assms(1) obtain h url request reason where adm: "admitted ap now c db h url request"
    and blk: "block_request ap ids h request reason db = (r, db')"
    using r by (cases rule: receive_requestE) (auto dest: accept_request_outcome)
  from blk obtain outcome db1 where count: "record_unverified_request (dp_time (ap_deps ap)) (hk_id h)
      (cap_remote_ip request) (cap_received_at request) db = Ok (outcome, db1)"
    and log: "record_blocked_request (ap_deps ap) \<lparr>rb_id = in_blocked ids, rb_hook = h, rb_reason = reason\<rparr> request db1 = Ok (b, db')"
    using r by (cases rule: block_requestE) auto
  have i: "hk_id h = i" using r(2) record_blocked_Ok(1) [OF log] by (simp add: blocked_request_record_def)
  note count = count [unfolded admitted_fields [OF adm] i ip]
  have "db_ip_blocks db' = db_ip_blocks db1"
    using arg_cong [OF record_blocked_Ok(2) [OF log], of db_ip_blocks] by simp
  then have same: "abuse_state j q db' = abuse_state j q db1" for j q by (simp add: abuse_state_def)
  show "check (abuse_state i ip db) (database_time now) = CheckAllowed"
    using adm i ip by (auto simp: admitted_def dest: check_ip_block_refines(1))
  show "abuse_state i ip db' = fst (record_unverified (dp_time (ap_deps ap)) (database_time now) (abuse_state i ip db))"
    using record_unverified_refines(1) [OF count] by (metis fst_conv same)
  show "(j, q) \<noteq> (i, ip) \<Longrightarrow> abuse_state j q db' = abuse_state j q db"
    using record_unverified_refines(2) [OF count] same by simp
qed

lemma withheld_run:
  assumes "receive_all ap ds db = (rs, db')" and "list_all2 (withheld_from i ip) ds rs"
  shows "(ds \<noteq> [] \<longrightarrow> check (abuse_state i ip db) (received_at (hd ds)) = CheckAllowed) \<and>
    abuse_state i ip db' = fst (record_all (dp_time (ap_deps ap)) (map received_at ds) (abuse_state i ip db)) \<and>
    (\<forall>j q. (j, q) \<noteq> (i, ip) \<longrightarrow> abuse_state j q db' = abuse_state j q db)"
  using assms
proof (induction ds arbitrary: db rs)
  case (Cons d ds)
  obtain ids now clock c where d: "d = (ids, now, clock, c)" by (metis prod_cases4)
  obtain r db1 where one: "receive_request ap ids now clock c db = (r, db1)" by fastforce
  obtain rs1 db2 where "receive_all ap ds db1 = (rs1, db2)" by fastforce
  with Cons.prems(1) have rest: "receive_all ap ds db1 = (rs1, db')" and rs: "rs = r # rs1"
    by (auto simp: d one)
  note step = withheld_step [OF one]
  have w: "withheld_from i ip (ids, now, clock, c) r" "list_all2 (withheld_from i ip) ds rs1"
    using Cons.prems(2) by (simp_all add: d rs)
  show ?case
    using Cons.IH [OF rest w(2)] step [OF w(1)] by (simp add: d received_at_def case_prod_beta)
qed simp_all

end
