(* ===== verification/IngressDemo.thy ===== *)
theory IngressDemo
  imports IngressFacts StoreDemo SystemProps
begin

text \<open>
  Concrete requests for the witnesses about ingress: an application over the demonstration crates, a
  hook that accepts every request, and a hook that requires signatures without a key to verify them
  with, on which twenty requests are withheld one after another.
\<close>

section \<open>A hook that accepts\<close>

definition demo_urls :: "(ustring \<times> pairs) url_builder" where
  "demo_urls = \<lparr>ub_with_segments = (\<lambda>_ u. Some u), ub_set_query = (\<lambda>_ u. u), ub_set_path = (\<lambda>_ u. u)\<rparr>"

definition demo_canonical :: canonical_crate where
  "demo_canonical =
     \<lparr>cs_create_vec = (\<lambda>q. Some (utf8 (cn_name q))), cs_connect_vec = (\<lambda>u. Some (utf8 u))\<rparr>"

definition demo_app :: "(ustring \<times> pairs, bytes, unit) hook_application" where
  "demo_app =
     \<lparr>ap_deps = demo_deps, ap_urls = demo_urls, ap_canonical = demo_canonical, ap_keyring = demo_keyring, ap_cursor_key = replicate 32 0,
      ap_public_base_url = (lit ''https://hook/'', []), ap_app_id = lit ''hook'', ap_ting = False,
      ap_ting_crates = demo_ting\<rparr>"

definition demo_receive :: receive_request_command where
  "demo_receive =
     \<lparr>rq_silicon_segment = lit ''8HV'', rq_endpoint_key = EndpointKey (lit ''A0B1C2D3''), rq_method = lit ''POST'',
      rq_path = lit ''/'', rq_query = None, rq_headers = [], rq_body = [], rq_remote_ip = V4 1\<rparr>"

definition demo_receive_ids :: "uuid \<Rightarrow> ingress_ids" where
  "demo_receive_ids n = \<lparr>in_event = EventId 42, in_send = (\<lambda>_. 1), in_blocked = BlockedRequestId n\<rparr>"

definition demo_captured :: "(ustring \<times> pairs) captured" where
  "demo_captured =
     \<lparr>cap_method = lit ''POST'', cap_url = (lit ''https://hook/'', []), cap_headers = [], cap_body = [],
      cap_remote_ip = V4 1, cap_received_at = 0, cap_multipart = None, cap_json = None, cap_form = None\<rparr>"

lemma demo_capture: "ap_urls ap = demo_urls \<Longrightarrow> ap_public_base_url ap = (lit ''https://hook/'', []) \<Longrightarrow>
   dp_crates (ap_deps ap) = demo_crates \<Longrightarrow> capture_request ap demo_receive 0 = Ok demo_captured"
proof -
  assume ap: "ap_urls ap = demo_urls" "ap_public_base_url ap = (lit ''https://hook/'', [])" "dp_crates (ap_deps ap) = demo_crates"
  have m: "list_all is_token_byte (utf8 (lit ''POST''))" "to_ascii_uppercase (lit ''POST'') = lit ''POST''"
    by (simp_all add: lit_def utf8_def utf8_char_def is_token_byte_def char_class_defs to_ascii_uppercase_def to_ascii_upper_def)
  have c: "cr_url_no_fragment demo_crates u = u" for u by (simp add: demo_crates_def)
  show ?thesis
    using m by (simp add: capture_request_def captured_new_def demo_receive_def ap_crates_def ap demo_urls_def demo_captured_def
        header_bytes_def c)
qed

lemma demo_parts: "read_parts cr demo_captured = demo_captured"
  by (simp add: read_parts_def content_type_def header_def demo_captured_def)

lemma demo_fits: "capture_check tbl (bind_capture demo_crates demo_captured) = None"
proof -
  have "list_all is_token_byte (utf8 (lit ''POST''))"
    by (simp add: lit_def utf8_def utf8_char_def is_token_byte_def char_class_defs)
  moreover have "content_type demo_captured = None" "query_string demo_crates demo_captured = []"
    by (simp_all add: content_type_def query_string_def demo_captured_def header_def demo_crates_def)
  ultimately show ?thesis
    by (simp add: capture_check_def bind_capture_def) (simp add: demo_captured_def demo_crates_def lit_def scalar_def)
qed

lemma demo_resolves: "resolve_endpoint demo_deps (lit ''8HV'') (EndpointKey (lit ''A0B1C2D3'')) now demo_db = Ok (EndpointActive stored_hook now)"
  by (simp add: resolve_endpoint_def demo_db_def path_matches_def owner_deleted_def empty_db_def is_enabled_def seen_id_def)

lemma demo_accepts:
  "\<exists>e db'. receive_request demo_app (demo_receive_ids 0) 0 30 demo_receive demo_db = (Ok (RequestAccepted e), db')"
proof -
  have dp: "dp_crates demo_deps = demo_crates" by (simp add: demo_deps_def)
  have num: "next_sequence (lit ''8HV'') (demo_db\<lparr>db_hooks := [touch_received 0 demo_row]\<rparr>) =
      Ok (1, demo_db\<lparr>db_hooks := [touch_received 0 demo_row], db_sequences := [(lit ''8HV'', 1)]\<rparr>)"
    by (simp add: next_sequence_def demo_db_def empty_db_def)
  have "\<exists>e db'. accept_event demo_deps demo_ting (\<lambda>_. 1) 30 \<lparr>av_delivery = None, av_event = EventId 42, av_hook = stored_hook\<rparr>
      demo_captured demo_db = Ok (e, db')"
    using demo_touched demo_fits num dp
    by (simp add: accept_event_def Let_def delivery_sequence_new_def event_accept_def insert_event_def
        event_row_of_def touch_received_def demo_db_def empty_db_def demo_captured_def)
  then obtain e db' where acc: "accept_event demo_deps demo_ting (\<lambda>_. 1) 30 \<lparr>av_delivery = None, av_event = EventId 42, av_hook = stored_hook\<rparr>
      demo_captured demo_db = Ok (e, db')" by blast
  have app: "ap_deps demo_app = demo_deps" "ap_urls demo_app = demo_urls" "ap_public_base_url demo_app = (lit ''https://hook/'', [])"
    "ap_ting demo_app = False" "ap_ting_crates demo_app = demo_ting"
    by (simp_all add: demo_app_def)
  have signing: "sp_required (hk_signing stored_hook) = False"
    by (simp add: stored_hook_def hook_create_def demo_new_hook_def)
  have route: "route_request demo_app demo_receive 0 demo_db = (Ok (stored_hook, 0), demo_db)"
    using demo_resolves by (simp add: route_request_Ok app demo_receive_def database_time_def)
  have door: "check_ip_block (HookId 1) (V4 1) 0 demo_db = Ok (CheckAllowed, demo_db)"
    by (simp add: check_ip_block_def demo_db_def empty_db_def)
  have url: "endpoint_url demo_app s k = Ok (cr_url_no_fragment demo_crates (lit ''https://hook/'', []))" for s k
    by (simp add: endpoint_url_def app demo_urls_def ap_crates_def dp)
  show ?thesis
    using route door url acc demo_capture [of demo_app] signing
    by (simp add: receive_request_def app_bind_def transact_def app dp demo_parts accept_request_def demo_receive_ids_def
        demo_receive_def)
qed

section \<open>A hook that requires signatures it cannot verify\<close>

definition strict_config :: signature_config where
  "strict_config = default_config\<lparr>sc_algorithm := Ed25519\<rparr>"

definition strict_deps :: "(ustring \<times> pairs, bytes, unit) deps" where
  "strict_deps = demo_deps\<lparr>dp_config_parse := (\<lambda>_. Some strict_config)\<rparr>"

definition strict_app :: "(ustring \<times> pairs, bytes, unit) hook_application" where
  "strict_app = demo_app\<lparr>ap_deps := strict_deps\<rparr>"

definition strict_row :: hook_row where
  "strict_row = demo_row\<lparr>hr_signature_required := True\<rparr>"

definition strict_hook :: hook where
  "strict_hook = stored_hook\<lparr>hk_signing := \<lparr>sp_required = True, sp_config = strict_config, sp_encrypted_secret = None\<rparr>\<rparr>"

lemma strict_deps_sel: "dp_crates strict_deps = demo_crates" "dp_uuid strict_deps = demo_uuid_crate"
    "dp_jiff strict_deps = demo_jiff" "dp_time strict_deps = demo_time_crate" "dp_keys strict_deps = demo_key_crates"
    "dp_config_parse strict_deps c = Some strict_config"
  by (simp_all add: strict_deps_def demo_deps_def)

lemma strict_app_sel: "ap_deps strict_app = strict_deps" "ap_urls strict_app = demo_urls"
    "ap_public_base_url strict_app = (lit ''https://hook/'', [])"
  by (simp_all add: strict_app_def demo_app_def)

definition strict_hook_at :: "hook_row \<Rightarrow> bool" where
  "strict_hook_at r \<longleftrightarrow>
     (\<exists>t. r = strict_row\<lparr>hr_last_blocked_at := t\<rparr> \<and> (t = None \<or> t = Some 0))"

lemma strict_reads:
  assumes "t = None \<or> t = Some 0"
  shows "hook_of_row strict_deps (strict_row\<lparr>hr_last_blocked_at := t\<rparr>) = Ok (strict_hook\<lparr>hk_last_blocked_at := t\<rparr>)"
proof -
  note old = demo_row_reads [unfolded hook_of_row_Ok]
  have secret: "sp_encrypted_secret (hk_signing stored_hook) = None"
    by (simp add: stored_hook_def hook_create_def demo_new_hook_def)
  have cols: "row_secret (strict_row\<lparr>hr_last_blocked_at := t\<rparr>) = row_secret demo_row"
    "row_creator uc (strict_row\<lparr>hr_last_blocked_at := t\<rparr>) = row_creator uc demo_row"
    "row_status (strict_row\<lparr>hr_last_blocked_at := t\<rparr>) = row_status demo_row" for uc
    by (simp_all add: row_secret_def row_creator_def row_status_def strict_row_def)
  have wf: "wf_hook (strict_hook\<lparr>hk_last_blocked_at := t\<rparr>)"
    using stored_hook_wf assms by (simp add: wf_hook_def strict_hook_def lifecycle_is_consistent_def)
  show ?thesis
    using old secret wf
    by (simp add: hook_of_row_Ok cols strict_deps_sel) (simp add: strict_hook_def strict_row_def demo_deps_def)
qed

lemma strict_fails: "\<exists>reason. verify_request strict_app (strict_hook\<lparr>hk_last_blocked_at := t\<rparr>) url request = Err reason"
proof (cases "verify_request strict_app (strict_hook\<lparr>hk_last_blocked_at := t\<rparr>) url request")
  case (Ok u)
  then have "authenticated strict_app (strict_hook\<lparr>hk_last_blocked_at := t\<rparr>) url request" by (simp add: verify_request_Ok)
  moreover have "sc_public_key strict_config = None" "\<not> uses_secret (sc_algorithm strict_config)"
    by (simp_all add: strict_config_def default_config_def uses_secret_def is_asymmetric_def)
  ultimately show ?thesis
    by (auto simp: authenticated_def Let_def key_material_def strict_hook_def config_material_def config_public_key_def
        result_simps)
qed simp

text \<open>The tables after \<open>n\<close> withheld requests.\<close>

definition strict_blocks :: "nat \<Rightarrow> ip_block_row list" where
  "strict_blocks n =
     (if n = 0 then []
      else [\<lparr>ib_hook_id = 1, ib_remote_ip = V4 1, ib_strikes = (if n < 20 then int n else 0),
             ib_blocked_until = (if n < 20 then None else Some (duration_days 1)),
             ib_rejected_requests = 0, ib_first_seen_at = 0, ib_updated_at = 0\<rparr>])"

definition strict_store :: "nat \<Rightarrow> db \<Rightarrow> bool" where
  "strict_store n db \<longleftrightarrow>
     (\<exists>r. strict_hook_at r \<and> db_hooks db = [r]) \<and> db_accounts db = [] \<and> db_account_ids db = [] \<and>
     (\<forall>i. i \<in> set (map br_id (db_blocked db)) \<longrightarrow> (\<exists>m < n. i = of_nat m)) \<and> db_ip_blocks db = strict_blocks n"

lemma strict_count:
  assumes "n < 20" and "strict_store n db"
  shows "\<exists>outcome. record_unverified_request demo_time_crate (HookId 1) (V4 1) 0 db =
    Ok (outcome, db\<lparr>db_ip_blocks := strict_blocks (Suc n)\<rparr>)"
proof -
  have hook: "hr_id r = 1" if "strict_hook_at r" for r
    using that by (auto simp: strict_hook_at_def strict_row_def)
  have row: "block_row (HookId 1) (V4 1) r \<longleftrightarrow> ib_hook_id r = 1 \<and> ib_remote_ip r = V4 1" for r
    by (simp add: block_row_def)
  let ?s = "\<lparr>strikes = word_of_int (int n) :: 32 word, blocked_until = None\<rparr>"
  have next_state: "fst (record_unverified demo_time_crate 0 ?s) =
      \<lparr>strikes = (if Suc n < 20 then of_nat (Suc n) else 0),
       blocked_until = (if Suc n < 20 then None else Some (duration_days 1))\<rparr>"
  proof (cases "Suc n < 20")
    case True
    then show ?thesis using record_below [of ?s n 0 demo_time_crate] by simp
  next
    case False
    with assms(1) have "n = 19" by simp
    then show ?thesis using record_twentieth [of ?s demo_time_crate 0]
      by (simp add: demo_time_crate_def block_duration_def)
  qed
  have small: "uint (of_nat (Suc n) :: 32 word) = int (Suc n)" if "Suc n < 20"
    using that by (simp add: unsigned_of_nat take_bit_nat_eq_self del: of_nat_Suc)
  obtain out where step: "record_unverified demo_time_crate 0 ?s =
      (\<lparr>strikes = (if Suc n < 20 then of_nat (Suc n) else 0),
       blocked_until = (if Suc n < 20 then None else Some (duration_days 1))\<rparr>, out)"
    using next_state by (metis prod.collapse)
  define row where "row = \<lparr>ib_hook_id = 1, ib_remote_ip = V4 1, ib_strikes = int n, ib_blocked_until = None,
      ib_rejected_requests = 0, ib_first_seen_at = 0, ib_updated_at = 0\<rparr>"
  obtain r where r: "strict_hook_at r" "db_hooks db = [r]" and blocks: "db_ip_blocks db = strict_blocks n"
    using assms(2) by (auto simp: strict_store_def)
  have known: "\<not> (\<not> list_ex (block_row (HookId 1) (V4 1)) (db_ip_blocks db) \<and> hook_uuid (HookId 1) \<notin> set (map hr_id (db_hooks db)))"
    using r hook by simp
  have rows: "(if list_ex (block_row (HookId 1) (V4 1)) (db_ip_blocks db) then db_ip_blocks db
     else fresh_block_row (HookId 1) (V4 1) 0 # db_ip_blocks db) = [row]"
    using assms(1) by (cases "n = 0") (simp_all add: blocks strict_blocks_def block_row_def row_def fresh_block_row_def)
  have found: "find (block_row (HookId 1) (V4 1)) [row] = Some row" by (simp add: block_row_def row_def)
  have state: "block_state_of_row row = Ok ?s"
    using assms(1) by (simp add: block_state_of_row_def row_def)
  have stored: "rows_update (block_row (HookId 1) (V4 1))
      (count_row \<lparr>strikes = (if Suc n < 20 then of_nat (Suc n) else 0),
       blocked_until = (if Suc n < 20 then None else Some (duration_days 1))\<rparr> 0) [row] = strict_blocks (Suc n)"
    using small by (simp add: rows_update_def block_row_def strict_blocks_def count_row_def i32_max_def row_def)
  show ?thesis
    unfolding record_unverified_request_def if_not_P [OF known] Let_def rows found ok_or.simps and_then.simps state step
      prod.case stored by blast
qed

lemma strict_log:
  assumes "n < 20" and "strict_store n db"
  shows "\<exists>b db'. record_blocked_request strict_deps
      \<lparr>rb_id = BlockedRequestId (of_nat n), rb_hook = strict_hook\<lparr>hk_last_blocked_at := t\<rparr>, rb_reason = reason\<rparr>
      demo_captured (db\<lparr>db_ip_blocks := strict_blocks (Suc n)\<rparr>) = Ok (b, db') \<and>
      bk_hook_id b = HookId 1 \<and> strict_store (Suc n) db'"
proof -
  obtain r where r: "strict_hook_at r" "db_hooks db = [r]" using assms(2) by (auto simp: strict_store_def)
  have cols: "hr_id r = 1" "hr_disabled_at r = None" "hr_deleted_at r = None" "hr_created_at r = 0" "hr_updated_at r = 0"
    "hr_endpoint_rotated_at r = None" "hr_last_blocked_at r = None \<or> hr_last_blocked_at r = Some 0"
    using r(1) by (auto simp: strict_hook_at_def strict_row_def)
  have touched: "touch_blocked 0 r = strict_row\<lparr>hr_last_blocked_at := Some 0\<rparr>"
    using r(1) by (auto simp: strict_hook_at_def touch_blocked_def greatest_def strict_row_def)
  have again: "strict_hook_at (strict_row\<lparr>hr_last_blocked_at := Some 0\<rparr>)" by (auto simp: strict_hook_at_def)
  have upd: "update_hooks (serving_row 1) (touch_blocked 0) (db\<lparr>db_ip_blocks := strict_blocks (Suc n)\<rparr>) =
      Ok (1, db\<lparr>db_ip_blocks := strict_blocks (Suc n), db_hooks := [touch_blocked 0 r]\<rparr>)"
    using r(2) cols by (simp add: update_hooks_Ok rows_affected_def rows_update_def serving_row_def hook_check_def
        touch_blocked_def)
  have fresh: "of_nat n \<notin> set (map br_id (db_blocked db))"
  proof
    assume "of_nat n \<in> set (map br_id (db_blocked db))"
    then obtain m where "m < n" "of_nat n = (of_nat m :: 128 word)" using assms(2) unfolding strict_store_def by blast
    then show False using assms(1) by (simp add: of_nat_eq_iff [symmetric] word_of_nat_eq_iff take_bit_nat_eq_self)
  qed
  have id: "hk_id (strict_hook\<lparr>hk_last_blocked_at := t\<rparr>) = HookId 1" by (simp add: strict_hook_def)
  have less: "\<exists>m < Suc n. i = of_nat m" if "i = of_nat n \<or> i \<in> set (map br_id (db_blocked db))" for i :: uuid
    using that assms(2) unfolding strict_store_def by (metis lessI less_SucI)
  let ?b = "blocked_request_record (BlockedRequestId (of_nat n)) (strict_hook\<lparr>hk_last_blocked_at := t\<rparr>) demo_captured reason"
  have fields: "bk_id ?b = BlockedRequestId (of_nat n)" "bk_hook_id ?b = HookId 1" "bk_request ?b = demo_captured"
    using id by (simp_all add: blocked_request_record_def)
  have "record_blocked_request strict_deps
      \<lparr>rb_id = BlockedRequestId (of_nat n), rb_hook = strict_hook\<lparr>hk_last_blocked_at := t\<rparr>, rb_reason = reason\<rparr>
      demo_captured (db\<lparr>db_ip_blocks := strict_blocks (Suc n)\<rparr>) =
    Ok (?b, db\<lparr>db_ip_blocks := strict_blocks (Suc n), db_hooks := [touch_blocked 0 r],
        db_blocked := blocked_row_of demo_crates (touch_blocked 0 r) ?b # db_blocked db\<rparr>)"
    using upd fresh fields id touched demo_fits cols
    by (simp add: record_blocked_request_def Let_def insert_blocked_request_def strict_deps_sel blocked_row_of_def
        demo_captured_def strict_row_def)
  moreover have "strict_store (Suc n) (db\<lparr>db_ip_blocks := strict_blocks (Suc n), db_hooks := [touch_blocked 0 r],
        db_blocked := blocked_row_of demo_crates (touch_blocked 0 r) ?b # db_blocked db\<rparr>)"
    using assms(2) less again fields(1) unfolding strict_store_def touched by (auto simp: blocked_row_of_def)
  ultimately show ?thesis using fields(2) by blast
qed

lemma strict_door:
  assumes "strict_store n db" and "n < 20"
  shows "check_ip_block (HookId 1) (V4 1) 0 db = Ok (CheckAllowed, db)"
  using assms by (auto simp: strict_store_def check_ip_block_def strict_blocks_def block_row_def block_state_of_row_def check_def)

lemma strict_route:
  assumes "strict_store n db"
  obtains t where "t = None \<or> t = Some 0"
    and "route_request strict_app demo_receive 0 db = (Ok (strict_hook\<lparr>hk_last_blocked_at := t\<rparr>, 0), db)"
proof -
  obtain r where r: "strict_hook_at r" "db_hooks db = [r]" and other: "db_accounts db = []" "db_account_ids db = []"
    using assms by (auto simp: strict_store_def)
  then obtain t where t: "r = strict_row\<lparr>hr_last_blocked_at := t\<rparr>" "t = None \<or> t = Some 0" by (auto simp: strict_hook_at_def)
  have "resolve_endpoint strict_deps (lit ''8HV'') (EndpointKey (lit ''A0B1C2D3'')) 0 db =
      Ok (EndpointActive (strict_hook\<lparr>hk_last_blocked_at := t\<rparr>) 0)"
    using r(2) other t strict_reads [OF t(2)]
    by (simp add: resolve_endpoint_def path_matches_def owner_deleted_def seen_id_def)
      (simp add: strict_row_def strict_hook_def is_enabled_def)
  then show thesis using that t(2) by (simp add: route_request_Ok strict_app_sel demo_receive_def database_time_def)
qed

lemma strict_step:
  assumes "n < 20" and "strict_store n db"
  shows "\<exists>b db'. receive_request strict_app (demo_receive_ids (of_nat n)) 0 30 demo_receive db = (Ok (RequestBlocked b), db') \<and>
    bk_hook_id b = HookId 1 \<and> strict_store (Suc n) db'"
proof -
  obtain t where route: "route_request strict_app demo_receive 0 db = (Ok (strict_hook\<lparr>hk_last_blocked_at := t\<rparr>, 0), db)"
    using assms(2) by (rule strict_route)
  have url: "endpoint_url strict_app s k = Ok (cr_url_no_fragment demo_crates (lit ''https://hook/'', []))" for s k
    by (simp add: endpoint_url_def strict_app_sel demo_urls_def ap_crates_def strict_deps_sel)
  obtain reason where fails: "verify_request strict_app (strict_hook\<lparr>hk_last_blocked_at := t\<rparr>)
      (cr_url_no_fragment demo_crates (lit ''https://hook/'', [])) demo_captured = Err reason"
    using strict_fails by blast
  obtain out where count: "record_unverified_request demo_time_crate (HookId 1) (V4 1) 0 db =
      Ok (out, db\<lparr>db_ip_blocks := strict_blocks (Suc n)\<rparr>)" using strict_count [OF assms] by blast
  obtain b db' where log: "record_blocked_request strict_deps
      \<lparr>rb_id = BlockedRequestId (of_nat n), rb_hook = strict_hook\<lparr>hk_last_blocked_at := t\<rparr>, rb_reason = reason\<rparr>
      demo_captured (db\<lparr>db_ip_blocks := strict_blocks (Suc n)\<rparr>) = Ok (b, db')"
    and b: "bk_hook_id b = HookId 1" "strict_store (Suc n) db'" using strict_log [OF assms] by blast
  have fields: "hk_id (strict_hook\<lparr>hk_last_blocked_at := t\<rparr>) = HookId 1"
    "sp_required (hk_signing strict_hook)"
    "cap_remote_ip demo_captured = V4 1" "cap_received_at demo_captured = 0" "rq_remote_ip demo_receive = V4 1"
    by (simp_all add: strict_hook_def demo_captured_def demo_receive_def)
  have "receive_request strict_app (demo_receive_ids (of_nat n)) 0 30 demo_receive db = (Ok (RequestBlocked b), db')"
    using route strict_door [OF assms(2,1)] url demo_capture [of strict_app] fails count log
    by (simp add: receive_request_def app_bind_def transact_def attempt_def strict_app_sel strict_deps_sel demo_parts
        block_request_def demo_receive_ids_def fields ap_crates_def)
  with b show ?thesis by blast
qed

definition strict_deliveries :: "nat \<Rightarrow> nat \<Rightarrow> delivery list" where
  "strict_deliveries m n = map (\<lambda>k. (demo_receive_ids (of_nat k), 0, 30, demo_receive)) [m..<n]"

lemma strict_run:
  assumes "m + k = 20" and "strict_store m db"
  shows "\<exists>rs db'. receive_all strict_app (strict_deliveries m 20) db = (rs, db') \<and>
    list_all2 (withheld_from (HookId 1) (V4 1)) (strict_deliveries m 20) rs \<and> strict_store 20 db'"
  using assms
proof (induction k arbitrary: m db)
  case (Suc k)
  then have m: "m < 20" by simp
  then have ds: "strict_deliveries m 20 = (demo_receive_ids (of_nat m), 0, 30, demo_receive) # strict_deliveries (Suc m) 20"
    by (simp add: strict_deliveries_def upt_conv_Cons)
  obtain b db1 where one: "receive_request strict_app (demo_receive_ids (of_nat m)) 0 30 demo_receive db = (Ok (RequestBlocked b), db1)"
    "bk_hook_id b = HookId 1" "strict_store (Suc m) db1" using strict_step [OF m Suc.prems(2)] by blast
  obtain rs db' where "receive_all strict_app (strict_deliveries (Suc m) 20) db1 = (rs, db')"
    "list_all2 (withheld_from (HookId 1) (V4 1)) (strict_deliveries (Suc m) 20) rs" "strict_store 20 db'"
    using Suc.IH [OF _ one(3)] Suc.prems(1) by auto
  moreover have "withheld_from (HookId 1) (V4 1) (demo_receive_ids (of_nat m), 0, 30, demo_receive) (Ok (RequestBlocked b))"
    using one(2) by (simp add: withheld_from_def demo_receive_def)
  ultimately show ?case unfolding ds using one(1) by auto
qed (simp add: strict_deliveries_def)

lemma strict_stores: "strict_store 0 (demo_db\<lparr>db_hooks := [strict_row]\<rparr>)"
proof -
  have "strict_row = strict_row\<lparr>hr_last_blocked_at := None\<rparr>"
    by (simp add: strict_row_def demo_row_def insert_row_def Let_def)
  then show ?thesis
    by (auto simp: strict_store_def strict_hook_at_def demo_db_def empty_db_def strict_blocks_def)
qed

end
