(* ===== verification/IngressProps.thy ===== *)
theory IngressProps
  imports IngressDemo
begin

text \<open>
  Properties of public ingress: what a stored event proves about the request it came from, what a
  withheld request leaves behind, and that the table of addresses implements the counter of
  \<open>domain/safety.rs\<close>, so that twenty unverified requests close an endpoint to their address.
\<close>

text \<open>C1: an event in the delivery stream is evidence. When a request is answered as accepted, the
  endpoint belonged to an active hook, the address was not blocked, the stored request has the bytes
  and headers that were sent, and, if the hook requires signatures, one of the presented
  signatures is the tag of the configured payload under the hook's decrypted secret or is accepted
  by its public key.\<close>

theorem only_authenticated_requests_become_events:
  assumes "receive_request ap ids now clock c db = (Ok (RequestAccepted e), db')"
  shows "\<exists>h row url.
     row \<in> set (db_hooks db) \<and> hr_endpoint_key row = endpoint_key_str (rq_endpoint_key c) \<and>
     path_matches (rq_silicon_segment c) row db = Some True \<and> \<not> owner_deleted row db \<and>
     hook_of_row (ap_deps ap) row = Ok h \<and> hk_status h = Active \<and>
     check_ip_block (hk_id h) (rq_remote_ip c) (database_time now) db = Ok (CheckAllowed, db) \<and>
     endpoint_url ap (rq_silicon_segment c) (rq_endpoint_key c) = Ok url \<and>
     (sp_required (hk_signing h) \<longrightarrow> authenticated ap h url (ev_request e)) \<and>
     ev_id e = in_event ids \<and> ev_hook_id e = hk_id h \<and>
     cap_body (ev_request e) = rq_body c \<and>
     cap_headers (ev_request e) = map (\<lambda>(name, v). (to_ascii_lowercase name, v)) (rq_headers c) \<and>
     (\<exists>r. db_events db' = event_row_of (ap_crates ap) r e # db_events db)"
  using assms
proof (cases rule: receive_requestE)
  case (accepted h url request)
  note adm = \<open>admitted ap now c db h url request\<close>
  have acc: "accept_event (ap_deps ap) (ap_ting_crates ap) (in_send ids) clock
     \<lparr>av_delivery = (if ap_ting ap then Some (ap_app_id ap) else None), av_event = in_event ids, av_hook = h\<rparr>
     request db = Ok (e, db')"
    using accepted(3) by (rule accept_request_Ok)
  note stored = accept_event_stored [OF acc, simplified, folded ap_crates_def]
  from adm obtain row where "row \<in> set (db_hooks db)" "hr_endpoint_key row = endpoint_key_str (rq_endpoint_key c)"
    "path_matches (rq_silicon_segment c) row db = Some True" "\<not> owner_deleted row db"
    "hook_of_row (ap_deps ap) row = Ok h" "hk_status h = Active"
    unfolding admitted_def by (elim conjE resolve_endpoint_Active)
  moreover have "sp_required (hk_signing h) \<longrightarrow> authenticated ap h url request"
    using accepted(2) by (simp add: verify_request_Ok)
  ultimately show ?thesis
    using adm stored admitted_fields [OF adm] unfolding admitted_def by metis
next
  case (blocked h url request reason)
  then show ?thesis using block_request_not_accepted by blast
qed (use assms in simp)


text \<open>The table of addresses implements the counter of the domain. Recording an unverified request of
  an address steps that address of that hook exactly as \<open>record_unverified\<close> does, with its outcome,
  and no other; the check at the door answers what \<open>check\<close> answers and steps none.\<close>

theorem the_table_of_addresses_refines_the_counter:
  shows "(record_unverified_request tc i ip now db = Ok (outcome, db') \<longrightarrow>
      (abuse_state i ip db', outcome) = record_unverified tc now (abuse_state i ip db) \<and>
      (\<forall>j q. (j, q) \<noteq> (i, ip) \<longrightarrow> abuse_state j q db' = abuse_state j q db)) \<and>
    (check_ip_block i ip now db = Ok (checked, db') \<longrightarrow>
      checked = check (abuse_state i ip db) now \<and> (\<forall>j q. abuse_state j q db' = abuse_state j q db))"
proof (intro conjI impI)
  assume "record_unverified_request tc i ip now db = Ok (outcome, db')"
  then have "(abuse_state i ip db', outcome) = record_unverified tc now (abuse_state i ip db)"
    and "(j, q) \<noteq> (i, ip) \<Longrightarrow> abuse_state j q db' = abuse_state j q db" for j q
    by (rule record_unverified_refines)+
  then show "(abuse_state i ip db', outcome) = record_unverified tc now (abuse_state i ip db)"
    and "\<forall>j q. (j, q) \<noteq> (i, ip) \<longrightarrow> abuse_state j q db' = abuse_state j q db" by blast+
next
  assume "check_ip_block i ip now db = Ok (checked, db')"
  from check_ip_block_refines [OF this]
  show "checked = check (abuse_state i ip db) now" and "\<forall>j q. abuse_state j q db' = abuse_state j q db" by blast+
qed

text \<open>C20: Twenty unverified requests close an endpoint to their address. After a run in which twenty
  requests of one address to one hook were all withheld, whatever their paths, bodies and times,
  every further request of that address that is routed to the hook within a day of the twentieth is
  refused with the end of the block, and nothing but the counters changes; no other address and no
  other hook is affected by the run.\<close>

theorem twenty_withheld_requests_close_the_endpoint:
  assumes "time_adds (dp_time (ap_deps ap))" and "strikes (abuse_state i ip db) = 0"
    and "receive_all ap ds db = (rs, db')" and "length ds = 20" and "list_all2 (withheld_from i ip) ds rs"
    and "tc_checked_add (dp_time (ap_deps ap)) (received_at (last ds)) block_duration = Some until"
    and "route_request ap c now db' = (Ok (h, database_time now), db')" and "hk_id h = i" and "rq_remote_ip c = ip"
    and "database_time now < received_at (last ds) + duration_days 1"
    and "check_ip_block i ip (database_time now) db' = Ok (answer, db'')"
  shows "receive_request ap ids now clock c db' = (Err (IpBlocked (received_at (last ds) + duration_days 1)), db'') \<and>
    db'' = db'\<lparr>db_ip_blocks := db_ip_blocks db''\<rparr> \<and>
    (\<forall>j q. (j, q) \<noteq> (i, ip) \<longrightarrow> abuse_state j q db' = abuse_state j q db)"
proof -
  let ?tc = "dp_time (ap_deps ap)" and ?s = "abuse_state i ip db"
  have "ds \<noteq> []" using assms(4) by auto
  then have ds: "ds = butlast ds @ [last ds]" "length (butlast ds) = 19" "ds \<noteq> []" using assms(4) by simp_all
  then have "hd ds = hd (butlast ds)" by (metis hd_append2 list.size(3) zero_neq_numeral)
  moreover have "butlast ds \<noteq> []" by (metis ds(2) list.size(3) zero_neq_numeral)
  ultimately have first: "check ?s (hd (map received_at (butlast ds))) = CheckAllowed"
    using withheld_run [OF assms(3,5)] ds(3) by (simp add: hd_map)
  have "map received_at ds = map received_at (butlast ds) @ [received_at (last ds)]"
    by (subst (1) ds(1), simp)
  then have "check (abuse_state i ip db') (database_time now) = BlockedUntil (received_at (last ds) + duration_days 1)"
    using twenty_unverified_requests_block_for_one_day_parts(3)
      [OF assms(1,2) _ first assms(6), where now = "database_time now"] ds(2) assms(10)
      withheld_run [OF assms(3,5)] by simp
  then have "answer = BlockedUntil (received_at (last ds) + duration_days 1)"
    using check_ip_block_refines(1) [OF assms(11)] by simp
  then have "receive_request ap ids now clock c db' = (Err (IpBlocked (received_at (last ds) + duration_days 1)), db'')"
    using assms(7-9,11) by (simp add: receive_request_def app_bind_def transact_def)
  then show ?thesis
    using check_ip_block_tables [OF assms(11)] withheld_run [OF assms(3,5)] by blast
qed

section \<open>Witnesses\<close>

theorem only_authenticated_requests_become_events_witness:
  "\<exists>e db'. receive_request demo_app (demo_receive_ids 0) 0 30 demo_receive demo_db = (Ok (RequestAccepted e), db') \<and>
     cap_body (ev_request e) = [] \<and> ev_hook_id e = HookId 1"
proof -
  obtain e db' where run: "receive_request demo_app (demo_receive_ids 0) 0 30 demo_receive demo_db = (Ok (RequestAccepted e), db')"
    using demo_accepts by blast
  obtain h row where "row \<in> set (db_hooks demo_db)" "hook_of_row demo_deps row = Ok h" "ev_hook_id e = hk_id h"
      "cap_body (ev_request e) = rq_body demo_receive"
    using only_authenticated_requests_become_events [OF run] by (auto simp: demo_app_def)
  then show ?thesis using run by (auto simp: demo_db_def demo_receive_def)
qed


theorem twenty_withheld_requests_close_the_endpoint_witness:
  "\<exists>rs db' db''. receive_all strict_app (strict_deliveries 0 20) (demo_db\<lparr>db_hooks := [strict_row]\<rparr>) = (rs, db') \<and>
     receive_request strict_app (demo_receive_ids 20) 0 30 demo_receive db' = (Err (IpBlocked (duration_days 1)), db'')"
proof -
  obtain rs db' where run: "receive_all strict_app (strict_deliveries 0 20) (demo_db\<lparr>db_hooks := [strict_row]\<rparr>) = (rs, db')"
    and all: "list_all2 (withheld_from (HookId 1) (V4 1)) (strict_deliveries 0 20) rs" and store: "strict_store 20 db'"
    using strict_run [OF _ strict_stores] by auto
  obtain t where route: "route_request strict_app demo_receive 0 db' = (Ok (strict_hook\<lparr>hk_last_blocked_at := t\<rparr>, 0), db')"
    using store by (rule strict_route)
  have id: "hk_id (strict_hook\<lparr>hk_last_blocked_at := t\<rparr>) = HookId 1" by (simp add: strict_hook_def)
  have start: "strikes (abuse_state (HookId 1) (V4 1) (demo_db\<lparr>db_hooks := [strict_row]\<rparr>)) = 0"
    by (simp add: abuse_state_def demo_db_def empty_db_def default_block_state_def)
  have end_time: "received_at (last (strict_deliveries 0 20)) = 0"
    by (simp add: strict_deliveries_def received_at_def database_time_def last_map)
  have time: "dp_time (ap_deps strict_app) = demo_time_crate" by (simp add: strict_app_sel strict_deps_sel)
  have "\<exists>x. check_ip_block (HookId 1) (V4 1) 0 db' = Ok x"
    using store by (auto simp: strict_store_def check_ip_block_def strict_blocks_def block_state_of_row_def block_row_def)
  then obtain answer db'' where door: "check_ip_block (HookId 1) (V4 1) 0 db' = Ok (answer, db'')" by auto
  have "receive_request strict_app (demo_receive_ids 20) 0 30 demo_receive db' = (Err (IpBlocked (0 + duration_days 1)), db'')"
    using twenty_withheld_requests_close_the_endpoint [OF _ start run _ all, of "0 + block_duration" demo_receive 0
        "strict_hook\<lparr>hk_last_blocked_at := t\<rparr>" answer db'' "demo_receive_ids 20" 30]
      route id door end_time time
    by (simp add: database_time_def strict_deliveries_def demo_receive_def demo_time_crate_def [of] duration_days_def
        demo_time_adds [unfolded demo_time_crate_def])
  then show ?thesis using run by auto
qed

theorem the_table_of_addresses_refines_the_counter_witness:
  "\<exists>outcome db'. record_unverified_request demo_time_crate (HookId 1) (V4 1) 0 (demo_db\<lparr>db_hooks := [strict_row]\<rparr>) = Ok (outcome, db') \<and>
     (abuse_state (HookId 1) (V4 1) db', outcome) = record_unverified demo_time_crate 0 default_block_state \<and>
     abuse_state (HookId 2) (V4 1) db' = default_block_state"
proof -
  let ?db = "demo_db\<lparr>db_hooks := [strict_row]\<rparr>"
  obtain outcome db' where run: "record_unverified_request demo_time_crate (HookId 1) (V4 1) 0 ?db = Ok (outcome, db')"
    using strict_count [OF _ strict_stores] by auto
  have fresh: "abuse_state i ip ?db = default_block_state" for i ip
    by (simp add: abuse_state_def demo_db_def empty_db_def)
  have "(abuse_state (HookId 1) (V4 1) db', outcome) = record_unverified demo_time_crate 0 (abuse_state (HookId 1) (V4 1) ?db)"
    and "(HookId 2, V4 1) \<noteq> (HookId 1, V4 1) \<longrightarrow> abuse_state (HookId 2) (V4 1) db' = abuse_state (HookId 2) (V4 1) ?db"
    using the_table_of_addresses_refines_the_counter [of demo_time_crate "HookId 1" "V4 1" 0 ?db outcome db'] run by blast+
  then show ?thesis using run fresh by simp
qed

end
