(* ===== verification/History.thy ===== *)
theory History
  imports Application Paging
begin

text \<open>
  The history use cases (\<open>application/history.rs\<close>): one event, and pages of verified or blocked
  requests, with the boundary of a page handed out as an authenticated cursor. At the end, a reader
  who follows the cursors of the pages until there is none.
\<close>

definition history_event ::
  "('u, 'k, 'z) hook_application \<Rightarrow> authorization_context \<Rightarrow> event_id \<Rightarrow> instant \<Rightarrow> 'u event_record app" where
  "history_event ap a i clock =
     app_bind (give (authorize_action a ReadEvents)) (\<lambda>_.
     app_bind (query (get_event (ap_deps ap) (sr_uuid (ac_silicon a)) i clock)) (\<lambda>found.
       give (ok_or ResourceNotFound found)))"

definition history_request ::
  "('u, 'k, 'z) hook_application \<Rightarrow> list_history_command \<Rightarrow> history_collection \<Rightarrow>
    (history_page_request \<times> history_cursor_scope, application_error) result" where
  "history_request ap c collection =
     and_then (authorize_action (lh_authorization c) ReadEvents) (\<lambda>_.
     let silicon_uuid = sr_uuid (ac_silicon (lh_authorization c)) in
     if lh_limit c = 0 \<or> max_history_limit < lh_limit c then Err (Validation ''limit'')
     else
       (let flt = \<lparr>hf_hook_id = lh_hook_id c\<rparr>;
            scope = \<lparr>hs_silicon = silicon_uuid, hs_collection = collection, hs_filter = flt\<rparr> in
        and_then
          (map_err (\<lambda>_. Validation ''cursor'')
            (transpose_opt (map_option (cursor_decode (dp_crypto (ap_deps ap)) (ap_cursor_key ap) scope) (lh_cursor c))))
          (\<lambda>cursor.
            Ok (\<lparr>hp_silicon_uuid = silicon_uuid, hp_filter = flt, hp_cursor = cursor, hp_limit = lh_limit c\<rparr>, scope))))"

definition encode_page ::
  "('u, 'k, 'z) hook_application \<Rightarrow> 'a list \<Rightarrow> history_cursor option \<Rightarrow> history_cursor_scope \<Rightarrow>
    ('a history_page, application_error) result" where
  "encode_page ap items next_cursor scope =
     map_ok (\<lambda>c. \<lparr>pg_items = items, pg_next_cursor = c\<rparr>)
       (map_err (\<lambda>e. Internal (CursorFault e))
         (transpose_opt (map_option (cursor_encode (dp_crypto (ap_deps ap)) (ap_cursor_key ap) scope) next_cursor)))"

definition history_events ::
  "('u, 'k, 'z) hook_application \<Rightarrow> instant \<Rightarrow> list_history_command \<Rightarrow> 'u event_record history_page app" where
  "history_events ap clock c =
     app_bind (give (history_request ap c Events)) (\<lambda>(request, scope).
     app_bind (query (list_events (ap_deps ap) request clock)) (\<lambda>(items, next_cursor).
       give (encode_page ap items next_cursor scope)))"

definition history_blocked_requests ::
  "('u, 'k, 'z) hook_application \<Rightarrow> instant \<Rightarrow> list_history_command \<Rightarrow> 'u blocked_request history_page app" where
  "history_blocked_requests ap clock c =
     app_bind (give (history_request ap c BlockedRequests)) (\<lambda>(request, scope).
     app_bind (query (list_blocked_requests (ap_deps ap) request clock)) (\<lambda>(items, next_cursor).
       give (encode_page ap items next_cursor scope)))"

section \<open>Following the cursors\<close>

text \<open>The client: the same query again with the cursor of the last page, until a page has none.\<close>

fun follow_cursors ::
  "nat \<Rightarrow> (list_history_command \<Rightarrow> 'a history_page app) \<Rightarrow> list_history_command \<Rightarrow> db \<Rightarrow> ('a list, application_error) result" where
  "follow_cursors 0 fetch c db = Ok []"
| "follow_cursors (Suc n) fetch c db =
     and_then (fst (fetch c db)) (\<lambda>page.
       case pg_next_cursor page of
         None \<Rightarrow> Ok (pg_items page)
       | Some t \<Rightarrow> map_ok (append (pg_items page)) (follow_cursors n fetch (c\<lparr>lh_cursor := Some t\<rparr>) db))"

text \<open>Each of these boundaries can be written as a cursor that the codec reads back.\<close>

definition cursors_usable ::
  "('u, 'k, 'z) hook_application \<Rightarrow> history_cursor_scope \<Rightarrow> history_cursor set \<Rightarrow> bool" where
  "cursors_usable ap scope boundaries \<longleftrightarrow>
     hmac_law (dp_crypto (ap_deps ap)) \<and> base64url_law (dp_crypto (ap_deps ap)) \<and>
     (\<forall>b \<in> boundaries. claims_round_trip (dp_crypto (ap_deps ap)) scope b \<and>
        (\<exists>t. cursor_encode (dp_crypto (ap_deps ap)) (ap_cursor_key ap) scope b = Ok t \<and> str_len t \<le> max_cursor_bytes))"

lemma usable_cursor:
  assumes "cursors_usable ap scope boundaries" and "b \<in> boundaries"
  obtains t where "cursor_encode (dp_crypto (ap_deps ap)) (ap_cursor_key ap) scope b = Ok t"
    and "cursor_decode (dp_crypto (ap_deps ap)) (ap_cursor_key ap) scope t = Ok b"
  using assms cursors_round_trip_parts(1) unfolding cursors_usable_def by metis

definition scope_of :: "list_history_command \<Rightarrow> history_collection \<Rightarrow> history_cursor_scope" where
  "scope_of c collection =
     \<lparr>hs_silicon = sr_uuid (ac_silicon (lh_authorization c)), hs_collection = collection,
      hs_filter = \<lparr>hf_hook_id = lh_hook_id c\<rparr>\<rparr>"

text \<open>A page of the store behind a page of the application.\<close>

definition page_through ::
  "('u, 'k, 'z) hook_application \<Rightarrow> history_collection \<Rightarrow>
    (history_cursor option \<Rightarrow> ('a list \<times> history_cursor option, store_error) result) \<Rightarrow> list_history_command \<Rightarrow>
    ('a history_page, application_error) result" where
  "page_through ap collection fetch c =
     and_then (history_request ap c collection) (\<lambda>(request, scope).
       and_then (map_err map_store_error (fetch (hp_cursor request))) (\<lambda>(items, b). encode_page ap items b scope))"

lemma history_request_Ok:
  assumes "authorize_action (lh_authorization c) ReadEvents = Ok ()" and "0 < lh_limit c" and "lh_limit c \<le> max_history_limit"
    and "transpose_opt (map_option (cursor_decode (dp_crypto (ap_deps ap)) (ap_cursor_key ap) (scope_of c collection))
          (lh_cursor c)) = Ok b"
  shows "history_request ap c collection =
    Ok (event_request (sr_uuid (ac_silicon (lh_authorization c))) \<lparr>hf_hook_id = lh_hook_id c\<rparr> b (lh_limit c),
        scope_of c collection)"
  using assms by (simp add: history_request_def scope_of_def event_request_def Let_def)

lemma follow_cursors_read_all:
  assumes usable: "cursors_usable ap (scope_of c collection) boundaries"
    and within: "\<And>b items b'. fetch (sr_uuid (ac_silicon (lh_authorization c))) (lh_hook_id c) (lh_limit c) b = Ok (items, Some b') \<Longrightarrow>
      b' \<in> boundaries"
    and ok: "authorize_action (lh_authorization c) ReadEvents = Ok ()" "0 < lh_limit c" "lh_limit c \<le> max_history_limit"
    and fetch: "\<And>c'. fst (app c' db) =
      page_through ap collection (\<lambda>b. fetch (sr_uuid (ac_silicon (lh_authorization c'))) (lh_hook_id c') (lh_limit c') b) c'"
  shows "transpose_opt (map_option (cursor_decode (dp_crypto (ap_deps ap)) (ap_cursor_key ap) (scope_of c collection))
          (lh_cursor c)) = Ok b \<Longrightarrow>
    follow_cursors n app c db =
      map_err map_store_error (read_all n (fetch (sr_uuid (ac_silicon (lh_authorization c))) (lh_hook_id c) (lh_limit c)) b)"
  using ok usable within
proof (induction n arbitrary: c b)
  case (Suc n)
  let ?fetch = "fetch (sr_uuid (ac_silicon (lh_authorization c))) (lh_hook_id c) (lh_limit c)"
  have page: "fst (app c db) =
      and_then (map_err map_store_error (?fetch b)) (\<lambda>(items, b). encode_page ap items b (scope_of c collection))"
    using Suc.prems by (simp add: fetch page_through_def history_request_Ok event_request_def)
  show ?case
  proof (cases "?fetch b")
    case (Ok p)
    obtain items next_b where p: "p = (items, next_b)" by fastforce
    show ?thesis
    proof (cases next_b)
      case None
      with page Ok p show ?thesis by (simp add: encode_page_def)
    next
      case (Some b')
      obtain t where t: "cursor_encode (dp_crypto (ap_deps ap)) (ap_cursor_key ap) (scope_of c collection) b' = Ok t"
        "cursor_decode (dp_crypto (ap_deps ap)) (ap_cursor_key ap) (scope_of c collection) t = Ok b'"
        using Suc.prems(5) Suc.prems(6) [OF Ok [unfolded p Some]] by (rule usable_cursor)
      have scope: "scope_of (c\<lparr>lh_cursor := Some t\<rparr>) collection = scope_of c collection" by (simp add: scope_of_def)
      have "follow_cursors n app (c\<lparr>lh_cursor := Some t\<rparr>) db = map_err map_store_error (read_all n ?fetch (Some b'))"
        using Suc.IH [of "c\<lparr>lh_cursor := Some t\<rparr>" "Some b'"] Suc.prems t(2) by (simp add: scope)
      with page Ok p Some t(1) show ?thesis
        by (cases "read_all n ?fetch (Some b')") (simp_all add: encode_page_def)
    qed
  qed (use page in simp)
qed simp

lemma history_request_shape:
  "history_request ap c collection = Ok (q, scope) \<Longrightarrow>
     q = event_request (sr_uuid (ac_silicon (lh_authorization c))) \<lparr>hf_hook_id = lh_hook_id c\<rparr> (hp_cursor q) (lh_limit c) \<and>
     0 < lh_limit c \<and> lh_limit c \<le> max_history_limit \<and> scope = scope_of c collection"
  by (auto simp: history_request_def Let_def result_simps event_request_def scope_of_def split: if_splits)

lemma history_events_page:
  "fst (history_events ap clock c db) =
     page_through ap Events (\<lambda>b. list_events (ap_deps ap)
       (event_request (sr_uuid (ac_silicon (lh_authorization c))) \<lparr>hf_hook_id = lh_hook_id c\<rparr> b (lh_limit c)) clock db) c"
proof (cases "history_request ap c Events")
  case (Ok p)
  obtain q scope where p: "p = (q, scope)" by fastforce
  then have "list_events (ap_deps ap) q clock db = list_events (ap_deps ap)
      (event_request (sr_uuid (ac_silicon (lh_authorization c))) \<lparr>hf_hook_id = lh_hook_id c\<rparr> (hp_cursor q) (lh_limit c)) clock db"
    using history_request_shape Ok by metis
  then show ?thesis
    by (auto simp: history_events_def page_through_def Ok p app_bind_def query_def split: result.split prod.split)
qed (simp add: history_events_def page_through_def)

lemma history_blocked_page:
  "fst (history_blocked_requests ap clock c db) =
     page_through ap BlockedRequests (\<lambda>b. list_blocked_requests (ap_deps ap)
       (event_request (sr_uuid (ac_silicon (lh_authorization c))) \<lparr>hf_hook_id = lh_hook_id c\<rparr> b (lh_limit c)) clock db) c"
proof (cases "history_request ap c BlockedRequests")
  case (Ok p)
  obtain q scope where p: "p = (q, scope)" by fastforce
  then have "list_blocked_requests (ap_deps ap) q clock db = list_blocked_requests (ap_deps ap)
      (event_request (sr_uuid (ac_silicon (lh_authorization c))) \<lparr>hf_hook_id = lh_hook_id c\<rparr> (hp_cursor q) (lh_limit c)) clock db"
    using history_request_shape Ok by metis
  then show ?thesis
    by (auto simp: history_blocked_requests_def page_through_def Ok p app_bind_def query_def split: result.split prod.split)
qed (simp add: history_blocked_requests_def page_through_def)

text \<open>The boundaries a page of the logs can end at.\<close>

lemma list_events_boundary:
  assumes "0 < limit" and "limit \<le> max_history_limit"
    and "list_events dp (event_request su f c limit) clock db = Ok (xs, Some b)"
  shows "b \<in> cursor_of ` event_key ` set (db_events db)"
proof -
  let ?rest = "descending event_key (filter (\<lambda>r. before_cursor c (event_key r)) (readable_events su f clock db))"
  obtain k where "event_log.page su f clock db (\<lambda>r. estimated_response_bytes (dp_crates dp) (er_capture r)) (event_of_row dp) limit c =
      map_ok (\<lambda>xs. (xs, if k < length ?rest then Some (cursor_of (event_key (?rest ! (k - 1)))) else None))
        (collect_map (event_of_row dp) (take k ?rest))"
    by (rule event_log.page_eq [OF refl assms(1)])
  with assms have k: "k < length ?rest" "b = cursor_of (event_key (?rest ! (k - 1)))"
    by (auto simp: list_events_page result_simps split: if_splits)
  then have "?rest ! (k - 1) \<in> set ?rest" by (intro nth_mem) simp
  then have "?rest ! (k - 1) \<in> set (db_events db)" by (simp add: descending_def readable_events_def)
  with k(2) show ?thesis by blast
qed

lemma list_blocked_boundary:
  assumes "0 < limit" and "limit \<le> max_history_limit"
    and "list_blocked_requests dp (event_request su f c limit) clock db = Ok (xs, Some b)"
  shows "b \<in> cursor_of ` blocked_key ` set (db_blocked db)"
proof -
  let ?rest = "descending blocked_key (filter (\<lambda>r. before_cursor c (blocked_key r)) (readable_blocked su f clock db))"
  obtain k where "blocked_log.page su f clock db (\<lambda>r. estimated_response_bytes (dp_crates dp) (br_capture r)) (blocked_of_row dp) limit c =
      map_ok (\<lambda>xs. (xs, if k < length ?rest then Some (cursor_of (blocked_key (?rest ! (k - 1)))) else None))
        (collect_map (blocked_of_row dp) (take k ?rest))"
    by (rule blocked_log.page_eq [OF refl assms(1)])
  with assms have k: "k < length ?rest" "b = cursor_of (blocked_key (?rest ! (k - 1)))"
    by (auto simp: list_blocked_page result_simps split: if_splits)
  then have "?rest ! (k - 1) \<in> set ?rest" by (intro nth_mem) simp
  then have "?rest ! (k - 1) \<in> set (db_blocked db)" by (simp add: descending_def readable_blocked_def)
  with k(2) show ?thesis by blast
qed

end
