(* ===== verification/LogProps.thy ===== *)
theory LogProps
  imports StoreDemo EventFacts
begin

text \<open>
  Properties of the logs: paging gives every record once within the limits of a page, and a request
  that is captured may still not fit the columns it is stored in.
\<close>

section \<open>Pages\<close>

definition page_ok :: "nat \<Rightarrow> ('r \<Rightarrow> nat) \<Rightarrow> ('r \<Rightarrow> ('x, store_error) result) \<Rightarrow> 'r list \<Rightarrow> 'x list \<Rightarrow> bool" where
  "page_ok limit weight conv rows xs \<longleftrightarrow>
     (\<exists>k. list_all2 (\<lambda>r x. conv r = Ok x) (take k rows) xs \<and> length xs \<le> limit \<and>
       (length xs \<le> 1 \<or> foldl saturating_add 0 (map weight (take k rows)) \<le> history_page_byte_budget))"

definition row_weight :: "('u, 'k, 'z) deps \<Rightarrow> capture_row \<Rightarrow> nat" where
  "row_weight dp c = estimated_response_bytes (dp_crates dp) c"

text \<open>Reading the history page by page gives every record once. For any limit between 1 and 10,000, a
  reader who follows the boundary of each page until there is none gets exactly the retained
  records of the hooks the Silicon still has, newest first, each once (or the error of the first
  row that cannot be read), for verified events and for blocked requests alike. Every page on the
  way has at most the limit of records, starts with the newest that is left, and stays within the
  byte budget unless it holds a single record.\<close>

theorem pages_give_every_record_once:
  assumes "distinct (map er_id (db_events db))" and "distinct (map br_id (db_blocked db))"
    and "0 < limit" and "limit \<le> max_history_limit" and "length (db_events db) < n" and "length (db_blocked db) < n"
  shows "read_all n (\<lambda>c. list_events dp (event_request su f c limit) clock db) None =
      collect_map (event_of_row dp) (descending event_key (readable_events su f clock db)) \<and>
    read_all n (\<lambda>c. list_blocked_requests dp (event_request su f c limit) clock db) None =
      collect_map (blocked_of_row dp) (descending blocked_key (readable_blocked su f clock db)) \<and>
    (\<forall>c xs b. list_events dp (event_request su f c limit) clock db = Ok (xs, b) \<longrightarrow>
      page_ok limit (row_weight dp \<circ> er_capture) (event_of_row dp)
        (event_history (event_request su f c limit) clock db) xs) \<and>
    (\<forall>c xs b. list_blocked_requests dp (event_request su f c limit) clock db = Ok (xs, b) \<longrightarrow>
      page_ok limit (row_weight dp \<circ> br_capture) (blocked_of_row dp)
        (blocked_history (event_request su f c limit) clock db) xs)"
proof (intro conjI allI impI)
  have "distinct (map event_key (readable_events su f clock db))"
    using assms(1) by (intro distinct_keys) (simp add: readable_events_def event_key_def [abs_def] comp_def distinct_map_filter)
  moreover have "length (readable_events su f clock db) < n"
    using assms(5) by (simp add: readable_events_def le_less_trans [OF length_filter_le])
  ultimately show "read_all n (\<lambda>c. list_events dp (event_request su f c limit) clock db) None =
      collect_map (event_of_row dp) (descending event_key (readable_events su f clock db))"
    unfolding list_events_page [OF assms(3,4)] by (intro event_log.every_record_once assms(3))
next
  have "distinct (map blocked_key (readable_blocked su f clock db))"
    using assms(2) by (intro distinct_keys) (simp add: readable_blocked_def blocked_key_def [abs_def] comp_def distinct_map_filter)
  moreover have "length (readable_blocked su f clock db) < n"
    using assms(6) by (simp add: readable_blocked_def le_less_trans [OF length_filter_le])
  ultimately show "read_all n (\<lambda>c. list_blocked_requests dp (event_request su f c limit) clock db) None =
      collect_map (blocked_of_row dp) (descending blocked_key (readable_blocked su f clock db))"
    unfolding list_blocked_page [OF assms(3,4)] by (intro blocked_log.every_record_once assms(3))
next
  fix c xs b
  assume "list_events dp (event_request su f c limit) clock db = Ok (xs, b)"
  from event_log.page_bounds [OF this [unfolded list_events_page [OF assms(3,4)]]]
  show "page_ok limit (row_weight dp \<circ> er_capture) (event_of_row dp) (event_history (event_request su f c limit) clock db) xs"
    by (simp add: page_ok_def row_weight_def comp_def)
next
  fix c xs b
  assume "list_blocked_requests dp (event_request su f c limit) clock db = Ok (xs, b)"
  from blocked_log.page_bounds [OF this [unfolded list_blocked_page [OF assms(3,4)]]]
  show "page_ok limit (row_weight dp \<circ> br_capture) (blocked_of_row dp) (blocked_history (event_request su f c limit) clock db) xs"
    by (simp add: page_ok_def row_weight_def comp_def)
qed

definition demo_capture :: "instant \<Rightarrow> capture_row" where
  "demo_capture at =
     \<lparr>cw_method = lit ''POST'', cw_url = lit ''https://h/'', cw_path = lit ''/'', cw_query_string = [],
      cw_headers = JArray [], cw_content_type = None, cw_body = [], cw_remote_ip = V4 2130706433, cw_received_at = at\<rparr>"

definition demo_event_row :: "uuid \<Rightarrow> instant \<Rightarrow> int \<Rightarrow> event_row" where
  "demo_event_row i at n =
     \<lparr>er_id = i, er_hook_id = 1, er_silicon_id = lit ''8HV'', er_silicon_uuid = Some (lit ''8HV''),
      er_provider = lit ''GitHub'', er_summary = lit ''GitHub at noon'', er_sequence = n,
      er_capture = demo_capture at, er_expires_at = at + 100\<rparr>"

definition demo_log :: db where
  "demo_log = demo_db\<lparr>db_events := [demo_event_row 7 10 1, demo_event_row 8 20 2]\<rparr>"

definition demo_all :: history_filter where
  "demo_all = \<lparr>hf_hook_id = None\<rparr>"

theorem pages_give_every_record_once_witness:
  "read_all 5 (\<lambda>c. list_events demo_deps (event_request demo_silicon demo_all c 1) 30 demo_log) None =
     collect_map (event_of_row demo_deps) [demo_event_row 8 20 2, demo_event_row 7 10 1]"
proof -
  have rows: "db_events demo_log = [demo_event_row 7 10 1, demo_event_row 8 20 2]" "db_blocked demo_log = []"
    "db_hooks demo_log = [demo_row]"
    by (simp_all add: demo_log_def demo_db_def empty_db_def)
  have "readable_events demo_silicon demo_all 30 demo_log = [demo_event_row 7 10 1, demo_event_row 8 20 2]"
    by (simp add: readable_events_def rows visible_def event_request_def demo_all_def readable_hook_def demo_event_row_def
        demo_silicon_def)
  moreover have "descending event_key [demo_event_row 7 10 1, demo_event_row 8 20 2] = [demo_event_row 8 20 2, demo_event_row 7 10 1]"
    by (simp add: descending_def event_key_def demo_event_row_def demo_capture_def)
  ultimately show ?thesis
    using pages_give_every_record_once [of demo_log 1 5 demo_deps demo_silicon demo_all 30] rows
    by (simp add: demo_event_row_def max_history_limit_def)
qed

section \<open>Columns\<close>

lemma length_upper: "length (to_ascii_uppercase s) = length s"
  by (simp add: to_ascii_uppercase_def)

lemma unfit_is_not_accepted:
  assumes "capture_check ''events'' (bind_capture (dp_crates dp) request) \<noteq> None"
  shows "\<exists>e. accept_event dp tg new_id clock c request db = Err e"
proof (cases "accept_event dp tg new_id clock c request db")
  case (Ok out)
  obtain e db' where out: "out = (e, db')" by fastforce
  from Ok [unfolded out] obtain db2 db3 where e: "e = event_accept (dp_jiff dp) (av_event c) (av_hook c) request (ev_sequence e)"
    and ins: "insert_event (dp_crates dp) e db2 = Ok db3"
    by (rule accept_eventE)
  have "ev_request e = request" by (subst e) (simp add: event_accept_def Let_def)
  with ins assms show ?thesis by (auto elim: insert_event_Ok)
qed simp

lemma unfit_is_not_recorded:
  assumes "capture_check ''blocked_requests'' (bind_capture (dp_crates dp) request) \<noteq> None"
  shows "\<exists>e. record_blocked_request dp c request db = Err e"
proof (cases "record_blocked_request dp c request db")
  case (Ok out)
  then obtain db1 db2 where "insert_blocked_request (dp_crates dp)
      (blocked_request_record (rb_id c) (rb_hook c) request (rb_reason c)) db1 = Ok db2"
    by (auto simp: record_blocked_request_def Let_def result_simps split: if_splits)
  with assms show ?thesis
    by (auto simp: insert_blocked_request_def Let_def blocked_row_of_def blocked_request_record_def
        split: option.splits if_splits)
qed simp

text \<open>C39: A request can pass capture and still have no place in the logs. Capture bounds the body and the
  headers, not the columns: a request whose method is longer than 32 characters is captured, but
  neither accepting nor recording it as blocked can succeed, in any state of the store. The provider
  is answered with a server error instead of a refusal, and an unverified request of this kind
  leaves no record. The same holds for a long path, query, URL or media type.\<close>

theorem captured_requests_can_exceed_the_columns:
  assumes "captured_new p = Ok request" and "32 < length (rp_method p)"
  shows "(\<exists>e. accept_event dp tg new_id clock c request db = Err e) \<and>
    (\<exists>e. record_blocked_request dp rc request db = Err e)"
proof -
  have "length (cap_method request) = length (rp_method p)"
    using captured_new_fields(1) [OF assms(1)] by (simp add: length_upper)
  then have "capture_check tbl (bind_capture (dp_crates dp) request) \<noteq> None" for tbl
    using assms(2) by (simp add: capture_check_def bind_capture_def)
  then show ?thesis using unfit_is_not_accepted unfit_is_not_recorded by blast
qed

definition long_method :: "(ustring \<times> pairs) request_parts" where
  "long_method =
     \<lparr>rp_method = replicate 33 65, rp_url = (lit ''https://hook/'', []), rp_headers = [], rp_body = [],
      rp_remote_ip = V4 1, rp_received_at = 0\<rparr>"

theorem captured_requests_can_exceed_the_columns_witness:
  "\<exists>request. captured_new long_method = Ok request \<and>
     (\<exists>e. record_blocked_request demo_deps
        \<lparr>rb_id = BlockedRequestId 3, rb_hook = stored_hook, rb_reason = block_reason_material_unavailable []\<rparr> request demo_db = Err e)"
proof -
  have "\<exists>request. captured_new long_method = Ok request"
    unfolding captured_new_Ok
    by (simp add: long_method_def method_ok_def utf8_def utf8_char_def max_body_bytes_def max_header_count_def
        max_header_bytes_def header_size_def concat_replicate_single list_all_iff)
      (simp add: is_token_byte_def char_class_defs)
  then obtain request where request: "captured_new long_method = Ok request" by blast
  then show ?thesis
    using captured_requests_can_exceed_the_columns [OF request] by (fastforce simp: long_method_def)
qed

end
