(* ===== verification/HistoryProps.thy ===== *)
theory HistoryProps
  imports History LogProps IngressDemo
begin

text \<open>
  The history as a caller sees it: following the cursors of the pages shows every record once, and a
  cursor continues no other listing than the one it came from.
\<close>

lemma foreign_cursor_refused:
  assumes "cursors_usable ap scope boundaries" and "b \<in> boundaries"
    and "cursor_encode (dp_crypto (ap_deps ap)) (ap_cursor_key ap) scope b = Ok t"
    and "scope_of c collection \<noteq> scope" and "0 < lh_limit c" and "lh_limit c \<le> max_history_limit" and "lh_cursor c = Some t"
  shows "history_request ap c collection = Err (Validation ''cursor'')"
proof -
  have "str_len t \<le> max_cursor_bytes"
    using assms(1-3) unfolding cursors_usable_def by (metis result.inject(1))
  then have "cursor_decode (dp_crypto (ap_deps ap)) (ap_cursor_key ap) (scope_of c collection) t = Err CursorScopeMismatch"
    using assms cursors_round_trip_parts(2) unfolding cursors_usable_def by blast
  then show ?thesis
    using assms(5-7) by (simp add: history_request_def authorize_action_def reading_def Let_def scope_of_def)
qed

lemma page_cursor:
  assumes "fst (history_events ap clock c db) = Ok page" and "pg_next_cursor page = Some t"
  obtains b where "b \<in> cursor_of ` event_key ` set (db_events db)"
    and "cursor_encode (dp_crypto (ap_deps ap)) (ap_cursor_key ap) (scope_of c Events) b = Ok t"
proof -
  obtain q scope items b where q: "history_request ap c Events = Ok (q, scope)"
    and l: "list_events (ap_deps ap) (event_request (sr_uuid (ac_silicon (lh_authorization c))) \<lparr>hf_hook_id = lh_hook_id c\<rparr>
        (hp_cursor q) (lh_limit c)) clock db = Ok (items, b)"
    and e: "encode_page ap items b scope = Ok page"
    using assms(1) unfolding history_events_page page_through_def and_then_Ok_iff map_err_Ok_iff case_prod_beta
    by (metis prod.collapse)
  obtain b' where b': "b = Some b'" "cursor_encode (dp_crypto (ap_deps ap)) (ap_cursor_key ap) scope b' = Ok t"
    using e assms(2) by (cases b) (auto simp: encode_page_def result_simps)
  from history_request_shape [OF q] have shape: "scope = scope_of c Events" "0 < lh_limit c" "lh_limit c \<le> max_history_limit"
    by auto
  have "b' \<in> cursor_of ` event_key ` set (db_events db)"
    by (rule list_events_boundary [OF shape(2,3) l [unfolded b'(1)]])
  then show thesis using that b'(2) shape(1) by simp
qed

text \<open>C18: The history shows every record once. For any query with a limit between 1 and 10,000, a
  caller who sends it again with the cursor of each page until a page has none gets exactly the
  retained records of the hooks the Silicon still has, newest first, each once, for verified events
  and for blocked requests alike. A cursor given out for one listing is refused for any other
  Silicon or hook filter, and by the blocked log.\<close>

theorem following_cursors_shows_every_record_once:
  assumes "distinct (map er_id (db_events db))" and "distinct (map br_id (db_blocked db))"
    and "0 < lh_limit c" and "lh_limit c \<le> max_history_limit" and "lh_cursor c = None"
    and "length (db_events db) < n" and "length (db_blocked db) < n"
    and "cursors_usable ap (scope_of c Events) (cursor_of ` event_key ` set (db_events db))"
    and "cursors_usable ap (scope_of c BlockedRequests) (cursor_of ` blocked_key ` set (db_blocked db))"
  shows "follow_cursors n (history_events ap clock) c db =
      map_err map_store_error (collect_map (event_of_row (ap_deps ap))
        (descending event_key (readable_events (hs_silicon (scope_of c Events)) (hs_filter (scope_of c Events)) clock db))) \<and>
    follow_cursors n (history_blocked_requests ap clock) c db =
      map_err map_store_error (collect_map (blocked_of_row (ap_deps ap))
        (descending blocked_key (readable_blocked (hs_silicon (scope_of c Events)) (hs_filter (scope_of c Events)) clock db))) \<and>
    (\<forall>page t c' db'. fst (history_events ap clock c db) = Ok page \<longrightarrow> pg_next_cursor page = Some t \<longrightarrow>
      lh_cursor c' = Some t \<longrightarrow> 0 < lh_limit c' \<longrightarrow> lh_limit c' \<le> max_history_limit \<longrightarrow>
      (scope_of c' Events \<noteq> scope_of c Events \<longrightarrow>
        history_events ap clock c' db' = (Err (Validation ''cursor''), db')) \<and>
      history_blocked_requests ap clock c' db' = (Err (Validation ''cursor''), db'))"
proof (intro conjI allI impI)
  have ok: "authorize_action (lh_authorization c) ReadEvents = Ok ()"
    by (simp add: authorize_action_def reading_def)
  have start: "transpose_opt (map_option (cursor_decode (dp_crypto (ap_deps ap)) (ap_cursor_key ap) (scope_of c k)) (lh_cursor c)) = Ok None" for k
    by (simp add: assms(5))
  let ?su = "sr_uuid (ac_silicon (lh_authorization c))" and ?f = "\<lparr>hf_hook_id = lh_hook_id c\<rparr>"
  note pages = pages_give_every_record_once [OF assms(1,2,3,4,6,7), of "ap_deps ap" ?su ?f clock]
  have "follow_cursors n (history_events ap clock) c db =
      map_err map_store_error (read_all n (\<lambda>b. list_events (ap_deps ap) (event_request ?su ?f b (lh_limit c)) clock db) None)"
    by (rule follow_cursors_read_all [where fetch = "\<lambda>su i l b. list_events (ap_deps ap) (event_request su \<lparr>hf_hook_id = i\<rparr> b l) clock db" and app = "history_events ap clock",
          OF assms(8) _ ok assms(3,4) history_events_page start])
      (rule list_events_boundary [OF assms(3,4)])
  with pages show "follow_cursors n (history_events ap clock) c db =
      map_err map_store_error (collect_map (event_of_row (ap_deps ap))
        (descending event_key (readable_events (hs_silicon (scope_of c Events)) (hs_filter (scope_of c Events)) clock db)))"
    by (simp add: scope_of_def)
  have "follow_cursors n (history_blocked_requests ap clock) c db =
      map_err map_store_error (read_all n (\<lambda>b. list_blocked_requests (ap_deps ap) (event_request ?su ?f b (lh_limit c)) clock db) None)"
    by (rule follow_cursors_read_all [where fetch = "\<lambda>su i l b. list_blocked_requests (ap_deps ap) (event_request su \<lparr>hf_hook_id = i\<rparr> b l) clock db" and app = "history_blocked_requests ap clock",
          OF assms(9) _ ok assms(3,4) history_blocked_page start])
      (rule list_blocked_boundary [OF assms(3,4)])
  with pages show "follow_cursors n (history_blocked_requests ap clock) c db =
      map_err map_store_error (collect_map (blocked_of_row (ap_deps ap))
        (descending blocked_key (readable_blocked (hs_silicon (scope_of c Events)) (hs_filter (scope_of c Events)) clock db)))"
    by (simp add: scope_of_def)
next
  fix page t and c' :: list_history_command and db'
  assume page: "fst (history_events ap clock c db) = Ok page" "pg_next_cursor page = Some t"
    and c': "lh_cursor c' = Some t" "0 < lh_limit c'" "lh_limit c' \<le> max_history_limit"
  obtain b where b: "b \<in> cursor_of ` event_key ` set (db_events db)"
      "cursor_encode (dp_crypto (ap_deps ap)) (ap_cursor_key ap) (scope_of c Events) b = Ok t"
    using page by (rule page_cursor)
  note refused = foreign_cursor_refused [OF assms(8) b _ c'(2,3,1)]
  show "history_events ap clock c' db' = (Err (Validation ''cursor''), db')" if "scope_of c' Events \<noteq> scope_of c Events"
    using refused [OF that] by (simp add: history_events_def)
  have "scope_of c' BlockedRequests \<noteq> scope_of c Events" by (simp add: scope_of_def)
  from refused [OF this] show "history_blocked_requests ap clock c' db' = (Err (Validation ''cursor''), db')"
    by (simp add: history_blocked_requests_def)
qed

section \<open>Witness\<close>

definition demo_authorization :: authorization_context where
  "demo_authorization =
     \<lparr>ac_actor = \<lparr>actor_uuid = AccountUuid (lit ''b97''), actor_kind_of = Carbon, actor_public_id = None,
                  actor_scope = [], actor_token_family = None\<rparr>,
      ac_silicon = \<lparr>sr_uuid = demo_silicon, sr_id = None\<rparr>, ac_access = Grant View\<rparr>"

definition demo_listing :: list_history_command where
  "demo_listing = \<lparr>lh_authorization = demo_authorization, lh_hook_id = None, lh_limit = 1, lh_cursor = None\<rparr>"

text \<open>A codec that can write the two boundaries of the log.\<close>

definition demo_boundary :: "nat \<Rightarrow> cursor_claims" where
  "demo_boundary n =
     cursor_claims_of (scope_of demo_listing Events)
       (if n = 0 then \<lparr>hc_received_at = 10, hc_id = 7\<rparr> else \<lparr>hc_received_at = 20, hc_id = 8\<rparr>)"

definition listing_crypto :: crypto_crates where
  "listing_crypto = demo_crypto
     \<lparr>cc_claims_vec := (\<lambda>cl. Some (if cl = demo_boundary 0 then [0] else [1])),
      cc_claims_parse := (\<lambda>p. Some (demo_boundary (if p = [0] then 0 else 1))),
      cc_from_unix_nanos := (\<lambda>n. Some n)\<rparr>"

definition listing_app :: "(ustring \<times> pairs, bytes, unit) hook_application" where
  "listing_app = demo_app\<lparr>ap_deps := demo_deps\<lparr>dp_crypto := listing_crypto\<rparr>\<rparr>"

lemma listing_usable:
  "cursors_usable listing_app (scope_of demo_listing Events) (cursor_of ` event_key ` set (db_events demo_log))"
proof -
  have cc: "dp_crypto (ap_deps listing_app) = listing_crypto" by (simp add: listing_app_def)
  have keys: "cursor_of ` event_key ` set (db_events demo_log) =
      {\<lparr>hc_received_at = 10, hc_id = 7\<rparr>, \<lparr>hc_received_at = 20, hc_id = 8\<rparr>}"
    by (simp add: demo_log_def event_key_def demo_event_row_def demo_capture_def cursor_of_def)
  have laws: "hmac_law listing_crypto" "base64url_law listing_crypto"
    using demo_cursor_laws(1,2) by (simp_all add: hmac_law_def base64url_law_def listing_crypto_def)
  have two: "demo_boundary 1 \<noteq> demo_boundary 0" by (simp add: demo_boundary_def cursor_claims_of_def)
  have short: "str_len (demo_encode ([w] @ replicate 32 1)) \<le> max_cursor_bytes" for w
    using str_len_le [of "demo_encode ([w] @ replicate 32 1)"] by (simp add: max_cursor_bytes_def demo_encode_def)
  show ?thesis
    using laws two short
    unfolding cursors_usable_def cc keys
    by (auto simp: claims_round_trip_def cursor_encode_def cursor_authenticate_def listing_crypto_def demo_crypto_def
        demo_boundary_def)
qed

lemma demo_readable:
  "readable_events demo_silicon \<lparr>hf_hook_id = None\<rparr> 30 demo_log = [demo_event_row 7 10 1, demo_event_row 8 20 2]"
proof -
  have "db_events demo_log = [demo_event_row 7 10 1, demo_event_row 8 20 2]" "db_hooks demo_log = [demo_row]"
    by (simp_all add: demo_log_def demo_db_def empty_db_def)
  then show ?thesis
    by (simp add: readable_events_def visible_def event_request_def readable_hook_def demo_event_row_def demo_silicon_def)
qed

text \<open>The pages of one record each that the log has, and the records of its rows.\<close>

lemma demo_page:
  assumes "descending event_key (filter (\<lambda>r. before_cursor c (event_key r)) [demo_event_row 7 10 1, demo_event_row 8 20 2]) = r # rest"
    and "event_of_row dp r = Ok e"
  shows "list_events dp (event_request demo_silicon \<lparr>hf_hook_id = None\<rparr> c 1) 30 demo_log =
    Ok ([e], if rest = [] then None else Some (cursor_of (event_key r)))"
proof -
  have left: "r # rest = descending event_key (filter (\<lambda>r. before_cursor c (event_key r))
      (readable_events demo_silicon \<lparr>hf_hook_id = None\<rparr> 30 demo_log))"
    using assms(1) by (simp add: demo_readable)
  obtain k where "k \<le> 1" "k \<le> length (r # rest)" "r # rest \<noteq> [] \<longrightarrow> 0 < k"
    "event_log.page demo_silicon \<lparr>hf_hook_id = None\<rparr> 30 demo_log
       (\<lambda>r. estimated_response_bytes (dp_crates dp) (er_capture r)) (event_of_row dp) 1 c =
      map_ok (\<lambda>xs. (xs, if k < length (r # rest) then Some (cursor_of (event_key ((r # rest) ! (k - 1)))) else None))
        (collect_map (event_of_row dp) (take k (r # rest)))"
    by (rule event_log.page_eq [OF left, of 1]) (simp, blast)
  moreover from this have "k = 1" by simp
  ultimately show ?thesis
    using assms(2) by (simp add: list_events_page [of 1, simplified] max_history_limit_def)
qed

lemma demo_event:
  assumes "0 < n" and "n < 2 ^ 63"
  shows "\<exists>e. event_of_row (demo_deps\<lparr>dp_crypto := listing_crypto\<rparr>) (demo_event_row i at n) = Ok e \<and> ev_id e = EventId i"
proof -
  have "is_ok (silicon_id_new (lit ''8HV''))" "is_ok (optional_uuid demo_uuid_crate (Some (lit ''8HV'')) ''event'')"
    "is_ok (hook_name_new (lit ''GitHub''))"
    by code_simp+
  moreover have post: "lit ''POST'' \<noteq> []" "list_all is_token_byte (utf8 (lit ''POST''))" by code_simp+
  moreover have "is_ok (delivery_sequence_new n)" using assms by (simp add: delivery_sequence_new_def)
  moreover have "is_ok (into_request demo_crates ''event'' (demo_capture at))"
    using post by (simp add: into_request_def demo_capture_def demo_crates_def captured_new_def header_bytes_def max_header_bytes_def)
  ultimately show ?thesis
    by (auto simp: event_of_row_def demo_event_row_def demo_deps_def elim!: is_ok.elims)
qed

text \<open>Two records over two pages: the first page holds the newer one and a cursor, the second the older.\<close>

theorem following_cursors_shows_every_record_once_witness:
  "\<exists>a b t. ev_id a = EventId 8 \<and> ev_id b = EventId 7 \<and>
     fst (history_events listing_app 30 demo_listing demo_log) = Ok \<lparr>pg_items = [a], pg_next_cursor = Some t\<rparr> \<and>
     fst (history_events listing_app 30 (demo_listing\<lparr>lh_cursor := Some t\<rparr>) demo_log) = Ok \<lparr>pg_items = [b], pg_next_cursor = None\<rparr> \<and>
     follow_cursors 5 (history_events listing_app 30) demo_listing demo_log = Ok [a, b]"
proof -
  let ?dp = "demo_deps\<lparr>dp_crypto := listing_crypto\<rparr>" and ?c8 = "\<lparr>hc_received_at = 20, hc_id = 8\<rparr>"
  obtain a b where a: "event_of_row ?dp (demo_event_row 8 20 2) = Ok a" "ev_id a = EventId 8"
    and b: "event_of_row ?dp (demo_event_row 7 10 1) = Ok b" "ev_id b = EventId 7"
    using demo_event [of 2 8 20] demo_event [of 1 7 10] by auto
  have rows: "db_events demo_log = [demo_event_row 7 10 1, demo_event_row 8 20 2]" "db_blocked demo_log = []"
    by (simp_all add: demo_log_def demo_db_def empty_db_def)
  have keys: "event_key (demo_event_row i at n) = (at, i)" for i at n
    by (simp add: event_key_def demo_event_row_def demo_capture_def)
  have dp: "ap_deps listing_app = ?dp" by (simp add: listing_app_def)
  have listing: "lh_limit demo_listing = 1" "lh_hook_id demo_listing = None" "lh_cursor demo_listing = None"
    "sr_uuid (ac_silicon (lh_authorization demo_listing)) = demo_silicon"
    "authorize_action (lh_authorization demo_listing) ReadEvents = Ok ()"
    by (simp_all add: demo_listing_def demo_authorization_def authorize_action_def reading_def)
  have scope: "scope_of (demo_listing\<lparr>lh_cursor := x\<rparr>) Events = scope_of demo_listing Events" for x by (simp add: scope_of_def)
  have "?c8 \<in> cursor_of ` event_key ` set (db_events demo_log)" by (simp add: rows keys cursor_of_def)
  from usable_cursor [OF listing_usable this] obtain t where
    t: "cursor_encode (dp_crypto (ap_deps listing_app)) (ap_cursor_key listing_app) (scope_of demo_listing Events) ?c8 = Ok t"
      "cursor_decode (dp_crypto (ap_deps listing_app)) (ap_cursor_key listing_app) (scope_of demo_listing Events) t = Ok ?c8" .
  have down: "descending event_key [demo_event_row 7 10 1, demo_event_row 8 20 2] = [demo_event_row 8 20 2, demo_event_row 7 10 1]"
    by (simp add: descending_def keys)
  have pages: "list_events ?dp (event_request demo_silicon \<lparr>hf_hook_id = None\<rparr> None 1) 30 demo_log = Ok ([a], Some ?c8)"
    "list_events ?dp (event_request demo_silicon \<lparr>hf_hook_id = None\<rparr> (Some ?c8) 1) 30 demo_log = Ok ([b], None)"
    using demo_page [of None "demo_event_row 8 20 2" "[demo_event_row 7 10 1]", OF _ a(1)] down
      demo_page [of "Some ?c8" "demo_event_row 7 10 1" "[]", OF _ b(1)]
    by (simp_all add: before_cursor_def keys cursor_of_def descending_def)
  have one: "(0::nat) < 1" "1 \<le> max_history_limit" by (simp_all add: max_history_limit_def)
  have "fst (history_events listing_app 30 demo_listing demo_log) = Ok \<lparr>pg_items = [a], pg_next_cursor = Some t\<rparr>"
    using pages(1) t(1) one
    by (simp add: history_events_page page_through_def history_request_Ok [where b = None] listing dp event_request_def encode_page_def)
  moreover have "fst (history_events listing_app 30 (demo_listing\<lparr>lh_cursor := Some t\<rparr>) demo_log) = Ok \<lparr>pg_items = [b], pg_next_cursor = None\<rparr>"
    using pages(2) t(2) one
    by (simp add: history_events_page page_through_def history_request_Ok [where b = "Some ?c8"] listing dp scope event_request_def encode_page_def)
  moreover have "follow_cursors 5 (history_events listing_app 30) demo_listing demo_log = Ok [a, b]"
  proof -
    have ids: "distinct (map er_id (db_events demo_log))" by (simp add: rows demo_event_row_def)
    have none: "cursors_usable listing_app s (cursor_of ` blocked_key ` set (db_blocked demo_log))" for s
      using listing_usable by (simp add: cursors_usable_def rows)
    have hs: "hs_silicon (scope_of demo_listing Events) = demo_silicon" "hs_filter (scope_of demo_listing Events) = \<lparr>hf_hook_id = None\<rparr>"
      by (simp_all add: scope_of_def listing)
    show ?thesis
      using following_cursors_shows_every_record_once [OF ids _ _ _ _ _ _ listing_usable none, of 5 30] rows one a(1) b(1)
      by (simp add: listing hs dp demo_readable down)
  qed
  ultimately show ?thesis using a(2) b(2) by blast
qed

end
