(* ===== verification/HookUseCases.thy ===== *)
theory HookUseCases
  imports Application
begin

text \<open>
  The lifecycle use cases (\<open>application/hooks.rs\<close>): listing, reading, creating, updating, deleting,
  activating, restoring, rotating the secret and the endpoint, and preparing the hook that receives
  the Silicon's own account events. What an attempt draws (identifiers, a generated key, a nonce) and
  the clock are arguments; a generated value stands for what its constructor returned.
\<close>

section \<open>Commands\<close>

record create_hook_request =
  cq_context :: management_context
  cq_name :: hook_name
  cq_description :: "hook_description option"
  cq_time_zone :: hook_time_zone
  cq_signing :: signing_patch

record hook_mutation_request =
  mq_context :: management_context
  mq_hook_id :: hook_id

record delete_hook_request =
  dq_authorization :: authorization_context
  dq_hook_id :: hook_id
  dq_request_id :: "ustring option"

record update_hook_request =
  uq_authorization :: authorization_context
  uq_hook_id :: hook_id
  uq_patch :: hook_patch
  uq_request_id :: "ustring option"

record set_hooks_enabled_request =
  sq_authorization :: authorization_context
  sq_hook_ids :: "hook_id list"
  sq_enabled :: bool
  sq_request_id :: "ustring option"

record connect_accounts_hook_request =
  aq_context :: management_context

text \<open>What one attempt draws.\<close>

record attempt_draw =
  dw_hook_id :: hook_id
  dw_endpoint_key :: "(endpoint_key, entropy_error) result"
  dw_nonce :: "bytes option"
  dw_audit_id :: uuid

definition endpoint_generation_attempts :: nat where
  "endpoint_generation_attempts = 16"

definition accounts_hook_name :: ustring where
  "accounts_hook_name = lit ''Silicon Accounts''"

definition accounts_hook_description :: ustring where
  "accounts_hook_description = lit ''Silicon Accounts updates about this Silicon''"

definition accounts_payload_expression :: ustring where
  "accounts_payload_expression =
     lit ''concat(request.headers[\"x-accounts-timestamp\"], \".\", request.raw_body)''"

definition accounts_signature_expression :: ustring where
  "accounts_signature_expression = lit ''request.headers[\"x-accounts-signature\"]''"

section \<open>Digests of requests\<close>

definition canonical_digest :: "('u, 'k, 'z) hook_application \<Rightarrow> bytes option \<Rightarrow> (bytes, application_error) result" where
  "canonical_digest ap canonical =
     map_ok (cr_digest (ap_crates ap) HashSha256) (ok_or (Internal JsonFault) canonical)"

definition create_hook_request_digest ::
  "('u, 'k, 'z) hook_application \<Rightarrow> hook_name \<Rightarrow> hook_description option \<Rightarrow> hook_time_zone \<Rightarrow> signing_input \<Rightarrow>
    (bytes, application_error) result" where
  "create_hook_request_digest ap name description time_zone signing =
     canonical_digest ap (cs_create_vec (ap_canonical ap)
       \<lparr>cn_name = hook_name_str name, cn_description = map_option hook_description_str description,
        cn_time_zone = time_zone_str time_zone, cn_signature_required = si_required signing,
        cn_signature = si_config signing,
        cn_secret_digest = map_option
          (\<lambda>s. cr_hex_encode (ap_crates ap) (cr_digest (ap_crates ap) HashSha256 (utf8 (signing_secret_str s))))
          (si_secret signing)\<rparr>)"

definition connect_accounts_request_digest ::
  "('u, 'k, 'z) hook_application \<Rightarrow> account_uuid \<Rightarrow> (bytes, application_error) result" where
  "connect_accounts_request_digest ap silicon_uuid =
     canonical_digest ap (cs_connect_vec (ap_canonical ap) (account_uuid_str silicon_uuid))"

definition empty_request_digest :: "('u, 'k, 'z) hook_application \<Rightarrow> bytes" where
  "empty_request_digest ap = cr_digest (ap_crates ap) HashSha256 []"

section \<open>Signing policies\<close>

definition validate_secret_encoding ::
  "'u crates \<Rightarrow> secret_encoding \<Rightarrow> signing_secret \<Rightarrow> (unit, application_error) result" where
  "validate_secret_encoding cr enc secret =
     map_ok (\<lambda>_. ())
       (map_err (\<lambda>e. ValidationDetailed ''signature'' (secret_decode_error_text e))
         (secret_decode cr enc (signing_secret_str secret)))"

definition validate_signing_input ::
  "('u, 'k, 'z) hook_application \<Rightarrow> signing_input \<Rightarrow> (unit, application_error) result" where
  "validate_signing_input ap input =
     and_then
       (map_err (\<lambda>e. ValidationDetailed ''signature'' (config_error_text e))
         (config_validate (ap_crates ap) (dp_keys (ap_deps ap)) (si_config input))) (\<lambda>_.
     if si_secret input \<noteq> None \<and> is_asymmetric (sc_algorithm (si_config input))
     then Err (ValidationDetailed ''signature''
            (lit ''asymmetric algorithms verify with a public key and take no secret''))
     else
       (case si_secret input of
          Some secret \<Rightarrow> validate_secret_encoding (ap_crates ap) (sc_secret_encoding (si_config input)) secret
        | None \<Rightarrow> Ok ()))"

definition generate_signing_secret ::
  "'u crates \<Rightarrow> (signing_secret, entropy_error) result \<Rightarrow> secret_encoding \<Rightarrow> (signing_secret, application_error) result" where
  "generate_signing_secret cr generated enc =
     and_then (map_err (\<lambda>_. Internal EntropyFault) generated) (\<lambda>secret.
       let bytes = utf8 (signing_secret_str secret) in
       case enc of
         SecHex \<Rightarrow> map_err (\<lambda>e. Internal (DomainFault e)) (signing_secret_from_text (cr_hex_encode cr bytes))
       | SecBase64 \<Rightarrow> map_err (\<lambda>e. Internal (DomainFault e)) (signing_secret_from_text (cr_base64_encode cr STANDARD bytes))
       | SecBase64Url \<Rightarrow>
           map_err (\<lambda>e. Internal (DomainFault e)) (signing_secret_from_text (cr_base64_encode cr URL_SAFE_NO_PAD bytes))
       | _ \<Rightarrow> Ok secret)"

definition encrypt_secret ::
  "('u, 'k, 'z) hook_application \<Rightarrow> bytes option \<Rightarrow> hook_id \<Rightarrow> signing_secret \<Rightarrow> (encrypted_secret, application_error) result" where
  "encrypt_secret ap nonce i secret =
     map_err (\<lambda>e. Internal (CipherFault e)) (secret_encrypt (dp_crypto (ap_deps ap)) (ap_keyring ap) nonce i secret)"

definition decrypt_secret ::
  "('u, 'k, 'z) hook_application \<Rightarrow> hook_id \<Rightarrow> encrypted_secret \<Rightarrow> (signing_secret, application_error) result" where
  "decrypt_secret ap i encrypted =
     map_err (\<lambda>e. Internal (CipherFault e)) (secret_decrypt (dp_crypto (ap_deps ap)) (ap_keyring ap) i encrypted)"

text \<open>The secret of an updated policy: a supplied one, or the stored one if it fits the encoding.\<close>

definition effective_secret ::
  "('u, 'k, 'z) hook_application \<Rightarrow> bytes option \<Rightarrow> hook_id \<Rightarrow> signing_input \<Rightarrow> signing_policy \<Rightarrow>
    (encrypted_secret option, application_error) result" where
  "effective_secret ap nonce i input existing =
     (if is_asymmetric (sc_algorithm (si_config input)) then Ok None
      else
        (case si_secret input of
           Some secret \<Rightarrow> map_ok Some (encrypt_secret ap nonce i secret)
         | None \<Rightarrow>
             (case sp_encrypted_secret existing of
                Some encrypted \<Rightarrow>
                  if uses_secret (sc_algorithm (si_config input)) \<and>
                     sc_secret_encoding (si_config input) \<noteq> sc_secret_encoding (sp_config existing)
                  then
                    and_then (decrypt_secret ap i encrypted) (\<lambda>secret.
                      map_ok (\<lambda>_. Some encrypted)
                        (validate_secret_encoding (ap_crates ap) (sc_secret_encoding (si_config input)) secret))
                  else Ok (Some encrypted)
              | None \<Rightarrow> Ok None)))"

definition signing_policy_of ::
  "('u, 'k, 'z) hook_application \<Rightarrow> bytes option \<Rightarrow> hook_id \<Rightarrow> signing_input \<Rightarrow> signing_policy \<Rightarrow>
    (signing_policy, application_error) result" where
  "signing_policy_of ap nonce i input existing =
     and_then (effective_secret ap nonce i input existing) (\<lambda>encrypted.
       if si_required input \<and> uses_secret (sc_algorithm (si_config input)) \<and> encrypted = None
       then Err (ValidationDetailed ''signature''
              (lit ''supply a secret or rotate the signing secret before requiring signatures''))
       else Ok \<lparr>sp_required = si_required input, sp_config = si_config input, sp_encrypted_secret = encrypted\<rparr>)"

definition accounts_signing_input :: "(signing_input, application_error) result" where
  "accounts_signing_input =
     map_err (\<lambda>e. Internal (ParseFault e))
       (and_then (expression_parse accounts_payload_expression) (\<lambda>payload.
        and_then (expression_parse accounts_signature_expression) (\<lambda>signature.
          Ok \<lparr>si_required = True,
              si_config = \<lparr>sc_algorithm = HmacSha256, sc_payload = payload, sc_signature = signature,
                sc_signature_encoding = SigHex, sc_secret_encoding = SecUtf8, sc_public_key = None\<rparr>,
              si_secret = None\<rparr>)))"

section \<open>Reading\<close>

definition hooks_list ::
  "('u, 'k, 'z) hook_application \<Rightarrow> instant \<Rightarrow> authorization_context \<Rightarrow> bool \<Rightarrow> hook list app" where
  "hooks_list ap now a include_deleted =
     app_bind (give (authorize_action a ListHooks)) (\<lambda>_.
       query (list_hooks (ap_deps ap) (sr_uuid (ac_silicon a)) include_deleted (database_time now)))"

text \<open>\<open>get_hook\<close> of the store, with a hook that is not there as an error.\<close>

definition load_hook :: "('u, 'k, 'z) hook_application \<Rightarrow> authorization_context \<Rightarrow> hook_id \<Rightarrow> hook app" where
  "load_hook ap a i =
     app_bind (query (get_hook (ap_deps ap) (sr_uuid (ac_silicon a)) i)) (\<lambda>found.
       give (ok_or ResourceNotFound found))"

definition hooks_get ::
  "('u, 'k, 'z) hook_application \<Rightarrow> instant \<Rightarrow> authorization_context \<Rightarrow> hook_id \<Rightarrow> hook app" where
  "hooks_get ap now a i =
     app_bind (give (authorize_action a ReadHook)) (\<lambda>_.
     app_bind (load_hook ap a i) (\<lambda>h.
       give (if is_retained_at (dp_time (ap_deps ap)) (database_time now) h then Ok h else Err ResourceNotFound)))"

definition load_for_mutation ::
  "('u, 'k, 'z) hook_application \<Rightarrow> authorization_context \<Rightarrow> hook_id \<Rightarrow> action \<Rightarrow> hook app" where
  "load_for_mutation ap a i act =
     app_bind (give (authorize_action a ReadHook)) (\<lambda>_.
     app_bind (load_hook ap a i) (\<lambda>h.
     app_bind (give (authorize_action a act)) (\<lambda>_. give (Ok h))))"

section \<open>Creating\<close>

record create_hook_parts =
  cp_silicon_uuid :: account_uuid
  cp_name :: hook_name
  cp_description :: "hook_description option"
  cp_time_zone :: hook_time_zone
  cp_signing :: signing_input
  cp_actor :: actor_ref
  cp_idempotency_key :: ustring
  cp_request_digest :: bytes
  cp_request_id :: "ustring option"
  cp_is_accounts_default :: bool

definition secret_result_from_replay ::
  "('u, 'k, 'z) hook_application \<Rightarrow> hook \<Rightarrow> persisted_response \<Rightarrow> (hook_with_secret, application_error) result" where
  "secret_result_from_replay ap h response =
     map_ok (\<lambda>s. \<lparr>hw_hook = h, hw_signing_secret = s\<rparr>)
       (transpose_opt (map_option (decrypt_secret ap (hk_id h)) (pr_encrypted_secret response)))"

definition create_scope :: "create_hook_parts \<Rightarrow> idempotency_scope" where
  "create_scope p =
     \<lparr>is_operation = lit (if cp_is_accounts_default p then ''hook.accounts.connect'' else ''hook.create''),
      is_actor = cp_actor p, is_target_id = account_uuid_str (cp_silicon_uuid p),
      is_key = cp_idempotency_key p, is_request_digest = cp_request_digest p\<rparr>"

definition attempted_hook ::
  "create_hook_parts \<Rightarrow> instant \<Rightarrow> hook_id \<Rightarrow> endpoint_key \<Rightarrow> encrypted_secret option \<Rightarrow> hook" where
  "attempted_hook p now i key encrypted =
     hook_create
       \<lparr>nh_id = i, nh_silicon_id = silicon_id_from_account (cp_silicon_uuid p),
        nh_silicon_uuid = cp_silicon_uuid p, nh_name = cp_name p, nh_description = cp_description p,
        nh_endpoint_key = key,
        nh_signing = \<lparr>sp_required = si_required (cp_signing p), sp_config = si_config (cp_signing p),
          sp_encrypted_secret = encrypted\<rparr>,
        nh_time_zone = cp_time_zone p, nh_created_by = cp_actor p, nh_created_at = now\<rparr>"

definition attempted_command ::
  "create_hook_parts \<Rightarrow> instant \<Rightarrow> hook_id \<Rightarrow> endpoint_key \<Rightarrow> encrypted_secret option \<Rightarrow> instant option \<Rightarrow> create_hook_command" where
  "attempted_command p now i key encrypted replay_until =
     \<lparr>ch_hook = attempted_hook p now i key encrypted,
      ch_is_accounts_default = cp_is_accounts_default p,
      ch_idempotency = create_scope p,
      ch_response = \<lparr>pr_status = 201, pr_resource_id = Some i, pr_encrypted_secret = encrypted,
        pr_secret_replay_until = replay_until\<rparr>,
      ch_audit = \<lparr>at_actor = cp_actor p, at_request_id = cp_request_id p\<rparr>,
      ch_recorded_at = now\<rparr>"

definition create_attempt ::
  "('u, 'k, 'z) hook_application \<Rightarrow> create_hook_parts \<Rightarrow> instant \<Rightarrow> signing_secret option \<Rightarrow> attempt_draw \<Rightarrow>
    (create_hook_outcome, store_error) result app" where
  "create_attempt ap p now secret d =
     app_bind (give (map_err (\<lambda>_. Internal EntropyFault) (dw_endpoint_key d))) (\<lambda>key.
     app_bind (give (transpose_opt (map_option (encrypt_secret ap (dw_nonce d) (dw_hook_id d)) secret))) (\<lambda>encrypted.
     app_bind (give (transpose_opt (map_option (\<lambda>_. secret_replay_until (dp_time (ap_deps ap)) now) encrypted)))
       (\<lambda>replay_until.
       attempt (create_hook (ap_deps ap) (dw_audit_id d)
         (attempted_command p now (dw_hook_id d) key encrypted replay_until)))))"

fun create_attempts ::
  "('u, 'k, 'z) hook_application \<Rightarrow> create_hook_parts \<Rightarrow> instant \<Rightarrow> signing_secret option \<Rightarrow> attempt_draw list \<Rightarrow>
    hook_with_secret app" where
  "create_attempts ap p now secret [] =
     give (Err (Internal (FaultText ''endpoint key collision budget exhausted'')))"
| "create_attempts ap p now secret (d # ds) =
     app_bind (create_attempt ap p now secret d) (\<lambda>outcome.
       case outcome of
         Ok (HookCreated h) \<Rightarrow> give (Ok \<lparr>hw_hook = h, hw_signing_secret = secret\<rparr>)
       | Ok (CreateReplayed h response) \<Rightarrow> give (secret_result_from_replay ap h response)
       | Err EndpointKeyConflict \<Rightarrow> create_attempts ap p now secret ds
       | Err e \<Rightarrow> give (Err (map_store_error e)))"

definition initial_secret ::
  "'u crates \<Rightarrow> (signing_secret, entropy_error) result \<Rightarrow> signing_input \<Rightarrow> (signing_secret option, application_error) result" where
  "initial_secret cr generated signing =
     (if \<not> uses_secret (sc_algorithm (si_config signing)) then Ok None
      else
        (case si_secret signing of
           Some secret \<Rightarrow> Ok (Some secret)
         | None \<Rightarrow> map_ok Some (generate_signing_secret cr generated (sc_secret_encoding (si_config signing)))))"

definition create_hook_inner ::
  "('u, 'k, 'z) hook_application \<Rightarrow> (nat \<Rightarrow> attempt_draw) \<Rightarrow> (signing_secret, entropy_error) result \<Rightarrow> instant \<Rightarrow>
    create_hook_parts \<Rightarrow> hook_with_secret app" where
  "create_hook_inner ap draws generated now p =
     app_bind (give (initial_secret (ap_crates ap) generated (cp_signing p))) (\<lambda>secret.
       create_attempts ap p (database_time now) secret (map draws [0..<endpoint_generation_attempts]))"

definition hooks_create ::
  "('u, 'k, 'z) hook_application \<Rightarrow> (nat \<Rightarrow> attempt_draw) \<Rightarrow> (signing_secret, entropy_error) result \<Rightarrow> instant \<Rightarrow>
    create_hook_request \<Rightarrow> hook_with_secret app" where
  "hooks_create ap draws generated now c =
     (let a = mc_authorization (cq_context c);
          signing = signing_patch_resolve (cq_signing c) default_config True in
      app_bind (give (authorize_action a CreateHook)) (\<lambda>_.
      app_bind (give (validate_signing_input ap signing)) (\<lambda>_.
      app_bind (give (create_hook_request_digest ap (cq_name c) (cq_description c) (cq_time_zone c) signing))
        (\<lambda>request_digest.
        create_hook_inner ap draws generated now
          \<lparr>cp_silicon_uuid = sr_uuid (ac_silicon a), cp_name = cq_name c, cp_description = cq_description c,
           cp_time_zone = cq_time_zone c, cp_signing = signing, cp_actor = actor_reference a,
           cp_idempotency_key = mc_idempotency_key (cq_context c), cp_request_digest = request_digest,
           cp_request_id = mc_request_id (cq_context c), cp_is_accounts_default = False\<rparr>))))"

section \<open>Updating, deleting and activating\<close>

definition set_one_enabled ::
  "('u, 'k, 'z) hook_application \<Rightarrow> (nat \<Rightarrow> uuid) \<Rightarrow> instant \<Rightarrow> update_hook_request \<Rightarrow> bool \<Rightarrow> hook app" where
  "set_one_enabled ap audit_id now c enabled =
     app_bind
       (transact (set_hooks_enabled (ap_deps ap) audit_id
         \<lparr>ba_silicon_uuid = sr_uuid (ac_silicon (uq_authorization c)), ba_hook_ids = [uq_hook_id c],
          ba_enabled = enabled, ba_audit = management_audit (uq_authorization c) (uq_request_id c),
          ba_occurred_at = database_time now\<rparr>)) (\<lambda>updated.
       give (if updated = [] then Err (Internal (FaultText ''single-hook activation returned no hook''))
             else Ok (last updated)))"

definition hooks_update ::
  "('u, 'k, 'z) hook_application \<Rightarrow> bytes option \<Rightarrow> (nat \<Rightarrow> uuid) \<Rightarrow> uuid \<Rightarrow> instant \<Rightarrow> update_hook_request \<Rightarrow> hook app" where
  "hooks_update ap nonce activation_audit update_audit now c =
     (let a = uq_authorization c; patch = uq_patch c in
      app_bind (give (authorize_action a ReadHook)) (\<lambda>_.
      app_bind (load_hook ap a (uq_hook_id c)) (\<lambda>existing.
      if hk_status existing = Deleted then give (Err ResourceConflict)
      else
        (let signing = map_option (\<lambda>p. signing_patch_resolve p (sp_config (hk_signing existing))
               (sp_required (hk_signing existing))) (up_signing patch) in
         app_bind (give (map_ok (\<lambda>_. ()) (transpose_opt (map_option (validate_signing_input ap) signing)))) (\<lambda>_.
         app_bind (give (if up_enabled patch \<noteq> None then authorize_action a SetHookEnabled else Ok ())) (\<lambda>_.
         app_bind (give (if changes_metadata patch then authorize_action a UpdateHook else Ok ())) (\<lambda>_.
         app_bind (give (transpose_opt (map_option
             (\<lambda>s. signing_policy_of ap nonce (hk_id existing) s (hk_signing existing)) signing))) (\<lambda>signing.
         app_bind (case up_enabled patch of
             Some enabled \<Rightarrow> set_one_enabled ap activation_audit now c enabled
           | None \<Rightarrow> give (Ok existing)) (\<lambda>current.
         if \<not> changes_metadata patch then give (Ok current)
         else
           transact (update_hook (ap_deps ap) update_audit
             \<lparr>uh_silicon_uuid = sr_uuid (ac_silicon a), uh_hook_id = uq_hook_id c,
              uh_update = \<lparr>hu_name = up_name patch, hu_description = up_description patch,
                hu_time_zone = up_time_zone patch, hu_signing = signing\<rparr>,
              uh_audit = management_audit a (uq_request_id c), uh_occurred_at = database_time now\<rparr>))))))))))"

definition hooks_delete ::
  "('u, 'k, 'z) hook_application \<Rightarrow> uuid \<Rightarrow> instant \<Rightarrow> delete_hook_request \<Rightarrow> unit app" where
  "hooks_delete ap audit_id now c =
     (let a = dq_authorization c in
      app_bind (give (authorize_action a ReadHook)) (\<lambda>_.
      app_bind (load_hook ap a (dq_hook_id c)) (\<lambda>h.
      app_bind (give (authorize_action a DeleteHook)) (\<lambda>_.
      if hk_status h = Deleted then give (Ok ())
      else
        app_bind
          (attempt (delete_hook (ap_deps ap) audit_id
            \<lparr>hm_silicon_uuid = sr_uuid (ac_silicon a), hm_hook_id = dq_hook_id c,
             hm_audit = management_audit a (dq_request_id c), hm_occurred_at = database_time now\<rparr>)) (\<lambda>deleted.
          give (case deleted of
              Ok _ \<Rightarrow> Ok ()
            | Err (StateConflict _) \<Rightarrow> Ok ()
            | Err e \<Rightarrow> Err (map_store_error e)))))))"

definition max_activation_batch :: nat where
  "max_activation_batch = 1000"

definition validate_activation_hook_ids :: "hook_id list \<Rightarrow> (hook_id list, application_error) result" where
  "validate_activation_hook_ids ids =
     (if ids = [] \<or> max_activation_batch < length ids then Err (Validation ''hook_ids'')
      else
        (let ids = sort_key hook_uuid ids in
         if has_duplicates (map hook_uuid ids) then Err (Validation ''hook_ids'') else Ok ids))"

text \<open>The answer in the order of the request: each hook is taken out of the map once.\<close>

fun in_requested_order :: "hook_id list \<Rightarrow> (hook_id \<rightharpoonup> hook) \<Rightarrow> (hook list, application_error) result" where
  "in_requested_order [] by_id = Ok []"
| "in_requested_order (i # ids) by_id =
     and_then
       (ok_or (Internal (FaultText ''activation persistence returned a mismatched hook set'')) (by_id i)) (\<lambda>h.
       map_ok (Cons h) (in_requested_order ids (by_id(i := None))))"

definition hooks_set_enabled ::
  "('u, 'k, 'z) hook_application \<Rightarrow> (nat \<Rightarrow> uuid) \<Rightarrow> instant \<Rightarrow> set_hooks_enabled_request \<Rightarrow> hook list app" where
  "hooks_set_enabled ap audit_id now c =
     (let a = sq_authorization c; su = sr_uuid (ac_silicon a) in
      app_bind (give (validate_activation_hook_ids (sq_hook_ids c))) (\<lambda>ids.
      app_bind (give (authorize_action a SetHookEnabled)) (\<lambda>_.
      app_bind (query (get_hooks_by_ids (ap_deps ap) su ids)) (\<lambda>hooks.
      if length hooks \<noteq> length ids then give (Err ResourceNotFound)
      else if list_ex (\<lambda>h. hk_status h = Deleted) hooks then give (Err ResourceConflict)
      else
        app_bind
          (transact (set_hooks_enabled (ap_deps ap) audit_id
            \<lparr>ba_silicon_uuid = su, ba_hook_ids = ids, ba_enabled = sq_enabled c,
             ba_audit = management_audit a (sq_request_id c), ba_occurred_at = database_time now\<rparr>)) (\<lambda>updated.
          give (in_requested_order (sq_hook_ids c) (map_of (rev (map (\<lambda>h. (hk_id h, h)) updated)))))))))"

section \<open>Restoring and rotating\<close>

definition plain_response :: "hook_id \<Rightarrow> persisted_response" where
  "plain_response i =
     \<lparr>pr_status = 200, pr_resource_id = Some i, pr_encrypted_secret = None, pr_secret_replay_until = None\<rparr>"

definition mutation_scope ::
  "('u, 'k, 'z) hook_application \<Rightarrow> string \<Rightarrow> hook_mutation_request \<Rightarrow> bytes \<Rightarrow> idempotency_scope" where
  "mutation_scope ap operation c request_digest =
     management_scope operation (mc_authorization (mq_context c))
       (uc_hyphenated (dp_uuid (ap_deps ap)) (hook_uuid (mq_hook_id c)))
       (mc_idempotency_key (mq_context c)) request_digest"

definition recovery_over :: "time_crate \<Rightarrow> instant \<Rightarrow> hook \<Rightarrow> bool" where
  "recovery_over tc now h \<longleftrightarrow>
     (case hk_deleted_at h of
        None \<Rightarrow> False
      | Some deleted_at \<Rightarrow>
          (case tc_checked_add tc deleted_at (duration_days hook_recovery_days) of
             None \<Rightarrow> True
           | Some deadline \<Rightarrow> deadline < now))"

definition hooks_restore ::
  "('u, 'k, 'z) hook_application \<Rightarrow> uuid \<Rightarrow> instant \<Rightarrow> hook_mutation_request \<Rightarrow> hook app" where
  "hooks_restore ap audit_id now c =
     (let a = mc_authorization (mq_context c); now = database_time now in
      app_bind (load_for_mutation ap a (mq_hook_id c) RestoreHook) (\<lambda>h.
      if recovery_over (dp_time (ap_deps ap)) now h then give (Err RecoveryExpired)
      else
        app_bind
          (transact (restore_hook (ap_deps ap) audit_id
            \<lparr>rh_silicon_uuid = sr_uuid (ac_silicon a), rh_hook_id = mq_hook_id c,
             rh_idempotency = mutation_scope ap ''hook.restore'' c (empty_request_digest ap),
             rh_response = plain_response (mq_hook_id c),
             rh_audit = management_audit a (mc_request_id (mq_context c)), rh_occurred_at = now\<rparr>)) (\<lambda>outcome.
          give (case outcome of Restored h \<Rightarrow> Ok h | RestoreReplayed h _ \<Rightarrow> Ok h))))"

definition store_rotated_secret ::
  "('u, 'k, 'z) hook_application \<Rightarrow> bytes option \<Rightarrow> uuid \<Rightarrow> instant \<Rightarrow> hook_mutation_request \<Rightarrow> signing_secret \<Rightarrow>
    string \<Rightarrow> bytes \<Rightarrow> hook_with_secret app" where
  "store_rotated_secret ap nonce audit_id now c secret operation request_digest =
     (let a = mc_authorization (mq_context c); now = database_time now in
      app_bind (give (encrypt_secret ap nonce (mq_hook_id c) secret)) (\<lambda>encrypted.
      app_bind (give (secret_replay_until (dp_time (ap_deps ap)) now)) (\<lambda>replay_until.
      app_bind
        (transact (rotate_hook_secret (ap_deps ap) audit_id
          \<lparr>rs_silicon_uuid = sr_uuid (ac_silicon a), rs_hook_id = mq_hook_id c,
           rs_encrypted_secret = encrypted,
           rs_idempotency = mutation_scope ap operation c request_digest,
           rs_response = \<lparr>pr_status = 200, pr_resource_id = Some (mq_hook_id c),
             pr_encrypted_secret = Some encrypted, pr_secret_replay_until = Some replay_until\<rparr>,
           rs_audit = management_audit a (mc_request_id (mq_context c)), rs_occurred_at = now\<rparr>)) (\<lambda>outcome.
        give (case outcome of
            Rotated h \<Rightarrow> Ok \<lparr>hw_hook = h, hw_signing_secret = Some secret\<rparr>
          | RotationReplayed h response \<Rightarrow> secret_result_from_replay ap h response)))))"

definition hooks_rotate_secret ::
  "('u, 'k, 'z) hook_application \<Rightarrow> (signing_secret, entropy_error) result \<Rightarrow> bytes option \<Rightarrow> uuid \<Rightarrow> instant \<Rightarrow>
    hook_mutation_request \<Rightarrow> hook_with_secret app" where
  "hooks_rotate_secret ap generated nonce audit_id now c =
     app_bind (load_for_mutation ap (mc_authorization (mq_context c)) (mq_hook_id c) RotateSecret) (\<lambda>h.
     if is_asymmetric (sc_algorithm (sp_config (hk_signing h)))
     then give (Err (ValidationDetailed ''signature''
            (lit ''an asymmetric signature algorithm has no shared secret to rotate'')))
     else
       app_bind (give (generate_signing_secret (ap_crates ap) generated (sc_secret_encoding (sp_config (hk_signing h)))))
         (\<lambda>secret.
         store_rotated_secret ap nonce audit_id now c secret ''hook.secret.rotate'' (empty_request_digest ap)))"

text \<open>An attempt to rotate the endpoint draws a key and the identifier of the audit row.\<close>

fun rotate_attempts ::
  "('u, 'k, 'z) hook_application \<Rightarrow> instant \<Rightarrow> hook_mutation_request \<Rightarrow>
    ((endpoint_key, entropy_error) result \<times> uuid) list \<Rightarrow> hook app" where
  "rotate_attempts ap now c [] =
     give (Err (Internal (FaultText ''endpoint key collision budget exhausted'')))"
| "rotate_attempts ap now c ((generated, audit_id) # ds) =
     app_bind (give (map_err (\<lambda>_. Internal EntropyFault) generated)) (\<lambda>replacement.
     app_bind
       (attempt (rotate_hook_endpoint (ap_deps ap) audit_id
         \<lparr>re_silicon_uuid = sr_uuid (ac_silicon (mc_authorization (mq_context c))), re_hook_id = mq_hook_id c,
          re_replacement = replacement,
          re_idempotency = mutation_scope ap ''hook.endpoint.rotate'' c (empty_request_digest ap),
          re_response = plain_response (mq_hook_id c),
          re_audit = management_audit (mc_authorization (mq_context c)) (mc_request_id (mq_context c)),
          re_occurred_at = now\<rparr>)) (\<lambda>outcome.
       case outcome of
         Ok (Rotated h) \<Rightarrow> give (Ok h)
       | Ok (RotationReplayed h _) \<Rightarrow> give (Ok h)
       | Err EndpointKeyConflict \<Rightarrow> rotate_attempts ap now c ds
       | Err e \<Rightarrow> give (Err (map_store_error e))))"

definition hooks_rotate_endpoint ::
  "('u, 'k, 'z) hook_application \<Rightarrow> (nat \<Rightarrow> (endpoint_key, entropy_error) result \<times> uuid) \<Rightarrow> instant \<Rightarrow>
    hook_mutation_request \<Rightarrow> hook app" where
  "hooks_rotate_endpoint ap draws now c =
     app_bind (load_for_mutation ap (mc_authorization (mq_context c)) (mq_hook_id c) RotateEndpoint) (\<lambda>_.
       rotate_attempts ap (database_time now) c (map draws [0..<endpoint_generation_attempts]))"

section \<open>The Silicon Accounts hook\<close>

definition hooks_prepare_accounts ::
  "('u, 'k, 'z) hook_application \<Rightarrow> (nat \<Rightarrow> attempt_draw) \<Rightarrow> (signing_secret, entropy_error) result \<Rightarrow> uuid \<Rightarrow> instant \<Rightarrow>
    connect_accounts_hook_request \<Rightarrow> hook app" where
  "hooks_prepare_accounts ap draws generated audit_id now c =
     (let a = mc_authorization (aq_context c); su = sr_uuid (ac_silicon a) in
      app_bind (give (authorize_action a ConnectAccountsHook)) (\<lambda>_.
      app_bind (query (find_accounts_hook (ap_deps ap) su)) (\<lambda>existing.
      case existing of
        Some h \<Rightarrow>
          if hk_status h = Deleted
          then hooks_restore ap audit_id now \<lparr>mq_context = aq_context c, mq_hook_id = hk_id h\<rparr>
          else give (Ok h)
      | None \<Rightarrow>
          app_bind (give (connect_accounts_request_digest ap su)) (\<lambda>request_digest.
          app_bind (give (map_err (\<lambda>_. Validation ''accounts_hook_name'') (hook_name_new accounts_hook_name))) (\<lambda>name.
          app_bind (give (map_err (\<lambda>_. Validation ''accounts_hook_description'')
              (hook_description_optional (Some accounts_hook_description)))) (\<lambda>description.
          app_bind (give accounts_signing_input) (\<lambda>signing.
          app_bind
            (create_hook_inner ap draws generated now
              \<lparr>cp_silicon_uuid = su, cp_name = name, cp_description = description,
               cp_time_zone = default_time_zone, cp_signing = signing, cp_actor = actor_reference a,
               cp_idempotency_key = mc_idempotency_key (aq_context c), cp_request_digest = request_digest,
               cp_request_id = mc_request_id (aq_context c), cp_is_accounts_default = True\<rparr>) (\<lambda>created.
            give (Ok (hw_hook created))))))))))"

end
