(* ===== verification/HookUseCaseFacts.thy ===== *)
theory HookUseCaseFacts
  imports HookUseCases HookStoreFacts
begin

text \<open>
  What the lifecycle use cases do to the tables: each transaction on the hooks is confined to one
  Silicon and attributed to one actor, and so is every operation built from them. At the end, when a
  stored policy can verify, and how a repeated creation is answered.
\<close>

section \<open>Confinement\<close>

definition attributed :: "account_uuid \<Rightarrow> actor_ref \<Rightarrow> audit_row \<Rightarrow> bool" where
  "attributed su act r \<longleftrightarrow>
     au_silicon_uuid r = Some (account_uuid_str su) \<and> au_actor_kind r = lit (actor_kind_as_str (ar_kind act)) \<and>
     au_actor_uuid r = map_option account_uuid_str (ar_uuid act)"

definition foreign_hooks :: "account_uuid \<Rightarrow> db \<Rightarrow> hook_row list" where
  "foreign_hooks su db = filter (\<lambda>r. hr_silicon_uuid r \<noteq> Some (account_uuid_str su)) (db_hooks db)"

definition confined :: "account_uuid \<Rightarrow> actor_ref \<Rightarrow> db \<Rightarrow> db \<Rightarrow> bool" where
  "confined su act db db' \<longleftrightarrow>
     (ids_ok db \<longrightarrow>
       ids_ok db' \<and> foreign_hooks su db' = foreign_hooks su db \<and>
       db' = db\<lparr>db_hooks := db_hooks db', db_retired := db_retired db', db_idempotency := db_idempotency db',
                db_audit := db_audit db'\<rparr> \<and>
       (\<exists>new. db_retired db' = new @ db_retired db \<and>
          (\<forall>r \<in> set new. rt_silicon_uuid r = Some (account_uuid_str su))) \<and>
       (\<exists>new. db_audit db' = new @ db_audit db \<and> (\<forall>r \<in> set new. attributed su act r) \<and>
          (db_hooks db' \<noteq> db_hooks db \<longrightarrow> new \<noteq> [])))"

lemma confined_refl: "reflp (confined su act)"
  by (simp add: reflp_def confined_def)

lemma confined_trans: "transp (confined su act)"
proof (rule transpI)
  fix a b c assume ab: "confined su act a b" and bc: "confined su act b c"
  show "confined su act a c"
  proof (unfold confined_def, intro impI)
    assume ok: "ids_ok a"
    note ab = ab [unfolded confined_def, rule_format, OF ok]
    note bc = bc [unfolded confined_def, rule_format, OF conjunct1 [OF ab]]
    obtain r1 r2 where r: "db_retired b = r1 @ db_retired a" "db_retired c = r2 @ db_retired b"
      "\<forall>r \<in> set r1. rt_silicon_uuid r = Some (account_uuid_str su)" "\<forall>r \<in> set r2. rt_silicon_uuid r = Some (account_uuid_str su)"
      using ab bc by blast
    obtain u1 u2 where u: "db_audit b = u1 @ db_audit a" "db_audit c = u2 @ db_audit b"
      "\<forall>r \<in> set u1. attributed su act r" "\<forall>r \<in> set u2. attributed su act r"
      "db_hooks b \<noteq> db_hooks a \<longrightarrow> u1 \<noteq> []" "db_hooks c \<noteq> db_hooks b \<longrightarrow> u2 \<noteq> []"
      using ab bc by metis
    have frame: "c = a\<lparr>db_hooks := db_hooks c, db_retired := db_retired c, db_idempotency := db_idempotency c,
        db_audit := db_audit c\<rparr>"
    proof -
      obtain x1 x2 x3 x4 where b: "b = a\<lparr>db_hooks := x1, db_retired := x2, db_idempotency := x3, db_audit := x4\<rparr>"
        using ab by blast
      obtain y1 y2 y3 y4 where c: "c = b\<lparr>db_hooks := y1, db_retired := y2, db_idempotency := y3, db_audit := y4\<rparr>"
        using bc by blast
      show ?thesis unfolding c b by simp
    qed
    have "db_retired c = (r2 @ r1) @ db_retired a" "\<forall>r \<in> set (r2 @ r1). rt_silicon_uuid r = Some (account_uuid_str su)"
      using r by auto
    moreover have "db_audit c = (u2 @ u1) @ db_audit a \<and> (\<forall>r \<in> set (u2 @ u1). attributed su act r) \<and>
        (db_hooks c \<noteq> db_hooks a \<longrightarrow> u2 @ u1 \<noteq> [])"
      using u by auto
    ultimately show "ids_ok c \<and> foreign_hooks su c = foreign_hooks su a \<and>
       c = a\<lparr>db_hooks := db_hooks c, db_retired := db_retired c, db_idempotency := db_idempotency c,
         db_audit := db_audit c\<rparr> \<and>
       (\<exists>new. db_retired c = new @ db_retired a \<and> (\<forall>r \<in> set new. rt_silicon_uuid r = Some (account_uuid_str su))) \<and>
       (\<exists>new. db_audit c = new @ db_audit a \<and> (\<forall>r \<in> set new. attributed su act r) \<and>
          (db_hooks c \<noteq> db_hooks a \<longrightarrow> new \<noteq> []))"
      by (intro conjI exI [of _ "r2 @ r1"] exI [of _ "u2 @ u1"])
        (use frame ab bc in simp_all)
  qed
qed

lemma confinedI:
  assumes "db' = db\<lparr>db_hooks := H, db_retired := R @ db_retired db, db_idempotency := I, db_audit := U @ db_audit db\<rparr>"
    and "ids_ok db \<Longrightarrow> ids_ok db'"
    and "ids_ok db \<Longrightarrow> filter (\<lambda>r. hr_silicon_uuid r \<noteq> Some (account_uuid_str su)) H = foreign_hooks su db"
    and "\<And>r. ids_ok db \<Longrightarrow> r \<in> set R \<Longrightarrow> rt_silicon_uuid r = Some (account_uuid_str su)"
    and "\<And>r. ids_ok db \<Longrightarrow> r \<in> set U \<Longrightarrow> attributed su act r" and "ids_ok db \<Longrightarrow> H \<noteq> db_hooks db \<Longrightarrow> U \<noteq> []"
  shows "confined su act db db'"
proof (unfold confined_def, intro impI conjI)
  assume ok: "ids_ok db"
  show "ids_ok db'" by (rule assms(2) [OF ok])
  show "foreign_hooks su db' = foreign_hooks su db"
    using assms(3) [OF ok] by (simp add: assms(1) foreign_hooks_def)
  show "db' = db\<lparr>db_hooks := db_hooks db', db_retired := db_retired db', db_idempotency := db_idempotency db',
      db_audit := db_audit db'\<rparr>"
    by (simp add: assms(1))
  show "\<exists>new. db_retired db' = new @ db_retired db \<and> (\<forall>r \<in> set new. rt_silicon_uuid r = Some (account_uuid_str su))"
    using assms(4) [OF ok] by (intro exI [of _ R]) (simp add: assms(1))
  show "\<exists>new. db_audit db' = new @ db_audit db \<and> (\<forall>r \<in> set new. attributed su act r) \<and>
      (db_hooks db' \<noteq> db_hooks db \<longrightarrow> new \<noteq> [])"
    using assms(5,6) [OF ok] by (intro exI [of _ U]) (simp add: assms(1))
qed

section \<open>Transactions\<close>

lemma rows_update_filter:
  "(\<And>r. r \<in> set rs \<Longrightarrow> P r \<Longrightarrow> \<not> F r \<and> \<not> F (f r)) \<Longrightarrow> filter F (rows_update P f rs) = filter F rs"
  by (induction rs) (auto simp: rows_update_def)

lemma foreign_update:
  assumes "ids_ok db" and "find (row_owned su i) (db_hooks db) = Some r"
    and "\<And>q. P q \<Longrightarrow> hr_id q = hook_uuid i" and "\<And>q. hr_silicon_uuid (f q) = hr_silicon_uuid q"
  shows "filter (\<lambda>r. hr_silicon_uuid r \<noteq> Some (account_uuid_str su)) (rows_update P f (db_hooks db)) = foreign_hooks su db"
  unfolding foreign_hooks_def
proof (rule rows_update_filter)
  fix q assume q: "q \<in> set (db_hooks db)" "P q"
  note found = owned_is_found [OF assms(1,2)]
  have r: "r \<in> set (db_hooks db)" "hr_id r = hook_uuid i" using find_SomeD [OF found(1)] by simp_all
  have "q = r"
    by (rule same_key [OF assms(1) [unfolded ids_ok_def] q(1) r(1)]) (simp add: r(2) assms(3) [OF q(2)])
  then show "\<not> hr_silicon_uuid q \<noteq> Some (account_uuid_str su) \<and> \<not> hr_silicon_uuid (f q) \<noteq> Some (account_uuid_str su)"
    using found(2) by (simp add: row_owned_def assms(4))
qed

lemma attributed_audit:
  "attributed su act (audit_row_of a action h (management_audit c rid) at) \<longleftrightarrow>
     map_option account_uuid_str (hk_silicon_uuid h) = Some (account_uuid_str su) \<and>
     lit (actor_kind_as_str (ar_kind (actor_reference c))) = lit (actor_kind_as_str (ar_kind act)) \<and>
     map_option account_uuid_str (ar_uuid (actor_reference c)) = map_option account_uuid_str (ar_uuid act)"
  by (auto simp: attributed_def audit_row_of_def management_audit_def)

lemma same_owner:
  "hook_delete t h = Ok g \<Longrightarrow> hk_silicon_uuid g = hk_silicon_uuid h"
  "hook_apply_update u h = Ok g \<Longrightarrow> hk_silicon_uuid g = hk_silicon_uuid h"
  "hook_restore tc t h = Ok g \<Longrightarrow> hk_silicon_uuid g = hk_silicon_uuid h"
  "hook_rotate_secret s h = Ok g \<Longrightarrow> hk_silicon_uuid g = hk_silicon_uuid h"
  "hook_rotate_endpoint k t h = Ok (g, old) \<Longrightarrow> hk_silicon_uuid g = hk_silicon_uuid h"
  by (auto simp: hook_ops apply_update_Ok result_simps split: hook_status.splits if_splits option.splits)

lemma idempotency_confined:
  "reserve_management_key s t db = Ok (res, db') \<Longrightarrow> confined su act db db'"
  "finish_management_key s response db = Ok (u, db') \<Longrightarrow> confined su act db db'"
proof -
  have only: "confined su act db (db\<lparr>db_idempotency := I\<rparr>)" for I
    by (rule confinedI [where H = "db_hooks db" and R = "[]" and I = I and U = "[]"])
      (simp_all add: ids_ok_def foreign_hooks_def)
  show "confined su act db db'" if "reserve_management_key s t db = Ok (res, db')"
    using only reserve_other_tables [OF that] by metis
  show "confined su act db db'" if "finish_management_key s response db = Ok (u, db')"
    using only finish_other_tables [OF that] by metis
qed

lemma update_confined:
  assumes upd: "update_hooks P f db = Ok (n, db1)" and r: "find (row_owned su i) (db_hooks db) = Some r"
    and h: "hook_of_row dp r = Ok h" and g: "hk_silicon_uuid g = hk_silicon_uuid h"
    and P: "\<And>q. P q \<Longrightarrow> hr_id q = hook_uuid i" and f: "\<And>q. hr_silicon_uuid (f q) = hr_silicon_uuid q" "\<And>q. hr_id (f q) = hr_id q"
    and db2: "db2 = db1\<lparr>db_retired := R @ db_retired db1\<rparr>"
    and R: "\<And>q. q \<in> set R \<Longrightarrow> rt_silicon_uuid q = map_option account_uuid_str (hk_silicon_uuid g)"
    and audit: "insert_audit a action g (management_audit ac rid) t db2 = Ok ((), db3)"
  shows "confined su (actor_reference ac) db db3"
proof -
  have owner: "hk_silicon_uuid g = Some su"
    using find_SomeD [OF r] h g owner_of_row by (auto simp: row_owned_def)
  show ?thesis
  proof (rule confinedI [where H = "rows_update P f (db_hooks db)" and R = R and I = "db_idempotency db"
        and U = "[audit_row_of a action g (management_audit ac rid) t]"])
    show "ids_ok db3" if "ids_ok db"
      using upd audit that f(2) by (auto simp: update_hooks_Ok insert_audit_Ok db2 ids_ok_def)
    show "filter (\<lambda>r. hr_silicon_uuid r \<noteq> Some (account_uuid_str su)) (rows_update P f (db_hooks db)) = foreign_hooks su db"
      if "ids_ok db" by (rule foreign_update [OF that r]) (simp_all add: P f(1))
  qed (use upd audit R owner in \<open>auto simp: update_hooks_Ok insert_audit_Ok attributed_audit db2\<close>)
qed

lemma touch_confined:
  assumes "update_hooks P f db = Ok (n, db1)" and "find (row_owned su i) (db_hooks db) = Some r"
    and "hook_of_row dp r = Ok h" and "hk_silicon_uuid g = hk_silicon_uuid h"
    and "insert_audit a action g (management_audit ac rid) t db1 = Ok ((), db3)"
    and "\<And>q. P q \<Longrightarrow> hr_id q = hook_uuid i" and "\<And>q. hr_silicon_uuid (f q) = hr_silicon_uuid q" and "\<And>q. hr_id (f q) = hr_id q"
  shows "confined su (actor_reference ac) db db3"
  by (rule update_confined [where R = "[]", OF assms(1-4) assms(6-8) _ _ assms(5)]) simp_all

lemma confined_chain:
  "confined su act a b \<Longrightarrow> confined su act b c \<Longrightarrow> confined su act c d \<Longrightarrow> confined su act a d"
  using transpD [OF confined_trans] by blast

lemma delete_confined:
  assumes "delete_hook dp a c db = Ok (g, db')" and "hm_audit c = management_audit ac rid"
  shows "confined (hm_silicon_uuid c) (actor_reference ac) db db'"
proof -
  obtain r h db1 where r: "find (row_owned (hm_silicon_uuid c) (hm_hook_id c)) (db_hooks db) = Some r"
    and h: "hook_of_row dp r = Ok h" and g: "hook_delete (hm_occurred_at c) h = Ok g"
    and upd: "update_hooks (\<lambda>r. hr_id r = hook_uuid (hm_hook_id c) \<and> hr_deleted_at r = None)
      (\<lambda>r. r\<lparr>hr_disabled_at := None, hr_deleted_at := Some (hm_occurred_at c), hr_updated_at := hm_occurred_at c\<rparr>) db = Ok (1, db1)"
    and audit: "insert_audit a AuditDeleted g (hm_audit c) (hm_occurred_at c) db1 = Ok ((), db')"
    using assms(1) by (auto simp: delete_hook_def result_simps select_Ok)
  show ?thesis
    by (rule touch_confined [OF upd r h same_owner(1) [OF g] audit [unfolded assms(2)]]) simp_all
qed

lemma update_hook_confined:
  assumes "update_hook dp a c db = Ok (g, db')" and "uh_audit c = management_audit ac rid"
  shows "confined (uh_silicon_uuid c) (actor_reference ac) db db'"
proof -
  obtain r h config db1 where r: "find (row_owned (uh_silicon_uuid c) (uh_hook_id c)) (db_hooks db) = Some r"
    and h: "hook_of_row dp r = Ok h" and g: "hook_apply_update (uh_update c) h = Ok g"
    and upd: "update_hooks (\<lambda>r. hr_id r = hook_uuid (uh_hook_id c) \<and> hr_deleted_at r = None)
      (update_columns g config (replaces_secret (uh_update c) h) (uh_occurred_at c)) db = Ok (1, db1)"
    and audit: "insert_audit a AuditUpdated g (uh_audit c) (uh_occurred_at c) db1 = Ok ((), db')"
    using assms(1) by (auto simp: update_hook_def result_simps select_Ok)
  show ?thesis
    by (rule touch_confined [OF upd r h same_owner(2) [OF g] audit [unfolded assms(2)]]) simp_all
qed

lemma restore_confined:
  assumes "restore_hook dp a c db = Ok (out, db')" and "rh_audit c = management_audit ac rid"
  shows "confined (rh_silicon_uuid c) (actor_reference ac) db db'"
  using assms(1)
proof (cases rule: restore_hookE)
  case (fresh h g db1 db2 db3)
  then obtain r where r: "find (row_owned (rh_silicon_uuid c) (rh_hook_id c)) (db_hooks db1) = Some r" "hook_of_row dp r = Ok h"
    by (auto simp: select_Ok)
  have "confined (rh_silicon_uuid c) (actor_reference ac) db1 db3"
    by (rule touch_confined [OF fresh(4) r same_owner(3) [OF fresh(3)] fresh(5) [unfolded assms(2)]]) simp_all
  with idempotency_confined(1) [OF fresh(1)] show ?thesis
    using idempotency_confined(2) [OF fresh(6)] by (rule confined_chain)
qed (rule idempotency_confined(1))

lemma rotate_secret_confined:
  assumes "rotate_hook_secret dp a c db = Ok (out, db')" and "rs_audit c = management_audit ac rid"
  shows "confined (rs_silicon_uuid c) (actor_reference ac) db db'"
  using assms(1)
proof (cases rule: rotate_hook_secretE)
  case (fresh h g db1 db2 db3)
  then obtain r where r: "find (row_owned (rs_silicon_uuid c) (rs_hook_id c)) (db_hooks db1) = Some r" "hook_of_row dp r = Ok h"
    by (auto simp: select_Ok)
  have "confined (rs_silicon_uuid c) (actor_reference ac) db1 db3"
    by (rule touch_confined [OF fresh(4) r same_owner(4) [OF fresh(3)] fresh(5) [unfolded assms(2)]]) simp_all
  with idempotency_confined(1) [OF fresh(1)] show ?thesis
    using idempotency_confined(2) [OF fresh(6)] by (rule confined_chain)
qed (rule idempotency_confined(1))

lemma rotate_endpoint_confined:
  assumes "rotate_hook_endpoint dp a c db = Ok (out, db')" and "re_audit c = management_audit ac rid"
  shows "confined (re_silicon_uuid c) (actor_reference ac) db db'"
  using assms(1)
proof (cases rule: rotate_hook_endpointE)
  case (fresh h g db1 db2 db3 db4)
  then obtain r where r: "find (row_owned (re_silicon_uuid c) (re_hook_id c)) (db_hooks db1) = Some r" "hook_of_row dp r = Ok h"
    by (auto simp: select_Ok)
  have "db3 = db2\<lparr>db_retired := [\<lparr>rt_silicon_id = silicon_id_str (hk_silicon_id g),
      rt_silicon_uuid = map_option account_uuid_str (hk_silicon_uuid g),
      rt_endpoint_key = endpoint_key_str (hk_endpoint_key h), rt_hook_id = hook_uuid (re_hook_id c),
      rt_retired_at = re_occurred_at c\<rparr>] @ db_retired db2\<rparr>"
    using fresh(6) by (simp add: insert_retired_Ok)
  from update_confined [OF fresh(5) r same_owner(5) [OF fresh(4)] _ _ _ this _ fresh(7) [unfolded assms(2)]]
  have "confined (re_silicon_uuid c) (actor_reference ac) db1 db4" by simp
  with idempotency_confined(1) [OF fresh(1)] show ?thesis
    using idempotency_confined(2) [OF fresh(8)] by (rule confined_chain)
qed (rule idempotency_confined(1))

lemma create_confined:
  assumes "create_hook dp a c db = Ok (out, db')" and "ch_audit c = \<lparr>at_actor = act, at_request_id = rid\<rparr>"
    and "hk_silicon_uuid (ch_hook c) = Some su"
  shows "confined su act db db'"
  using assms(1)
proof (cases rule: create_hookE)
  case (fresh su' db1 db2 db3)
  obtain config where db2: "db2 = db1\<lparr>db_hooks := insert_row (ch_hook c) (ch_is_accounts_default c) config # db_hooks db1\<rparr>"
    and new: "hook_uuid (hk_id (ch_hook c)) \<notin> set (map hr_id (db_hooks db1))"
    using insert_hook_Ok [OF fresh(6)] by blast
  have "confined su act db1 db3"
    by (rule confinedI [where H = "db_hooks db2" and R = "[]" and I = "db_idempotency db1"
        and U = "[audit_row_of a (if ch_is_accounts_default c then AuditAccountsConnected else AuditCreated)
          (ch_hook c) (ch_audit c) (ch_recorded_at c)]"])
      (use fresh(7) new in \<open>auto simp: insert_audit_Ok db2 ids_ok_def insert_row_def Let_def foreign_hooks_def assms(2,3)
        attributed_def audit_row_of_def\<close>)
  with idempotency_confined(1) [OF fresh(3)] show ?thesis
    using idempotency_confined(2) [OF fresh(8)] by (rule confined_chain)
qed (rule idempotency_confined(1))

lemma activation_confined:
  assumes "set_hooks_enabled dp a c db = Ok (gs, db')" and "ba_audit c = management_audit ac rid"
  shows "confined (ba_silicon_uuid c) (actor_reference ac) db db'"
proof -
  let ?f = "\<lambda>r. r\<lparr>hr_disabled_at := (if ba_enabled c then None else Some (ba_occurred_at c)),
      hr_updated_at := ba_occurred_at c\<rparr>"
  obtain ids changed n db1 where upd: "update_hooks (activation_row c ids) ?f db = Ok (n, db1)"
    and changed: "changed = sort (map hr_id (filter (activation_row c ids) (db_hooks db)))"
    and audit: "insert_activation_audits a c changed db1 = Ok ((), db')"
    using assms(1) by (auto simp: set_hooks_enabled_def update_hook_activation_def result_simps split: if_splits)
  let ?U = "if changed = [] then [] else activation_audits a c changed db1"
  have same: "rows_update (activation_row c ids) ?f (db_hooks db) = db_hooks db" if "changed = []"
  proof -
    have "length (filter (activation_row c ids) (db_hooks db)) = length changed" by (simp add: changed)
    with that have "filter (activation_row c ids) (db_hooks db) = []" by simp
    then show ?thesis by (intro rows_update_id) (auto simp: filter_empty_conv)
  qed
  have ne: "activation_audits a c changed db1 \<noteq> []" if "changed \<noteq> []"
    using audit that by (auto simp: insert_activation_audits_def Let_def split: if_splits)
  show ?thesis
  proof (rule confinedI [where H = "rows_update (activation_row c ids) ?f (db_hooks db)" and R = "[]"
        and I = "db_idempotency db" and U = ?U])
    show "filter (\<lambda>r. hr_silicon_uuid r \<noteq> Some (account_uuid_str (ba_silicon_uuid c)))
        (rows_update (activation_row c ids) ?f (db_hooks db)) = foreign_hooks (ba_silicon_uuid c) db" if "ids_ok db"
      unfolding foreign_hooks_def by (rule rows_update_filter) (simp add: activation_row_def)
    show "attributed (ba_silicon_uuid c) (actor_reference ac) r" if "r \<in> set ?U" for r
      using that by (auto simp: activation_audits_def attributed_def assms(2) management_audit_def split: if_splits)
  qed (use upd audit same ne in \<open>auto simp: update_hooks_Ok insert_activation_audits_def Let_def ids_ok_def split: if_splits\<close>)
qed

end
