(* ===== verification/HookSigning.thy ===== *)
theory HookSigning
  imports HookUseCaseFacts
begin

text \<open>
  Signing policies through the lifecycle use cases: when the stored secret and key of a hook can be
  turned into verification material, that the policies built for a creation, an update or a rotation
  have this property, and what the attempts of a creation come to.
\<close>

section \<open>Policies that can verify\<close>

definition policy_usable :: "('u, 'k, 'z) hook_application \<Rightarrow> hook_id \<Rightarrow> signing_policy \<Rightarrow> bool" where
  "policy_usable ap i p \<longleftrightarrow>
     config_validate (ap_crates ap) (dp_keys (ap_deps ap)) (sp_config p) = Ok () \<and>
     (case sp_encrypted_secret p of
        None \<Rightarrow> uses_secret (sc_algorithm (sp_config p)) \<longrightarrow> \<not> sp_required p
      | Some e \<Rightarrow>
          uses_secret (sc_algorithm (sp_config p)) \<and>
          (\<exists>s b. decrypt_secret ap i e = Ok s \<and>
             secret_decode (ap_crates ap) (sc_secret_encoding (sp_config p)) (signing_secret_str s) = Ok b))"

definition usable :: "('u, 'k, 'z) hook_application \<Rightarrow> hook \<Rightarrow> bool" where
  "usable ap h \<longleftrightarrow> policy_usable ap (hk_id h) (hk_signing h)"

lemmas usable_defs = usable_def policy_usable_def

definition tables_usable :: "('u, 'k, 'z) hook_application \<Rightarrow> db \<Rightarrow> bool" where
  "tables_usable ap db \<longleftrightarrow> (\<forall>i h. stored (ap_deps ap) db i = Some (Ok h) \<longrightarrow> usable ap h)"

lemma usable_cong: "hk_id g = hk_id h \<Longrightarrow> hk_signing g = hk_signing h \<Longrightarrow> usable ap g = usable ap h"
  by (auto simp: usable_defs split: option.splits)

text \<open>The material of a usable hook that requires signatures.\<close>

lemma usable_material:
  assumes "usable ap h" and "sp_required (hk_signing h)" and "\<And>k. kc_spki_der (dp_keys (ap_deps ap)) k \<noteq> None"
  obtains secret m where
    "transpose_opt (map_option (secret_decrypt (dp_crypto (ap_deps ap)) (ap_keyring ap) (hk_id h))
       (encrypted_signing_secret h)) = Ok secret"
    "config_material (ap_crates ap) (dp_keys (ap_deps ap)) (sp_config (hk_signing h))
       (map_option signing_secret_str secret) = Ok m"
    "vm_secret m \<noteq> None \<longleftrightarrow> uses_secret (sc_algorithm (sp_config (hk_signing h)))"
    "vm_public_key m \<noteq> None \<longleftrightarrow> is_asymmetric (sc_algorithm (sp_config (hk_signing h)))"
proof -
  let ?kc = "dp_keys (ap_deps ap)" and ?c = "sp_config (hk_signing h)"
  obtain key where key: "config_public_key (ap_crates ap) ?kc ?c = Ok key"
    and fits: "key \<noteq> None \<longleftrightarrow> is_asymmetric (sc_algorithm ?c)"
    using assms(1)
    by (cases "sc_public_key ?c") (auto simp: usable_defs config_validate_Ok config_public_key_def result_simps)
  have "\<exists>d. to_spki_der ?kc k = Ok d" for k
    using assms(3) [of k] by (auto simp: to_spki_der_def)
  then have "\<exists>der. transpose_opt (map_option (to_spki_der ?kc) key) = Ok der"
    by (cases key) (simp_all add: result_simps)
  then obtain der where der: "transpose_opt (map_option (to_spki_der ?kc) key) = Ok der" ..
  show thesis
  proof (cases "sp_encrypted_secret (hk_signing h)")
    case None
    with assms(1,2) have "\<not> uses_secret (sc_algorithm ?c)" by (simp add: usable_defs)
    with None key der fits show thesis
      by (intro that [of None]) (auto simp: encrypted_signing_secret_def config_material_def)
  next
    case (Some e)
    then obtain s b where s: "decrypt_secret ap (hk_id h) e = Ok s" "uses_secret (sc_algorithm ?c)"
      "secret_decode (ap_crates ap) (sc_secret_encoding ?c) (signing_secret_str s) = Ok b"
      using assms(1) by (auto simp: usable_defs)
    with Some key der fits show thesis
      by (intro that [of "Some s"]) (auto simp: encrypted_signing_secret_def config_material_def decrypt_secret_def uses_secret_def result_simps)
  qed
qed

section \<open>Secrets\<close>

definition drawn_secret :: "(signing_secret, entropy_error) result \<Rightarrow> bool" where
  "drawn_secret generated \<longleftrightarrow> (\<exists>fill. signing_secret_generate fill = Some generated)"

lemma from_text_str: "signing_secret_from_text v = Ok s \<Longrightarrow> signing_secret_str s = v"
  by (auto simp: signing_secret_from_text_def split: if_splits)

lemma drawn_secret_Ok:
  assumes "drawn_secret (Ok s)"
  shows "valid_secret s" and "all_ascii (signing_secret_str s)" and "signing_secret_str s \<noteq> []"
proof -
  obtain fill where fill: "signing_secret_generate fill = Some (Ok s)" using assms by (auto simp: drawn_secret_def)
  note parts = generated_values_are_valid_parts(2) [OF fill]
  obtain r where r: "signing_secret_str s = signing_secret_prefix @ r" "set r \<subseteq> set secret_alphabet"
    using parts by blast
  have "all_ascii signing_secret_prefix" by (simp add: signing_secret_prefix_def lit_def all_ascii_def)
  with r all_ascii_subset [OF r(2)] show ascii: "all_ascii (signing_secret_str s)"
    using alphabets_ascii by (auto simp: all_ascii_def)
  have "valid_text t" if "all_ascii t" for t
    using that by (auto simp: all_ascii_def valid_text_def scalar_def)
  with ascii show "valid_secret s"
    using parts by (simp add: valid_secret_def)
  show "signing_secret_str s \<noteq> []" using parts by (auto simp: signing_secret_from_text_def)
qed

lemma generated_secret:
  assumes "drawn_secret generated" and "codecs_round_trip cr" and "crates_return_text cr"
    and "generate_signing_secret cr generated enc = Ok s"
  shows "valid_secret s" and "\<exists>b. secret_decode cr enc (signing_secret_str s) = Ok b"
proof -
  obtain g where g: "generated = Ok g" using assms(4) by (auto simp: generate_signing_secret_def result_simps)
  note drawn = drawn_secret_Ok [OF assms(1) [unfolded g]]
  have ne: "utf8 (signing_secret_str g) \<noteq> []" using drawn(3) str_len_eq_0 [of "signing_secret_str g"] by (auto simp: str_len_def)
  have encoded: "valid_secret s \<and> signing_secret_str s = t" if "signing_secret_from_text t = Ok s" "valid_text t" for t
    using that from_text_str [OF that(1)] by (simp add: valid_secret_def)
  note law = assms(2) [unfolded codecs_round_trip_def] and text_law = assms(3) [unfolded crates_return_text_def]
  have "valid_secret s \<and> (\<exists>b. secret_decode cr enc (signing_secret_str s) = Ok b)"
  proof (cases enc)
    case SecHex
    with assms(4) g have "signing_secret_from_text (cr_hex_encode cr (utf8 (signing_secret_str g))) = Ok s"
      by (simp add: generate_signing_secret_def Let_def result_simps)
    from encoded [OF this] text_law law ne SecHex show ?thesis by (simp add: secret_decode_def)
  next
    case SecBase64
    with assms(4) g have "signing_secret_from_text (cr_base64_encode cr STANDARD (utf8 (signing_secret_str g))) = Ok s"
      by (simp add: generate_signing_secret_def Let_def result_simps)
    from encoded [OF this] text_law law ne SecBase64 show ?thesis by (simp add: secret_decode_def)
  next
    case SecBase64Url
    with assms(4) g have "signing_secret_from_text (cr_base64_encode cr URL_SAFE_NO_PAD (utf8 (signing_secret_str g))) = Ok s"
      by (simp add: generate_signing_secret_def Let_def result_simps)
    from encoded [OF this] text_law law ne SecBase64Url show ?thesis by (simp add: secret_decode_def)
  qed (use assms(4) g drawn ne in \<open>auto simp: generate_signing_secret_def secret_decode_def Let_def\<close>)
  then show "valid_secret s" and "\<exists>b. secret_decode cr enc (signing_secret_str s) = Ok b" by simp_all
qed

lemma decrypt_what_was_encrypted:
  assumes "aead_law (dp_crypto (ap_deps ap))" and "valid_secret s" and "encrypt_secret ap nonce i s = Ok e"
  shows "decrypt_secret ap i e = Ok s"
  using decrypt_encrypted(1) [OF assms(1,2), of "ap_keyring ap" nonce i e "ap_keyring ap"] assms(3)
  by (simp add: encrypt_secret_def decrypt_secret_def result_simps keyring_key_def keyring_current_key_def)

definition supplied_valid :: "signing_input \<Rightarrow> bool" where
  "supplied_valid input \<longleftrightarrow> (\<forall>s. si_secret input = Some s \<longrightarrow> valid_secret s)"

lemma validated_input:
  assumes "validate_signing_input ap input = Ok u"
  shows "config_validate (ap_crates ap) (dp_keys (ap_deps ap)) (si_config input) = Ok ()"
    and "si_secret input = Some s \<Longrightarrow> uses_secret (sc_algorithm (si_config input)) \<and>
      (\<exists>b. secret_decode (ap_crates ap) (sc_secret_encoding (si_config input)) (signing_secret_str s) = Ok b)"
  using assms
  by (auto simp: validate_signing_input_def validate_secret_encoding_def result_simps uses_secret_def split: if_splits option.splits)

lemma initial_secret_fits:
  assumes "validate_signing_input ap input = Ok u" and "supplied_valid input" and "drawn_secret generated"
    and "codecs_round_trip (ap_crates ap)" and "crates_return_text (ap_crates ap)"
    and "initial_secret (ap_crates ap) generated input = Ok secret"
  shows "secret \<noteq> None \<longleftrightarrow> uses_secret (sc_algorithm (si_config input))"
    and "secret = Some s \<Longrightarrow> valid_secret s \<and>
      (\<exists>b. secret_decode (ap_crates ap) (sc_secret_encoding (si_config input)) (signing_secret_str s) = Ok b)"
proof -
  note facts = assms(6) validated_input [OF assms(1)] assms(2) generated_secret [OF assms(3-5)]
  show "secret \<noteq> None \<longleftrightarrow> uses_secret (sc_algorithm (si_config input))"
    using facts(1) by (cases "si_secret input") (auto simp: initial_secret_def result_simps split: if_splits dest: sym)
  show "valid_secret s \<and>
      (\<exists>b. secret_decode (ap_crates ap) (sc_secret_encoding (si_config input)) (signing_secret_str s) = Ok b)"
    if "secret = Some s"
    using that facts
    by (cases "si_secret input") (auto simp: initial_secret_def supplied_valid_def result_simps split: if_splits)
qed

section \<open>Updated policies\<close>

lemma updated_policy_usable:
  assumes "aead_law (dp_crypto (ap_deps ap))" and "validate_signing_input ap input = Ok u" and "supplied_valid input"
    and "signing_policy_of ap nonce (hk_id h) input (hk_signing h) = Ok p" and "usable ap h"
    and "hk_id g = hk_id h" and "hk_signing g = p"
  shows "usable ap g"
proof -
  let ?cr = "ap_crates ap" and ?c = "si_config input"
  obtain encrypted where eff: "effective_secret ap nonce (hk_id h) input (hk_signing h) = Ok encrypted"
    and req: "\<not> (si_required input \<and> uses_secret (sc_algorithm ?c) \<and> encrypted = None)"
    and p: "p = \<lparr>sp_required = si_required input, sp_config = ?c, sp_encrypted_secret = encrypted\<rparr>"
    using assms(4) by (auto simp: signing_policy_of_def result_simps split: if_splits)
  note valid = validated_input [OF assms(2)]
  have "uses_secret (sc_algorithm ?c) \<and> (\<exists>s b. decrypt_secret ap (hk_id h) e = Ok s \<and>
      secret_decode ?cr (sc_secret_encoding ?c) (signing_secret_str s) = Ok b)" if e: "encrypted = Some e" for e
  proof (cases "si_secret input")
    case (Some s)
    then have "encrypt_secret ap nonce (hk_id h) s = Ok e"
      using eff e by (auto simp: effective_secret_def result_simps split: if_splits)
    with Some valid(2) [OF Some] decrypt_what_was_encrypted [OF assms(1) _ this] assms(3)
    show ?thesis by (auto simp: supplied_valid_def)
  next
    case None
    then have old: "sp_encrypted_secret (hk_signing h) = Some e" and uses: "uses_secret (sc_algorithm ?c)"
      using eff e by (auto simp: effective_secret_def uses_secret_def result_simps split: if_splits option.splits)
    obtain s b where s: "decrypt_secret ap (hk_id h) e = Ok s"
      "secret_decode ?cr (sc_secret_encoding (sp_config (hk_signing h))) (signing_secret_str s) = Ok b"
      using assms(5) old by (auto simp: usable_defs)
    show ?thesis
    proof (cases "sc_secret_encoding ?c = sc_secret_encoding (sp_config (hk_signing h))")
      case True
      with s uses show ?thesis by auto
    next
      case False
      then have "validate_secret_encoding ?cr (sc_secret_encoding ?c) s = Ok ()"
        using eff None old uses s(1) e by (auto simp: effective_secret_def uses_secret_def result_simps split: if_splits)
      with s(1) uses show ?thesis by (auto simp: validate_secret_encoding_def result_simps)
    qed
  qed
  then show ?thesis
    using valid(1) req by (auto simp: usable_defs assms(6,7) p split: option.split)
qed

lemma kept_signing:
  "hook_disable t h = Ok g \<Longrightarrow> hk_signing g = hk_signing h \<and> hk_id g = hk_id h"
  "hook_enable t h = Ok g \<Longrightarrow> hk_signing g = hk_signing h \<and> hk_id g = hk_id h"
  by (auto simp: hook_ops result_simps split: hook_status.splits if_splits option.splits)

lemma stored_get: "get_hook dp su i db = Ok (Some h) \<Longrightarrow> ids_ok db \<Longrightarrow>
    stored dp db (hook_uuid i) = Some (Ok h) \<and> hk_id h = i"
  by (auto simp: get_hook_Ok stored_def dest: owned_is_found) (auto simp: hook_of_row_Ok row_owned_def dest: owned_is_found(2))

lemma load_hook_Ok:
  "load_hook ap a i db = (Ok h, db') \<longleftrightarrow> get_hook (ap_deps ap) (sr_uuid (ac_silicon a)) i db = Ok (Some h) \<and> db' = db"
  by (auto simp: load_hook_def app_bind_Ok query_Ok result_simps)

section \<open>The attempts of a creation\<close>

lemma create_attempt_Ok:
  "create_attempt ap p now secret d db = (Ok outcome, db') \<longleftrightarrow>
     (\<exists>key encrypted until. dw_endpoint_key d = Ok key \<and>
        transpose_opt (map_option (encrypt_secret ap (dw_nonce d) (dw_hook_id d)) secret) = Ok encrypted \<and>
        transpose_opt (map_option (\<lambda>_. secret_replay_until (dp_time (ap_deps ap)) now) encrypted) = Ok until \<and>
        attempt (create_hook (ap_deps ap) (dw_audit_id d) (attempted_command p now (dw_hook_id d) key encrypted until)) db =
          (Ok outcome, db'))"
  by (auto simp: create_attempt_def app_bind_Ok result_simps)

lemma create_attemptsE:
  assumes "create_attempts ap p now secret ds db = (Ok r, db')"
  obtains (created) d :: attempt_draw and key encrypted until h where "dw_endpoint_key d = Ok key"
      "transpose_opt (map_option (encrypt_secret ap (dw_nonce d) (dw_hook_id d)) secret) = Ok encrypted"
      "transpose_opt (map_option (\<lambda>_. secret_replay_until (dp_time (ap_deps ap)) now) encrypted) = Ok until"
      "create_hook (ap_deps ap) (dw_audit_id d) (attempted_command p now (dw_hook_id d) key encrypted until) db = Ok (HookCreated h, db')"
      "r = \<lparr>hw_hook = h, hw_signing_secret = secret\<rparr>"
  | (replayed) a c h response where "ch_idempotency c = create_scope p" "ch_recorded_at c = now"
      "hk_silicon_uuid (ch_hook c) = Some (cp_silicon_uuid p)"
      "create_hook (ap_deps ap) a c db = Ok (CreateReplayed h response, db')"
      "secret_result_from_replay ap h response = Ok r"
  using assms
proof (induction ds arbitrary: thesis)
  case (Cons d ds)
  obtain outcome db1 where one: "create_attempt ap p now secret d db = (Ok outcome, db1)"
    and rest: "(case outcome of
         Ok (HookCreated h) \<Rightarrow> give (Ok \<lparr>hw_hook = h, hw_signing_secret = secret\<rparr>)
       | Ok (CreateReplayed h response) \<Rightarrow> give (secret_result_from_replay ap h response)
       | Err EndpointKeyConflict \<Rightarrow> create_attempts ap p now secret ds
       | Err e \<Rightarrow> give (Err (map_store_error e))) db1 = (Ok r, db')"
    using Cons.prems(3) by (auto simp: app_bind_Ok)
  obtain key encrypted until where d: "dw_endpoint_key d = Ok key"
      "transpose_opt (map_option (encrypt_secret ap (dw_nonce d) (dw_hook_id d)) secret) = Ok encrypted"
      "transpose_opt (map_option (\<lambda>_. secret_replay_until (dp_time (ap_deps ap)) now) encrypted) = Ok until"
    and att: "attempt (create_hook (ap_deps ap) (dw_audit_id d) (attempted_command p now (dw_hook_id d) key encrypted until)) db =
          (Ok outcome, db1)"
    using one by (auto simp: create_attempt_Ok)
  show ?case
  proof (cases outcome)
    case (Err e)
    with att rest show ?thesis
      using Cons.IH [OF Cons.prems(1,2)] by (cases e) (auto simp: attempt_Ok)
  next
    case (Ok out)
    with att have run: "create_hook (ap_deps ap) (dw_audit_id d) (attempted_command p now (dw_hook_id d) key encrypted until) db = Ok (out, db1)"
      by (simp add: attempt_Ok)
    show ?thesis
    proof (cases out)
      case (HookCreated h)
      with rest Ok run show ?thesis by (intro Cons.prems(1) [OF d]) auto
    next
      case (CreateReplayed h response)
      with rest Ok run show ?thesis
        by (intro Cons.prems(2) [of "attempted_command p now (dw_hook_id d) key encrypted until" "dw_audit_id d" h response])
          (simp_all add: attempted_command_def attempted_hook_def hook_create_def)
    qed
  qed
qed simp


section \<open>Operations that answer with a hook\<close>

lemma created_hook_usable:
  assumes "aead_law (dp_crypto (ap_deps ap))" and "codecs_round_trip (ap_crates ap)" and "crates_return_text (ap_crates ap)"
    and "ids_ok db" and "tables_usable ap db" and "supplied_valid (cp_signing p)" and "drawn_secret generated"
    and "validate_signing_input ap (cp_signing p) = Ok u"
    and "create_hook_inner ap draws generated now p db = (Ok r, db')"
  shows "usable ap (hw_hook r) \<and>
    (\<forall>s. hw_signing_secret r = Some s \<longrightarrow>
      (\<exists>e. encrypted_signing_secret (hw_hook r) = Some e \<and> decrypt_secret ap (hk_id (hw_hook r)) e = Ok s))"
proof -
  obtain secret where init: "initial_secret (ap_crates ap) generated (cp_signing p) = Ok secret"
    and run: "create_attempts ap p (database_time now) secret (map draws [0..<endpoint_generation_attempts]) db = (Ok r, db')"
    using assms(9) by (auto simp: create_hook_inner_def app_bind_Ok)
  note fits = initial_secret_fits [OF assms(8,6,7,2,3) init]
  from run show ?thesis
  proof (cases rule: create_attemptsE)
    case (created d key encrypted until h)
    have h: "h = attempted_hook p (database_time now) (dw_hook_id d) key encrypted"
      using created(4) by (cases rule: create_hookE) (simp_all add: attempted_command_def)
    have sig: "hk_id h = dw_hook_id d" "hk_signing h =
        \<lparr>sp_required = si_required (cp_signing p), sp_config = si_config (cp_signing p), sp_encrypted_secret = encrypted\<rparr>"
      by (simp_all add: h attempted_hook_def hook_create_def)
    show ?thesis
    proof (cases secret)
      case None
      with created(2,5) fits(1) validated_input(1) [OF assms(8)] sig show ?thesis
        by (simp add: usable_defs)
    next
      case (Some s)
      then obtain e where e: "encrypted = Some e" "encrypt_secret ap (dw_nonce d) (dw_hook_id d) s = Ok e"
        using created(2) by (auto simp: result_simps)
      have "uses_secret (sc_algorithm (si_config (cp_signing p)))" using fits(1) Some by blast
      with e Some created(5) fits(2) [OF Some] decrypt_what_was_encrypted [OF assms(1) _ e(2)]
        validated_input(1) [OF assms(8)] sig
      show ?thesis by (simp add: usable_defs encrypted_signing_secret_def)
    qed
  next
    case (replayed a c h response)
    from replayed(4) obtain su where res: "reserve_management_key (ch_idempotency c) (ch_recorded_at c) db = Ok (Replayed response, db')"
      and sel: "select_replayed_scoped_hook (ap_deps ap) su response db' = Ok h"
      and same: "pr_encrypted_secret response = encrypted_signing_secret h"
      by (cases rule: create_hookE) auto
    have ids: "ids_ok db'" using assms(4) reserve_hooks(5) [OF res] by simp
    obtain i where "get_hook (ap_deps ap) su i db' = Ok (Some h)"
      using sel by (auto simp: select_replayed_scoped_hook_def result_simps select_Ok get_hook_Ok)
    with stored_get [OF _ ids, of "ap_deps ap"] have "stored (ap_deps ap) db (hook_uuid i) = Some (Ok h)"
      using reserve_hooks(4) [OF res, of "ap_deps ap"] by simp
    with assms(5) have "usable ap h" by (auto simp: tables_usable_def)
    moreover obtain s where "r = \<lparr>hw_hook = h, hw_signing_secret = s\<rparr>"
        "transpose_opt (map_option (decrypt_secret ap (hk_id h)) (pr_encrypted_secret response)) = Ok s"
      using replayed(5) by (auto simp: secret_result_from_replay_def result_simps)
    ultimately show ?thesis by (auto simp: same result_simps)
  qed
qed

lemma one_enabled:
  assumes "set_one_enabled ap ids now c enabled db = (Ok g, db')" and "ids_ok db"
  shows "\<exists>h. stored (ap_deps ap) db (hook_uuid (uq_hook_id c)) = Some (Ok h) \<and>
    stored (ap_deps ap) db' (hook_uuid (uq_hook_id c)) = Some (Ok g) \<and>
    hk_signing g = hk_signing h \<and> hk_id g = hk_id h \<and> ids_ok db'"
proof -
  let ?c = "\<lparr>ba_silicon_uuid = sr_uuid (ac_silicon (uq_authorization c)), ba_hook_ids = [uq_hook_id c],
      ba_enabled = enabled, ba_audit = management_audit (uq_authorization c) (uq_request_id c),
      ba_occurred_at = database_time now\<rparr>"
  obtain gs where run: "set_hooks_enabled (ap_deps ap) ids ?c db = Ok (gs, db')" and g: "gs \<noteq> []" "g = last gs"
    using assms(1) by (auto simp: set_one_enabled_def app_bind_Ok transact_Ok split: if_splits)
  note act = activation_refines [OF run assms(2)]
  obtain h g' where h: "stored (ap_deps ap) db (hook_uuid (uq_hook_id c)) = Some (Ok h)"
    and g': "hook_activate enabled (database_time now) h = Ok g'" "g' \<in> set gs"
      "stored (ap_deps ap) db' (hook_uuid (uq_hook_id c)) = Some (Ok g')"
    using act(4) [of "hook_uuid (uq_hook_id c)"] by auto
  have "length gs = 1"
    using run by (auto simp: set_hooks_enabled_def activation_hook_ids_def lock_hooks_for_activation_def Let_def result_simps
        dest!: activation_transitions list_all2_lengthD split: if_splits)
  with g g'(2) have "g' = g" by (cases gs) auto
  with h g' act(2) kept_signing show ?thesis
    by (auto simp: hook_activate_def split: if_splits)
qed

lemma updated_hook_usable:
  assumes "aead_law (dp_crypto (ap_deps ap))" and "ids_ok db" and "tables_usable ap db"
    and "\<And>p s. up_signing (uq_patch c) = Some p \<Longrightarrow> sg_secret p = Some s \<Longrightarrow> valid_secret s"
    and "hooks_update ap nonce ids i now c db = (Ok g, db')"
  shows "usable ap g"
proof -
  let ?a = "uq_authorization c" and ?p = "uq_patch c"
  obtain h where h: "get_hook (ap_deps ap) (sr_uuid (ac_silicon ?a)) (uq_hook_id c) db = Ok (Some h)"
    and run: "hooks_update ap nonce ids i now c db = (Ok g, db')" and alive: "hk_status h \<noteq> Deleted"
    using assms(5) by (auto simp: hooks_update_def Let_def app_bind_Ok load_hook_Ok split: if_splits)
  let ?signing = "map_option (\<lambda>p. signing_patch_resolve p (sp_config (hk_signing h)) (sp_required (hk_signing h))) (up_signing ?p)"
  obtain signing db1 current where
    valid: "\<exists>u. transpose_opt (map_option (validate_signing_input ap) ?signing) = Ok u"
    and pol: "transpose_opt (map_option (\<lambda>s. signing_policy_of ap nonce (hk_id h) s (hk_signing h)) ?signing) = Ok signing"
    and cur: "(case up_enabled ?p of Some enabled \<Rightarrow> set_one_enabled ap ids now c enabled | None \<Rightarrow> give (Ok h)) db = (Ok current, db1)"
    and fin: "\<not> changes_metadata ?p \<and> g = current \<or>
      changes_metadata ?p \<and> update_hook (ap_deps ap) i
        \<lparr>uh_silicon_uuid = sr_uuid (ac_silicon ?a), uh_hook_id = uq_hook_id c,
         uh_update = \<lparr>hu_name = up_name ?p, hu_description = up_description ?p, hu_time_zone = up_time_zone ?p, hu_signing = signing\<rparr>,
         uh_audit = management_audit ?a (uq_request_id c), uh_occurred_at = database_time now\<rparr> db1 = Ok (g, db')"
    using run h alive
    by (auto simp: hooks_update_def Let_def app_bind_Ok load_hook_Ok transact_Ok map_ok_Ok_iff split: if_splits)
  have old: "stored (ap_deps ap) db (hook_uuid (uq_hook_id c)) = Some (Ok h)" "hk_id h = uq_hook_id c"
    using stored_get [OF h assms(2)] by blast+
  then have usable: "usable ap h" using assms(3) by (auto simp: tables_usable_def)
  have now: "stored (ap_deps ap) db1 (hook_uuid (uq_hook_id c)) = Some (Ok current)" "hk_signing current = hk_signing h"
      "hk_id current = hk_id h" "ids_ok db1"
    using cur old assms(2) one_enabled [of ap ids now c _ db current db1] by (auto split: option.splits)
  show ?thesis
  proof (cases "changes_metadata ?p")
    case False
    with fin usable usable_cong [OF now(3,2), of ap] show ?thesis by simp
  next
    case True
    then have upd: "update_hook (ap_deps ap) i
        \<lparr>uh_silicon_uuid = sr_uuid (ac_silicon ?a), uh_hook_id = uq_hook_id c,
         uh_update = \<lparr>hu_name = up_name ?p, hu_description = up_description ?p, hu_time_zone = up_time_zone ?p, hu_signing = signing\<rparr>,
         uh_audit = management_audit ?a (uq_request_id c), uh_occurred_at = database_time now\<rparr> db1 = Ok (g, db')"
      using fin by blast
    then obtain k where "select_scoped_hook_for_update (ap_deps ap) (sr_uuid (ac_silicon ?a)) (uq_hook_id c) db1 = Ok (Some k)"
      and g: "hook_apply_update \<lparr>hu_name = up_name ?p, hu_description = up_description ?p, hu_time_zone = up_time_zone ?p,
        hu_signing = signing\<rparr> k = Ok g"
      by (auto simp: update_hook_def result_simps)
    then have "get_hook (ap_deps ap) (sr_uuid (ac_silicon ?a)) (uq_hook_id c) db1 = Ok (Some k)"
      by (simp add: select_Ok get_hook_Ok)
    from stored_get [OF this now(4)] now(1) have k: "k = current" by simp
    show ?thesis
    proof (cases "up_signing ?p")
      case None
      with pol g k have "hk_signing g = hk_signing current" "hk_id g = hk_id current" by (auto simp: apply_update_Ok)
      with usable usable_cong [of g h ap] now show ?thesis by simp
    next
      case (Some p)
      let ?input = "signing_patch_resolve p (sp_config (hk_signing h)) (sp_required (hk_signing h))"
      obtain policy where policy: "signing = Some policy" "signing_policy_of ap nonce (hk_id h) ?input (hk_signing h) = Ok policy"
        using pol Some by (auto simp: result_simps)
      obtain u where "validate_signing_input ap ?input = Ok u" using valid Some by (auto simp: result_simps)
      moreover have "supplied_valid ?input" using assms(4) [OF Some] by (simp add: supplied_valid_def signing_patch_resolve_def)
      moreover have "hk_id g = hk_id h" "hk_signing g = policy" using g k now(3) policy(1) by (auto simp: apply_update_Ok)
      ultimately show ?thesis using updated_policy_usable [OF assms(1) _ _ policy(2) usable] by blast
    qed
  qed
qed

lemma rotated_hook_usable:
  assumes "aead_law (dp_crypto (ap_deps ap))" and "codecs_round_trip (ap_crates ap)" and "crates_return_text (ap_crates ap)"
    and "ids_ok db" and "tables_usable ap db" and "drawn_secret generated"
    and "hooks_rotate_secret ap generated nonce i now c db = (Ok r, db')"
  shows "usable ap (hw_hook r) \<and>
    (\<forall>s. hw_signing_secret r = Some s \<longrightarrow>
      (\<exists>e. encrypted_signing_secret (hw_hook r) = Some e \<and> decrypt_secret ap (hk_id (hw_hook r)) e = Ok s))"
proof -
  let ?a = "mc_authorization (mq_context c)" and ?now = "database_time now"
  obtain h secret encrypted until out where
    h: "get_hook (ap_deps ap) (sr_uuid (ac_silicon ?a)) (mq_hook_id c) db = Ok (Some h)"
    and sym: "\<not> is_asymmetric (sc_algorithm (sp_config (hk_signing h)))"
    and secret: "generate_signing_secret (ap_crates ap) generated (sc_secret_encoding (sp_config (hk_signing h))) = Ok secret"
    and enc: "encrypt_secret ap nonce (mq_hook_id c) secret = Ok encrypted"
    and run: "rotate_hook_secret (ap_deps ap) i
          \<lparr>rs_silicon_uuid = sr_uuid (ac_silicon ?a), rs_hook_id = mq_hook_id c, rs_encrypted_secret = encrypted,
           rs_idempotency = mutation_scope ap ''hook.secret.rotate'' c (empty_request_digest ap),
           rs_response = \<lparr>pr_status = 200, pr_resource_id = Some (mq_hook_id c),
             pr_encrypted_secret = Some encrypted, pr_secret_replay_until = Some until\<rparr>,
           rs_audit = management_audit ?a (mc_request_id (mq_context c)), rs_occurred_at = ?now\<rparr> db = Ok (out, db')"
    and r: "(case out of Rotated h \<Rightarrow> Ok \<lparr>hw_hook = h, hw_signing_secret = Some secret\<rparr>
          | RotationReplayed h response \<Rightarrow> secret_result_from_replay ap h response) = Ok r"
    using assms(7)
    by (auto simp: hooks_rotate_secret_def store_rotated_secret_def Let_def load_for_mutation_def app_bind_Ok load_hook_Ok
        transact_Ok split: if_splits)
  have old: "stored (ap_deps ap) db (hook_uuid (mq_hook_id c)) = Some (Ok h)" "hk_id h = mq_hook_id c"
    using stored_get [OF h assms(4)] by blast+
  then have usable: "usable ap h" using assms(5) by (auto simp: tables_usable_def)
  note fits = generated_secret [OF assms(6,2,3) secret]
  from run show ?thesis
  proof (cases rule: rotate_hook_secretE)
    case (fresh k g db1 db2 db3)
    have "get_hook (ap_deps ap) (sr_uuid (ac_silicon ?a)) (mq_hook_id c) db1 = Ok (Some k)"
      using fresh(2) by (simp add: select_Ok get_hook_Ok)
    from stored_get [OF this] reserve_hooks(4) [OF fresh(1), of "ap_deps ap"] reserve_hooks(5) [OF fresh(1)] assms(4) old(1)
    have "k = h" by simp
    with fresh(3) have g: "hk_id g = hk_id h" "hk_signing g = (hk_signing h)\<lparr>sp_encrypted_secret := Some encrypted\<rparr>"
      by (auto simp: hook_rotate_secret_def split: if_splits)
    have "r = \<lparr>hw_hook = g, hw_signing_secret = Some secret\<rparr>" using r fresh(7) by simp
    moreover have "usable ap g"
      using usable g old(2) sym fits(2) decrypt_what_was_encrypted [OF assms(1) fits(1) enc]
      by (auto simp: usable_defs uses_secret_def split: option.splits)
    ultimately show ?thesis
      using g old(2) decrypt_what_was_encrypted [OF assms(1) fits(1) enc] by (simp add: encrypted_signing_secret_def)
  next
    case (replayed k response)
    have ids: "ids_ok db'" using assms(4) reserve_hooks(5) [OF replayed(1)] by simp
    obtain j where "get_hook (ap_deps ap) (sr_uuid (ac_silicon ?a)) j db' = Ok (Some k)"
      using replayed(2) by (auto simp: select_replayed_scoped_hook_def result_simps select_Ok get_hook_Ok)
    with stored_get [OF _ ids, of "ap_deps ap"] have "stored (ap_deps ap) db (hook_uuid j) = Some (Ok k)"
      using reserve_hooks(4) [OF replayed(1), of "ap_deps ap"] by simp
    with assms(5) have k: "usable ap k" by (auto simp: tables_usable_def)
    obtain s where s: "r = \<lparr>hw_hook = k, hw_signing_secret = s\<rparr>"
        "transpose_opt (map_option (decrypt_secret ap (hk_id k)) (encrypted_signing_secret k)) = Ok s"
      using r replayed(4,5) by (auto simp: secret_result_from_replay_def result_simps)
    show ?thesis
      using k s by (auto simp: result_simps)
  qed
qed

end
