(* ===== verification/HookReplay.thy ===== *)
theory HookReplay
  imports HookSigning
begin

text \<open>
  A creation that is repeated with its idempotency key: the hook it made is found again under the
  stored response, whatever the repetition draws, and the secret is decrypted from the response.
\<close>

section \<open>Finding the hook again\<close>

text \<open>Failures of what an attempt draws, before the store is reached.\<close>

definition drawing_fault :: "fault \<Rightarrow> bool" where
  "drawing_fault f \<longleftrightarrow>
     (case f of EntropyFault \<Rightarrow> True | CipherFault _ \<Rightarrow> True | DomainFault _ \<Rightarrow> True
      | FaultText t \<Rightarrow> t = ''secret replay deadline overflow'' | _ \<Rightarrow> False)"

lemma stored_is_found:
  assumes "stored dp db (hook_uuid i) = Some (Ok h)" and "ids_ok db"
    and "\<And>r. hook_of_row dp r = Ok h \<Longrightarrow> hr_silicon_uuid r = Some (account_uuid_str su)"
  shows "select_scoped_hook_for_update dp su i db = Ok (Some h)"
proof -
  obtain r where r: "find (\<lambda>q. hr_id q = hook_uuid i) (db_hooks db) = Some r" "hook_of_row dp r = Ok h"
    using assms(1) by (auto simp: stored_def)
  have mem: "r \<in> set (db_hooks db)" "hr_id r = hook_uuid i" using find_SomeD [OF r(1)] by simp_all
  have "find (row_owned su i) (db_hooks db) = Some r"
  proof (rule find_unique [of hr_id])
    show "distinct (map hr_id (db_hooks db))" using assms(2) by (simp add: ids_ok_def)
  qed (use mem assms(3) [OF r(2)] in \<open>auto simp: row_owned_def\<close>)
  with r(2) show ?thesis by (simp add: select_Ok)
qed

lemma row_owner:
  assumes "hook_of_row dp r = Ok h" and "hk_silicon_uuid h = Some su"
  shows "hr_silicon_uuid r = Some (account_uuid_str su)"
  using assms by (auto simp: hook_of_row_Ok optional_uuid_def result_simps account_uuid_new_def split: if_splits)

lemma replayed_creation:
  assumes "create_hook dp a c db = Ok (HookCreated h, db')" and "ids_ok db" and "hook_storable dp h"
    and "wf_hook h" and "hk_last_received_at h = None" "hk_last_blocked_at h = None" "hk_endpoint_rotated_at h = None"
    and "validate_create_command (dp_time dp) c' = Ok ()" and "hk_silicon_uuid (ch_hook c') = hk_silicon_uuid (ch_hook c)"
    and "ch_idempotency c' = ch_idempotency c" and "ch_recorded_at c' < ch_recorded_at c + duration_days 1"
  shows "create_hook dp a' c' db' =
    (if \<exists>t. pr_secret_replay_until (ch_response c) = Some t \<and> t < ch_recorded_at c' then Err SecretReplayExpired
     else Ok (CreateReplayed h (ch_response c), db'))"
proof -
  note new = create_refines [OF assms(1-7)]
  from assms(1) show ?thesis
  proof (cases rule: create_hookE)
    case (fresh su db1 db2 db3)
    have h: "ch_hook c = h" using new by simp
    have "db_idempotency db3 = db_idempotency db1"
      using fresh(6,7) by (auto simp: insert_audit_Ok dest!: insert_hook_Ok)
    moreover have "pr_encrypted_secret (ch_response c) = encrypted_signing_secret h"
      and res: "pr_resource_id (ch_response c) = Some (hk_id h)" and act: "hk_status h = Active"
      using fresh(2) h by (simp_all add: validate_create_command_def split: if_splits)
    moreover from this have "response_storable (ch_response c)"
      using assms(3) by (auto simp: response_storable_def hook_storable_def signing_storable_def encrypted_signing_secret_def)
    ultimately have
      expired: "(\<exists>t. pr_secret_replay_until (ch_response c) = Some t \<and> t < ch_recorded_at c') \<Longrightarrow>
        reserve_management_key (ch_idempotency c') (ch_recorded_at c') db' = Err SecretReplayExpired"
      and live: "\<not> (\<exists>t. pr_secret_replay_until (ch_response c) = Some t \<and> t < ch_recorded_at c') \<Longrightarrow>
        reserve_management_key (ch_idempotency c') (ch_recorded_at c') db' = Ok (Replayed (ch_response c), db')"
      using replayed_for_a_day [OF fresh(3) _ fresh(8), of "ch_idempotency c'" "ch_recorded_at c'"] assms(10,11)
      by (auto simp: not_less)
    have "stored dp db' (hook_uuid (hk_id h)) = Some (Ok h)" using new by simp
    moreover have "ids_ok db'" using new by simp
    moreover have "hk_silicon_uuid h = Some su" using fresh(1) h by simp
    ultimately have "select_scoped_hook_for_update dp su (hk_id h) db' = Ok (Some h)"
      using stored_is_found row_owner by blast
    then have "select_replayed_scoped_hook dp su (ch_response c) db' = Ok h"
      by (simp add: select_replayed_scoped_hook_def res)
    with live expired assms(8,9) fresh(1) act \<open>pr_encrypted_secret (ch_response c) = encrypted_signing_secret h\<close>
    show ?thesis by (simp add: create_hook_def)
  qed simp
qed

section \<open>The attempts of a repetition\<close>

lemma fresh_hook:
  "wf_hook (attempted_hook p now i key e)" "hk_last_received_at (attempted_hook p now i key e) = None"
  "hk_last_blocked_at (attempted_hook p now i key e) = None" "hk_endpoint_rotated_at (attempted_hook p now i key e) = None"
  by (simp_all add: attempted_hook_def wf_hook_create) (simp_all add: hook_create_def)

lemma attempted_sel:
  "ch_hook (attempted_command p now i key e t) = attempted_hook p now i key e"
  "hk_silicon_uuid (attempted_hook p now i key e) = Some (cp_silicon_uuid p)"
  "ch_idempotency (attempted_command p now i key e t) = create_scope p"
  "ch_recorded_at (attempted_command p now i key e t) = now"
  "pr_secret_replay_until (ch_response (attempted_command p now i key e t)) = t"
  "pr_encrypted_secret (ch_response (attempted_command p now i key e t)) = e"
  by (simp_all add: attempted_command_def) (simp add: attempted_hook_def hook_create_def)

lemma valid_attempt:
  assumes "transpose_opt (map_option (\<lambda>_. secret_replay_until tc now) encrypted) = Ok until"
  shows "validate_create_command tc (attempted_command p now i key encrypted until) = Ok ()"
  using assms
  by (cases encrypted)
    (auto simp: validate_create_command_def attempted_command_def attempted_hook_def hook_create_def create_scope_def
      has_normative_secret_deadline_def encrypted_signing_secret_def secret_replay_until_def result_simps split: option.split)

lemma drawing_faults [simp]: "drawing_fault EntropyFault" "drawing_fault (CipherFault e)" "drawing_fault (DomainFault d)"
    "drawing_fault (FaultText ''secret replay deadline overflow'')"
  by (simp_all add: drawing_fault_def)

lemma initial_secret_faults: "initial_secret cr generated signing = Err e \<Longrightarrow> \<exists>f. e = Internal f \<and> drawing_fault f"
  by (cases "sc_secret_encoding (si_config signing)")
    (auto simp: initial_secret_def generate_signing_secret_def Let_def result_simps split: if_splits option.splits)

text \<open>An attempt reaches the store when what it draws was drawn: the key, the nonce and the deadline of the secret.\<close>

definition attempt_drawn :: "('u, 'k, 'z) hook_application \<Rightarrow> instant \<Rightarrow> signing_secret option \<Rightarrow> attempt_draw \<Rightarrow> bool" where
  "attempt_drawn ap now secret d \<longleftrightarrow>
     is_ok (dw_endpoint_key d) \<and> (\<forall>s. secret = Some s \<longrightarrow> is_ok (encrypt_secret ap (dw_nonce d) (dw_hook_id d) s)) \<and>
     (secret \<noteq> None \<longrightarrow> is_ok (secret_replay_until (dp_time (ap_deps ap)) now))"

definition creation_drawn ::
  "('u, 'k, 'z) hook_application \<Rightarrow> (nat \<Rightarrow> attempt_draw) \<Rightarrow> (signing_secret, entropy_error) result \<Rightarrow> instant \<Rightarrow> signing_input \<Rightarrow> bool" where
  "creation_drawn ap draws generated now signing \<longleftrightarrow>
     (\<exists>secret. initial_secret (ap_crates ap) generated signing = Ok secret \<and> attempt_drawn ap (database_time now) secret (draws 0))"

lemma attempt_drawn_cases:
  "attempt_drawn ap now secret d \<longleftrightarrow>
     (\<exists>k en un. dw_endpoint_key d = Ok k \<and>
        transpose_opt (map_option (encrypt_secret ap (dw_nonce d) (dw_hook_id d)) secret) = Ok en \<and>
        transpose_opt (map_option (\<lambda>_. secret_replay_until (dp_time (ap_deps ap)) now) en) = Ok un)"
  by (cases secret; cases "dw_endpoint_key d") (auto simp: attempt_drawn_def result_simps elim!: is_ok.elims split: result.splits)

lemma undrawn_attempt:
  assumes "\<not> attempt_drawn ap now secret d"
  shows "\<exists>f. create_attempt ap p now secret d db = (Err (Internal f), db) \<and> drawing_fault f"
proof (cases "dw_endpoint_key d")
  case key: (Ok k)
  show ?thesis
  proof (cases "transpose_opt (map_option (encrypt_secret ap (dw_nonce d) (dw_hook_id d)) secret)")
    case nonced: (Ok en)
    then obtain e where "transpose_opt (map_option (\<lambda>_. secret_replay_until (dp_time (ap_deps ap)) now) en) = Err e"
      using assms key
      by (cases "transpose_opt (map_option (\<lambda>_. secret_replay_until (dp_time (ap_deps ap)) now) en)") (auto simp: attempt_drawn_cases)
    with key nonced show ?thesis
      by (cases en; cases "tc_checked_add (dp_time (ap_deps ap)) now secret_replay_window")
        (auto simp: create_attempt_def secret_replay_until_def)
  next
    case (Err e)
    with key show ?thesis
      by (cases secret; cases "secret_encrypt (dp_crypto (ap_deps ap)) (ap_keyring ap) (dw_nonce d) (dw_hook_id d) (the secret)")
        (auto simp: create_attempt_def encrypt_secret_def)
  qed
qed (simp add: create_attempt_def)

lemma repeated_attempt:
  assumes "create_hook (ap_deps ap) a (attempted_command p now i key encrypted until) db = Ok (HookCreated h, db')"
    and "ids_ok db" and "hook_storable (ap_deps ap) h" and "again < now + duration_days 1" and "attempt_drawn ap again secret d"
  shows "if \<exists>t. until = Some t \<and> t < again
     then create_attempt ap p again secret d db' = (Ok (Err SecretReplayExpired), db')
     else \<exists>response. create_attempt ap p again secret d db' = (Ok (Ok (CreateReplayed h response)), db') \<and>
       pr_encrypted_secret response = encrypted"
proof -
  have h: "h = attempted_hook p now i key encrypted"
    using assms(1) by (cases rule: create_hookE) (simp_all add: attempted_command_def)
  obtain k en un where drawn: "dw_endpoint_key d = Ok k"
      "transpose_opt (map_option (encrypt_secret ap (dw_nonce d) (dw_hook_id d)) secret) = Ok en"
      "transpose_opt (map_option (\<lambda>_. secret_replay_until (dp_time (ap_deps ap)) again) en) = Ok un"
    using assms(5) unfolding attempt_drawn_cases by blast
  let ?c = "attempted_command p again (dw_hook_id d) k en un"
  let ?old = "attempted_command p now i key encrypted until"
  have same: "hk_silicon_uuid (ch_hook ?c) = hk_silicon_uuid (ch_hook ?old)" "ch_idempotency ?c = ch_idempotency ?old"
    "ch_recorded_at ?c = again" "ch_recorded_at ?old = now" "pr_secret_replay_until (ch_response ?old) = until"
    by (simp_all only: attempted_sel)
  then have "ch_recorded_at ?c < ch_recorded_at ?old + duration_days 1" using assms(4) by simp
  from replayed_creation [OF assms(1-3) fresh_hook [of p now i key encrypted, folded h] valid_attempt [OF drawn(3)] same(1,2) this]
  have "create_hook (ap_deps ap) (dw_audit_id d) ?c db' =
    (if \<exists>t. until = Some t \<and> t < again then Err SecretReplayExpired
     else Ok (CreateReplayed h (ch_response ?old), db'))"
    by (simp only: same(3,5))
  with drawn show ?thesis
    by (simp add: create_attempt_def attempt_def attempted_sel(6))
qed

lemma repeated_creation:
  assumes "aead_law (dp_crypto (ap_deps ap))" and "codecs_round_trip (ap_crates ap)" and "crates_return_text (ap_crates ap)"
    and "ids_ok db" and "supplied_valid (cp_signing p)" and "drawn_secret generated"
    and "validate_signing_input ap (cp_signing p) = Ok u"
    and "create_hook_inner ap draws generated now p db = (Ok r, db')"
    and "stored (ap_deps ap) db (hook_uuid (hk_id (hw_hook r))) = None" and "hook_storable (ap_deps ap) (hw_hook r)"
    and "database_time again < database_time now + duration_days 1"
  shows "if creation_drawn ap draws' generated' again (cp_signing p)
    then create_hook_inner ap draws' generated' again p db' =
      (if hw_signing_secret r \<noteq> None \<and>
          (\<exists>t. secret_replay_until (dp_time (ap_deps ap)) (database_time now) = Ok t \<and> t < database_time again)
       then Err SecretUnavailable else Ok r, db')
    else \<exists>f. create_hook_inner ap draws' generated' again p db' = (Err (Internal f), db') \<and> drawing_fault f"
proof -
  let ?now = "database_time now" and ?again = "database_time again"
  obtain secret where init: "initial_secret (ap_crates ap) generated (cp_signing p) = Ok secret"
    and run: "create_attempts ap p ?now secret (map draws [0..<endpoint_generation_attempts]) db = (Ok r, db')"
    using assms(8) by (auto simp: create_hook_inner_def app_bind_Ok)
  have again: "create_hook_inner ap draws' generated' again p db' =
      (case initial_secret (ap_crates ap) generated' (cp_signing p) of
         Err e \<Rightarrow> (Err e, db')
       | Ok secret' \<Rightarrow> create_attempts ap p ?again secret' (map draws' [0..<endpoint_generation_attempts]) db')"
    by (simp add: create_hook_inner_def app_bind_def split: result.split)
  from run show ?thesis
  proof (cases rule: create_attemptsE)
    case (created d key encrypted until h)
    have stored: "hook_storable (ap_deps ap) h" using assms(10) created(5) by simp
    note attempt = repeated_attempt [OF created(4) assms(4) stored assms(11)]
    have expired: "(\<exists>t. until = Some t \<and> t < ?again) \<longleftrightarrow> hw_signing_secret r \<noteq> None \<and>
        (\<exists>t. secret_replay_until (dp_time (ap_deps ap)) ?now = Ok t \<and> t < ?again)"
      using created(2,3,5) by (cases secret; cases encrypted) (auto simp: result_simps)
    have replay: "secret_result_from_replay ap h response = Ok r" if "pr_encrypted_secret response = encrypted" for response
    proof (cases secret)
      case None
      then show ?thesis using created(2,5) that by (simp add: secret_result_from_replay_def)
    next
      case (Some s)
      then obtain e where e: "encrypted = Some e" "encrypt_secret ap (dw_nonce d) (dw_hook_id d) s = Ok e"
        using created(2) by (auto simp: result_simps)
      have "valid_secret s"
        using initial_secret_fits(2) [OF assms(7,5,6,2,3) init Some] by blast
      moreover have "hk_id h = dw_hook_id d"
        using created(4)
        by (cases rule: create_hookE) (simp_all add: attempted_command_def attempted_hook_def hook_create_def)
      ultimately show ?thesis
        using decrypt_what_was_encrypted [OF assms(1) _ e(2)] e(1) that created(5) Some
        by (simp add: secret_result_from_replay_def)
    qed
    show ?thesis
    proof (cases "initial_secret (ap_crates ap) generated' (cp_signing p)")
      case (Err e)
      then have "\<not> creation_drawn ap draws' generated' again (cp_signing p)" by (simp add: creation_drawn_def)
      moreover obtain f where "e = Internal f" "drawing_fault f" using initial_secret_faults [OF Err] by blast
      ultimately show ?thesis using Err again by auto
    next
      case (Ok secret')
      have "[0..<endpoint_generation_attempts] = 0 # [1..<endpoint_generation_attempts]"
        by (simp add: endpoint_generation_attempts_def upt_conv_Cons)
      then have same: "create_hook_inner ap draws' generated' again p db' =
          create_attempts ap p ?again secret' (draws' 0 # map draws' [1..<endpoint_generation_attempts]) db'"
        using again Ok by simp
      have drawn: "creation_drawn ap draws' generated' again (cp_signing p) \<longleftrightarrow> attempt_drawn ap ?again secret' (draws' 0)"
        by (simp add: creation_drawn_def Ok)
      show ?thesis
      proof (cases "attempt_drawn ap ?again secret' (draws' 0)")
        case False
        with undrawn_attempt [OF False, of p db'] show ?thesis by (auto simp: same drawn app_bind_def)
      next
        case True
        note attempt = attempt [OF True]
        show ?thesis
        proof (cases "\<exists>t. until = Some t \<and> t < ?again")
          case past: True
          with attempt have "create_attempt ap p ?again secret' (draws' 0) db' = (Ok (Err SecretReplayExpired), db')" by simp
          with True past show ?thesis unfolding expired by (simp add: same drawn app_bind_def map_store_error_def)
        next
          case live: False
          with attempt obtain response where
            "create_attempt ap p ?again secret' (draws' 0) db' = (Ok (Ok (CreateReplayed h response)), db')"
            "pr_encrypted_secret response = encrypted" by auto
          with replay [OF this(2)] True live show ?thesis unfolding expired by (simp add: same drawn app_bind_def)
        qed
      qed
    qed
  next
    case (replayed a c h response)
    from replayed(4) obtain su where res: "reserve_management_key (ch_idempotency c) (ch_recorded_at c) db = Ok (Replayed response, db')"
      and sel: "select_replayed_scoped_hook (ap_deps ap) su response db' = Ok h"
      by (cases rule: create_hookE) auto
    have ids: "ids_ok db'" using assms(4) reserve_hooks(5) [OF res] by simp
    obtain i where "get_hook (ap_deps ap) su i db' = Ok (Some h)"
      using sel by (auto simp: select_replayed_scoped_hook_def result_simps select_Ok get_hook_Ok)
    with stored_get [OF _ ids, of "ap_deps ap"] have "stored (ap_deps ap) db (hook_uuid i) = Some (Ok h)" "hk_id h = i"
      using reserve_hooks(4) [OF res, of "ap_deps ap"] by simp_all
    moreover have "hw_hook r = h" using replayed(5) by (auto simp: secret_result_from_replay_def result_simps)
    ultimately show ?thesis using assms(9) by simp
  qed
qed

end
