(* ===== verification/CreationDemo.thy ===== *)
theory CreationDemo
  imports HookReplay IngressDemo
begin

text \<open>
  Creations for the witnesses about the lifecycle: a hook with an Ed25519 key and without a secret over
  the demonstration crates, and a hook that requires signatures under a secret of the caller's, over
  crates whose configuration codec reads back what it wrote.
\<close>

section \<open>A creation over the demonstration store\<close>

definition demo_owner :: authorization_context where
  "demo_owner =
     \<lparr>ac_actor = \<lparr>actor_uuid = AccountUuid (lit ''b97''), actor_kind_of = Carbon, actor_public_id = None,
                  actor_scope = [], actor_token_family = None\<rparr>,
      ac_silicon = \<lparr>sr_uuid = demo_silicon, sr_id = None\<rparr>, ac_access = Own\<rparr>"

definition demo_signing :: signing_patch where
  "demo_signing =
     \<lparr>sg_required = Some False, sg_algorithm = Some Ed25519, sg_payload = None, sg_signature = None,
      sg_signature_encoding = None, sg_secret_encoding = None,
      sg_public_key = Some (Some (lit ''-----BEGIN PUBLIC KEY-----'')), sg_secret = None\<rparr>"

definition demo_creation :: create_hook_request where
  "demo_creation =
     \<lparr>cq_context = \<lparr>mc_authorization = demo_owner, mc_idempotency_key = lit ''k1'', mc_request_id = None\<rparr>,
      cq_name = HookName (lit ''GitHub''), cq_description = None, cq_time_zone = default_time_zone,
      cq_signing = demo_signing\<rparr>"

definition demo_draws :: "nat \<Rightarrow> attempt_draw" where
  "demo_draws n =
     \<lparr>dw_hook_id = HookId 1, dw_endpoint_key = Ok (EndpointKey (lit ''A0B1C2D3'')), dw_nonce = Some (replicate 12 0),
      dw_audit_id = 5\<rparr>"

definition demo_parts_of_creation :: create_hook_parts where
  "demo_parts_of_creation =
     \<lparr>cp_silicon_uuid = demo_silicon, cp_name = HookName (lit ''GitHub''), cp_description = None,
      cp_time_zone = default_time_zone,
      cp_signing = \<lparr>si_required = False, si_config = demo_ed25519_config, si_secret = None\<rparr>,
      cp_actor = actor_reference demo_owner, cp_idempotency_key = lit ''k1'',
      cp_request_digest = cr_digest demo_crates HashSha256 (utf8 (lit ''GitHub'')), cp_request_id = None,
      cp_is_accounts_default = False\<rparr>"

lemma demo_app_sel: "ap_deps demo_app = demo_deps" "ap_crates demo_app = demo_crates" "ap_canonical demo_app = demo_canonical"
    "ap_keyring demo_app = demo_keyring"
  by (simp_all add: demo_app_def ap_crates_def demo_deps_def)

lemma demo_deps_sel: "dp_crates demo_deps = demo_crates" "dp_keys demo_deps = demo_key_crates" "dp_uuid demo_deps = demo_uuid_crate"
    "dp_time demo_deps = demo_time_crate" "dp_crypto demo_deps = demo_crypto"
  by (simp_all add: demo_deps_def)

lemma demo_resolved:
  "signing_patch_resolve demo_signing default_config True =
     \<lparr>si_required = False, si_config = demo_ed25519_config, si_secret = None\<rparr>"
  by (simp add: signing_patch_resolve_def demo_signing_def unwrap_or_def demo_ed25519_config_def)

lemma validated_demo_key: "config_validate demo_crates demo_key_crates demo_ed25519_config = Ok ()"
proof -
  have "trim (lit ''-----BEGIN PUBLIC KEY-----'') = lit ''-----BEGIN PUBLIC KEY-----''"
    by (simp add: trim_def trim_start_def trim_end_def lit_def is_whitespace_def)
  moreover have "str_len (lit ''-----BEGIN PUBLIC KEY-----'') \<le> max_public_key_bytes"
    by (simp add: lit_def str_len_Cons utf8_char_def max_public_key_bytes_def)
  moreover have "is_pem (lit ''-----BEGIN PUBLIC KEY-----'')"
    by (simp add: is_pem_def starts_with_def lit_def)
  ultimately show ?thesis
    by (simp add: demo_ed25519_config_def config_validate_def is_asymmetric_def
        public_key_parse_def parse_ed25519_def demo_key_crates_def Let_def)
qed

lemma demo_input_valid:
  "validate_signing_input demo_app \<lparr>si_required = False, si_config = demo_ed25519_config, si_secret = None\<rparr> = Ok ()"
  using validated_demo_key by (simp add: validate_signing_input_def demo_app_sel demo_deps_sel)

lemma demo_owner_may: "authorize_action demo_owner CreateHook = Ok ()"
  by (simp add: authorize_action_Ok demo_owner_def authorize_changing changing_def access_level_def)

lemma demo_creation_is:
  "hooks_create demo_app demo_draws generated now demo_creation =
     create_attempts demo_app demo_parts_of_creation (database_time now) None
       (map demo_draws [0..<endpoint_generation_attempts])"
proof -
  have "initial_secret demo_crates generated \<lparr>si_required = False, si_config = demo_ed25519_config, si_secret = None\<rparr> = Ok None"
    by (simp add: initial_secret_def demo_ed25519_config_def uses_secret_def is_asymmetric_def)
  moreover have "create_hook_request_digest demo_app (HookName (lit ''GitHub'')) None default_time_zone
      \<lparr>si_required = False, si_config = demo_ed25519_config, si_secret = None\<rparr> =
      Ok (cr_digest demo_crates HashSha256 (utf8 (lit ''GitHub'')))"
    by (simp add: create_hook_request_digest_def canonical_digest_def demo_app_sel demo_canonical_def)
  moreover have "sr_uuid (ac_silicon demo_owner) = demo_silicon" by (simp add: demo_owner_def)
  ultimately show ?thesis
    unfolding hooks_create_def Let_def demo_creation_def
    using demo_owner_may demo_resolved demo_input_valid
    by (simp add: create_hook_inner_def demo_parts_of_creation_def demo_app_sel)
qed

lemma demo_attempted:
  "attempted_hook demo_parts_of_creation 0 (HookId 1) (EndpointKey (lit ''A0B1C2D3'')) None = stored_hook"
  by (simp add: attempted_hook_def demo_parts_of_creation_def stored_hook_def demo_new_hook_def actor_reference_def demo_owner_def
      silicon_id_from_account_def demo_silicon_def)

lemma drawn_failure: "drawn_secret (Err EntropyError)"
proof -
  have "signing_secret_generate (\<lambda>_. None) = Some (Err EntropyError)"
    by (simp add: signing_secret_generate_def random_string_def random_loop.simps [of _ _ _ 0]
        signing_secret_generated_length_def)
  then show ?thesis by (auto simp: drawn_secret_def)
qed

text \<open>The first creation over empty tables.\<close>

lemma first_creation:
  assumes "dp_time dp = demo_time_crate" and "validate_create_command demo_time_crate c = Ok ()"
    and "hk_silicon_uuid (ch_hook c) = Some su" and "dp_config_value dp (sp_config (hk_signing (ch_hook c))) = Some config"
    and "ch_is_accounts_default c = False" and "pr_status (ch_response c) = 201"
  shows "\<exists>db'. create_hook dp a c empty_db = Ok (HookCreated (ch_hook c), db') \<and>
    db_hooks db' = [insert_row (ch_hook c) False config]"
proof -
  let ?s = "ch_idempotency c" and ?h = "ch_hook c" and ?t = "ch_recorded_at c"
  let ?row = "insert_row ?h False config" and ?audit = "audit_row_of a AuditCreated ?h (ch_audit c) ?t"
  let ?db1 = "empty_db\<lparr>db_idempotency := [reservation_row ?s ?t]\<rparr>"
  have reserved: "reserve_management_key ?s ?t empty_db = Ok (Reserved, ?db1)"
    by (simp add: reserve_management_key_def empty_db_def)
  have slot: "reserve_retained_hook_slot demo_time_crate su ?t ?db1 = Ok ()"
    by (simp add: reserve_retained_hook_slot_def recovery_cutoff_def demo_time_crate_def empty_db_def rows_affected_def
        max_retained_hooks_per_silicon_def)
  have unused: "ensure_endpoint_key_unused (hk_endpoint_key ?h) ?db1 = Ok ()"
    by (simp add: ensure_endpoint_key_unused_def empty_db_def)
  have inserted: "insert_hook dp ?h False ?db1 = Ok ((), ?db1\<lparr>db_hooks := [?row]\<rparr>)"
    using assms(4) by (simp add: insert_hook_def Let_def empty_db_def)
  have audited: "insert_audit a AuditCreated ?h (ch_audit c) ?t (?db1\<lparr>db_hooks := [?row]\<rparr>) =
      Ok ((), ?db1\<lparr>db_hooks := [?row], db_audit := [?audit]\<rparr>)"
    by (simp add: insert_audit_def empty_db_def)
  have "\<exists>db'. finish_management_key ?s (ch_response c) (?db1\<lparr>db_hooks := [?row], db_audit := [?audit]\<rparr>) = Ok ((), db') \<and>
      db_hooks db' = [?row]"
  proof -
    have "ir_response_status (reservation_row ?s ?t) = None" "ir_request_digest (reservation_row ?s ?t) = is_request_digest ?s"
      by (simp_all add: reservation_row_def)
    with assms(6) show ?thesis by (simp add: finish_management_key_def Let_def rows_affected_def)
  qed
  then show ?thesis
    using assms(1-3,5) reserved slot unused inserted audited by (auto simp: create_hook_def)
qed

lemma demo_command_created:
  "\<exists>db'. create_hook demo_deps 5 (attempted_command demo_parts_of_creation 0 (HookId 1) (EndpointKey (lit ''A0B1C2D3'')) None None)
      empty_db = Ok (HookCreated stored_hook, db') \<and> db_hooks db' = [demo_row]"
proof -
  let ?c = "attempted_command demo_parts_of_creation 0 (HookId 1) (EndpointKey (lit ''A0B1C2D3'')) None None"
  have "validate_create_command demo_time_crate ?c = Ok ()" by (rule valid_attempt) simp
  moreover have hook: "ch_hook ?c = stored_hook" "ch_is_accounts_default ?c = False" "pr_status (ch_response ?c) = 201"
    using demo_attempted by (simp_all add: attempted_command_def demo_parts_of_creation_def)
  ultimately show ?thesis
    using first_creation [of demo_deps ?c demo_silicon JNull 5] by (simp add: demo_deps_def demo_row_def)
qed

lemma demo_created:
  "\<exists>db'. hooks_create demo_app demo_draws generated 0 demo_creation empty_db =
     (Ok \<lparr>hw_hook = stored_hook, hw_signing_secret = None\<rparr>, db') \<and> db_hooks db' = [demo_row]"
proof -
  obtain db' where run: "create_hook demo_deps 5 (attempted_command demo_parts_of_creation 0 (HookId 1)
      (EndpointKey (lit ''A0B1C2D3'')) None None) empty_db = Ok (HookCreated stored_hook, db')" "db_hooks db' = [demo_row]"
    using demo_command_created by blast
  have one: "create_attempt demo_app demo_parts_of_creation 0 None (demo_draws 0) empty_db = (Ok (Ok (HookCreated stored_hook)), db')"
    using run(1) by (simp add: create_attempt_Ok demo_draws_def demo_app_sel attempt_Ok)
  have "[0..<endpoint_generation_attempts] = 0 # [1..<endpoint_generation_attempts]"
    by (simp add: endpoint_generation_attempts_def upt_conv_Cons)
  then show ?thesis
    using one run(2) by (simp add: demo_creation_is database_time_def app_bind_def)
qed

section \<open>A hook with a secret\<close>

definition signed_deps :: "(ustring \<times> pairs, bytes, unit) deps" where
  "signed_deps =
     demo_deps\<lparr>dp_config_value := (\<lambda>c. if c = default_config then Some JNull else None),
       dp_config_parse := (\<lambda>_. Some default_config)\<rparr>"

definition signed_app :: "(ustring \<times> pairs, bytes, unit) hook_application" where
  "signed_app = demo_app\<lparr>ap_deps := signed_deps\<rparr>"

definition demo_secret :: signing_secret where
  "demo_secret = SigningSecret (lit ''s3cret'')"

definition signed_signing :: signing_patch where
  "signed_signing =
     \<lparr>sg_required = Some True, sg_algorithm = None, sg_payload = None, sg_signature = None, sg_signature_encoding = None,
      sg_secret_encoding = None, sg_public_key = None, sg_secret = Some demo_secret\<rparr>"

definition signed_creation :: create_hook_request where
  "signed_creation = demo_creation\<lparr>cq_signing := signed_signing\<rparr>"

definition signed_input :: signing_input where
  "signed_input = \<lparr>si_required = True, si_config = default_config, si_secret = Some demo_secret\<rparr>"

definition signed_parts :: create_hook_parts where
  "signed_parts = demo_parts_of_creation\<lparr>cp_signing := signed_input\<rparr>"

definition signed_hook :: "encrypted_secret \<Rightarrow> hook" where
  "signed_hook e =
     stored_hook\<lparr>hk_signing := \<lparr>sp_required = True, sp_config = default_config, sp_encrypted_secret = Some e\<rparr>\<rparr>"

definition other_draws :: "nat \<Rightarrow> attempt_draw" where
  "other_draws n =
     \<lparr>dw_hook_id = HookId 2, dw_endpoint_key = Ok (EndpointKey (lit ''Z9Z9Z9Z9'')), dw_nonce = Some (replicate 12 7),
      dw_audit_id = 77\<rparr>"

lemma signed_sel: "ap_deps signed_app = signed_deps" "ap_crates signed_app = demo_crates" "ap_canonical signed_app = demo_canonical"
    "ap_keyring signed_app = demo_keyring" "dp_crypto signed_deps = demo_crypto" "dp_keys signed_deps = demo_key_crates"
    "dp_time signed_deps = demo_time_crate" "dp_uuid signed_deps = demo_uuid_crate" "dp_jiff signed_deps = demo_jiff"
    "dp_config_value signed_deps = (\<lambda>c. if c = default_config then Some JNull else None)"
    "dp_config_parse signed_deps = (\<lambda>_. Some default_config)"
  by (simp_all add: signed_app_def signed_deps_def demo_app_def demo_deps_def ap_crates_def)

lemma demo_secret_valid: "valid_secret demo_secret"
  unfolding valid_secret_def demo_secret_def
  by (simp add: signing_secret_from_text_def max_secret_bytes_def)
    (simp add: lit_def is_control_def str_len_def utf8_def utf8_char_def)

lemma signed_encrypted:
  assumes "length nonce = 12"
  obtains e where "encrypt_secret signed_app (Some nonce) i demo_secret = Ok e" "secret_storable e"
proof -
  obtain e where e: "secret_encrypt demo_crypto demo_keyring (Some nonce) i demo_secret = Ok e"
    by (simp add: secret_encrypt_def demo_crypto_def demo_keyring_def keyring_current_key_def demo_secret_def
        encrypted_secret_new_def encryption_tag_bytes_def max_secret_bytes_def Let_def)
      (simp add: lit_def utf8_def utf8_char_def)
  have "encryption_key_id_new (lit ''v1'') = Ok (EncryptionKeyId (lit ''v1''))"
    by (simp add: encryption_key_id_new_def max_encryption_key_id_bytes_def)
      (simp add: lit_def str_len_def utf8_def utf8_char_def key_id_byte_def char_class_defs)
  with e assms have "secret_storable e"
    by (auto simp: secret_encrypt_def secret_storable_def encrypted_secret_new_def demo_keyring_def keyring_current_key_def
        encryption_nonce_bytes_def Let_def result_simps split: if_splits)
  with e show thesis by (intro that [of e]) (simp_all add: encrypt_secret_def signed_sel)
qed

lemma signed_resolved: "signing_patch_resolve signed_signing default_config True = signed_input"
  by (simp add: signing_patch_resolve_def signed_signing_def unwrap_or_def signed_input_def)

lemma signed_valid: "validate_signing_input signed_app signed_input = Ok ()"
proof -
  have "utf8 (lit ''s3cret'') \<noteq> []" by (simp add: lit_def utf8_def utf8_char_def)
  then show ?thesis
    by (simp add: validate_signing_input_def signed_sel signed_input_def config_validate_def default_config_def is_asymmetric_def
        validate_secret_encoding_def secret_decode_def demo_secret_def)
qed

lemma signed_initial: "initial_secret demo_crates generated signed_input = Ok (Some demo_secret)"
  by (simp add: initial_secret_def signed_input_def default_config_def uses_secret_def is_asymmetric_def)

lemma signed_creation_is:
  "hooks_create signed_app draws generated now signed_creation =
     create_attempts signed_app signed_parts (database_time now) (Some demo_secret)
       (map draws [0..<endpoint_generation_attempts])"
proof -
  have "create_hook_request_digest signed_app (HookName (lit ''GitHub'')) None default_time_zone signed_input =
      Ok (cr_digest demo_crates HashSha256 (utf8 (lit ''GitHub'')))"
    by (simp add: create_hook_request_digest_def canonical_digest_def signed_sel demo_canonical_def)
  moreover have "sr_uuid (ac_silicon demo_owner) = demo_silicon" by (simp add: demo_owner_def)
  ultimately show ?thesis
    unfolding hooks_create_def Let_def signed_creation_def demo_creation_def
    using demo_owner_may signed_resolved signed_valid signed_initial
    by (simp add: create_hook_inner_def signed_parts_def demo_parts_of_creation_def signed_sel)
qed

lemma signed_created:
  assumes "encrypt_secret signed_app (Some (replicate 12 0)) (HookId 1) demo_secret = Ok e"
  shows "\<exists>db'. hooks_create signed_app demo_draws generated 0 signed_creation empty_db =
    (Ok \<lparr>hw_hook = signed_hook e, hw_signing_secret = Some demo_secret\<rparr>, db')"
proof -
  let ?c = "attempted_command signed_parts 0 (HookId 1) (EndpointKey (lit ''A0B1C2D3'')) (Some e) (Some secret_replay_window)"
  have until: "secret_replay_until demo_time_crate 0 = Ok secret_replay_window"
    by (simp add: secret_replay_until_def demo_time_crate_def)
  have "validate_create_command demo_time_crate ?c = Ok ()" by (rule valid_attempt) (simp add: until)
  moreover have hook: "ch_hook ?c = signed_hook e" "ch_is_accounts_default ?c = False" "pr_status (ch_response ?c) = 201"
    using demo_attempted
    by (simp_all add: attempted_command_def signed_parts_def demo_parts_of_creation_def signed_hook_def attempted_hook_def
        hook_create_def stored_hook_def demo_new_hook_def signed_input_def)
  moreover have "hk_silicon_uuid (signed_hook e) = Some demo_silicon"
    "dp_config_value signed_deps (sp_config (hk_signing (signed_hook e))) = Some JNull"
    by (simp_all add: signed_hook_def signed_sel)
  ultimately obtain db' where run: "create_hook signed_deps 5 ?c empty_db = Ok (HookCreated (signed_hook e), db')"
    using first_creation [of signed_deps ?c demo_silicon JNull 5] by (auto simp: signed_sel)
  have "create_attempt signed_app signed_parts 0 (Some demo_secret) (demo_draws 0) empty_db =
      (Ok (Ok (HookCreated (signed_hook e))), db')"
    using run assms until by (simp add: create_attempt_Ok demo_draws_def signed_sel attempt_Ok)
  moreover have "[0..<endpoint_generation_attempts] = 0 # [1..<endpoint_generation_attempts]"
    by (simp add: endpoint_generation_attempts_def upt_conv_Cons)
  ultimately show ?thesis by (simp add: signed_creation_is database_time_def app_bind_def)
qed

lemma signed_storable: "secret_storable e \<Longrightarrow> hook_storable signed_deps (signed_hook e)"
  using demo_storable
  by (simp add: hook_storable_def signed_hook_def signing_storable_def config_storable_def signed_sel)
    (simp add: demo_deps_def)

end
