(* ===== verification/HookUseCaseProps.thy ===== *)
theory HookUseCaseProps
  imports CreationDemo
begin

text \<open>
  Properties of the lifecycle use cases: an operation changes nothing but the hooks of the Silicon it
  was authorized for, with an audit row under the name of the actor; every hook it answers with can
  verify what it requires signatures for; and a repeated creation never makes a second hook.
\<close>

section \<open>Management operations\<close>

text \<open>Every operation that can change hooks, with what it draws.\<close>

datatype management =
    Creating "nat \<Rightarrow> attempt_draw" "(signing_secret, entropy_error) result" create_hook_request
  | Updating "bytes option" "nat \<Rightarrow> uuid" uuid update_hook_request
  | Deleting uuid delete_hook_request
  | Activating "nat \<Rightarrow> uuid" set_hooks_enabled_request
  | Restoring uuid hook_mutation_request
  | RotatingSecret "(signing_secret, entropy_error) result" "bytes option" uuid hook_mutation_request
  | RotatingEndpoint "nat \<Rightarrow> (endpoint_key, entropy_error) result \<times> uuid" hook_mutation_request
  | PreparingAccounts "nat \<Rightarrow> attempt_draw" "(signing_secret, entropy_error) result" uuid connect_accounts_hook_request

fun manage :: "('u, 'k, 'z) hook_application \<Rightarrow> instant \<Rightarrow> management \<Rightarrow> db \<Rightarrow> db" where
  "manage ap now (Creating draws generated c) db = snd (hooks_create ap draws generated now c db)"
| "manage ap now (Updating nonce ids i c) db = snd (hooks_update ap nonce ids i now c db)"
| "manage ap now (Deleting i c) db = snd (hooks_delete ap i now c db)"
| "manage ap now (Activating ids c) db = snd (hooks_set_enabled ap ids now c db)"
| "manage ap now (Restoring i c) db = snd (hooks_restore ap i now c db)"
| "manage ap now (RotatingSecret generated nonce i c) db = snd (hooks_rotate_secret ap generated nonce i now c db)"
| "manage ap now (RotatingEndpoint draws c) db = snd (hooks_rotate_endpoint ap draws now c db)"
| "manage ap now (PreparingAccounts draws generated i c) db = snd (hooks_prepare_accounts ap draws generated i now c db)"

fun authority :: "management \<Rightarrow> authorization_context" where
  "authority (Creating draws generated c) = mc_authorization (cq_context c)"
| "authority (Updating nonce ids i c) = uq_authorization c"
| "authority (Deleting i c) = dq_authorization c"
| "authority (Activating ids c) = sq_authorization c"
| "authority (Restoring i c) = mc_authorization (mq_context c)"
| "authority (RotatingSecret generated nonce i c) = mc_authorization (mq_context c)"
| "authority (RotatingEndpoint draws c) = mc_authorization (mq_context c)"
| "authority (PreparingAccounts draws generated i c) = mc_authorization (aq_context c)"

section \<open>Operations are confined\<close>

named_theorems confining \<open>operations that are confined to one Silicon and one actor\<close>

lemmas confined_bind [confining] = within_bind [OF confined_refl confined_trans]
lemmas confined_give [confining] = within_give [OF confined_refl]

lemma confined_query [confining]: "app_within (confined su act) (query q)"
  by (rule within_reading [OF confined_refl reads_only_query])

lemma reads_only_if [reading]: "reads_only f \<Longrightarrow> reads_only g \<Longrightarrow> reads_only (if b then f else g)"
  by simp

lemma load_hook_reads [reading]: "reads_only (load_hook ap a i)"
  by (simp add: load_hook_def reading)

lemma load_for_mutation_reads [reading]: "reads_only (load_for_mutation ap a i act)"
  unfolding load_for_mutation_def by (intro reading)

lemma confined_load [confining]:
  "app_within (confined su act) (load_hook ap a i)" "app_within (confined su act) (load_for_mutation ap a i r)"
  by (rule within_reading [OF confined_refl], rule reading)+

lemma confined_case [confining]:
  "app_within R f \<Longrightarrow> (\<And>x. app_within R (g x)) \<Longrightarrow> app_within R (case m of None \<Rightarrow> f | Some x \<Rightarrow> g x)"
  "app_within R f \<Longrightarrow> app_within R f' \<Longrightarrow> app_within R (if b then f else f')"
  by (simp_all split: option.split)

lemma create_attempts_confined [confining]:
  "app_within (confined (cp_silicon_uuid p) (cp_actor p)) (create_attempts ap p now secret ds)"
proof (induction ds)
  case (Cons d ds)
  have "app_within (confined (cp_silicon_uuid p) (cp_actor p)) (create_attempt ap p now secret d)"
    unfolding create_attempt_def
    by (intro confining within_attempt confined_refl)
      (erule create_confined, simp_all add: attempted_command_def attempted_hook_def hook_create_def)
  with Cons show ?case
    by (auto intro!: confining split: result.split create_hook_outcome.split store_error.split)
qed (simp only: create_attempts.simps rotate_attempts.simps confined_give)

lemma create_inner_confined [confining]:
  "cp_silicon_uuid p = su \<Longrightarrow> cp_actor p = act \<Longrightarrow>
     app_within (confined su act) (create_hook_inner ap draws generated now p)"
  unfolding create_hook_inner_def using create_attempts_confined [of p] by (auto intro!: confining)

lemma set_one_confined [confining]:
  "app_within (confined (sr_uuid (ac_silicon (uq_authorization c))) (actor_reference (uq_authorization c)))
     (set_one_enabled ap ids now c enabled)"
  unfolding set_one_enabled_def
  by (intro confining within_transact confined_refl) (drule activation_confined, simp_all)

lemma restore_use_confined [confining]:
  "mc_authorization (mq_context c) = a \<Longrightarrow>
     app_within (confined (sr_uuid (ac_silicon a)) (actor_reference a)) (hooks_restore ap i now c)"
  unfolding hooks_restore_def Let_def
  by (intro confining within_transact confined_refl) (drule restore_confined, simp_all)

lemma rotate_attempts_confined [confining]:
  "app_within (confined (sr_uuid (ac_silicon (mc_authorization (mq_context c)))) (actor_reference (mc_authorization (mq_context c))))
     (rotate_attempts ap now c ds)"
proof (induction ds)
  case (Cons d ds)
  obtain generated i where d: "d = (generated, i)" by fastforce
  show ?case
    unfolding d rotate_attempts.simps
    by (intro confining within_attempt confined_refl, drule rotate_endpoint_confined)
      (use Cons in \<open>auto intro!: confining split: result.split rotation_outcome.split store_error.split\<close>)
qed (simp only: create_attempts.simps rotate_attempts.simps confined_give)

lemma confined_after: "app_within (confined su act) m \<Longrightarrow> confined su act db (snd (m db))"
  by (simp add: app_within_def)

lemma manage_confined:
  "confined (sr_uuid (ac_silicon (authority q))) (actor_reference (authority q)) db (manage ap now q db)"
proof (cases q)
  case (Creating draws generated c)
  then show ?thesis
    by (simp add: hooks_create_def Let_def) (intro confined_after confining; simp)
next
  case (Updating nonce ids i c)
  then show ?thesis
    unfolding Updating manage.simps authority.simps hooks_update_def Let_def
    by (intro confined_after confining within_transact confined_refl) (drule update_hook_confined, simp_all)
next
  case (Deleting i c)
  then show ?thesis
    unfolding Deleting manage.simps authority.simps hooks_delete_def Let_def
    by (intro confined_after confining within_attempt confined_refl) (drule delete_confined, simp_all)
next
  case (Activating ids c)
  then show ?thesis
    unfolding Activating manage.simps authority.simps hooks_set_enabled_def Let_def
    by (intro confined_after confining within_transact confined_refl) (drule activation_confined, simp_all)
next
  case (Restoring i c)
  then show ?thesis by (simp, intro confined_after confining) simp
next
  case (RotatingSecret generated nonce i c)
  then show ?thesis
    unfolding RotatingSecret manage.simps authority.simps hooks_rotate_secret_def store_rotated_secret_def Let_def
    by (intro confined_after confining within_transact confined_refl) (drule rotate_secret_confined, simp_all)
next
  case (RotatingEndpoint draws c)
  then show ?thesis
    unfolding RotatingEndpoint manage.simps authority.simps hooks_rotate_endpoint_def
    by (intro confined_after confining)
next
  case (PreparingAccounts draws generated i c)
  then show ?thesis
    unfolding PreparingAccounts manage.simps authority.simps hooks_prepare_accounts_def Let_def
    by (intro confined_after confining; simp)
qed

section \<open>Operations need authority\<close>

lemma authorize_action_refuses: "authorize a act \<noteq> Allowed \<Longrightarrow> authorize_action a act = Err (Refused 403 ''forbidden'')"
  by (simp add: authorize_action_def split: authorization_decision.split)

definition may_manage :: "management \<Rightarrow> bool" where
  "may_manage q \<longleftrightarrow>
     (case q of
        PreparingAccounts _ _ _ c \<Rightarrow> ac_access (authority q) = Own \<or> ac_access (authority q) = Custodian
      | _ \<Rightarrow> access_level (ac_access (authority q)) = Manage)"

lemma reads_nothing_changed: "reads_only m \<Longrightarrow> snd (m db) = db"
  by (simp add: reads_only_def)

lemma refused_mutation:
  assumes "authorize a act \<noteq> Allowed"
  shows "app_bind (load_for_mutation ap a i act) f db = (fst (app_bind (load_for_mutation ap a i act) f db), db)"
proof -
  have never: "load_for_mutation ap a i act db \<noteq> (Ok h, db')" for h db'
    using authorize_action_refuses [OF assms] by (auto simp: load_for_mutation_def app_bind_Ok)
  obtain r db' where run: "load_for_mutation ap a i act db = (r, db')" by fastforce
  then have "db' = db" by (rule reads_onlyD [OF load_for_mutation_reads])
  with run never show ?thesis by (cases r) (auto simp: app_bind_def)
qed

lemma manage_needs_authority:
  assumes "\<not> may_manage q"
  shows "manage ap now q db = db"
proof (cases q)
  case (Creating draws generated c)
  with assms have "authorize (mc_authorization (cq_context c)) CreateHook \<noteq> Allowed"
    by (simp add: may_manage_def authorize_changing changing_def)
  then show ?thesis by (simp add: Creating hooks_create_def Let_def authorize_action_refuses)
next
  case (Updating nonce ids i c)
  with assms have no: "authorize (uq_authorization c) UpdateHook \<noteq> Allowed" "authorize (uq_authorization c) SetHookEnabled \<noteq> Allowed"
    by (simp_all add: may_manage_def authorize_changing changing_def)
  note refuse = no [THEN authorize_action_refuses]
  show ?thesis
  proof (cases "up_enabled (uq_patch c) = None")
    case True
    show ?thesis
    proof (cases "changes_metadata (uq_patch c)")
      case False
      show ?thesis
        unfolding Updating manage.simps hooks_update_def Let_def
        by (simp only: False True option.case simp_thms if_True if_False) (intro reads_nothing_changed reading)
    next
      case changes: True
      show ?thesis
        unfolding Updating manage.simps hooks_update_def Let_def
        by (simp only: changes True option.case simp_thms if_True if_False refuse app_bind_give)
          (intro reads_nothing_changed reading)
    qed
  next
    case False
    then have "(up_enabled (uq_patch c) \<noteq> None) = True" by simp
    then show ?thesis
      unfolding Updating manage.simps hooks_update_def Let_def
      by (simp only: if_True refuse app_bind_give) (intro reads_nothing_changed reading)
  qed
next
  case (Deleting i c)
  with assms have "authorize (dq_authorization c) DeleteHook \<noteq> Allowed"
    by (simp add: may_manage_def authorize_changing changing_def)
  then show ?thesis
    unfolding Deleting manage.simps hooks_delete_def Let_def
    by (simp only: authorize_action_refuses app_bind_give not_False_eq_True) (intro reads_nothing_changed reading)
next
  case (Activating ids c)
  with assms have "authorize (sq_authorization c) SetHookEnabled \<noteq> Allowed"
    by (simp add: may_manage_def authorize_changing changing_def)
  then show ?thesis
    unfolding Activating manage.simps hooks_set_enabled_def Let_def
    by (simp only: authorize_action_refuses app_bind_give not_False_eq_True) (intro reads_nothing_changed reading)
next
  case (Restoring i c)
  with assms have "authorize (mc_authorization (mq_context c)) RestoreHook \<noteq> Allowed"
    by (simp add: may_manage_def authorize_changing changing_def)
  then show ?thesis
    unfolding Restoring manage.simps hooks_restore_def Let_def by (subst refused_mutation) simp_all
next
  case (RotatingSecret generated nonce i c)
  with assms have "authorize (mc_authorization (mq_context c)) RotateSecret \<noteq> Allowed"
    by (simp add: may_manage_def authorize_changing changing_def)
  then show ?thesis
    unfolding RotatingSecret manage.simps hooks_rotate_secret_def Let_def by (subst refused_mutation) simp_all
next
  case (RotatingEndpoint draws c)
  with assms have "authorize (mc_authorization (mq_context c)) RotateEndpoint \<noteq> Allowed"
    by (simp add: may_manage_def authorize_changing changing_def)
  then show ?thesis
    unfolding RotatingEndpoint manage.simps hooks_rotate_endpoint_def Let_def by (subst refused_mutation) simp_all
next
  case (PreparingAccounts draws generated i c)
  with assms have "authorize (mc_authorization (aq_context c)) ConnectAccountsHook \<noteq> Allowed"
    by (simp add: may_manage_def authorize_owners_only owners_only_def)
  then show ?thesis by (simp add: PreparingAccounts hooks_prepare_accounts_def Let_def authorize_action_refuses)
qed

section \<open>Properties\<close>

lemma hooks_create_inner:
  assumes "hooks_create ap draws generated now c db = (Ok r, db')"
  obtains p u where "cp_signing p = signing_patch_resolve (cq_signing c) default_config True"
    and "validate_signing_input ap (cp_signing p) = Ok u"
    and "\<forall>draws generated now db. hooks_create ap draws generated now c db = create_hook_inner ap draws generated now p db"
proof -
  let ?input = "signing_patch_resolve (cq_signing c) default_config True"
  obtain u d where ok: "authorize_action (mc_authorization (cq_context c)) CreateHook = Ok ()"
      "validate_signing_input ap ?input = Ok u"
      "create_hook_request_digest ap (cq_name c) (cq_description c) (cq_time_zone c) ?input = Ok d"
    using assms by (auto simp: hooks_create_def Let_def app_bind_Ok)
  show thesis
    by (rule that [of "\<lparr>cp_silicon_uuid = sr_uuid (ac_silicon (mc_authorization (cq_context c))), cp_name = cq_name c,
        cp_description = cq_description c, cp_time_zone = cq_time_zone c, cp_signing = ?input,
        cp_actor = actor_reference (mc_authorization (cq_context c)),
        cp_idempotency_key = mc_idempotency_key (cq_context c), cp_request_digest = d,
        cp_request_id = mc_request_id (cq_context c), cp_is_accounts_default = False\<rparr>" u])
      (use ok in \<open>simp_all add: hooks_create_def Let_def\<close>)
qed

text \<open>C9: A lifecycle operation can change only hooks of the Silicon it was authorized for, and only with
  the level it needs. Whatever operation is called with whatever draws, the hooks of every other
  Silicon, and every table beside hooks, retired keys, idempotency keys and the audit log, are as
  before; the retired keys it adds are the Silicon's; the audit rows it adds name the Silicon and the
  actor, and there is at least one whenever a hook changed; and without the level \<open>Manage\<close> (for the
  Silicon Accounts hook: without being the Silicon or its custodian) nothing changes at all.\<close>

theorem management_is_confined:
  assumes "ids_ok db" and "db' = manage ap now q db"
    and "su = sr_uuid (ac_silicon (authority q))"
  shows "(\<not> may_manage q \<longrightarrow> db' = db) \<and> ids_ok db' \<and> foreign_hooks su db' = foreign_hooks su db \<and>
    db' = db\<lparr>db_hooks := db_hooks db', db_retired := db_retired db', db_idempotency := db_idempotency db',
             db_audit := db_audit db'\<rparr> \<and>
    (\<exists>new. db_retired db' = new @ db_retired db \<and> (\<forall>r \<in> set new. rt_silicon_uuid r = Some (account_uuid_str su))) \<and>
    (\<exists>new. db_audit db' = new @ db_audit db \<and>
       (\<forall>r \<in> set new. attributed su (actor_reference (authority q)) r) \<and> (db_hooks db' \<noteq> db_hooks db \<longrightarrow> new \<noteq> []))"
  using manage_confined [of q db ap now] manage_needs_authority [of q ap now db] assms
  by (auto simp: confined_def)

theorem management_is_confined_witness:
  "\<exists>db'. manage demo_app 0 (Creating demo_draws (Err EntropyError) demo_creation) empty_db = db' \<and>
     db_hooks db' = [demo_row] \<and> db_audit db' \<noteq> []"
proof -
  let ?q = "Creating demo_draws (Err EntropyError) demo_creation"
  have ok: "ids_ok empty_db" by (simp add: ids_ok_def empty_db_def)
  obtain db' where run: "hooks_create demo_app demo_draws (Err EntropyError) 0 demo_creation empty_db =
      (Ok \<lparr>hw_hook = stored_hook, hw_signing_secret = None\<rparr>, db')" "db_hooks db' = [demo_row]"
    using demo_created by blast
  from management_is_confined [OF ok refl refl, where ap = demo_app and now = 0 and q = ?q]
  have "db_hooks db' \<noteq> db_hooks empty_db \<longrightarrow> db_audit db' \<noteq> []"
    using run(1) by auto
  with run show ?thesis by (auto simp: empty_db_def)
qed



text \<open>C3: A creation happens once. After a creation made a hook under an identifier no hook had, the same
  request within a day leaves the tables exactly as they are, and what it answers is fixed by whether
  the repetition can draw its own endpoint key, its own secret with its encryption, and the deadline
  for giving the secret out: if it can, the answer is the same hook with the same secret, except that
  a hook with a secret is refused as \<open>SecretUnavailable\<close> once the deadline recorded with the first
  creation has passed; if it cannot, the answer is the internal error of the drawing. The hook's parts
  are ones its columns give back, and a secret of the caller's is a valid one.\<close>

theorem a_creation_happens_once:
  assumes "aead_law (dp_crypto (ap_deps ap))" and "codecs_round_trip (ap_crates ap)" and "crates_return_text (ap_crates ap)"
    and "ids_ok db" and "drawn_secret generated" and "\<forall>s. sg_secret (cq_signing c) = Some s \<longrightarrow> valid_secret s"
    and "hooks_create ap draws generated now c db = (Ok r, db')"
    and "stored (ap_deps ap) db (hook_uuid (hk_id (hw_hook r))) = None" and "hook_storable (ap_deps ap) (hw_hook r)"
    and "database_time again < database_time now + duration_days 1"
  shows "if creation_drawn ap draws' generated' again (signing_patch_resolve (cq_signing c) default_config True)
    then hooks_create ap draws' generated' again c db' =
      (if hw_signing_secret r \<noteq> None \<and>
          (\<exists>t. secret_replay_until (dp_time (ap_deps ap)) (database_time now) = Ok t \<and> t < database_time again)
       then Err SecretUnavailable else Ok r, db')
    else \<exists>f. hooks_create ap draws' generated' again c db' = (Err (Internal f), db') \<and> drawing_fault f"
proof -
  obtain p u where p: "cp_signing p = signing_patch_resolve (cq_signing c) default_config True"
    and u: "validate_signing_input ap (cp_signing p) = Ok u"
    and same: "\<forall>draws generated now db. hooks_create ap draws generated now c db =
      create_hook_inner ap draws generated now p db"
    using hooks_create_inner [OF assms(7)] .
  have "supplied_valid (cp_signing p)" using assms(6) by (simp add: p supplied_valid_def signing_patch_resolve_def)
  from repeated_creation [OF assms(1-4) this assms(5) u assms(7) [unfolded same [rule_format]] assms(8-10)]
  show ?thesis unfolding same [rule_format] p .
qed

text \<open>A hook with a secret is created, and created again ten seconds later with other draws: another identifier, another nonce.\<close>

theorem a_creation_happens_once_witness:
  "\<exists>e db'. hooks_create signed_app demo_draws (Err EntropyError) 0 signed_creation empty_db =
       (Ok \<lparr>hw_hook = signed_hook e, hw_signing_secret = Some demo_secret\<rparr>, db') \<and>
     hooks_create signed_app other_draws (Err EntropyError) 10000000000 signed_creation db' =
       (Ok \<lparr>hw_hook = signed_hook e, hw_signing_secret = Some demo_secret\<rparr>, db')"
proof -
  obtain e where e: "encrypt_secret signed_app (Some (replicate 12 0)) (HookId 1) demo_secret = Ok e" "secret_storable e"
    by (rule signed_encrypted [of "replicate 12 0" "HookId 1"]) simp
  obtain e' where e': "encrypt_secret signed_app (Some (replicate 12 7)) (HookId 2) demo_secret = Ok e'"
    by (rule signed_encrypted [of "replicate 12 7" "HookId 2"]) simp
  obtain db' where run: "hooks_create signed_app demo_draws (Err EntropyError) 0 signed_creation empty_db =
      (Ok \<lparr>hw_hook = signed_hook e, hw_signing_secret = Some demo_secret\<rparr>, db')"
    using signed_created [OF e(1)] by blast
  have laws: "aead_law (dp_crypto (ap_deps signed_app))" "codecs_round_trip (ap_crates signed_app)" "crates_return_text (ap_crates signed_app)"
    using demo_codecs demo_returns_text by (simp_all add: signed_sel aead_law_def demo_crypto_def encryption_tag_bytes_def)
  have "ids_ok empty_db" by (simp add: ids_ok_def empty_db_def)
  moreover note drawn_failure
  moreover have "\<forall>s. sg_secret (cq_signing signed_creation) = Some s \<longrightarrow> valid_secret s"
    using demo_secret_valid by (simp add: signed_creation_def signed_signing_def)
  moreover have "stored (ap_deps signed_app) empty_db (hook_uuid (hk_id (signed_hook e))) = None" by (simp add: stored_def empty_db_def)
  moreover have "hook_storable (ap_deps signed_app) (signed_hook e)" using signed_storable [OF e(2)] by (simp add: signed_sel)
  moreover have "database_time 10000000000 < database_time 0 + duration_days 1"
    by (simp add: database_time_def duration_days_def)
  moreover have "creation_drawn signed_app other_draws (Err EntropyError) 10000000000
      (signing_patch_resolve (cq_signing signed_creation) default_config True)"
    using e' signed_initial
    by (simp add: creation_drawn_def attempt_drawn_def signed_creation_def signed_resolved other_draws_def signed_sel
        secret_replay_until_def demo_time_crate_def)
  moreover have "\<not> (\<exists>t. secret_replay_until (dp_time (ap_deps signed_app)) (database_time 0) = Ok t \<and> t < database_time 10000000000)"
    by (simp add: secret_replay_until_def signed_sel demo_time_crate_def secret_replay_window_def database_time_def)
  ultimately show ?thesis
    using a_creation_happens_once [OF laws _ _ _ run, of 10000000000 other_draws "Err EntropyError"] run
    by fastforce
qed

end
