(* ===== verification/Gateway.thy ===== *)
theory Gateway
  imports Application
begin

text \<open>
  The handle to Silicon Accounts (\<open>infrastructure/accounts.rs\<close>): the cached signing keys, the tokens
  it remembers as inactive, the tokens it remembers as newer than a sign-out, and the budget of
  lookups. The official client is a crate: what it checks of a token or a delivery is a function of
  the settings, and what the service answers during an operation is an argument. The single flight
  of key fetches and the locks make each access one step; the two clocks are one.
\<close>

section \<open>The client\<close>

datatype account_kind = CarbonAccount | SiliconAccount

datatype token_error = UnknownKey | TokenExpired | WrongAudience | WrongIssuer | OtherTokenError

text \<open>What is read of the client's error: its status, code and message, and which token error it is.\<close>

record client_error =
  ce_status :: "nat option"
  ce_code :: string
  ce_message :: ustring
  ce_token :: "token_error option"

record claims =
  tk_sub :: ustring
  tk_kind :: "account_kind option"
  tk_id :: "ustring option"
  tk_iat :: "int option"
  tk_exp :: int
  tk_scopes :: "ustring list"
  tk_fid :: "ustring option"

record account_ref =
  nf_uuid :: ustring
  nf_id :: ustring

record account_summary =
  as_uuid :: ustring
  as_kind :: account_kind
  as_id :: ustring
  as_status :: ustring
  as_custodian :: "account_ref option"

record introspection =
  it_active :: bool
  it_client_id :: "ustring option"

datatype webhook_error = WebhookInvalidBody | WebhookSignatureMismatch | WebhookRefused string

text \<open>The answers of the service during one operation.\<close>

record 'j accounts_answers =
  an_jwks :: "('j, client_error) result"
  an_introspect :: "ustring \<Rightarrow> (introspection, client_error) result"
  an_lookup :: "ustring \<Rightarrow> (account_summary, client_error) result"
  an_lookup_by_id :: "ustring \<Rightarrow> (account_summary, client_error) result"

text \<open>
  The settings of the handle with the client's pure functions: \<open>verify_access_token\<close> on a key set,
  the app, the issuer, the time and a token, \<open>verify_and_parse_webhook\<close> on a secret, the time, the
  two headers and the body, and \<open>from_unix_timestamp\<close> of \<open>time\<close>.
\<close>

record ('j, 'e) accounts_settings =
  se_app_id :: ustring
  se_issuer :: ustring
  se_webhook_secrets :: "ustring list"
  se_verify :: "'j \<Rightarrow> ustring \<Rightarrow> ustring \<Rightarrow> instant \<Rightarrow> ustring \<Rightarrow> (claims, client_error) result"
  se_parse_webhook :: "ustring \<Rightarrow> instant \<Rightarrow> ustring \<Rightarrow> ustring \<Rightarrow> bytes \<Rightarrow> ('e, webhook_error) result"
  se_from_unix :: "int \<Rightarrow> instant option"

section \<open>Errors\<close>

record token_rejection =
  tr_code :: string
  tr_message :: ustring

datatype verify_failure = TokenRejected token_rejection | KeysUnavailable ustring

datatype accounts_error = AccountsUnavailable ustring | AccountsRejected nat string ustring

definition accounts_error_of :: "client_error \<Rightarrow> accounts_error" where
  "accounts_error_of e =
     (case ce_status e of
        Some status \<Rightarrow>
          if 400 \<le> status \<and> status < 500 \<and> status \<noteq> 429
          then AccountsRejected status (ce_code e) (ce_message e)
          else AccountsUnavailable (ce_message e)
      | None \<Rightarrow> AccountsUnavailable (ce_message e))"

fun accounts_error_text :: "accounts_error \<Rightarrow> ustring" where
  "accounts_error_text (AccountsUnavailable message) = lit ''Silicon Accounts is unavailable: '' @ message"
| "accounts_error_text (AccountsRejected status code message) =
     lit ''Silicon Accounts refused ('' @ show_nat status @ lit '' '' @ lit code @ lit ''): '' @ message"

datatype lookup = Found account_summary | LookupNotFound | LookupDeleted

datatype webhook_rejection = NotConfigured | SignatureRejected webhook_error | BodyRejected webhook_error

definition token_hint :: "token_error \<Rightarrow> ustring" where
  "token_hint e =
     (case e of
        TokenExpired \<Rightarrow> lit ''Refresh the session (hook login status shows it) or sign in again with hook login.''
      | WrongAudience \<Rightarrow>
          lit ''Send a token issued to Hook: sign in with hook login, or exchange a short-lived token minted with silicon-accounts login --app hook.''
      | WrongIssuer \<Rightarrow>
          lit ''The token comes from a different Silicon Accounts deployment than the one Hook trusts (ACCOUNTS_URL).''
      | _ \<Rightarrow> lit ''Send the access_token Silicon Accounts issued to Hook, exactly as received.'')"

definition rejection :: "client_error \<Rightarrow> verify_failure" where
  "rejection e =
     TokenRejected
       (case ce_token e of
          Some token \<Rightarrow> \<lparr>tr_code = ce_code e, tr_message = ce_message e @ lit '' '' @ token_hint token\<rparr>
        | None \<Rightarrow> \<lparr>tr_code = ''token_invalid'', tr_message = ce_message e\<rparr>)"

definition classify_lookup :: "(account_summary, client_error) result \<Rightarrow> (lookup, accounts_error) result" where
  "classify_lookup r =
     (case r of
        Ok summary \<Rightarrow> Ok (if as_status summary = lit ''deleted'' then LookupDeleted else Found summary)
      | Err e \<Rightarrow>
          if ce_code e = ''account_deleted'' then Ok LookupDeleted
          else if ce_code e = ''account_not_found'' \<or> ce_code e = ''invalid_id'' \<or> ce_code e = ''invalid_uuid''
            then Ok LookupNotFound
          else Err (accounts_error_of e))"

section \<open>State\<close>

text \<open>The generation stands for the identity of the shared key set (\<open>Arc::ptr_eq\<close>).\<close>

record 'j gateway =
  gw_keys :: 'j
  gw_generation :: nat
  gw_fetched_at :: "instant option"
  gw_inactive :: "(bytes \<times> instant) list"
  gw_after_sign_out :: "(bytes \<times> instant) list"
  gw_window :: instant
  gw_spent :: nat

definition gateway_new :: "'j \<Rightarrow> instant \<Rightarrow> 'j gateway" where
  "gateway_new keys now =
     \<lparr>gw_keys = keys, gw_generation = 0, gw_fetched_at = None, gw_inactive = [], gw_after_sign_out = [],
      gw_window = now, gw_spent = 0\<rparr>"

definition jwks_refetch_interval :: int where
  "jwks_refetch_interval = seconds 1"

definition inactive_token_memory :: int where
  "inactive_token_memory = seconds 1800"

definition lookups_per_minute :: nat where
  "lookups_per_minute = 300"

definition max_remembered_inactive_tokens :: nat where
  "max_remembered_inactive_tokens = 10000"

definition max_remembered_same_second_tokens :: nat where
  "max_remembered_same_second_tokens = 10000"

section \<open>Access tokens\<close>

type_synonym ('j, 'a, 'e) asked = "'j gateway \<Rightarrow> ('a, 'e) result \<times> 'j gateway"

definition fetch_keys ::
  "'j accounts_answers \<Rightarrow> instant \<Rightarrow> nat option \<Rightarrow> ('j, 'j \<times> nat, verify_failure) asked" where
  "fetch_keys an now seen g =
     (if (case gw_fetched_at g of
            Some fetched_at \<Rightarrow>
              (case seen of None \<Rightarrow> True | Some s \<Rightarrow> s \<noteq> gw_generation g) \<or> now - fetched_at < jwks_refetch_interval
          | None \<Rightarrow> False)
      then (Ok (gw_keys g, gw_generation g), g)
      else
        (case an_jwks an of
           Err e \<Rightarrow> (Err (KeysUnavailable (lit ''could not fetch the Silicon Accounts signing keys: '' @ ce_message e)), g)
         | Ok keys \<Rightarrow>
             (Ok (keys, Suc (gw_generation g)),
              g\<lparr>gw_keys := keys, gw_generation := Suc (gw_generation g), gw_fetched_at := Some now\<rparr>)))"

definition current_keys :: "'j accounts_answers \<Rightarrow> instant \<Rightarrow> ('j, 'j \<times> nat, verify_failure) asked" where
  "current_keys an now g =
     (if gw_fetched_at g \<noteq> None then (Ok (gw_keys g, gw_generation g), g) else fetch_keys an now None g)"

definition verify_token ::
  "('j, 'e) accounts_settings \<Rightarrow> 'j accounts_answers \<Rightarrow> instant \<Rightarrow> ustring \<Rightarrow> ('j, claims, verify_failure) asked" where
  "verify_token se an now token g =
     (let verified = (\<lambda>keys. se_verify se keys (se_app_id se) (se_issuer se) now token) in
      case current_keys an now g of
        (Err f, g) \<Rightarrow> (Err f, g)
      | (Ok (keys, seen), g) \<Rightarrow>
          if (case verified keys of Err e \<Rightarrow> ce_token e = Some UnknownKey | Ok _ \<Rightarrow> False)
          then
            (case fetch_keys an now (Some seen) g of
               (Err f, g) \<Rightarrow> (Err f, g)
             | (Ok (keys, _), g) \<Rightarrow> (map_err rejection (verified keys), g))
          else (map_err rejection (verified keys), g))"

definition token_digest :: "'u crates \<Rightarrow> ustring \<Rightarrow> bytes" where
  "token_digest cr token = cr_digest cr HashSha256 (utf8 token)"

text \<open>\<open>HashMap::insert\<close> on an association list.\<close>

definition remember :: "'k \<Rightarrow> 'v \<Rightarrow> ('k \<times> 'v) list \<Rightarrow> ('k \<times> 'v) list" where
  "remember k v m = (k, v) # filter (\<lambda>(k', _). k' \<noteq> k) m"

definition remember_inactive :: "instant \<Rightarrow> bytes \<Rightarrow> (bytes \<times> instant) list \<Rightarrow> (bytes \<times> instant) list" where
  "remember_inactive now d m =
     (let kept = (if max_remembered_inactive_tokens \<le> length m
                  then filter (\<lambda>(_, at). now - at < inactive_token_memory) m else m) in
      remember d now (if max_remembered_inactive_tokens \<le> length kept then [] else kept))"

definition introspect_active ::
  "'u crates \<Rightarrow> ('j, 'e) accounts_settings \<Rightarrow> 'j accounts_answers \<Rightarrow> instant \<Rightarrow> ustring \<Rightarrow> ('j, bool, accounts_error) asked" where
  "introspect_active cr se an now token g =
     (let d = token_digest cr token in
      if (case map_of (gw_inactive g) d of None \<Rightarrow> False | Some at \<Rightarrow> now - at < inactive_token_memory)
      then (Ok False, g)
      else
        (case an_introspect an token of
           Err e \<Rightarrow> (Err (accounts_error_of e), g)
         | Ok answer \<Rightarrow>
             (let active = (it_active answer \<and>
                    (case it_client_id answer of None \<Rightarrow> True | Some app \<Rightarrow> app = se_app_id se)) in
              (Ok active,
               if active then g else g\<lparr>gw_inactive := remember_inactive now d (gw_inactive g)\<rparr>))))"

definition remember_newer :: "bytes \<Rightarrow> instant \<Rightarrow> (bytes \<times> instant) list \<Rightarrow> (bytes \<times> instant) list" where
  "remember_newer d signed_out_at m =
     remember d signed_out_at (if max_remembered_same_second_tokens \<le> length m then [] else m)"

definition issued_after_sign_out ::
  "'u crates \<Rightarrow> ('j, 'e) accounts_settings \<Rightarrow> 'j accounts_answers \<Rightarrow> instant \<Rightarrow> ustring \<Rightarrow> instant \<Rightarrow>
    ('j, bool, accounts_error) asked" where
  "issued_after_sign_out cr se an now token signed_out_at g =
     (let d = token_digest cr token in
      if map_of (gw_after_sign_out g) d = Some signed_out_at then (Ok True, g)
      else
        (case introspect_active cr se an now token g of
           (Err e, g) \<Rightarrow> (Err e, g)
         | (Ok active, g) \<Rightarrow>
             (Ok active,
              if active then g\<lparr>gw_after_sign_out := remember_newer d signed_out_at (gw_after_sign_out g)\<rparr> else g)))"

section \<open>Lookups\<close>

definition spend_lookup :: "instant \<Rightarrow> ('j, unit, accounts_error) asked" where
  "spend_lookup now g =
     (let g = (if seconds 60 \<le> now - gw_window g then g\<lparr>gw_window := now, gw_spent := 0\<rparr> else g) in
      if lookups_per_minute \<le> gw_spent g
      then (Err (AccountsUnavailable
              (lit ''Hook already looked up '' @ show_nat lookups_per_minute @
               lit '' accounts this minute; retry in a minute'')), g)
      else (Ok (), g\<lparr>gw_spent := Suc (gw_spent g)\<rparr>))"

definition looked_up :: "(account_summary, client_error) result \<Rightarrow> instant \<Rightarrow> ('j, lookup, accounts_error) asked" where
  "looked_up answer now g =
     (case spend_lookup now g of
        (Err e, g) \<Rightarrow> (Err e, g)
      | (Ok _, g) \<Rightarrow> (classify_lookup answer, g))"

definition gateway_lookup :: "'j accounts_answers \<Rightarrow> instant \<Rightarrow> ustring \<Rightarrow> ('j, lookup, accounts_error) asked" where
  "gateway_lookup an now u = looked_up (an_lookup an u) now"

definition gateway_lookup_by_id :: "'j accounts_answers \<Rightarrow> instant \<Rightarrow> ustring \<Rightarrow> ('j, lookup, accounts_error) asked" where
  "gateway_lookup_by_id an now i = looked_up (an_lookup_by_id an i) now"

section \<open>Webhook deliveries\<close>

fun verify_with_secrets ::
  "('j, 'e) accounts_settings \<Rightarrow> instant \<Rightarrow> ustring \<Rightarrow> ustring \<Rightarrow> bytes \<Rightarrow> webhook_error option \<Rightarrow> ustring list \<Rightarrow>
    ('e, webhook_rejection) result" where
  "verify_with_secrets se now timestamp signature body last_error [] =
     Err (case last_error of None \<Rightarrow> NotConfigured | Some e \<Rightarrow> SignatureRejected e)"
| "verify_with_secrets se now timestamp signature body last_error (secret # secrets) =
     (case se_parse_webhook se secret now timestamp signature body of
        Ok event \<Rightarrow> Ok event
      | Err WebhookInvalidBody \<Rightarrow> Err (BodyRejected WebhookInvalidBody)
      | Err WebhookSignatureMismatch \<Rightarrow>
          verify_with_secrets se now timestamp signature body (Some WebhookSignatureMismatch) secrets
      | Err e \<Rightarrow> Err (SignatureRejected e))"

definition verify_webhook ::
  "('j, 'e) accounts_settings \<Rightarrow> instant \<Rightarrow> ustring \<Rightarrow> ustring \<Rightarrow> bytes \<Rightarrow> ('e, webhook_rejection) result" where
  "verify_webhook se now timestamp signature body =
     verify_with_secrets se now timestamp signature body None (se_webhook_secrets se)"

definition webhook_configured :: "('j, 'e) accounts_settings \<Rightarrow> bool" where
  "webhook_configured se \<longleftrightarrow> se_webhook_secrets se \<noteq> []"

section \<open>What the handle keeps\<close>

text \<open>
  The remembered tokens are bounded, a lookup budget is never overspent, and no active answer is
  remembered as inactive.
\<close>

definition gateway_ok :: "'j gateway \<Rightarrow> bool" where
  "gateway_ok g \<longleftrightarrow>
     length (gw_inactive g) \<le> max_remembered_inactive_tokens \<and> distinct (map fst (gw_inactive g)) \<and>
     length (gw_after_sign_out g) \<le> max_remembered_same_second_tokens \<and> distinct (map fst (gw_after_sign_out g)) \<and>
     gw_spent g \<le> lookups_per_minute"

lemma gateway_new_ok: "gateway_ok (gateway_new keys now)"
  by (simp add: gateway_ok_def gateway_new_def)

lemma map_of_remember: "map_of (remember k v m) = (map_of m)(k \<mapsto> v)"
proof
  fix x
  have "map_of (filter (\<lambda>(k', _). k' \<noteq> k) m) x = (if x = k then None else map_of m x)"
    by (induction m) auto
  then show "map_of (remember k v m) x = ((map_of m)(k \<mapsto> v)) x"
    by (simp add: remember_def)
qed

lemma remember_bounds:
  "length (remember k v m) \<le> Suc (length m)"
  "distinct (map fst m) \<Longrightarrow> distinct (map fst (remember k v m))"
proof -
  show "length (remember k v m) \<le> Suc (length m)" by (simp add: remember_def)
  show "distinct (map fst (remember k v m))" if "distinct (map fst m)"
    using that by (auto simp: remember_def distinct_map intro: inj_on_subset)
qed

lemma remember_inactive_ok:
  assumes "length m \<le> max_remembered_inactive_tokens" and "distinct (map fst m)"
  shows "length (remember_inactive now d m) \<le> max_remembered_inactive_tokens"
    and "distinct (map fst (remember_inactive now d m))"
    and "map_of (remember_inactive now d m) d = Some now"
proof -
  define kept where "kept = (if max_remembered_inactive_tokens \<le> length m
      then filter (\<lambda>(_, at). now - at < inactive_token_memory) m else m)"
  have d: "distinct (map fst kept)" using assms(2) by (auto simp: kept_def distinct_map intro: inj_on_subset)
  have eq: "remember_inactive now d m = remember d now (if max_remembered_inactive_tokens \<le> length kept then [] else kept)"
    by (simp add: remember_inactive_def kept_def)
  show "length (remember_inactive now d m) \<le> max_remembered_inactive_tokens"
    "distinct (map fst (remember_inactive now d m))"
    unfolding eq using d remember_bounds [where k = d and v = now and m = kept] remember_bounds [where k = d and v = now and m = "[]"]
    by (auto simp: max_remembered_inactive_tokens_def)
  show "map_of (remember_inactive now d m) d = Some now"
    by (simp add: remember_inactive_def Let_def map_of_remember)
qed

lemma remember_newer_ok:
  assumes "length m \<le> max_remembered_same_second_tokens" and "distinct (map fst m)"
  shows "length (remember_newer d t m) \<le> max_remembered_same_second_tokens"
    and "distinct (map fst (remember_newer d t m))"
  using assms remember_bounds [where k = d and v = t and m = m] remember_bounds [where k = d and v = t and m = "[]"]
  by (auto simp: remember_newer_def max_remembered_same_second_tokens_def)

lemma fetch_keys_ok: "gateway_ok (snd (fetch_keys an now seen g)) \<longleftrightarrow> gateway_ok g"
  by (auto simp: fetch_keys_def gateway_ok_def split: result.split option.split)

lemma verify_token_ok: "gateway_ok (snd (verify_token se an now token g)) \<longleftrightarrow> gateway_ok g"
proof -
  have "gateway_ok (snd (current_keys an now g)) \<longleftrightarrow> gateway_ok g"
    by (simp add: current_keys_def fetch_keys_ok)
  then show ?thesis
    using fetch_keys_ok [of an now]
    by (auto simp: verify_token_def Let_def split: prod.splits result.splits) (metis snd_conv)+
qed

lemma introspect_ok: "gateway_ok g \<Longrightarrow> gateway_ok (snd (introspect_active cr se an now token g))"
  using remember_inactive_ok [of "gw_inactive g" now "token_digest cr token"]
  by (auto simp: introspect_active_def Let_def gateway_ok_def split: result.split)

lemma after_sign_out_ok:
  assumes "gateway_ok g"
  shows "gateway_ok (snd (issued_after_sign_out cr se an now token t g))"
proof -
  have asked: "gateway_ok (snd (introspect_active cr se an now token g))" by (rule introspect_ok [OF assms])
  obtain r g' where run: "introspect_active cr se an now token g = (r, g')" by fastforce
  then have ok: "gateway_ok g'" using asked by simp
  then show ?thesis
    using assms run remember_newer_ok [of "gw_after_sign_out g'" "token_digest cr token" t]
    by (cases r) (auto simp: issued_after_sign_out_def Let_def gateway_ok_def)
qed

lemma looked_up_ok: "gateway_ok g \<Longrightarrow> gateway_ok (snd (looked_up answer now g))"
  by (auto simp: looked_up_def spend_lookup_def Let_def gateway_ok_def)

lemma remembered_inactive:
  assumes "introspect_active cr se an now token g = (Ok False, g')" and "then_at - now < inactive_token_memory"
    and "map_of (gw_inactive g) (token_digest cr token) = None"
  shows "introspect_active cr se an' then_at token g' = (Ok False, g')"
proof -
  have "map_of (gw_inactive g') (token_digest cr token) = Some now"
    using assms(1,3)
    by (auto simp: introspect_active_def Let_def remember_inactive_def map_of_remember split: result.splits if_splits option.splits)
  then show ?thesis using assms(2) by (simp add: introspect_active_def Let_def)
qed

text \<open>An answer that is not a memory is what the service said now.\<close>

lemma active_is_asked:
  assumes "introspect_active cr se an now token g = (Ok True, g')"
  shows "\<exists>answer. an_introspect an token = Ok answer \<and> it_active answer" and "g' = g"
  using assms by (auto simp: introspect_active_def Let_def split: result.splits if_splits option.splits)

end
