(* ===== verification/Access.thy ===== *)
theory Access
  imports Gateway Accounts
begin

text \<open>
  Who a caller is, which Silicon a request names, and what the caller may do with its hooks
  (\<open>application/access.rs\<close>): an operation works on the tables and on the handle to Silicon
  Accounts, and reads the clock once.
\<close>

section \<open>Operations on the tables and on the handle\<close>

record 'j world =
  wo_db :: db
  wo_gateway :: "'j gateway"

text \<open>An operation's surroundings: the crates, the settings, the service's answers and the clock.\<close>

record ('u, 'k, 'z, 'j, 'e) surroundings =
  su_deps :: "('u, 'k, 'z) deps"
  su_settings :: "('j, 'e) accounts_settings"
  su_answers :: "'j accounts_answers"
  su_now :: instant

definition on_tables :: "'a app \<Rightarrow> ('j world, 'a) served" where
  "on_tables m w = (case m (wo_db w) of (r, db) \<Rightarrow> (r, w\<lparr>wo_db := db\<rparr>))"

definition on_gateway ::
  "('e \<Rightarrow> application_error) \<Rightarrow> ('j, 'a, 'e) asked \<Rightarrow> ('j world, 'a) served" where
  "on_gateway f m w = (case m (wo_gateway w) of (r, g) \<Rightarrow> (map_err f r, w\<lparr>wo_gateway := g\<rparr>))"

text \<open>An operation whose failure is logged and otherwise ignored.\<close>

definition tolerate :: "('j world, 'a) served \<Rightarrow> ('j world, unit) served" where
  "tolerate m w = (Ok (), snd (m w))"

definition su_uuid :: "('u, 'k, 'z, 'j, 'e) surroundings \<Rightarrow> uuid_crate" where
  "su_uuid su = dp_uuid (su_deps su)"

section \<open>Helpers\<close>

definition custodian_freshness :: int where
  "custodian_freshness = seconds 300"

definition public_id_freshness :: int where
  "public_id_freshness = seconds 3600"

definition access_token_lifetime :: int where
  "access_token_lifetime = seconds 1800"

definition accounts_unavailable :: "accounts_error \<Rightarrow> application_error" where
  "accounts_unavailable e =
     (case e of
        AccountsRejected status code message \<Rightarrow> Refused 502 ''accounts_refused''
      | AccountsUnavailable message \<Rightarrow> Refused 503 ''accounts_unavailable'')"

fun kind_of :: "account_kind \<Rightarrow> actor_kind" where
  "kind_of CarbonAccount = Carbon"
| "kind_of SiliconAccount = Silicon"

definition ok_of :: "('a, 'e) result \<Rightarrow> 'a option" where
  "ok_of r = (case r of Ok a \<Rightarrow> Some a | Err _ \<Rightarrow> None)"

definition custodian_of :: "uuid_crate \<Rightarrow> account_ref option \<Rightarrow> (account_uuid \<times> public_id option) option" where
  "custodian_of uc r =
     (case r of
        None \<Rightarrow> None
      | Some c \<Rightarrow> map_option (\<lambda>u. (u, ok_of (public_id_new (nf_id c)))) (ok_of (account_uuid_new uc (nf_uuid c))))"

definition view_of :: "uuid_crate \<Rightarrow> account_summary \<Rightarrow> (account_view, application_error) result" where
  "view_of uc s =
     map_ok
       (\<lambda>u. \<lparr>vw_uuid = u, vw_kind = kind_of (as_kind s), vw_public_id = ok_of (public_id_new (as_id s)),
            vw_custodian = custodian_of uc (as_custodian s)\<rparr>)
       (map_err (\<lambda>_. Refused 502 ''accounts_invalid'') (account_uuid_new uc (as_uuid s)))"

definition older_than :: "instant option \<Rightarrow> int \<Rightarrow> instant \<Rightarrow> bool" where
  "older_than at age now = (case at of None \<Rightarrow> True | Some at \<Rightarrow> age < now - at)"

section \<open>Looking an account up\<close>

definition look_up ::
  "('u, 'k, 'z, 'j, 'e) surroundings \<Rightarrow> ustring \<Rightarrow> bool \<Rightarrow> ('j world, account_record option) served" where
  "look_up su v by_id =
     app_bind
       (on_gateway accounts_unavailable
         (if by_id then gateway_lookup_by_id (su_answers su) (su_now su) v
          else gateway_lookup (su_answers su) (su_now su) v)) (\<lambda>found.
       case found of
         Found summary \<Rightarrow>
           app_bind (give (view_of (su_uuid su) summary)) (\<lambda>view.
           app_bind (on_tables (committed (record_account_view (su_uuid su) view (su_now su) (su_now su)))) (\<lambda>record.
             give (Ok (Some record))))
       | LookupDeleted \<Rightarrow>
           app_bind
             (case account_uuid_new (su_uuid su) v of
                Ok u \<Rightarrow>
                  on_tables (transact (\<lambda>db.
                    map_ok (Pair ()) (record_account_deleted_by_lookup u (su_now su) (su_now su) db)))
              | Err _ \<Rightarrow> give (Ok ())) (\<lambda>_.
             give (Err (Refused 410 ''account_deleted'')))
       | LookupNotFound \<Rightarrow> give (Ok None))"

section \<open>Who the caller is\<close>

definition issued_at :: "('j, 'e) accounts_settings \<Rightarrow> claims \<Rightarrow> instant" where
  "issued_at se c =
     (case or_else (case tk_iat c of None \<Rightarrow> None | Some iat \<Rightarrow> se_from_unix se iat)
             (map_option (\<lambda>exp. exp - access_token_lifetime) (se_from_unix se (tk_exp c))) of
        None \<Rightarrow> 0
      | Some at \<Rightarrow> at)"

definition sign_out_second :: "instant \<Rightarrow> instant" where
  "sign_out_second at = at - at mod seconds 1"

definition ended_by_sign_out ::
  "('u, 'k, 'z, 'j, 'e) surroundings \<Rightarrow> ustring \<Rightarrow> instant \<Rightarrow> instant \<Rightarrow> ('j world, bool) served" where
  "ended_by_sign_out su token at revoked_before =
     (if at < sign_out_second revoked_before then give (Ok True)
      else if revoked_before \<le> at then give (Ok False)
      else
        app_bind
          (on_gateway accounts_unavailable
            (issued_after_sign_out (dp_crates (su_deps su)) (su_settings su) (su_answers su) (su_now su) token revoked_before))
          (\<lambda>after. give (Ok (\<not> after))))"

definition verify_failure_error :: "verify_failure \<Rightarrow> application_error" where
  "verify_failure_error f =
     (case f of
        TokenRejected r \<Rightarrow> Refused 401 (tr_code r)
      | KeysUnavailable message \<Rightarrow> Refused 503 ''accounts_unavailable'')"

text \<open>The record a token's account has: the cached one, unless the token brings a new public id.\<close>

definition token_record ::
  "('u, 'k, 'z, 'j, 'e) surroundings \<Rightarrow> account_uuid \<Rightarrow> actor_kind \<Rightarrow> public_id option \<Rightarrow> instant \<Rightarrow>
    ('j world, account_record) served" where
  "token_record su u kind i at =
     app_bind (on_tables (query (account (su_uuid su) u))) (\<lambda>cached.
       case cached of
         Some record \<Rightarrow>
           if rc_public_id record = i \<or> i = None then give (Ok record)
           else on_tables (committed (observe_token_account (su_uuid su) u kind i at (su_now su)))
       | None \<Rightarrow> on_tables (committed (observe_token_account (su_uuid su) u kind i at (su_now su))))"

definition authenticate :: "('u, 'k, 'z, 'j, 'e) surroundings \<Rightarrow> ustring \<Rightarrow> ('j world, actor) served" where
  "authenticate su token =
     app_bind (on_gateway verify_failure_error (verify_token (su_settings su) (su_answers su) (su_now su) token)) (\<lambda>c.
     app_bind (give (map_err (\<lambda>_. Refused 401 ''token_invalid'') (account_uuid_new (su_uuid su) (tk_sub c)))) (\<lambda>u.
     app_bind (on_tables (query (\<lambda>db. Ok (account_uuid_str u \<in> set (db_retired_uuids db))))) (\<lambda>retired.
     if retired then give (Err (Refused 401 ''session_ended''))
     else
       app_bind (give (ok_or (Refused 401 ''token_missing_claim'') (map_option kind_of (tk_kind c)))) (\<lambda>kind.
       (let i = (case tk_id c of None \<Rightarrow> None | Some i \<Rightarrow> ok_of (public_id_new i));
            at = issued_at (su_settings su) c in
       app_bind (token_record su u kind i at) (\<lambda>record.
       if rc_deleted_at record \<noteq> None then give (Err (Refused 401 ''account_deleted''))
       else
         app_bind
           (case rc_revoked_before record of
              None \<Rightarrow> give (Ok False)
            | Some revoked_before \<Rightarrow> ended_by_sign_out su token at revoked_before) (\<lambda>ended.
         if ended then give (Err (Refused 401 ''session_ended''))
         else
           app_bind
             (if kind = Silicon \<and> rc_custodian_checked_at record = None
              then tolerate (look_up su (account_uuid_str u) False) else give (Ok ())) (\<lambda>_.
           give (Ok \<lparr>actor_uuid = u, actor_kind_of = kind, actor_public_id = or_else i (rc_public_id record),
                    actor_scope = tk_scopes c, actor_token_family = tk_fid c\<rparr>)))))))))"

definition require_active_token :: "('u, 'k, 'z, 'j, 'e) surroundings \<Rightarrow> ustring \<Rightarrow> ('j world, unit) served" where
  "require_active_token su token =
     app_bind
       (on_gateway accounts_unavailable
         (introspect_active (dp_crates (su_deps su)) (su_settings su) (su_answers su) (su_now su) token)) (\<lambda>active.
       give (if active then Ok () else Err (Refused 401 ''session_ended'')))"

section \<open>Which Silicon a request names\<close>

definition resolve_account :: "('u, 'k, 'z, 'j, 'e) surroundings \<Rightarrow> ustring \<Rightarrow> ('j world, account_record) served" where
  "resolve_account su v =
     (let v = trim v; not_found = (\<lambda>found. give (ok_or (Refused 404 ''account_not_found'') found)) in
      case public_id_new v of
        Ok i \<Rightarrow>
          app_bind (on_tables (query (account_by_public_id (su_uuid su) i))) (\<lambda>cached.
            case cached of
              Some record \<Rightarrow>
                if \<not> older_than (rc_public_id_at record) public_id_freshness (su_now su) then give (Ok record)
                else app_bind (look_up su (public_id_str i) True) not_found
            | None \<Rightarrow> app_bind (look_up su (public_id_str i) True) not_found)
      | Err _ \<Rightarrow>
          app_bind (give (map_err (\<lambda>_. Refused 422 ''invalid_account'') (account_uuid_new (su_uuid su) v))) (\<lambda>u.
          app_bind (on_tables (query (account (su_uuid su) u))) (\<lambda>cached.
            case cached of
              Some record \<Rightarrow>
                if rc_deleted_at record \<noteq> None then give (Err (Refused 410 ''account_deleted''))
                else if rc_public_id record \<noteq> None then give (Ok record)
                else app_bind (look_up su (account_uuid_str u) False) not_found
            | None \<Rightarrow> app_bind (look_up su (account_uuid_str u) False) not_found)))"

definition silicon_not_found :: "application_error \<Rightarrow> application_error" where
  "silicon_not_found e = (case e of Refused status code \<Rightarrow> if status = 404 then Refused 404 ''silicon_not_found'' else e | _ \<Rightarrow> e)"

definition recover_err :: "(application_error \<Rightarrow> application_error) \<Rightarrow> ('s, 'a) served \<Rightarrow> ('s, 'a) served" where
  "recover_err f m s = (case m s of (r, s) \<Rightarrow> (map_err f r, s))"

definition resolve_silicon :: "('u, 'k, 'z, 'j, 'e) surroundings \<Rightarrow> ustring \<Rightarrow> ('j world, account_record) served" where
  "resolve_silicon su segment =
     app_bind (recover_err silicon_not_found (resolve_account su segment)) (\<lambda>record.
       give (if rc_kind record \<noteq> Silicon then Err (Refused 404 ''not_a_silicon'') else Ok record))"

section \<open>What the caller may do\<close>

definition current_custodian ::
  "('u, 'k, 'z, 'j, 'e) surroundings \<Rightarrow> account_record \<Rightarrow> ('j world, account_uuid option) served" where
  "current_custodian su silicon =
     (if \<not> older_than (rc_custodian_checked_at silicon) custodian_freshness (su_now su)
      then give (Ok (rc_custodian_uuid silicon))
      else
        app_bind (look_up su (account_uuid_str (rc_uuid silicon)) False) (\<lambda>found.
          give (Ok (case found of Some fresh \<Rightarrow> rc_custodian_uuid fresh | None \<Rightarrow> None))))"

definition named_silicon ::
  "('u, 'k, 'z, 'j, 'e) surroundings \<Rightarrow> actor \<Rightarrow> ustring \<Rightarrow> ('j world, account_record) served" where
  "named_silicon su a segment =
     (if actor_kind_of a = Silicon \<and> looks_like (su_uuid su) segment \<and> segment = account_uuid_str (actor_uuid a)
      then
        app_bind (on_tables (query (account (su_uuid su) (actor_uuid a)))) (\<lambda>found.
          give (ok_or (Refused 404 ''silicon_not_found'') found))
      else resolve_silicon su segment)"

definition authorize_silicon ::
  "('u, 'k, 'z, 'j, 'e) surroundings \<Rightarrow> actor \<Rightarrow> ustring \<Rightarrow> ('j world, authorization_context) served" where
  "authorize_silicon su a segment =
     app_bind (named_silicon su a segment) (\<lambda>silicon.
     (let with_access = (\<lambda>access. give (Ok
            \<lparr>ac_actor = a, ac_silicon = \<lparr>sr_uuid = rc_uuid silicon, sr_id = rc_public_id silicon\<rparr>, ac_access = access\<rparr>)) in
      if actor_uuid a = rc_uuid silicon then with_access Own
      else
        app_bind
          (if actor_kind_of a = Carbon then current_custodian su silicon else give (Ok None)) (\<lambda>custodian.
        if actor_kind_of a = Carbon \<and> custodian = Some (actor_uuid a) then with_access Custodian
        else
          app_bind (on_tables (query (grant (su_uuid su) (rc_uuid silicon) (actor_uuid a)))) (\<lambda>found.
            case found of
              Some g \<Rightarrow> with_access (Grant (gt_level g))
            | None \<Rightarrow> give (Err (Refused 403 ''no_access''))))))"

record accessible_silicon =
  sl_silicon :: account_record
  sl_access :: access

text \<open>The grants one after another, skipping Silicons that are already listed.\<close>

fun granted_silicons ::
  "account_record list \<Rightarrow> grant_record list \<Rightarrow> accessible_silicon list \<Rightarrow> accessible_silicon list" where
  "granted_silicons granted [] silicons = silicons"
| "granted_silicons granted (g # gs) silicons =
     (if list_ex (\<lambda>s. rc_uuid (sl_silicon s) = gt_silicon_uuid g) silicons then granted_silicons granted gs silicons
      else
        (case find (\<lambda>r. rc_uuid r = gt_silicon_uuid g \<and> rc_deleted_at r = None) granted of
           None \<Rightarrow> granted_silicons granted gs silicons
         | Some r \<Rightarrow>
             granted_silicons granted gs (silicons @ [\<lparr>sl_silicon = r, sl_access = Grant (gt_level g)\<rparr>])))"

definition accessible_silicons ::
  "('u, 'k, 'z, 'j, 'e) surroundings \<Rightarrow> actor \<Rightarrow> ('j world, accessible_silicon list) served" where
  "accessible_silicons su a =
     app_bind
       (if actor_kind_of a = Silicon
        then
          app_bind (on_tables (query (account (su_uuid su) (actor_uuid a)))) (\<lambda>found.
            give (Ok (case found of None \<Rightarrow> [] | Some r \<Rightarrow> [\<lparr>sl_silicon = r, sl_access = Own\<rparr>])))
        else
          app_bind (on_tables (query (silicons_looked_after_by (su_uuid su) (actor_uuid a)))) (\<lambda>rs.
            give (Ok (map (\<lambda>r. \<lparr>sl_silicon = r, sl_access = Custodian\<rparr>) rs)))) (\<lambda>silicons.
     app_bind (on_tables (query (grants_to (su_uuid su) (actor_uuid a)))) (\<lambda>grants.
     app_bind (on_tables (query (accounts (su_uuid su) (map gt_silicon_uuid grants)))) (\<lambda>granted.
       give (Ok (granted_silicons granted grants silicons)))))"

end
