(* ===== verification/Sharing.thy ===== *)
theory Sharing
  imports Access AccountsEvents
begin

text \<open>
  Explicit access to a Silicon's hooks and the allow-list (\<open>application/sharing.rs\<close>), and the webhook of
  Silicon Accounts (\<open>application/accounts_events.rs\<close>): verified events reduced to their effect. The
  identifiers of audit rows are arguments.
\<close>

section \<open>Access\<close>

record access_summary =
  sm_custodian :: "account_record option"
  sm_grants :: "grant_record list"
  sm_accounts :: "account_record list"

definition owner_of :: "('u, 'k, 'z, 'j, 'e) surroundings \<Rightarrow> authorization_context \<Rightarrow> ('j world, account_record) served" where
  "owner_of su c =
     app_bind (on_tables (query (account (su_uuid su) (sr_uuid (ac_silicon c))))) (\<lambda>found.
       give (ok_or ResourceNotFound found))"

definition access_summary ::
  "('u, 'k, 'z, 'j, 'e) surroundings \<Rightarrow> authorization_context \<Rightarrow> ('j world, access_summary) served" where
  "access_summary su c =
     app_bind (owner_of su c) (\<lambda>silicon.
     app_bind (current_custodian su silicon) (\<lambda>custodian.
     app_bind (on_tables (query (grants_on (su_uuid su) (sr_uuid (ac_silicon c))))) (\<lambda>grants.
     (let grants = (if ac_access c = Own \<or> ac_access c = Custodian then grants
                    else filter (\<lambda>g. gt_grantee_uuid g = actor_uuid (ac_actor c)) grants);
          referenced = concat (map (\<lambda>g. [gt_grantee_uuid g, gt_granted_by_uuid g]) grants) @
            (case custodian of None \<Rightarrow> [] | Some u \<Rightarrow> [u]) in
      app_bind (on_tables (query (accounts (su_uuid su) (remdups (sort_key account_uuid_str referenced))))) (\<lambda>known.
        give (Ok
          \<lparr>sm_custodian = (case custodian of None \<Rightarrow> None | Some u \<Rightarrow> find (\<lambda>r. rc_uuid r = u) known),
           sm_grants = grants, sm_accounts = known\<rparr>))))))"

text \<open>Whether a Silicon may be given access by an owner: in the same circle, or by its own leave.\<close>

definition reachable ::
  "('u, 'k, 'z, 'j, 'e) surroundings \<Rightarrow> account_record \<Rightarrow> account_uuid option \<Rightarrow> account_record \<Rightarrow> ('j world, unit) served" where
  "reachable su owner owner_custodian grantee =
     app_bind (current_custodian su grantee) (\<lambda>grantee_custodian.
     (let same_circle = (owner_custodian \<noteq> None \<and> owner_custodian = grantee_custodian);
          sharers = rc_uuid owner # (case owner_custodian of None \<Rightarrow> [] | Some u \<Rightarrow> [u]) in
      if same_circle then give (Ok ())
      else
        app_bind (on_tables (query (\<lambda>db. Ok (allows_any (rc_uuid grantee) sharers db)))) (\<lambda>allowed.
          give (if allowed then Ok () else Err (Refused 403 ''silicon_not_reachable'')))))"

definition grant_access ::
  "('u, 'k, 'z, 'j, 'e) surroundings \<Rightarrow> uuid \<Rightarrow> authorization_context \<Rightarrow> ustring \<Rightarrow> grant_level \<Rightarrow> ustring option \<Rightarrow>
    ('j world, grant_record \<times> account_record) served" where
  "grant_access su audit_id c grantee level request_id =
     app_bind (give (authorize_action c ManageAccess)) (\<lambda>_.
     app_bind (owner_of su c) (\<lambda>owner.
     app_bind (resolve_account su grantee) (\<lambda>grantee.
     if rc_uuid grantee = rc_uuid owner then give (Err (Refused 409 ''already_has_access''))
     else
       app_bind (current_custodian su owner) (\<lambda>owner_custodian.
       if owner_custodian = Some (rc_uuid grantee) then give (Err (Refused 409 ''already_has_access''))
       else
         app_bind (if rc_kind grantee = Silicon then reachable su owner owner_custodian grantee else give (Ok ())) (\<lambda>_.
         app_bind
           (on_tables (committed
             (put_grant (su_uuid su) audit_id (rc_uuid owner) (rc_uuid grantee) level (ac_actor c) request_id (su_now su)))) (\<lambda>g.
           give (Ok (g, grantee))))))))"

definition revoke_access ::
  "('u, 'k, 'z, 'j, 'e) surroundings \<Rightarrow> uuid \<Rightarrow> actor \<Rightarrow> ustring \<Rightarrow> ustring \<Rightarrow> ustring option \<Rightarrow> ('j world, unit) served" where
  "revoke_access su audit_id a segment grantee request_id =
     app_bind (authorize_silicon su a segment) (\<lambda>c.
     app_bind
       (if grantee = lit ''me'' then give (Ok (actor_uuid a))
        else app_bind (resolve_account su grantee) (\<lambda>r. give (Ok (rc_uuid r)))) (\<lambda>grantee.
     app_bind (give (if grantee \<noteq> actor_uuid a then authorize_action c ManageAccess else Ok ())) (\<lambda>_.
     app_bind (owner_of su c) (\<lambda>owner.
     app_bind (current_custodian su owner) (\<lambda>custodian.
     app_bind
       (on_tables (transact
         (delete_grant audit_id (rc_uuid owner) grantee a request_id (custodian = Some grantee) (su_now su)))) (\<lambda>was_granted.
       give (if was_granted then Ok () else Err (Refused 404 ''grant_not_found''))))))))"

section \<open>The allow-list\<close>

definition list_allowed ::
  "('u, 'k, 'z, 'j, 'e) surroundings \<Rightarrow> authorization_context \<Rightarrow> ('j world, allow_record list \<times> account_record list) served" where
  "list_allowed su c =
     app_bind (give (authorize_action c ManageAllowList)) (\<lambda>_.
     app_bind (on_tables (query (allow_list (su_uuid su) (sr_uuid (ac_silicon c))))) (\<lambda>entries.
     app_bind (on_tables (query (accounts (su_uuid su) (map aw_allowed_uuid entries)))) (\<lambda>known.
       give (Ok (entries, known)))))"

definition allow ::
  "('u, 'k, 'z, 'j, 'e) surroundings \<Rightarrow> uuid \<Rightarrow> authorization_context \<Rightarrow> ustring \<Rightarrow> ustring option \<Rightarrow>
    ('j world, allow_record \<times> account_record) served" where
  "allow su audit_id c v request_id =
     app_bind (give (authorize_action c ManageAllowList)) (\<lambda>_.
     app_bind (resolve_account su v) (\<lambda>r.
     if rc_uuid r = sr_uuid (ac_silicon c) then give (Err (Refused 409 ''cannot_allow_self''))
     else
       app_bind
         (on_tables (committed
           (put_allowance (su_uuid su) audit_id (sr_uuid (ac_silicon c)) (rc_uuid r) (ac_actor c) request_id (su_now su)))) (\<lambda>entry.
         give (Ok (entry, r)))))"

definition disallow ::
  "('u, 'k, 'z, 'j, 'e) surroundings \<Rightarrow> uuid \<Rightarrow> authorization_context \<Rightarrow> ustring \<Rightarrow> ustring option \<Rightarrow> ('j world, unit) served" where
  "disallow su audit_id c v request_id =
     app_bind (give (authorize_action c ManageAllowList)) (\<lambda>_.
     app_bind (resolve_account su v) (\<lambda>r.
     app_bind
       (on_tables (transact
         (delete_allowance audit_id (sr_uuid (ac_silicon c)) (rc_uuid r) (ac_actor c) request_id (su_now su)))) (\<lambda>was_allowed.
       give (if was_allowed then Ok () else Err (Refused 404 ''not_allowed'')))))"

section \<open>Webhook deliveries\<close>

text \<open>What is read of an event; the other payloads need no action.\<close>

record account_snapshot =
  sn_kind :: account_kind
  sn_id :: ustring
  sn_display_name :: ustring
  sn_pfp_url :: ustring
  sn_custodian :: "account_ref option"
  sn_version :: int

datatype webhook_payload =
    AccountIdChangedPayload ustring "account_kind option" ustring ustring
  | AccountUpdatedPayload ustring "account_snapshot option"
  | CustodianChangedPayload ustring "account_ref option" "account_ref option"
  | MembershipSignedOutPayload ustring "ustring option"
  | MembershipAccessRemovedPayload ustring
  | AccountDeletedPayload ustring
  | OtherPayload

record webhook_event =
  we_event_id :: ustring
  we_event_type :: ustring
  we_occurred_at :: "instant option"
  we_payload :: webhook_payload

definition event_uuid_of :: "uuid_crate \<Rightarrow> ustring \<Rightarrow> (account_uuid, application_error) result" where
  "event_uuid_of uc v = map_err (\<lambda>_. Refused 400 ''invalid_event'') (account_uuid_new uc v)"

definition non_empty :: "ustring \<Rightarrow> ustring option" where
  "non_empty v = (if v = [] then None else Some v)"

fun event_change :: "uuid_crate \<Rightarrow> webhook_payload \<Rightarrow> (accounts_change, application_error) result" where
  "event_change uc (AccountIdChangedPayload u kind old_id new_id) =
     and_then (event_uuid_of uc u) (\<lambda>u.
     map_ok (\<lambda>new_id. IdChanged u (map_option kind_of kind) (ok_of (public_id_new old_id)) new_id)
       (map_err (\<lambda>_. Refused 400 ''invalid_event'') (public_id_new new_id)))"
| "event_change uc (AccountUpdatedPayload u None) = Ok NothingChanged"
| "event_change uc (AccountUpdatedPayload u (Some s)) =
     map_ok
       (\<lambda>u. Updated u (kind_of (sn_kind s)) (ok_of (public_id_new (sn_id s))) (non_empty (sn_display_name s))
              (non_empty (sn_pfp_url s)) (custodian_of uc (sn_custodian s)) (sn_version s))
       (event_uuid_of uc u)"
| "event_change uc (CustodianChangedPayload u before after) =
     map_ok
       (\<lambda>u. CustodianChanged u (case before of None \<Rightarrow> None | Some b \<Rightarrow> ok_of (account_uuid_new uc (nf_uuid b)))
              (custodian_of uc after))
       (event_uuid_of uc u)"
| "event_change uc (MembershipSignedOutPayload u reason) = map_ok (\<lambda>u. SignedOut u reason) (event_uuid_of uc u)"
| "event_change uc (MembershipAccessRemovedPayload u) = map_ok AccessRemoved (event_uuid_of uc u)"
| "event_change uc (AccountDeletedPayload u) = map_ok AccountDeleted (event_uuid_of uc u)"
| "event_change uc OtherPayload = Ok NothingChanged"

definition webhook_rejection_error :: "webhook_rejection \<Rightarrow> application_error" where
  "webhook_rejection_error r =
     (case r of
        NotConfigured \<Rightarrow> Refused 503 ''webhook_not_configured''
      | SignatureRejected e \<Rightarrow> Refused 401 ''webhook_signature_invalid''
      | BodyRejected e \<Rightarrow> Refused 400 ''invalid_event'')"

definition receive_accounts_webhook ::
  "('u, 'k, 'z, 'j, webhook_event) surroundings \<Rightarrow> (uuid \<Rightarrow> uuid) \<Rightarrow> ustring option \<Rightarrow> ustring option \<Rightarrow> bytes \<Rightarrow>
    ('j world, event_outcome) served" where
  "receive_accounts_webhook su audit_ids timestamp signature body =
     app_bind
       (give (map_err webhook_rejection_error
         (verify_webhook (su_settings su) (su_now su) (unwrap_or timestamp []) (unwrap_or signature []) body))) (\<lambda>event.
     app_bind (give (event_change (su_uuid su) (we_payload event))) (\<lambda>change.
       on_tables (transact (apply_accounts_event audit_ids
         \<lparr>ax_event_id = we_event_id event, ax_event_type = we_event_type event,
          ax_occurred_at = unwrap_or (we_occurred_at event) (su_now su), ax_change = change\<rparr> (su_now su)))))"

end
