(* ===== verification/AccessFacts.thy ===== *)
theory AccessFacts
  imports Sharing AccountsFacts
begin

text \<open>
  What the access operations rest on: a record they answer with is a row of the tables they leave, a
  custodian is one that was confirmed recently, and what a caller was authenticated by.
\<close>

section \<open>Operations\<close>

lemma on_tables_Ok: "on_tables m w = (Ok a, w') \<longleftrightarrow> (\<exists>db. m (wo_db w) = (Ok a, db) \<and> w' = w\<lparr>wo_db := db\<rparr>)"
  by (auto simp: on_tables_def split: prod.split)

lemma on_gateway_Ok: "on_gateway f m w = (Ok a, w') \<longleftrightarrow> (\<exists>g. m (wo_gateway w) = (Ok a, g) \<and> w' = w\<lparr>wo_gateway := g\<rparr>)"
  by (auto simp: on_gateway_def result_simps split: prod.split)

lemma asked_tables_Ok: "on_tables (query q) w = (Ok a, w') \<longleftrightarrow> q (wo_db w) = Ok a \<and> w' = w"
  by (auto simp: on_tables_Ok query_Ok)

lemma committed_Ok: "committed t db = (Ok a, db') \<longleftrightarrow> t db = (Ok a, db')"
  by (auto simp: committed_def result_simps split: prod.split)

lemma give_Ok: "give r w = (Ok a, w') \<longleftrightarrow> r = Ok a \<and> w' = w"
  by auto

lemmas world_Ok = app_bind_Ok on_tables_Ok on_gateway_Ok committed_Ok query_Ok transact_Ok

section \<open>Records are rows\<close>

definition holds_row :: "uuid_crate \<Rightarrow> db \<Rightarrow> account_record \<Rightarrow> bool" where
  "holds_row uc db a \<longleftrightarrow> (\<exists>r \<in> set (db_accounts db). account_of_row uc r = Ok a)"

lemma stored_uuid_Ok: "stored_uuid uc v = Ok u \<longleftrightarrow> looks_like uc v \<and> u = AccountUuid v"
  by (auto simp: stored_uuid_def result_simps account_uuid_new_Ok)

lemma account_of_row_Ok:
  assumes "account_of_row uc r = Ok a"
  shows "ac_uuid r = account_uuid_str (rc_uuid a)" and "rc_deleted_at a = ac_deleted_at r"
    and "rc_revoked_before a = ac_revoked_before r" and "rc_custodian_checked_at a = ac_custodian_checked_at r"
    and "ac_custodian_uuid r = map_option account_uuid_str (rc_custodian_uuid a)" and "ac_kind r \<noteq> None"
    and "ac_kind r = Some (kind_text (rc_kind a))"
proof -
  obtain k where k: "ac_kind r = Some k" "parse_actor_kind k = Ok (rc_kind a)"
    using assms by (auto simp: account_of_row_def result_simps)
  from k(2) have "k = kind_text (rc_kind a)"
    by (auto simp: parse_actor_kind_def kind_text_def split: if_splits)
  with k show "ac_kind r = Some (kind_text (rc_kind a))" "ac_kind r \<noteq> None" by simp_all
qed (use assms in \<open>auto simp: account_of_row_def result_simps stored_uuid_Ok\<close>)

lemma account_Ok:
  assumes "account uc u db = Ok (Some a)"
  shows "\<exists>r \<in> set (db_accounts db). account_of_row uc r = Ok a \<and> account_row_of u r"
  using assms by (auto simp: account_def result_simps dest!: find_SomeD)

lemma account_Ok_the:
  assumes "account uc u db = Ok (Some a)" and "accounts_ok db"
  shows "\<exists>r. the_account u db = Some r \<and> account_of_row uc r = Ok a"
proof -
  obtain r where r: "r \<in> set (db_accounts db)" "account_of_row uc r = Ok a" "account_row_of u r"
    using account_Ok [OF assms(1)] by blast
  have "the_account u db = Some r"
    unfolding the_account_def
    by (rule find_unique [of ac_uuid]) (use r assms(2) in \<open>auto simp: accounts_ok_def account_row_of_def\<close>)
  with r(2) show ?thesis by blast
qed

lemma account_by_public_id_Ok: "account_by_public_id uc i db = Ok (Some a) \<Longrightarrow> holds_row uc db a"
proof -
  let ?rs = "filter (\<lambda>r. ac_public_id r = Some (public_id_str i) \<and> ac_deleted_at r = None \<and> ac_kind r \<noteq> None) (db_accounts db)"
  assume "account_by_public_id uc i db = Ok (Some a)"
  then obtain r rest where sorted: "sort_key freshness ?rs = r # rest" and r: "account_of_row uc r = Ok a"
    by (auto simp: account_by_public_id_def result_simps split: list.splits)
  have "r \<in> set (sort_key freshness ?rs)" by (simp only: sorted list.set insertI1)
  with r show ?thesis by (auto simp: holds_row_def)
qed

lemma the_account_mem: "the_account u db = Some r \<Longrightarrow> r \<in> set (db_accounts db)"
  by (auto simp: the_account_def dest: find_SomeD)

text \<open>A recorded view: its row is the account's, and a custodian it names was confirmed at that instant.\<close>

lemma record_view_Ok:
  assumes "record_account_view uc v at clock db = (Ok a, db')"
  shows "\<exists>r \<in> set (db_accounts db'). account_of_row uc r = Ok a \<and> account_row_of (vw_uuid v) r \<and>
    (ac_custodian_uuid r \<noteq> None \<longrightarrow> ac_custodian_checked_at r = Some at \<or> ac_deleted_at r \<noteq> None)"
proof -
  obtain row db1 db2 where
    up: "upsert_account (vw_uuid v) (viewed_account v at clock) (view_account v at clock) db1 = Ok (row, db2)"
    and rest: "remember_optional (vw_uuid v) (vw_public_id v) clock db2 = Ok db'" and row: "account_of_row uc row = Ok a"
    using assms by (auto simp: record_account_view_def result_simps split: result.splits prod.splits)
  note facts = upsert_account_Ok [OF up]
  have "the_account (vw_uuid v) db2 = Some row" using facts(2) [of "vw_uuid v"] by simp
  then have mem: "row \<in> set (db_accounts db')" "account_row_of (vw_uuid v) row"
    using the_account_mem the_account_uuid remember_accounts(2) [OF rest] by auto
  have checked: "account_check row"
    using up by (auto simp: upsert_account_def split: if_splits option.splits)
  have "ac_custodian_checked_at row = Some at \<or> ac_deleted_at row \<noteq> None" if some: "ac_custodian_uuid row \<noteq> None"
  proof (cases "the_account (vw_uuid v) db1")
    case None
    then have "row = viewed_account v at clock" using facts(1) by simp
    with checked some show ?thesis
      by (cases "vw_kind v") (auto simp: account_check_def viewed_account_def kind_text_def)
  next
    case (Some old)
    then have "row = view_account v at clock old" using facts(1) by simp
    with some show ?thesis
      by (auto simp: view_account_def Let_def split: if_splits option.splits)
  qed
  with mem row show ?thesis by blast
qed

lemma look_up_asked:
  assumes "look_up su v by_id w = (Ok x, w')"
  obtains (found) s g view a db where
      "(if by_id then gateway_lookup_by_id (su_answers su) (su_now su) v else gateway_lookup (su_answers su) (su_now su) v)
         (wo_gateway w) = (Ok (Found s), g)"
      "view_of (su_uuid su) s = Ok view" "record_account_view (su_uuid su) view (su_now su) (su_now su) (wo_db w) = (Ok a, db)"
      "x = Some a" "w' = w\<lparr>wo_gateway := g, wo_db := db\<rparr>"
  | (unknown) g where "x = None" "w' = w\<lparr>wo_gateway := g\<rparr>"
proof -
  obtain answer g where asked: "(if by_id then gateway_lookup_by_id (su_answers su) (su_now su) v
      else gateway_lookup (su_answers su) (su_now su) v) (wo_gateway w) = (Ok answer, g)"
    and rest: "(case answer of
         Found summary \<Rightarrow>
           app_bind (give (view_of (su_uuid su) summary)) (\<lambda>view.
           app_bind (on_tables (committed (record_account_view (su_uuid su) view (su_now su) (su_now su)))) (\<lambda>record.
             give (Ok (Some record))))
       | LookupDeleted \<Rightarrow>
           app_bind
             (case account_uuid_new (su_uuid su) v of
                Ok u \<Rightarrow>
                  on_tables (transact (\<lambda>db.
                    map_ok (Pair ()) (record_account_deleted_by_lookup u (su_now su) (su_now su) db)))
              | Err _ \<Rightarrow> give (Ok ())) (\<lambda>_.
             give (Err (Refused 410 ''account_deleted'')))
       | LookupNotFound \<Rightarrow> give (Ok None)) (w\<lparr>wo_gateway := g\<rparr>) = (Ok x, w')"
    using assms by (auto simp: look_up_def app_bind_Ok on_gateway_Ok)
  show thesis
  proof (cases answer)
    case (Found s)
    with rest obtain view a db where "view_of (su_uuid su) s = Ok view"
        "record_account_view (su_uuid su) view (su_now su) (su_now su) (wo_db w) = (Ok a, db)"
        "x = Some a" "w' = w\<lparr>wo_gateway := g, wo_db := db\<rparr>"
      by (auto simp: world_Ok)
    with Found asked show thesis by (intro found) simp_all
  next
    case LookupNotFound
    with rest show thesis by (intro unknown) auto
  next
    case LookupDeleted
    with rest show thesis by (auto simp: app_bind_Ok)
  qed
qed

lemma look_up_found:
  assumes "look_up su v by_id w = (Ok (Some a), w')"
  obtains s view g where
    "(if by_id then gateway_lookup_by_id (su_answers su) (su_now su) v else gateway_lookup (su_answers su) (su_now su) v)
       (wo_gateway w) = (Ok (Found s), g)"
    and "view_of (su_uuid su) s = Ok view"
    and "record_account_view (su_uuid su) view (su_now su) (su_now su) (wo_db w) = (Ok a, wo_db w')"
  using assms by (cases rule: look_up_asked) (auto intro: that)

lemma look_up_Ok:
  assumes "look_up su v by_id w = (Ok (Some a), w')"
  shows "\<exists>r \<in> set (db_accounts (wo_db w')). account_of_row (su_uuid su) r = Ok a \<and>
    (ac_custodian_uuid r \<noteq> None \<longrightarrow> ac_custodian_checked_at r = Some (su_now su) \<or> ac_deleted_at r \<noteq> None)"
  using assms by (rule look_up_found) (blast dest: record_view_Ok)

lemma look_up_holds: "look_up su v by_id w = (Ok (Some a), w') \<Longrightarrow> holds_row (su_uuid su) (wo_db w') a"
  using look_up_Ok unfolding holds_row_def by blast

lemma resolve_account_Ok:
  assumes "resolve_account su v w = (Ok a, w')"
  shows "w' = w \<and> ((\<exists>i. account_by_public_id (su_uuid su) i (wo_db w) = Ok (Some a)) \<or> (\<exists>u. account (su_uuid su) u (wo_db w) = Ok (Some a))) \<or>
    (\<exists>x by_id. look_up su x by_id w = (Ok (Some a), w'))"
proof -
  have asked: "app_bind (look_up su x by_id) (\<lambda>found. give (ok_or e found)) w = (Ok a, w') \<longleftrightarrow>
      look_up su x by_id w = (Ok (Some a), w')" for x by_id e
    by (auto simp: app_bind_Ok result_simps)
  show ?thesis
  proof (cases "public_id_new (trim v)")
    case (Ok i)
    then obtain cached where cached: "account_by_public_id (su_uuid su) i (wo_db w) = Ok cached"
      and rest: "(case cached of
              Some record \<Rightarrow>
                if \<not> older_than (rc_public_id_at record) public_id_freshness (su_now su) then give (Ok record)
                else app_bind (look_up su (public_id_str i) True) (\<lambda>found. give (ok_or (Refused 404 ''account_not_found'') found))
            | None \<Rightarrow> app_bind (look_up su (public_id_str i) True)
                (\<lambda>found. give (ok_or (Refused 404 ''account_not_found'') found))) w = (Ok a, w')"
      using assms by (auto simp: resolve_account_def Let_def app_bind_Ok asked_tables_Ok)
    show ?thesis
    proof (cases cached)
      case None
      with rest show ?thesis by (auto simp: asked)
    next
      case (Some x)
      then show ?thesis
        using rest cached by (cases "older_than (rc_public_id_at x) public_id_freshness (su_now su)") (auto simp: asked)
    qed
  next
    case (Err e)
    then obtain u cached where cached: "account (su_uuid su) u (wo_db w) = Ok cached"
      and rest: "(case cached of
              Some record \<Rightarrow>
                if rc_deleted_at record \<noteq> None then give (Err (Refused 410 ''account_deleted''))
                else if rc_public_id record \<noteq> None then give (Ok record)
                else app_bind (look_up su (account_uuid_str u) False) (\<lambda>found. give (ok_or (Refused 404 ''account_not_found'') found))
            | None \<Rightarrow> app_bind (look_up su (account_uuid_str u) False)
                (\<lambda>found. give (ok_or (Refused 404 ''account_not_found'') found))) w = (Ok a, w')"
      using assms by (auto simp: resolve_account_def Let_def app_bind_Ok asked_tables_Ok simp del: not_None_eq)
    show ?thesis
    proof (cases cached)
      case None
      with rest show ?thesis by (auto simp: asked)
    next
      case (Some x)
      then show ?thesis
        using rest cached by (cases "rc_deleted_at x = None"; cases "rc_public_id x = None") (auto simp: asked)
    qed
  qed
qed

lemma resolve_account_holds: "resolve_account su v w = (Ok a, w') \<Longrightarrow> holds_row (su_uuid su) (wo_db w') a"
  using resolve_account_Ok [of su v w a w'] account_by_public_id_Ok look_up_holds account_Ok
  unfolding holds_row_def by blast

lemma named_silicon_holds:
  assumes "named_silicon su a segment w = (Ok s, w')"
  shows "holds_row (su_uuid su) (wo_db w') s"
proof (cases "actor_kind_of a = Silicon \<and> looks_like (su_uuid su) segment \<and> segment = account_uuid_str (actor_uuid a)")
  case True
  then have "account (su_uuid su) (actor_uuid a) (wo_db w) = Ok (Some s)" "w' = w"
    using assms by (auto simp: named_silicon_def app_bind_Ok asked_tables_Ok result_simps)
  then show ?thesis unfolding holds_row_def by (blast dest: account_Ok)
next
  case False
  then have "resolve_silicon su segment w = (Ok s, w')" using assms by (simp only: named_silicon_def if_False)
  then have "resolve_account su segment w = (Ok s, w')"
    by (auto simp: resolve_silicon_def app_bind_Ok recover_err_def result_simps split: prod.splits if_splits)
  then show ?thesis by (rule resolve_account_holds)
qed

section \<open>Confirmed custodians\<close>

definition confirmed_custodian :: "db \<Rightarrow> instant \<Rightarrow> account_uuid \<Rightarrow> account_uuid \<Rightarrow> bool" where
  "confirmed_custodian db now silicon custodian \<longleftrightarrow>
     (\<exists>r \<in> set (db_accounts db). ac_uuid r = account_uuid_str silicon \<and>
        ac_custodian_uuid r = Some (account_uuid_str custodian) \<and>
        ((\<exists>t. ac_custodian_checked_at r = Some t \<and> now - t \<le> custodian_freshness) \<or> ac_deleted_at r \<noteq> None))"

text \<open>The service answers a lookup for a uuid with the account of that uuid.\<close>

definition lookups_answer_for :: "'j accounts_answers \<Rightarrow> bool" where
  "lookups_answer_for an \<longleftrightarrow> (\<forall>u s. an_lookup an u = Ok s \<longrightarrow> as_uuid s = u)"

lemma look_up_uuid:
  assumes "look_up su (account_uuid_str u) False w = (Ok (Some a), w')" and "lookups_answer_for (su_answers su)"
  shows "rc_uuid a = u"
proof -
  obtain s v g where s: "gateway_lookup (su_answers su) (su_now su) (account_uuid_str u) (wo_gateway w) = (Ok (Found s), g)"
    and v: "view_of (su_uuid su) s = Ok v"
    and r: "record_account_view (su_uuid su) v (su_now su) (su_now su) (wo_db w) = (Ok a, wo_db w')"
    using assms(1) by (rule look_up_found) simp
  have "an_lookup (su_answers su) (account_uuid_str u) = Ok s"
    using s by (auto simp: gateway_lookup_def looked_up_def classify_lookup_def split: prod.splits result.splits if_splits)
  then have "as_uuid s = account_uuid_str u" using assms(2) by (simp add: lookups_answer_for_def)
  with v have "vw_uuid v = u"
    by (auto simp: view_of_def result_simps account_uuid_new_Ok)
  with record_view_Ok [OF r] account_of_row_Ok(1) [of "su_uuid su" _ a] show ?thesis
    by (auto simp: account_row_of_def account_uuid.expand)
qed

lemma fresh_confirmed:
  assumes "holds_row uc db s" and "\<not> older_than (rc_custodian_checked_at s) custodian_freshness now" and "rc_custodian_uuid s = Some c"
  shows "confirmed_custodian db now (rc_uuid s) c"
proof -
  obtain r where r: "r \<in> set (db_accounts db)" "account_of_row uc r = Ok s"
    using assms(1) by (auto simp: holds_row_def)
  moreover obtain t where "rc_custodian_checked_at s = Some t" "now - t \<le> custodian_freshness"
    using assms(2) by (auto simp: older_than_def split: option.splits)
  ultimately show ?thesis
    using account_of_row_Ok [OF r(2)] assms(3) by (auto simp: confirmed_custodian_def)
qed

lemma current_custodian_confirmed:
  assumes "current_custodian su s w = (Ok (Some c), w')" and "lookups_answer_for (su_answers su)"
    and "\<lbrakk>\<not> older_than (rc_custodian_checked_at s) custodian_freshness (su_now su); rc_custodian_uuid s = Some c\<rbrakk> \<Longrightarrow>
      confirmed_custodian (wo_db w) (su_now su) (rc_uuid s) c"
  shows "confirmed_custodian (wo_db w') (su_now su) (rc_uuid s) c"
proof (cases "older_than (rc_custodian_checked_at s) custodian_freshness (su_now su)")
  case False
  with assms(1,3) show ?thesis by (simp add: current_custodian_def)
next
  case True
  then obtain fresh where fresh: "look_up su (account_uuid_str (rc_uuid s)) False w = (Ok (Some fresh), w')"
    "rc_custodian_uuid fresh = Some c"
    using assms(1) by (auto simp: current_custodian_def app_bind_Ok split: option.splits)
  obtain r where r: "r \<in> set (db_accounts (wo_db w'))" "account_of_row (su_uuid su) r = Ok fresh"
    "ac_custodian_uuid r \<noteq> None \<longrightarrow> ac_custodian_checked_at r = Some (su_now su) \<or> ac_deleted_at r \<noteq> None"
    using look_up_Ok [OF fresh(1)] by blast
  show ?thesis
    using r account_of_row_Ok [OF r(2)] fresh(2) look_up_uuid [OF fresh(1) assms(2)]
    by (auto simp: confirmed_custodian_def custodian_freshness_def seconds_def)
qed

text \<open>Rows other than the one a statement writes stay as they are.\<close>

lemma upsert_outcome:
  assumes "upsert_account v new f db = Ok (row, db')" and "r \<in> set (db_accounts db)" and "Q r"
    and "account_row_of v r \<Longrightarrow> Q (f r)"
  shows "\<exists>r \<in> set (db_accounts db'). Q r"
proof -
  have "(if account_row_of v r then f r else r) \<in> set (db_accounts db') \<or> r \<in> set (db_accounts db')"
    using assms(1,2) by (auto simp: upsert_account_def rows_update_def split: if_splits option.splits)
  with assms(3,4) show ?thesis by (cases "account_row_of v r") auto
qed

lemma confirmed_upsert:
  assumes "upsert_account v new f db = Ok (row, db')" and "confirmed_custodian db now s c"
    and "\<And>r. account_row_of v r \<Longrightarrow> ac_uuid r = account_uuid_str s \<Longrightarrow> ac_uuid (f r) = ac_uuid r \<and> ac_custodian_uuid (f r) = ac_custodian_uuid r \<and>
      ac_custodian_checked_at (f r) = ac_custodian_checked_at r \<and> ac_deleted_at (f r) = ac_deleted_at r"
  shows "confirmed_custodian db' now s c"
proof -
  obtain r where r: "r \<in> set (db_accounts db)" "ac_uuid r = account_uuid_str s \<and> ac_custodian_uuid r = Some (account_uuid_str c) \<and>
      ((\<exists>t. ac_custodian_checked_at r = Some t \<and> now - t \<le> custodian_freshness) \<or> ac_deleted_at r \<noteq> None)"
    using assms(2) by (auto simp: confirmed_custodian_def)
  show ?thesis
    unfolding confirmed_custodian_def
    by (rule upsert_outcome [OF assms(1) r(1)], rule r(2)) (use r(2) assms(3) [of r] in auto)
qed

lemma confirmed_view:
  assumes "record_account_view uc v at clock db = (Ok a, db')" and "confirmed_custodian db now s c" and "rc_uuid a \<noteq> s"
  shows "confirmed_custodian db' now s c"
proof -
  obtain row db1 db2 where first: "upsert_custodian (vw_custodian v) at clock db = Ok db1"
    and up: "upsert_account (vw_uuid v) (viewed_account v at clock) (view_account v at clock) db1 = Ok (row, db2)"
    and rest: "remember_optional (vw_uuid v) (vw_public_id v) clock db2 = Ok db'"
    using assms(1) by (auto simp: record_account_view_def result_simps split: result.splits prod.splits)
  have known: "confirmed_custodian db1 now s c"
  proof (cases "vw_custodian v")
    case (Some p)
    then obtain row db0 where known: "upsert_account (fst p) (known_account (fst p) Carbon (snd p) at clock)
          (\<lambda>r. forward_public_id (snd p) at (or_kind Carbon r)) db = Ok (row, db0)"
      and rest: "remember_optional (fst p) (snd p) clock db0 = Ok db1"
      using first by (cases p) (auto simp: upsert_custodian_def upsert_known_account_def result_simps)
    have "confirmed_custodian db0 now s c"
      by (rule confirmed_upsert [OF known assms(2)]) (simp add: forward_public_id_def or_kind_def split: option.split)
    with remember_accounts(2) [OF rest] show ?thesis by (simp add: confirmed_custodian_def)
  qed (use first assms(2) in \<open>simp add: upsert_custodian_def\<close>)
  have "vw_uuid v \<noteq> s"
    using record_view_Ok [OF assms(1)] account_of_row_Ok(1) [of uc _ a] assms(3) by (auto simp: account_row_of_def account_uuid.expand)
  then have "confirmed_custodian db2 now s c"
    by (intro confirmed_upsert [OF up known]) (auto simp: account_row_of_def account_uuid.expand)
  with remember_accounts(2) [OF rest] show ?thesis by (simp add: confirmed_custodian_def)
qed

lemma confirmed_look_up:
  assumes "look_up su v by_id w = (Ok found, w')" and "confirmed_custodian (wo_db w) now s c"
    and "\<And>a. found = Some a \<Longrightarrow> rc_uuid a \<noteq> s"
  shows "confirmed_custodian (wo_db w') now s c"
proof (cases found)
  case (Some a)
  from assms(1) [unfolded Some] obtain view where "record_account_view (su_uuid su) view (su_now su) (su_now su) (wo_db w) = (Ok a, wo_db w')"
    by (rule look_up_found)
  then show ?thesis by (rule confirmed_view [OF _ assms(2) assms(3) [OF Some]])
next
  case None
  from assms(1) [unfolded None] have "wo_db w' = wo_db w" by (cases rule: look_up_asked) simp_all
  with assms(2) show ?thesis by simp
qed

lemma confirmed_current:
  assumes "current_custodian su x w = (Ok found, w')" and "confirmed_custodian (wo_db w) now s c" and "rc_uuid x \<noteq> s"
    and "lookups_answer_for (su_answers su)"
  shows "confirmed_custodian (wo_db w') now s c"
proof (cases "older_than (rc_custodian_checked_at x) custodian_freshness (su_now su)")
  case True
  then obtain answer where asked: "look_up su (account_uuid_str (rc_uuid x)) False w = (Ok answer, w')"
    using assms(1) by (auto simp: current_custodian_def app_bind_Ok)
  show ?thesis
  proof (rule confirmed_look_up [OF asked assms(2)])
    fix a assume "answer = Some a"
    from look_up_uuid [OF asked [unfolded this] assms(4)] show "rc_uuid a \<noteq> s" using assms(3) by simp
  qed
qed (use assms(1,2) in \<open>simp add: current_custodian_def\<close>)

lemma confirmed_resolve:
  assumes "resolve_account su v w = (Ok a, w')" and "confirmed_custodian (wo_db w) now s c" and "rc_uuid a \<noteq> s"
  shows "confirmed_custodian (wo_db w') now s c"
proof -
  have "w' = w \<or> (\<exists>x by_id. look_up su x by_id w = (Ok (Some a), w'))"
    using resolve_account_Ok [OF assms(1)] by blast
  then show ?thesis
  proof
    assume "\<exists>x by_id. look_up su x by_id w = (Ok (Some a), w')"
    then obtain x by_id where "look_up su x by_id w = (Ok (Some a), w')" by blast
    then show ?thesis by (rule confirmed_look_up [OF _ assms(2)]) (use assms(3) in auto)
  qed (use assms(2) in simp)
qed

end
