(* ===== verification/AccessProps.thy ===== *)
theory AccessProps
  imports AccessFacts AccountsProps
begin

text \<open>
  Properties of authentication, access and sharing: what a caller is authenticated by, what access
  rests on, whom access can be given to, and that a sign-out ends the sign-ins before it.
\<close>

section \<open>Authentication\<close>

lemma fetch_keys_keeps: "fetch_keys an now seen g = (r, g') \<Longrightarrow>
    gw_after_sign_out g' = gw_after_sign_out g \<and> (\<forall>keys n. r = Ok (keys, n) \<longrightarrow> keys = gw_keys g \<or> an_jwks an = Ok keys) \<and>
    (gw_keys g' = gw_keys g \<or> an_jwks an = Ok (gw_keys g'))"
  by (auto simp: fetch_keys_def split: if_splits result.splits)

lemma verify_token_verified:
  assumes "verify_token se an now token g = (Ok c, g')"
  shows "\<exists>keys. (keys = gw_keys g \<or> an_jwks an = Ok keys) \<and> se_verify se keys (se_app_id se) (se_issuer se) now token = Ok c"
    and "gw_after_sign_out g' = gw_after_sign_out g"
proof -
  obtain keys seen g1 where cur: "current_keys an now g = (Ok (keys, seen), g1)"
    using assms by (auto simp: verify_token_def split: prod.splits result.splits)
  have keys: "keys = gw_keys g \<or> an_jwks an = Ok keys" "gw_after_sign_out g1 = gw_after_sign_out g"
    "gw_keys g1 = gw_keys g \<or> an_jwks an = Ok (gw_keys g1)"
    using cur fetch_keys_keeps [of an now None g] by (auto simp: current_keys_def split: if_splits)
  have "(\<exists>keys. (keys = gw_keys g \<or> an_jwks an = Ok keys) \<and> se_verify se keys (se_app_id se) (se_issuer se) now token = Ok c) \<and>
      gw_after_sign_out g' = gw_after_sign_out g"
  proof (cases "\<exists>e. se_verify se keys (se_app_id se) (se_issuer se) now token = Err e \<and> ce_token e = Some UnknownKey")
    case False
    then show ?thesis
      using assms cur keys by (auto simp: verify_token_def Let_def result_simps split: result.splits if_splits)
  next
    case True
    then obtain keys2 n where again: "fetch_keys an now (Some seen) g1 = (Ok (keys2, n), g')"
      "se_verify se keys2 (se_app_id se) (se_issuer se) now token = Ok c"
      using assms cur by (auto simp: verify_token_def Let_def result_simps split: result.splits prod.splits)
    then show ?thesis using fetch_keys_keeps [OF again(1)] keys by auto
  qed
  then show "\<exists>keys. (keys = gw_keys g \<or> an_jwks an = Ok keys) \<and> se_verify se keys (se_app_id se) (se_issuer se) now token = Ok c"
    and "gw_after_sign_out g' = gw_after_sign_out g" by simp_all
qed

lemma token_record_row:
  assumes "token_record su u kind i at w = (Ok rcd, w')" and "accounts_ok (wo_db w)" and "the_account u (wo_db w) = Some r"
  shows "rc_deleted_at rcd = ac_deleted_at r" and "rc_revoked_before rcd = ac_revoked_before r"
    and "wo_gateway w' = wo_gateway w"
proof -
  have observed: "rc_deleted_at rcd = ac_deleted_at r \<and> rc_revoked_before rcd = ac_revoked_before r \<and> wo_gateway w' = wo_gateway w"
    if run: "on_tables (committed (observe_token_account (su_uuid su) u kind i at (su_now su))) w = (Ok rcd, w')"
  proof -
    obtain row db1 db2 where up: "upsert_account u (known_account u kind i at (su_now su))
          (\<lambda>r. (forward_public_id i at (or_kind kind r))\<lparr>ac_updated_at := su_now su\<rparr>) (wo_db w) = Ok (row, db1)"
      and row: "account_of_row (su_uuid su) row = Ok rcd" and w': "w' = w\<lparr>wo_db := db2\<rparr>"
      using run by (auto simp: world_Ok observe_token_account_def result_simps split: result.splits prod.splits)
    have "row = (forward_public_id i at (or_kind kind r))\<lparr>ac_updated_at := su_now su\<rparr>"
      using upsert_account_Ok(1) [OF up] assms(3) by simp
    then have "ac_deleted_at row = ac_deleted_at r" "ac_revoked_before row = ac_revoked_before r"
      by (auto simp: forward_public_id_def or_kind_def split: option.split)
    with account_of_row_Ok [OF row] w' show ?thesis by simp
  qed
  have "rc_deleted_at rcd = ac_deleted_at r \<and> rc_revoked_before rcd = ac_revoked_before r \<and> wo_gateway w' = wo_gateway w"
  proof -
    obtain cached where cached: "account (su_uuid su) u (wo_db w) = Ok cached"
      and rest: "cached = Some rcd \<and> w' = w \<or>
        on_tables (committed (observe_token_account (su_uuid su) u kind i at (su_now su))) w = (Ok rcd, w')"
      using assms(1) by (force simp: token_record_def app_bind_Ok asked_tables_Ok split: option.splits if_splits)
    from rest show ?thesis
    proof
      assume "cached = Some rcd \<and> w' = w"
      then show ?thesis using cached account_Ok_the [of "su_uuid su" u "wo_db w" rcd] account_of_row_Ok assms(2,3) by fastforce
    qed (rule observed)
  qed
  then show "rc_deleted_at rcd = ac_deleted_at r" "rc_revoked_before rcd = ac_revoked_before r" "wo_gateway w' = wo_gateway w"
    by simp_all
qed

definition token_in_force :: "('u, 'k, 'z, 'j, 'e) surroundings \<Rightarrow> 'j gateway \<Rightarrow> ustring \<Rightarrow> instant \<Rightarrow> instant \<Rightarrow> bool" where
  "token_in_force su g token at t \<longleftrightarrow>
     t \<le> at \<or>
     sign_out_second t \<le> at \<and>
       (map_of (gw_after_sign_out g) (token_digest (dp_crates (su_deps su)) token) = Some t \<or>
        (\<exists>answer. an_introspect (su_answers su) token = Ok answer \<and> it_active answer))"

lemma not_ended:
  assumes "ended_by_sign_out su token at t w = (Ok False, w')"
  shows "token_in_force su (wo_gateway w) token at t"
proof (cases "t \<le> at")
  case False
  then have second: "sign_out_second t \<le> at"
    and "\<exists>g. issued_after_sign_out (dp_crates (su_deps su)) (su_settings su) (su_answers su) (su_now su) token t (wo_gateway w) = (Ok True, g)"
    using assms by (auto simp: ended_by_sign_out_def world_Ok split: if_splits)
  then obtain g where asked: "issued_after_sign_out (dp_crates (su_deps su)) (su_settings su) (su_answers su) (su_now su) token t
      (wo_gateway w) = (Ok True, g)" by blast
  then have "map_of (gw_after_sign_out (wo_gateway w)) (token_digest (dp_crates (su_deps su)) token) = Some t \<or>
      (\<exists>g. introspect_active (dp_crates (su_deps su)) (su_settings su) (su_answers su) (su_now su) token (wo_gateway w) = (Ok True, g))"
    by (auto simp: issued_after_sign_out_def Let_def split: if_splits prod.splits result.splits)
  with second active_is_asked(1) show ?thesis unfolding token_in_force_def by blast
qed (simp add: token_in_force_def)

lemma authenticatedE:
  assumes "authenticate su token w = (Ok a, w')"
  obtains c g rcd w1 i where "verify_token (su_settings su) (su_answers su) (su_now su) token (wo_gateway w) = (Ok c, g)"
    and "account_uuid_new (su_uuid su) (tk_sub c) = Ok (actor_uuid a)"
    and "map_option kind_of (tk_kind c) = Some (actor_kind_of a)"
    and "account_uuid_str (actor_uuid a) \<notin> set (db_retired_uuids (wo_db w))"
    and "token_record su (actor_uuid a) (actor_kind_of a) i (issued_at (su_settings su) c) (w\<lparr>wo_gateway := g\<rparr>) = (Ok rcd, w1)"
    and "rc_deleted_at rcd = None"
    and "\<forall>t. rc_revoked_before rcd = Some t \<longrightarrow> token_in_force su (wo_gateway w1) token (issued_at (su_settings su) c) t"
proof -
  obtain c g where verified: "verify_token (su_settings su) (su_answers su) (su_now su) token (wo_gateway w) = (Ok c, g)"
    using assms by (auto simp: authenticate_def app_bind_Ok on_gateway_Ok)
  define i where "i = (case tk_id c of None \<Rightarrow> None | Some i \<Rightarrow> ok_of (public_id_new i))"
  obtain u kind rcd w1 w2 where u: "account_uuid_new (su_uuid su) (tk_sub c) = Ok u"
    and retired: "account_uuid_str u \<notin> set (db_retired_uuids (wo_db w))"
    and kind: "map_option kind_of (tk_kind c) = Some kind"
    and recd: "token_record su u kind i (issued_at (su_settings su) c) (w\<lparr>wo_gateway := g\<rparr>) = (Ok rcd, w1)"
    and del: "rc_deleted_at rcd = None"
    and ended: "(case rc_revoked_before rcd of None \<Rightarrow> give (Ok False)
         | Some t \<Rightarrow> ended_by_sign_out su token (issued_at (su_settings su) c) t) w1 = (Ok False, w2)"
    and a: "actor_uuid a = u" "actor_kind_of a = kind"
    using assms verified
    by (auto simp: authenticate_def app_bind_Ok on_gateway_Ok asked_tables_Ok Let_def result_simps simp flip: i_def split: if_splits)
  have "\<forall>t. rc_revoked_before rcd = Some t \<longrightarrow> token_in_force su (wo_gateway w1) token (issued_at (su_settings su) c) t"
    using ended not_ended by fastforce
  with verified u retired kind recd del a show thesis by (intro that) simp_all
qed

text \<open>C13: Nobody is let in on a token that no longer counts. A caller who is authenticated presented a
  token that the official client verified for this application, for this issuer and now, under the
  cached keys or keys just fetched; the account is the subject of the token and not one that was
  retired; and if the tables know the account, it is not deleted, and a sign-out they know of ended
  before the token was issued, or in the very second it was issued and Silicon Accounts said that
  the token is still active.\<close>

theorem tokens_that_ended_do_not_authenticate:
  assumes "authenticate su token w = (Ok a, w')" and "accounts_ok (wo_db w)"
  shows "\<exists>keys c. (keys = gw_keys (wo_gateway w) \<or> an_jwks (su_answers su) = Ok keys) \<and>
    se_verify (su_settings su) keys (se_app_id (su_settings su)) (se_issuer (su_settings su)) (su_now su) token = Ok c \<and>
    account_uuid_new (su_uuid su) (tk_sub c) = Ok (actor_uuid a) \<and>
    account_uuid_str (actor_uuid a) \<notin> set (db_retired_uuids (wo_db w)) \<and>
    (\<forall>r. the_account (actor_uuid a) (wo_db w) = Some r \<longrightarrow> ac_deleted_at r = None \<and>
       (\<forall>t. ac_revoked_before r = Some t \<longrightarrow>
          token_in_force su (wo_gateway w) token (issued_at (su_settings su) c) t))"
proof -
  obtain c g rcd w1 i where verified: "verify_token (su_settings su) (su_answers su) (su_now su) token (wo_gateway w) = (Ok c, g)"
    and u: "account_uuid_new (su_uuid su) (tk_sub c) = Ok (actor_uuid a)"
    and retired: "account_uuid_str (actor_uuid a) \<notin> set (db_retired_uuids (wo_db w))"
    and recd: "token_record su (actor_uuid a) (actor_kind_of a) i (issued_at (su_settings su) c) (w\<lparr>wo_gateway := g\<rparr>) = (Ok rcd, w1)"
    and del: "rc_deleted_at rcd = None"
    and live: "\<forall>t. rc_revoked_before rcd = Some t \<longrightarrow> token_in_force su (wo_gateway w1) token (issued_at (su_settings su) c) t"
    using assms(1) by (rule authenticatedE)
  obtain keys where keys: "keys = gw_keys (wo_gateway w) \<or> an_jwks (su_answers su) = Ok keys"
    "se_verify (su_settings su) keys (se_app_id (su_settings su)) (se_issuer (su_settings su)) (su_now su) token = Ok c"
    using verify_token_verified(1) [OF verified] by blast
  have "ac_deleted_at r = None \<and> (\<forall>t. ac_revoked_before r = Some t \<longrightarrow>
      token_in_force su (wo_gateway w) token (issued_at (su_settings su) c) t)"
    if "the_account (actor_uuid a) (wo_db w) = Some r" for r
  proof -
    note row = token_record_row [OF recd, simplified, OF assms(2) that]
    have "token_in_force su (wo_gateway w1) = token_in_force su (wo_gateway w)"
      using row(3) verify_token_verified(2) [OF verified] by (simp add: token_in_force_def [abs_def])
    with del live row(1,2) show ?thesis by simp
  qed
  with keys u retired show ?thesis by blast
qed

section \<open>Access\<close>

text \<open>C12: Access rests on a relation. Whoever may open a Silicon's hooks is that Silicon, or a Carbon whom
  the tables name as its custodian in a row confirmed within the last five minutes (an account that
  was deleted keeps its last custodian), or the grantee of a grant of exactly the level that is
  given; whatever the request calls the Silicon.\<close>

theorem access_rests_on_a_relation:
  assumes "authorize_silicon su a segment w = (Ok c, w')" and "lookups_answer_for (su_answers su)"
  shows "ac_actor c = a \<and>
    (case ac_access c of
       Own \<Rightarrow> actor_uuid a = sr_uuid (ac_silicon c)
     | Custodian \<Rightarrow> actor_kind_of a = Carbon \<and>
         confirmed_custodian (wo_db w') (su_now su) (sr_uuid (ac_silicon c)) (actor_uuid a)
     | Grant level \<Rightarrow> actor_uuid a \<noteq> sr_uuid (ac_silicon c) \<and>
         (\<exists>g \<in> set (db_grants (wo_db w')). grant_row_of (sr_uuid (ac_silicon c)) (actor_uuid a) g \<and>
            gr_level g = lit (grant_level_as_str level)))"
proof -
  obtain s w1 where s: "named_silicon su a segment w = (Ok s, w1)"
    using assms(1) by (auto simp: authorize_silicon_def app_bind_Ok)
  have holds: "holds_row (su_uuid su) (wo_db w1) s" by (rule named_silicon_holds [OF s])
  show ?thesis
  proof (cases "actor_uuid a = rc_uuid s")
    case True
    then show ?thesis using assms(1) s by (auto simp: authorize_silicon_def app_bind_Ok Let_def)
  next
    case False
    then obtain custodian w2 where cust: "(if actor_kind_of a = Carbon then current_custodian su s else give (Ok None)) w1 = (Ok custodian, w2)"
      and rest: "(if actor_kind_of a = Carbon \<and> custodian = Some (actor_uuid a)
          then give (Ok \<lparr>ac_actor = a, ac_silicon = \<lparr>sr_uuid = rc_uuid s, sr_id = rc_public_id s\<rparr>, ac_access = Custodian\<rparr>)
          else app_bind (on_tables (query (grant (su_uuid su) (rc_uuid s) (actor_uuid a)))) (\<lambda>found.
            case found of
              Some g \<Rightarrow> give (Ok \<lparr>ac_actor = a, ac_silicon = \<lparr>sr_uuid = rc_uuid s, sr_id = rc_public_id s\<rparr>,
                  ac_access = Grant (gt_level g)\<rparr>)
            | None \<Rightarrow> give (Err (Refused 403 ''no_access'')))) w2 = (Ok c, w')"
      using assms(1) s by (auto simp: authorize_silicon_def app_bind_Ok Let_def)
    show ?thesis
    proof (cases "actor_kind_of a = Carbon \<and> custodian = Some (actor_uuid a)")
      case True
      then have "confirmed_custodian (wo_db w2) (su_now su) (rc_uuid s) (actor_uuid a)"
        using cust by (intro current_custodian_confirmed [OF _ assms(2) fresh_confirmed [OF holds]]) simp_all
      with True rest show ?thesis by auto
    next
      case no: False
      then obtain g where g: "grant (su_uuid su) (rc_uuid s) (actor_uuid a) (wo_db w') = Ok (Some g)"
        and c: "c = \<lparr>ac_actor = a, ac_silicon = \<lparr>sr_uuid = rc_uuid s, sr_id = rc_public_id s\<rparr>, ac_access = Grant (gt_level g)\<rparr>"
        using rest by (auto simp: app_bind_Ok asked_tables_Ok split: option.splits)
      obtain r where "r \<in> set (db_grants (wo_db w'))" "grant_row_of (rc_uuid s) (actor_uuid a) r" "grant_of_row (su_uuid su) r = Ok g"
        using g by (auto simp: grant_def result_simps dest!: find_SomeD)
      moreover from this(3) have "gr_level r = lit (grant_level_as_str (gt_level g))"
        by (auto simp: grant_of_row_def result_simps dest: grant_level_parse_Some)
      ultimately show ?thesis using c False by auto
    qed
  qed
qed

section \<open>Sharing\<close>

lemma refuse_Ok: "(if P then give (Err e) else m) w = (Ok a, w') \<longleftrightarrow> \<not> P \<and> m w = (Ok a, w')"
  by simp

lemma put_grant_Ok:
  assumes "put_grant uc i silicon grantee level a rid clock db = (Ok g, db')"
  shows "gt_level g = level" and "gt_silicon_uuid g = silicon" and "gt_grantee_uuid g = grantee"
    and "\<exists>r \<in> set (db_grants db'). grant_row_of silicon grantee r \<and> gr_level r = lit (grant_level_as_str level)"
    and "db_accounts db' = db_accounts db" and "db_allowances db' = db_allowances db"
    and "db_audit db' = access_audit i AuditAccessGranted silicon a rid clock # db_audit db"
proof -
  let ?new = "\<lparr>gr_silicon_uuid = account_uuid_str silicon, gr_grantee_uuid = account_uuid_str grantee,
            gr_level = lit (grant_level_as_str level), gr_granted_by_uuid = account_uuid_str (actor_uuid a),
            gr_created_at = clock, gr_updated_at = clock\<rparr>"
  let ?change = "\<lambda>r. r\<lparr>gr_level := gr_level ?new, gr_granted_by_uuid := gr_granted_by_uuid ?new, gr_updated_at := clock\<rparr>"
  obtain r rows where choice: "(r, rows) = (case find (grant_row_of silicon grantee) (db_grants db) of
              None \<Rightarrow> (?new, ?new # db_grants db)
            | Some r \<Rightarrow> (?change r, rows_update (grant_row_of silicon grantee) ?change (db_grants db)))"
    by (cases "find (grant_row_of silicon grantee) (db_grants db)") auto
  have row: "grant_row_of silicon grantee r \<and> gr_level r = lit (grant_level_as_str level) \<and> r \<in> set rows"
    using choice by (auto simp: grant_row_of_def rows_update_def split: option.splits dest!: find_SomeD)
  have db': "db' = db\<lparr>db_grants := rows, db_audit := access_audit i AuditAccessGranted silicon a rid clock # db_audit db\<rparr>"
    and g: "grant_of_row uc r = Ok g"
    using assms choice
    by (auto simp: put_grant_def Let_def insert_access_audit_def split: if_splits option.splits)
  show "\<exists>r \<in> set (db_grants db'). grant_row_of silicon grantee r \<and> gr_level r = lit (grant_level_as_str level)"
    "db_accounts db' = db_accounts db" "db_allowances db' = db_allowances db"
    "db_audit db' = access_audit i AuditAccessGranted silicon a rid clock # db_audit db"
    using row by (auto simp: db')
  show "gt_level g = level" "gt_silicon_uuid g = silicon" "gt_grantee_uuid g = grantee"
    using g row by (auto simp: grant_of_row_def result_simps stored_uuid_Ok grant_row_of_def account_uuid.expand)
qed

lemma owner_of_Ok:
  assumes "owner_of su c w = (Ok x, w')"
  shows "w' = w" and "rc_uuid x = sr_uuid (ac_silicon c)" and "holds_row (su_uuid su) (wo_db w) x"
proof -
  have w: "w' = w" and x: "account (su_uuid su) (sr_uuid (ac_silicon c)) (wo_db w) = Ok (Some x)"
    using assms by (auto simp: owner_of_def app_bind_Ok asked_tables_Ok result_simps)
  show "w' = w" by (rule w)
  obtain r where r: "r \<in> set (db_accounts (wo_db w))" "account_of_row (su_uuid su) r = Ok x"
    "account_row_of (sr_uuid (ac_silicon c)) r"
    using account_Ok [OF x] by blast
  with account_of_row_Ok(1) [OF r(2)] show "rc_uuid x = sr_uuid (ac_silicon c)"
    by (auto simp: account_row_of_def account_uuid.expand)
  from r show "holds_row (su_uuid su) (wo_db w) x" by (auto simp: holds_row_def)
qed

text \<open>C11: A Silicon is only given access by its own leave. A grant is made by the owning Silicon or its
  custodian, to somebody else, with the level that was asked for, and is audited; and when the
  grantee is a Silicon, the two have the same custodian, confirmed within five minutes, or the
  grantee's allow-list names the owner or the owner's confirmed custodian.\<close>

theorem silicons_are_reached_by_their_leave:
  assumes "grant_access su i c v level rid w = (Ok (g, grantee), w')" and "lookups_answer_for (su_answers su)"
    and "s = sr_uuid (ac_silicon c)"
  shows "(ac_access c = Own \<or> ac_access c = Custodian) \<and> rc_uuid grantee \<noteq> s \<and>
    gt_level g = level \<and> gt_silicon_uuid g = s \<and> gt_grantee_uuid g = rc_uuid grantee \<and>
    (\<exists>r \<in> set (db_grants (wo_db w')). grant_row_of s (rc_uuid grantee) r \<and> gr_level r = lit (grant_level_as_str level)) \<and>
    hd (db_audit (wo_db w')) = access_audit i AuditAccessGranted s (ac_actor c) rid (su_now su) \<and>
    (rc_kind grantee = Silicon \<longrightarrow>
       (\<exists>u. confirmed_custodian (wo_db w') (su_now su) s u \<and> confirmed_custodian (wo_db w') (su_now su) (rc_uuid grantee) u) \<or>
       (\<exists>r \<in> set (db_allowances (wo_db w')). al_silicon_uuid r = account_uuid_str (rc_uuid grantee) \<and>
          (al_allowed_uuid r = account_uuid_str s \<or>
           (\<exists>u. al_allowed_uuid r = account_uuid_str u \<and> confirmed_custodian (wo_db w') (su_now su) s u))))"
proof -
  obtain owner w1 w2 custodian w3 w4 where may: "authorize c ManageAccess = Allowed"
    and owner: "owner_of su c w = (Ok owner, w1)" and grantee: "resolve_account su v w1 = (Ok grantee, w2)"
    and other: "rc_uuid grantee \<noteq> rc_uuid owner" and cust: "current_custodian su owner w2 = (Ok custodian, w3)"
    and reach: "(if rc_kind grantee = Silicon then reachable su owner custodian grantee else give (Ok ())) w3 = (Ok (), w4)"
    and put: "\<exists>db. put_grant (su_uuid su) i (rc_uuid owner) (rc_uuid grantee) level (ac_actor c) rid (su_now su) (wo_db w4) =
      (Ok g, db) \<and> w' = w4\<lparr>wo_db := db\<rparr>"
    using assms(1)
    by (auto simp: grant_access_def app_bind_Ok on_tables_Ok committed_Ok authorize_action_Ok refuse_Ok simp del: if_split)
  note own = owner_of_Ok [OF owner]
  have su: "rc_uuid owner = s" using own(2) assms(3) by simp
  obtain db where db: "put_grant (su_uuid su) i s (rc_uuid grantee) level (ac_actor c) rid (su_now su) (wo_db w4) = (Ok g, db)"
    "wo_db w' = db"
    using put su by auto
  note granted = put_grant_Ok [OF db(1)]
  have acc: "ac_access c = Own \<or> ac_access c = Custodian"
    using may by (simp add: authorize_owners_only owners_only_def)
  have kept: "confirmed_custodian (wo_db w') now x y = confirmed_custodian (wo_db w4) now x y" for now x y
    using granted(5) db(2) by (simp add: confirmed_custodian_def)
  have owned: "confirmed_custodian (wo_db w3) (su_now su) s u" if "custodian = Some u" for u
    using current_custodian_confirmed [OF cust [unfolded that] assms(2) confirmed_resolve [OF grantee fresh_confirmed]] own(1,3) other su
    by simp
  have "(\<exists>u. confirmed_custodian (wo_db w4) (su_now su) s u \<and> confirmed_custodian (wo_db w4) (su_now su) (rc_uuid grantee) u) \<or>
       (\<exists>r \<in> set (db_allowances (wo_db w4)). al_silicon_uuid r = account_uuid_str (rc_uuid grantee) \<and>
          (al_allowed_uuid r = account_uuid_str s \<or>
           (\<exists>u. al_allowed_uuid r = account_uuid_str u \<and> confirmed_custodian (wo_db w4) (su_now su) s u)))"
    if silicon: "rc_kind grantee = Silicon"
  proof -
    obtain theirs where theirs: "current_custodian su grantee w3 = (Ok theirs, w4)"
      and either: "custodian \<noteq> None \<and> custodian = theirs \<or>
        allows_any (rc_uuid grantee) (rc_uuid owner # (case custodian of None \<Rightarrow> [] | Some u \<Rightarrow> [u])) (wo_db w4)"
      using reach silicon by (auto simp: reachable_def app_bind_Ok asked_tables_Ok Let_def split: if_splits)
    have mine: "confirmed_custodian (wo_db w4) (su_now su) s u" if "custodian = Some u" for u
      using confirmed_current [OF theirs owned [OF that]] other su assms(2) by simp
    from either show ?thesis
    proof
      assume same: "custodian \<noteq> None \<and> custodian = theirs"
      then obtain u where u: "custodian = Some u" "theirs = Some u" by auto
      have "confirmed_custodian (wo_db w4) (su_now su) (rc_uuid grantee) u"
        using current_custodian_confirmed [OF theirs [unfolded u] assms(2) confirmed_current [OF cust fresh_confirmed
            [OF resolve_account_holds [OF grantee]]]] other assms(2) by simp
      with mine [OF u(1)] show ?thesis by blast
    next
      assume "allows_any (rc_uuid grantee) (rc_uuid owner # (case custodian of None \<Rightarrow> [] | Some u \<Rightarrow> [u])) (wo_db w4)"
      then obtain r where "r \<in> set (db_allowances (wo_db w4))" "al_silicon_uuid r = account_uuid_str (rc_uuid grantee)"
        "al_allowed_uuid r = account_uuid_str s \<or> (\<exists>u. custodian = Some u \<and> al_allowed_uuid r = account_uuid_str u)"
        by (auto simp: allows_any_def list_ex_iff su split: option.splits)
      with mine show ?thesis by blast
    qed
  qed
  with acc other su granted db(2) kept show ?thesis by auto
qed

section \<open>Sign-outs\<close>

lemma revoke_marks:
  assumes "revoke u at clock db = Ok db'"
  shows "\<exists>r t. the_account u db' = Some r \<and> ac_revoked_before r = Some t \<and> at \<le> t"
proof -
  obtain row db1 where up: "upsert_account u ((new_account u clock)\<lparr>ac_revoked_before := Some at\<rparr>)
         (\<lambda>r. r\<lparr>ac_revoked_before := later (ac_revoked_before r) at, ac_updated_at := clock\<rparr>) db = Ok (row, db1)"
    and db': "db' = delete_observers (\<lambda>s. ob_recipient_uuid s = account_uuid_str u) db1"
    using assms by (auto simp: revoke_def result_simps)
  have "the_account u db' = Some row"
  proof -
    have "the_account u db' = the_account u db1" by (rule the_account_same) (simp add: db')
    then show ?thesis using upsert_account_Ok(2) [OF up, of u] by simp
  qed
  moreover have "\<exists>t. ac_revoked_before row = Some t \<and> at \<le> t"
    using upsert_account_Ok(1) [OF up]
    by (cases "the_account u db") (auto simp: later_def greatest_def split: option.split)
  ultimately show ?thesis by blast
qed

definition ends_sessions :: "webhook_payload \<Rightarrow> account_uuid \<Rightarrow> bool" where
  "ends_sessions p u \<longleftrightarrow>
     (\<exists>reason. p = MembershipSignedOutPayload (account_uuid_str u) reason \<and> reason \<noteq> Some (lit ''app_revoked'')) \<or>
     p = MembershipAccessRemovedPayload (account_uuid_str u)"

lemma received_change:
  assumes "receive_accounts_webhook su ids timestamp signature body w = (Ok outcome, w')"
    and "verify_webhook (su_settings su) (su_now su) (unwrap_or timestamp []) (unwrap_or signature []) body = Ok event"
  obtains change where "event_change (su_uuid su) (we_payload event) = Ok change"
    and "apply_accounts_event ids \<lparr>ax_event_id = we_event_id event, ax_event_type = we_event_type event,
        ax_occurred_at = unwrap_or (we_occurred_at event) (su_now su), ax_change = change\<rparr> (su_now su) (wo_db w) =
      Ok (outcome, wo_db w')"
proof -
  obtain change where change: "event_change (su_uuid su) (we_payload event) = Ok change"
    and there: "on_tables (transact (apply_accounts_event ids \<lparr>ax_event_id = we_event_id event, ax_event_type = we_event_type event,
        ax_occurred_at = unwrap_or (we_occurred_at event) (su_now su), ax_change = change\<rparr> (su_now su))) w = (Ok outcome, w')"
    using assms(1) unfolding receive_accounts_webhook_def assms(2) app_bind_Ok by (force simp: give_Ok)
  show thesis by (rule that [OF change]) (use there in \<open>auto simp: on_tables_Ok transact_Ok\<close>)
qed

lemma ends_sessions_change:
  assumes "ends_sessions p u" and "event_change uc p = Ok change"
  shows "(\<exists>reason. change = SignedOut u reason \<and> reason \<noteq> Some (lit ''app_revoked'')) \<or> change = AccessRemoved u"
  using assms by (auto simp: ends_sessions_def event_uuid_of_def result_simps account_uuid_new_Ok)

lemma applied_revokes:
  assumes "apply_accounts_event ids e clock db = Ok (Applied, db')"
    and "(\<exists>reason. ax_change e = SignedOut u reason \<and> reason \<noteq> Some (lit ''app_revoked'')) \<or> ax_change e = AccessRemoved u"
    and "account_uuid_str u \<notin> set (db_retired_uuids db)"
  obtains db1 where "revoke u (ax_occurred_at e) clock db1 = Ok db'"
proof -
  have "\<not> retired_identity (ax_change e) db" using assms(2,3) by (auto simp: retired_identity_def)
  with assms(1) obtain db1 where "apply_change ids (ax_occurred_at e) clock (ax_change e) db1 = Ok db'"
    by (auto simp: apply_accounts_event_def Let_def result_simps split: option.splits if_splits)
  with assms(2) that show thesis by auto
qed

lemma sign_out_second_mono: "s \<le> t \<Longrightarrow> sign_out_second s \<le> sign_out_second t"
proof -
  have second: "sign_out_second x = seconds 1 * (x div seconds 1)" for x
    by (simp add: sign_out_second_def minus_mod_eq_mult_div)
  show "sign_out_second s \<le> sign_out_second t" if "s \<le> t"
    unfolding second using that by (intro mult_left_mono zdiv_mono1) (simp_all add: seconds_def)
qed

lemma sign_out_second_le: "sign_out_second t \<le> t"
  by (simp add: sign_out_second_def seconds_def)

text \<open>C2: A sign-out ends the sessions before it. Take a delivery with a verified signature that tells of
  a sign-out of an account that is not retired (for any reason but the revocation of the
  application, which the code leaves alone) or of the removal of its access, and that is applied: it
  is the first delivery with its identifier (a repetition is refused as a duplicate, C14). From then on
  no token of the account that was issued in an earlier second than the sign-out authenticates any
  more, after whatever run of transactions (tokens seen, lookups, other events, and anything
  done to hooks, logs, shares and the outbox), whatever the state of the handle and
  whatever Silicon Accounts answers about the token.\<close>

theorem a_sign_out_ends_earlier_sessions:
  assumes "receive_accounts_webhook su ids timestamp signature body w = (Ok Applied, w1)"
    and "verify_webhook (su_settings su) (su_now su) (unwrap_or timestamp []) (unwrap_or signature []) body = Ok event"
    and "ends_sessions (we_payload event) u" and "account_uuid_str u \<notin> set (db_retired_uuids (wo_db w))"
    and "accounts_ok (wo_db w)" and "store_run dp tg (wo_db w1) es (wo_db w2)"
    and "\<And>keys c. se_verify (su_settings su') keys (se_app_id (su_settings su')) (se_issuer (su_settings su')) (su_now su') token = Ok c \<Longrightarrow>
      tk_sub c = account_uuid_str u \<and>
      issued_at (su_settings su') c < sign_out_second (unwrap_or (we_occurred_at event) (su_now su))"
  shows "\<exists>e. fst (authenticate su' token w2) = Err e"
proof (cases "fst (authenticate su' token w2)")
  case (Ok a)
  let ?t = "unwrap_or (we_occurred_at event) (su_now su)"
  obtain w3 where auth: "authenticate su' token w2 = (Ok a, w3)"
    using Ok by (metis prod.collapse)
  obtain db where marked: "revoke u ?t (su_now su) db = Ok (wo_db w1)" and ok: "accounts_ok (wo_db w1)"
  proof (rule received_change [OF assms(1,2)])
    fix change
    assume change: "event_change (su_uuid su) (we_payload event) = Ok change"
      and applied: "apply_accounts_event ids \<lparr>ax_event_id = we_event_id event, ax_event_type = we_event_type event,
        ax_occurred_at = ?t, ax_change = change\<rparr> (su_now su) (wo_db w) = Ok (Applied, wo_db w1)"
    show thesis
      by (rule applied_revokes [OF applied _ assms(4)])
        (use ends_sessions_change [OF assms(3) change] that apply_event_evolves [OF applied, of u] assms(5)
         in \<open>simp_all add: evolves_def\<close>)
  qed
  from marked obtain r t where r: "the_account u (wo_db w1) = Some r" "ac_revoked_before r = Some t" "?t \<le> t"
    using revoke_marks by blast
  obtain r' t' where r': "the_account u (wo_db w2) = Some r'" "ac_revoked_before r' = Some t'" "t \<le> t'"
    and ok2: "accounts_ok (wo_db w2)"
    using run_evolves [OF assms(6), of u] r ok by (auto simp: evolves_def row_evolves_def)
  obtain c g rcd w4 i where verified: "verify_token (su_settings su') (su_answers su') (su_now su') token (wo_gateway w2) = (Ok c, g)"
    and sub: "account_uuid_new (su_uuid su') (tk_sub c) = Ok (actor_uuid a)"
    and recd: "token_record su' (actor_uuid a) (actor_kind_of a) i (issued_at (su_settings su') c) (w2\<lparr>wo_gateway := g\<rparr>) = (Ok rcd, w4)"
    and live: "\<forall>t. rc_revoked_before rcd = Some t \<longrightarrow> token_in_force su' (wo_gateway w4) token (issued_at (su_settings su') c) t"
    using auth by (rule authenticatedE)
  have c: "tk_sub c = account_uuid_str u" "issued_at (su_settings su') c < sign_out_second ?t"
    using verify_token_verified(1) [OF verified] assms(7) by blast+
  have a: "actor_uuid a = u" using sub c(1) by (auto simp: account_uuid_new_Ok)
  have "rc_revoked_before rcd = Some t'"
    using token_record_row(2) [OF recd, simplified, OF ok2] r' a by simp
  with live have "token_in_force su' (wo_gateway w4) token (issued_at (su_settings su') c) t'" by blast
  moreover have "sign_out_second ?t \<le> sign_out_second t'" by (rule sign_out_second_mono) (use r(3) r'(3) in simp)
  ultimately show ?thesis using c(2) sign_out_second_le [of t'] by (auto simp: token_in_force_def)
qed simp

section \<open>The handle to Silicon Accounts\<close>

text \<open>What the handle is asked, each with the answers of the service and the time.\<close>

datatype 'j gateway_op =
    VerifyToken "'j accounts_answers" instant ustring
  | AskActive "'j accounts_answers" instant ustring
  | AskIssuedAfter "'j accounts_answers" instant ustring instant
  | LookUp "'j accounts_answers" instant ustring
  | LookUpById "'j accounts_answers" instant ustring

fun op_instant :: "'j gateway_op \<Rightarrow> instant" where
  "op_instant (VerifyToken an t token) = t"
| "op_instant (AskActive an t token) = t"
| "op_instant (AskIssuedAfter an t token signed_out_at) = t"
| "op_instant (LookUp an t u) = t"
| "op_instant (LookUpById an t i) = t"

fun after_op :: "'u crates \<Rightarrow> ('j, 'e) accounts_settings \<Rightarrow> 'j gateway_op \<Rightarrow> 'j gateway \<Rightarrow> 'j gateway" where
  "after_op cr se (VerifyToken an t token) g = snd (verify_token se an t token g)"
| "after_op cr se (AskActive an t token) g = snd (introspect_active cr se an t token g)"
| "after_op cr se (AskIssuedAfter an t token signed_out_at) g = snd (issued_after_sign_out cr se an t token signed_out_at g)"
| "after_op cr se (LookUp an t u) g = snd (gateway_lookup an t u g)"
| "after_op cr se (LookUpById an t i) g = snd (gateway_lookup_by_id an t i g)"

text \<open>Every operation of a sequence finds fewer than ten thousand tokens remembered as inactive.\<close>

fun never_full :: "'u crates \<Rightarrow> ('j, 'e) accounts_settings \<Rightarrow> 'j gateway_op list \<Rightarrow> 'j gateway \<Rightarrow> bool" where
  "never_full cr se [] g \<longleftrightarrow> True"
| "never_full cr se (x # xs) g \<longleftrightarrow>
     length (gw_inactive g) < max_remembered_inactive_tokens \<and> never_full cr se xs (after_op cr se x g)"

lemma verify_token_memories:
  "gw_inactive (snd (verify_token se an now token g)) = gw_inactive g"
  "gw_after_sign_out (snd (verify_token se an now token g)) = gw_after_sign_out g"
proof -
  have fetched: "gw_inactive (snd (fetch_keys an now seen g)) = gw_inactive g \<and>
      gw_after_sign_out (snd (fetch_keys an now seen g)) = gw_after_sign_out g" for seen and g :: "'a gateway"
    by (auto simp: fetch_keys_def split: result.split option.split)
  then have "gw_inactive (snd (current_keys an now g)) = gw_inactive g \<and>
      gw_after_sign_out (snd (current_keys an now g)) = gw_after_sign_out g"
    by (simp add: current_keys_def)
  with fetched have "gw_inactive (snd (verify_token se an now token g)) = gw_inactive g \<and>
      gw_after_sign_out (snd (verify_token se an now token g)) = gw_after_sign_out g"
    by (auto simp: verify_token_def Let_def split: prod.splits result.splits) (metis snd_conv)+
  then show "gw_inactive (snd (verify_token se an now token g)) = gw_inactive g"
    "gw_after_sign_out (snd (verify_token se an now token g)) = gw_after_sign_out g" by simp_all
qed

lemma looked_up_memories:
  "gw_inactive (snd (looked_up answer now g)) = gw_inactive g"
  "gw_after_sign_out (snd (looked_up answer now g)) = gw_after_sign_out g"
  by (auto simp: looked_up_def spend_lookup_def Let_def)

text \<open>The token is remembered as inactive since \<open>now\<close>, and not as newer than the sign-out at \<open>s\<close>.\<close>

definition held_inactive :: "bytes \<Rightarrow> instant \<Rightarrow> instant option \<Rightarrow> 'j gateway \<Rightarrow> bool" where
  "held_inactive d now s g \<longleftrightarrow> map_of (gw_inactive g) d = Some now \<and> (s = None \<or> map_of (gw_after_sign_out g) d \<noteq> s)"

lemma held_refused:
  assumes "held_inactive (token_digest cr token) now s g" and "again - now < inactive_token_memory"
  shows "introspect_active cr se an again token g = (Ok False, g)"
    and "s = Some t \<Longrightarrow> issued_after_sign_out cr se an again token t g = (Ok False, g)"
  using assms by (auto simp: held_inactive_def introspect_active_def issued_after_sign_out_def Let_def)

lemma introspect_keeps_held:
  assumes "held_inactive d now s g" and "t - now < inactive_token_memory"
    and "length (gw_inactive g) < max_remembered_inactive_tokens"
    and "introspect_active cr se an t token g = (r, g')"
  shows "held_inactive d now s g'" and "r = Ok True \<Longrightarrow> token_digest cr token \<noteq> d"
  using assms
  by (auto simp: held_inactive_def introspect_active_def Let_def remember_inactive_def map_of_remember
      split: result.splits option.splits if_splits)

lemma op_keeps_held:
  assumes "held_inactive d now s g" and "op_instant x - now < inactive_token_memory"
    and "length (gw_inactive g) < max_remembered_inactive_tokens"
  shows "held_inactive d now s (after_op cr se x g)"
proof (cases x)
  case (AskActive an t token)
  with assms introspect_keeps_held(1) show ?thesis by (cases "introspect_active cr se an t token g") fastforce
next
  case (AskIssuedAfter an t token at)
  obtain r g' where asked: "introspect_active cr se an t token g = (r, g')" by fastforce
  note held = introspect_keeps_held [OF assms(1) _ assms(3) asked]
  from AskIssuedAfter assms(1,2) held asked show ?thesis
    by (auto simp: issued_after_sign_out_def Let_def held_inactive_def remember_newer_def map_of_remember split: result.splits)
qed (use assms(1) in \<open>simp_all add: held_inactive_def verify_token_memories looked_up_memories gateway_lookup_def gateway_lookup_by_id_def\<close>)

lemma ops_keep_held:
  "held_inactive d now s g \<Longrightarrow> \<forall>x \<in> set ops. op_instant x - now < inactive_token_memory \<Longrightarrow> never_full cr se ops g \<Longrightarrow>
     held_inactive d now s (fold (after_op cr se) ops g)"
  by (induction ops arbitrary: g) (simp_all add: op_keeps_held)

lemma op_ok: "gateway_ok g \<Longrightarrow> gateway_ok (after_op cr se x g)"
  by (cases x)
    (simp_all add: verify_token_ok introspect_ok after_sign_out_ok looked_up_ok gateway_lookup_def gateway_lookup_by_id_def)

lemma ops_ok: "gateway_ok g \<Longrightarrow> gateway_ok (fold (after_op cr se) ops g)"
  by (induction ops arbitrary: g) (simp_all add: op_ok)

text \<open>C35: A token that Silicon Accounts called inactive stays refused for half an hour. After whatever
  other questions in that time (tokens verified, asked about and compared with sign-outs, lookups),
  and unless one of them finds ten thousand tokens remembered as inactive (the memory may then be
  cleared), it is still called inactive without asking again, and it does not count as issued
  after a sign-out, unless the handle already remembers it as newer than just that sign-out. An
  active answer is not remembered: the next question reaches the service. Whatever is asked, at
  most ten thousand tokens of each kind are remembered.\<close>

theorem inactive_tokens_stay_refused:
  assumes "introspect_active cr se an now token g = (Ok active, g1)"
    and "\<not> (\<exists>t. map_of (gw_inactive g) (token_digest cr token) = Some t \<and> now - t < inactive_token_memory)"
    and "gateway_ok g" and "again - now < inactive_token_memory"
    and "\<forall>x \<in> set ops. op_instant x - now < inactive_token_memory"
    and "g2 = fold (after_op cr se) ops g1"
  shows "gateway_ok g2 \<and>
    (\<not> active \<and> never_full cr se ops g1 \<longrightarrow> introspect_active cr se an' again token g2 = (Ok False, g2) \<and>
       (\<forall>s. map_of (gw_after_sign_out g1) (token_digest cr token) \<noteq> Some s \<longrightarrow>
          issued_after_sign_out cr se an' again token s g2 = (Ok False, g2))) \<and>
    (active \<longrightarrow> g1 = g \<and> (\<forall>e. an_introspect an' token = Err e \<longrightarrow>
       (again \<ge> now \<longrightarrow> introspect_active cr se an' again token g1 = (Err (accounts_error_of e), g1))))"
proof -
  have "gateway_ok g1" using introspect_ok [OF assms(3), of cr se an now token] assms(1) by simp
  then have ok: "gateway_ok g2" unfolding assms(6) by (rule ops_ok)
  have asked: "g1 = (if active then g else g\<lparr>gw_inactive := remember_inactive now (token_digest cr token) (gw_inactive g)\<rparr>)"
    using assms(1,2) by (auto simp: introspect_active_def Let_def split: result.splits option.splits if_splits)
  show ?thesis
  proof (cases active)
    case True
    have "\<not> (\<exists>t. map_of (gw_inactive g) (token_digest cr token) = Some t \<and> again - t < inactive_token_memory)"
      if "again \<ge> now" using that assms(2) by force
    with True asked ok show ?thesis
      by (auto simp: introspect_active_def Let_def split: option.splits)
  next
    case False
    have remembered: "map_of (gw_inactive g1) (token_digest cr token) = Some now"
      using False asked assms(3) by (auto simp: gateway_ok_def intro!: remember_inactive_ok(3))
    have held: "held_inactive (token_digest cr token) now s g2" if "never_full cr se ops g1"
      "s = None \<or> map_of (gw_after_sign_out g1) (token_digest cr token) \<noteq> s" for s
      unfolding assms(6) by (rule ops_keep_held [OF _ assms(5) that(1)]) (use remembered that(2) in \<open>simp add: held_inactive_def\<close>)
    have "issued_after_sign_out cr se an' again token s g2 = (Ok False, g2)"
      if "never_full cr se ops g1" "map_of (gw_after_sign_out g1) (token_digest cr token) \<noteq> Some s" for s
      by (rule held_refused(2) [OF held [of "Some s"] assms(4) refl]) (use that in simp_all)
    moreover have "introspect_active cr se an' again token g2 = (Ok False, g2)" if "never_full cr se ops g1"
      by (rule held_refused(1) [OF held [of None] assms(4)]) (use that in simp_all)
    ultimately show ?thesis using False ok by simp
  qed
qed

text \<open>How many of a sequence of lookups, each at its instant, reach the service.\<close>

fun lookups_spent :: "instant list \<Rightarrow> 'j gateway \<Rightarrow> nat \<times> 'j gateway" where
  "lookups_spent [] g = (0, g)"
| "lookups_spent (t # ts) g =
     (case spend_lookup t g of
        (Ok _, g) \<Rightarrow> (case lookups_spent ts g of (n, g) \<Rightarrow> (Suc n, g))
      | (Err _, g) \<Rightarrow> lookups_spent ts g)"

text \<open>C36: Within one minute of the first lookup of a window exactly as many lookups reach Silicon Accounts
  as the budget of three hundred has left, however many are tried; the others fail at once as
  unavailable.\<close>

theorem lookups_stay_within_their_budget:
  assumes "\<forall>t \<in> set ts. t - gw_window g < seconds 60" and "gw_spent g \<le> lookups_per_minute"
  shows "fst (lookups_spent ts g) = min (length ts) (lookups_per_minute - gw_spent g) \<and>
    gw_spent (snd (lookups_spent ts g)) = gw_spent g + fst (lookups_spent ts g) \<and>
    gw_spent (snd (lookups_spent ts g)) \<le> lookups_per_minute"
  using assms
proof (induction ts arbitrary: g)
  case (Cons t ts)
  have same: "\<not> seconds 60 \<le> t - gw_window g" using Cons.prems(1) by auto
  show ?case
  proof (cases "lookups_per_minute \<le> gw_spent g")
    case True
    with same Cons.IH [of g] Cons.prems show ?thesis by (simp add: spend_lookup_def Let_def)
  next
    case False
    obtain n g' where rest: "lookups_spent ts (g\<lparr>gw_spent := Suc (gw_spent g)\<rparr>) = (n, g')" by fastforce
    have "lookups_spent (t # ts) g = (Suc n, g')"
      using False same rest by (simp add: spend_lookup_def Let_def)
    moreover have "n = min (length ts) (lookups_per_minute - Suc (gw_spent g)) \<and>
        gw_spent g' = Suc (gw_spent g) + n \<and> gw_spent g' \<le> lookups_per_minute"
      using Cons.IH [of "g\<lparr>gw_spent := Suc (gw_spent g)\<rparr>"] Cons.prems False rest by simp
    moreover have "Suc (min (length ts) (lookups_per_minute - Suc (gw_spent g))) =
        min (Suc (length ts)) (lookups_per_minute - gw_spent g)"
      using False by (cases "lookups_per_minute - gw_spent g") auto
    ultimately show ?thesis by simp
  qed
qed simp

section \<open>Witnesses\<close>

text \<open>Ann looks after two Silicons; her access is removed at 30 s.\<close>

definition demo_claims :: claims where
  "demo_claims =
     \<lparr>tk_sub = lit ''abc'', tk_kind = Some CarbonAccount, tk_id = None, tk_iat = Some 10, tk_exp = 1810,
      tk_scopes = [], tk_fid = None\<rparr>"

definition demo_unavailable :: client_error where
  "demo_unavailable = \<lparr>ce_status = None, ce_code = ''unavailable'', ce_message = [], ce_token = None\<rparr>"

definition demo_signed_out :: webhook_event where
  "demo_signed_out =
     \<lparr>we_event_id = lit ''e9'', we_event_type = lit ''membership.access_removed'', we_occurred_at = Some (seconds 30),
      we_payload = MembershipAccessRemovedPayload (lit ''abc'')\<rparr>"

definition demo_su :: "instant \<Rightarrow> (ustring \<times> pairs, bytes, unit, unit, webhook_event) surroundings" where
  "demo_su now =
     \<lparr>su_deps = demo_deps,
      su_settings = \<lparr>se_app_id = lit ''hook'', se_issuer = lit ''https://accounts'', se_webhook_secrets = [lit ''k''],
        se_verify = (\<lambda>_ _ _ _ _. Ok demo_claims), se_parse_webhook = (\<lambda>_ _ _ _ _. Ok demo_signed_out),
        se_from_unix = (\<lambda>s. Some (seconds s))\<rparr>,
      su_answers = \<lparr>an_jwks = Ok (), an_introspect = (\<lambda>_. Ok \<lparr>it_active = False, it_client_id = None\<rparr>),
        an_lookup = (\<lambda>_. Err demo_unavailable), an_lookup_by_id = (\<lambda>_. Err demo_unavailable)\<rparr>,
      su_now = now\<rparr>"

definition demo_kept_silicon :: "string \<Rightarrow> string \<Rightarrow> account_row" where
  "demo_kept_silicon u i =
     (new_account (AccountUuid (lit u)) 0)\<lparr>ac_kind := Some (lit ''silicon''), ac_public_id := Some (lit i),
        ac_public_id_at := Some 1, ac_custodian_uuid := Some (lit ''abc''), ac_custodian_checked_at := Some (seconds 19)\<rparr>"

definition demo_world :: "unit world" where
  "demo_world =
     \<lparr>wo_db = empty_db\<lparr>db_accounts :=
        [(new_account demo_account 0)\<lparr>ac_kind := Some (lit ''carbon''), ac_public_id := Some (lit ''c:ann''),
           ac_public_id_at := Some 1, ac_revoked_before := Some (seconds 5)\<rparr>,
         demo_kept_silicon ''8HV'' ''si:bot'', demo_kept_silicon ''9HV'' ''si:cat'']\<rparr>,
      wo_gateway = gateway_new () 0\<rparr>"

definition demo_ann :: actor where
  "demo_ann = \<lparr>actor_uuid = demo_account, actor_kind_of = Carbon, actor_public_id = Some (PublicId (lit ''c:ann'')),
     actor_scope = [], actor_token_family = None\<rparr>"

definition demo_ann_context :: authorization_context where
  "demo_ann_context = \<lparr>ac_actor = demo_ann, ac_silicon = \<lparr>sr_uuid = demo_silicon, sr_id = Some (PublicId (lit ''si:bot''))\<rparr>,
     ac_access = Custodian\<rparr>"


lemma demo_su_simps: "su_uuid (demo_su now) = demo_uuid_crate" "su_now (demo_su now) = now" "su_deps (demo_su now) = demo_deps"
  "se_verify (su_settings (demo_su now)) = (\<lambda>_ _ _ _ _. Ok demo_claims)"
  "se_from_unix (su_settings (demo_su now)) = (\<lambda>s. Some (seconds s))"
  "se_webhook_secrets (su_settings (demo_su now)) = [lit ''k'']"
  "se_parse_webhook (su_settings (demo_su now)) = (\<lambda>_ _ _ _ _. Ok demo_signed_out)"
  "an_jwks (su_answers (demo_su now)) = Ok ()"
  "an_introspect (su_answers (demo_su now)) = (\<lambda>_. Ok \<lparr>it_active = False, it_client_id = None\<rparr>)"
  by (simp_all add: demo_su_def su_uuid_def demo_deps_def)

lemma demo_ann_uuid: "account_uuid_new demo_uuid_crate (lit ''abc'') = Ok demo_account"  by code_simp
lemma demo_bot_uuid: "account_uuid_new demo_uuid_crate (lit ''8HV'') = Ok demo_silicon" by code_simp
lemma demo_ann_cached: "account demo_uuid_crate demo_account (wo_db demo_world) = Ok (Some
  \<lparr>rc_uuid = demo_account, rc_kind = Carbon, rc_public_id = Some (PublicId (lit ''c:ann'')), rc_public_id_at = Some 1,
    rc_display_name = None, rc_pfp_url = None, rc_custodian_uuid = None, rc_custodian_checked_at = None,
    rc_revoked_before = Some (seconds 5), rc_deleted_at = None\<rparr>)" by code_simp
lemma demo_delivery_verified: "verify_webhook (su_settings (demo_su now)) t s a b = Ok demo_signed_out"
  by (simp add: verify_webhook_def demo_su_simps)
lemma demo_ends_sessions: "ends_sessions (we_payload demo_signed_out) demo_account"
  by (simp add: ends_sessions_def demo_signed_out_def demo_account_def)
lemma demo_world_ok: "accounts_ok (wo_db demo_world)"
  by code_simp
lemma demo_not_retired: "account_uuid_str demo_account \<notin> set (db_retired_uuids (wo_db demo_world))"
  by (simp add: demo_world_def empty_db_def)

lemma demo_bot_cached: "account demo_uuid_crate demo_silicon (wo_db demo_world) = Ok (Some
  \<lparr>rc_uuid = demo_silicon, rc_kind = Silicon, rc_public_id = Some (PublicId (lit ''si:bot'')), rc_public_id_at = Some 1,
    rc_display_name = None, rc_pfp_url = None, rc_custodian_uuid = Some demo_account, rc_custodian_checked_at = Some (seconds 19),
    rc_revoked_before = None, rc_deleted_at = None\<rparr>)" by code_simp
lemma demo_cat_cached: "account demo_uuid_crate (AccountUuid (lit ''9HV'')) (wo_db demo_world) = Ok (Some
  \<lparr>rc_uuid = AccountUuid (lit ''9HV''), rc_kind = Silicon, rc_public_id = Some (PublicId (lit ''si:cat'')), rc_public_id_at = Some 1,
    rc_display_name = None, rc_pfp_url = None, rc_custodian_uuid = Some demo_account, rc_custodian_checked_at = Some (seconds 19),
    rc_revoked_before = None, rc_deleted_at = None\<rparr>)" by code_simp

lemma demo_not_public_ids: "public_id_new (lit ''8HV'') = Err (InvalidFormat ''id'' ''must start with c: (a Carbon) or si: (a Silicon)'')"
  "public_id_new (lit ''9HV'') = Err (InvalidFormat ''id'' ''must start with c: (a Carbon) or si: (a Silicon)'')"
  by code_simp+
lemma demo_trimmed: "trim (lit ''8HV'') = lit ''8HV''" "trim (lit ''9HV'') = lit ''9HV''"
  by code_simp+
lemma demo_cat_uuid: "account_uuid_new demo_uuid_crate (lit ''9HV'') = Ok (AccountUuid (lit ''9HV''))" by code_simp
lemma demo_put_grant: "fst (put_grant demo_uuid_crate 1 demo_silicon (AccountUuid (lit ''9HV'')) View demo_ann None (seconds 20) (wo_db demo_world)) =
  Ok \<lparr>gt_silicon_uuid = demo_silicon, gt_grantee_uuid = AccountUuid (lit ''9HV''), gt_level = View, gt_granted_by_uuid = demo_account, gt_created_at = seconds 20, gt_updated_at = seconds 20\<rparr>" by code_simp

lemma demo_world_gateway: "wo_gateway demo_world = gateway_new () 0" by (simp add: demo_world_def)
lemma demo_none_retired: "db_retired_uuids (wo_db demo_world) = []" by (simp add: demo_world_def empty_db_def)
definition demo_ended :: db where
  "demo_ended = (wo_db demo_world)\<lparr>db_accounts := (hd (db_accounts (wo_db demo_world)))
      \<lparr>ac_revoked_before := Some (seconds 30), ac_updated_at := seconds 31\<rparr> # tl (db_accounts (wo_db demo_world)),
    db_accounts_events := [\<lparr>ae_event_id = lit ''e9'', ae_event_type = lit ''membership.access_removed'',
      ae_account_uuid = Some (lit ''abc''), ae_occurred_at = Some (seconds 30), ae_received_at = seconds 31\<rparr>]\<rparr>"

lemma demo_event_applied:
  "apply_accounts_event id
     \<lparr>ax_event_id = lit ''e9'', ax_event_type = lit ''membership.access_removed'', ax_occurred_at = seconds 30,
      ax_change = AccessRemoved demo_account\<rparr> (seconds 31) (wo_db demo_world) = Ok (Applied, demo_ended)"
  "accounts_ok demo_ended"
  by code_simp+

lemma demo_distinct: "demo_account \<noteq> demo_silicon" "demo_account \<noteq> AccountUuid (lit ''9HV'')" "AccountUuid (lit ''9HV'') \<noteq> demo_silicon" "\<not> custodian_freshness < seconds 20 - seconds 19" "authorize demo_ann_context ManageAccess = Allowed"
  by (simp_all add: demo_account_def demo_silicon_def lit_def custodian_freshness_def seconds_def authorize_owners_only owners_only_def demo_ann_context_def)
lemma demo_context_simps: "ac_silicon demo_ann_context = \<lparr>sr_uuid = demo_silicon, sr_id = Some (PublicId (lit ''si:bot''))\<rparr>" "ac_actor demo_ann_context = demo_ann"
  by (simp_all add: demo_ann_context_def)
lemma demo_authenticated: "fst (authenticate (demo_su (seconds 20)) (lit ''tok'') demo_world) = Ok demo_ann"
  by (simp add: authenticate_def app_bind_def on_gateway_def verify_token_def demo_su_simps current_keys_def fetch_keys_def on_tables_def query_def demo_ann_uuid demo_claims_def issued_at_def demo_su_simps token_record_def app_bind_def demo_ann_cached
   Let_def demo_world_gateway gateway_new_def demo_none_retired ended_by_sign_out_def seconds_def demo_ann_def sign_out_second_def)
lemma demo_authorized: "fst (authorize_silicon (demo_su (seconds 20)) demo_ann (lit ''8HV'') demo_world) = Ok demo_ann_context"
  by (simp add: authorize_silicon_def app_bind_def named_silicon_def demo_ann_def resolve_silicon_def resolve_account_def demo_not_public_ids demo_trimmed demo_bot_uuid demo_su_simps on_tables_def query_def demo_bot_cached
   recover_err_def current_custodian_def older_than_def Let_def demo_distinct demo_ann_context_def)
lemma demo_granted: "is_ok (fst (grant_access (demo_su (seconds 20)) 1 demo_ann_context (lit ''9HV'') View None demo_world))"
proof -
  obtain g db where put: "put_grant demo_uuid_crate 1 demo_silicon (AccountUuid (lit ''9HV'')) View demo_ann None (seconds 20) (wo_db demo_world) = (Ok g, db)"
    using demo_put_grant by (metis prod.collapse)
  show ?thesis
  by (simp add: grant_access_def app_bind_def owner_of_def resolve_account_def demo_not_public_ids demo_trimmed demo_cat_uuid demo_su_simps on_tables_def query_def demo_bot_cached demo_cat_cached demo_distinct demo_context_simps
   recover_err_def current_custodian_def older_than_def authorize_action_def reachable_def Let_def put committed_def split: prod.split)
qed
lemma demo_received: "receive_accounts_webhook (demo_su (seconds 31)) id None None [] demo_world = (Ok Applied, demo_world\<lparr>wo_db := demo_ended\<rparr>)"
  by (simp add: receive_accounts_webhook_def demo_delivery_verified app_bind_def demo_su_simps demo_signed_out_def event_uuid_of_def demo_ann_uuid on_tables_def transact_def demo_event_applied unwrap_or_def)

theorem tokens_that_ended_do_not_authenticate_witness:
  "\<exists>c. se_verify (su_settings (demo_su (seconds 20))) () (lit ''hook'') (lit ''https://accounts'') (seconds 20) (lit ''tok'') = Ok c \<and>
     account_uuid_new demo_uuid_crate (tk_sub c) = Ok demo_account"
proof -
  obtain w' where "authenticate (demo_su (seconds 20)) (lit ''tok'') demo_world = (Ok demo_ann, w')"
    using demo_authenticated by (metis prod.collapse)
  from tokens_that_ended_do_not_authenticate [OF this demo_world_ok] show ?thesis
    by (simp add: demo_su_simps demo_ann_def)
qed

lemma demo_lookups: "lookups_answer_for (su_answers (demo_su now))"
  by (simp add: lookups_answer_for_def demo_su_def)

theorem access_rests_on_a_relation_witness:
  "\<exists>w'. authorize_silicon (demo_su (seconds 20)) demo_ann (lit ''8HV'') demo_world = (Ok demo_ann_context, w') \<and>
     confirmed_custodian (wo_db w') (seconds 20) demo_silicon demo_account"
proof -
  obtain w' where run: "authorize_silicon (demo_su (seconds 20)) demo_ann (lit ''8HV'') demo_world = (Ok demo_ann_context, w')"
    using demo_authorized by (metis prod.collapse)
  from access_rests_on_a_relation [OF run demo_lookups] run show ?thesis
    by (simp add: demo_ann_context_def demo_su_simps demo_ann_def)
qed

theorem silicons_are_reached_by_their_leave_witness:
  "\<exists>g r w'. grant_access (demo_su (seconds 20)) 1 demo_ann_context (lit ''9HV'') View None demo_world = (Ok (g, r), w') \<and>
     gt_silicon_uuid g = demo_silicon \<and> gt_level g = View \<and> rc_uuid r \<noteq> demo_silicon"
proof -
  obtain g r w' where run: "grant_access (demo_su (seconds 20)) 1 demo_ann_context (lit ''9HV'') View None demo_world = (Ok (g, r), w')"
    using demo_granted by (cases "grant_access (demo_su (seconds 20)) 1 demo_ann_context (lit ''9HV'') View None demo_world";
      cases "fst (grant_access (demo_su (seconds 20)) 1 demo_ann_context (lit ''9HV'') View None demo_world)") auto
  from silicons_are_reached_by_their_leave [OF run demo_lookups refl] run show ?thesis
    by (simp add: demo_ann_context_def)
qed

text \<open>After Ann's access was removed a lookup sees her, and another token of hers is seen.\<close>

theorem a_sign_out_ends_earlier_sessions_witness:
  "\<exists>res db2 e. observe_token_account demo_uuid_crate demo_account Carbon None (seconds 32) (seconds 33) demo_ended = (Ok res, db2) \<and>
     fst (authenticate (demo_su (seconds 40)) (lit ''tok'') (demo_world\<lparr>wo_db := db2\<rparr>)) = Err e"
proof -
  have "is_ok (fst (observe_token_account demo_uuid_crate demo_account Carbon None (seconds 32) (seconds 33) demo_ended))"
    by code_simp
  then obtain res db2 where seen: "observe_token_account demo_uuid_crate demo_account Carbon None (seconds 32) (seconds 33) demo_ended = (Ok res, db2)"
    by (cases "observe_token_account demo_uuid_crate demo_account Carbon None (seconds 32) (seconds 33) demo_ended") (auto elim: is_ok.elims)
  have run: "store_run demo_deps undefined (wo_db (demo_world\<lparr>wo_db := demo_ended\<rparr>)) ([] @ []) (wo_db (demo_world\<lparr>wo_db := db2\<rparr>))"
    using store_run.more [OF store_run.start store_step.observed [OF seen]] by simp
  have "\<exists>e. fst (authenticate (demo_su (seconds 40)) (lit ''tok'') (demo_world\<lparr>wo_db := db2\<rparr>)) = Err e"
  proof (rule a_sign_out_ends_earlier_sessions [OF demo_received demo_delivery_verified demo_ends_sessions demo_not_retired demo_world_ok run])
    show "tk_sub c = account_uuid_str demo_account \<and>
        issued_at (su_settings (demo_su (seconds 40))) c < sign_out_second (unwrap_or (we_occurred_at demo_signed_out) (su_now (demo_su (seconds 31))))"
      if "se_verify (su_settings (demo_su (seconds 40))) keys (se_app_id (su_settings (demo_su (seconds 40))))
        (se_issuer (su_settings (demo_su (seconds 40)))) (su_now (demo_su (seconds 40))) (lit ''tok'') = Ok c" for keys c
      using that
      by (auto simp: demo_su_simps demo_claims_def demo_account_def issued_at_def demo_signed_out_def unwrap_or_def sign_out_second_def seconds_def)
  qed
  with seen show ?thesis by blast
qed

text \<open>One token is called inactive; another token and an account are asked about; after twenty-nine minutes
  the first is still refused although the service would now say it is active.\<close>

theorem inactive_tokens_stay_refused_witness:
  "\<exists>g2. fold (after_op demo_crates (su_settings (demo_su 0)))
       [AskActive (su_answers (demo_su 0)) (seconds 60) (lit ''u''), LookUp (su_answers (demo_su 0)) (seconds 61) (lit ''abc'')]
       (snd (introspect_active demo_crates (su_settings (demo_su 0)) (su_answers (demo_su 0)) 0 (lit ''t'') (gateway_new () 0))) = g2 \<and>
     introspect_active demo_crates (su_settings (demo_su 0))
       ((su_answers (demo_su 0))\<lparr>an_introspect := \<lambda>_. Ok \<lparr>it_active = True, it_client_id = None\<rparr>\<rparr>) (seconds 1740) (lit ''t'') g2 = (Ok False, g2) \<and>
     issued_after_sign_out demo_crates (su_settings (demo_su 0))
       ((su_answers (demo_su 0))\<lparr>an_introspect := \<lambda>_. Ok \<lparr>it_active = True, it_client_id = None\<rparr>\<rparr>) (seconds 1740) (lit ''t'') 5 g2 = (Ok False, g2)"
proof -
  let ?ops = "[AskActive (su_answers (demo_su 0)) (seconds 60) (lit ''u''), LookUp (su_answers (demo_su 0)) (seconds 61) (lit ''abc'')]"
  obtain g1 where run: "introspect_active demo_crates (su_settings (demo_su 0)) (su_answers (demo_su 0)) 0 (lit ''t'') (gateway_new () 0) = (Ok False, g1)"
    by (simp add: introspect_active_def demo_su_simps gateway_new_def Let_def)
  then have g1: "length (gw_inactive g1) \<le> 1" "gw_after_sign_out g1 = []"
    by (auto simp: introspect_active_def demo_su_simps gateway_new_def Let_def remember_inactive_def remember_def max_remembered_inactive_tokens_def)
  have fresh: "\<not> (\<exists>t. map_of (gw_inactive (gateway_new () 0)) (token_digest demo_crates (lit ''t'')) = Some t \<and> 0 - t < inactive_token_memory)"
    by (simp add: gateway_new_def)
  have "length (gw_inactive (after_op demo_crates (su_settings (demo_su 0)) (hd ?ops) g1)) \<le> 2"
    using g1 remember_bounds(1) [of "token_digest demo_crates (lit ''u'')" "seconds 60" "gw_inactive g1"]
    by (auto simp: introspect_active_def demo_su_simps Let_def remember_inactive_def max_remembered_inactive_tokens_def split: option.splits)
  then have "never_full demo_crates (su_settings (demo_su 0)) ?ops g1"
    using g1 by (simp add: max_remembered_inactive_tokens_def)
  with inactive_tokens_stay_refused [OF run fresh gateway_new_ok _ _ refl, of "seconds 1740" ?ops] run g1 show ?thesis
    by (simp add: inactive_token_memory_def seconds_def del: fold_simps)
qed

theorem lookups_stay_within_their_budget_witness:
  "fst (lookups_spent (replicate 301 5) (gateway_new () 0)) = 300"
  using lookups_stay_within_their_budget [of "replicate 301 5" "gateway_new () 0"]
  by (simp add: gateway_new_def seconds_def lookups_per_minute_def del: replicate.simps)

end
