(* ===== verification/Ting.thy ===== *)
theory Ting
  imports Outbox
begin

text \<open>
  The HTTP transport to Ting (\<open>infrastructure/ting.rs\<close>): what it sends, what it accepts as an answer and
  how a refusal is classified. The derived parsers, \<open>url\<close>, the TLS client and the network are crates:
  the network answers a request with a reply or does not, and every request that leaves is recorded,
  with its path, its body and its authorization.
\<close>

section \<open>Errors\<close>

text \<open>A duration is a number of nanoseconds.\<close>

datatype ting_error =
    InvalidInput string
  | Transport
  | InvalidAnswer
  | ResponseTooLarge
  | TingRejected nat string bool "int option"

fun ting_error_code :: "ting_error \<Rightarrow> string" where
  "ting_error_code (InvalidInput code) = code"
| "ting_error_code (TingRejected status code retryable retry_after) = code"
| "ting_error_code Transport = ''ting_transport_unavailable''"
| "ting_error_code InvalidAnswer = ''ting_invalid_response''"
| "ting_error_code ResponseTooLarge = ''ting_response_too_large''"

fun ting_error_retryable :: "ting_error \<Rightarrow> bool" where
  "ting_error_retryable (InvalidInput _) = False"
| "ting_error_retryable Transport = True"
| "ting_error_retryable InvalidAnswer = True"
| "ting_error_retryable ResponseTooLarge = True"
| "ting_error_retryable (TingRejected status code retryable retry_after) = retryable"

fun proof_refused :: "ting_error \<Rightarrow> bool" where
  "proof_refused (TingRejected status code retryable retry_after) \<longleftrightarrow>
     status = 401 \<and> code \<in> {''invalid_proof'', ''proof_expired'', ''proof_consumed'', ''proof_revoked''}"
| "proof_refused _ \<longleftrightarrow> False"

fun ting_error_status :: "ting_error \<Rightarrow> nat option" where
  "ting_error_status (TingRejected status code retryable retry_after) = Some status"
| "ting_error_status _ = None"

fun ting_error_retry_after :: "ting_error \<Rightarrow> int option" where
  "ting_error_retry_after (TingRejected status code retryable retry_after) = retry_after"
| "ting_error_retry_after _ = None"

definition ting_error_text :: "ting_error \<Rightarrow> ustring" where
  "ting_error_text e = lit (ting_error_code e)"

section \<open>Requests and answers\<close>

record send_request =
  sq_type :: ustring
  sq_recipient :: ting_recipient
  sq_key :: ustring
  sq_delivery :: ting_delivery_mode

record acceptance_response =
  ar_id :: ustring
  ar_key :: ustring
  ar_status :: ustring
  ar_silent :: bool
  ar_delivery :: ting_delivery_mode
  ar_created_at :: ustring

record ting_acceptance =
  ta_id :: ustring
  ta_key :: ustring
  ta_silent :: bool
  ta_delivery :: ting_delivery_mode
  ta_created_at :: instant

record ting_subscription =
  tn_id :: ustring
  tn_app_id :: ustring
  tn_recipient :: ting_recipient
  tn_active :: bool
  tn_required_delivery :: bool

record ting_destination_receipt =
  td_webhook_id :: ustring
  td_delivery_acked :: bool
  td_read_acked :: bool

record sent_detail =
  sd_id :: ustring
  sd_type :: ustring
  sd_recipient :: ting_recipient
  sd_read :: bool
  sd_silent :: bool
  sd_delivery :: ting_delivery_mode
  sd_deliveries :: "ting_destination_receipt list"
  sd_deliveries_next_cursor :: "ustring option"

record ting_receipt =
  rp_id :: ustring
  rp_read :: bool
  rp_silent :: bool
  rp_delivery :: ting_delivery_mode
  rp_deliveries :: "ting_destination_receipt list"
  rp_more_destinations :: bool

text \<open>The parsers the derives generate, and \<open>OffsetDateTime::parse\<close> with its offset in seconds.\<close>

record wire_crates =
  wi_send :: "bytes \<Rightarrow> send_request option"
  wi_acceptance :: "bytes \<Rightarrow> acceptance_response option"
  wi_subscription :: "bytes \<Rightarrow> ting_subscription option"
  wi_detail :: "bytes \<Rightarrow> sent_detail option"
  wi_json_parse :: "bytes \<Rightarrow> json option"
  wi_json_vec :: "json \<Rightarrow> bytes option"
  wi_rfc3339 :: "ustring \<Rightarrow> (instant \<times> int) option"

definition max_response_bytes :: nat where
  "max_response_bytes = 1024 * 1024"

definition is_identifier :: "ustring \<Rightarrow> nat \<Rightarrow> bool" where
  "is_identifier v limit \<longleftrightarrow> v \<noteq> [] \<and> str_len v \<le> limit \<and> \<not> list_ex is_control v"

definition send_request :: "wire_crates \<Rightarrow> ustring \<Rightarrow> bytes \<Rightarrow> (send_request, ting_error) result" where
  "send_request wi app_id body =
     (if max_ting_send_bytes < length body then Err (InvalidInput ''ting_request_too_large'')
      else
        and_then (ok_or (InvalidInput ''invalid_ting_send'') (wi_send wi body)) (\<lambda>request.
          if sq_type request \<noteq> app_id @ event_type_suffix \<or> \<not> is_identifier (tr_uuid (sq_recipient request)) 64 \<or>
             \<not> is_identifier (sq_key request) 200
          then Err (InvalidInput ''invalid_ting_send'') else Ok request))"

definition decode_acceptance ::
  "wire_crates \<Rightarrow> bytes \<Rightarrow> ustring \<Rightarrow> ting_delivery_mode \<Rightarrow> (ting_acceptance, ting_error) result" where
  "decode_acceptance wi body key delivery =
     and_then (ok_or InvalidAnswer (wi_acceptance wi body)) (\<lambda>r.
     and_then (ok_or InvalidAnswer (wi_rfc3339 wi (ar_created_at r))) (\<lambda>(created_at, offset).
       if ar_status r \<noteq> lit ''accepted'' \<or> ar_key r \<noteq> key \<or> ar_delivery r \<noteq> delivery \<or> \<not> is_identifier (ar_id r) 255 \<or>
          (ar_created_at r = [] \<or> List.last (ar_created_at r) \<noteq> 90) \<or> offset \<noteq> 0
       then Err InvalidAnswer
       else Ok \<lparr>ta_id = ar_id r, ta_key = ar_key r, ta_silent = ar_silent r, ta_delivery = ar_delivery r,
                ta_created_at = created_at\<rparr>))"

definition known_rejections :: "string list" where
  "known_rejections =
     [''authentication_required'', ''invalid_proof'', ''proof_expired'', ''proof_consumed'', ''proof_revoked'',
      ''proof_verification_uncertain'', ''recipient_not_registered'', ''required_delivery_not_enabled'',
      ''permission_denied'', ''idempotency_conflict'', ''payload_too_large'', ''invalid_input'', ''not_found'',
      ''rate_limited'', ''dependency_unavailable'', ''storage_unavailable'']"

definition json_get :: "string \<Rightarrow> json \<Rightarrow> json option" where
  "json_get k v = (case v of JObject ms \<Rightarrow> map_of ms (lit k) | _ \<Rightarrow> None)"

definition rejection_code :: "wire_crates \<Rightarrow> bytes \<Rightarrow> string" where
  "rejection_code wi body =
     (let raw = Option.bind (Option.bind (wi_json_parse wi body) (json_get ''error'')) (json_get ''code'') in
      case raw of
        Some (JString v) \<Rightarrow>
          (case find (\<lambda>c. lit c = v) known_rejections of None \<Rightarrow> ''ting_rejected'' | Some c \<Rightarrow> c)
      | _ \<Rightarrow> ''ting_rejected'')"

definition rejected :: "wire_crates \<Rightarrow> nat \<Rightarrow> bytes \<Rightarrow> int option \<Rightarrow> ting_error" where
  "rejected wi status body retry_after =
     (let code = rejection_code wi body;
          retryable = (status \<in> {408, 425, 429} \<or> 500 \<le> status \<and> status \<le> 599 \<or>
            status = 401 \<and> code \<in> {''proof_expired'', ''proof_consumed'', ''proof_revoked'', ''invalid_proof''}) in
      TingRejected status code retryable retry_after)"

section \<open>The network\<close>

text \<open>
  A reply: its status, its \<open>Retry-After\<close> header where that is text, its announced length, and the chunks
  of its body, where nothing stands for a failure to read on.
\<close>

record http_reply =
  hp_status :: nat
  hp_retry_after :: "ustring option"
  hp_content_length :: "nat option"
  hp_chunks :: "bytes option list"

record posted =
  po_path :: ustring
  po_body :: bytes
  po_authorization :: ustring

type_synonym network = "posted \<Rightarrow> http_reply option"

text \<open>What leaves is recorded in order.\<close>

type_synonym 'a wire = "posted list \<Rightarrow> ('a, ting_error) result \<times> posted list"

definition parse_u64 :: "ustring \<Rightarrow> nat option" where
  "parse_u64 v =
     (let ds = (case strip_prefix (lit ''+'') v of Some rest \<Rightarrow> rest | None \<Rightarrow> v) in
      if ds = [] \<or> \<not> list_all is_ascii_digit ds \<or> 2 ^ 64 \<le> digits_value ds then None
      else Some (digits_value ds))"

definition retry_after_of :: "http_reply \<Rightarrow> int option" where
  "retry_after_of r = map_option (\<lambda>s. seconds (int (min s 3600))) (Option.bind (hp_retry_after r) parse_u64)"

fun read_chunks :: "bytes \<Rightarrow> bytes option list \<Rightarrow> (bytes, ting_error) result" where
  "read_chunks bytes [] = Ok bytes"
| "read_chunks bytes (None # _) = Err Transport"
| "read_chunks bytes (Some chunk # chunks) =
     (if max_response_bytes < length bytes + length chunk then Err ResponseTooLarge
      else read_chunks (bytes @ chunk) chunks)"

definition answered :: "wire_crates \<Rightarrow> http_reply \<Rightarrow> (nat \<times> bytes, ting_error) result" where
  "answered wi r =
     (if (case hp_content_length r of None \<Rightarrow> False | Some n \<Rightarrow> max_response_bytes < n) then Err ResponseTooLarge
      else
        and_then (read_chunks [] (hp_chunks r)) (\<lambda>bytes.
          if \<not> (200 \<le> hp_status r \<and> hp_status r < 300)
          then Err (rejected wi (hp_status r) bytes (retry_after_of r))
          else Ok (hp_status r, bytes)))"

definition post :: "wire_crates \<Rightarrow> network \<Rightarrow> string \<Rightarrow> bytes \<Rightarrow> ustring \<Rightarrow> (nat \<times> bytes) wire" where
  "post wi net path body proof sent =
     (let request = \<lparr>po_path = lit path, po_body = body, po_authorization = lit ''Proof '' @ proof\<rparr> in
      (case net request of None \<Rightarrow> Err Transport | Some reply \<Rightarrow> answered wi reply, sent @ [request]))"

section \<open>The client\<close>

datatype url_host = HostDomain ustring | HostIp ip_addr

record parsed_origin =
  og_scheme :: ustring
  og_host :: "url_host option"
  og_username :: ustring
  og_password :: "ustring option"
  og_path :: ustring
  og_query :: "ustring option"
  og_fragment :: "ustring option"

fun is_loopback :: "ip_addr \<Rightarrow> bool" where
  "is_loopback (V4 n) \<longleftrightarrow> n div 2 ^ 24 = 127"
| "is_loopback (V6 n) \<longleftrightarrow> n = 1"

definition loopback_host :: "url_host option \<Rightarrow> bool" where
  "loopback_host h =
     (case h of
        Some (HostDomain d) \<Rightarrow> d = lit ''localhost''
      | Some (HostIp ip) \<Rightarrow> is_loopback ip
      | None \<Rightarrow> False)"

text \<open>Building the TLS client may fail: \<open>built\<close> says whether it did not.\<close>

definition ting_client_new :: "(ustring \<Rightarrow> parsed_origin option) \<Rightarrow> bool \<Rightarrow> ustring \<Rightarrow> int \<Rightarrow> (parsed_origin, ting_error) result" where
  "ting_client_new url_parse built base_url request_timeout =
     and_then (ok_or (InvalidInput ''invalid_ting_origin'') (url_parse base_url)) (\<lambda>origin.
       if og_host origin = None \<or> og_username origin \<noteq> [] \<or> og_password origin \<noteq> None \<or>
          og_query origin \<noteq> None \<or> og_fragment origin \<noteq> None \<or> og_path origin \<noteq> lit ''/'' \<or>
          \<not> (og_scheme origin = lit ''https'' \<or> og_scheme origin = lit ''http'' \<and> loopback_host (og_host origin)) \<or>
          request_timeout = 0
       then Err (InvalidInput ''invalid_ting_origin'')
       else if \<not> built then Err (InvalidInput ''ting_transport_configuration'')
       else Ok origin)"

definition posted_then ::
  "'a wire \<Rightarrow> ('a \<Rightarrow> ('b, ting_error) result) \<Rightarrow> 'b wire" where
  "posted_then m f sent = (case m sent of (r, sent) \<Rightarrow> (and_then r f, sent))"

definition client_send ::
  "wire_crates \<Rightarrow> network \<Rightarrow> ustring \<Rightarrow> ustring \<Rightarrow> bytes \<Rightarrow> ting_acceptance wire" where
  "client_send wi net proof app_id prepared_body sent =
     (case send_request wi app_id prepared_body of
        Err e \<Rightarrow> (Err e, sent)
      | Ok request \<Rightarrow>
          posted_then (post wi net ''/v1/tings'' prepared_body proof) (\<lambda>(status, body).
            if status \<noteq> 200 \<and> status \<noteq> 202 then Err InvalidAnswer
            else decode_acceptance wi body (sq_key request) (sq_delivery request)) sent)"

definition register_recipient ::
  "wire_crates \<Rightarrow> network \<Rightarrow> ustring \<Rightarrow> ustring \<Rightarrow> ting_recipient \<Rightarrow> ting_subscription wire" where
  "register_recipient wi net proof app_id recipient sent =
     (if \<not> is_identifier (tr_uuid recipient) 64 \<or> \<not> is_identifier app_id 80
      then (Err (InvalidInput ''invalid_ting_registration''), sent)
      else
        (case wi_json_vec wi (json_members [(lit ''app_id'', JString app_id), (lit ''for'', recipient_json recipient)]) of
           None \<Rightarrow> (Err (InvalidInput ''invalid_ting_registration''), sent)
         | Some body \<Rightarrow>
             posted_then (post wi net ''/v1/subscriptions'' body proof) (\<lambda>(status, response).
               if status \<noteq> 200 \<and> status \<noteq> 201 then Err InvalidAnswer
               else
                 and_then (ok_or InvalidAnswer (wi_subscription wi response)) (\<lambda>s.
                   if \<not> is_identifier (tn_id s) 255 \<or> \<not> tn_active s \<or> tn_app_id s \<noteq> app_id \<or>
                      tr_uuid (tn_recipient s) \<noteq> tr_uuid recipient
                   then Err InvalidAnswer else Ok s)) sent))"

definition client_receipt ::
  "wire_crates \<Rightarrow> network \<Rightarrow> ustring \<Rightarrow> ustring \<Rightarrow> ustring \<Rightarrow> ustring \<Rightarrow> ting_delivery_mode \<Rightarrow> ting_receipt wire" where
  "client_receipt wi net proof app_id ting_id recipient_uuid delivery sent =
     (if \<not> is_identifier ting_id 255 \<or> \<not> is_identifier recipient_uuid 64
      then (Err (InvalidInput ''invalid_ting_receipt''), sent)
      else
        (case wi_json_vec wi (json_members [(lit ''app_id'', JString app_id), (lit ''id'', JString ting_id)]) of
           None \<Rightarrow> (Err (InvalidInput ''invalid_ting_receipt''), sent)
         | Some body \<Rightarrow>
             posted_then (post wi net ''/v1/sent/query'' body proof) (\<lambda>(status, response).
               if status \<noteq> 200 then Err InvalidAnswer
               else
                 and_then (ok_or InvalidAnswer (wi_detail wi response)) (\<lambda>d.
                   if sd_id d \<noteq> ting_id \<or> tr_uuid (sd_recipient d) \<noteq> recipient_uuid \<or>
                      sd_type d \<noteq> app_id @ event_type_suffix \<or> sd_delivery d \<noteq> delivery \<or>
                      100 < length (sd_deliveries d) \<or>
                      list_ex (\<lambda>d. \<not> is_identifier (td_webhook_id d) 255 \<or> td_read_acked d \<and> \<not> td_delivery_acked d)
                        (sd_deliveries d)
                   then Err InvalidAnswer
                   else Ok \<lparr>rp_id = sd_id d, rp_read = sd_read d, rp_silent = sd_silent d, rp_delivery = sd_delivery d,
                            rp_deliveries = sd_deliveries d,
                            rp_more_destinations = (sd_deliveries_next_cursor d \<noteq> None)\<rparr>)) sent))"

section \<open>What is accepted\<close>

lemma read_chunks_bound: "read_chunks bs chunks = Ok out \<Longrightarrow> length bs \<le> max_response_bytes \<Longrightarrow> length out \<le> max_response_bytes"
  by (induction bs chunks rule: read_chunks.induct) (auto split: if_splits)

lemma read_chunks_Ok: "read_chunks bs chunks = Ok out \<Longrightarrow> out = bs @ concat (map the chunks)"
  by (induction bs chunks rule: read_chunks.induct) (auto split: if_splits)

lemma posted_then_Ok:
  "posted_then m f sent = (Ok b, sent') \<longleftrightarrow> (\<exists>a. m sent = (Ok a, sent') \<and> f a = Ok b)"
  by (auto simp: posted_then_def result_simps split: prod.split)

lemma post_posts: "snd (post wi net path body proof sent) =
    sent @ [\<lparr>po_path = lit path, po_body = body, po_authorization = lit ''Proof '' @ proof\<rparr>]"
  by (simp add: post_def Let_def)

lemma posted_then_posts: "snd (posted_then m f sent) = snd (m sent)"
  by (simp add: posted_then_def split: prod.split)

lemma answered_Ok:
  "answered wi r = Ok (status, body) \<Longrightarrow> 200 \<le> status \<and> status < 300 \<and> length body \<le> max_response_bytes \<and> hp_status r = status"
  using read_chunks_bound [of "[]" "hp_chunks r" body]
  by (auto simp: answered_def result_simps split: if_splits)

lemma proof_refused_cases:
  "proof_refused e \<Longrightarrow> \<exists>code retry_after retryable. e = TingRejected 401 code retryable retry_after"
  by (cases e) auto

text \<open>A refused proof is worth a retry.\<close>

lemma refused_proofs_are_retryable: "proof_refused (rejected wi status body retry_after) \<Longrightarrow>
    ting_error_retryable (rejected wi status body retry_after)"
  by (auto simp: rejected_def Let_def)

lemma retry_after_bounds: "retry_after_of r = Some d \<Longrightarrow> 0 \<le> d \<and> d \<le> seconds 3600"
  by (auto simp: retry_after_of_def seconds_def)

text \<open>The body of a reply that is read to its end and is not too large.\<close>

definition full_body :: "http_reply \<Rightarrow> bytes option" where
  "full_body r =
     (let body = concat (map the (hp_chunks r)) in
      if None \<notin> set (hp_chunks r) \<and> length body \<le> max_response_bytes then Some body else None)"

lemma read_chunks_full: "read_chunks bs chunks = Ok out \<Longrightarrow> length bs \<le> max_response_bytes \<Longrightarrow> None \<notin> set chunks"
  by (induction bs chunks rule: read_chunks.induct) (auto split: if_splits)

lemma answered_body:
  "answered wi r = Ok (status, body) \<Longrightarrow> full_body r = Some body"
  "answered wi r = Err (TingRejected status code retryable after) \<Longrightarrow>
     \<exists>body. full_body r = Some body \<and> status = hp_status r \<and> code = rejection_code wi body"
proof -
  have full: "full_body r = Some body" if "read_chunks [] (hp_chunks r) = Ok body" for body
    using read_chunks_Ok [OF that] read_chunks_bound [OF that] read_chunks_full [OF that]
    by (simp add: full_body_def Let_def max_response_bytes_def)
  have "read_chunks bs chunks \<noteq> Err (TingRejected status code retryable after)" for bs chunks
    by (induction bs chunks rule: read_chunks.induct) auto
  with full show "answered wi r = Ok (status, body) \<Longrightarrow> full_body r = Some body"
    "answered wi r = Err (TingRejected status code retryable after) \<Longrightarrow>
       \<exists>body. full_body r = Some body \<and> status = hp_status r \<and> code = rejection_code wi body"
    by (auto simp: answered_def rejected_def Let_def result_simps split: if_splits)
qed

lemma named_rejection:
  assumes "rejection_code wi body = c" and "c \<noteq> ''ting_rejected''"
  shows "\<exists>doc err. wi_json_parse wi body = Some doc \<and> json_get ''error'' doc = Some err \<and>
    json_get ''code'' err = Some (JString (lit c))"
  using assms
  by (auto simp: rejection_code_def Let_def bind_eq_Some_conv split: option.splits json.splits dest!: find_SomeD)

lemma client_send_Ok:
  assumes "client_send wi net proof app_id body sent = (Ok a, sent')"
  obtains request reply answer where "send_request wi app_id body = Ok request"
    and "net \<lparr>po_path = lit ''/v1/tings'', po_body = body, po_authorization = lit ''Proof '' @ proof\<rparr> = Some reply"
    and "hp_status reply = 200 \<or> hp_status reply = 202" and "full_body reply = Some answer"
    and "decode_acceptance wi answer (sq_key request) (sq_delivery request) = Ok a"
    and "sent' = sent @ [\<lparr>po_path = lit ''/v1/tings'', po_body = body, po_authorization = lit ''Proof '' @ proof\<rparr>]"
proof -
  obtain request status answer where r: "send_request wi app_id body = Ok request"
    and p: "post wi net ''/v1/tings'' body proof sent = (Ok (status, answer), sent')"
    and status: "status = 200 \<or> status = 202"
    and d: "decode_acceptance wi answer (sq_key request) (sq_delivery request) = Ok a"
    using assms by (auto simp: client_send_def posted_then_Ok split: result.splits if_splits)
  obtain reply where reply:
      "net \<lparr>po_path = lit ''/v1/tings'', po_body = body, po_authorization = lit ''Proof '' @ proof\<rparr> = Some reply"
      "answered wi reply = Ok (status, answer)"
    using p by (auto simp: post_def Let_def split: option.splits)
  show thesis
    using r reply(1) status answered_Ok [OF reply(2)] answered_body(1) [OF reply(2)] d p
    by (intro that [of request reply answer]) (auto simp: post_def Let_def)
qed

end
