(* ===== verification/Adapter.thy ===== *)
theory Adapter
  imports Ting Gateway
begin

text \<open>
  The delivery adapter (\<open>delivery/adapter.rs\<close>) with the proofs it asks Silicon Accounts for
  (\<open>infrastructure/accounts.rs\<close>): one cached proof with its refresh token for each scope, pauses after
  failed requests, and sends whose refused proof is renewed once. The lock of a cache makes a renewal
  one step; an operation reads the clock once. The client of Silicon Accounts is a crate.
\<close>

section \<open>Proofs\<close>

record issued_proof =
  ip_token :: ustring
  ip_refresh_token :: "ustring option"
  ip_expires_at :: "instant option"

record user_verification =
  uv_subject_token :: ustring
  uv_receiving_app :: ustring
  uv_scopes :: "ustring list"

record app_verification =
  av_receiving_app :: ustring
  av_scopes :: "ustring list"

record proof_service =
  ps_user :: "user_verification \<Rightarrow> ustring \<Rightarrow> (issued_proof, client_error) result"
  ps_app :: "app_verification \<Rightarrow> ustring \<Rightarrow> (issued_proof, client_error) result"
  ps_refresh :: "ustring \<Rightarrow> (issued_proof, client_error) result"

text \<open>The identifier in the key is the simple text of a new UUID.\<close>

definition proof_idempotency_key :: "string \<Rightarrow> ustring \<Rightarrow> ustring" where
  "proof_idempotency_key purpose fresh = lit ''hook-'' @ lit purpose @ lit ''-'' @ fresh"

definition issue_user_verification ::
  "proof_service \<Rightarrow> ustring \<Rightarrow> ustring \<Rightarrow> ustring \<Rightarrow> ustring list \<Rightarrow> (issued_proof, accounts_error) result" where
  "issue_user_verification ps fresh subject_token receiving_app scopes =
     map_err accounts_error_of
       (ps_user ps \<lparr>uv_subject_token = subject_token, uv_receiving_app = receiving_app, uv_scopes = scopes\<rparr>
         (proof_idempotency_key ''user-verification'' fresh))"

definition issue_app_verification ::
  "proof_service \<Rightarrow> ustring \<Rightarrow> ustring \<Rightarrow> ustring list \<Rightarrow> (issued_proof, accounts_error) result" where
  "issue_app_verification ps fresh receiving_app scopes =
     map_err accounts_error_of
       (ps_app ps \<lparr>av_receiving_app = receiving_app, av_scopes = scopes\<rparr>
         (proof_idempotency_key ''app-verification'' fresh))"

definition refresh_proof :: "proof_service \<Rightarrow> ustring \<Rightarrow> (issued_proof, accounts_error) result" where
  "refresh_proof ps refresh_token = map_err accounts_error_of (ps_refresh ps refresh_token)"

section \<open>The cache\<close>

definition send_scope :: ustring where
  "send_scope = lit ''tings.send''"

definition receipt_scope :: ustring where
  "receipt_scope = lit ''sent.query''"

definition subscribe_scope :: ustring where
  "subscribe_scope = lit ''tings.subscribe''"

definition renew_before_expiry :: int where
  "renew_before_expiry = seconds 60"

definition first_proof_pause :: int where
  "first_proof_pause = seconds 30"

definition max_proof_pause :: int where
  "max_proof_pause = seconds 300"

datatype delivery_error = ProofFailed accounts_error | ProofPaused int ustring | TingFailed ting_error

definition as_secs :: "int \<Rightarrow> int" where
  "as_secs d = d div seconds 1"

fun delivery_error_text :: "delivery_error \<Rightarrow> ustring" where
  "delivery_error_text (ProofFailed e) = lit ''no proof for Ting: '' @ accounts_error_text e"
| "delivery_error_text (ProofPaused retry_in reason) =
     lit ''no proof for Ting: asking Silicon Accounts again in '' @ show_int (max (as_secs retry_in) 1) @
     lit ''s (last answer: '' @ reason @ lit '')''"
| "delivery_error_text (TingFailed e) = lit ''Ting: '' @ ting_error_text e"

definition proof_pause :: "nat \<Rightarrow> int" where
  "proof_pause failures = min (first_proof_pause * 2 ^ min (failures - 1) 8) max_proof_pause"

record cached_proof =
  cp_token :: ustring
  cp_refresh :: "ustring option"
  cp_expires_at :: "instant option"

definition proof_fresh :: "instant \<Rightarrow> cached_proof \<Rightarrow> bool" where
  "proof_fresh now c = (case cp_expires_at c of None \<Rightarrow> True | Some at \<Rightarrow> now + renew_before_expiry < at)"

record proof_cache =
  pc_scope :: ustring
  pc_proof :: "cached_proof option"
  pc_failures :: nat
  pc_paused_until :: "instant option"
  pc_last_failure :: ustring

definition proof_cache_new :: "ustring \<Rightarrow> proof_cache" where
  "proof_cache_new scope =
     \<lparr>pc_scope = scope, pc_proof = None, pc_failures = 0, pc_paused_until = None, pc_last_failure = []\<rparr>"

definition cache :: "issued_proof \<Rightarrow> cached_proof" where
  "cache i = \<lparr>cp_token = ip_token i, cp_refresh = ip_refresh_token i, cp_expires_at = ip_expires_at i\<rparr>"

text \<open>The failures are a \<open>u32\<close> that stays at its largest value.\<close>

definition saturating_inc :: "nat \<Rightarrow> nat" where
  "saturating_inc n = min (Suc n) (2 ^ 32 - 1)"

definition keep_proof :: "issued_proof \<Rightarrow> proof_cache \<Rightarrow> (ustring, accounts_error) result \<times> proof_cache" where
  "keep_proof i pc = (Ok (cp_token (cache i)), pc\<lparr>pc_proof := Some (cache i)\<rparr>)"

definition issue_new ::
  "proof_service \<Rightarrow> ustring \<Rightarrow> ustring \<Rightarrow> proof_cache \<Rightarrow> (ustring, accounts_error) result \<times> proof_cache" where
  "issue_new ps fresh receiving_app pc =
     (case issue_app_verification ps fresh receiving_app [pc_scope pc] of
        Err e \<Rightarrow> (Err e, pc)
      | Ok i \<Rightarrow> keep_proof i pc)"

definition obtain_proof ::
  "proof_service \<Rightarrow> ustring \<Rightarrow> ustring \<Rightarrow> proof_cache \<Rightarrow> (ustring, accounts_error) result \<times> proof_cache" where
  "obtain_proof ps fresh receiving_app pc =
     (case Option.bind (pc_proof pc) cp_refresh of
        Some refresh \<Rightarrow>
          (case refresh_proof ps refresh of
             Ok i \<Rightarrow> keep_proof i pc
           | Err (AccountsRejected _ _ _) \<Rightarrow> issue_new ps fresh receiving_app pc
           | Err e \<Rightarrow> (Err e, pc))
      | None \<Rightarrow> issue_new ps fresh receiving_app pc)"

definition cached_token :: "instant \<Rightarrow> proof_cache \<Rightarrow> ustring option" where
  "cached_token now pc =
     (case pc_proof pc of None \<Rightarrow> None | Some c \<Rightarrow> if proof_fresh now c then Some (cp_token c) else None)"

definition proof_token ::
  "proof_service \<Rightarrow> ustring \<Rightarrow> ustring \<Rightarrow> instant \<Rightarrow> proof_cache \<Rightarrow> (ustring, delivery_error) result \<times> proof_cache" where
  "proof_token ps fresh receiving_app now pc =
     (case cached_token now pc of
        Some token \<Rightarrow> (Ok token, pc)
      | None \<Rightarrow>
          if (case pc_paused_until pc of None \<Rightarrow> False | Some until \<Rightarrow> now < until)
          then (Err (ProofPaused (the (pc_paused_until pc) - now) (pc_last_failure pc)), pc)
          else
            (case obtain_proof ps fresh receiving_app pc of
               (Ok token, pc) \<Rightarrow> (Ok token, pc\<lparr>pc_failures := 0, pc_paused_until := None\<rparr>)
             | (Err e, pc) \<Rightarrow>
                 (let failures = saturating_inc (pc_failures pc) in
                  (Err (ProofFailed e),
                   pc\<lparr>pc_failures := failures, pc_paused_until := Some (now + proof_pause failures),
                      pc_last_failure := accounts_error_text e\<rparr>))))"

definition forget_token :: "ustring \<Rightarrow> proof_cache \<Rightarrow> proof_cache" where
  "forget_token refused pc =
     (case pc_proof pc of
        Some c \<Rightarrow> if cp_token c = refused then pc\<lparr>pc_proof := Some (c\<lparr>cp_expires_at := Some 0\<rparr>)\<rparr> else pc
      | None \<Rightarrow> pc)"

section \<open>The adapter\<close>

text \<open>What answers: the wire, the network and the service that issues proofs.\<close>

record ting_world =
  tw_wire :: wire_crates
  tw_net :: network
  tw_proofs :: proof_service

record ting_adapter =
  ad_app_id :: ustring
  ad_receiving_app :: ustring
  ad_send :: proof_cache
  ad_receipts :: proof_cache
  ad_posted :: "posted list"

definition ting_adapter_new :: "ustring \<Rightarrow> ustring \<Rightarrow> ting_adapter" where
  "ting_adapter_new app_id receiving_app =
     \<lparr>ad_app_id = app_id, ad_receiving_app = receiving_app, ad_send = proof_cache_new send_scope,
      ad_receipts = proof_cache_new receipt_scope, ad_posted = []\<rparr>"

text \<open>\<open>fresh retried\<close> is the new identifier of the round.\<close>

function send_rounds ::
  "ting_world \<Rightarrow> (bool \<Rightarrow> ustring) \<Rightarrow> instant \<Rightarrow> bytes \<Rightarrow> bool \<Rightarrow> ting_adapter \<Rightarrow>
    (ting_acceptance, delivery_error) result \<times> ting_adapter" where
  "send_rounds tw fresh now body retried ad =
     (case proof_token (tw_proofs tw) (fresh retried) (ad_receiving_app ad) now (ad_send ad) of
        (Err e, pc) \<Rightarrow> (Err e, ad\<lparr>ad_send := pc\<rparr>)
      | (Ok proof, pc) \<Rightarrow>
          (case client_send (tw_wire tw) (tw_net tw) proof (ad_app_id ad) body (ad_posted ad) of
             (Ok a, sent) \<Rightarrow> (Ok a, ad\<lparr>ad_send := pc, ad_posted := sent\<rparr>)
           | (Err e, sent) \<Rightarrow>
               if proof_refused e \<and> \<not> retried
               then send_rounds tw fresh now body True (ad\<lparr>ad_send := forget_token proof pc, ad_posted := sent\<rparr>)
               else (Err (TingFailed e), ad\<lparr>ad_send := pc, ad_posted := sent\<rparr>)))"
  by pat_completeness auto

termination
  by (relation "measure (\<lambda>(tw, fresh, now, body, retried, ad). if retried then 0 else 1)") auto

declare send_rounds.simps [simp del]

definition adapter_send ::
  "ting_world \<Rightarrow> (bool \<Rightarrow> ustring) \<Rightarrow> instant \<Rightarrow> bytes \<Rightarrow> ting_adapter \<Rightarrow>
    (ting_acceptance, delivery_error) result \<times> ting_adapter" where
  "adapter_send tw fresh now prepared_body ad = send_rounds tw fresh now prepared_body False ad"

definition adapter_receipt ::
  "ting_world \<Rightarrow> ustring \<Rightarrow> instant \<Rightarrow> ustring \<Rightarrow> ustring \<Rightarrow> ting_delivery_mode \<Rightarrow> ting_adapter \<Rightarrow>
    (ting_receipt, delivery_error) result \<times> ting_adapter" where
  "adapter_receipt tw fresh now ting_id recipient_uuid delivery ad =
     (case proof_token (tw_proofs tw) fresh (ad_receiving_app ad) now (ad_receipts ad) of
        (Err e, pc) \<Rightarrow> (Err e, ad\<lparr>ad_receipts := pc\<rparr>)
      | (Ok proof, pc) \<Rightarrow>
          (case client_receipt (tw_wire tw) (tw_net tw) proof (ad_app_id ad) ting_id recipient_uuid delivery (ad_posted ad) of
             (Ok r, sent) \<Rightarrow> (Ok r, ad\<lparr>ad_receipts := pc, ad_posted := sent\<rparr>)
           | (Err e, sent) \<Rightarrow>
               (Err (TingFailed e),
                ad\<lparr>ad_receipts := (if proof_refused e then forget_token proof pc else pc), ad_posted := sent\<rparr>)))"

definition enrol ::
  "ting_world \<Rightarrow> ustring \<Rightarrow> ustring \<Rightarrow> ting_recipient \<Rightarrow> ting_adapter \<Rightarrow>
    (ting_subscription, delivery_error) result \<times> ting_adapter" where
  "enrol tw fresh subject_token recipient ad =
     (case issue_user_verification (tw_proofs tw) fresh subject_token (ad_receiving_app ad) [subscribe_scope] of
        Err e \<Rightarrow> (Err (ProofFailed e), ad)
      | Ok issued \<Rightarrow>
          (case register_recipient (tw_wire tw) (tw_net tw) (ip_token issued) (ad_app_id ad) recipient (ad_posted ad) of
             (r, sent) \<Rightarrow> (map_err TingFailed r, ad\<lparr>ad_posted := sent\<rparr>)))"

end
