(* ===== verification/Publisher.thy ===== *)
theory Publisher
  imports Adapter OutboxProps
begin

text \<open>
  The background publisher (\<open>delivery/publisher.rs\<close>): one claim at a time, no transaction across the
  network, every failure a bounded diagnostic and a bounded delay. The clock is read when the claim is
  made, when it is checked, when the send is made and when its result is recorded.
\<close>

definition retry_delay :: "int \<Rightarrow> bool \<Rightarrow> int" where
  "retry_delay attempts transient =
     (if \<not> transient then seconds 300
      else (let exponent = nat (min (max (attempts - 1) 0) 8) in seconds (min (2 * 2 ^ exponent) 300)))"

fun failure :: "ting_error \<Rightarrow> ting_send_failure" where
  "failure Transport = TransportUnavailable"
| "failure InvalidAnswer = InvalidResponse"
| "failure ResponseTooLarge = InvalidResponse"
| "failure (InvalidInput _) = RequestRejected"
| "failure (TingRejected status code retryable retry_after) =
     (if status = 429 then RateLimited
      else if 500 \<le> status \<and> status \<le> 599 then TingUnavailable
      else if code = ''recipient_not_registered'' then RecipientNotRegistered
      else if code = ''required_delivery_not_enabled'' then RequiredDeliveryNotEnabled
      else if code = ''idempotency_conflict'' then SendIdempotencyConflict
      else if code = ''permission_denied'' then ConsentRequired
      else if status = 401 \<or> status = 403 then TingUnauthorized
      else if status = 404 then TypeNotRegistered
      else RequestRejected)"

text \<open>The failure and the delay of a send that did not succeed.\<close>

definition failed_send :: "int \<Rightarrow> delivery_error \<Rightarrow> ting_send_failure \<times> int" where
  "failed_send attempts e =
     (case e of
        ProofFailed _ \<Rightarrow> (ProofUnavailable, first_proof_pause)
      | ProofPaused retry_in _ \<Rightarrow> (ProofUnavailable, max retry_in first_proof_pause)
      | TingFailed e \<Rightarrow>
          (failure e,
           case ting_error_retry_after e of
             Some d \<Rightarrow> d
           | None \<Rightarrow> retry_delay attempts (ting_error_retryable e)))"

definition retry_send ::
  "ting_claim \<Rightarrow> ting_send_failure \<Rightarrow> int \<Rightarrow> instant \<Rightarrow> db \<Rightarrow> (db, store_error) result" where
  "retry_send c f delay now db = map_ok snd (retry_ting c f (now + seconds (min (as_secs delay) 3600)) now db)"

record publish_times =
  pb_claimed :: instant
  pb_checked :: instant
  pb_sent :: instant
  pb_recorded :: instant

definition publish_lease :: nat where
  "publish_lease = 180 * 1000000000"

text \<open>
  Whether the send is cut off after its sixty seconds is up to the network; the adapter is then left as
  far as it came.
\<close>

definition timed_send ::
  "ting_world \<Rightarrow> (bool \<Rightarrow> ustring) \<Rightarrow> ting_adapter option \<Rightarrow> instant \<Rightarrow> bytes \<Rightarrow> ting_adapter \<Rightarrow>
    (ting_acceptance, delivery_error) result \<times> ting_adapter" where
  "timed_send tw fresh stopped now body ad =
     (case stopped of
        Some ad' \<Rightarrow> (Err (TingFailed Transport), ad')
      | None \<Rightarrow> adapter_send tw fresh now body ad)"

definition publish_one ::
  "ting_world \<Rightarrow> (uuid \<Rightarrow> uuid) \<Rightarrow> (bool \<Rightarrow> ustring) \<Rightarrow> ting_adapter option \<Rightarrow> publish_times \<Rightarrow> db \<times> ting_adapter \<Rightarrow>
    (bool, store_error) result \<times> (db \<times> ting_adapter)" where
  "publish_one tw new_lease fresh stopped at s =
     (case s of (db, ad) \<Rightarrow>
      case claim_ting new_lease 1 publish_lease (pb_claimed at) db of
        Err e \<Rightarrow> (Err e, (db, ad))
      | Ok (claims, db) \<Rightarrow>
          if claims = [] then (Ok False, (db, ad))
          else
            (let c = List.last claims in
             if \<not> ting_claim_is_current c (pb_checked at) db then (Ok True, (db, ad))
             else
               (case timed_send tw fresh stopped (pb_sent at) (tc_request_body c) ad of
                  (Ok acc, ad) \<Rightarrow>
                    (case complete_ting c (ta_id acc) (ta_silent acc) (pb_recorded at) db of
                       Err e \<Rightarrow> (Err e, (db, ad))
                     | Ok (_, db) \<Rightarrow> (Ok True, (db, ad)))
                | (Err e, ad) \<Rightarrow>
                    (case failed_send (tc_attempts c) e of (f, delay) \<Rightarrow>
                     case retry_send c f delay (pb_recorded at) db of
                       Err e \<Rightarrow> (Err e, (db, ad))
                     | Ok db \<Rightarrow> (Ok True, (db, ad))))))"

end
