(* ===== verification/DeliveryProps.thy ===== *)
theory DeliveryProps
  imports Publisher
begin

text \<open>
  Properties of delivery: how often Silicon Accounts is asked for proofs, what a send puts on the
  network, and what a publication leaves in the outbox.
\<close>

section \<open>Pauses\<close>

text \<open>Failed proof requests are spaced out. The pause after a failure is between thirty seconds and five
  minutes, and doubles with each consecutive failure until it reaches the longest; the delay after
  a failed send is between two seconds and five minutes.\<close>

theorem proof_requests_back_off:
  "first_proof_pause \<le> proof_pause n \<and> proof_pause n \<le> max_proof_pause \<and>
   proof_pause (Suc (Suc n)) = min (2 * proof_pause (Suc n)) max_proof_pause \<and>
   seconds 2 \<le> retry_delay attempts transient \<and> retry_delay attempts transient \<le> seconds 300"
proof (intro conjI)
  have one: "(1::int) \<le> 2 ^ k" for k :: nat by simp
  show "first_proof_pause \<le> proof_pause n"
    using one [of "min (n - 1) 8"] by (simp add: proof_pause_def first_proof_pause_def max_proof_pause_def seconds_def)
  show "proof_pause n \<le> max_proof_pause" by (simp add: proof_pause_def)
  show "proof_pause (Suc (Suc n)) = min (2 * proof_pause (Suc n)) max_proof_pause"
  proof (cases "n < 8")
    case True
    then have "min (Suc n) 8 = Suc n" "min n 8 = n" by simp_all
    then show ?thesis by (simp add: proof_pause_def max_proof_pause_def seconds_def min_def)
  next
    case False
    then show ?thesis by (simp add: proof_pause_def first_proof_pause_def max_proof_pause_def seconds_def)
  qed
  have "2 * 2 ^ e \<ge> (2::int)" for e :: nat using one [of e] by simp
  then show "seconds 2 \<le> retry_delay attempts transient" "retry_delay attempts transient \<le> seconds 300"
    by (auto simp: retry_delay_def Let_def seconds_def min_def)
qed

lemma obtain_proof_Err:
  assumes "obtain_proof ps fresh app pc = (Err e, pc')"
  shows "pc' = pc"
  using assms by (auto simp: obtain_proof_def issue_new_def keep_proof_def split: option.splits result.splits accounts_error.splits)

lemma obtain_proof_Ok:
  assumes "obtain_proof ps fresh app pc = (Ok token, pc')"
  shows "\<exists>i. token = ip_token i \<and> pc' = pc\<lparr>pc_proof := Some (cache i)\<rparr> \<and>
    ((\<exists>t. refresh_proof ps t = Ok i) \<or> issue_app_verification ps fresh app [pc_scope pc] = Ok i)"
  using assms
  by (auto simp: obtain_proof_def issue_new_def keep_proof_def cache_def split: option.splits result.splits accounts_error.splits)

text \<open>C37: A service that cannot give a proof is asked once per pause. After a failed request, until the pause is
  over, every further request for a token fails at once with the time left and the last answer, does
  not depend on what the service would say, and leaves the cache as it is.\<close>

theorem a_failing_service_is_asked_once_per_pause:
  assumes "proof_token ps fresh app now pc = (Err (ProofFailed e), pc')"
    and "now \<le> t" and "t < now + proof_pause (pc_failures pc')"
  shows "pc_failures pc' = saturating_inc (pc_failures pc) \<and>
    proof_token ps' fresh' app' t pc' =
      (Err (ProofPaused (now + proof_pause (pc_failures pc') - t) (accounts_error_text e)), pc')"
proof -
  have none: "cached_token now pc = None"
    and pc': "pc' = pc\<lparr>pc_failures := saturating_inc (pc_failures pc),
      pc_paused_until := Some (now + proof_pause (saturating_inc (pc_failures pc))), pc_last_failure := accounts_error_text e\<rparr>"
    using assms(1) obtain_proof_Err [of ps fresh app pc]
    by (auto simp: proof_token_def Let_def split: option.splits if_splits prod.splits result.splits)
  have "cached_token t pc' = None"
    using none assms(2) by (auto simp: pc' cached_token_def proof_fresh_def split: option.splits if_splits)
  then show ?thesis using assms(3) by (simp add: proof_token_def pc')
qed

section \<open>Sends\<close>

lemma proof_token_renewed:
  assumes "proof_token ps fresh app now (forget_token proof pc) = (Ok token, pc')" and "cached_token now pc = Some proof \<or> (\<exists>c. pc_proof pc = Some c \<and> cp_token c = proof)"
    and "0 \<le> now"
  shows "\<exists>i. token = ip_token i \<and> ((\<exists>t. refresh_proof ps t = Ok i) \<or> issue_app_verification ps fresh app [pc_scope pc] = Ok i)"
proof -
  have "cached_token now (forget_token proof pc) = None"
    using assms(2,3)
    by (auto simp: cached_token_def forget_token_def proof_fresh_def renew_before_expiry_def seconds_def split: option.splits if_splits)
  then obtain pc1 where "obtain_proof ps fresh app (forget_token proof pc) = (Ok token, pc1)"
    using assms(1) by (auto simp: proof_token_def Let_def split: if_splits prod.splits result.splits)
  from obtain_proof_Ok [OF this] show ?thesis
    by (auto simp: forget_token_def split: option.splits if_splits)
qed

lemma proof_token_Ok:
  assumes "proof_token ps fresh app now pc = (Ok token, pc')"
  shows "\<exists>c. pc_proof pc' = Some c \<and> cp_token c = token" and "pc_scope pc' = pc_scope pc"
proof -
  have "(\<exists>c. pc_proof pc' = Some c \<and> cp_token c = token) \<and> pc_scope pc' = pc_scope pc"
  proof (cases "cached_token now pc")
    case None
    then obtain pc1 where "obtain_proof ps fresh app pc = (Ok token, pc1)" "pc' = pc1\<lparr>pc_failures := 0, pc_paused_until := None\<rparr>"
      using assms by (auto simp: proof_token_def Let_def split: if_splits prod.splits result.splits)
    with obtain_proof_Ok [OF this(1)] show ?thesis by (auto simp: cache_def)
  next
    case (Some t)
    then show ?thesis using assms by (auto simp: proof_token_def cached_token_def split: option.splits if_splits)
  qed
  then show "\<exists>c. pc_proof pc' = Some c \<and> cp_token c = token" "pc_scope pc' = pc_scope pc" by simp_all
qed

text \<open>
  A request whose proof Ting refused: the answer has status 401 and its body, read in full, carries one
  of the four proof codes. A request that Ting confirmed: the answer has status 200 or 202, and its
  body, read in full, is an acceptance of the key and mode that the bytes of the request carry, at an
  instant in UTC; the acceptance a send returns is what that body says.
\<close>

definition send_of :: "bytes \<Rightarrow> ustring \<Rightarrow> posted" where
  "send_of body proof = \<lparr>po_path = lit ''/v1/tings'', po_body = body, po_authorization = lit ''Proof '' @ proof\<rparr>"

definition refuses_proof :: "ting_world \<Rightarrow> posted \<Rightarrow> bool" where
  "refuses_proof tw p \<longleftrightarrow>
     (\<exists>reply body doc err code. tw_net tw p = Some reply \<and> hp_status reply = 401 \<and> full_body reply = Some body \<and>
        wi_json_parse (tw_wire tw) body = Some doc \<and> json_get ''error'' doc = Some err \<and>
        json_get ''code'' err = Some (JString (lit code)) \<and>
        code \<in> {''invalid_proof'', ''proof_expired'', ''proof_consumed'', ''proof_revoked''})"

definition confirms :: "ting_world \<Rightarrow> ustring \<Rightarrow> posted \<Rightarrow> ting_acceptance \<Rightarrow> bool" where
  "confirms tw app_id p a \<longleftrightarrow>
     (\<exists>request reply body answer. send_request (tw_wire tw) app_id (po_body p) = Ok request \<and> tw_net tw p = Some reply \<and>
        (hp_status reply = 200 \<or> hp_status reply = 202) \<and> full_body reply = Some body \<and>
        wi_acceptance (tw_wire tw) body = Some answer \<and> ar_status answer = lit ''accepted'' \<and>
        ar_key answer = sq_key request \<and> ar_delivery answer = sq_delivery request \<and> is_identifier (ar_id answer) 255 \<and>
        wi_rfc3339 (tw_wire tw) (ar_created_at answer) = Some (ta_created_at a, 0) \<and>
        ta_id a = ar_id answer \<and> ta_key a = ar_key answer \<and> ta_silent a = ar_silent answer \<and> ta_delivery a = ar_delivery answer)"

lemma client_send_posts:
  assumes "client_send wi net proof app_id body sent = (r, sent')"
  shows "sent' = sent \<or> sent' = sent @ [send_of body proof]"
proof (cases "send_request wi app_id body")
  case (Ok request)
  then show ?thesis
    using assms by (auto simp: client_send_def posted_then_def post_def Let_def send_of_def)
qed (use assms in \<open>simp add: client_send_def\<close>)

lemma read_chunks_error: "read_chunks bs chunks = Err e \<Longrightarrow> e = Transport \<or> e = ResponseTooLarge"
  by (induction bs chunks rule: read_chunks.induct) (auto split: if_splits)

lemma client_send_refused:
  assumes "client_send (tw_wire tw) (tw_net tw) proof app_id body sent = (Err e, sent')" and "proof_refused e"
  shows "sent' = sent @ [send_of body proof] \<and> refuses_proof tw (send_of body proof)"
proof -
  obtain code again after where e: "e = TingRejected 401 code again after"
    "code \<in> {''invalid_proof'', ''proof_expired'', ''proof_consumed'', ''proof_revoked''}"
    using assms(2) by (cases e) auto
  then obtain request where request: "send_request (tw_wire tw) app_id body = Ok request"
    using assms(1) by (cases "send_request (tw_wire tw) app_id body") (auto simp: client_send_def send_request_def result_simps split: if_splits)
  have "(case tw_net tw (send_of body proof) of None \<Rightarrow> Err Transport | Some reply \<Rightarrow> answered (tw_wire tw) reply) = Err e"
    using assms(1) request e
    by (auto simp: client_send_def posted_then_def post_def Let_def send_of_def decode_acceptance_def result_simps
        split: if_splits option.splits)
  then obtain reply where reply: "tw_net tw (send_of body proof) = Some reply"
    "answered (tw_wire tw) reply = Err (TingRejected 401 code again after)"
    using e(1) by (auto split: option.splits)
  from answered_body(2) [OF reply(2)] obtain answer where answer: "full_body reply = Some answer" "hp_status reply = 401"
    "rejection_code (tw_wire tw) answer = code" by auto
  moreover have "code \<noteq> ''ting_rejected''" using e(2) by auto
  ultimately have "refuses_proof tw (send_of body proof)"
    using named_rejection [OF answer(3)] reply(1) e(2) unfolding refuses_proof_def by blast
  moreover have "sent' = sent @ [send_of body proof]"
    using assms(1) request by (auto simp: client_send_def posted_then_def post_def Let_def send_of_def)
  ultimately show ?thesis by simp
qed

lemma client_send_confirms:
  assumes "client_send (tw_wire tw) (tw_net tw) proof app_id body sent = (Ok a, sent')"
  shows "sent' = sent @ [send_of body proof] \<and> confirms tw app_id (send_of body proof) a"
proof (rule client_send_Ok [OF assms])
  fix request reply answer
  assume "send_request (tw_wire tw) app_id body = Ok request"
    and "tw_net tw \<lparr>po_path = lit ''/v1/tings'', po_body = body, po_authorization = lit ''Proof '' @ proof\<rparr> = Some reply"
    and "hp_status reply = 200 \<or> hp_status reply = 202" and "full_body reply = Some answer"
    and decoded: "decode_acceptance (tw_wire tw) answer (sq_key request) (sq_delivery request) = Ok a"
    and "sent' = sent @ [\<lparr>po_path = lit ''/v1/tings'', po_body = body, po_authorization = lit ''Proof '' @ proof\<rparr>]"
  moreover from decoded obtain ar where "wi_acceptance (tw_wire tw) answer = Some ar" "ar_status ar = lit ''accepted''"
    "ar_key ar = sq_key request" "ar_delivery ar = sq_delivery request" "is_identifier (ar_id ar) 255"
    "wi_rfc3339 (tw_wire tw) (ar_created_at ar) = Some (ta_created_at a, 0)"
    "ta_id a = ar_id ar" "ta_key a = ar_key ar" "ta_silent a = ar_silent ar" "ta_delivery a = ar_delivery ar"
    by (auto simp: decode_acceptance_def result_simps split: if_splits)
  ultimately show ?thesis by (auto simp: send_of_def confirms_def)
qed

lemma last_round:
  assumes "send_rounds tw fresh now body True ad = (r, ad')"
  shows "ad_app_id ad' = ad_app_id ad \<and>
    (ad_posted ad' = ad_posted ad \<and> \<not> is_ok r \<or>
     (\<exists>token pc. proof_token (tw_proofs tw) (fresh True) (ad_receiving_app ad) now (ad_send ad) = (Ok token, pc) \<and>
        (ad_posted ad' = ad_posted ad \<or> ad_posted ad' = ad_posted ad @ [send_of body token]) \<and>
        (\<forall>a. r = Ok a \<longrightarrow> ad_posted ad' = ad_posted ad @ [send_of body token] \<and> confirms tw (ad_app_id ad) (send_of body token) a)))"
proof -
  obtain t pc where token: "proof_token (tw_proofs tw) (fresh True) (ad_receiving_app ad) now (ad_send ad) = (t, pc)"
    by fastforce
  show ?thesis
  proof (cases t)
    case (Err e)
    then show ?thesis using assms token by (auto simp: send_rounds.simps [of tw fresh now body True ad])
  next
    case (Ok token')
    obtain a sent where sent: "client_send (tw_wire tw) (tw_net tw) token' (ad_app_id ad) body (ad_posted ad) = (a, sent)"
      by fastforce
    from assms token Ok sent have "ad_posted ad' = sent \<and> ad_app_id ad' = ad_app_id ad \<and> (\<forall>x. r = Ok x \<longrightarrow> a = Ok x)"
      by (auto simp: send_rounds.simps [of tw fresh now body True ad] split: result.splits)
    moreover have "sent = ad_posted ad \<or> sent = ad_posted ad @ [send_of body token']"
      by (rule client_send_posts [OF sent])
    moreover have "\<forall>x. a = Ok x \<longrightarrow> sent = ad_posted ad @ [send_of body token'] \<and> confirms tw (ad_app_id ad) (send_of body token') x"
      using client_send_confirms sent by blast
    ultimately show ?thesis using token Ok by blast
  qed
qed

lemma adapter_send_posts:
  assumes "adapter_send tw fresh now body ad = (r, ad')" and "0 \<le> now"
  shows "\<exists>ps. ad_posted ad' = ad_posted ad @ ps \<and> length ps \<le> 2 \<and> (\<forall>p \<in> set ps. \<exists>token. p = send_of body token) \<and>
    (length ps = 2 \<longrightarrow> refuses_proof tw (hd ps) \<and>
       (\<exists>i. List.last ps = send_of body (ip_token i) \<and>
          ((\<exists>t. refresh_proof (tw_proofs tw) t = Ok i) \<or>
           (\<exists>f. issue_app_verification (tw_proofs tw) f (ad_receiving_app ad) [pc_scope (ad_send ad)] = Ok i)))) \<and>
    (\<forall>a. r = Ok a \<longrightarrow> ps \<noteq> [] \<and> confirms tw (ad_app_id ad) (List.last ps) a)"
proof -
  obtain t pc where token: "proof_token (tw_proofs tw) (fresh False) (ad_receiving_app ad) now (ad_send ad) = (t, pc)"
    by fastforce
  note round = assms(1) [unfolded adapter_send_def send_rounds.simps [of tw fresh now body False ad]]
  show ?thesis
  proof (cases t)
    case (Err e)
    then show ?thesis using round token by (intro exI [of _ "[]"]) auto
  next
    case (Ok token')
    obtain a sent where sent: "client_send (tw_wire tw) (tw_net tw) token' (ad_app_id ad) body (ad_posted ad) = (a, sent)"
      by fastforce
    show ?thesis
    proof (cases "\<exists>e. a = Err e \<and> proof_refused e")
      case False
      then have "ad_posted ad' = sent \<and> (\<forall>x. r = Ok x \<longrightarrow> a = Ok x)"
        using round token Ok sent by (auto split: result.splits)
      then have out: "ad_posted ad' = sent" "\<And>x. r = Ok x \<Longrightarrow> sent = ad_posted ad @ [send_of body token'] \<and>
          confirms tw (ad_app_id ad) (send_of body token') x"
        using client_send_confirms [of tw token' "ad_app_id ad" body "ad_posted ad"] sent by auto
      from client_send_posts [OF sent] show ?thesis
      proof
        assume "sent = ad_posted ad"
        with out show ?thesis by (intro exI [of _ "[]"]) auto
      next
        assume "sent = ad_posted ad @ [send_of body token']"
        with out show ?thesis by (intro exI [of _ "[send_of body token']"]) auto
      qed
    next
      case True
      then obtain e where e: "a = Err e" "proof_refused e" by blast
      note refused = client_send_refused [OF sent [unfolded e(1)] e(2)]
      let ?ad = "ad\<lparr>ad_send := forget_token token' pc, ad_posted := sent\<rparr>"
      have "send_rounds tw fresh now body True ?ad = (r, ad')"
        using round token Ok sent e by simp
      note second = last_round [OF this]
      have renewed: "\<exists>i. token2 = ip_token i \<and> ((\<exists>t. refresh_proof (tw_proofs tw) t = Ok i) \<or>
          (\<exists>f. issue_app_verification (tw_proofs tw) f (ad_receiving_app ad) [pc_scope (ad_send ad)] = Ok i))"
        if "proof_token (tw_proofs tw) (fresh True) (ad_receiving_app ad) now (forget_token token' pc) = (Ok token2, pc2)" for token2 pc2
        using proof_token_renewed [OF that _ assms(2)] proof_token_Ok [OF token [unfolded Ok]] by metis
      have first: "refuses_proof tw (send_of body token')" using refused by blast
      from second show ?thesis
      proof (elim conjE disjE exE)
        assume "ad_posted ad' = ad_posted ?ad" "\<not> is_ok r"
        then show ?thesis using refused by (intro exI [of _ "[send_of body token']"]) auto
      next
        fix token2 pc2
        assume two: "proof_token (tw_proofs tw) (fresh True) (ad_receiving_app ?ad) now (ad_send ?ad) = (Ok token2, pc2)"
          and all: "\<forall>a. r = Ok a \<longrightarrow> ad_posted ad' = ad_posted ?ad @ [send_of body token2] \<and> confirms tw (ad_app_id ?ad) (send_of body token2) a"
        {
          assume "ad_posted ad' = ad_posted ?ad"
          then show ?thesis using refused all by (intro exI [of _ "[send_of body token']"]) auto
        next
          assume "ad_posted ad' = ad_posted ?ad @ [send_of body token2]"
          then show ?thesis using refused all first renewed [of token2 pc2] two
            by (intro exI [of _ "[send_of body token', send_of body token2]"]) auto
        }
      qed
    qed
  qed
qed

text \<open>C17: A send puts at most two requests on the network, each with exactly the bytes that were persisted, to
  the path for sends. There is a second one only when Ting answered the first with status 401 and one
  of its four codes for a bad proof (\<open>invalid_proof\<close>, \<open>proof_expired\<close>, \<open>proof_consumed\<close>,
  \<open>proof_revoked\<close>) in the body, and it carries a proof that was obtained after that refusal. A send
  succeeds only when the answer to the last request has status 200 or 202 and a body, read in full,
  that accepts the very key and mode the bytes carry; what the send returns is what that body says.\<close>

theorem a_refused_proof_is_renewed_once:
  assumes "adapter_send tw fresh now body ad = (r, ad')" and "0 \<le> now"
  shows "\<exists>ps. ad_posted ad' = ad_posted ad @ ps \<and> length ps \<le> 2 \<and>
    (\<forall>p \<in> set ps. \<exists>token. p = send_of body token) \<and>
    (length ps = 2 \<longrightarrow> refuses_proof tw (hd ps) \<and>
       (\<exists>i. List.last ps = send_of body (ip_token i) \<and>
          ((\<exists>t. refresh_proof (tw_proofs tw) t = Ok i) \<or>
           (\<exists>f. issue_app_verification (tw_proofs tw) f (ad_receiving_app ad) [pc_scope (ad_send ad)] = Ok i)))) \<and>
    (\<forall>a. r = Ok a \<longrightarrow> ps \<noteq> [] \<and> confirms tw (ad_app_id ad) (List.last ps) a)"
  by (rule adapter_send_posts [OF assms])

section \<open>Publications\<close>

lemma claimed_one:
  assumes "claim_ting new_lease 1 publish_lease clock db = Ok (cs, db1)" and "distinct (map ox_id (db_outbox db))"
  shows "cs = [] \<and> db_outbox db1 = db_outbox db \<and> (\<forall>r \<in> set (db_outbox db). \<not> due_send clock r) \<or>
    (\<exists>r \<in> set (db_outbox db). due_send clock r \<and> cs = [claim_of_row (lease_row new_lease 180 clock r)] \<and>
       db_outbox db1 = rows_update (\<lambda>q. ox_id q = ox_id r) (lease_row new_lease 180 clock) (db_outbox db))"
proof -
  note ok = claim_ting_Ok [OF assms(1)]
  have secs: "int publish_lease div seconds 1 = 180" by (simp add: publish_lease_def seconds_def)
  show ?thesis
  proof (cases "due_sends 1 clock db")
    case Nil
    have "length (due_sends 1 clock db) = min (length (filter (due_send clock) (db_outbox db))) 1"
      by (simp add: due_sends_def)
    with Nil have "filter (due_send clock) (db_outbox db) = []" by (simp add: min_def split: if_splits)
    then have "\<forall>r \<in> set (db_outbox db). \<not> due_send clock r" by (simp add: filter_empty_conv)
    with Nil ok show ?thesis by (simp add: rows_update_def)
  next
    case (Cons r rs)
    then have "length (r # rs) \<le> 1" by (simp add: due_sends_def flip: Cons)
    then have "due_sends 1 clock db = [r]" using Cons by simp
    with ok secs due_sendsD [of r 1 clock db] show ?thesis by (auto intro!: bexI [of _ r])
  qed
qed

text \<open>The row of a claim is the only one its lease is current for.\<close>

lemma update_leased:
  assumes "distinct (map ox_id rows)" and "r \<in> set rows" and "ox_id l = ox_id r"
    and "leased = rows_update (\<lambda>q. ox_id q = ox_id r) (\<lambda>_. l) rows" and "P l" and "\<And>q. P q \<Longrightarrow> ox_id q = ox_id r"
  shows "rows_update P f leased = rows_update (\<lambda>q. ox_id q = ox_id r) (\<lambda>_. f l) rows"
  using assms(3,5,6) unfolding assms(4) by (auto simp: rows_update_def)

lemma update_same_key:
  assumes "distinct (map ox_id rows)" and "r \<in> set rows"
  shows "rows_update (\<lambda>q. ox_id q = ox_id r) f rows = rows_update (\<lambda>q. ox_id q = ox_id r) (\<lambda>_. f r) rows"
  using same_key [OF assms(1) _ assms(2)] by (auto simp: rows_update_def)

definition settled :: "ting_claim \<Rightarrow> instant \<Rightarrow> outbox_row \<Rightarrow> outbox_row \<Rightarrow> outbox_row" where
  "settled c clock new l = (if current_lease c clock l then new else l)"

lemma settle_outbox:
  assumes "distinct (map ox_id (db_outbox db))" and "r \<in> set (db_outbox db)" and "ox_id l = ox_id r"
    and "db_outbox db1 = rows_update (\<lambda>q. ox_id q = ox_id r) (\<lambda>_. l) (db_outbox db)" and "tc_id c = ox_id r"
  shows "rows_update (current_lease c clock) f (db_outbox db1) =
    rows_update (\<lambda>q. ox_id q = ox_id r) (\<lambda>_. settled c clock (f l) l) (db_outbox db)"
proof (cases "current_lease c clock l")
  case True
  then show ?thesis
    using update_leased [where P = "current_lease c clock", OF assms(1,2,3,4) True] assms(5)
    by (auto simp: current_lease_def settled_def)
next
  case False
  then have "rows_update (current_lease c clock) f (db_outbox db1) = db_outbox db1"
    using assms(4,5) by (intro rows_update_id) (auto simp: set_rows_update current_lease_def split: if_splits)
  with False assms(4) show ?thesis by (simp add: settled_def)
qed

text \<open>What the result of a send makes of the leased row.\<close>

definition outcome_row :: "instant \<Rightarrow> outbox_row \<Rightarrow> (ting_acceptance, delivery_error) result \<Rightarrow> outbox_row" where
  "outcome_row clock l result =
     settled (claim_of_row l) clock
       (case result of
          Ok a \<Rightarrow> accept_row (ta_id a) (ta_silent a) clock l
        | Err e \<Rightarrow> (case failed_send (ox_attempts l) e of (f, d) \<Rightarrow>
            retry_row f (clock + seconds (min (as_secs d) 3600)) clock l)) l"

lemma safe_failures: "send_failure_as_str f \<in> set safe_error_codes"
  by (cases f) (simp_all add: safe_error_codes_def)

text \<open>A claimed send is under its lease until the lease or the send runs out.\<close>

definition under_lease :: "publish_times \<Rightarrow> outbox_row \<Rightarrow> instant \<Rightarrow> bool" where
  "under_lease at r t \<longleftrightarrow> t < pb_claimed at + seconds 180 \<and> t < ox_expires_at r"

lemma lease_current:
  assumes "due_send (pb_claimed at) r" and "l = lease_row new_lease 180 (pb_claimed at) r"
  shows "current_lease (claim_of_row l) t l \<longleftrightarrow> under_lease at r t"
  using assms by (auto simp: current_lease_def claim_of_row_def lease_row_def under_lease_def due_send_def)

lemma claim_publish: "\<exists>cs db1. claim_ting new_lease 1 publish_lease clock db = Ok (cs, db1) \<and> db1 = db\<lparr>db_outbox := db_outbox db1\<rparr>"
  by (simp add: claim_ting_def publish_lease_def seconds_def Let_def)

lemma publish_cases:
  assumes "publish_one tw new_lease fresh stopped at (db, ad) = (res, (db', ad'))"
    and "distinct (map ox_id (db_outbox db))"
  shows "res = Ok False \<and> (\<forall>r \<in> set (db_outbox db). \<not> due_send (pb_claimed at) r) \<and> db' = db \<and> ad' = ad \<or>
    res \<noteq> Ok False \<and> (\<exists>r \<in> set (db_outbox db). \<exists>l r'. due_send (pb_claimed at) r \<and> l = lease_row new_lease 180 (pb_claimed at) r \<and>
      db' = db\<lparr>db_outbox := rows_update (\<lambda>q. ox_id q = ox_id r) (\<lambda>_. r') (db_outbox db)\<rparr> \<and>
      (\<not> under_lease at r (pb_checked at) \<and> res = Ok True \<and> r' = l \<and> ad' = ad \<or>
       under_lease at r (pb_checked at) \<and>
       (\<exists>result. timed_send tw fresh stopped (pb_sent at) (ox_request_body r) ad = (result, ad') \<and>
         (if \<exists>a. result = Ok a \<and> \<not> valid_identifier (ta_id a) 255
          then r' = l \<and> \<not> is_ok res else r' = outcome_row (pb_recorded at) l result \<and> res = Ok True))))"
proof -
  obtain cs db1 where claim: "claim_ting new_lease 1 publish_lease (pb_claimed at) db = Ok (cs, db1)"
    and rest: "db1 = db\<lparr>db_outbox := db_outbox db1\<rparr>"
    using claim_publish by blast
  from claimed_one [OF claim assms(2)] show ?thesis
  proof (elim disjE bexE)
    assume none: "cs = [] \<and> db_outbox db1 = db_outbox db \<and> (\<forall>r \<in> set (db_outbox db). \<not> due_send (pb_claimed at) r)"
    then have "db1 = db" using rest by simp
    with none show ?thesis using assms(1) claim by (auto simp: publish_one_def)
  next
    fix r
    let ?l = "lease_row new_lease 180 (pb_claimed at) r"
    let ?c = "claim_of_row ?l"
    assume r: "r \<in> set (db_outbox db)" and one: "due_send (pb_claimed at) r \<and> cs = [?c] \<and>
      db_outbox db1 = rows_update (\<lambda>q. ox_id q = ox_id r) (lease_row new_lease 180 (pb_claimed at)) (db_outbox db)"
    then have db1: "db_outbox db1 = rows_update (\<lambda>q. ox_id q = ox_id r) (\<lambda>_. ?l) (db_outbox db)"
      using update_same_key [OF assms(2) r] by simp
    have leased: "db1 = db\<lparr>db_outbox := rows_update (\<lambda>q. ox_id q = ox_id r) (\<lambda>_. ?l) (db_outbox db)\<rparr>"
      using rest unfolding db1 [symmetric] .
    have id: "ox_id ?l = ox_id r" "tc_id ?c = ox_id r" "tc_request_body ?c = ox_request_body r" "tc_attempts ?c = ox_attempts ?l"
      by (simp_all add: lease_row_def claim_of_row_def)
    note settle = settle_outbox [OF assms(2) r id(1) db1 id(2)]
    have current: "ting_claim_is_current ?c (pb_checked at) db1 \<longleftrightarrow> under_lease at r (pb_checked at)"
    proof -
      have "ting_claim_is_current ?c (pb_checked at) db1 \<longleftrightarrow> current_lease ?c (pb_checked at) ?l"
        using r id(1,2) by (auto simp: ting_claim_is_current_def list_ex_iff db1 set_rows_update current_lease_def split: if_splits)
      also have "\<dots> \<longleftrightarrow> under_lease at r (pb_checked at)" using lease_current one by blast
      finally show ?thesis .
    qed
    have settled: "db1\<lparr>db_outbox := rows_update (current_lease ?c clock) f (db_outbox db1)\<rparr> =
        db\<lparr>db_outbox := rows_update (\<lambda>q. ox_id q = ox_id r) (\<lambda>_. settled ?c clock (f ?l) ?l) (db_outbox db)\<rparr>" for clock f
      unfolding settle by (simp add: leased)
    have "res \<noteq> Ok False \<and> (\<exists>r'. db' = db\<lparr>db_outbox := rows_update (\<lambda>q. ox_id q = ox_id r) (\<lambda>_. r') (db_outbox db)\<rparr> \<and>
      (\<not> under_lease at r (pb_checked at) \<and> res = Ok True \<and> r' = ?l \<and> ad' = ad \<or>
       under_lease at r (pb_checked at) \<and>
       (\<exists>result. timed_send tw fresh stopped (pb_sent at) (ox_request_body r) ad = (result, ad') \<and>
         (if \<exists>a. result = Ok a \<and> \<not> valid_identifier (ta_id a) 255
          then r' = ?l \<and> \<not> is_ok res else r' = outcome_row (pb_recorded at) ?l result \<and> res = Ok True))))"
    proof (cases "under_lease at r (pb_checked at)")
      case False
      then have "res = Ok True" "db' = db1" "ad' = ad" using assms(1) claim one current by (auto simp: publish_one_def)
      with leased False show ?thesis by auto
    next
      case True
      obtain result ad1 where sent: "timed_send tw fresh stopped (pb_sent at) (ox_request_body r) ad = (result, ad1)"
        by fastforce
      note run = assms(1) [unfolded publish_one_def prod.case claim result.case]
      show ?thesis
      proof (cases result)
        case (Ok a)
        show ?thesis
        proof (cases "valid_identifier (ta_id a) 255")
          case valid: True
          then have "res = Ok True" "ad' = ad1"
            "db' = db1\<lparr>db_outbox := rows_update (current_lease ?c (pb_recorded at)) (accept_row (ta_id a) (ta_silent a) (pb_recorded at)) (db_outbox db1)\<rparr>"
            using run one True current sent id(3) Ok by (auto simp: complete_ting_def Let_def)
          with Ok valid sent True show ?thesis unfolding settled by (auto simp: outcome_row_def)
        next
          case False
          then have "\<not> is_ok res" "ad' = ad1" "db' = db1"
            using run one True current sent id(3) Ok by (auto simp: complete_ting_def Let_def)
          with Ok False sent True leased show ?thesis by (intro conjI exI [of _ ?l]) auto
        qed
      next
        case (Err e)
        obtain f d where fail: "failed_send (tc_attempts ?c) e = (f, d)" by fastforce
        with Err have "res = Ok True" "ad' = ad1"
          "db' = db1\<lparr>db_outbox := rows_update (current_lease ?c (pb_recorded at))
             (retry_row f (pb_recorded at + seconds (min (as_secs d) 3600)) (pb_recorded at)) (db_outbox db1)\<rparr>"
          using run one True current sent id(3)
          by (auto simp: retry_send_def retry_ting_def Let_def result_simps safe_failures)
        with Err sent True fail show ?thesis unfolding settled by (auto simp: outcome_row_def id(4))
      qed
    qed
    with r one show ?thesis by blast
  qed
qed

text \<open>
  The requests of a send that ran to its end: at most two, each with the stored bytes, the last one
  confirmed if the send succeeded. And what is recorded of a claimed send: accepted as the send
  returned, or released with the code of the failure until its next attempt.
\<close>

definition posted_for :: "ting_world \<Rightarrow> ting_adapter \<Rightarrow> outbox_row \<Rightarrow> (ting_acceptance, delivery_error) result \<Rightarrow> ting_adapter \<Rightarrow> bool" where
  "posted_for tw ad r result ad' \<longleftrightarrow>
     (\<exists>ps. ad_posted ad' = ad_posted ad @ ps \<and> length ps \<le> 2 \<and> (\<forall>p \<in> set ps. po_body p = ox_request_body r) \<and>
        (\<forall>a. result = Ok a \<longrightarrow> ps \<noteq> [] \<and> confirms tw (ad_app_id ad) (List.last ps) a))"

definition recorded_send :: "instant \<Rightarrow> outbox_row \<Rightarrow> (ting_acceptance, delivery_error) result \<Rightarrow> outbox_row \<Rightarrow> bool" where
  "recorded_send clock r result r' \<longleftrightarrow>
     ox_attempts r' = ox_attempts r + 1 \<and> ox_lease_id r' = None \<and> ox_lease_until r' = None \<and>
     (case result of
        Ok a \<Rightarrow> ox_accepted_at r' = Some clock \<and> ox_ting_id r' = Some (ta_id a) \<and> ox_silent r' = Some (ta_silent a) \<and>
          ox_last_error_code r' = None
      | Err e \<Rightarrow>
          (case failed_send (ox_attempts r + 1) e of (f, delay) \<Rightarrow>
             ox_accepted_at r' = None \<and> ox_last_error_code r' = Some (lit (send_failure_as_str f)) \<and>
             ox_next_attempt_at r' = min (ox_expires_at r) (max clock (clock + seconds (min (as_secs delay) 3600)))))"

lemma timed_send_posts:
  assumes "timed_send tw fresh stopped now (ox_request_body r) ad = (result, ad')" and "0 \<le> now"
  shows "(\<forall>ad1. stopped = Some ad1 \<longrightarrow> result = Err (TingFailed Transport) \<and> ad' = ad1) \<and>
    (stopped = None \<longrightarrow> posted_for tw ad r result ad')"
proof (cases stopped)
  case None
  then have "adapter_send tw fresh now (ox_request_body r) ad = (result, ad')" using assms(1) by (simp add: timed_send_def)
  from adapter_send_posts [OF this assms(2)] obtain ps where "ad_posted ad' = ad_posted ad @ ps" "length ps \<le> 2"
    "\<forall>p \<in> set ps. \<exists>token. p = send_of (ox_request_body r) token"
    "\<forall>a. result = Ok a \<longrightarrow> ps \<noteq> [] \<and> confirms tw (ad_app_id ad) (List.last ps) a" by blast
  then have "posted_for tw ad r result ad'" unfolding posted_for_def by (intro exI [of _ ps]) (auto simp: send_of_def)
  with None show ?thesis by simp
qed (use assms(1) in \<open>simp add: timed_send_def\<close>)

lemma outcome_row_recorded:
  assumes "due_send (pb_claimed at) r" and "l = lease_row new_lease 180 (pb_claimed at) r"
  shows "send_evolves r (outcome_row clock l result)"
    and "under_lease at r clock \<Longrightarrow> recorded_send clock r result (outcome_row clock l result)"
    and "\<not> under_lease at r clock \<Longrightarrow> outcome_row clock l result = l"
  using assms(1) lease_current [OF assms, of clock]
  by (auto simp: outcome_row_def settled_def recorded_send_def accept_row_def retry_row_def assms(2) lease_row_def due_send_def
      send_evolves_def split: result.splits prod.splits)

text \<open>C4: A publication records what happened to the send it claimed and touches nothing else. It reports nothing
  to do, and changes nothing, exactly when no send is due. Otherwise it claims one due send, for 180
  seconds: its row is the only thing of the tables that changes, and its content stays as it is. When
  the lease or the send has run out before the send is made, nothing is sent. Otherwise the send is
  made, or is cut off after its sixty seconds. When the lease or the send has run out before the
  result is recorded, the row stays under the old lease. Otherwise a send that succeeded is recorded
  as accepted, with the identifier and the silence that it returned, and a failed one is released
  with the code of its failure, due again after the delay for that failure, at most an hour, and no
  later than it expires; a send that was cut off counts as a failed transport. The publication fails
  only when the identifier that Ting confirmed does not fit its column, and leaves the row under its
  lease. A send that is not cut off makes at most two requests, each with exactly the bytes stored
  for it, and succeeds only when Ting confirmed these bytes and said what is returned (C17).\<close>

theorem a_publication_records_its_send:
  assumes "publish_one tw new_lease fresh stopped at (db, ad) = (res, (db', ad'))"
    and "distinct (map ox_id (db_outbox db))" and "0 \<le> pb_sent at"
  shows "(res = Ok False \<longleftrightarrow> (\<forall>r \<in> set (db_outbox db). \<not> due_send (pb_claimed at) r)) \<and>
    (res = Ok False \<longrightarrow> db' = db \<and> ad' = ad) \<and>
    (res \<noteq> Ok False \<longrightarrow> (\<exists>r r' l. r \<in> set (db_outbox db) \<and> due_send (pb_claimed at) r \<and>
       l = lease_row new_lease 180 (pb_claimed at) r \<and> send_evolves r r' \<and>
       db' = db\<lparr>db_outbox := rows_update (\<lambda>q. ox_id q = ox_id r) (\<lambda>_. r') (db_outbox db)\<rparr> \<and>
       (\<not> under_lease at r (pb_checked at) \<longrightarrow> res = Ok True \<and> ad' = ad \<and> r' = l) \<and>
       (under_lease at r (pb_checked at) \<longrightarrow>
         (\<exists>result. timed_send tw fresh stopped (pb_sent at) (ox_request_body r) ad = (result, ad') \<and>
           (\<forall>ad1. stopped = Some ad1 \<longrightarrow> result = Err (TingFailed Transport) \<and> ad' = ad1) \<and>
           (stopped = None \<longrightarrow> posted_for tw ad r result ad') \<and>
           (if \<exists>a. result = Ok a \<and> \<not> valid_identifier (ta_id a) 255 then \<not> is_ok res \<and> r' = l
            else res = Ok True \<and>
              (if under_lease at r (pb_recorded at) then recorded_send (pb_recorded at) r result r' else r' = l))))))"
proof (cases "res = Ok False")
  case True
  then have "(\<forall>r \<in> set (db_outbox db). \<not> due_send (pb_claimed at) r) \<and> db' = db \<and> ad' = ad"
    using publish_cases [OF assms(1,2)] by blast
  with True show ?thesis by simp
next
  case False
  with publish_cases [OF assms(1,2)] obtain r l r' where r: "r \<in> set (db_outbox db)" "due_send (pb_claimed at) r"
      and l: "l = lease_row new_lease 180 (pb_claimed at) r"
      and db': "db' = db\<lparr>db_outbox := rows_update (\<lambda>q. ox_id q = ox_id r) (\<lambda>_. r') (db_outbox db)\<rparr>"
      and either: "\<not> under_lease at r (pb_checked at) \<and> res = Ok True \<and> r' = l \<and> ad' = ad \<or>
       under_lease at r (pb_checked at) \<and>
       (\<exists>result. timed_send tw fresh stopped (pb_sent at) (ox_request_body r) ad = (result, ad') \<and>
         (if \<exists>a. result = Ok a \<and> \<not> valid_identifier (ta_id a) 255
          then r' = l \<and> \<not> is_ok res else r' = outcome_row (pb_recorded at) l result \<and> res = Ok True))"
    by blast
  note outcome = outcome_row_recorded [OF r(2) l, of "pb_recorded at"]
  have "send_evolves r l" using r(2) by (simp add: l send_evolves_def lease_row_def due_send_def)
  then have evolves: "send_evolves r r'" using either outcome(1) by (auto split: if_splits)
  have sent: "\<exists>result. timed_send tw fresh stopped (pb_sent at) (ox_request_body r) ad = (result, ad') \<and>
           (\<forall>ad1. stopped = Some ad1 \<longrightarrow> result = Err (TingFailed Transport) \<and> ad' = ad1) \<and>
           (stopped = None \<longrightarrow> posted_for tw ad r result ad') \<and>
           (if \<exists>a. result = Ok a \<and> \<not> valid_identifier (ta_id a) 255 then \<not> is_ok res \<and> r' = l
            else res = Ok True \<and>
              (if under_lease at r (pb_recorded at) then recorded_send (pb_recorded at) r result r' else r' = l))"
    if "under_lease at r (pb_checked at)"
  proof -
    from either that obtain result where sent: "timed_send tw fresh stopped (pb_sent at) (ox_request_body r) ad = (result, ad')"
      and row: "if \<exists>a. result = Ok a \<and> \<not> valid_identifier (ta_id a) 255
          then r' = l \<and> \<not> is_ok res else r' = outcome_row (pb_recorded at) l result \<and> res = Ok True" by blast
    with timed_send_posts [OF sent assms(3)] outcome(2,3) [of result] show ?thesis
      by (intro exI [of _ result]) (simp split: if_splits)
  qed
  from False r l db' evolves either sent show ?thesis by blast
qed

text \<open>C40: Ting may confirm a send with an identifier that the outbox refuses. The client accepts an identifier of
  at most 255 bytes without control characters, the outbox one of visible ASCII characters: after such
  an answer the publication fails, the acceptance is not recorded, and the send is due again as soon as
  its lease ends, although Ting holds it.\<close>

theorem confirmed_sends_can_go_unrecorded:
  assumes "claim_ting new_lease 1 publish_lease (pb_claimed at) db = Ok ([c], db1)"
    and "ting_claim_is_current c (pb_checked at) db1" and "distinct (map ox_id (db_outbox db))"
    and "timed_send tw fresh stopped (pb_sent at) (tc_request_body c) ad = (Ok a, ad')"
    and "\<not> valid_identifier (ta_id a) 255"
  shows "publish_one tw new_lease fresh stopped at (db, ad) =
      (Err (InvalidArgument ''ting_id'' ''must be a nonempty identifier of at most 255 bytes''), (db1, ad')) \<and>
    (\<exists>r \<in> set (db_outbox db1). ox_id r = tc_id c \<and> ox_accepted_at r = None \<and>
       (\<forall>t. tc_lease_until c \<le> t \<and> t < tc_expires_at c \<longrightarrow> due_send t r))"
proof (intro conjI)
  show "publish_one tw new_lease fresh stopped at (db, ad) =
      (Err (InvalidArgument ''ting_id'' ''must be a nonempty identifier of at most 255 bytes''), (db1, ad'))"
    using assms by (simp add: publish_one_def complete_ting_def Let_def)
  obtain r where r: "r \<in> set (db_outbox db)" "due_send (pb_claimed at) r"
    and c: "c = claim_of_row (lease_row new_lease 180 (pb_claimed at) r)"
    and db1: "db_outbox db1 = rows_update (\<lambda>q. ox_id q = ox_id r) (lease_row new_lease 180 (pb_claimed at)) (db_outbox db)"
    using claimed_one [OF assms(1,3)] by auto
  let ?l = "lease_row new_lease 180 (pb_claimed at) r"
  have "?l \<in> set (db_outbox db1)" using r(1) by (auto simp: db1 set_rows_update)
  moreover have "ox_id ?l = tc_id c \<and> ox_accepted_at ?l = None \<and>
      (\<forall>t. tc_lease_until c \<le> t \<and> t < tc_expires_at c \<longrightarrow> due_send t ?l)"
    using r(2) by (auto simp: c claim_of_row_def lease_row_def due_send_def seconds_def)
  ultimately show "\<exists>r \<in> set (db_outbox db1). ox_id r = tc_id c \<and> ox_accepted_at r = None \<and>
       (\<forall>t. tc_lease_until c \<le> t \<and> t < tc_expires_at c \<longrightarrow> due_send t r)" by blast
qed

section \<open>Witnesses\<close>

text \<open>A first proof that Ting refuses, its renewal, and an acceptance with a given identifier.\<close>

definition demo_wire :: "string \<Rightarrow> wire_crates" where
  "demo_wire i =
     \<lparr>wi_send = (\<lambda>_. Some \<lparr>sq_type = lit ''hook.webhook.received'', sq_recipient = \<lparr>tr_uuid = lit ''8HV'', tr_id = None\<rparr>,
        sq_key = lit ''k'', sq_delivery = Ordinary\<rparr>),
      wi_acceptance = (\<lambda>_. Some \<lparr>ar_id = lit i, ar_key = lit ''k'', ar_status = lit ''accepted'', ar_silent = False,
        ar_delivery = Ordinary, ar_created_at = lit ''Z''\<rparr>),
      wi_subscription = (\<lambda>_. None), wi_detail = (\<lambda>_. None),
      wi_json_parse = (\<lambda>_. Some (JObject [(lit ''error'', JObject [(lit ''code'', JString (lit ''proof_expired''))])])),
      wi_json_vec = (\<lambda>_. None), wi_rfc3339 = (\<lambda>_. Some (0, 0))\<rparr>"

definition demo_proof :: "string \<Rightarrow> issued_proof" where
  "demo_proof token = \<lparr>ip_token = lit token, ip_refresh_token = Some (lit ''r''), ip_expires_at = None\<rparr>"

definition demo_ting :: "string \<Rightarrow> ting_world" where
  "demo_ting i =
     \<lparr>tw_wire = demo_wire i,
      tw_net = (\<lambda>p. Some \<lparr>hp_status = (if po_authorization p = lit ''Proof old'' then 401 else 202),
        hp_retry_after = None, hp_content_length = None, hp_chunks = []\<rparr>),
      tw_proofs = \<lparr>ps_user = (\<lambda>_ _. Ok (demo_proof ''old'')), ps_app = (\<lambda>_ _. Ok (demo_proof ''old'')),
        ps_refresh = (\<lambda>_. Ok (demo_proof ''new''))\<rparr>\<rparr>"

definition demo_adapter :: ting_adapter where
  "demo_adapter = ting_adapter_new (lit ''hook'') (lit ''ting'')"

definition demo_acceptance :: "string \<Rightarrow> ting_acceptance" where
  "demo_acceptance i = \<lparr>ta_id = lit i, ta_key = lit ''k'', ta_silent = False, ta_delivery = Ordinary, ta_created_at = 0\<rparr>"

definition demo_sent :: ting_adapter where
  "demo_sent = demo_adapter\<lparr>
     ad_send := (ad_send demo_adapter)\<lparr>pc_proof := Some (cache (demo_proof ''new''))\<rparr>,
     ad_posted := [send_of [123, 125] (lit ''old''), send_of [123, 125] (lit ''new'')]\<rparr>"

lemma demo_texts: "is_identifier (lit ''k'') 200" "is_identifier (lit ''8HV'') 64"
    "is_identifier (lit ''msg'') 255" "is_identifier (lit ''a b'') 255"
    "valid_identifier (lit ''msg'') 255" "\<not> valid_identifier (lit ''a b'') 255"
    "lit ''hook'' @ event_type_suffix = lit ''hook.webhook.received''" "List.last (lit ''Z'') = 90"
  by code_simp+

lemma demo_request: "send_request (demo_wire i) (lit ''hook'') [123, 125] = Ok
    \<lparr>sq_type = lit ''hook.webhook.received'', sq_recipient = \<lparr>tr_uuid = lit ''8HV'', tr_id = None\<rparr>,
     sq_key = lit ''k'', sq_delivery = Ordinary\<rparr>"
  by (simp add: send_request_def demo_wire_def max_ting_send_bytes_def demo_texts)

lemma demo_wire_simps:
  "wi_acceptance (demo_wire i) = (\<lambda>_. Some \<lparr>acceptance_response.ar_id = lit i, ar_key = lit ''k'', ar_status = lit ''accepted'',
     ar_silent = False, ar_delivery = Ordinary, ar_created_at = lit ''Z''\<rparr>)"
  "wi_rfc3339 (demo_wire i) = (\<lambda>_. Some (0, 0))"
  "wi_json_parse (demo_wire i) = (\<lambda>_. Some (JObject [(lit ''error'', JObject [(lit ''code'', JString (lit ''proof_expired''))])]))"
  "tw_wire (demo_ting i) = demo_wire i"
  "tw_net (demo_ting i) = (\<lambda>p. Some \<lparr>hp_status = (if po_authorization p = lit ''Proof old'' then 401 else 202),
     hp_retry_after = None, hp_content_length = None, hp_chunks = []\<rparr>)"
  by (simp_all add: demo_wire_def demo_ting_def)

definition demo_half :: ting_adapter where
  "demo_half = demo_adapter\<lparr>
     ad_send := (ad_send demo_adapter)\<lparr>pc_proof := Some ((cache (demo_proof ''old''))\<lparr>cp_expires_at := Some 0\<rparr>)\<rparr>,
     ad_posted := [send_of [123, 125] (lit ''old'')]\<rparr>"

lemma demo_first: "client_send (demo_wire i) (tw_net (demo_ting i)) (lit ''old'') (lit ''hook'') [123, 125] sent =
    (Err (TingRejected 401 ''proof_expired'' True None), sent @ [send_of [123, 125] (lit ''old'')])"
  by (simp add: client_send_def demo_request posted_then_def post_def Let_def demo_wire_simps answered_def rejected_def
      rejection_code_def json_get_def known_rejections_def retry_after_of_def send_of_def lit_append [symmetric])

lemma demo_second:
  assumes "is_identifier (lit i) 255"
  shows "client_send (demo_wire i) (tw_net (demo_ting i)) (lit ''new'') (lit ''hook'') [123, 125] sent =
    (Ok (demo_acceptance i), sent @ [send_of [123, 125] (lit ''new'')])"
  using assms
  by (simp add: client_send_def demo_request posted_then_def post_def Let_def demo_wire_simps answered_def
      decode_acceptance_def send_of_def demo_acceptance_def demo_texts lit_append [symmetric])

lemma demo_adapter_sends:
  assumes "is_identifier (lit i) 255"
  shows "adapter_send (demo_ting i) (\<lambda>_. []) 22 [123, 125] demo_adapter = (Ok (demo_acceptance i), demo_sent)"
proof -
  have old: "proof_token (tw_proofs (demo_ting i)) [] (lit ''ting'') 22 (ad_send demo_adapter) =
      (Ok (lit ''old''), (ad_send demo_adapter)\<lparr>pc_proof := Some (cache (demo_proof ''old''))\<rparr>)"
    by (simp add: demo_adapter_def ting_adapter_new_def proof_cache_new_def proof_token_def cached_token_def obtain_proof_def
        issue_new_def issue_app_verification_def keep_proof_def cache_def demo_ting_def demo_proof_def)
  have new: "proof_token (tw_proofs (demo_ting i)) [] (lit ''ting'') 22 (ad_send demo_half) =
      (Ok (lit ''new''), ad_send demo_sent)"
    by (simp add: demo_half_def demo_sent_def demo_adapter_def ting_adapter_new_def proof_cache_new_def proof_token_def
        cached_token_def proof_fresh_def renew_before_expiry_def seconds_def obtain_proof_def refresh_proof_def keep_proof_def
        cache_def demo_ting_def demo_proof_def)
  have names: "ad_app_id demo_adapter = lit ''hook''" "ad_receiving_app demo_adapter = lit ''ting''" "ad_posted demo_adapter = []"
      "ad_app_id demo_half = lit ''hook''" "ad_receiving_app demo_half = lit ''ting''"
      "ad_posted demo_half = [send_of [123, 125] (lit ''old'')]"
    by (simp_all add: demo_half_def demo_adapter_def ting_adapter_new_def)
  have half: "demo_adapter\<lparr>ad_send := forget_token (lit ''old'') ((ad_send demo_adapter)\<lparr>pc_proof := Some (cache (demo_proof ''old''))\<rparr>),
      ad_posted := [send_of [123, 125] (lit ''old'')]\<rparr> = demo_half"
    by (simp add: demo_half_def forget_token_def cache_def demo_proof_def)
  have "send_rounds (demo_ting i) (\<lambda>_. []) 22 [123, 125] True demo_half = (Ok (demo_acceptance i), demo_sent)"
    unfolding send_rounds.simps [of _ _ _ _ True demo_half]
    by (simp add: names new demo_wire_simps(4) demo_second [OF assms]) (simp add: demo_half_def demo_sent_def)
  then show ?thesis
    unfolding adapter_send_def send_rounds.simps [of _ _ _ _ False demo_adapter]
    by (simp add: names old demo_wire_simps(4) demo_first half)
qed

theorem a_failing_service_is_asked_once_per_pause_witness:
  "\<exists>pc. \<forall>ps fresh app. proof_token ps fresh app (seconds 10) pc = (Err (ProofPaused (seconds 20) (lit ''Silicon Accounts is unavailable: '')), pc)"
proof -
  let ?ps = "\<lparr>ps_user = (\<lambda>_ _. Err \<lparr>ce_status = None, ce_code = [], ce_message = [], ce_token = None\<rparr>),
      ps_app = (\<lambda>_ _. Err \<lparr>ce_status = None, ce_code = [], ce_message = [], ce_token = None\<rparr>),
      ps_refresh = (\<lambda>_. Err \<lparr>ce_status = None, ce_code = [], ce_message = [], ce_token = None\<rparr>)\<rparr>"
  obtain pc where "proof_token ?ps [] [] 0 (proof_cache_new send_scope) = (Err (ProofFailed (AccountsUnavailable [])), pc)"
      "pc_failures pc = 1"
    by (simp add: proof_token_def proof_cache_new_def cached_token_def obtain_proof_def issue_new_def
        issue_app_verification_def accounts_error_of_def Let_def saturating_inc_def)
  with a_failing_service_is_asked_once_per_pause [OF this(1), of "seconds 10"] show ?thesis
    by (auto simp: proof_pause_def first_proof_pause_def max_proof_pause_def seconds_def)
qed

lemma demo_confirms:
  "confirms (demo_ting i) app p a \<Longrightarrow> ta_id a = lit i"
  by (auto simp: confirms_def demo_wire_simps)

theorem a_refused_proof_is_renewed_once_witness:
  "\<exists>p q. ad_posted demo_sent = ad_posted demo_adapter @ [p, q] \<and> refuses_proof (demo_ting ''msg'') p \<and>
     q = send_of [123, 125] (lit ''new'') \<and> confirms (demo_ting ''msg'') (lit ''hook'') q (demo_acceptance ''msg'')"
proof -
  have posted: "ad_posted demo_sent = ad_posted demo_adapter @ [send_of [123, 125] (lit ''old''), send_of [123, 125] (lit ''new'')]"
    by (simp add: demo_sent_def demo_adapter_def ting_adapter_new_def)
  have "ad_app_id demo_adapter = lit ''hook''" by (simp add: demo_adapter_def ting_adapter_new_def)
  with a_refused_proof_is_renewed_once [OF demo_adapter_sends [OF demo_texts(3)]] posted show ?thesis by force
qed

definition demo_times :: publish_times where
  "demo_times = \<lparr>pb_claimed = 20, pb_checked = 21, pb_sent = 22, pb_recorded = 23\<rparr>"

lemma demo_publish_claimed:
  "claim_ting (\<lambda>_. 9) 1 publish_lease 20 demo_outbox = Ok ([claim_of_row (lease_row (\<lambda>_. 9) 180 20 demo_send)],
     demo_outbox\<lparr>db_outbox := [lease_row (\<lambda>_. 9) 180 20 demo_send]\<rparr>)"
  by (simp add: claim_ting_def publish_lease_def seconds_def Let_def due_sends_def due_send_def rows_update_def demo_outbox_def demo_send_def)

lemma demo_outbox_distinct: "distinct (map ox_id (db_outbox demo_outbox))"
  by (simp add: demo_outbox_def)

lemma demo_publish_current:
  "ting_claim_is_current (claim_of_row (lease_row (\<lambda>_. 9) 180 20 demo_send)) 21
     (demo_outbox\<lparr>db_outbox := [lease_row (\<lambda>_. 9) 180 20 demo_send]\<rparr>)"
  by (simp add: ting_claim_is_current_def current_lease_def claim_of_row_def lease_row_def demo_send_def seconds_def)

text \<open>The send of the outbox is claimed, refused once, confirmed and recorded; another run cuts it off.\<close>

lemma demo_publish_row: "r \<in> set (db_outbox demo_outbox) \<longleftrightarrow> r = demo_send"
  by (simp add: demo_outbox_def)

lemma demo_under_lease: "under_lease demo_times demo_send 21" "under_lease demo_times demo_send 23" "due_send 20 demo_send"
  by (simp_all add: under_lease_def demo_times_def demo_send_def seconds_def due_send_def)

theorem a_publication_records_its_send_witness:
  "\<exists>db' r' cut s'. publish_one (demo_ting ''msg'') (\<lambda>_. 9) (\<lambda>_. []) None demo_times (demo_outbox, demo_adapter) = (Ok True, (db', demo_sent)) \<and>
     db_outbox db' = [r'] \<and> ox_accepted_at r' = Some 23 \<and> ox_ting_id r' = Some (lit ''msg'') \<and>
     publish_one (demo_ting ''msg'') (\<lambda>_. 9) (\<lambda>_. []) (Some demo_half) demo_times (demo_outbox, demo_adapter) = (Ok True, (cut, demo_half)) \<and>
     db_outbox cut = [s'] \<and> ox_accepted_at s' = None \<and> ox_last_error_code s' = Some (lit ''transport_unavailable'')"
proof -
  let ?c = "claim_of_row (lease_row (\<lambda>_. 9) 180 20 demo_send)"
  let ?run = "\<lambda>stopped. publish_one (demo_ting ''msg'') (\<lambda>_. 9) (\<lambda>_. []) stopped demo_times (demo_outbox, demo_adapter)"
  have times: "pb_claimed demo_times = 20" "pb_checked demo_times = 21" "pb_sent demo_times = 22" "pb_recorded demo_times = 23"
    by (simp_all add: demo_times_def)
  have body: "tc_request_body ?c = [123, 125]" "ox_request_body demo_send = [123, 125]" "demo_send \<in> set (db_outbox demo_outbox)"
    by (simp_all add: claim_of_row_def lease_row_def demo_send_def demo_outbox_def)
  have valid: "valid_identifier (ta_id (demo_acceptance ''msg'')) 255" by (simp add: demo_acceptance_def demo_texts)
  obtain res db' ad' where one: "?run None = (res, (db', ad'))" by (metis prod.collapse)
  obtain res2 cut ad2 where two: "?run (Some demo_half) = (res2, (cut, ad2))" by (metis prod.collapse)
  have "0 \<le> pb_sent demo_times" by (simp add: times)
  note records = a_publication_records_its_send [OF _ demo_outbox_distinct this]
  have first: "timed_send (demo_ting ''msg'') (\<lambda>_. []) None 22 [123, 125] demo_adapter = (Ok (demo_acceptance ''msg''), demo_sent)"
    using demo_adapter_sends [OF demo_texts(3)] by (simp add: timed_send_def)
  have "res = Ok True \<and> ad' = demo_sent \<and> (\<exists>r'. db_outbox db' = [r'] \<and> ox_accepted_at r' = Some 23 \<and> ox_ting_id r' = Some (lit ''msg''))"
  proof -
    have "res \<noteq> Ok False" using records [OF one] demo_under_lease(3) body(3) times by auto
    then obtain r' where "db' = demo_outbox\<lparr>db_outbox := rows_update (\<lambda>q. ox_id q = ox_id demo_send) (\<lambda>_. r') (db_outbox demo_outbox)\<rparr>"
      "ad' = demo_sent" "res = Ok True" "recorded_send 23 demo_send (Ok (demo_acceptance ''msg'')) r'"
      using records [OF one] demo_under_lease valid first body(2) times by (auto simp: demo_publish_row)
    then show ?thesis by (auto simp: recorded_send_def demo_acceptance_def rows_update_def demo_outbox_def)
  qed
  moreover have "res2 = Ok True \<and> ad2 = demo_half \<and> (\<exists>s'. db_outbox cut = [s'] \<and> ox_accepted_at s' = None \<and>
      ox_last_error_code s' = Some (lit ''transport_unavailable''))"
  proof -
    have "res2 \<noteq> Ok False" using records [OF two] demo_under_lease(3) body(3) times by auto
    then obtain r' where "cut = demo_outbox\<lparr>db_outbox := rows_update (\<lambda>q. ox_id q = ox_id demo_send) (\<lambda>_. r') (db_outbox demo_outbox)\<rparr>"
      "ad2 = demo_half" "res2 = Ok True" "recorded_send 23 demo_send (Err (TingFailed Transport)) r'"
      using records [OF two] demo_under_lease body(2) times by (auto simp: demo_publish_row)
    then show ?thesis by (auto simp: recorded_send_def failed_send_def rows_update_def demo_outbox_def)
  qed
  ultimately show ?thesis using one two by auto
qed

theorem confirmed_sends_can_go_unrecorded_witness:
  "\<exists>e s. publish_one (demo_ting ''a b'') (\<lambda>_. 9) (\<lambda>_. []) None demo_times (demo_outbox, demo_adapter) = (Err e, s)"
proof -
  let ?c = "claim_of_row (lease_row (\<lambda>_. 9) 180 20 demo_send)"
  have "tc_request_body ?c = [123, 125]" by (simp add: claim_of_row_def lease_row_def demo_send_def)
  then have sent: "timed_send (demo_ting ''a b'') (\<lambda>_. []) None (pb_sent demo_times) (tc_request_body ?c) demo_adapter =
      (Ok (demo_acceptance ''a b''), demo_sent)"
    using demo_adapter_sends [OF demo_texts(4)] by (simp add: timed_send_def demo_times_def)
  have "claim_ting (\<lambda>_. 9) 1 publish_lease (pb_claimed demo_times) demo_outbox =
      Ok ([?c], demo_outbox\<lparr>db_outbox := [lease_row (\<lambda>_. 9) 180 20 demo_send]\<rparr>)"
    and "ting_claim_is_current ?c (pb_checked demo_times) (demo_outbox\<lparr>db_outbox := [lease_row (\<lambda>_. 9) 180 20 demo_send]\<rparr>)"
    using demo_publish_claimed demo_publish_current by (simp_all add: demo_times_def)
  moreover have "\<not> valid_identifier (ta_id (demo_acceptance ''a b'')) 255" by (simp add: demo_acceptance_def demo_texts)
  ultimately have "publish_one (demo_ting ''a b'') (\<lambda>_. 9) (\<lambda>_. []) None demo_times (demo_outbox, demo_adapter) =
      (Err (InvalidArgument ''ting_id'' ''must be a nonempty identifier of at most 255 bytes''),
       (demo_outbox\<lparr>db_outbox := [lease_row (\<lambda>_. 9) 180 20 demo_send]\<rparr>, demo_sent))"
    using confirmed_sends_can_go_unrecorded [OF _ _ demo_outbox_distinct sent] by blast
  then show ?thesis by blast
qed

end
