(* ===== verification/Spec2Isabelle.thy ===== *)
theory Spec2Isabelle
  imports EvalProps Crypto Policy HookStoreProps AccountsProps SystemProps OutboxProps IngressProps HistoryProps
    HookUseCaseProps AccessProps DeliveryProps
begin

text \<open>
  A verification library for Silicon Hook, a service that gives AI agents (Silicons) webhook
  endpoints: a provider posts to an endpoint, the service captures the request, checks its signature
  with an expression the owner wrote, stores it in the Silicon's stream, and announces it through the
  notification service Ting. People (Carbons) and Silicons manage the endpoints with access tokens of
  Silicon Accounts. Paths below are relative to \<open>src/src/\<close>.

  \<^bold>\<open>How the parts interact.\<close> A request enters through \<open>application/ingress.rs\<close>, which routes it
  (\<open>infrastructure/postgres/hooks.rs\<close>), asks the block table about its address
  (\<open>postgres/safety.rs\<close>), captures it (\<open>domain/request.rs\<close>), verifies it (\<open>domain/signature/\<close>) and
  either stores an event with its queued sends in one transaction (\<open>postgres/events.rs\<close>,
  \<open>postgres/ting.rs\<close>, \<open>delivery/subscriptions.rs\<close>) or records a blocked request and a strike. The
  publisher (\<open>delivery/publisher.rs\<close>) leases queued sends and hands their bytes to the adapter
  (\<open>delivery/adapter.rs\<close>), which keeps proofs of Silicon Accounts and talks to Ting
  (\<open>infrastructure/ting.rs\<close>). A caller is authenticated and authorized in \<open>application/access.rs\<close> over
  the account cache (\<open>postgres/accounts.rs\<close>, fed by \<open>postgres/accounts_events.rs\<close> from verified
  webhooks) and the handle to Silicon Accounts (\<open>infrastructure/accounts.rs\<close>); the lifecycle use cases
  (\<open>application/hooks.rs\<close>), the history (\<open>application/history.rs\<close>) and sharing
  (\<open>application/sharing.rs\<close>) then run on the tables.

  \<^bold>\<open>Theories.\<close>

  \<^item> Vocabulary: \<open>Prelude\<close> (results, byte order, stable sort, sorted maps), \<open>Std_Text\<close> (UTF-8,
    \<open>char\<close> and \<open>str\<close> functions), \<open>Contracts\<close> (the locales \<open>name_table\<close>, \<open>validated_text\<close>,
    \<open>transition_system\<close>, \<open>monotone_system\<close>), \<open>Crates\<close> (third-party functions as a record).
  \<^item> Signature expressions (\<open>domain/signature/\<close>): \<open>Ast\<close>, \<open>Lexer\<close>, \<open>Parser\<close>, with \<open>Grammar\<close> (what a
    parse guarantees) and \<open>RoundTrip\<close> (printing and parsing are inverse); \<open>SigValue\<close>, \<open>Eval\<close> with
    \<open>EvalFacts\<close> and \<open>EvalProps\<close>; \<open>Config\<close> (configurations and public keys); \<open>Verify\<close>.
  \<^item> Domain: \<open>Request\<close> (\<open>request.rs\<close>), \<open>Identity\<close> (\<open>id.rs\<close>, \<open>account.rs\<close>, \<open>actor.rs\<close>), \<open>Policy\<close>
    (\<open>policy.rs\<close>), \<open>Safety\<close> (\<open>safety.rs\<close>), \<open>HookValues\<close> and \<open>Hook\<close> (\<open>hook.rs\<close>), \<open>Event\<close> (\<open>event.rs\<close>,
    \<open>cursor.rs\<close>).
  \<^item> Persistence (\<open>infrastructure/postgres/\<close>): \<open>Crypto\<close> (\<open>infrastructure/crypto.rs\<close>), \<open>Rows\<close> (\<open>models.rs\<close>,
    \<open>error.rs\<close>), \<open>Database\<close> (the tables), \<open>Idempotency\<close>, \<open>HookStore\<close> (\<open>hooks.rs\<close>), \<open>Outbox\<close> (\<open>ting.rs\<close>,
    subscriptions), \<open>EventStore\<close> (\<open>events.rs\<close>, \<open>safety.rs\<close>, \<open>maintenance.rs\<close>), \<open>Accounts\<close> (\<open>accounts.rs\<close>,
    \<open>access.rs\<close>), \<open>AccountsEvents\<close>; what they do to the tables in \<open>HookStoreFacts\<close>, \<open>EventFacts\<close>,
    \<open>AccountsFacts\<close>, \<open>EndpointKeys\<close>, \<open>Paging\<close> (the locale \<open>keyset\<close>); runs of all transactions in
    \<open>System\<close>.
  \<^item> Use cases (\<open>application/\<close>): \<open>Application\<close> (errors, composition), \<open>Ingress\<close>, \<open>History\<close>,
    \<open>HookUseCases\<close>, \<open>Gateway\<close> (the handle to Silicon Accounts), \<open>Access\<close>, \<open>Sharing\<close>; the lemmas about
    them in \<open>IngressFacts\<close>, \<open>HookUseCaseFacts\<close>, \<open>HookSigning\<close>, \<open>HookReplay\<close>, \<open>AccessFacts\<close>.
  \<^item> Delivery: \<open>Ting\<close>, \<open>Adapter\<close>, \<open>Publisher\<close>.
  \<^item> Properties: the theories ending in \<open>Props\<close>, with concrete states in \<open>StoreDemo\<close> and \<open>IngressDemo\<close>
    and at the end of the theories themselves.

  \<^bold>\<open>How state and operations correspond to the code.\<close> A struct is a record, an enum a datatype with the
  source's constructors, a fallible function returns \<open>result\<close> with the source's error enum. The tables
  are the record \<open>db\<close>, a transaction is a function from \<open>db\<close> to a result with the new \<open>db\<close>, and a
  statement is translated row by row with the unique indexes and check constraints it can violate. A
  use case is a function of the state that keeps the state of an error that was committed before it.
  Instants are integers in nanoseconds; bytes and cryptographic words have their width; \<open>usize\<close> and
  \<open>i64\<close> values that are checked in the source are checked in the model. Text is the list of its code
  points, its length in bytes is \<open>str_len\<close>.

  \<^bold>\<open>What the lemmas show.\<close> The parser always returns, refuses what the grammar excludes and undoes the
  printer; evaluation keeps text valid and never assembles a payload from missing parts; a
  configuration verifies a request exactly when one presented candidate is a valid signature of the
  evaluated payload. The webhook aggregate refines its lifecycle, and every transaction on the hook
  table is one transition of it with its audit row. Endpoint keys are never reused; the events of a
  stream are dense; an event exists only for a request that was authenticated as its hook requires;
  withheld requests leave the stream alone and close the endpoint to their address. Following the
  cursors of a history gives every record once. Facts about accounts move forward only, account
  events take effect once and in any order of delivery. Management is confined to the authorized
  Silicon, happens once per idempotency key, and leaves hooks that can verify. Tokens that ended do
  not authenticate, access rests on a relation, Silicons are given access by their leave, and sign-outs
  end earlier sessions. A lease excludes other publishers, a publication sends the stored bytes and
  records what Ting confirmed, a refused proof is renewed once. Some theorems show behaviour that
  differs from what comments promise; they are stated as the code behaves.

  \<^bold>\<open>Interfaces.\<close> \<open>name_table\<close> is interpreted for block roots, sort orders, functions and grant levels;
  \<open>validated_text\<close> for the identifiers, keys, secrets, names and descriptions; \<open>transition_system\<close> for
  the hook lifecycle and identity, the strike counter, the account cache, the publishers; its extension
  \<open>monotone_system\<close> for receipt and block times and the registry of endpoint keys; \<open>keyset\<close> for both
  logs.

  \<^bold>\<open>Termination, bounds and fuel.\<close> Lexing recurses on the text that is left. The mutually recursive
  parsing functions carry fuel, four units for each token and one more; a theorem shows
  that it never runs out, so the bounds of the source on depth and nodes are the only limits. The
  rejection loop of random keys is a \<open>partial_function\<close> over the entropy it draws as a stream: it ends
  when the stream holds enough acceptable bytes. The attempts of a creation recurse on the attempts
  that are left, and the rounds of a send end by a measure, the single retry.

  \<^bold>\<open>Parameters.\<close> Code outside the repository is an argument: digests, ciphers and HMAC, signature
  verification with public keys, \<open>url\<close>, \<open>serde_json\<close> and the parsers its derives generate, \<open>time\<close> and
  \<open>jiff\<close>, \<open>uuid\<close>, random bytes, the client of Silicon Accounts and the network. Where a property relies
  on documented behaviour of a crate it is a named hypothesis (\<open>codecs_round_trip\<close>,
  \<open>crates_return_text\<close>, \<open>uuid_text_is_hex\<close> and others), and a witness instantiates it.

  \<^bold>\<open>Simplifications.\<close> Where the source reads the clock several times within one statement or
  one operation, the model reads it once, except where the time between readings matters (ingress,
  publication). Transactions run one after another, as the row locks of the source order them; lock
  waits, deadlocks and lost connections are not modelled, and \<open>SKIP LOCKED\<close> finds nothing locked. The
  explanations in refusals are left out, their status and code are kept. Check constraints that repeat
  a validation of the domain are not repeated, except those a captured request can violate. Columns
  that are no longer read (the organization of a send) and the test environments are left out.
  Poisoned locks do not occur, and single-flight renewals are one step.

  \<^bold>\<open>Not modelled.\<close> The HTTP surface (\<open>api/\<close>, \<open>error.rs\<close>): routing, extraction and JSON shapes around the
  use cases, built on \<open>axum\<close>. Reading the environment (\<open>config.rs\<close>), process start, logging, shutdown
  and timers (\<open>bin/\<close>, \<open>logging.rs\<close>, \<open>shutdown.rs\<close>, \<open>worker/mod.rs\<close>). The checks of a database's shape
  at start (\<open>postgres/readiness.rs\<close>, \<open>schema_contract.rs\<close>, \<open>mod.rs\<close>) and the one-time linking of old
  identities by an operator (\<open>postgres/identity_links.rs\<close>). The warnings about webhook settings
  (\<open>infrastructure/webhook_settings.rs\<close>). The command line and the client library (\<open>crates/\<close>), which
  call the HTTP surface and store sessions on disk; the web site, deployment, migrations, tests and
  documents.
\<close>

end
